(* ===== verification/Event_System.thy ===== *)
theory Event_System
  imports Main
begin

text \<open>
  Components that run concurrently are event systems: a state, and a partial function that says
  what each event does to it, undefined where the event cannot happen.  An invariant of the initial
  states that every event keeps holds after every sequence of events.
\<close>

fun run_events :: "('e \<Rightarrow> 's \<Rightarrow> 's option) \<Rightarrow> 'e list \<Rightarrow> 's \<Rightarrow> 's option" where
  "run_events step [] s = Some s"
| "run_events step (e # es) s = Option.bind (step e s) (run_events step es)"

lemma run_events_append:
  "run_events step (es @ es') s = Option.bind (run_events step es s) (run_events step es')"
  by (induction es arbitrary: s) (auto split: Option.bind_split)

locale event_system =
  fixes step :: "'e \<Rightarrow> 's \<Rightarrow> 's option" and inv :: "'s \<Rightarrow> bool"
  assumes step_inv: "inv s \<Longrightarrow> step e s = Some s' \<Longrightarrow> inv s'"
begin

lemma run_inv: "inv s \<Longrightarrow> run_events step es s = Some s' \<Longrightarrow> inv s'"
  by (induction es arbitrary: s) (auto simp: bind_eq_Some_conv intro: step_inv)

end

end
