(* ===== verification/Prelude.thy ===== *)
theory Prelude
  imports Main "HOL-Library.AList" "HOL-Library.Sublist"
begin

text \<open>
  Shared vocabulary of the development: the lemma collections the component proofs draw on,
  the parts of Python's string, list and dict behaviour that the sources use, and the generic
  facts about them.

  Strings are lists of 8-bit characters, so the model covers text of the Latin-1 range.  A dict
  is an association list in insertion order (\<open>AList.update\<close> overwrites in place and appends
  a new key at the end, as Python does).
\<close>

named_theorems pystr_simps \<open>evaluation rules for the string helpers\<close>
named_theorems wp_rules \<open>weakest-precondition equations of the parser combinators\<close>

section \<open>Results\<close>

text \<open>A computation that may raise: \<open>Inl\<close> is the exception.  \<open>ebind\<close> is sequencing.\<close>

definition ebind :: "'e + 'a \<Rightarrow> ('a \<Rightarrow> 'e + 'b) \<Rightarrow> 'e + 'b" where
  "ebind m f = (case m of Inl e \<Rightarrow> Inl e | Inr a \<Rightarrow> f a)"

lemma ebind_simps [simp]: "ebind (Inl e) f = Inl e" "ebind (Inr a) f = f a"
  by (simp_all add: ebind_def)

lemma ebind_Inr_iff: "ebind m f = Inr b \<longleftrightarrow> (\<exists>a. m = Inr a \<and> f a = Inr b)"
  by (cases m) auto

lemma ebind_InrE [elim!]: "ebind m f = Inr b \<Longrightarrow> (\<And>a. m = Inr a \<Longrightarrow> f a = Inr b \<Longrightarrow> P) \<Longrightarrow> P"
  by (cases m) auto

lemma ebind_assoc: "ebind (ebind m f) g = ebind m (\<lambda>a. ebind (f a) g)"
  by (cases m) auto

lemma ebind_cong [fundef_cong]: "m = m' \<Longrightarrow> (\<And>a. m' = Inr a \<Longrightarrow> f a = f' a) \<Longrightarrow> ebind m f = ebind m' f'"
  by (cases m') auto

section \<open>Characters\<close>

abbreviation code_of :: "char \<Rightarrow> nat" where
  "code_of c \<equiv> of_char c"

definition is_digit :: "char \<Rightarrow> bool" where
  "is_digit c \<longleftrightarrow> 48 \<le> code_of c \<and> code_of c \<le> 57"

definition is_upper :: "char \<Rightarrow> bool" where
  "is_upper c \<longleftrightarrow> 65 \<le> code_of c \<and> code_of c \<le> 90"

definition is_lower :: "char \<Rightarrow> bool" where
  "is_lower c \<longleftrightarrow> 97 \<le> code_of c \<and> code_of c \<le> 122"

definition is_word_start :: "char \<Rightarrow> bool" where
  "is_word_start c \<longleftrightarrow> is_upper c \<or> is_lower c \<or> c = CHR ''_''"

definition is_word_char :: "char \<Rightarrow> bool" where
  "is_word_char c \<longleftrightarrow> is_word_start c \<or> is_digit c"

text \<open>The class \<open>\s\<close> of an ASCII regular expression.\<close>

definition is_ws :: "char \<Rightarrow> bool" where
  "is_ws c \<longleftrightarrow> code_of c = 32 \<or> (9 \<le> code_of c \<and> code_of c \<le> 13)"

text \<open>What \<open>str.strip\<close> removes (the Latin-1 part of \<open>str.isspace\<close>).\<close>

definition is_space :: "char \<Rightarrow> bool" where
  "is_space c \<longleftrightarrow> is_ws c \<or> (28 \<le> code_of c \<and> code_of c \<le> 31) \<or> code_of c = 133 \<or> code_of c = 160"

definition to_upper :: "char \<Rightarrow> char" where
  "to_upper c = (if is_lower c then char_of (code_of c - 32) else c)"

definition to_lower :: "char \<Rightarrow> char" where
  "to_lower c = (if is_upper c then char_of (code_of c + 32) else c)"

lemmas char_class_defs = is_digit_def is_upper_def is_lower_def is_word_start_def
  is_word_char_def is_ws_def is_space_def

declare char_class_defs [pystr_simps] to_upper_def [pystr_simps] to_lower_def [pystr_simps]

lemma digit_not_word_start: "is_digit c \<Longrightarrow> \<not> is_word_start c"
  by (auto simp: char_class_defs)

lemma word_char_not_ws: "is_word_char c \<Longrightarrow> \<not> is_ws c"
  by (auto simp: char_class_defs)

lemma ws_is_space: "is_ws c \<Longrightarrow> is_space c"
  by (simp add: is_space_def)

section \<open>Strings\<close>

definition strip :: "string \<Rightarrow> string" where
  "strip s = rev (dropWhile is_space (rev (dropWhile is_space s)))"

definition strip_ends :: "string \<Rightarrow> bool" where
  "strip_ends s \<longleftrightarrow> s = [] \<or> (\<not> is_space (hd s) \<and> \<not> is_space (last s))"

lemma dropWhile_id: "xs = [] \<or> \<not> P (hd xs) \<Longrightarrow> dropWhile P xs = xs"
  by (cases xs) auto

lemma strip_idle: "strip_ends s \<Longrightarrow> strip s = s"
  by (cases "s = []") (simp_all add: strip_def strip_ends_def dropWhile_id hd_rev)

lemma hd_dropWhile_not: "dropWhile P xs \<noteq> [] \<Longrightarrow> \<not> P (hd (dropWhile P xs))"
  by (rule hd_dropWhile)

lemma length_strip: "length (strip s) \<le> length s"
  by (metis strip_def length_dropWhile_le length_rev order_trans)

fun join :: "string \<Rightarrow> string list \<Rightarrow> string" where
  "join sep [] = []"
| "join sep [x] = x"
| "join sep (x # y # ys) = x @ sep @ join sep (y # ys)"

lemma join_Cons: "xs \<noteq> [] \<Longrightarrow> join sep (x # xs) = x @ sep @ join sep xs"
  by (cases xs) auto

definition ends_with :: "string \<Rightarrow> string \<Rightarrow> bool" where
  "ends_with s suf \<longleftrightarrow> suffix suf s"

definition upper :: "string \<Rightarrow> string" where
  "upper s = map to_upper s"

definition lower :: "string \<Rightarrow> string" where
  "lower s = map to_lower s"

declare upper_def [pystr_simps] lower_def [pystr_simps]

section \<open>Decimal integers\<close>

definition digit_char :: "nat \<Rightarrow> char" where
  "digit_char d = char_of (48 + d)"

definition digit_val :: "char \<Rightarrow> nat" where
  "digit_val c = code_of c - 48"

fun str_nat :: "nat \<Rightarrow> string" where
  "str_nat n = (if n < 10 then [digit_char n] else str_nat (n div 10) @ [digit_char (n mod 10)])"

declare str_nat.simps [simp del]

definition str_int :: "int \<Rightarrow> string" where
  "str_int i = (if i < 0 then CHR ''-'' # str_nat (nat (- i)) else str_nat (nat i))"

definition nat_of_digits :: "string \<Rightarrow> nat" where
  "nat_of_digits s = foldl (\<lambda>n c. 10 * n + digit_val c) 0 s"

lemma code_of_digit_char [simp]: "d < 10 \<Longrightarrow> code_of (digit_char d) = 48 + d"
  by (simp add: digit_char_def)

lemma digit_val_digit_char [simp]: "d < 10 \<Longrightarrow> digit_val (digit_char d) = d"
  by (simp add: digit_val_def)

lemma is_digit_digit_char [simp]: "d < 10 \<Longrightarrow> is_digit (digit_char d)"
  by (simp add: is_digit_def)

lemma str_nat_nonempty [simp]: "str_nat n \<noteq> []"
  by (subst str_nat.simps) simp

lemma str_nat_digits: "\<forall>c \<in> set (str_nat n). is_digit c"
proof (induction n rule: str_nat.induct)
  case (1 n)
  show ?case
  proof (cases "n < 10")
    case True
    then show ?thesis by (subst str_nat.simps) simp
  next
    case False
    with "1.IH" show ?thesis by (subst str_nat.simps) auto
  qed
qed

lemma nat_of_digits_snoc [simp]: "nat_of_digits (s @ [c]) = 10 * nat_of_digits s + digit_val c"
  by (simp add: nat_of_digits_def)

lemma nat_of_digits_Nil [simp]: "nat_of_digits [] = 0"
  by (simp add: nat_of_digits_def)

theorem nat_of_digits_str_nat [simp]: "nat_of_digits (str_nat n) = n"
proof (induction n rule: str_nat.induct)
  case (1 n)
  show ?case
  proof (cases "n < 10")
    case True
    then show ?thesis
      using nat_of_digits_snoc [of "[]" "digit_char n"] by (simp add: str_nat.simps [of n])
  next
    case False
    with "1.IH" show ?thesis by (simp add: str_nat.simps [of n])
  qed
qed

lemma str_nat_inj: "str_nat m = str_nat n \<longleftrightarrow> m = n"
  by (metis nat_of_digits_str_nat)

text \<open>
  \<open>int(s)\<close> in base ten: surrounding whitespace, one sign, digits with single underscores
  between them; \<open>None\<close> is the \<open>ValueError\<close>.
\<close>

fun digits_ok :: "bool \<Rightarrow> string \<Rightarrow> bool" where
  "digits_ok prev_digit [] = prev_digit"
| "digits_ok prev_digit (c # cs) =
     (if is_digit c then digits_ok True cs
      else c = CHR ''_'' \<and> prev_digit \<and> digits_ok False cs)"

definition int_of_string :: "string \<Rightarrow> int option" where
  "int_of_string s =
     (let t = strip s;
          sg = (if t \<noteq> [] \<and> hd t = CHR ''-'' then - 1 else 1);
          b = (if t \<noteq> [] \<and> (hd t = CHR ''-'' \<or> hd t = CHR ''+'') then tl t else t)
      in if digits_ok False b then Some (sg * int (nat_of_digits (filter is_digit b))) else None)"

section \<open>Dicts and list slices\<close>

type_synonym ('k, 'v) dict = "('k \<times> 'v) list"

definition dict_get :: "('k, 'v) dict \<Rightarrow> 'k \<Rightarrow> 'v \<Rightarrow> 'v" where
  "dict_get d k dflt = (case map_of d k of None \<Rightarrow> dflt | Some v \<Rightarrow> v)"

abbreviation dict_set :: "'k \<Rightarrow> 'v \<Rightarrow> ('k, 'v) dict \<Rightarrow> ('k, 'v) dict" where
  "dict_set \<equiv> AList.update"

abbreviation dict_pop :: "'k \<Rightarrow> ('k, 'v) dict \<Rightarrow> ('k, 'v) dict" where
  "dict_pop \<equiv> AList.delete"

abbreviation dict_keys :: "('k, 'v) dict \<Rightarrow> 'k list" where
  "dict_keys \<equiv> map fst"

abbreviation dict_values :: "('k, 'v) dict \<Rightarrow> 'v list" where
  "dict_values \<equiv> map snd"

abbreviation wf_dict :: "('k, 'v) dict \<Rightarrow> bool" where
  "wf_dict d \<equiv> distinct (dict_keys d)"

text \<open>\<open>xs[-n:]\<close> for a positive \<open>n\<close>.\<close>

definition last_n :: "nat \<Rightarrow> 'a list \<Rightarrow> 'a list" where
  "last_n n xs = drop (length xs - n) xs"

lemma length_last_n [simp]: "length (last_n n xs) = min n (length xs)"
  by (simp add: last_n_def)

lemma last_n_all: "length xs \<le> n \<Longrightarrow> last_n n xs = xs"
  by (simp add: last_n_def)

lemma map_of_update [simp]: "map_of (dict_set k v d) = (map_of d)(k \<mapsto> v)"
  by (rule update_conv')

lemma map_of_pop [simp]: "map_of (dict_pop k d) = (map_of d)(k := None)"
  by (rule delete_conv')

lemma wf_dict_set [simp]: "wf_dict d \<Longrightarrow> wf_dict (dict_set k v d)"
  by (rule distinct_update)

lemma wf_dict_pop [simp]: "wf_dict d \<Longrightarrow> wf_dict (dict_pop k d)"
  by (rule distinct_delete)

lemma keys_dict_set [simp]: "set (dict_keys (dict_set k v d)) = insert k (set (dict_keys d))"
  by (induction d) auto

lemma keys_dict_pop [simp]: "set (dict_keys (dict_pop k d)) = set (dict_keys d) - {k}"
  by (induction d) auto

end
