(* ===== verification/Leader.thy ===== *)
theory Leader
  imports Event_System Prelude
begin

text \<open>
  The leader election of the central scheduler (\<open>scheduler/leader.py\<close>): instances compete for a Redis
  key with a time to live.  The three commands are atomic on the server; an instance sends one at a
  time and waits for the answer, while others run and time passes.  A command whose caller has given
  up (an exception, a cancelled task) can still reach the server later.  Redis keeps what it
  acknowledged; the loss of the key in a failover is outside of the model.
\<close>

section \<open>Redis\<close>

definition LEADER_TTL :: int where "LEADER_TTL = 30000000"

datatype command = SetNx | Renew | Release

type_synonym lease = "(string \<times> int) option"

definition redis_get :: "int \<Rightarrow> lease \<Rightarrow> string option" where
  "redis_get now key = (case key of None \<Rightarrow> None | Some (v, expires) \<Rightarrow> if now < expires then Some v else None)"

fun redis_exec :: "int \<Rightarrow> string \<Rightarrow> command \<Rightarrow> lease \<Rightarrow> bool \<times> lease" where
  "redis_exec now i SetNx key = (if redis_get now key = None then (True, Some (i, now + LEADER_TTL)) else (False, key))"
| "redis_exec now i Renew key = (if redis_get now key = Some i then (True, Some (i, now + LEADER_TTL)) else (False, key))"
| "redis_exec now i Release key = (if redis_get now key = Some i then (True, None) else (False, key))"

section \<open>An instance\<close>

datatype pc = Sleeping | AwaitSet | AwaitRenew | AwaitRelease | Stopped

text \<open>
  \<open>el_seq\<close> numbers the commands sent.  \<open>el_confirmed_at\<close> is the time the last command that was
  answered positively was sent at; the code does not keep it.
\<close>

record election =
  el_is_leader :: bool
  el_pc :: pc
  el_wake_at :: int
  el_seq :: nat
  el_sent_at :: int
  el_confirmed_at :: "int option"

definition new_election :: "int \<Rightarrow> nat \<Rightarrow> election" where
  "new_election now n = \<lparr>el_is_leader = False, el_pc = Sleeping, el_wake_at = now, el_seq = n, el_sent_at = now, el_confirmed_at = None\<rparr>"

definition go_to_sleep :: "int \<Rightarrow> election \<Rightarrow> election" where
  "go_to_sleep now el = el\<lparr>el_pc := Sleeping, el_wake_at := now + LEADER_TTL div 3\<rparr>"

definition send_command :: "int \<Rightarrow> pc \<Rightarrow> election \<Rightarrow> election" where
  "send_command now p el = el\<lparr>el_pc := p, el_seq := el_seq el + 1, el_sent_at := now\<rparr>"

definition confirm :: "bool \<Rightarrow> election \<Rightarrow> election" where
  "confirm b el = (if b then el\<lparr>el_is_leader := True, el_confirmed_at := Some (el_sent_at el)\<rparr> else el\<lparr>el_is_leader := False\<rparr>)"

text \<open>
  What the answer to each command does, and the command sent next.  No answer is an exception: in
  the first command it clears the flag, in the second it does not.
\<close>

definition on_answer :: "int \<Rightarrow> bool option \<Rightarrow> election \<Rightarrow> election \<times> command option" where
  "on_answer now answer el =
     (case el_pc el of
        AwaitSet \<Rightarrow>
          (case answer of
             None \<Rightarrow> (go_to_sleep now (el\<lparr>el_is_leader := False\<rparr>), None)
           | Some True \<Rightarrow> (go_to_sleep now (confirm True el), None)
           | Some False \<Rightarrow> (send_command now AwaitRenew el, Some Renew))
      | AwaitRenew \<Rightarrow>
          (case answer of
             None \<Rightarrow> (go_to_sleep now el, None)
           | Some b \<Rightarrow> (go_to_sleep now (confirm b el), None))
      | AwaitRelease \<Rightarrow> (el\<lparr>el_is_leader := False, el_pc := Stopped\<rparr>, None)
      | _ \<Rightarrow> (el, None))"

definition on_wake :: "int \<Rightarrow> election \<Rightarrow> election \<times> command option" where
  "on_wake now el = (send_command now AwaitSet el, Some SetNx)"

definition on_stop :: "int \<Rightarrow> election \<Rightarrow> election \<times> command option" where
  "on_stop now el =
     (if el_is_leader el then (send_command now AwaitRelease el, Some Release) else (el\<lparr>el_pc := Stopped\<rparr>, None))"

text \<open>One attempt with nothing in between: the answers come at once, or not at all.\<close>

definition try_acquire :: "int \<Rightarrow> string \<Rightarrow> (command \<Rightarrow> bool) \<Rightarrow> lease \<Rightarrow> election \<Rightarrow> lease \<times> election" where
  "try_acquire now i reachable key el =
     (let el = fst (on_wake now el)
      in if \<not> reachable SetNx then (key, fst (on_answer now None el))
         else let (acquired, key) = redis_exec now i SetNx key;
                  (el, nxt) = on_answer now (Some acquired) el
              in if nxt \<noteq> Some Renew then (key, el)
                 else if \<not> reachable Renew then (key, fst (on_answer now None el))
                 else let (renewed, key) = redis_exec now i Renew key
                      in (key, fst (on_answer now (Some renewed) el)))"

section \<open>The cluster\<close>

text \<open>\<open>cl_grant\<close> records until when the server last promised the key to an instance.\<close>

record cluster =
  cl_now :: int
  cl_key :: lease
  cl_grant :: "string \<Rightarrow> int option"
  cl_inst :: "string \<Rightarrow> election"
  cl_requests :: "(string \<times> nat \<times> command) list"
  cl_answers :: "(string \<times> nat \<times> bool) list"

datatype election_event =
    Tick nat
  | Wake string
  | Serve "string \<times> nat \<times> command"
  | Answer "string \<times> nat \<times> bool"
  | Fail string
  | Stop string
  | Restart string

definition client :: "string \<Rightarrow> election \<times> command option \<Rightarrow> cluster \<Rightarrow> cluster" where
  "client i r s =
     s\<lparr>cl_inst := (cl_inst s)(i := fst r),
       cl_requests := (case snd r of None \<Rightarrow> cl_requests s | Some c \<Rightarrow> (i, el_seq (fst r), c) # cl_requests s)\<rparr>"

definition serve :: "string \<times> nat \<times> command \<Rightarrow> cluster \<Rightarrow> cluster" where
  "serve r s =
     (case r of (i, n, c) \<Rightarrow>
        let (b, key) = redis_exec (cl_now s) i c (cl_key s)
        in s\<lparr>cl_key := key, cl_requests := remove1 r (cl_requests s), cl_answers := (i, n, b) # cl_answers s,
             cl_grant := (if b then (cl_grant s)(i := map_option snd key) else cl_grant s)\<rparr>)"

definition waits :: "election \<Rightarrow> bool" where
  "waits el \<longleftrightarrow> el_pc el \<in> {AwaitSet, AwaitRenew, AwaitRelease}"

definition runs :: "election \<Rightarrow> bool" where
  "runs el \<longleftrightarrow> el_pc el \<in> {Sleeping, AwaitSet, AwaitRenew}"

fun election_step :: "election_event \<Rightarrow> cluster \<Rightarrow> cluster option" where
  "election_step (Tick n) s = Some (s\<lparr>cl_now := cl_now s + int n\<rparr>)"
| "election_step (Wake i) s =
     (let el = cl_inst s i
      in if el_pc el = Sleeping \<and> el_wake_at el \<le> cl_now s then Some (client i (on_wake (cl_now s) el) s) else None)"
| "election_step (Serve r) s = (if r \<in> set (cl_requests s) then Some (serve r s) else None)"
| "election_step (Answer a) s =
     (case a of (i, n, b) \<Rightarrow>
        if a \<in> set (cl_answers s) \<and> waits (cl_inst s i) \<and> el_seq (cl_inst s i) = n
        then Some (client i (on_answer (cl_now s) (Some b) (cl_inst s i)) s) else None)"
| "election_step (Fail i) s =
     (if waits (cl_inst s i) then Some (client i (on_answer (cl_now s) None (cl_inst s i)) s) else None)"
| "election_step (Stop i) s =
     (if runs (cl_inst s i) then Some (client i (on_stop (cl_now s) (cl_inst s i)) s) else None)"
| "election_step (Restart i) s =
     (if el_pc (cl_inst s i) = Stopped \<and> (\<forall>r \<in> set (cl_requests s). fst r \<noteq> i)
      then Some (s\<lparr>cl_inst := (cl_inst s)(i := new_election (cl_now s) (el_seq (cl_inst s i)))\<rparr>) else None)"

definition start_cluster :: "int \<Rightarrow> cluster" where
  "start_cluster now = \<lparr>cl_now = now, cl_key = None, cl_grant = (\<lambda>_. None), cl_inst = (\<lambda>_. new_election now 0),
     cl_requests = [], cl_answers = []\<rparr>"

section \<open>Exclusion\<close>

text \<open>An instance leads on a confirmation that it asked for less than the time to live ago.\<close>

definition leads :: "cluster \<Rightarrow> string \<Rightarrow> bool" where
  "leads s i \<longleftrightarrow> el_is_leader (cl_inst s i) \<and> runs (cl_inst s i) \<and>
     (case el_confirmed_at (cl_inst s i) of None \<Rightarrow> False | Some t \<Rightarrow> cl_now s < t + LEADER_TTL)"

definition promised :: "cluster \<Rightarrow> string \<Rightarrow> int \<Rightarrow> bool" where
  "promised s i t \<longleftrightarrow> (\<exists>g. cl_grant s i = Some g \<and> t + LEADER_TTL \<le> g)"

text \<open>
  A promise that has not run out is in the key; the flag of a running instance and a positive
  answer on its way to it stand for a promise made after the command was sent; nothing of an
  instance is numbered beyond its last command, and only a stopping one asks for release.
\<close>

definition server_ok :: "cluster \<Rightarrow> bool" where
  "server_ok s \<longleftrightarrow> (\<forall>i g. cl_grant s i = Some g \<longrightarrow> g \<le> cl_now s + LEADER_TTL \<and> (cl_now s < g \<longrightarrow> cl_key s = Some (i, g)))"

definition numbered :: "cluster \<Rightarrow> string \<Rightarrow> bool" where
  "numbered s i \<longleftrightarrow> (\<forall>n c. (i, n, c) \<in> set (cl_requests s) \<longrightarrow> n \<le> el_seq (cl_inst s i) \<and> (c = Release \<longrightarrow> \<not> runs (cl_inst s i))) \<and>
     (\<forall>n b. (i, n, b) \<in> set (cl_answers s) \<longrightarrow> n \<le> el_seq (cl_inst s i)) \<and> el_sent_at (cl_inst s i) \<le> cl_now s"

definition backed :: "cluster \<Rightarrow> string \<Rightarrow> bool" where
  "backed s i \<longleftrightarrow>
     (runs (cl_inst s i) \<and> el_is_leader (cl_inst s i) \<longrightarrow> (\<exists>t. el_confirmed_at (cl_inst s i) = Some t \<and> promised s i t)) \<and>
     (el_pc (cl_inst s i) \<in> {AwaitSet, AwaitRenew} \<and> (i, el_seq (cl_inst s i), True) \<in> set (cl_answers s) \<longrightarrow>
        promised s i (el_sent_at (cl_inst s i)))"

definition election_inv :: "cluster \<Rightarrow> bool" where
  "election_inv s \<longleftrightarrow> server_ok s \<and> (\<forall>i. numbered s i \<and> backed s i)"

lemma start_cluster_inv: "election_inv (start_cluster now)"
  by (simp add: election_inv_def start_cluster_def server_ok_def numbered_def backed_def new_election_def)

lemma TTL_pos [simp]: "0 < LEADER_TTL"
  by (simp add: LEADER_TTL_def)

lemma redis_exec_release: "redis_exec now i c key = (b, key') \<Longrightarrow> c \<noteq> Release \<Longrightarrow> b \<Longrightarrow> key' = Some (i, now + LEADER_TTL)"
  by (cases c) (auto split: if_splits)

lemma redis_exec_holder:
  "redis_exec now i c key = (b, key') \<Longrightarrow> key = Some (j, g) \<Longrightarrow> now < g \<Longrightarrow> i \<noteq> j \<Longrightarrow> \<not> b \<and> key' = key"
  by (cases c) (auto simp: redis_get_def split: if_splits)

lemma redis_exec_fail: "redis_exec now i c key = (False, key') \<Longrightarrow> key' = key"
  by (cases c) (auto split: if_splits)

lemma tick_inv:
  assumes "election_inv s"
  shows "election_inv (s\<lparr>cl_now := cl_now s + int n\<rparr>)"
proof -
  have "server_ok (s\<lparr>cl_now := cl_now s + int n\<rparr>)"
    using assms by (simp add: election_inv_def server_ok_def) (smt (verit) of_nat_0_le_iff)
  moreover have "numbered (s\<lparr>cl_now := cl_now s + int n\<rparr>) i" for i
    using assms unfolding election_inv_def numbered_def by simp (meson add_increasing2 of_nat_0_le_iff)
  moreover have "backed (s\<lparr>cl_now := cl_now s + int n\<rparr>) i" for i
    using assms unfolding election_inv_def backed_def promised_def by simp
  ultimately show ?thesis by (simp add: election_inv_def)
qed

text \<open>What a client does leaves the server alone, and the other instances.\<close>

lemma client_simps [simp]:
  "cl_now (client i r s) = cl_now s" "cl_key (client i r s) = cl_key s" "cl_grant (client i r s) = cl_grant s"
  "cl_answers (client i r s) = cl_answers s" "cl_inst (client i r s) = (cl_inst s)(i := fst r)"
  "cl_requests (client i r s) = (case snd r of None \<Rightarrow> cl_requests s | Some c \<Rightarrow> (i, el_seq (fst r), c) # cl_requests s)"
  by (simp_all add: client_def)

definition client_ok :: "cluster \<Rightarrow> string \<Rightarrow> election \<times> command option \<Rightarrow> bool" where
  "client_ok s i r \<longleftrightarrow>
     (let old = cl_inst s i; new = fst r
      in el_sent_at new \<le> cl_now s \<and>
         (runs new \<longrightarrow> runs old \<and> snd r \<noteq> Some Release) \<and>
         (case snd r of None \<Rightarrow> el_seq new = el_seq old \<and> \<not> (waits new) | Some c \<Rightarrow> el_seq new = el_seq old + 1) \<and>
         (runs new \<and> el_is_leader new \<longrightarrow> (\<exists>t. el_confirmed_at new = Some t \<and> promised s i t)))"

lemma client_inv:
  assumes "election_inv s" and "client_ok s i r"
  shows "election_inv (client i r s)"
proof -
  have "server_ok (client i r s)" using assms(1) by (simp add: election_inv_def server_ok_def)
  moreover have "numbered (client i r s) j" for j
  proof (cases "j = i")
    case True
    have "numbered s i" using assms(1) by (simp add: election_inv_def)
    then show ?thesis
      using True assms(2) unfolding numbered_def client_ok_def Let_def by (cases "snd r") (auto intro: le_SucI)
  next
    case False
    have "numbered s j" using assms(1) by (simp add: election_inv_def)
    then show ?thesis using False unfolding numbered_def by (cases "snd r") auto
  qed
  moreover have "backed (client i r s) j" for j
  proof (cases "j = i")
    case True
    have "numbered s i" using assms(1) by (simp add: election_inv_def)
    then have "\<And>b. (i, el_seq (cl_inst s i) + 1, b) \<notin> set (cl_answers s)" unfolding numbered_def by fastforce
    then show ?thesis
      using True assms(2) unfolding backed_def client_ok_def Let_def promised_def waits_def
      by (cases "snd r") auto
  next
    case False
    have "backed s j" using assms(1) by (simp add: election_inv_def)
    then show ?thesis using False unfolding backed_def promised_def by simp
  qed
  ultimately show ?thesis by (simp add: election_inv_def)
qed

lemma on_wake_ok:
  assumes "election_inv s" and "el_pc (cl_inst s i) = Sleeping"
  shows "client_ok s i (on_wake (cl_now s) (cl_inst s i))"
  using assms unfolding election_inv_def backed_def by (auto simp: client_ok_def on_wake_def send_command_def runs_def)

lemma on_stop_ok:
  assumes "election_inv s" and "runs (cl_inst s i)"
  shows "client_ok s i (on_stop (cl_now s) (cl_inst s i))"
  using assms unfolding election_inv_def numbered_def
  by (auto simp: client_ok_def on_stop_def send_command_def runs_def waits_def)

lemma on_answer_ok:
  assumes "election_inv s" and "waits (cl_inst s i)"
    and "\<And>b. answer = Some b \<Longrightarrow> (i, el_seq (cl_inst s i), b) \<in> set (cl_answers s)"
  shows "client_ok s i (on_answer (cl_now s) answer (cl_inst s i))"
proof -
  have n: "el_sent_at (cl_inst s i) \<le> cl_now s" using assms(1) by (simp add: election_inv_def numbered_def)
  have b: "el_is_leader (cl_inst s i) \<Longrightarrow> runs (cl_inst s i) \<Longrightarrow> \<exists>t. el_confirmed_at (cl_inst s i) = Some t \<and> promised s i t"
    using assms(1) by (simp add: election_inv_def backed_def)
  have p: "el_pc (cl_inst s i) \<in> {AwaitSet, AwaitRenew} \<Longrightarrow> answer = Some True \<Longrightarrow> promised s i (el_sent_at (cl_inst s i))"
    using assms(1,3) by (simp add: election_inv_def backed_def)
  show ?thesis
  proof (cases "el_pc (cl_inst s i)")
    case AwaitSet
    then show ?thesis using n b p
      by (cases answer) (auto simp: client_ok_def on_answer_def go_to_sleep_def send_command_def confirm_def runs_def waits_def split: bool.splits)
  next
    case AwaitRenew
    then show ?thesis using n b p
      by (cases answer) (auto simp: client_ok_def on_answer_def go_to_sleep_def confirm_def runs_def waits_def)
  next
    case AwaitRelease
    then show ?thesis using n by (simp add: client_ok_def on_answer_def runs_def waits_def)
  qed (use assms(2) in \<open>simp_all add: waits_def\<close>)
qed

lemma serve_inv:
  assumes "election_inv s" and "r \<in> set (cl_requests s)"
  shows "election_inv (serve r s)"
proof -
  obtain i n c where r: "r = (i, n, c)" by (cases r)
  obtain b key where x: "redis_exec (cl_now s) i c (cl_key s) = (b, key)" by (cases "redis_exec (cl_now s) i c (cl_key s)")
  let ?s = "serve r s"
  have s': "cl_now ?s = cl_now s" "cl_key ?s = key" "cl_inst ?s = cl_inst s" "cl_answers ?s = (i, n, b) # cl_answers s"
    "cl_requests ?s = remove1 r (cl_requests s)"
    "cl_grant ?s = (if b then (cl_grant s)(i := map_option snd key) else cl_grant s)"
    using x r by (simp_all add: serve_def)
  have srv: "server_ok s" and num: "\<And>j. numbered s j" and bck: "\<And>j. backed s j"
    using assms(1) by (simp_all add: election_inv_def)
  have req: "n \<le> el_seq (cl_inst s i)" "c = Release \<Longrightarrow> \<not> runs (cl_inst s i)"
    using num [of i] assms(2) r by (auto simp: numbered_def)
  have keep: "promised ?s j t" if "promised s j t" "j = i \<longrightarrow> c \<noteq> Release" for j t
  proof (cases "b \<and> j = i")
    case True
    then have "key = Some (i, cl_now s + LEADER_TTL)" using that redis_exec_release [OF x] by simp
    then show ?thesis using True that srv by (fastforce simp: promised_def s' server_ok_def)
  next
    case False
    then show ?thesis using that by (auto simp: promised_def s')
  qed
  have "server_ok ?s" unfolding server_ok_def
  proof (intro allI impI)
    fix j g assume g: "cl_grant ?s j = Some g"
    show "g \<le> cl_now ?s + LEADER_TTL \<and> (cl_now ?s < g \<longrightarrow> cl_key ?s = Some (j, g))"
    proof (cases "b \<and> j = i")
      case True
      then have "c \<noteq> Release" using g x by (auto simp: s' split: if_splits)
      then have "key = Some (i, cl_now s + LEADER_TTL)" using True redis_exec_release [OF x] by simp
      then show ?thesis using True g by (simp add: s')
    next
      case False
      then have old: "cl_grant s j = Some g" using g by (auto simp: s' split: if_splits)
      then have "g \<le> cl_now s + LEADER_TTL" "cl_now s < g \<Longrightarrow> cl_key s = Some (j, g)" using srv by (auto simp: server_ok_def)
      then show ?thesis using False redis_exec_holder [OF x] redis_exec_fail x by (cases b) (auto simp: s')
    qed
  qed
  moreover have "numbered ?s j" for j
    using num [of j] req(1) set_remove1_subset [of r "cl_requests s"] unfolding numbered_def s' by (auto 0 3)
  moreover have "backed ?s j" for j
  proof (cases "j = i \<and> c = Release")
    case True
    then show ?thesis using req(2) by (auto simp: backed_def runs_def s')
  next
    case False
    have "promised ?s i (el_sent_at (cl_inst s i))" if "b" "j = i"
    proof -
      have "key = Some (i, cl_now s + LEADER_TTL)" using that False redis_exec_release [OF x] by simp
      then show ?thesis using num [of i] that by (simp add: promised_def s' numbered_def)
    qed
    then show ?thesis using bck [of j] keep False unfolding backed_def s'(3,4) by auto
  qed
  ultimately show ?thesis by (simp add: election_inv_def)
qed

lemma step_election_inv:
  assumes "election_inv s" and "election_step e s = Some s'"
  shows "election_inv s'"
proof (cases e)
  case (Restart i)
  let ?el = "new_election (cl_now s) (el_seq (cl_inst s i))"
  have r: "\<forall>r \<in> set (cl_requests s). fst r \<noteq> i" "s' = s\<lparr>cl_inst := (cl_inst s)(i := ?el)\<rparr>"
    using assms(2) Restart by (auto split: if_splits)
  have "server_ok s'" using assms(1) by (simp add: r(2) election_inv_def server_ok_def)
  moreover have "numbered s' j" for j
    using assms(1) r(1) by (auto simp: r(2) election_inv_def numbered_def new_election_def)
  moreover have "backed s' j" for j
    using assms(1) by (auto simp: r(2) election_inv_def backed_def new_election_def promised_def)
  ultimately show ?thesis by (simp add: election_inv_def)
next
  case (Answer a)
  then show ?thesis using assms by (cases a) (auto split: if_splits intro!: client_inv on_answer_ok)
qed (use assms in \<open>auto simp: Let_def split: if_splits intro!: tick_inv client_inv on_wake_ok on_stop_ok on_answer_ok serve_inv\<close>)

interpretation election: event_system election_step election_inv
  by unfold_locales (rule step_election_inv)


definition demo_events :: "election_event list" where
  "demo_events = [Wake ''a'', Serve (''a'', 1, SetNx), Answer (''a'', 1, True),
     Wake ''b'', Serve (''b'', 1, SetNx), Answer (''b'', 1, False), Serve (''b'', 2, Renew), Answer (''b'', 2, False)]"


text \<open>
  An attempt that reaches Redis makes the instance leader exactly when the key is free or its
  own, and then holds the key for the time to live from now; otherwise the key is untouched.  So a
  leader that died is replaced by the first attempt after its key ran out.
\<close>

theorem leader_attempt:
  "fst (try_acquire now i (\<lambda>_. True) key el) =
     (if redis_get now key = None \<or> redis_get now key = Some i then Some (i, now + LEADER_TTL) else key) \<and>
   el_is_leader (snd (try_acquire now i (\<lambda>_. True) key el)) =
     (redis_get now key = None \<or> redis_get now key = Some i)"
  by (simp add: try_acquire_def on_wake_def on_answer_def send_command_def go_to_sleep_def confirm_def Let_def)

text \<open>
  When the second command raises, the flag keeps its value, and with it an instance that lost the
  key to another one still takes itself for the leader.
\<close>

lemma leader_flag_survives_failed_renewal:
  "\<exists>s. run_events election_step [Wake ''a'', Serve (''a'', 1, SetNx), Answer (''a'', 1, True), Tick 30000000,
      Wake ''b'', Serve (''b'', 1, SetNx), Answer (''b'', 1, True),
      Wake ''a'', Serve (''a'', 2, SetNx), Answer (''a'', 2, False), Fail ''a''] (start_cluster 0) = Some s \<and>
    el_is_leader (cl_inst s ''a'') \<and> el_is_leader (cl_inst s ''b'')"
  by (simp add: start_cluster_def on_wake_def send_command_def new_election_def client_def serve_def redis_get_def waits_def
      runs_def leads_def on_answer_def go_to_sleep_def confirm_def LEADER_TTL_def Let_def)

end
