(* ===== verification/PyFloat.thy ===== *)
theory PyFloat
  imports Prelude "HOL-Library.Log_Nat" Complex_Main
begin

text \<open>
  Python's \<open>float\<close>: IEEE-754 binary64 with round-to-nearest-even, as the sources use it
  (\<open>float(s)\<close> on decimal literals, \<open>==\<close>, \<open><=\<close>, \<open>int(v)\<close>, \<open>repr(v)\<close>,
  \<open>+\<close>, \<open>*\<close>, \<open>-\<close>, \<open>/\<close>, \<open>min\<close>, \<open>max\<close>).  A finite float is the rational it
  denotes; the sign of zero is not kept.
\<close>

datatype pyfloat = Fin rat | PInf | NInf | NaN

section \<open>Rounding\<close>

definition pow2 :: "int \<Rightarrow> rat" where
  "pow2 e = (if 0 \<le> e then 2 ^ nat e else 1 / 2 ^ nat (- e))"

definition pow10 :: "int \<Rightarrow> rat" where
  "pow10 e = (if 0 \<le> e then 10 ^ nat e else 1 / 10 ^ nat (- e))"

text \<open>The largest \<open>e\<close> with \<open>2 ^ e \<le> x\<close>, for \<open>0 < x\<close>.\<close>

definition flog2 :: "rat \<Rightarrow> int" where
  "flog2 x = (let (n, d) = quotient_of x; e = bitlen n - bitlen d
              in if pow2 e \<le> x then e else e - 1)"

definition round_half_even :: "rat \<Rightarrow> int" where
  "round_half_even x = (let f = \<lfloor>x\<rfloor>; r = x - of_int f
     in if r < 1 / 2 then f else if 1 / 2 < r then f + 1 else if even f then f else f + 1)"

definition ulp_exp :: "rat \<Rightarrow> int" where
  "ulp_exp x = max (flog2 \<bar>x\<bar> - 52) (- 1074)"

definition to_double :: "rat \<Rightarrow> pyfloat" where
  "to_double x =
     (if x = 0 then Fin 0
      else let q = pow2 (ulp_exp x); y = of_int (round_half_even (x / q)) * q
           in if pow2 1024 \<le> y then PInf else if y \<le> - pow2 1024 then NInf else Fin y)"

section \<open>Powers of two and the rounding exponent\<close>

lemma pow2_powi: "pow2 e = 2 powi e"
  by (cases "0 \<le> e") (simp_all add: pow2_def power_int_def inverse_eq_divide power_one_over)

lemma pow2_pos [simp]: "0 < pow2 e"
  by (simp add: pow2_powi)

lemma pow2_nonzero [simp]: "pow2 e \<noteq> 0"
  by (metis pow2_pos less_irrefl)

lemma pow2_add: "pow2 (a + b) = pow2 a * pow2 b"
  by (simp add: pow2_powi power_int_add)

lemma pow2_diff: "pow2 (a - b) = pow2 a / pow2 b"
  by (simp add: pow2_powi power_int_diff)

lemma pow2_strict_mono: "a < b \<Longrightarrow> pow2 a < pow2 b"
  by (simp add: pow2_powi power_int_strict_increasing)

lemma pow2_less_iff [simp]: "pow2 a < pow2 b \<longleftrightarrow> a < b"
  by (metis pow2_strict_mono less_asym linorder_neqE order_less_irrefl)

lemma pow2_le_iff [simp]: "pow2 a \<le> pow2 b \<longleftrightarrow> a \<le> b"
  by (meson pow2_less_iff linorder_not_less)

lemma pow2_nat: "0 \<le> e \<Longrightarrow> pow2 e = 2 ^ nat e"
  by (simp add: pow2_def)

lemma bitlen_between: "0 < n \<Longrightarrow> pow2 (bitlen n - 1) \<le> of_int n \<and> of_int n < pow2 (bitlen n)"
proof -
  assume n: "0 < n"
  then have b: "0 < bitlen n" using bitlen_nonneg [of n] bitlen_eq_zero_iff [of n] by linarith
  have "2 ^ nat (bitlen n - 1) \<le> n" "n < 2 ^ nat (bitlen n)"
    using bitlen_bounds [OF n] by auto
  then have "(of_int (2 ^ nat (bitlen n - 1)) :: rat) \<le> of_int n" "(of_int n :: rat) < of_int (2 ^ nat (bitlen n))"
    by (simp_all only: of_int_le_iff of_int_less_iff)
  with b show ?thesis by (simp add: pow2_nat)
qed

lemma flog2_bounds:
  assumes "0 < x"
  shows "pow2 (flog2 x) \<le> x" and "x < pow2 (flog2 x + 1)"
proof -
  obtain n d where q: "quotient_of x = (n, d)" by fastforce
  then have x: "x = of_int n / of_int d" and d: "0 < d"
    by (auto simp: quotient_of_div quotient_of_denom_pos)
  with assms have n: "0 < n" by (simp add: zero_less_divide_iff)
  note bn = bitlen_between [OF n] and bd = bitlen_between [OF d]
  have "x < pow2 (bitlen n) / pow2 (bitlen d - 1)"
    unfolding x using bn bd n d by (intro frac_less) auto
  then have u: "x < pow2 (bitlen n - bitlen d + 1)"
    by (simp add: pow2_diff [symmetric] algebra_simps)
  have "pow2 (bitlen n - 1) / pow2 (bitlen d) \<le> x"
    unfolding x using bn bd n d by (intro frac_le) auto
  then have l: "pow2 (bitlen n - bitlen d - 1) \<le> x"
    by (simp add: pow2_diff [symmetric] algebra_simps)
  from u l show "pow2 (flog2 x) \<le> x" and "x < pow2 (flog2 x + 1)"
    by (auto simp: flog2_def q Let_def not_le algebra_simps)
qed

lemma flog2_less:
  assumes "0 < x" "x < pow2 e" shows "flog2 x < e"
  using flog2_bounds(1) [OF assms(1)] assms(2) by (metis le_less_trans pow2_less_iff)

lemma round_half_even_int [simp]: "round_half_even (of_int m) = m"
  by (simp add: round_half_even_def)

lemma round_half_even_nonneg: "0 \<le> x \<Longrightarrow> 0 \<le> round_half_even x"
  by (simp add: round_half_even_def Let_def)

lemma round_half_even_le: "x \<le> of_int m \<Longrightarrow> round_half_even x \<le> m"
  by (auto simp: round_half_even_def Let_def; linarith)

lemma round_half_even_ge: "of_int m \<le> x \<Longrightarrow> m \<le> round_half_even x"
  by (auto simp: round_half_even_def Let_def; linarith)

section \<open>Which rationals are floats\<close>

text \<open>Every integer multiple of a power of two that fits the significand is a float.\<close>

definition is_double :: "rat \<Rightarrow> bool" where
  "is_double x \<longleftrightarrow> to_double x = Fin x"

lemma to_double_exact:
  assumes x: "x = of_int m * pow2 e" and m: "\<bar>m\<bar> \<le> 2 ^ 53" and e: "- 1074 \<le> e"
    and b: "\<bar>x\<bar> < pow2 1024"
  shows "to_double x = Fin x"
proof (cases "x = 0")
  case True
  then show ?thesis by (simp add: to_double_def)
next
  case False
  define f where "f = ulp_exp x"
  have ax: "0 < \<bar>x\<bar>" using False by simp
  have "\<exists>k. x / pow2 f = of_int k"
  proof (cases "f \<le> e")
    case True
    then have "x / pow2 f = of_int (m * 2 ^ nat (e - f))"
      unfolding x by (simp add: pow2_diff pow2_nat [symmetric])
    then show ?thesis by blast
  next
    case False
    have "of_int \<bar>m\<bar> \<le> (of_int (2 ^ 53) :: rat)"
      using m by (simp only: of_int_le_iff)
    then have "of_int \<bar>m\<bar> * pow2 e \<le> of_int (2 ^ 53) * pow2 e"
      by (rule mult_right_mono) (simp add: less_imp_le)
    then have "\<bar>x\<bar> \<le> of_int (2 ^ 53) * pow2 e"
      by (simp add: x abs_mult less_imp_le)
    also have "\<dots> = pow2 (e + 53)"
      by (simp add: pow2_add pow2_nat)
    finally have le: "\<bar>x\<bar> \<le> pow2 (e + 53)" .
    have "flog2 \<bar>x\<bar> \<le> e + 53"
      using flog2_bounds(1) [OF ax] le by (metis order_trans pow2_le_iff)
    with False e have "flog2 \<bar>x\<bar> = e + 53" and f1: "f = e + 1" 
      by (auto simp: f_def ulp_exp_def)
    with le flog2_bounds(1) [OF ax] have "\<bar>x\<bar> = pow2 (e + 53)" by simp
    then have "x / pow2 f = 2 ^ 52 \<or> x / pow2 f = - (2 ^ 52)"
      by (auto simp: f1 pow2_add pow2_nat abs_if divide_simps split: if_splits)
    then show ?thesis
      by (metis of_int_minus of_int_numeral of_int_power)
  qed
  then obtain k where k: "x / pow2 f = of_int k" by blast
  then have "of_int (round_half_even (x / pow2 f)) * pow2 f = x"
    using pow2_pos [of f] by (simp add: field_simps)
  with False b show ?thesis
    by (auto simp: to_double_def Let_def f_def [symmetric] abs_if split: if_splits)
qed

lemma to_double_Fin_form:
  assumes "to_double x = Fin y"
  shows "\<exists>m e. y = of_int m * pow2 e \<and> \<bar>m\<bar> \<le> 2 ^ 53 \<and> - 1074 \<le> e \<and> \<bar>y\<bar> < pow2 1024"
proof (cases "x = 0")
  case True
  with assms show ?thesis
    by (intro exI [of _ 0] exI [of _ 0]) (simp add: to_double_def)
next
  case False
  define q where "q = ulp_exp x"
  define m where "m = round_half_even (x / pow2 q)"
  have ax: "0 < \<bar>x\<bar>" using False by simp
  have "\<bar>x\<bar> < pow2 (flog2 \<bar>x\<bar> + 1)" using flog2_bounds(2) [OF ax] .
  also have "\<dots> \<le> pow2 (q + 53)" by (simp add: q_def ulp_exp_def)
  finally have "\<bar>x\<bar> < 2 ^ 53 * pow2 q" by (simp add: pow2_add pow2_nat)
  then have b: "\<bar>x / pow2 q\<bar> < 2 ^ 53" by (simp add: divide_less_eq abs_divide less_imp_le)
  then have "x / pow2 q \<le> of_int (2 ^ 53)" "of_int (- (2 ^ 53)) \<le> x / pow2 q"
    unfolding abs_less_iff by simp_all
  then have "\<bar>m\<bar> \<le> 2 ^ 53"
    unfolding m_def using round_half_even_le round_half_even_ge by (metis abs_le_iff minus_le_iff)
  moreover have "y = of_int m * pow2 q" "\<bar>y\<bar> < pow2 1024"
    using assms False by (auto simp: to_double_def Let_def q_def m_def abs_less_iff split: if_splits)
  moreover have "- 1074 \<le> q" by (simp add: q_def ulp_exp_def)
  ultimately show ?thesis by blast
qed

theorem to_double_idem: "to_double x = Fin y \<Longrightarrow> is_double y"
  unfolding is_double_def using to_double_Fin_form to_double_exact by blast

lemma is_double_nat: "n < 2 ^ 53 \<Longrightarrow> is_double (of_nat n)"
proof -
  assume n: "n < 2 ^ 53"
  then have "(of_nat n :: rat) < of_nat (2 ^ 53)" by (simp only: of_nat_less_iff)
  also have "\<dots> = pow2 53" by (simp add: pow2_nat)
  also have "\<dots> < pow2 1024" by (simp only: pow2_less_iff)
  finally have "\<bar>of_nat n :: rat\<bar> < pow2 1024" by (simp only: abs_of_nat)
  moreover have "\<bar>int n\<bar> \<le> 2 ^ 53"
  proof -
    have "int n \<le> int (2 ^ 53)" using n by (simp only: of_nat_le_iff less_imp_le)
    then show ?thesis by simp
  qed
  ultimately show ?thesis
    unfolding is_double_def by (intro to_double_exact [of _ "int n" 0]) (auto simp: pow2_def)
qed

lemma to_double_nonneg:
  assumes "0 \<le> x" and "to_double x = Fin y"
  shows "0 \<le> y"
  using assms by (auto simp: to_double_def Let_def less_imp_le intro!: mult_nonneg_nonneg
      round_half_even_nonneg divide_nonneg_nonneg split: if_splits)

lemma to_double_nonneg_cases:
  assumes "0 \<le> x"
  shows "to_double x = PInf \<or> (\<exists>y. to_double x = Fin y \<and> 0 \<le> y)"
proof -
  have "0 \<le> of_int (round_half_even (x / pow2 (ulp_exp x))) * pow2 (ulp_exp x)"
    using assms by (auto simp: less_imp_le intro!: mult_nonneg_nonneg round_half_even_nonneg
        divide_nonneg_nonneg)
  moreover have "\<not> z \<le> - pow2 1024" if "0 \<le> z" for z
    using that pow2_pos [of 1024] by linarith
  ultimately show ?thesis
    by (auto simp: to_double_def Let_def)
qed

section \<open>Comparison, conversion and arithmetic\<close>

fun fle :: "pyfloat \<Rightarrow> pyfloat \<Rightarrow> bool" where
  "fle (Fin a) (Fin b) = (a \<le> b)"
| "fle NaN _ = False"
| "fle _ NaN = False"
| "fle NInf _ = True"
| "fle _ PInf = True"
| "fle _ _ = False"

definition flt :: "pyfloat \<Rightarrow> pyfloat \<Rightarrow> bool" where
  "flt a b \<longleftrightarrow> fle a b \<and> \<not> fle b a"

definition feq :: "pyfloat \<Rightarrow> pyfloat \<Rightarrow> bool" where
  "feq a b \<longleftrightarrow> fle a b \<and> fle b a"

definition fmax :: "pyfloat \<Rightarrow> pyfloat \<Rightarrow> pyfloat" where
  "fmax a b = (if flt a b then b else a)"

definition fmin :: "pyfloat \<Rightarrow> pyfloat \<Rightarrow> pyfloat" where
  "fmin a b = (if flt b a then b else a)"

definition is_finite :: "pyfloat \<Rightarrow> bool" where
  "is_finite v \<longleftrightarrow> (case v of Fin _ \<Rightarrow> True | _ \<Rightarrow> False)"

fun fadd :: "pyfloat \<Rightarrow> pyfloat \<Rightarrow> pyfloat" where
  "fadd (Fin a) (Fin b) = to_double (a + b)"
| "fadd NaN _ = NaN"
| "fadd _ NaN = NaN"
| "fadd PInf NInf = NaN"
| "fadd NInf PInf = NaN"
| "fadd PInf _ = PInf"
| "fadd _ PInf = PInf"
| "fadd NInf _ = NInf"
| "fadd _ NInf = NInf"

fun fneg :: "pyfloat \<Rightarrow> pyfloat" where
  "fneg (Fin a) = Fin (- a)"
| "fneg PInf = NInf"
| "fneg NInf = PInf"
| "fneg NaN = NaN"

definition fsub :: "pyfloat \<Rightarrow> pyfloat \<Rightarrow> pyfloat" where
  "fsub a b = fadd a (fneg b)"

definition inf_sign :: "rat \<Rightarrow> pyfloat \<Rightarrow> pyfloat" where
  "inf_sign a i = (if a = 0 then NaN else if 0 < a then i else fneg i)"

fun fmul :: "pyfloat \<Rightarrow> pyfloat \<Rightarrow> pyfloat" where
  "fmul (Fin a) (Fin b) = to_double (a * b)"
| "fmul NaN _ = NaN"
| "fmul _ NaN = NaN"
| "fmul (Fin a) i = inf_sign a i"
| "fmul i (Fin b) = inf_sign b i"
| "fmul a b = (if a = b then PInf else NInf)"

text \<open>Division by a non-zero int (what the sources divide floats by).\<close>

fun fdiv_int :: "pyfloat \<Rightarrow> int \<Rightarrow> pyfloat" where
  "fdiv_int (Fin a) n = to_double (a / of_int n)"
| "fdiv_int NaN n = NaN"
| "fdiv_int i n = (if 0 \<le> n then i else fneg i)"

text \<open>\<open>int(v)\<close>: truncation, with \<open>None\<close> for the exception an infinity or a NaN raises.\<close>

fun py_int :: "pyfloat \<Rightarrow> int option" where
  "py_int (Fin a) = Some (if 0 \<le> a then \<lfloor>a\<rfloor> else \<lceil>a\<rceil>)"
| "py_int _ = None"

text \<open>\<open>v == int(v)\<close>.\<close>

definition is_integral :: "pyfloat \<Rightarrow> bool option" where
  "is_integral v = map_option (\<lambda>i. v = Fin (of_int i)) (py_int v)"

text \<open>\<open>round(v, n)\<close>: the nearest \<open>n\<close>-place decimal (ties to even), as a float.\<close>

fun py_round :: "nat \<Rightarrow> pyfloat \<Rightarrow> pyfloat" where
  "py_round n (Fin a) = to_double (of_int (round_half_even (a * 10 ^ n)) / 10 ^ n)"
| "py_round n v = v"

lemma fle_refl [simp]: "fle v v \<longleftrightarrow> v \<noteq> NaN"
  by (cases v) auto

lemma fle_trans: "fle a b \<Longrightarrow> fle b c \<Longrightarrow> fle a c"
  by (cases a; cases b; cases c) auto

lemma is_integral_iff: "is_integral v = Some True \<longleftrightarrow> (\<exists>i. v = Fin (of_int i))"
  by (cases v) (auto simp: is_integral_def)

lemma py_int_of_int [simp]: "py_int (Fin (of_int i)) = Some i"
  by simp

section \<open>Decimal literals and \<open>repr\<close>\<close>

text \<open>The value of \<open>\d+(\.\d+)?\<close>, and \<open>float(s)\<close> of it.\<close>

definition decimal_value :: "string \<Rightarrow> rat" where
  "decimal_value s =
     (let ip = takeWhile (\<lambda>c. c \<noteq> CHR ''.'') s; fp = drop 1 (dropWhile (\<lambda>c. c \<noteq> CHR ''.'') s)
      in of_nat (nat_of_digits ip) + of_nat (nat_of_digits fp) / 10 ^ length fp)"

definition py_float :: "string \<Rightarrow> pyfloat" where
  "py_float s = to_double (decimal_value s)"

lemma decimal_value_nonneg: "0 \<le> decimal_value s"
  by (simp add: decimal_value_def Let_def)

lemma py_float_cases: "py_float s = PInf \<or> (\<exists>y. py_float s = Fin y \<and> 0 \<le> y \<and> is_double y)"
  using to_double_nonneg_cases [OF decimal_value_nonneg] to_double_idem
  unfolding py_float_def by blast

lemma digits_no_point: "\<forall>c \<in> set s. is_digit c \<Longrightarrow> \<forall>c \<in> set s. c \<noteq> CHR ''.''"
  by (auto simp: is_digit_def)

lemma decimal_value_digits: "\<forall>c \<in> set s. is_digit c \<Longrightarrow> decimal_value s = of_nat (nat_of_digits s)"
  using digits_no_point [of s] by (simp add: decimal_value_def takeWhile_eq_all_conv [THEN iffD2]
      dropWhile_eq_Nil_conv [THEN iffD2])

lemma py_float_str_nat: "is_double (of_nat n) \<Longrightarrow> py_float (str_nat n) = Fin (of_nat n)"
  by (simp add: py_float_def decimal_value_digits str_nat_digits is_double_def)

text \<open>
  The shortest decimal that reads back as the same float: \<open>m\<close> and \<open>e\<close> with
  \<open>m * 10 ^ e\<close> rounding to \<open>x\<close> and \<open>m\<close> of the fewest digits.  Seventeen
  significant digits are enough for binary64, so the search stops there.
\<close>

definition flog10 :: "rat \<Rightarrow> int" where
  "flog10 x = (let (n, d) = quotient_of x; e = int (length (str_nat (nat n))) - int (length (str_nat (nat d)))
               in if pow10 e \<le> x then e else e - 1)"

fun shortest :: "nat \<Rightarrow> nat \<Rightarrow> rat \<Rightarrow> int \<times> int" where
  "shortest 0 n x = (round_half_even (x / pow10 (flog10 x - 16)), flog10 x - 16)"
| "shortest (Suc fuel) n x =
     (let e = flog10 x - int n + 1; m = round_half_even (x / pow10 e)
      in if to_double (of_int m * pow10 e) = Fin x then (m, e) else shortest fuel (n + 1) x)"

fun strip_zeros :: "string \<Rightarrow> string" where
  "strip_zeros s = rev (dropWhile (\<lambda>c. c = CHR ''0'') (rev s))"

definition exp_suffix :: "int \<Rightarrow> string" where
  "exp_suffix k =
     ''e'' @ (if k < 0 then ''-'' else ''+'') @
     (let d = str_nat (nat \<bar>k\<bar>) in if length d < 2 then ''0'' @ d else d)"

definition layout :: "string \<Rightarrow> int \<Rightarrow> string" where
  "layout ds decpt =
     (if - 4 < decpt \<and> decpt \<le> 16 then
        (if decpt \<le> 0 then ''0.'' @ replicate (nat (- decpt)) CHR ''0'' @ ds
         else if int (length ds) \<le> decpt
              then ds @ replicate (nat decpt - length ds) CHR ''0'' @ ''.0''
              else take (nat decpt) ds @ ''.'' @ drop (nat decpt) ds)
      else (case ds of [] \<Rightarrow> [] | [d] \<Rightarrow> [d] | d # r \<Rightarrow> d # CHR ''.'' # r) @ exp_suffix (decpt - 1))"

definition repr_pos :: "rat \<Rightarrow> string" where
  "repr_pos x = (let (m, e) = shortest 16 1 x; ds = str_nat (nat m)
                 in layout (strip_zeros ds) (int (length ds) + e))"

fun py_repr :: "pyfloat \<Rightarrow> string" where
  "py_repr (Fin a) =
     (if a = 0 then ''0.0'' else if a < 0 then CHR ''-'' # repr_pos (- a) else repr_pos a)"
| "py_repr PInf = ''inf''"
| "py_repr NInf = ''-inf''"
| "py_repr NaN = ''nan''"

end
