(* ===== verification/PyText.thy ===== *)
theory PyText
  imports PyFloat
begin

text \<open>
  The parts of Python's text handling that the engines use: the cells of a database row or of a
  JSON column and their \<open>str\<close>, \<open>float\<close> and truth value, \<open>json.dumps\<close> of a flat dict,
  \<open>str.replace(old, new, 1)\<close>, the format \<open>.2f\<close> and \<open>str.format_map\<close> on templates whose
  fields are plain names.
\<close>

section \<open>Cells\<close>

text \<open>
  A value of a row or of a flat JSON object.  A date carries its instant (microseconds) and its
  text, any other object its text.
\<close>

datatype cell =
    CNone
  | CText string
  | CInt int
  | CNum pyfloat
  | CTime int string
  | COther string

fun cell_str :: "cell \<Rightarrow> string" where
  "cell_str CNone = ''None''"
| "cell_str (CText s) = s"
| "cell_str (CInt i) = str_int i"
| "cell_str (CNum v) = py_repr v"
| "cell_str (CTime t s) = s"
| "cell_str (COther s) = s"

fun cell_true :: "cell \<Rightarrow> bool" where
  "cell_true CNone = False"
| "cell_true (CText s) = (s \<noteq> [])"
| "cell_true (CInt i) = (i \<noteq> 0)"
| "cell_true (CNum v) = (v \<noteq> Fin 0)"
| "cell_true (CTime t s) = True"
| "cell_true (COther s) = True"

text \<open>
  A JSON value.  A column or a payload that holds the text of a JSON document is modelled by the
  document, since \<open>json.loads\<close> gives back what \<open>json.dumps\<close> was given.
\<close>

datatype json = JNull | JBool bool | JInt int | JNum pyfloat | JStr string | JArr "json list"
  | JObj "(string \<times> json) list"

definition labels_get :: "(string, cell) dict \<Rightarrow> string \<Rightarrow> cell" where
  "labels_get d k = dict_get d k CNone"

section \<open>\<open>float\<close>\<close>

definition is_exp :: "char \<Rightarrow> bool" where
  "is_exp c \<longleftrightarrow> c = CHR ''e'' \<or> c = CHR ''E''"

definition is_sign :: "char \<Rightarrow> bool" where
  "is_sign c \<longleftrightarrow> c = CHR ''-'' \<or> c = CHR ''+''"

definition unsigned :: "string \<Rightarrow> string" where
  "unsigned t = (if t \<noteq> [] \<and> is_sign (hd t) then tl t else t)"

definition negated :: "string \<Rightarrow> bool" where
  "negated t \<longleftrightarrow> t \<noteq> [] \<and> hd t = CHR ''-''"

definition opt_digits :: "string \<Rightarrow> bool" where
  "opt_digits s \<longleftrightarrow> s = [] \<or> digits_ok False s"

definition decimal_string :: "string \<Rightarrow> rat option" where
  "decimal_string u =
     (let m = takeWhile (\<lambda>c. \<not> is_exp c) u;
          ex = dropWhile (\<lambda>c. \<not> is_exp c) u;
          ip = takeWhile (\<lambda>c. c \<noteq> CHR ''.'') m;
          fp = drop 1 (dropWhile (\<lambda>c. c \<noteq> CHR ''.'') m);
          e = unsigned (tl ex);
          k = int (nat_of_digits (filter is_digit e))
      in if opt_digits ip \<and> opt_digits fp \<and> (ip \<noteq> [] \<or> fp \<noteq> []) \<and> (ex = [] \<or> digits_ok False e)
         then Some (decimal_value (filter (\<lambda>c. c \<noteq> CHR ''_'') m) *
                    (if ex = [] then 1 else pow10 (if negated (tl ex) then - k else k)))
         else None)"

text \<open>\<open>float(s)\<close>; \<open>None\<close> is the \<open>ValueError\<close>.\<close>

definition float_of_string :: "string \<Rightarrow> pyfloat option" where
  "float_of_string s =
     (let t = strip s; u = lower (unsigned t)
      in map_option (\<lambda>v. if negated t then fneg v else v)
           (if u = ''inf'' \<or> u = ''infinity'' then Some PInf
            else if u = ''nan'' then Some NaN
            else map_option to_double (decimal_string u)))"

datatype py_error = ValueError | TypeError | OverflowError | KeyError | AttributeError | DatabaseError

fun cell_float :: "cell \<Rightarrow> py_error + pyfloat" where
  "cell_float CNone = Inl TypeError"
| "cell_float (CText s) = (case float_of_string s of None \<Rightarrow> Inl ValueError | Some v \<Rightarrow> Inr v)"
| "cell_float (CInt i) = (case to_double (of_int i) of Fin q \<Rightarrow> Inr (Fin q) | _ \<Rightarrow> Inl OverflowError)"
| "cell_float (CNum v) = Inr v"
| "cell_float (CTime t s) = Inl TypeError"
| "cell_float (COther s) = Inl TypeError"

section \<open>\<open>json.dumps\<close>\<close>

definition DQUOTE :: char where
  "DQUOTE = char_of (34 :: nat)"

definition BACKSLASH :: char where
  "BACKSLASH = char_of (92 :: nat)"

definition hex_digit :: "nat \<Rightarrow> char" where
  "hex_digit d = (if d < 10 then char_of (48 + d) else char_of (87 + d))"

definition json_char :: "char \<Rightarrow> string" where
  "json_char c =
     (let n = code_of c
      in if c = DQUOTE \<or> c = BACKSLASH then [BACKSLASH, c]
         else if 32 \<le> n \<and> n \<le> 126 then [c]
         else if n = 10 then BACKSLASH # ''n''
         else if n = 13 then BACKSLASH # ''r''
         else if n = 9 then BACKSLASH # ''t''
         else if n = 12 then BACKSLASH # ''f''
         else if n = 8 then BACKSLASH # ''b''
         else BACKSLASH # ''u00'' @ [hex_digit (n div 16), hex_digit (n mod 16)])"

definition json_string :: "string \<Rightarrow> string" where
  "json_string s = DQUOTE # concat (map json_char s) @ [DQUOTE]"

fun json_float :: "pyfloat \<Rightarrow> string" where
  "json_float NaN = ''NaN''"
| "json_float PInf = ''Infinity''"
| "json_float NInf = ''-Infinity''"
| "json_float (Fin q) = py_repr (Fin q)"

fun json_cell :: "cell \<Rightarrow> py_error + string" where
  "json_cell CNone = Inr ''null''"
| "json_cell (CText s) = Inr (json_string s)"
| "json_cell (CInt i) = Inr (str_int i)"
| "json_cell (CNum v) = Inr (json_float v)"
| "json_cell (CTime t s) = Inl TypeError"
| "json_cell (COther s) = Inl TypeError"

fun json_items :: "('v \<Rightarrow> py_error + string) \<Rightarrow> (string, 'v) dict \<Rightarrow> py_error + string list" where
  "json_items f [] = Inr []"
| "json_items f ((k, v) # d) =
     ebind (f v) (\<lambda>s. ebind (json_items f d) (\<lambda>ss. Inr ((json_string k @ '': '' @ s) # ss)))"

definition json_dumps :: "('v \<Rightarrow> py_error + string) \<Rightarrow> (string, 'v) dict \<Rightarrow> py_error + string" where
  "json_dumps f d = ebind (json_items f d) (\<lambda>ss. Inr (''{'' @ join '', '' ss @ ''}''))"

section \<open>Replacing and formatting\<close>

text \<open>\<open>s.replace(old, new, 1)\<close> for a nonempty \<open>old\<close>.\<close>

fun replace_first :: "string \<Rightarrow> string \<Rightarrow> string \<Rightarrow> string" where
  "replace_first old new [] = []"
| "replace_first old new (c # cs) =
     (if take (length old) (c # cs) = old then new @ drop (length old) (c # cs)
      else c # replace_first old new cs)"

text \<open>\<open>f"{v:.2f}"\<close>.\<close>

definition fixed2 :: "rat \<Rightarrow> string" where
  "fixed2 q =
     (let n = nat (round_half_even (\<bar>q\<bar> * 100)); c = n mod 100
      in (if q < 0 then ''-'' else '''') @ str_nat (n div 100) @ ''.'' @
         [digit_char (c div 10), digit_char (c mod 10)])"

text \<open>
  \<open>template.format_map(ctx)\<close>.  A field that is a plain name is looked up; an empty or numeric
  name is a positional field, which \<open>format_map\<close> refuses.  A template with an attribute, index,
  conversion, format or nested field is handed to \<open>ext\<close>, which stands for Python's own
  formatting of it.
\<close>

datatype fmt_result = FmtText string | FmtError py_error

datatype fmt_scan = Done string | Malformed | Rich

definition fmt_special :: "char \<Rightarrow> bool" where
  "fmt_special c \<longleftrightarrow> c \<in> {CHR ''{'', CHR ''['', CHR ''.'', CHR ''!'', CHR '':''}"

definition fmt_cat :: "string \<Rightarrow> fmt_scan \<Rightarrow> fmt_scan" where
  "fmt_cat s r = (case r of Done t \<Rightarrow> Done (s @ t) | Malformed \<Rightarrow> Malformed | Rich \<Rightarrow> Rich)"

function format_scan :: "(string \<Rightarrow> string) \<Rightarrow> string \<Rightarrow> fmt_scan" where
  "format_scan ctx [] = Done []"
| "format_scan ctx (c # cs) =
     (if c = CHR ''{'' then
        (if cs \<noteq> [] \<and> hd cs = CHR ''{'' then fmt_cat ''{'' (format_scan ctx (tl cs))
         else (let name = takeWhile (\<lambda>x. x \<noteq> CHR ''}'') cs; rest = dropWhile (\<lambda>x. x \<noteq> CHR ''}'') cs
               in if list_ex fmt_special name then Rich
                  else if rest = [] then Malformed
                  else if list_all is_digit name then Malformed
                  else fmt_cat (ctx name) (format_scan ctx (tl rest))))
      else if c = CHR ''}'' then
        (if cs \<noteq> [] \<and> hd cs = CHR ''}'' then fmt_cat ''}'' (format_scan ctx (tl cs)) else Malformed)
      else fmt_cat [c] (format_scan ctx cs))"
  by pat_completeness auto
termination
proof (relation "measure (length o snd)", goal_cases)
  case (3 ctx c cs x xa)
  then show ?case using length_dropWhile_le [of "\<lambda>x. x \<noteq> CHR ''}''" cs] by auto
qed auto

definition format_map ::
    "(string \<Rightarrow> (string, string) dict \<Rightarrow> fmt_result) \<Rightarrow> string \<Rightarrow> (string, string) dict \<Rightarrow> fmt_result" where
  "format_map ext template ctx =
     (case format_scan (\<lambda>k. dict_get ctx k (''{'' @ k @ ''}'')) template of
        Done s \<Rightarrow> FmtText s
      | Malformed \<Rightarrow> FmtError ValueError
      | Rich \<Rightarrow> ext template ctx)"

text \<open>A template without braces is its own rendering, and an unknown name stays in place.\<close>

lemma format_scan_plain: "CHR ''{'' \<notin> set t \<Longrightarrow> CHR ''}'' \<notin> set t \<Longrightarrow> format_scan ctx t = Done t"
  by (induction t) (auto simp: fmt_cat_def)

lemma format_map_plain: "CHR ''{'' \<notin> set t \<Longrightarrow> CHR ''}'' \<notin> set t \<Longrightarrow> format_map ext t ctx = FmtText t"
  by (simp add: format_map_def format_scan_plain)

lemma takeWhile_name: "c \<notin> set name \<Longrightarrow> takeWhile (\<lambda>x. x \<noteq> c) (name @ c # r) = name"
  by (induction name) auto

lemma dropWhile_name: "c \<notin> set name \<Longrightarrow> dropWhile (\<lambda>x. x \<noteq> c) (name @ c # r) = c # r"
  by (induction name) auto

definition plain_name :: "string \<Rightarrow> bool" where
  "plain_name n \<longleftrightarrow> \<not> list_all is_digit n \<and> \<not> list_ex fmt_special n \<and> CHR ''}'' \<notin> set n"

lemma plain_name_Cons: "plain_name n \<Longrightarrow> n \<noteq> [] \<and> hd n \<noteq> CHR ''{''"
  by (cases n) (auto simp: plain_name_def fmt_special_def)

lemma format_scan_field:
  assumes "plain_name n"
  shows "format_scan ctx (''{'' @ n @ ''}'' @ r) = fmt_cat (ctx n) (format_scan ctx r)"
proof -
  obtain c cs where n: "n = c # cs" "c \<noteq> CHR ''{''" using plain_name_Cons [OF assms] by (cases n) auto
  have "format_scan ctx (''{'' @ n @ ''}'' @ r) =
     (let name = takeWhile (\<lambda>x. x \<noteq> CHR ''}'') (n @ CHR ''}'' # r);
          rest = dropWhile (\<lambda>x. x \<noteq> CHR ''}'') (n @ CHR ''}'' # r)
      in if list_ex fmt_special name then Rich
         else if rest = [] then Malformed
         else if list_all is_digit name then Malformed
         else fmt_cat (ctx name) (format_scan ctx (tl rest)))"
    using n by simp
  also have "\<dots> = fmt_cat (ctx n) (format_scan ctx r)"
    using assms by (simp add: plain_name_def takeWhile_name dropWhile_name Let_def)
  finally show ?thesis .
qed

lemma format_map_missing:
  "plain_name n \<Longrightarrow> n \<notin> set (dict_keys ctx) \<Longrightarrow> format_map ext (''{'' @ n @ ''}'') ctx = FmtText (''{'' @ n @ ''}'')"
  using format_scan_field [of n _ "[]"]
  by (simp add: format_map_def fmt_cat_def dict_get_def map_of_eq_None_iff [THEN iffD2])

end
