(* ===== verification/Job_Ring.thy ===== *)
theory Job_Ring
  imports PyText "HOL-Library.List_Lexorder" "HOL-Library.Char_ord" "HOL-Library.Multiset"
begin

text \<open>
  The distribution of a group's jobs over its collectors: the weighted hash ring and the filter of
  \<open>GET /jobs\<close> (\<open>collector_api/router.py\<close>), and the periodic rebalancing of the weights with its own
  copy of the ring (\<open>scheduler/tasks.py\<close>).  \<open>sha\<close> is the SHA-256 digest as a number.  Weights come
  from a JSON column, so they are finite.
\<close>

section \<open>The ring\<close>

text \<open>Division of floats by a float other than zero.\<close>

fun fdiv :: "pyfloat \<Rightarrow> pyfloat \<Rightarrow> pyfloat" where
  "fdiv (Fin a) (Fin b) = to_double (a / b)"
| "fdiv NaN _ = NaN"
| "fdiv _ NaN = NaN"
| "fdiv (Fin a) _ = Fin 0"
| "fdiv i (Fin b) = (if 0 \<le> b then i else fneg i)"
| "fdiv _ _ = NaN"

type_synonym weights = "(string, pyfloat) dict"

type_synonym ring = "(nat \<times> string) list"

definition max_weight :: "weights \<Rightarrow> pyfloat" where
  "max_weight ws = (let m = foldl fmax (snd (hd ws)) (dict_values (tl ws)) in if m = Fin 0 then Fin 1 else m)"

definition vnode_count :: "pyfloat \<Rightarrow> pyfloat \<Rightarrow> nat" where
  "vnode_count max_w w = (case py_int (fmul (Fin 100) (fdiv w max_w)) of None \<Rightarrow> 1 | Some n \<Rightarrow> nat (max 1 n))"

definition vnodes :: "(string \<Rightarrow> nat) \<Rightarrow> pyfloat \<Rightarrow> string \<times> pyfloat \<Rightarrow> ring" where
  "vnodes sha max_w hw =
     map (\<lambda>i. (sha (fst hw @ '':'' @ str_nat i), fst hw)) [0..<vnode_count max_w (snd hw)]"

definition ring_points :: "(string \<Rightarrow> nat) \<Rightarrow> weights \<Rightarrow> ring" where
  "ring_points sha ws = concat (map (vnodes sha (max_weight ws)) (sort_key fst ws))"

definition build_weighted_ring :: "(string \<Rightarrow> nat) \<Rightarrow> weights \<Rightarrow> ring" where
  "build_weighted_ring sha ws = sort_key fst (ring_points sha ws)"

text \<open>\<open>bisect_left\<close> on a sorted list.\<close>

definition bisect_left :: "nat list \<Rightarrow> nat \<Rightarrow> nat" where
  "bisect_left xs x = length (takeWhile (\<lambda>y. y < x) xs)"

definition lookup_weighted_owner :: "(string \<Rightarrow> nat) \<Rightarrow> string \<Rightarrow> ring \<Rightarrow> string" where
  "lookup_weighted_owner sha assignment_id ring =
     (if ring = [] then []
      else let idx = bisect_left (map fst ring) (sha assignment_id)
           in map snd ring ! (if length ring \<le> idx then 0 else idx))"

section \<open>The jobs of a collector\<close>

definition floor_weight :: pyfloat where
  "floor_weight = to_double (3 / 10)"

definition same_keys :: "weights \<Rightarrow> string list \<Rightarrow> bool" where
  "same_keys snap hosts \<longleftrightarrow> set (dict_keys snap) = set hosts"

definition equal_weights :: "string list \<Rightarrow> weights" where
  "equal_weights hosts = map (\<lambda>h. (h, Fin 1)) (remdups hosts)"

definition group_weights :: "weights option \<Rightarrow> string list \<Rightarrow> weights" where
  "group_weights snapshot hosts =
     (case snapshot of
        Some snap \<Rightarrow>
          if snap \<noteq> [] \<and> same_keys snap hosts then map (\<lambda>(h, w). (h, fmax w floor_weight)) snap
          else equal_weights hosts
      | None \<Rightarrow> equal_weights hosts)"

text \<open>
  \<open>hosts\<close> are the hostnames of the active collectors of the caller's group, \<open>rows\<close> the unpinned
  assignments of the group with \<open>row_id\<close> their ids.
\<close>

definition partition_rows ::
    "(string \<Rightarrow> nat) \<Rightarrow> weights option \<Rightarrow> string list \<Rightarrow> string \<Rightarrow> ('r \<Rightarrow> string) \<Rightarrow> 'r list \<Rightarrow> 'r list" where
  "partition_rows sha snapshot hosts my_hostname row_id rows =
     (if length hosts \<le> 1 then rows
      else let ws = group_weights snapshot hosts
           in if my_hostname \<notin> set (dict_keys ws) then rows
              else if length ws \<le> 1 then rows
              else let ring = build_weighted_ring sha ws
                   in filter (\<lambda>r. lookup_weighted_owner sha (row_id r) ring = my_hostname) rows)"

section \<open>Rebalancing\<close>

text \<open>The ring of the rebalancer is built by insertion.\<close>

definition ring_insert :: "nat \<times> string \<Rightarrow> ring \<Rightarrow> ring" where
  "ring_insert p ring =
     (let idx = bisect_left (map fst ring) (fst p) in take idx ring @ p # drop idx ring)"

definition hash_ring_owner :: "(string \<Rightarrow> nat) \<Rightarrow> string \<Rightarrow> weights \<Rightarrow> string" where
  "hash_ring_owner sha assignment_id ws =
     (if ws = [] then []
      else if length ws = 1 then fst (hd ws)
      else let ring = fold ring_insert (ring_points sha ws) [];
               idx = bisect_left (map fst ring) (sha assignment_id)
           in map snd ring ! (if length ring \<le> idx then 0 else idx))"

record assignment_cost =
  as_id :: string
  as_avg_execution_time :: "pyfloat option"
  as_schedule_value :: string

definition cost_of :: "assignment_cost \<Rightarrow> pyfloat" where
  "cost_of a =
     (let interval = (case float_of_string (as_schedule_value a) of None \<Rightarrow> Fin 300 | Some v \<Rightarrow> v);
          avg = (case as_avg_execution_time a of None \<Rightarrow> Fin 5 | Some v \<Rightarrow> v)
      in fdiv avg (fmax interval (Fin 1)))"

definition add_cost :: "(string \<Rightarrow> nat) \<Rightarrow> weights \<Rightarrow> assignment_cost \<Rightarrow> weights \<Rightarrow> weights" where
  "add_cost sha ws a costs =
     (let owner = hash_ring_owner sha (as_id a) ws
      in case map_of costs owner of None \<Rightarrow> costs | Some c \<Rightarrow> dict_set owner (fadd c (cost_of a)) costs)"

definition max_of :: "weights \<Rightarrow> pyfloat" where
  "max_of ws = foldl fmax (snd (hd ws)) (dict_values (tl ws))"

definition min_of :: "weights \<Rightarrow> pyfloat" where
  "min_of ws = foldl fmin (snd (hd ws)) (dict_values (tl ws))"

definition scale_by :: "pyfloat \<Rightarrow> weights \<Rightarrow> weights" where
  "scale_by m ws = (if flt (Fin 0) m then map (\<lambda>(h, w). (h, fdiv w m)) ws else ws)"

definition milli :: pyfloat where
  "milli = to_double (1 / 1000)"

definition target_weights :: "weights \<Rightarrow> weights" where
  "target_weights costs =
     (let ts = map (\<lambda>(h, c). (h, fdiv (Fin 1) (fmax c milli))) costs in scale_by (max_of ts) ts)"

definition blend :: "weights \<Rightarrow> weights \<Rightarrow> string list \<Rightarrow> weights" where
  "blend current target hosts =
     map (\<lambda>h. (h, fadd (fmul (to_double (3 / 10)) (dict_get target h (Fin 1)))
                       (fmul (fsub (Fin 1) (to_double (3 / 10))) (dict_get current h (Fin 1))))) hosts"

definition settle :: "weights \<Rightarrow> weights" where
  "settle ws =
     (let m = max_of ws
      in if flt (Fin 0) m then map (\<lambda>(h, w). (h, fmax floor_weight (py_round 4 (fdiv w m)))) ws else ws)"

definition fabs :: "pyfloat \<Rightarrow> pyfloat" where
  "fabs v = (if flt v (Fin 0) then fneg v else v)"

definition significant :: "weights \<Rightarrow> weights \<Rightarrow> string list \<Rightarrow> bool" where
  "significant current new_ws hosts =
     list_ex (\<lambda>h. let old_w = dict_get current h (Fin 1); new_w = dict_get new_ws h (Fin 1)
        in flt (to_double (15 / 100)) (fdiv (fabs (fsub new_w old_w)) (fmax old_w (to_double (1 / 100))))) hosts"

definition current_weights :: "weights option \<Rightarrow> string list \<Rightarrow> weights" where
  "current_weights snapshot hosts =
     (case snapshot of
        Some snap \<Rightarrow> if snap \<noteq> [] \<and> same_keys snap hosts then snap else equal_weights hosts
      | None \<Rightarrow> equal_weights hosts)"

text \<open>
  The new snapshot, \<open>None\<close> where the function returns without writing one.  \<open>hosts\<close> are the
  hostnames of the active collectors.
\<close>

definition rebalance_group ::
    "(string \<Rightarrow> nat) \<Rightarrow> weights option \<Rightarrow> string list \<Rightarrow> assignment_cost list \<Rightarrow> weights option" where
  "rebalance_group sha snapshot hosts assignments =
     (if length hosts < 2 \<or> assignments = [] then None
      else
        let current = current_weights snapshot hosts;
            costs = fold (add_cost sha current) assignments (map (\<lambda>h. (h, Fin 0)) (remdups hosts));
            min_cost = (if fle (min_of costs) (Fin 0) then milli else min_of costs)
        in if fle (fdiv (max_of costs) min_cost) (Fin (3 / 2)) then Some current
           else let new_ws = settle (blend current (target_weights costs) (remdups hosts))
                in Some (if significant current new_ws (remdups hosts) then new_ws else current))"

end
