(* ===== verification/Job_Ring_Props.thy ===== *)
theory Job_Ring_Props
  imports Job_Ring
begin

text \<open>
  The ring gives every job one owner, the two implementations of the ring agree, and a collector
  that leaves takes no job from the others.
\<close>

section \<open>The owner of a key\<close>

lemma dropWhile_sorted:
  "sorted (map fst xs) \<Longrightarrow> dropWhile (\<lambda>p. fst p < k) xs = filter (\<lambda>p. k \<le> (fst p :: nat)) xs"
proof (induction xs)
  case (Cons a xs)
  then show ?case
  proof (cases "fst a < k")
    case False
    then have "\<forall>x \<in> set xs. k \<le> fst x" using Cons.prems by fastforce
    then show ?thesis using False by simp
  qed simp
qed simp

lemma takeWhile_sorted:
  "sorted (map fst xs) \<Longrightarrow> takeWhile (\<lambda>p. fst p < k) xs = filter (\<lambda>p. fst p < (k :: nat)) xs"
proof (induction xs)
  case (Cons a xs)
  then show ?case
  proof (cases "fst a < k")
    case False
    then have "\<forall>x \<in> set xs. \<not> fst x < k" using Cons.prems by fastforce
    then show ?thesis using False by simp
  qed simp
qed simp

text \<open>The points at and after a key, then those before it: the ring read from the key on.\<close>

definition from_key :: "nat \<Rightarrow> ring \<Rightarrow> ring" where
  "from_key k ring = filter (\<lambda>p. k \<le> fst p) ring @ filter (\<lambda>p. fst p < k) ring"

lemma bisect_left_map: "bisect_left (map fst ring) k = length (takeWhile (\<lambda>p. fst p < k) ring)"
  by (simp add: bisect_left_def takeWhile_map o_def)

lemma owner_at:
  assumes "sorted (map fst ring)" and "ring \<noteq> []"
  shows "(let idx = bisect_left (map fst ring) k in map snd ring ! (if length ring \<le> idx then 0 else idx)) =
         snd (hd (from_key k ring))"
proof -
  let ?t = "takeWhile (\<lambda>p. fst p < k) ring" and ?d = "dropWhile (\<lambda>p. fst p < k) ring"
  have r: "ring = ?t @ ?d" by simp
  have f: "from_key k ring = ?d @ ?t"
    unfolding from_key_def dropWhile_sorted [OF assms(1)] takeWhile_sorted [OF assms(1)] ..
  show ?thesis
  proof (cases "?d = []")
    case True
    then have t: "?t = ring" using r by simp
    show ?thesis using assms(2) unfolding f bisect_left_map True t Let_def by (simp add: hd_conv_nth)
  next
    case False
    then have "length ?t < length ring" using r by (metis length_append length_greater_0_conv less_add_same_cancel1)
    moreover have "ring ! length ?t = hd ?d" using False r by (metis hd_conv_nth length_append_singleton nth_append_length_plus add_0_right append_Nil2)
    ultimately show ?thesis using False by (simp add: f bisect_left_map Let_def)
  qed
qed

lemma sorted_ring: "sorted (map fst (build_weighted_ring sha ws))"
  by (simp add: build_weighted_ring_def)

lemma ring_empty: "build_weighted_ring sha ws = [] \<longleftrightarrow> ring_points sha ws = []"
  unfolding build_weighted_ring_def by (metis set_empty set_sort)

lemma lookup_from_key:
  "lookup_weighted_owner sha a (build_weighted_ring sha ws) =
   (if ring_points sha ws = [] then [] else snd (hd (from_key (sha a) (build_weighted_ring sha ws))))"
proof (cases "ring_points sha ws = []")
  case False
  then show ?thesis using owner_at [OF sorted_ring] by (simp add: lookup_weighted_owner_def ring_empty)
qed (simp add: lookup_weighted_owner_def ring_empty)

lemma vnode_count_pos: "0 < vnode_count m w"
  by (auto simp: vnode_count_def max_def split: option.splits)

lemma vnodes_nonempty: "vnodes sha m hw \<noteq> []"
  using vnode_count_pos by (simp add: vnodes_def)

lemma ring_points_owners: "snd ` set (ring_points sha ws) = set (dict_keys ws)"
proof -
  have "snd ` set (vnodes sha m hw) = {fst hw}" for m hw
    using vnodes_nonempty [of sha m hw] by (auto simp: vnodes_def image_image)
  then show ?thesis by (auto simp: ring_points_def image_UN)
qed

lemma ring_points_nonempty: "ring_points sha ws = [] \<longleftrightarrow> ws = []"
  using ring_points_owners [of sha ws] by (metis image_is_empty list.map_disc_iff set_empty)

lemma set_from_key: "set (from_key k ring) = set ring"
  by (auto simp: from_key_def not_less)

lemma lookup_owner_mem:
  assumes "ws \<noteq> []"
  shows "lookup_weighted_owner sha a (build_weighted_ring sha ws) \<in> set (dict_keys ws)"
proof -
  let ?r = "build_weighted_ring sha ws"
  have "ring_points sha ws \<noteq> []" using assms by (simp add: ring_points_nonempty)
  moreover from this have "from_key (sha a) ?r \<noteq> []"
    using set_from_key [of "sha a" ?r] by (metis build_weighted_ring_def set_empty set_sort)
  then have "hd (from_key (sha a) ?r) \<in> set (ring_points sha ws)"
    using set_from_key [of "sha a" ?r] hd_in_set by (fastforce simp: build_weighted_ring_def)
  ultimately show ?thesis
    unfolding lookup_from_key using ring_points_owners [of sha ws] by auto
qed

section \<open>Every job has one owner\<close>

lemma keys_equal_weights [simp]: "dict_keys (equal_weights hosts) = remdups hosts"
  by (simp add: equal_weights_def o_def)

lemma keys_group_weights: "set (dict_keys (group_weights snapshot hosts)) = set hosts"
proof -
  have f: "dict_keys (map (\<lambda>(h, w). (h, fmax w floor_weight)) snap) = dict_keys snap" for snap
    by (induction snap) auto
  show ?thesis
    by (cases snapshot) (simp_all only: group_weights_def same_keys_def f keys_equal_weights set_remdups
        option.case if_distrib [of dict_keys] if_distrib [of set] cong: if_cong; simp)+
qed

lemma partition_rows_owner:
  assumes "distinct hosts" and "1 < length hosts" and "h \<in> set hosts"
  shows "partition_rows sha snapshot hosts h row_id rows =
         filter (\<lambda>r. lookup_weighted_owner sha (row_id r)
                       (build_weighted_ring sha (group_weights snapshot hosts)) = h) rows"
proof -
  let ?ws = "group_weights snapshot hosts"
  have "length hosts = card (set (dict_keys ?ws))"
    using assms(1) unfolding keys_group_weights by (simp add: distinct_card)
  also have "\<dots> \<le> length ?ws" using card_length [of "dict_keys ?ws"] by simp
  finally have l: "1 < length ?ws" using assms(2) by linarith
  have "h \<in> set (dict_keys ?ws)" using assms(3) by (simp only: keys_group_weights)
  then show ?thesis
    unfolding partition_rows_def Let_def using assms(2) l by (simp only: not_le [symmetric] not_True_eq_False if_False)
qed

lemma mset_partition:
  assumes "distinct hs" and "\<forall>r \<in> set rows. f r \<in> set hs"
  shows "mset rows = (\<Sum>h \<leftarrow> hs. mset (filter (\<lambda>r. f r = h) rows))"
  using assms(2)
proof (induction rows)
  case (Cons r rows)
  have "(\<Sum>h \<leftarrow> hs. mset (filter (\<lambda>x. f x = h) (r # rows))) =
        (\<Sum>h \<leftarrow> hs. (if f r = h then {#r#} else {#}) + mset (filter (\<lambda>x. f x = h) rows))"
    by (intro arg_cong [of _ _ sum_list] map_cong) auto
  also have "\<dots> = (\<Sum>h \<leftarrow> hs. if f r = h then {#r#} else {#}) + mset rows"
    using Cons by (simp add: sum_list_addf)
  also have "(\<Sum>h \<leftarrow> hs. if f r = h then {#r#} else {#}) = {#r#}"
    using assms(1) Cons.prems by (simp add: sum_list_distinct_conv_sum_set)
  finally show ?case by simp
qed simp

text \<open>
  the unpinned jobs of a group are partitioned over its active collectors: in the answers to
  their \<open>GET /jobs\<close> calls, every row is there exactly once in all, whatever the hash is and
  whatever weights are on record.
\<close>

theorem group_jobs_partitioned:
  assumes "distinct hosts" and "1 < length hosts"
  shows "mset rows = (\<Sum>h \<leftarrow> hosts. mset (partition_rows sha snapshot hosts h row_id rows))"
proof -
  let ?f = "\<lambda>r. lookup_weighted_owner sha (row_id r) (build_weighted_ring sha (group_weights snapshot hosts))"
  have "group_weights snapshot hosts \<noteq> []"
    using assms(2) keys_group_weights [of snapshot hosts] by (metis length_0_conv list.simps(8) not_less0 set_empty)
  then have "\<forall>r \<in> set rows. ?f r \<in> set hosts" using lookup_owner_mem keys_group_weights by metis
  then have "mset rows = (\<Sum>h \<leftarrow> hosts. mset (filter (\<lambda>r. ?f r = h) rows))" by (rule mset_partition [OF assms(1)])
  also have "\<dots> = (\<Sum>h \<leftarrow> hosts. mset (partition_rows sha snapshot hosts h row_id rows))"
    by (intro arg_cong [of _ _ sum_list] map_cong refl)
      (simp only: partition_rows_owner [OF assms] mset_filter)
  finally show ?thesis .
qed

theorem group_jobs_partitioned_witness:
  "mset [''j1'', ''j2'', ''j3''] =
   (\<Sum>h \<leftarrow> [''c1'', ''c2'']. mset (partition_rows length (Some [(''c1'', Fin 1), (''c2'', Fin (1 / 2))]) [''c1'', ''c2''] h id
      [''j1'', ''j2'', ''j3'']))"
  by (rule group_jobs_partitioned) simp_all

section \<open>The two implementations of the ring\<close>

lemma ring_insert_insort: "ring_insert p ring = insort_key fst p ring"
proof (induction ring)
  case (Cons q ring)
  then show ?case by (cases "fst q < fst p") (auto simp: ring_insert_def Let_def bisect_left_def not_less)
qed (simp add: ring_insert_def Let_def)

lemma fold_ring_insert: "fold ring_insert xs [] = sort_key fst (rev xs)"
proof -
  have "fold ring_insert xs [] = fold (insort_key fst) xs []"
    by (rule fold_cong) (simp_all add: ring_insert_insort fun_eq_iff)
  then show ?thesis by (simp add: sort_key_def foldr_conv_fold)
qed

lemma hash_ring_owner_lookup:
  assumes "distinct (map fst (ring_points sha ws))"
  shows "hash_ring_owner sha a ws = lookup_weighted_owner sha a (build_weighted_ring sha ws)"
proof -
  have r: "fold ring_insert (ring_points sha ws) [] = build_weighted_ring sha ws"
    unfolding fold_ring_insert build_weighted_ring_def using assms
    by (intro sort_key_inj_key_eq) (simp_all add: distinct_map)
  consider "ws = []" | "length ws = 1" | "1 < length ws" by (cases ws) auto
  then show ?thesis
  proof cases
    case 1
    then show ?thesis by (simp add: hash_ring_owner_def lookup_from_key ring_points_nonempty)
  next
    case 2
    then obtain p where p: "ws = [p]" by (cases ws) auto
    then have "lookup_weighted_owner sha a (build_weighted_ring sha ws) \<in> {fst p}"
      using lookup_owner_mem [of ws sha a] by simp
    then show ?thesis using p by (simp add: hash_ring_owner_def)
  next
    case 3
    then have "build_weighted_ring sha ws \<noteq> []"
      by (auto simp: ring_points_nonempty ring_empty)
    then show ?thesis using 3 r by (auto simp: hash_ring_owner_def lookup_weighted_owner_def Let_def)
  qed
qed

definition weight_ok :: "pyfloat \<Rightarrow> bool" where
  "weight_ok w \<longleftrightarrow> fle floor_weight w \<and> fle w (Fin 1)"

definition snapshot_ok :: "weights option \<Rightarrow> bool" where
  "snapshot_ok s = (case s of None \<Rightarrow> True | Some ws \<Rightarrow> list_all (\<lambda>w. weight_ok w) (dict_values ws))"

lemma fmax_floor: "weight_ok w \<Longrightarrow> fmax w floor_weight = w"
  by (auto simp: weight_ok_def fmax_def flt_def)

lemma group_weights_current: "snapshot_ok s \<Longrightarrow> group_weights s hosts = current_weights s hosts"
  by (auto simp: snapshot_ok_def group_weights_def current_weights_def list_all_iff fmax_floor
      intro!: map_idI split: option.splits)

text \<open>
  the rebalancer prices the distribution that the collectors get: with weights in the range it
  writes and no hash collision among the points, its own ring gives an assignment to the
  collector whose \<open>GET /jobs\<close> answer has it.
\<close>

theorem rebalancer_prices_partition:
  assumes "distinct hosts" and "1 < length hosts" and "h \<in> set hosts" and "snapshot_ok snapshot"
    and "distinct (map fst (ring_points sha (current_weights snapshot hosts)))"
  shows "partition_rows sha snapshot hosts h row_id rows =
         filter (\<lambda>r. hash_ring_owner sha (row_id r) (current_weights snapshot hosts) = h) rows"
  unfolding partition_rows_owner [OF assms(1-3)] group_weights_current [OF assms(4)]
    hash_ring_owner_lookup [OF assms(5)] ..

section \<open>A collector leaves\<close>

lemma filter_from_key: "from_key k (filter P ring) = filter P (from_key k ring)"
  by (simp add: from_key_def conj_commute)

lemma hd_filter: "xs \<noteq> [] \<Longrightarrow> P (hd xs) \<Longrightarrow> hd (filter P xs) = hd xs"
  by (cases xs) simp_all

lemma max_weight_equal: "hosts \<noteq> [] \<Longrightarrow> max_weight (equal_weights hosts) = Fin 1"
proof -
  assume "hosts \<noteq> []"
  have f: "foldl fmax (Fin 1) (map (\<lambda>h. Fin 1) xs) = Fin 1" for xs :: "string list"
    by (induction xs) (simp_all add: fmax_def flt_def)
  obtain x xs where "remdups hosts = x # xs" using \<open>hosts \<noteq> []\<close> by (cases "remdups hosts") auto
  then show ?thesis by (simp add: max_weight_def equal_weights_def o_def f)
qed

lemma ring_points_leave:
  assumes "filter (\<lambda>x. x \<noteq> h) hosts \<noteq> []"
  shows "ring_points sha (equal_weights (filter (\<lambda>x. x \<noteq> h) hosts)) =
         filter (\<lambda>p. snd p \<noteq> h) (ring_points sha (equal_weights hosts))"
proof -
  have "hosts \<noteq> []" using assms by auto
  have e: "equal_weights (filter (\<lambda>x. x \<noteq> h) hosts) = filter (\<lambda>p. fst p \<noteq> h) (equal_weights hosts)"
    by (simp add: equal_weights_def remdups_filter filter_map o_def)
  have v: "filter (\<lambda>p. snd p \<noteq> h) (vnodes sha m hw) = (if fst hw \<noteq> h then vnodes sha m hw else [])" for m hw
    by (auto simp: vnodes_def filter_map o_def)
  have "concat (map (vnodes sha m) (filter (\<lambda>p. fst p \<noteq> h) xs)) =
        filter (\<lambda>p. snd p \<noteq> h) (concat (map (vnodes sha m) xs))" for m xs
    by (induction xs) (simp_all add: v)
  then show ?thesis
    unfolding ring_points_def max_weight_equal [OF assms] max_weight_equal [OF \<open>hosts \<noteq> []\<close>]
    unfolding e filter_sort [symmetric] by blast
qed

lemma owner_after_leave:
  assumes "lookup_weighted_owner sha a (build_weighted_ring sha (equal_weights hosts)) = g" and "g \<noteq> h" and "g \<in> set hosts"
  shows "lookup_weighted_owner sha a (build_weighted_ring sha (equal_weights (filter (\<lambda>x. x \<noteq> h) hosts))) = g"
proof -
  let ?hs = "filter (\<lambda>x. x \<noteq> h) hosts"
  let ?R = "build_weighted_ring sha (equal_weights hosts)" and ?k = "sha a"
  have ne: "?hs \<noteq> []" using assms by (auto simp: filter_empty_conv)
  have n: "ring_points sha (equal_weights hosts) \<noteq> []" "ring_points sha (equal_weights ?hs) \<noteq> []"
    using ne by (auto simp: ring_points_nonempty equal_weights_def filter_empty_conv)
  have g: "snd (hd (from_key ?k ?R)) = g" using assms(1) n(1) by (simp add: lookup_from_key)
  have "from_key ?k ?R \<noteq> []" using n(1) set_from_key [of ?k ?R] by (auto simp: build_weighted_ring_def)
  then have "hd (filter (\<lambda>p. snd p \<noteq> h) (from_key ?k ?R)) = hd (from_key ?k ?R)"
    using g assms(2) by (intro hd_filter) auto
  moreover have "build_weighted_ring sha (equal_weights ?hs) = filter (\<lambda>p. snd p \<noteq> h) ?R"
    unfolding build_weighted_ring_def ring_points_leave [OF ne] filter_sort ..
  ultimately show ?thesis unfolding lookup_from_key using n(2) g by (simp add: filter_from_key)
qed

text \<open>
  with equal weights the distribution is consistent: when a collector leaves the group, every
  other collector keeps the jobs it has, so only the jobs of the one that left move.
\<close>

theorem ring_consistent:
  assumes "g \<noteq> h" and "distinct hosts"
  shows "set (partition_rows sha None hosts g row_id rows) \<subseteq>
         set (partition_rows sha None (filter (\<lambda>x. x \<noteq> h) hosts) g row_id rows)"
proof (cases "g \<in> set hosts \<and> 1 < length (filter (\<lambda>x. x \<noteq> h) hosts)")
  case True
  then have l: "1 < length hosts" using length_filter_le [of "\<lambda>x. x \<noteq> h" hosts] by linarith
  have d: "distinct (filter (\<lambda>x. x \<noteq> h) hosts)" "g \<in> set (filter (\<lambda>x. x \<noteq> h) hosts)"
    using assms True by simp_all
  have w: "group_weights None xs = equal_weights xs" for xs by (simp add: group_weights_def)
  show ?thesis
    using partition_rows_owner [OF assms(2) l, of g sha None row_id rows]
      partition_rows_owner [OF d(1) _ d(2), of sha None row_id rows] True owner_after_leave [OF _ assms(1)]
    by (auto simp: w)
next
  case False
  have "set (partition_rows sha None hosts g row_id rows) \<subseteq> set rows"
    by (auto simp: partition_rows_def Let_def split: if_splits)
  moreover have "partition_rows sha None (filter (\<lambda>x. x \<noteq> h) hosts) g row_id rows = rows"
  proof (cases "g \<in> set hosts")
    case True
    then show ?thesis using False by (simp add: partition_rows_def)
  next
    case g: False
    have "g \<notin> set (dict_keys (group_weights None (filter (\<lambda>x. x \<noteq> h) hosts)))"
      unfolding keys_group_weights using g by simp
    then show ?thesis unfolding partition_rows_def Let_def by simp
  qed
  ultimately show ?thesis by simp
qed

text \<open>A hash without collisions for the witness.\<close>

fun code_hash :: "string \<Rightarrow> nat" where
  "code_hash [] = 0"
| "code_hash (c # cs) = Suc (of_char c) + 257 * code_hash cs"

lemma code_hash_inj: "code_hash s = code_hash t \<longleftrightarrow> s = t"
proof (induction s arbitrary: t)
  case Nil
  then show ?case by (cases t) auto
next
  case (Cons c s)
  show ?case
  proof (cases t)
    case t: (Cons d t')
    have l: "of_char x < (256 :: nat)" for x by (rule nat_of_char_less_256)
    have eq: "a = b \<and> m = n" if "Suc a + 257 * m = Suc b + 257 * n" "a < 256" "b < 256" for a b m n :: nat
      using that by (cases m n rule: linorder_cases) linarith+
    show ?thesis
    proof
      assume "code_hash (c # s) = code_hash t"
      then have "(of_char c :: nat) = of_char d \<and> code_hash s = code_hash t'" unfolding t by (intro eq [OF _ l l]) simp
      then show "c # s = t" using Cons.IH t by simp
    qed simp
  qed simp
qed

theorem rebalancer_prices_partition_witness:
  "partition_rows code_hash None [''c1'', ''c2''] ''c1'' id [''j1'', ''j2''] =
   filter (\<lambda>r. hash_ring_owner code_hash (id r) (current_weights None [''c1'', ''c2'']) = ''c1'') [''j1'', ''j2'']"
proof (rule rebalancer_prices_partition)
  have m: "max_weight (equal_weights [''c1'', ''c2'']) = Fin 1" by (rule max_weight_equal) simp
  have "ring_points code_hash (equal_weights [''c1'', ''c2'']) =
        vnodes code_hash (Fin 1) (''c1'', Fin 1) @ vnodes code_hash (Fin 1) (''c2'', Fin 1)"
    unfolding ring_points_def m by (simp add: equal_weights_def)
  then show "distinct (map fst (ring_points code_hash (current_weights None [''c1'', ''c2''])))"
    by (auto simp: current_weights_def vnodes_def distinct_map o_def inj_on_def code_hash_inj str_nat_inj
        simp del: code_hash.simps)
qed (simp_all add: snapshot_ok_def)

theorem ring_consistent_witness:
  "set (partition_rows code_hash None [''c1'', ''c2'', ''c3''] ''c1'' id [''j1'', ''j2'', ''j3'']) \<subseteq>
   set (partition_rows code_hash None (filter (\<lambda>x. x \<noteq> ''c2'') [''c1'', ''c2'', ''c3'']) ''c1'' id [''j1'', ''j2'', ''j3''])"
  by (rule ring_consistent) simp_all

end
