(* ===== verification/Job_Ring_Weights.thy ===== *)
theory Job_Ring_Weights
  imports Job_Ring_Props
begin

text \<open>
  The weights a rebalancing writes stay between 0.3 and 1 and have the active collectors as their
  keys, through every rounding of the computation.
\<close>

section \<open>Rounding keeps bounds that are powers of two\<close>

lemma ulp_exp_le:
  assumes "0 < x" and "x \<le> pow2 k" and "- 1074 \<le> k"
  shows "ulp_exp x \<le> k"
proof -
  have "pow2 (flog2 x) \<le> pow2 k" using flog2_bounds(1) [OF assms(1)] assms(2) by linarith
  then have "flog2 x \<le> k" by (simp only: pow2_le_iff)
  then show ?thesis using assms(1,3) by (simp add: ulp_exp_def)
qed

lemma ulp_exp_flog2: "0 < x \<Longrightarrow> - 1074 \<le> flog2 x \<Longrightarrow> ulp_exp x \<le> flog2 x"
  by (simp add: ulp_exp_def)

lemma pow2_int: "0 \<le> k \<Longrightarrow> pow2 k = of_int (2 ^ nat k)"
  by (simp add: pow2_nat)

definition rounded :: "rat \<Rightarrow> rat" where
  "rounded x = of_int (round_half_even (x / pow2 (ulp_exp x))) * pow2 (ulp_exp x)"

lemma rounded_nonneg: "0 \<le> x \<Longrightarrow> 0 \<le> rounded x"
  unfolding rounded_def by (intro mult_nonneg_nonneg) (simp_all add: round_half_even_nonneg less_imp_le)

lemma rounded_le:
  assumes "0 < x" and "x \<le> pow2 k" and "- 1074 \<le> k"
  shows "rounded x \<le> pow2 k"
proof -
  let ?q = "ulp_exp x"
  have u: "?q \<le> k" by (rule ulp_exp_le [OF assms])
  have "x / pow2 ?q \<le> pow2 (k - ?q)" using assms(2) by (simp add: pow2_diff divide_right_mono less_imp_le)
  then have "x / pow2 ?q \<le> of_int (2 ^ nat (k - ?q))" using u pow2_int [of "k - ?q"] by simp
  then have "round_half_even (x / pow2 ?q) \<le> 2 ^ nat (k - ?q)" by (rule round_half_even_le)
  then have "(of_int (round_half_even (x / pow2 ?q)) :: rat) \<le> pow2 (k - ?q)"
    using u pow2_int [of "k - ?q"] by (metis of_int_le_iff diff_ge_0_iff_ge)
  then show ?thesis by (simp add: rounded_def pow2_diff pos_le_divide_eq)
qed

lemma to_double_rounded:
  assumes "0 < x" and "x \<le> pow2 1000"
  shows "to_double x = Fin (rounded x)"
proof -
  have "rounded x \<le> pow2 1000" by (rule rounded_le [OF assms]) simp
  also have "pow2 1000 < pow2 1024" by (simp only: pow2_less_iff)
  finally have "\<not> pow2 1024 \<le> rounded x" by simp
  moreover have "\<not> rounded x \<le> - pow2 1024"
    using rounded_nonneg [of x] assms(1) pow2_pos [of 1024] by linarith
  ultimately show ?thesis using assms(1) unfolding to_double_def Let_def rounded_def [symmetric] by simp
qed

lemma to_double_upper:
  assumes "0 \<le> x" and "x \<le> pow2 k" and "- 1074 \<le> k" and "k \<le> 1000"
  shows "\<exists>y. to_double x = Fin y \<and> 0 \<le> y \<and> y \<le> pow2 k"
proof (cases "x = 0")
  case True
  then show ?thesis by (simp add: to_double_def less_imp_le)
next
  case False
  then have x: "0 < x" using assms(1) by simp
  moreover have "x \<le> pow2 1000" using assms(2,4) by (meson order_trans pow2_le_iff)
  ultimately show ?thesis using to_double_rounded rounded_le [OF x assms(2,3)] rounded_nonneg [OF assms(1)] by blast
qed

lemma to_double_lower:
  assumes "pow2 k \<le> x" and "to_double x = Fin y" and "- 1074 \<le> k" and "x \<le> pow2 1000"
  shows "pow2 k \<le> y"
proof -
  have x: "0 < x" using assms(1) pow2_pos [of k] by linarith
  let ?q = "ulp_exp x" and ?l = "flog2 x"
  have "pow2 k < pow2 (?l + 1)" using flog2_bounds(2) [OF x] assms(1) by linarith
  then have kl: "k \<le> ?l" by (simp only: pow2_less_iff)
  then have q: "?q \<le> ?l" using ulp_exp_flog2 [OF x] assms(3) by linarith
  have "pow2 (?l - ?q) \<le> x / pow2 ?q"
    using flog2_bounds(1) [OF x] by (simp add: pow2_diff divide_right_mono less_imp_le)
  then have "of_int (2 ^ nat (?l - ?q)) \<le> x / pow2 ?q" using q pow2_int [of "?l - ?q"] by simp
  then have "2 ^ nat (?l - ?q) \<le> round_half_even (x / pow2 ?q)" by (rule round_half_even_ge)
  then have "pow2 (?l - ?q) \<le> of_int (round_half_even (x / pow2 ?q))"
    using q pow2_int [of "?l - ?q"] by (metis of_int_le_iff diff_ge_0_iff_ge)
  then have "pow2 ?l \<le> rounded x"
    by (simp add: rounded_def pow2_diff pos_divide_le_eq)
  moreover have "y = rounded x" using to_double_rounded [OF x assms(4)] assms(2) by simp
  ultimately show ?thesis using kl by (metis order_trans pow2_le_iff)
qed

text \<open>A float between two bounds.\<close>

definition fin_in :: "rat \<Rightarrow> rat \<Rightarrow> pyfloat \<Rightarrow> bool" where
  "fin_in lo hi v \<longleftrightarrow> (\<exists>q. v = Fin q \<and> lo \<le> q \<and> q \<le> hi)"

lemma fin_in_round:
  assumes "pow2 j \<le> x" and "x \<le> pow2 k" and "- 1074 \<le> j" and "k \<le> 1000"
  shows "fin_in (pow2 j) (pow2 k) (to_double x)"
proof -
  have "0 \<le> x" using assms(1) pow2_pos [of j] by linarith
  moreover have "pow2 j \<le> pow2 k" using assms(1,2) by linarith
  then have "- 1074 \<le> k" using assms(3) by simp
  ultimately obtain y where "to_double x = Fin y" "y \<le> pow2 k" using to_double_upper assms(2,4) by blast
  moreover have "x \<le> pow2 1000" using assms(2,4) by (meson order_trans pow2_le_iff)
  ultimately show ?thesis using to_double_lower [OF assms(1) _ assms(3)] by (auto simp: fin_in_def)
qed

lemma fin_in_round0:
  assumes "0 \<le> x" and "x \<le> pow2 k" and "- 1074 \<le> k" and "k \<le> 1000"
  shows "fin_in 0 (pow2 k) (to_double x)"
  using to_double_upper [OF assms] by (auto simp: fin_in_def)

section \<open>Costs and targets\<close>

lemma floor_weight_in: "fin_in (1 / 4) (1 / 2) floor_weight"
  using fin_in_round [of "-2" "3 / 10" "-1"] by (simp add: floor_weight_def pow2_def)

lemma milli_in: "fin_in (1 / 1024) 1 milli"
  using fin_in_round [of "-10" "1 / 1000" 0] by (simp add: milli_def pow2_def)

lemma fmax_Fin [simp]: "fmax (Fin a) (Fin b) = Fin (max a b)"
  by (auto simp: fmax_def flt_def)

lemma weight_ok_in: "weight_ok w \<Longrightarrow> fin_in (1 / 4) 1 w"
proof -
  obtain q where q: "floor_weight = Fin q" "1 / 4 \<le> q" using floor_weight_in by (auto simp: fin_in_def)
  show "weight_ok w \<Longrightarrow> fin_in (1 / 4) 1 w"
    unfolding weight_ok_def q(1) fin_in_def using q(2) by (cases w) auto
qed

definition cost_ok :: "pyfloat \<Rightarrow> bool" where
  "cost_ok c \<longleftrightarrow> fle (Fin 0) c"

lemma cost_ok_cases: "cost_ok c \<longleftrightarrow> c = PInf \<or> (\<exists>q. c = Fin q \<and> 0 \<le> q)"
  by (cases c) (auto simp: cost_ok_def)

text \<open>What the columns of an assignment hold: a time that is a number, a schedule that is not \<open>nan\<close>.\<close>

definition input_ok :: "assignment_cost \<Rightarrow> bool" where
  "input_ok a \<longleftrightarrow> (case as_avg_execution_time a of None \<Rightarrow> True | Some v \<Rightarrow> is_finite v \<and> fle (Fin 0) v) \<and>
     float_of_string (as_schedule_value a) \<noteq> Some NaN"

lemma cost_ok_to_double: "0 \<le> x \<Longrightarrow> cost_ok (to_double x)"
  using to_double_nonneg_cases by (auto simp: cost_ok_cases)

lemma cost_of_ok: "input_ok a \<Longrightarrow> cost_ok (cost_of a)"
proof -
  assume a: "input_ok a"
  obtain q where q: "(case as_avg_execution_time a of None \<Rightarrow> Fin 5 | Some v \<Rightarrow> v) = Fin q" "0 \<le> q"
    using a by (auto simp: input_ok_def is_finite_def split: option.splits pyfloat.splits)
  define i where "i = (case float_of_string (as_schedule_value a) of None \<Rightarrow> Fin 300 | Some v \<Rightarrow> v)"
  have "i \<noteq> NaN" using a by (auto simp: input_ok_def i_def split: option.splits)
  then have "fmax i (Fin 1) = PInf \<or> (\<exists>b. fmax i (Fin 1) = Fin b \<and> 1 \<le> b)"
    by (cases i) (auto simp del: fmax_Fin simp: fmax_def flt_def)
  then consider b where "fmax i (Fin 1) = Fin b" "1 \<le> b" | "fmax i (Fin 1) = PInf" by blast
  then show ?thesis
    using q by cases (simp_all add: cost_of_def i_def [symmetric] cost_ok_to_double, simp add: cost_ok_def)
qed

lemma fadd_ok: "cost_ok a \<Longrightarrow> cost_ok b \<Longrightarrow> cost_ok (fadd a b)"
  by (cases a; cases b) (auto simp: cost_ok_def intro: cost_ok_to_double [unfolded cost_ok_def])

definition costs_ok :: "string list \<Rightarrow> weights \<Rightarrow> bool" where
  "costs_ok hosts cs \<longleftrightarrow> dict_keys cs = hosts \<and> list_all (\<lambda>c. cost_ok c) (dict_values cs)"

lemma dict_set_keys_present: "k \<in> set (dict_keys d) \<Longrightarrow> dict_keys (dict_set k v d) = dict_keys d"
  by (induction d) auto

lemma dict_set_values: "set (dict_values (dict_set k v d)) \<subseteq> insert v (set (dict_values d))"
  by (induction d) auto

lemma add_cost_ok: "input_ok a \<Longrightarrow> costs_ok hosts cs \<Longrightarrow> costs_ok hosts (add_cost sha ws a cs)"
proof -
  assume a: "input_ok a" "costs_ok hosts cs"
  let ?o = "hash_ring_owner sha (as_id a) ws"
  show ?thesis
  proof (cases "map_of cs ?o")
    case None
    then show ?thesis using a(2) by (simp add: add_cost_def)
  next
    case (Some c)
    then have m: "(?o, c) \<in> set cs" by (rule map_of_SomeD)
    then have "?o \<in> set (dict_keys cs)" by force
    moreover have "c \<in> set (dict_values cs)" using m by force
    then have "cost_ok c" using a(2) by (auto simp: costs_ok_def list_all_iff)
    then have "cost_ok (fadd c (cost_of a))" using cost_of_ok [OF a(1)] by (rule fadd_ok)
    moreover have "add_cost sha ws a cs = dict_set ?o (fadd c (cost_of a)) cs"
      using Some by (simp add: add_cost_def Let_def)
    ultimately show ?thesis
      using a(2) dict_set_values [of ?o "fadd c (cost_of a)" cs]
      unfolding costs_ok_def list_all_iff by (metis (no_types, lifting) dict_set_keys_present insert_iff subsetD)
  qed
qed

lemma costs_fold: "list_all input_ok as \<Longrightarrow> costs_ok hosts cs \<Longrightarrow> costs_ok hosts (fold (add_cost sha ws) as cs)"
  by (induction as arbitrary: cs) (simp_all add: add_cost_ok)

text \<open>The greatest of a list of finite numbers.\<close>

lemma foldl_fmax:
  "\<forall>v \<in> set vs. fin_in lo hi v \<Longrightarrow> fin_in lo hi m \<Longrightarrow>
   \<exists>q. foldl fmax m vs = Fin q \<and> lo \<le> q \<and> q \<le> hi \<and> (\<forall>v \<in> insert m (set vs). fle v (Fin q))"
proof (induction vs arbitrary: m)
  case (Cons v vs)
  have "fin_in lo hi (fmax m v)" using Cons.prems by (auto simp: fmax_def)
  then obtain q where q: "foldl fmax (fmax m v) vs = Fin q" "lo \<le> q" "q \<le> hi"
    "\<forall>w \<in> insert (fmax m v) (set vs). fle w (Fin q)"
    using Cons.IH Cons.prems(1) by (metis list.set_intros(2))
  obtain a b where "m = Fin a" "v = Fin b" using Cons.prems by (auto simp: fin_in_def)
  then have "fle m (Fin q)" "fle v (Fin q)" using q(4) by (auto simp: fmax_def flt_def split: if_splits)
  then show ?case using q by auto
qed (auto simp: fin_in_def)

lemma max_of_bound:
  assumes "\<forall>v \<in> set (dict_values ws). fin_in lo hi v" and "ws \<noteq> []"
  shows "\<exists>q. max_of ws = Fin q \<and> lo \<le> q \<and> q \<le> hi \<and> (\<forall>v \<in> set (dict_values ws). fle v (Fin q))"
proof -
  obtain p ps where p: "ws = p # ps" using assms(2) by (cases ws) auto
  show ?thesis using foldl_fmax [of "dict_values ps" lo hi "snd p"] assms(1) by (simp add: p max_of_def)
qed

lemma unit_quotient:
  assumes "0 \<le> a" and "a \<le> M" and "0 < M"
  shows "fin_in 0 1 (fdiv (Fin a) (Fin M))"
  using fin_in_round0 [of "a / M" 0] assms by (simp add: pow2_def)

lemma target_raw:
  assumes "cost_ok c" shows "fin_in 0 1024 (fdiv (Fin 1) (fmax c milli))"
proof -
  obtain m where m: "milli = Fin m" "1 / 1024 \<le> m" using milli_in by (auto simp: fin_in_def)
  from assms consider "c = PInf" | q where "c = Fin q" "0 \<le> q" by (auto simp: cost_ok_cases)
  then show ?thesis
  proof cases
    case 1
    then show ?thesis by (simp add: m fmax_def flt_def fin_in_def)
  next
    case 2
    define b where "b = max q m"
    have "fmax c milli = Fin b" unfolding 2(1) m(1) by (simp add: b_def)
    moreover have b: "1 / 1024 \<le> b" using m(2) by (simp add: b_def)
    then have "1 / b \<le> 1024" by (simp add: divide_le_eq)
    moreover have "0 \<le> 1 / b" using b by simp
    ultimately show ?thesis using fin_in_round0 [of "1 / b" 10] by (simp add: pow2_def)
  qed
qed

lemma target_weights_ok:
  assumes "costs_ok hosts cs" and "hosts \<noteq> []"
  shows "dict_keys (target_weights cs) = hosts \<and> (\<forall>v \<in> set (dict_values (target_weights cs)). fin_in 0 1 v)"
proof -
  define ts where "ts = map (\<lambda>(h, c). (h, fdiv (Fin 1) (fmax c milli))) cs"
  have t: "\<forall>v \<in> set (dict_values ts). fin_in 0 1024 v"
    using assms(1) by (auto simp: ts_def costs_ok_def list_all_iff intro!: target_raw)
  have ne: "ts \<noteq> []" using assms by (auto simp: ts_def costs_ok_def)
  obtain M where M: "max_of ts = Fin M" "0 \<le> M" "\<forall>v \<in> set (dict_values ts). fle v (Fin M)"
    using max_of_bound [OF t ne] by blast
  have k: "dict_keys ts = hosts" using assms(1) by (auto simp: ts_def costs_ok_def)
  have tw: "target_weights cs = scale_by (Fin M) ts" by (simp add: target_weights_def Let_def ts_def [symmetric] M(1))
  show ?thesis
  proof (cases "0 < M")
    case True
    have "fin_in 0 1 (fdiv v (Fin M))" if "v \<in> set (dict_values ts)" for v
      using that t M(3) True unit_quotient by (fastforce simp: fin_in_def)
    then have "\<forall>v \<in> set (dict_values (map (\<lambda>(h, w). (h, fdiv w (Fin M))) ts)). fin_in 0 1 v" by force
    moreover have "dict_keys (map (\<lambda>(h, w). (h, fdiv w (Fin M))) ts) = hosts" using k by (auto simp: o_def case_prod_beta)
    ultimately show ?thesis using True by (simp add: tw scale_by_def flt_def)
  next
    case False
    have "fin_in 0 1 v" if "v \<in> set (dict_values ts)" for v
      using that t M(3) False by (fastforce simp: fin_in_def)
    then show ?thesis using False k by (simp add: tw scale_by_def flt_def)
  qed
qed

section \<open>The new weights\<close>

lemma rest_weight_in: "fin_in (1 / 2) 1 (fsub (Fin 1) floor_weight)"
proof -
  obtain q where q: "floor_weight = Fin q" "1 / 4 \<le> q" "q \<le> 1 / 2" using floor_weight_in by (auto simp: fin_in_def)
  then show ?thesis
    unfolding fsub_def q(1) using fin_in_round [of "-1" "1 - q" 0] q(2,3) by (simp add: pow2_def)
qed

lemma blended_in:
  assumes "fin_in 0 1 t" and "fin_in (1 / 4) 1 c"
  shows "fin_in (1 / 8) 2 (fadd (fmul floor_weight t) (fmul (fsub (Fin 1) floor_weight) c))"
proof -
  obtain f t' c' r where f: "floor_weight = Fin f" "1 / 4 \<le> f" "f \<le> 1 / 2"
    and t: "t = Fin t'" "0 \<le> t'" "t' \<le> 1" and c: "c = Fin c'" "1 / 4 \<le> c'" "c' \<le> 1"
    and r: "fsub (Fin 1) floor_weight = Fin r" "1 / 2 \<le> r" "r \<le> 1"
    using floor_weight_in rest_weight_in assms by (auto simp: fin_in_def)
  have "0 \<le> f * t'" "f * t' \<le> 1 / 2 * 1"
    using f t mult_mono [of f "1 / 2" t' 1] by (simp_all add: mult_nonneg_nonneg)
  then have "fin_in 0 1 (fmul floor_weight t)"
    using fin_in_round0 [of "f * t'" 0] by (simp add: f(1) t(1) pow2_def)
  moreover have "1 / 2 * (1 / 4) \<le> r * c'" "r * c' \<le> 1 * 1"
    using r c mult_mono [of "1 / 2" r "1 / 4" c'] mult_mono [of r 1 c' 1] by simp_all
  then have "fin_in (1 / 8) 1 (fmul (fsub (Fin 1) floor_weight) c)"
    using fin_in_round [of "-3" "r * c'" 0] unfolding r(1) c(1) by (simp add: pow2_def)
  ultimately obtain x y where "fmul floor_weight t = Fin x" "0 \<le> x" "x \<le> 1"
    "fmul (fsub (Fin 1) floor_weight) c = Fin y" "1 / 8 \<le> y" "y \<le> 1" by (auto simp: fin_in_def)
  then show ?thesis using fin_in_round [of "-3" "x + y" 1] by (simp add: pow2_def)
qed

lemma settled_in:
  assumes "fin_in 0 1 w" shows "weight_ok (fmax floor_weight (py_round 4 w))"
proof -
  obtain q where q: "w = Fin q" "0 \<le> q" "q \<le> 1" using assms by (auto simp: fin_in_def)
  obtain f where f: "floor_weight = Fin f" "f \<le> 1 / 2" using floor_weight_in by (auto simp: fin_in_def)
  let ?z = "of_int (round_half_even (q * 10 ^ 4)) / 10 ^ 4 :: rat"
  have "round_half_even (q * 10 ^ 4) \<le> 10000" using q(3) by (intro round_half_even_le) simp
  then have "(of_int (round_half_even (q * 10 ^ 4)) :: rat) \<le> of_int 10000" by (simp only: of_int_le_iff)
  then have "?z \<le> 1" by simp
  moreover have "0 \<le> round_half_even (q * 10 ^ 4)" using q(2) by (intro round_half_even_nonneg) simp
  then have "0 \<le> ?z" by simp
  ultimately have "fin_in 0 1 (py_round 4 w)" using fin_in_round0 [of ?z 0] by (simp add: q(1) pow2_def)
  then obtain y where "py_round 4 w = Fin y" "0 \<le> y" "y \<le> 1" by (auto simp: fin_in_def)
  then show ?thesis unfolding weight_ok_def f(1) using f(2) by simp
qed

lemma dict_get_in: "\<forall>v \<in> set (dict_values ws). P v \<Longrightarrow> P dflt \<Longrightarrow> P (dict_get ws h dflt)"
  by (fastforce simp: dict_get_def dest: map_of_SomeD split: option.splits)

definition blended :: "weights \<Rightarrow> weights \<Rightarrow> string \<Rightarrow> pyfloat" where
  "blended current target h =
     fadd (fmul floor_weight (dict_get target h (Fin 1)))
          (fmul (fsub (Fin 1) floor_weight) (dict_get current h (Fin 1)))"

lemma blend_values: "dict_values (blend current target hosts) = map (blended current target) hosts"
  by (simp add: blend_def blended_def [abs_def] floor_weight_def o_def)

lemma blend_keys: "dict_keys (blend current target hosts) = hosts"
  by (simp add: blend_def o_def)

lemma blend_in:
  assumes "\<forall>v \<in> set (dict_values current). weight_ok v" and "\<forall>v \<in> set (dict_values target). fin_in 0 1 v"
  shows "\<forall>v \<in> set (dict_values (blend current target hosts)). fin_in (1 / 8) 2 v"
proof -
  have "fin_in 0 1 (dict_get target h (Fin 1))" for h
    using assms(2) by (rule dict_get_in) (simp add: fin_in_def)
  moreover have "fin_in (1 / 4) 1 (dict_get current h (Fin 1))" for h
  proof (rule dict_get_in)
    show "\<forall>v \<in> set (dict_values current). fin_in (1 / 4) 1 v" using assms(1) weight_ok_in by blast
  qed (simp add: fin_in_def)
  ultimately have "fin_in (1 / 8) 2 (blended current target h)" for h
    unfolding blended_def by (rule blended_in)
  then show ?thesis unfolding blend_values by simp
qed

lemma settle_ok:
  assumes "\<forall>v \<in> set (dict_values ws). fin_in (1 / 8) 2 v" and "ws \<noteq> []"
  shows "dict_keys (settle ws) = dict_keys ws \<and> (\<forall>v \<in> set (dict_values (settle ws)). weight_ok v)"
proof -
  obtain M where M: "max_of ws = Fin M" "1 / 8 \<le> M" "\<forall>v \<in> set (dict_values ws). fle v (Fin M)"
    using max_of_bound [OF assms] by blast
  have e: "settle ws = map (\<lambda>(h, w). (h, fmax floor_weight (py_round 4 (fdiv w (Fin M))))) ws"
    using M(2) by (simp add: settle_def Let_def M(1) flt_def)
  have "weight_ok (fmax floor_weight (py_round 4 (fdiv v (Fin M))))" if "v \<in> set (dict_values ws)" for v
  proof -
    have "fin_in (1 / 8) 2 v" using assms(1) that by (rule bspec)
    then obtain a where a: "v = Fin a" "1 / 8 \<le> a" unfolding fin_in_def by (elim exE conjE)
    have "fle v (Fin M)" using M(3) that by blast
    then have "a \<le> M" by (simp add: a(1))
    then show ?thesis using a M(2) unit_quotient [of a M] settled_in by simp
  qed
  then have "\<forall>v \<in> set (dict_values (settle ws)). weight_ok v" unfolding e by force
  moreover have "dict_keys (settle ws) = dict_keys ws" unfolding e by (simp add: o_def case_prod_beta)
  ultimately show ?thesis by blast
qed

lemma weight_ok_one: "weight_ok (Fin 1)"
proof -
  obtain f where f: "floor_weight = Fin f" "f \<le> 1 / 2" using floor_weight_in by (auto simp: fin_in_def)
  then show ?thesis unfolding weight_ok_def f(1) by simp
qed

lemma current_weights_ok:
  assumes "snapshot_ok s"
  shows "set (dict_keys (current_weights s hosts)) = set hosts"
    and "\<forall>v \<in> set (dict_values (current_weights s hosts)). weight_ok v"
proof -
  show "set (dict_keys (current_weights s hosts)) = set hosts"
    by (auto simp only: current_weights_def same_keys_def keys_equal_weights set_remdups split: option.split if_splits)
  have "\<forall>v \<in> set (dict_values (equal_weights hosts)). weight_ok v"
    using weight_ok_one by (auto simp: equal_weights_def)
  then show "\<forall>v \<in> set (dict_values (current_weights s hosts)). weight_ok v"
    using assms by (auto simp: current_weights_def snapshot_ok_def list_all_iff split: option.splits)
qed

text \<open>
  C27: a rebalancing keeps the snapshot sound: when it writes one, its keys are the active
  collectors and each weight is at least the 0.3 of the starvation floor and at most one, for any
  hash, any costs, and through the rounding of every float operation.
\<close>

theorem rebalance_keeps_weights:
  assumes "snapshot_ok snapshot" and "list_all input_ok assignments"
    and "rebalance_group sha snapshot hosts assignments = Some ws"
  shows "set (dict_keys ws) = set hosts \<and> list_all (\<lambda>w. weight_ok w) (dict_values ws)"
proof -
  let ?cur = "current_weights snapshot hosts"
  define costs where "costs = fold (add_cost sha ?cur) assignments (map (\<lambda>h. (h, Fin 0)) (remdups hosts))"
  let ?new = "settle (blend ?cur (target_weights costs) (remdups hosts))"
  have "2 \<le> length hosts" using assms(3) by (auto simp: rebalance_group_def Let_def split: if_splits)
  then have ne: "remdups hosts \<noteq> []" by auto
  have "costs_ok (remdups hosts) costs"
    unfolding costs_def by (intro costs_fold [OF assms(2)]) (simp add: costs_ok_def o_def list_all_iff cost_ok_def)
  then have t: "\<forall>v \<in> set (dict_values (target_weights costs)). fin_in 0 1 v" using target_weights_ok ne by blast
  have "blend ?cur (target_weights costs) (remdups hosts) \<noteq> []" using ne by (simp add: blend_def)
  then have n: "dict_keys ?new = remdups hosts" "\<forall>v \<in> set (dict_values ?new). weight_ok v"
    using settle_ok [OF blend_in [OF current_weights_ok(2) [OF assms(1)] t]] by (metis blend_keys, metis)
  have "ws \<in> {?cur, ?new}"
    using assms(3) by (auto simp: rebalance_group_def Let_def costs_def [symmetric] split: if_splits)
  then show ?thesis
    using n current_weights_ok [OF assms(1), of hosts] unfolding list_all_iff by (metis insertE set_remdups singletonD)
qed

lemma rebalance_group_None: "rebalance_group sha s hosts js = None \<longleftrightarrow> length hosts < 2 \<or> js = []"
  by (simp add: rebalance_group_def Let_def)

definition one_slow_job :: "assignment_cost list" where
  "one_slow_job = [\<lparr>as_id = ''j1'', as_avg_execution_time = Some (Fin 2), as_schedule_value = ''60''\<rparr>]"

theorem rebalance_keeps_weights_witness:
  "\<exists>ws. rebalance_group code_hash None [''c1'', ''c2''] one_slow_job = Some ws \<and>
     set (dict_keys ws) = {''c1'', ''c2''} \<and> list_all (\<lambda>w. weight_ok w) (dict_values ws)"
proof -
  have "rebalance_group code_hash None [''c1'', ''c2''] one_slow_job \<noteq> None"
    by (simp add: rebalance_group_None one_slow_job_def)
  then obtain ws where ws: "rebalance_group code_hash None [''c1'', ''c2''] one_slow_job = Some ws" by blast
  have "float_of_string ''60'' \<noteq> Some NaN"
  proof -
    have "strip ''60'' = ''60''" by code_simp
    moreover have "decimal_string ''60'' = Some 60" by code_simp
    moreover have "lower (unsigned ''60'') = ''60''" by code_simp
    moreover have "to_double 60 \<noteq> NaN" using cost_ok_to_double [of 60] by (auto simp: cost_ok_def)
    ultimately show ?thesis by (simp add: float_of_string_def Let_def negated_def)
  qed
  then have "list_all input_ok one_slow_job" by (simp add: one_slow_job_def input_ok_def is_finite_def)
  then show ?thesis using rebalance_keeps_weights [OF _ _ ws] ws by (simp add: snapshot_ok_def)
qed

end
