(* ===== verification/Buffers.thy ===== *)
theory Buffers
  imports Event_System PyFloat "HOL-Library.Multiset" "HOL-Library.Sublist"
begin

text \<open>
  The two in-memory buffers in front of ClickHouse: the write buffer of the results
  (\<open>storage/ch_buffer.py\<close>) and the buffer of the audit rows (\<open>audit/buffer.py\<close>).  Tasks interleave at
  the awaits, so an operation is cut into the steps between them; an insert under way is in flight.
\<close>

section \<open>The write buffer\<close>

definition FLUSH_THRESHOLD_ROWS :: nat where "FLUSH_THRESHOLD_ROWS = 500"

definition MAX_BUFFER_ROWS :: nat where "MAX_BUFFER_ROWS = 10000"

text \<open>\<open>wb_dropped\<close> and \<open>wb_insert_errors\<close> are the counters kept in Redis.\<close>

record 'r write_buffer =
  wb_buffers :: "(string, 'r list) dict"
  wb_total_rows :: nat
  wb_total_flushes :: nat
  wb_total_flush_ms :: pyfloat
  wb_insert_errors :: "string \<Rightarrow> nat"
  wb_dropped :: "string \<Rightarrow> nat"

definition new_write_buffer :: "'r write_buffer" where
  "new_write_buffer = \<lparr>wb_buffers = [], wb_total_rows = 0, wb_total_flushes = 0, wb_total_flush_ms = Fin 0,
     wb_insert_errors = (\<lambda>_. 0), wb_dropped = (\<lambda>_. 0)\<rparr>"

text \<open>The new buffer, and whether the caller goes on to flush the table.\<close>

definition append_rows :: "string \<Rightarrow> 'r list \<Rightarrow> 'r write_buffer \<Rightarrow> 'r write_buffer \<times> bool" where
  "append_rows tbl rows b =
     (if rows = [] then (b, False)
      else let bufs = dict_set tbl (dict_get (wb_buffers b) tbl [] @ rows) (wb_buffers b)
           in (b\<lparr>wb_buffers := bufs\<rparr>, FLUSH_THRESHOLD_ROWS \<le> length (dict_get bufs tbl [])))"

definition pop_table :: "string \<Rightarrow> 'r write_buffer \<Rightarrow> 'r list \<times> 'r write_buffer" where
  "pop_table tbl b = (dict_get (wb_buffers b) tbl [], b\<lparr>wb_buffers := dict_pop tbl (wb_buffers b)\<rparr>)"

definition insert_landed :: "'r list \<Rightarrow> pyfloat \<Rightarrow> 'r write_buffer \<Rightarrow> 'r write_buffer" where
  "insert_landed rows elapsed_ms b =
     b\<lparr>wb_total_rows := wb_total_rows b + length rows, wb_total_flushes := wb_total_flushes b + 1,
       wb_total_flush_ms := fadd (wb_total_flush_ms b) elapsed_ms\<rparr>"

definition insert_failed :: "string \<Rightarrow> 'r list \<Rightarrow> 'r write_buffer \<Rightarrow> 'r write_buffer" where
  "insert_failed tbl rows b =
     (let b = b\<lparr>wb_insert_errors := (wb_insert_errors b)(tbl := wb_insert_errors b tbl + length rows)\<rparr>;
          merged = rows @ dict_get (wb_buffers b) tbl []
      in if length merged \<le> MAX_BUFFER_ROWS then b\<lparr>wb_buffers := dict_set tbl merged (wb_buffers b)\<rparr>
         else let keep = last_n MAX_BUFFER_ROWS merged
              in b\<lparr>wb_buffers := dict_set tbl keep (wb_buffers b),
                   wb_dropped := (wb_dropped b)(tbl := wb_dropped b tbl + (length merged - length keep))\<rparr>)"

text \<open>
  The operations when nothing comes in between.  \<open>ins\<close> is the insert of the client: the time it took,
  or an exception.
\<close>

definition flush_table :: "(string \<Rightarrow> 'r list \<Rightarrow> pyfloat option) \<Rightarrow> string \<Rightarrow> 'r write_buffer \<Rightarrow> 'r write_buffer" where
  "flush_table ins tbl b =
     (let (rows, b) = pop_table tbl b
      in if rows = [] then b
         else case ins tbl rows of None \<Rightarrow> insert_failed tbl rows b | Some ms \<Rightarrow> insert_landed rows ms b)"

definition flush_all :: "(string \<Rightarrow> 'r list \<Rightarrow> pyfloat option) \<Rightarrow> 'r write_buffer \<Rightarrow> 'r write_buffer" where
  "flush_all ins b = fold (flush_table ins) (dict_keys (wb_buffers b)) b"

definition append_flush :: "(string \<Rightarrow> 'r list \<Rightarrow> pyfloat option) \<Rightarrow> string \<Rightarrow> 'r list \<Rightarrow> 'r write_buffer \<Rightarrow> 'r write_buffer" where
  "append_flush ins tbl rows b = (let (b, full) = append_rows tbl rows b in if full then flush_table ins tbl b else b)"

text \<open>\<open>stats\<close>: the totals, the average time of a flush, and the tables with rows waiting.\<close>

definition avg_flush_ms :: "'r write_buffer \<Rightarrow> pyfloat" where
  "avg_flush_ms b = py_round 2 (fdiv_int (wb_total_flush_ms b) (int (max (wb_total_flushes b) 1)))"

definition pending_tables :: "'r write_buffer \<Rightarrow> (string, nat) dict" where
  "pending_tables b = map (\<lambda>(t, rows). (t, length rows)) (filter (\<lambda>(t, rows). rows \<noteq> []) (wb_buffers b))"

definition write_buffer_stats :: "'r write_buffer \<Rightarrow> nat \<times> nat \<times> pyfloat \<times> (string, nat) dict" where
  "write_buffer_stats b = (wb_total_rows b, wb_total_flushes b, avg_flush_ms b, pending_tables b)"

section \<open>The write buffer and its tasks\<close>

text \<open>
  Any number of requests append while the timer and the requests that met the threshold flush.
  \<open>cr_flushing\<close> are the inserts in flight.  The rest is the record of what became of the rows.  An
  insert whose task is cancelled (\<open>stop\<close> cancels the timer) goes on in its thread, but nobody waits
  for its outcome.
\<close>

type_synonym 'r rows_of = "(string \<times> 'r) list"

record 'r ch_run =
  cr_buffer :: "'r write_buffer"
  cr_flushing :: "(string \<times> 'r list) list"
  cr_appended :: "'r rows_of"
  cr_inserted :: "'r rows_of"
  cr_cut :: "'r rows_of"
  cr_abandoned :: "'r rows_of"

datatype 'r ch_event =
    Append string "'r list"
  | Flush string
  | Landed string "'r list" pyfloat
  | Refused string "'r list"
  | Cancelled string "'r list" bool

definition tagged :: "string \<Rightarrow> 'r list \<Rightarrow> 'r rows_of" where
  "tagged tbl rows = map (Pair tbl) rows"

definition new_ch_run :: "'r ch_run" where
  "new_ch_run = \<lparr>cr_buffer = new_write_buffer, cr_flushing = [], cr_appended = [], cr_inserted = [], cr_cut = [], cr_abandoned = []\<rparr>"

definition cut_by :: "string \<Rightarrow> 'r list \<Rightarrow> 'r write_buffer \<Rightarrow> 'r rows_of" where
  "cut_by tbl rows b =
     (let merged = rows @ dict_get (wb_buffers b) tbl []
      in tagged tbl (take (length merged - MAX_BUFFER_ROWS) merged))"

fun ch_step :: "'r ch_event \<Rightarrow> 'r ch_run \<Rightarrow> 'r ch_run option" where
  "ch_step (Append tbl rows) s =
     Some (s\<lparr>cr_buffer := fst (append_rows tbl rows (cr_buffer s)), cr_appended := cr_appended s @ tagged tbl rows\<rparr>)"
| "ch_step (Flush tbl) s =
     (let (rows, b) = pop_table tbl (cr_buffer s)
      in Some (s\<lparr>cr_buffer := b, cr_flushing := (if rows = [] then cr_flushing s else (tbl, rows) # cr_flushing s)\<rparr>))"
| "ch_step (Landed tbl rows ms) s =
     (if (tbl, rows) \<in> set (cr_flushing s)
      then Some (s\<lparr>cr_buffer := insert_landed rows ms (cr_buffer s),
                   cr_flushing := remove1 (tbl, rows) (cr_flushing s), cr_inserted := cr_inserted s @ tagged tbl rows\<rparr>)
      else None)"
| "ch_step (Refused tbl rows) s =
     (if (tbl, rows) \<in> set (cr_flushing s)
      then Some (s\<lparr>cr_buffer := insert_failed tbl rows (cr_buffer s),
                   cr_flushing := remove1 (tbl, rows) (cr_flushing s), cr_cut := cr_cut s @ cut_by tbl rows (cr_buffer s)\<rparr>)
      else None)"
| "ch_step (Cancelled tbl rows landed) s =
     (if (tbl, rows) \<in> set (cr_flushing s)
      then Some (if landed
                 then s\<lparr>cr_flushing := remove1 (tbl, rows) (cr_flushing s), cr_inserted := cr_inserted s @ tagged tbl rows\<rparr>
                 else s\<lparr>cr_flushing := remove1 (tbl, rows) (cr_flushing s), cr_abandoned := cr_abandoned s @ tagged tbl rows\<rparr>)
      else None)"

section \<open>The audit buffer\<close>

definition MAX_AUDIT_BUFFER :: nat where "MAX_AUDIT_BUFFER = 5000"

definition AUDIT_FLUSH_BATCH :: nat where "AUDIT_FLUSH_BATCH = 500"

record 'r audit_buffer =
  ab_rows :: "'r list"
  ab_dropped_total :: nat
  ab_flush_failures :: nat

definition new_audit_buffer :: "'r audit_buffer" where
  "new_audit_buffer = \<lparr>ab_rows = [], ab_dropped_total = 0, ab_flush_failures = 0\<rparr>"

definition audit_extend :: "'r list \<Rightarrow> 'r audit_buffer \<Rightarrow> 'r audit_buffer" where
  "audit_extend rows b =
     (if rows = [] then b
      else let b = (if MAX_AUDIT_BUFFER \<le> length (ab_rows b)
                    then let dropped = length (ab_rows b) + length rows - MAX_AUDIT_BUFFER
                         in b\<lparr>ab_rows := drop dropped (ab_rows b), ab_dropped_total := ab_dropped_total b + dropped\<rparr>
                    else b)
           in b\<lparr>ab_rows := ab_rows b @ rows\<rparr>)"

definition audit_drain :: "nat \<Rightarrow> 'r audit_buffer \<Rightarrow> 'r list \<times> 'r audit_buffer" where
  "audit_drain max_rows b = (take max_rows (ab_rows b), b\<lparr>ab_rows := drop max_rows (ab_rows b)\<rparr>)"

definition audit_flush_failed :: "'r list \<Rightarrow> 'r audit_buffer \<Rightarrow> 'r audit_buffer" where
  "audit_flush_failed batch b =
     b\<lparr>ab_flush_failures := ab_flush_failures b + 1, ab_dropped_total := ab_dropped_total b + length batch\<rparr>"

text \<open>
  The task of the buffer: it waits for the stop event or for five seconds, inserts a batch, and looks
  at the stop event.  \<open>au_extended\<close> and \<open>au_inserted\<close> record the rows that came in and that ClickHouse
  took.
\<close>

datatype 'r audit_task = Waiting | Inserting "'r list" | Over

record 'r audit_run =
  au_buffer :: "'r audit_buffer"
  au_task :: "'r audit_task"
  au_stop :: bool
  au_extended :: "'r list"
  au_inserted :: "'r list"

definition new_audit_run :: "'r audit_run" where
  "new_audit_run = \<lparr>au_buffer = new_audit_buffer, au_task = Waiting, au_stop = False, au_extended = [], au_inserted = []\<rparr>"

datatype 'r audit_event = Extend "'r list" | Woken | Batch_Taken bool | Start_Audit | Stop_Audit

definition next_audit_task :: "bool \<Rightarrow> 'r audit_task" where
  "next_audit_task stop = (if stop then Over else Waiting)"

fun audit_step :: "'r audit_event \<Rightarrow> 'r audit_run \<Rightarrow> 'r audit_run option" where
  "audit_step (Extend rows) s =
     Some (s\<lparr>au_buffer := audit_extend rows (au_buffer s), au_extended := au_extended s @ rows\<rparr>)"
| "audit_step Woken s =
     (if au_task s = Waiting
      then let (batch, b) = audit_drain AUDIT_FLUSH_BATCH (au_buffer s)
           in Some (s\<lparr>au_buffer := b, au_task := (if batch = [] then next_audit_task (au_stop s) else Inserting batch)\<rparr>)
      else None)"
| "audit_step (Batch_Taken ok) s =
     (case au_task s of
        Inserting batch \<Rightarrow>
          Some (if ok then s\<lparr>au_inserted := au_inserted s @ batch, au_task := next_audit_task (au_stop s)\<rparr>
                else s\<lparr>au_buffer := audit_flush_failed batch (au_buffer s), au_task := next_audit_task (au_stop s)\<rparr>)
      | _ \<Rightarrow> None)"
| "audit_step Start_Audit s = Some (if au_task s = Over then s\<lparr>au_stop := False, au_task := Waiting\<rparr> else s)"
| "audit_step Stop_Audit s = Some (s\<lparr>au_stop := True\<rparr>)"

end
