(* ===== verification/Buffers_Props.thy ===== *)
theory Buffers_Props
  imports Buffers
begin

text \<open>
  No row is lost silently by the write buffer, what its limit cuts off is counted, and a working
  ClickHouse gets everything; the audit buffer keeps its order and its count and is bounded by its
  limit and the size of one request.
\<close>

section \<open>Rows held\<close>

definition rows_of :: "(string \<times> 'r list) list \<Rightarrow> 'r rows_of" where
  "rows_of d = concat (map (\<lambda>(t, rs). tagged t rs) d)"

lemma rows_of_simps [simp]: "rows_of [] = []" "rows_of ((t, rs) # d) = tagged t rs @ rows_of d"
  by (simp_all add: rows_of_def)

lemma tagged_append [simp]: "tagged t (xs @ ys) = tagged t xs @ tagged t ys"
  by (simp add: tagged_def)

lemma tagged_Nil [simp]: "tagged t [] = []"
  by (simp add: tagged_def)

lemma length_tagged [simp]: "length (tagged t xs) = length xs"
  by (simp add: tagged_def)

lemma rows_of_pop:
  "wf_dict d \<Longrightarrow> mset (rows_of d) = mset (tagged t (dict_get d t [])) + mset (rows_of (dict_pop t d))"
proof (induction d)
  case (Cons p d)
  obtain t' rs where p: "p = (t', rs)" by (cases p)
  show ?case
  proof (cases "t' = t")
    case True
    then have "t \<notin> set (dict_keys d)" using Cons.prems p by simp
    then have "dict_pop t d = d" by (simp add: delete_id)
    then show ?thesis using True p by (simp add: dict_get_def)
  next
    case False
    then have "dict_get (p # d) t [] = dict_get d t []" "dict_pop t (p # d) = p # dict_pop t d"
      by (simp_all add: p dict_get_def)
    then show ?thesis using Cons p by simp
  qed
qed (simp add: dict_get_def)

lemma rows_of_set: "wf_dict d \<Longrightarrow> mset (rows_of (dict_set t rs d)) = mset (tagged t rs) + mset (rows_of (dict_pop t d))"
proof (induction d)
  case (Cons p d)
  obtain t' rs' where p: "p = (t', rs')" by (cases p)
  show ?case
  proof (cases "t' = t")
    case True
    then have "t \<notin> set (dict_keys d)" using Cons.prems p by simp
    then have "dict_pop t d = d" by (simp add: delete_id)
    then show ?thesis using True p by simp
  next
    case False
    then show ?thesis using Cons p by simp
  qed
qed simp

lemma rows_of_remove1:
  "(t, rows) \<in> set fl \<Longrightarrow> mset (rows_of fl) = mset (tagged t rows) + mset (rows_of (remove1 (t, rows) fl))"
  by (induction fl) auto

lemma dict_get_set [simp]: "dict_get (dict_set k v d) k dflt = v"
  by (simp add: dict_get_def)

section \<open>Conservation\<close>

definition balanced :: "'r ch_run \<Rightarrow> bool" where
  "balanced s \<longleftrightarrow>
     mset (cr_appended s) = mset (cr_inserted s) + mset (rows_of (cr_flushing s)) +
       mset (rows_of (wb_buffers (cr_buffer s))) + mset (cr_cut s) + mset (cr_abandoned s)"

definition cut_counted :: "'r ch_run \<Rightarrow> bool" where
  "cut_counted s \<longleftrightarrow> (\<forall>t. wb_dropped (cr_buffer s) t = length (filter (\<lambda>p. fst p = t) (cr_cut s)))"

definition ch_inv :: "'r ch_run \<Rightarrow> bool" where
  "ch_inv s \<longleftrightarrow> wf_dict (wb_buffers (cr_buffer s)) \<and> balanced s \<and> cut_counted s"

lemma cut_and_kept:
  "tagged t (rows @ dict_get (wb_buffers b) t []) =
   cut_by t rows b @ tagged t (last_n MAX_BUFFER_ROWS (rows @ dict_get (wb_buffers b) t []))"
  unfolding cut_by_def last_n_def Let_def tagged_append [symmetric] append_take_drop_id ..

lemma insert_failed_buffers:
  "wb_buffers (insert_failed t rows b) =
   dict_set t (last_n MAX_BUFFER_ROWS (rows @ dict_get (wb_buffers b) t [])) (wb_buffers b)"
  by (auto simp: insert_failed_def Let_def last_n_all simp del: length_append)

lemma insert_failed_dropped:
  "wb_dropped (insert_failed t rows b) = (wb_dropped b)(t := wb_dropped b t + length (cut_by t rows b))"
  by (auto simp: insert_failed_def Let_def cut_by_def fun_eq_iff)

lemma insert_failed_rows:
  assumes "wf_dict (wb_buffers b)"
  shows "mset (rows_of (wb_buffers (insert_failed t rows b))) + mset (cut_by t rows b) =
         mset (tagged t rows) + mset (rows_of (wb_buffers b))"
proof -
  have "mset (cut_by t rows b) + mset (tagged t (last_n MAX_BUFFER_ROWS (rows @ dict_get (wb_buffers b) t []))) =
        mset (tagged t rows) + mset (tagged t (dict_get (wb_buffers b) t []))"
    using cut_and_kept [of t rows b] by (metis mset_append tagged_append)
  then show ?thesis
    by (simp add: insert_failed_buffers rows_of_set [OF assms] rows_of_pop [OF assms, of t] ac_simps)
qed

lemma append_rows_buffers:
  assumes "wf_dict (wb_buffers b)"
  shows "wf_dict (wb_buffers (fst (append_rows t rows b)))"
    and "mset (rows_of (wb_buffers (fst (append_rows t rows b)))) = mset (tagged t rows) + mset (rows_of (wb_buffers b))"
    and "wb_dropped (fst (append_rows t rows b)) = wb_dropped b"
  using assms rows_of_pop [OF assms, of t] by (auto simp: append_rows_def Let_def rows_of_set)

lemma filter_cut: "filter (\<lambda>p. fst p = t) (cut_by t' rows b) = (if t = t' then cut_by t' rows b else [])"
  by (auto simp: cut_by_def Let_def tagged_def filter_map o_def)

lemma ch_step_inv: "ch_inv s \<Longrightarrow> ch_step e s = Some s' \<Longrightarrow> ch_inv s'"
proof (cases e)
  case (Append t rows)
  assume i: "ch_inv s" and e: "ch_step e s = Some s'"
  then have "wf_dict (wb_buffers (cr_buffer s))" by (simp add: ch_inv_def)
  from append_rows_buffers [OF this, of t rows] show ?thesis
    using i e by (auto simp: Append ch_inv_def balanced_def cut_counted_def)
next
  case (Flush t)
  assume i: "ch_inv s" and e: "ch_step e s = Some s'"
  then have "wf_dict (wb_buffers (cr_buffer s))" by (simp add: ch_inv_def)
  from rows_of_pop [OF this, of t] show ?thesis
    using i e by (auto simp: Flush ch_inv_def balanced_def cut_counted_def pop_table_def Let_def)
next
  case (Landed t rows ms)
  assume i: "ch_inv s" and e: "ch_step e s = Some s'"
  then have "(t, rows) \<in> set (cr_flushing s)" by (auto simp: Landed split: if_splits)
  from rows_of_remove1 [OF this] show ?thesis
    using i e by (auto simp: Landed ch_inv_def balanced_def cut_counted_def insert_landed_def split: if_splits)
next
  case (Refused t rows)
  assume i: "ch_inv s" and e: "ch_step e s = Some s'"
  then have m: "(t, rows) \<in> set (cr_flushing s)" by (auto simp: Refused split: if_splits)
  have w: "wf_dict (wb_buffers (cr_buffer s))" using i by (simp add: ch_inv_def)
  have s': "s' = s\<lparr>cr_buffer := insert_failed t rows (cr_buffer s),
      cr_flushing := remove1 (t, rows) (cr_flushing s), cr_cut := cr_cut s @ cut_by t rows (cr_buffer s)\<rparr>"
    using e m by (simp add: Refused)
  have "balanced s'"
    using i rows_of_remove1 [OF m] insert_failed_rows [OF w, of t rows]
    by (simp add: s' ch_inv_def balanced_def)
  moreover have "cut_counted s'"
    using i by (simp add: s' ch_inv_def cut_counted_def insert_failed_dropped filter_cut)
  moreover have "wf_dict (wb_buffers (cr_buffer s'))" using w by (simp add: s' insert_failed_buffers)
  ultimately show ?thesis by (simp add: ch_inv_def)
next
  case (Cancelled t rows landed)
  assume i: "ch_inv s" and e: "ch_step e s = Some s'"
  then have "(t, rows) \<in> set (cr_flushing s)" by (auto simp: Cancelled split: if_splits)
  from rows_of_remove1 [OF this] show ?thesis
    using i e by (auto simp: Cancelled ch_inv_def balanced_def cut_counted_def split: if_splits)
qed

interpretation ch_system: event_system ch_step ch_inv
  by unfold_locales (rule ch_step_inv)

lemma ch_inv_new: "ch_inv new_ch_run"
  by (simp add: ch_inv_def balanced_def cut_counted_def new_ch_run_def new_write_buffer_def)


definition ch_demo :: "nat ch_event list" where
  "ch_demo = [Append ''perf'' [1, 2], Flush ''perf'', Append ''perf'' [3], Refused ''perf'' [1, 2],
     Flush ''perf'', Landed ''perf'' [1, 2, 3] (Fin 7)]"


text \<open>A failed insert leaves at most the limit of rows, the last of what the table had.\<close>

lemma ch_failed_keeps_newest:
  "dict_get (wb_buffers (insert_failed t rows b)) t [] = last_n MAX_BUFFER_ROWS (rows @ dict_get (wb_buffers b) t [])"
  by (simp add: insert_failed_buffers)

text \<open>
  When two flushes of one table are under way and both fail, the older rows end up behind the newer
  ones, and a later cut takes the newer ones.
\<close>

lemma ch_failures_reorder:
  assumes "xs \<noteq> []" and "ys \<noteq> []" and "length xs + length ys \<le> MAX_BUFFER_ROWS"
  shows "\<exists>s. run_events ch_step [Append t xs, Flush t, Append t ys, Flush t, Refused t xs, Refused t ys] new_ch_run = Some s \<and>
     wb_buffers (cr_buffer s) = [(t, ys @ xs)]"
  using assms by (simp add: new_ch_run_def new_write_buffer_def append_rows_def pop_table_def dict_get_def
      Let_def insert_failed_def)

section \<open>Flushing with nothing in between\<close>

lemma flush_table_landed:
  assumes "\<And>t rs. ins t rs \<noteq> None"
  shows "wb_buffers (flush_table ins t b) = dict_pop t (wb_buffers b)"
    and "wb_total_rows (flush_table ins t b) = wb_total_rows b + length (dict_get (wb_buffers b) t [])"
proof -
  obtain ms where "ins t (dict_get (wb_buffers b) t []) = Some ms" using assms by blast
  then show "wb_buffers (flush_table ins t b) = dict_pop t (wb_buffers b)"
    and "wb_total_rows (flush_table ins t b) = wb_total_rows b + length (dict_get (wb_buffers b) t [])"
    by (simp_all add: flush_table_def pop_table_def insert_landed_def Let_def)
qed

lemma fold_flush_table:
  assumes "\<And>t rs. ins t rs \<noteq> None"
  shows "wf_dict (wb_buffers b) \<Longrightarrow> set (dict_keys (wb_buffers b)) \<subseteq> set ts \<Longrightarrow>
    wb_buffers (fold (flush_table ins) ts b) = [] \<and>
    wb_total_rows (fold (flush_table ins) ts b) = wb_total_rows b + length (rows_of (wb_buffers b))"
proof (induction ts arbitrary: b)
  case (Cons t ts)
  let ?b = "flush_table ins t b"
  have "wf_dict (wb_buffers ?b)" "set (dict_keys (wb_buffers ?b)) \<subseteq> set ts"
    using Cons.prems by (simp_all add: flush_table_landed [OF assms] keys_dict_pop del: set_map) blast
  note ih = Cons.IH [OF this]
  have "length (rows_of (wb_buffers b)) = length (dict_get (wb_buffers b) t []) + length (rows_of (dict_pop t (wb_buffers b)))"
    using arg_cong [OF rows_of_pop [OF Cons.prems(1), of t], of size] by simp
  then show ?case using ih by (simp add: flush_table_landed [OF assms])
qed simp

text \<open>With a client that works, a flush of all tables, as at shutdown, leaves nothing behind.\<close>

lemma ch_flush_all_drains:
  assumes "\<And>t rs. ins t rs \<noteq> None" and "wf_dict (wb_buffers b)"
  shows "wb_buffers (flush_all ins b) = [] \<and> wb_total_rows (flush_all ins b) = wb_total_rows b + length (rows_of (wb_buffers b))"
  unfolding flush_all_def by (rule fold_flush_table [OF assms(1,2)]) simp_all

text \<open>The pending tables of \<open>stats\<close> are those of the rows held.\<close>

lemma pending_tables_total: "sum_list (dict_values (pending_tables b)) = length (rows_of (wb_buffers b))"
proof -
  have "sum_list (dict_values (map (\<lambda>(t, rows). (t, length rows)) (filter (\<lambda>(t, rows). rows \<noteq> []) d))) = length (rows_of d)" for d :: "(string \<times> 'b list) list"
    by (induction d) auto
  then show ?thesis by (simp add: pending_tables_def)
qed

section \<open>The audit buffer\<close>

definition in_flight :: "'r audit_run \<Rightarrow> 'r list" where
  "in_flight s = (case au_task s of Inserting batch \<Rightarrow> batch | _ \<Rightarrow> [])"

definition audit_inv :: "nat \<Rightarrow> 'r audit_run \<Rightarrow> bool" where
  "audit_inv n s \<longleftrightarrow>
     length (ab_rows (au_buffer s)) < MAX_AUDIT_BUFFER + n \<and>
     subseq (au_inserted s @ in_flight s @ ab_rows (au_buffer s)) (au_extended s) \<and>
     length (au_extended s) = length (au_inserted s) + length (in_flight s) + length (ab_rows (au_buffer s)) + ab_dropped_total (au_buffer s)"

text \<open>A request appends at least one row (an empty list changes nothing) and at most \<open>n\<close>.\<close>

fun request_of :: "nat \<Rightarrow> 'r audit_event \<Rightarrow> bool" where
  "request_of n (Extend rows) = (length rows \<le> n)"
| "request_of n _ = True"

definition audit_step_n :: "nat \<Rightarrow> 'r audit_event \<Rightarrow> 'r audit_run \<Rightarrow> 'r audit_run option" where
  "audit_step_n n e s = (if request_of n e then audit_step e s else None)"

lemma run_events_request:
  "list_all (request_of n) es \<Longrightarrow> run_events (audit_step_n n) es s = run_events audit_step es s"
proof (induction es arbitrary: s)
  case (Cons e es)
  then show ?case by (cases "audit_step e s") (simp_all add: audit_step_n_def)
qed simp

lemma audit_extend_cases:
  "audit_extend rows b =
     (if rows = [] then b
      else if MAX_AUDIT_BUFFER \<le> length (ab_rows b)
      then b\<lparr>ab_rows := drop (length (ab_rows b) + length rows - MAX_AUDIT_BUFFER) (ab_rows b) @ rows,
             ab_dropped_total := ab_dropped_total b + (length (ab_rows b) + length rows - MAX_AUDIT_BUFFER)\<rparr>
      else b\<lparr>ab_rows := ab_rows b @ rows\<rparr>)"
  by (simp add: audit_extend_def Let_def)

lemma subseq_drop_middle: "subseq (xs @ ys @ zs) es \<Longrightarrow> subseq (xs @ ys @ drop k zs) es"
  by (meson subseq_order.trans list_emb_append_mono subseq_order.order_refl suffix_drop suffix_imp_subseq)

lemma subseq_without_middle: "subseq (xs @ ys @ zs) es \<Longrightarrow> subseq (xs @ zs) es"
  by (meson subseq_order.trans list_emb_append_mono subseq_order.order_refl list_emb_append2)

lemma audit_step_inv:
  assumes i: "audit_inv n s" and e: "audit_step_n n e s = Some s'" and n: "0 < n" "n \<le> MAX_AUDIT_BUFFER"
  shows "audit_inv n s'"
proof (cases e)
  case (Extend rows)
  have r: "length rows \<le> n" using e by (auto simp: audit_step_n_def Extend split: if_splits)
  have s': "s' = s\<lparr>au_buffer := audit_extend rows (au_buffer s), au_extended := au_extended s @ rows\<rparr>"
    using e r by (simp add: audit_step_n_def Extend)
  let ?b = "au_buffer s"
  let ?k = "length (ab_rows ?b) + length rows - MAX_AUDIT_BUFFER"
  consider "rows = []" | "rows \<noteq> []" "MAX_AUDIT_BUFFER \<le> length (ab_rows ?b)" | "rows \<noteq> []" "length (ab_rows ?b) < MAX_AUDIT_BUFFER"
    by linarith
  then show ?thesis
  proof cases
    case 1
    then show ?thesis using i by (simp add: s' audit_inv_def audit_extend_cases in_flight_def)
  next
    case 2
    have "?k \<le> length (ab_rows ?b)" using r n by simp
    moreover have "subseq ((au_inserted s @ in_flight s @ drop ?k (ab_rows ?b)) @ rows) (au_extended s @ rows)"
      using i by (intro list_emb_append_mono subseq_drop_middle) (simp_all add: audit_inv_def)
    ultimately show ?thesis
      using i 2 n r by (auto simp: s' audit_inv_def audit_extend_cases in_flight_def)
  next
    case 3
    have "subseq ((au_inserted s @ in_flight s @ ab_rows ?b) @ rows) (au_extended s @ rows)"
      using i by (intro list_emb_append_mono) (simp_all add: audit_inv_def)
    then show ?thesis using i 3 r by (auto simp: s' audit_inv_def audit_extend_cases in_flight_def)
  qed
next
  case Woken
  then have w: "au_task s = Waiting" using e by (auto simp: audit_step_n_def split: if_splits)
  let ?r = "ab_rows (au_buffer s)"
  have "take AUDIT_FLUSH_BATCH ?r @ drop AUDIT_FLUSH_BATCH ?r = ?r" by simp
  then show ?thesis
    using i e w by (auto simp: Woken audit_step_n_def audit_inv_def in_flight_def audit_drain_def next_audit_task_def AUDIT_FLUSH_BATCH_def split: if_splits)
next
  case (Batch_Taken ok)
  then obtain batch where b: "au_task s = Inserting batch"
    using e by (auto simp: audit_step_n_def split: audit_task.splits)
  then have "subseq (au_inserted s @ ab_rows (au_buffer s)) (au_extended s)"
    using i subseq_without_middle by (fastforce simp: audit_inv_def in_flight_def)
  then show ?thesis
    using i e b by (auto simp: Batch_Taken audit_step_n_def audit_inv_def in_flight_def next_audit_task_def audit_flush_failed_def split: if_splits)
next
  case Start_Audit
  then show ?thesis using i e by (auto simp: audit_step_n_def audit_inv_def in_flight_def split: if_splits)
next
  case Stop_Audit
  then show ?thesis using i e by (auto simp: audit_step_n_def audit_inv_def in_flight_def)
qed

text \<open>
  With requests of at most \<open>n\<close> rows, \<open>n\<close> between one and the limit, the audit buffer never
  holds as many as the limit plus \<open>n\<close> rows; what ClickHouse took, what is being inserted and what is
  buffered are, in this order, a subsequence of the rows that came in; and the rest is exactly the
  number it reports as dropped.
\<close>

theorem audit_buffer_accounts:
  assumes "run_events audit_step es new_audit_run = Some s" and "list_all (request_of n) es"
    and "0 < n" and "n \<le> MAX_AUDIT_BUFFER"
  shows "length (ab_rows (au_buffer s)) < MAX_AUDIT_BUFFER + n \<and>
    subseq (au_inserted s @ in_flight s @ ab_rows (au_buffer s)) (au_extended s) \<and>
    length (au_extended s) = length (au_inserted s) + length (in_flight s) + length (ab_rows (au_buffer s)) + ab_dropped_total (au_buffer s)"
proof -
  have sys: "event_system (audit_step_n n) (audit_inv n)"
    by unfold_locales (rule audit_step_inv [OF _ _ assms(3,4)])
  have "audit_inv n new_audit_run"
    using assms(3) by (simp add: audit_inv_def new_audit_run_def new_audit_buffer_def in_flight_def MAX_AUDIT_BUFFER_def)
  moreover have "run_events (audit_step_n n) es new_audit_run = Some s" using assms(1,2) by (simp add: run_events_request)
  ultimately have "audit_inv n s" using event_system.run_inv [OF sys] by blast
  then show ?thesis by (simp add: audit_inv_def)
qed

theorem audit_buffer_accounts_witness:
  "\<exists>s. run_events audit_step [Extend [1, 2 :: nat], Woken, Extend [3], Batch_Taken False, Woken, Batch_Taken True] new_audit_run = Some s \<and>
     au_inserted s = [3] \<and> ab_dropped_total (au_buffer s) = 2 \<and> subseq (au_inserted s @ in_flight s @ ab_rows (au_buffer s)) (au_extended s)"
proof -
  let ?es = "[Extend [1, 2 :: nat], Woken, Extend [3], Batch_Taken False, Woken, Batch_Taken True]"
  obtain s where s: "run_events audit_step ?es new_audit_run = Some s" "au_inserted s = [3]" "ab_dropped_total (au_buffer s) = 2"
    by (simp add: new_audit_run_def new_audit_buffer_def audit_extend_def audit_drain_def audit_flush_failed_def next_audit_task_def
        MAX_AUDIT_BUFFER_def AUDIT_FLUSH_BATCH_def)
  then show ?thesis using audit_buffer_accounts [OF s(1), of 2] by (simp add: MAX_AUDIT_BUFFER_def)
qed

text \<open>The limit is only looked at when it is reached: one request exceeds it by its size.\<close>

lemma audit_limit_exceeded:
  "length (ab_rows b) = MAX_AUDIT_BUFFER - 1 \<Longrightarrow> rows \<noteq> [] \<Longrightarrow>
   length (ab_rows (audit_extend rows b)) = MAX_AUDIT_BUFFER + length rows - 1"
  by (simp add: audit_extend_cases MAX_AUDIT_BUFFER_def)

text \<open>A request larger than the limit is counted as more drops than there were rows.\<close>

lemma audit_drops_overcounted:
  "MAX_AUDIT_BUFFER \<le> length (ab_rows b) \<Longrightarrow> MAX_AUDIT_BUFFER < length rows \<Longrightarrow>
   length (ab_rows b) < ab_dropped_total (audit_extend rows b) - ab_dropped_total b"
  by (auto simp: audit_extend_cases MAX_AUDIT_BUFFER_def)

text \<open>Stopping while the task waits inserts one batch; what is behind it is lost without a count.\<close>

lemma audit_stop_leaves_rows:
  assumes "au_task s = Waiting" and "AUDIT_FLUSH_BATCH < length (ab_rows (au_buffer s))"
  shows "\<exists>s'. run_events audit_step [Stop_Audit, Woken, Batch_Taken True] s = Some s' \<and> au_task s' = Over \<and>
     ab_rows (au_buffer s') = drop AUDIT_FLUSH_BATCH (ab_rows (au_buffer s)) \<and> ab_rows (au_buffer s') \<noteq> [] \<and>
     ab_dropped_total (au_buffer s') = ab_dropped_total (au_buffer s)"
  using assms by (auto simp: audit_drain_def next_audit_task_def AUDIT_FLUSH_BATCH_def)

end
