(* ===== verification/Interface_Rules.thy ===== *)
theory Interface_Rules
  imports PyText "HOL-Library.Sublist"
begin

text \<open>
  The interface rules (\<open>templates/interface_rules.py\<close>): their validation, how a rule matches an
  interface, the choice among the rules, and what applying them does to the stored interfaces.
  \<open>re_ok\<close> says whether \<open>re.compile\<close> takes a pattern and \<open>re_search\<close> whether \<open>re.search\<close> finds it.
\<close>

section \<open>\<open>fnmatch\<close>\<close>

datatype class_item = One char | Range char char

fun class_items :: "string \<Rightarrow> class_item list" where
  "class_items (x # y # z # cs) =
     (if y = CHR ''-'' then (if code_of x \<le> code_of z then Range x z # class_items cs else class_items cs)
      else One x # class_items (y # z # cs))"
| "class_items (x # cs) = One x # class_items cs"
| "class_items [] = []"

text \<open>A \<open>!\<close> that comes first only after empty ranges are taken out negates as well.\<close>

definition char_class :: "bool \<Rightarrow> string \<Rightarrow> bool \<times> class_item list" where
  "char_class neg body =
     (let items = class_items body
      in if neg then (True, items)
         else case items of
                One x # rest \<Rightarrow> if x = CHR ''!'' then (True, rest) else (False, items)
              | Range x y # rest \<Rightarrow> if x = CHR ''!'' then (True, One (CHR ''-'') # One y # rest) else (False, items)
              | [] \<Rightarrow> (False, items))"

fun in_item :: "char \<Rightarrow> class_item \<Rightarrow> bool" where
  "in_item c (One x) \<longleftrightarrow> c = x"
| "in_item c (Range x y) \<longleftrightarrow> code_of x \<le> code_of c \<and> code_of c \<le> code_of y"

definition in_class :: "char \<Rightarrow> bool \<times> class_item list \<Rightarrow> bool" where
  "in_class c k \<longleftrightarrow> list_ex (in_item c) (snd k) \<noteq> fst k"

text \<open>The class after a bracket and the pattern behind it; \<open>None\<close> where no bracket closes it.\<close>

definition close_at :: "string \<Rightarrow> (string \<times> string) option" where
  "close_at r =
     (let body = takeWhile (\<lambda>c. c \<noteq> CHR '']'') r in if body = r then None else Some (body, drop (length body + 1) r))"

definition bracket :: "string \<Rightarrow> ((bool \<times> class_item list) \<times> string) option" where
  "bracket p =
     (let neg = (p \<noteq> [] \<and> hd p = CHR ''!'');
          q = (if neg then tl p else p);
          lead = (if q \<noteq> [] \<and> hd q = CHR '']'' then 1 else 0)
      in map_option (\<lambda>(body, rest). (char_class neg (take lead q @ body), rest)) (close_at (drop lead q)))"

lemma close_at_shorter: "close_at r = Some (b, rest) \<Longrightarrow> length rest < length r"
  by (cases r) (auto simp: close_at_def Let_def split: if_splits)

lemma bracket_shorter: "bracket p = Some (k, rest) \<Longrightarrow> length rest < length p"
proof -
  assume "bracket p = Some (k, rest)"
  then obtain b l where b: "close_at (drop l (if p \<noteq> [] \<and> hd p = CHR ''!'' then tl p else p)) = Some (b, rest)"
    by (auto simp: bracket_def Let_def)
  show ?thesis using close_at_shorter [OF b] by (auto split: if_splits)
qed

function fnmatch :: "string \<Rightarrow> string \<Rightarrow> bool" where
  "fnmatch s [] = (s = [])"
| "fnmatch s (c # p) =
     (if c = CHR ''*'' then fnmatch s p \<or> (case s of [] \<Rightarrow> False | d # s' \<Rightarrow> fnmatch s' (c # p))
      else case s of
             [] \<Rightarrow> False
           | d # s' \<Rightarrow>
               if c = CHR ''?'' then fnmatch s' p
               else case (if c = CHR ''['' then bracket p else None) of
                      None \<Rightarrow> if d = c then fnmatch s' p else False
                    | Some (k, rest) \<Rightarrow> if in_class d k then fnmatch s' rest else False)"
  by pat_completeness auto
termination
  by (relation "measure (\<lambda>(s, p). length s + length p)") (auto dest: bracket_shorter split: if_splits)

section \<open>JSON values in Python\<close>

fun json_true :: "json \<Rightarrow> bool" where
  "json_true JNull = False"
| "json_true (JBool b) = b"
| "json_true (JInt i) = (i \<noteq> 0)"
| "json_true (JNum v) = (v \<noteq> Fin 0)"
| "json_true (JStr s) = (s \<noteq> [])"
| "json_true (JArr xs) = (xs \<noteq> [])"
| "json_true (JObj d) = (d \<noteq> [])"

text \<open>The number that an \<open>int\<close>, a \<open>float\<close> or a \<open>bool\<close> is.\<close>

fun json_num :: "json \<Rightarrow> pyfloat option" where
  "json_num (JBool b) = Some (Fin (if b then 1 else 0))"
| "json_num (JInt i) = Some (Fin (of_int i))"
| "json_num (JNum v) = Some v"
| "json_num _ = None"

text \<open>\<open>==\<close>; lists and objects, which no valid setting is, are compared as they are.\<close>

definition json_eq :: "json \<Rightarrow> json \<Rightarrow> bool" where
  "json_eq a b = (case (json_num a, json_num b) of (Some x, Some y) \<Rightarrow> feq x y | (None, None) \<Rightarrow> a = b | _ \<Rightarrow> False)"

definition json_less :: "json \<Rightarrow> json \<Rightarrow> py_error + bool" where
  "json_less a b = (case (json_num a, json_num b) of (Some x, Some y) \<Rightarrow> Inr (flt x y) | _ \<Rightarrow> Inl TypeError)"

definition json_le :: "json \<Rightarrow> json \<Rightarrow> py_error + bool" where
  "json_le a b = (case (json_num a, json_num b) of (Some x, Some y) \<Rightarrow> Inr (fle x y) | _ \<Rightarrow> Inl TypeError)"

text \<open>\<open>v in s\<close> for a set of strings: lists and objects cannot be hashed.\<close>

fun in_strings :: "json \<Rightarrow> string set \<Rightarrow> py_error + bool" where
  "in_strings (JStr s) A = Inr (s \<in> A)"
| "in_strings (JArr _) A = Inl TypeError"
| "in_strings (JObj _) A = Inl TypeError"
| "in_strings _ A = Inr False"

section \<open>Validation\<close>

definition MATCH_FIELDS_STR :: "string set" where "MATCH_FIELDS_STR = {''if_alias'', ''if_name'', ''if_descr''}"

definition MATCH_FIELDS_NUM :: "string set" where "MATCH_FIELDS_NUM = {''if_speed_mbps''}"

definition STRING_TYPES :: "string set" where "STRING_TYPES = {''glob'', ''regex'', ''exact''}"

definition NUMERIC_OPS :: "string set" where "NUMERIC_OPS = {''eq'', ''gt'', ''lt'', ''gte'', ''lte''}"

definition POLL_METRICS_PARTS :: "string set" where
  "POLL_METRICS_PARTS = {''all'', ''none'', ''traffic'', ''errors'', ''discards'', ''status''}"

datatype rule_error =
    NotAList
  | NotADict nat
  | NameRequired nat
  | MatchRequired nat
  | SpecNotADict nat string
  | BadStringType nat string
  | PatternNotAString nat string
  | InvalidRegex nat string
  | BadNumericOp nat string
  | ValueNotANumber nat string
  | UnknownField nat string
  | SettingsRequired nat
  | UnknownSetting nat string
  | MustBeBoolean nat string
  | MustBeAString nat string
  | BadPollMetrics nat string
  | PriorityRequired nat

definition is_string :: "json \<Rightarrow> bool" where
  "is_string v = (case v of JStr _ \<Rightarrow> True | _ \<Rightarrow> False)"

text \<open>\<open>re.compile\<close> raises \<open>re.error\<close> for a bad pattern, and \<open>TypeError\<close> for what is no string.\<close>

fun check_regex :: "(string \<Rightarrow> bool) \<Rightarrow> nat \<Rightarrow> string \<Rightarrow> json \<Rightarrow> py_error + rule_error list" where
  "check_regex re_ok i field (JStr p) = Inr (if re_ok p then [] else [InvalidRegex i field])"
| "check_regex re_ok i field _ = Inl TypeError"

fun check_string_spec :: "(string \<Rightarrow> bool) \<Rightarrow> nat \<Rightarrow> string \<Rightarrow> json \<Rightarrow> py_error + rule_error list" where
  "check_string_spec re_ok i field (JObj d) =
     (let stype = dict_get d ''type'' (JStr ''glob''); pattern = dict_get d ''pattern'' (JStr [])
      in ebind (in_strings stype STRING_TYPES) (\<lambda>known.
         ebind (if stype = JStr ''regex'' then check_regex re_ok i field pattern else Inr []) (\<lambda>re_errors.
         Inr ((if known then [] else [BadStringType i field]) @
              (if is_string pattern then [] else [PatternNotAString i field]) @ re_errors))))"
| "check_string_spec re_ok i field _ = Inr [SpecNotADict i field]"

fun check_numeric_spec :: "nat \<Rightarrow> string \<Rightarrow> json \<Rightarrow> py_error + rule_error list" where
  "check_numeric_spec i field (JObj d) =
     ebind (in_strings (dict_get d ''op'' JNull) NUMERIC_OPS) (\<lambda>known.
     Inr ((if known then [] else [BadNumericOp i field]) @
          (if json_num (dict_get d ''value'' JNull) \<noteq> None then [] else [ValueNotANumber i field])))"
| "check_numeric_spec i field _ = Inr [SpecNotADict i field]"

definition check_spec :: "(string \<Rightarrow> bool) \<Rightarrow> nat \<Rightarrow> string \<Rightarrow> json \<Rightarrow> py_error + rule_error list" where
  "check_spec re_ok i field spec =
     (if field \<in> MATCH_FIELDS_STR then check_string_spec re_ok i field spec
      else if field \<in> MATCH_FIELDS_NUM then check_numeric_spec i field spec
      else Inr [UnknownField i field])"

fun check_specs :: "(string \<Rightarrow> bool) \<Rightarrow> nat \<Rightarrow> (string, json) dict \<Rightarrow> py_error + rule_error list" where
  "check_specs re_ok i [] = Inr []"
| "check_specs re_ok i ((field, spec) # ms) =
     ebind (check_spec re_ok i field spec) (\<lambda>es. ebind (check_specs re_ok i ms) (\<lambda>es'. Inr (es @ es')))"

definition check_match :: "(string \<Rightarrow> bool) \<Rightarrow> nat \<Rightarrow> json \<Rightarrow> py_error + rule_error list" where
  "check_match re_ok i m =
     (case m of JObj (x # xs) \<Rightarrow> check_specs re_ok i (x # xs) | _ \<Rightarrow> Inr [MatchRequired i])"

fun split_commas :: "string \<Rightarrow> string list" where
  "split_commas [] = [[]]"
| "split_commas (c # s) =
     (let ps = split_commas s in if c = CHR '','' then [] # ps else (c # hd ps) # tl ps)"

definition metric_parts :: "string \<Rightarrow> string list" where
  "metric_parts v = filter (\<lambda>p. p \<noteq> []) (map strip (split_commas v))"

definition check_setting :: "nat \<Rightarrow> string \<times> json \<Rightarrow> rule_error list" where
  "check_setting i kv =
     (case kv of (key, v) \<Rightarrow>
        if key \<in> {''polling_enabled'', ''alerting_enabled''}
        then (case v of JBool _ \<Rightarrow> [] | _ \<Rightarrow> [MustBeBoolean i key])
        else if key = ''poll_metrics''
        then (case v of
                JStr s \<Rightarrow> if metric_parts s = [] \<or> \<not> set (metric_parts s) \<subseteq> POLL_METRICS_PARTS then [BadPollMetrics i key] else []
              | _ \<Rightarrow> [MustBeAString i key])
        else [UnknownSetting i key])"

definition check_settings :: "nat \<Rightarrow> json \<Rightarrow> rule_error list" where
  "check_settings i s =
     (case s of JObj (x # xs) \<Rightarrow> concat (map (check_setting i) (x # xs)) | _ \<Rightarrow> [SettingsRequired i])"

definition check_priority :: "nat \<Rightarrow> json \<Rightarrow> rule_error list" where
  "check_priority i p =
     (case p of JInt n \<Rightarrow> if n < 0 then [PriorityRequired i] else [] | JBool _ \<Rightarrow> [] | _ \<Rightarrow> [PriorityRequired i])"

definition check_name :: "nat \<Rightarrow> json \<Rightarrow> rule_error list" where
  "check_name i v = (case v of JStr (c # cs) \<Rightarrow> [] | _ \<Rightarrow> [NameRequired i])"

fun check_rule :: "(string \<Rightarrow> bool) \<Rightarrow> nat \<Rightarrow> json \<Rightarrow> py_error + rule_error list" where
  "check_rule re_ok i (JObj r) =
     ebind (check_match re_ok i (dict_get r ''match'' JNull)) (\<lambda>es.
     Inr (check_name i (dict_get r ''name'' JNull) @ es @ check_settings i (dict_get r ''settings'' JNull) @
          check_priority i (dict_get r ''priority'' JNull)))"
| "check_rule re_ok i _ = Inr [NotADict i]"

fun check_rules :: "(string \<Rightarrow> bool) \<Rightarrow> nat \<Rightarrow> json list \<Rightarrow> py_error + rule_error list" where
  "check_rules re_ok i [] = Inr []"
| "check_rules re_ok i (r # rs) =
     ebind (check_rule re_ok i r) (\<lambda>es. ebind (check_rules re_ok (i + 1) rs) (\<lambda>es'. Inr (es @ es')))"

definition validate_interface_rules :: "(string \<Rightarrow> bool) \<Rightarrow> json \<Rightarrow> py_error + rule_error list" where
  "validate_interface_rules re_ok rules = (case rules of JArr rs \<Rightarrow> check_rules re_ok 0 rs | _ \<Rightarrow> Inr [NotAList])"

section \<open>Matching and choosing\<close>

record iface =
  if_name :: string
  if_alias :: string
  if_descr :: string
  if_speed_mbps :: int

definition iface_text :: "iface \<Rightarrow> string \<Rightarrow> string" where
  "iface_text f field = (if field = ''if_name'' then if_name f else if field = ''if_alias'' then if_alias f else if_descr f)"

definition match_string :: "(string \<Rightarrow> string \<Rightarrow> bool) \<Rightarrow> (string \<Rightarrow> bool) \<Rightarrow> string \<Rightarrow> (string, json) dict \<Rightarrow> py_error + bool" where
  "match_string re_search re_ok field_value spec =
     (let pattern = dict_get spec ''pattern'' (JStr []); match_type = dict_get spec ''type'' (JStr ''glob'')
      in if match_type = JStr ''glob'' then (case pattern of JStr p \<Rightarrow> Inr (fnmatch field_value p) | _ \<Rightarrow> Inl TypeError)
         else if match_type = JStr ''regex''
         then (case pattern of JStr p \<Rightarrow> Inr (re_ok p \<and> re_search p field_value) | _ \<Rightarrow> Inl TypeError)
         else if match_type = JStr ''exact'' then Inr (pattern = JStr field_value)
         else Inr False)"

definition match_numeric :: "int \<Rightarrow> (string, json) dict \<Rightarrow> py_error + bool" where
  "match_numeric field_value spec =
     (let op = dict_get spec ''op'' (JStr ''eq''); v = dict_get spec ''value'' (JInt 0); x = JInt field_value
      in if op = JStr ''eq'' then Inr (json_eq x v)
         else if op = JStr ''gt'' then json_less v x
         else if op = JStr ''lt'' then json_less x v
         else if op = JStr ''gte'' then json_le v x
         else if op = JStr ''lte'' then json_le x v
         else Inr False)"

definition match_field ::
    "(string \<Rightarrow> string \<Rightarrow> bool) \<Rightarrow> (string \<Rightarrow> bool) \<Rightarrow> iface \<Rightarrow> string \<Rightarrow> json \<Rightarrow> py_error + bool" where
  "match_field re_search re_ok f field spec =
     (if field \<in> MATCH_FIELDS_STR
      then (case spec of JObj d \<Rightarrow> match_string re_search re_ok (iface_text f field) d | _ \<Rightarrow> Inl AttributeError)
      else if field \<in> MATCH_FIELDS_NUM
      then (case spec of JObj d \<Rightarrow> match_numeric (if_speed_mbps f) d | _ \<Rightarrow> Inl AttributeError)
      else Inr False)"

fun match_fields ::
    "(string \<Rightarrow> string \<Rightarrow> bool) \<Rightarrow> (string \<Rightarrow> bool) \<Rightarrow> iface \<Rightarrow> (string, json) dict \<Rightarrow> py_error + bool" where
  "match_fields re_search re_ok f [] = Inr True"
| "match_fields re_search re_ok f ((field, spec) # ms) =
     ebind (match_field re_search re_ok f field spec) (\<lambda>b. if b then match_fields re_search re_ok f ms else Inr False)"

definition match_interface ::
    "(string \<Rightarrow> string \<Rightarrow> bool) \<Rightarrow> (string \<Rightarrow> bool) \<Rightarrow> (string, json) dict \<Rightarrow> iface \<Rightarrow> py_error + bool" where
  "match_interface re_search re_ok rule f =
     (let m = dict_get rule ''match'' (JObj [])
      in if \<not> json_true m then Inr False
         else case m of JObj ms \<Rightarrow> match_fields re_search re_ok f ms | _ \<Rightarrow> Inl AttributeError)"

text \<open>The settings chosen so far with their priority; \<open>JNull\<close> is Python's \<open>None\<close>.\<close>

fun evaluate_from ::
    "(string \<Rightarrow> string \<Rightarrow> bool) \<Rightarrow> (string \<Rightarrow> bool) \<Rightarrow> iface \<Rightarrow> json list \<Rightarrow> json \<Rightarrow> json \<Rightarrow> py_error + json" where
  "evaluate_from re_search re_ok f [] best best_prio = Inr best"
| "evaluate_from re_search re_ok f (JObj rule # rs) best best_prio =
     (let prio = dict_get rule ''priority'' (JInt 0)
      in ebind (json_less best_prio prio) (\<lambda>higher.
         ebind (if higher then match_interface re_search re_ok rule f else Inr False) (\<lambda>b.
         if b then evaluate_from re_search re_ok f rs (dict_get rule ''settings'' (JObj [])) prio
         else evaluate_from re_search re_ok f rs best best_prio)))"
| "evaluate_from re_search re_ok f (_ # rs) best best_prio = Inl AttributeError"

definition evaluate_rules ::
    "(string \<Rightarrow> string \<Rightarrow> bool) \<Rightarrow> (string \<Rightarrow> bool) \<Rightarrow> json list \<Rightarrow> iface \<Rightarrow> py_error + json" where
  "evaluate_rules re_search re_ok rules f = evaluate_from re_search re_ok f rules JNull (JInt (- 1))"

section \<open>Applying\<close>

text \<open>A row of \<open>interface_metadata\<close>; the three settings as the session holds them.\<close>

record interface_metadata =
  im_id :: string
  im_iface :: iface
  im_if_index :: int
  im_polling_enabled :: json
  im_alerting_enabled :: json
  im_poll_metrics :: json
  im_rules_managed :: bool
  im_updated_at :: int

fun has_setting :: "json \<Rightarrow> string \<Rightarrow> py_error + bool" where
  "has_setting (JObj d) k = Inr (k \<in> set (dict_keys d))"
| "has_setting (JStr s) k = Inr (sublist k s)"
| "has_setting (JArr xs) k = Inr (JStr k \<in> set xs)"
| "has_setting _ k = Inl TypeError"

fun get_setting :: "json \<Rightarrow> string \<Rightarrow> py_error + json" where
  "get_setting (JObj d) k = (case map_of d k of None \<Rightarrow> Inl KeyError | Some v \<Rightarrow> Inr v)"
| "get_setting _ k = Inl TypeError"

text \<open>The new value of an attribute and whether it changed.\<close>

definition apply_setting :: "json \<Rightarrow> string \<Rightarrow> json \<Rightarrow> py_error + (json \<times> bool)" where
  "apply_setting settings k old =
     ebind (has_setting settings k) (\<lambda>b.
       if \<not> b then Inr (old, False)
       else ebind (get_setting settings k) (\<lambda>v. Inr (if json_eq old v then (old, False) else (v, True))))"

definition apply_settings_to_meta :: "interface_metadata \<Rightarrow> json \<Rightarrow> py_error + (interface_metadata \<times> bool)" where
  "apply_settings_to_meta m settings =
     ebind (apply_setting settings ''polling_enabled'' (im_polling_enabled m)) (\<lambda>(p, c1).
     ebind (apply_setting settings ''alerting_enabled'' (im_alerting_enabled m)) (\<lambda>(a, c2).
     ebind (apply_setting settings ''poll_metrics'' (im_poll_metrics m)) (\<lambda>(t, c3).
     Inr (m\<lparr>im_polling_enabled := p, im_alerting_enabled := a, im_poll_metrics := t, im_rules_managed := True\<rparr>,
          c1 \<or> c2 \<or> c3 \<or> \<not> im_rules_managed m))))"

definition has_non_default_settings :: "interface_metadata \<Rightarrow> bool" where
  "has_non_default_settings m \<longleftrightarrow>
     \<not> (im_polling_enabled m = JBool True \<and> im_alerting_enabled m = JBool True \<and> im_poll_metrics m = JStr ''all'')"

definition manual :: "bool \<Rightarrow> interface_metadata \<Rightarrow> bool" where
  "manual force m \<longleftrightarrow> \<not> force \<and> \<not> im_rules_managed m \<and> has_non_default_settings m"

record rule_env =
  re_search :: "string \<Rightarrow> string \<Rightarrow> bool"
  re_ok :: "string \<Rightarrow> bool"

definition apply_rules_to_interface ::
    "rule_env \<Rightarrow> json list \<Rightarrow> bool \<Rightarrow> interface_metadata \<Rightarrow> py_error + (interface_metadata \<times> bool)" where
  "apply_rules_to_interface env rules force m =
     ebind (evaluate_rules (re_search env) (re_ok env) rules (im_iface m)) (\<lambda>settings.
       if settings = JNull then Inr (m, False)
       else if manual force m then Inr (m, False)
       else apply_settings_to_meta m settings)"

record rule_summary =
  su_total :: nat
  su_matched :: nat
  su_changed :: nat
  su_skipped_manual :: nat
  su_unmatched :: nat

definition new_summary :: "nat \<Rightarrow> rule_summary" where
  "new_summary n = \<lparr>su_total = n, su_matched = 0, su_changed = 0, su_skipped_manual = 0, su_unmatched = 0\<rparr>"

text \<open>The rows with the names whose cache entries are dropped, oldest first.\<close>

fun apply_rules_to_rows ::
    "rule_env \<Rightarrow> json list \<Rightarrow> bool \<Rightarrow> int \<Rightarrow> interface_metadata list \<Rightarrow> rule_summary \<Rightarrow>
     py_error + (interface_metadata list \<times> rule_summary \<times> string list)" where
  "apply_rules_to_rows env rules force now [] su = Inr ([], su, [])"
| "apply_rules_to_rows env rules force now (m # ms) su =
     ebind (evaluate_rules (re_search env) (re_ok env) rules (im_iface m)) (\<lambda>settings.
       if settings = JNull
       then ebind (apply_rules_to_rows env rules force now ms (su\<lparr>su_unmatched := su_unmatched su + 1\<rparr>)) (\<lambda>(ms', su', ns).
              Inr (m # ms', su', ns))
       else if manual force m
       then ebind (apply_rules_to_rows env rules force now ms (su\<lparr>su_skipped_manual := su_skipped_manual su + 1\<rparr>)) (\<lambda>(ms', su', ns).
              Inr (m # ms', su', ns))
       else ebind (apply_settings_to_meta m settings) (\<lambda>(m', changed).
              let su = su\<lparr>su_matched := su_matched su + 1\<rparr>
              in if changed
                 then ebind (apply_rules_to_rows env rules force now ms (su\<lparr>su_changed := su_changed su + 1\<rparr>)) (\<lambda>(ms', su', ns).
                        Inr (m'\<lparr>im_updated_at := now\<rparr> # ms', su', if_name (im_iface m) # ns))
                 else ebind (apply_rules_to_rows env rules force now ms su) (\<lambda>(ms', su', ns). Inr (m' # ms', su', ns))))"

definition apply_rules_to_all_interfaces ::
    "rule_env \<Rightarrow> json list \<Rightarrow> bool \<Rightarrow> int \<Rightarrow> interface_metadata list \<Rightarrow>
     py_error + (interface_metadata list \<times> rule_summary \<times> string list)" where
  "apply_rules_to_all_interfaces env rules force now rows = apply_rules_to_rows env rules force now rows (new_summary (length rows))"

section \<open>Preview\<close>

type_synonym settings_dict = "(string, json) dict"

definition current_settings :: "interface_metadata \<Rightarrow> settings_dict" where
  "current_settings m =
     [(''polling_enabled'', im_polling_enabled m), (''alerting_enabled'', im_alerting_enabled m), (''poll_metrics'', im_poll_metrics m)]"

text \<open>
  \<open>dict.update\<close>.  The settings of a valid rule are an object; other values raise (but for a list of
  pairs, which is not told apart here).
\<close>

fun settings_update :: "json \<Rightarrow> settings_dict \<Rightarrow> py_error + settings_dict" where
  "settings_update (JObj d) cur = Inr (fold (\<lambda>(k, v). dict_set k v) d cur)"
| "settings_update _ cur = Inl ValueError"

text \<open>\<open>==\<close> of two dicts with string keys.\<close>

definition dict_eq :: "settings_dict \<Rightarrow> settings_dict \<Rightarrow> bool" where
  "dict_eq a b \<longleftrightarrow> set (dict_keys a) = set (dict_keys b) \<and>
     list_all (\<lambda>k. json_eq (dict_get a k JNull) (dict_get b k JNull)) (dict_keys a)"

text \<open>The name of the rule chosen, by a loop of its own.\<close>

fun matched_name_from ::
    "rule_env \<Rightarrow> iface \<Rightarrow> json list \<Rightarrow> json \<Rightarrow> json \<Rightarrow> py_error + json" where
  "matched_name_from env f [] name best_prio = Inr name"
| "matched_name_from env f (JObj rule # rs) name best_prio =
     (let prio = dict_get rule ''priority'' (JInt 0)
      in ebind (json_less best_prio prio) (\<lambda>higher.
         ebind (if higher then match_interface (re_search env) (re_ok env) rule f else Inr False) (\<lambda>b.
         if b then matched_name_from env f rs (dict_get rule ''name'' JNull) prio
         else matched_name_from env f rs name best_prio)))"
| "matched_name_from env f (_ # rs) name best_prio = Inl AttributeError"

record preview_entry =
  pv_meta :: interface_metadata
  pv_matched_rule :: json
  pv_current :: settings_dict
  pv_proposed :: settings_dict
  pv_would_change :: bool

definition preview_row :: "rule_env \<Rightarrow> json list \<Rightarrow> interface_metadata \<Rightarrow> py_error + preview_entry" where
  "preview_row env rules m =
     ebind (evaluate_rules (re_search env) (re_ok env) rules (im_iface m)) (\<lambda>settings.
     ebind (if settings = JNull then Inr JNull else matched_name_from env (im_iface m) rules JNull (JInt (- 1))) (\<lambda>name.
     ebind (if json_true settings then settings_update settings (current_settings m) else Inr (current_settings m)) (\<lambda>proposed.
     Inr \<lparr>pv_meta = m, pv_matched_rule = name, pv_current = current_settings m, pv_proposed = proposed,
          pv_would_change = (\<not> dict_eq (current_settings m) proposed)\<rparr>)))"

fun preview_rows :: "rule_env \<Rightarrow> json list \<Rightarrow> interface_metadata list \<Rightarrow> py_error + preview_entry list" where
  "preview_rows env rules [] = Inr []"
| "preview_rows env rules (m # ms) =
     ebind (preview_row env rules m) (\<lambda>e. ebind (preview_rows env rules ms) (\<lambda>es. Inr (e # es)))"

definition preview_rules :: "rule_env \<Rightarrow> json list \<Rightarrow> interface_metadata list \<Rightarrow> py_error + preview_entry list" where
  "preview_rules env rules rows = preview_rows env rules (sort_key im_if_index rows)"

end
