(* ===== verification/Interface_Rules_Props.thy ===== *)
theory Interface_Rules_Props
  imports Interface_Rules
begin

text \<open>
  Valid rules are evaluated without an exception; the rule chosen is the first of the highest
  priority among those that match; applying rules is idempotent and does what the preview shows.
\<close>

section \<open>What validation guarantees\<close>

definition rule_prio :: "json \<Rightarrow> int" where
  "rule_prio r = (case r of JObj d \<Rightarrow> (case dict_get d ''priority'' JNull of JInt n \<Rightarrow> n | JBool b \<Rightarrow> of_bool b | _ \<Rightarrow> 0) | _ \<Rightarrow> 0)"

definition rule_settings :: "json \<Rightarrow> json" where
  "rule_settings r = (case r of JObj d \<Rightarrow> dict_get d ''settings'' JNull | _ \<Rightarrow> JNull)"

definition rule_matches :: "rule_env \<Rightarrow> iface \<Rightarrow> json \<Rightarrow> bool" where
  "rule_matches env f r = (case r of JObj d \<Rightarrow> match_interface (re_search env) (re_ok env) d f = Inr True | _ \<Rightarrow> False)"

definition valid_rules :: "rule_env \<Rightarrow> json list \<Rightarrow> bool" where
  "valid_rules env rs \<longleftrightarrow> validate_interface_rules (re_ok env) (JArr rs) = Inr []"

text \<open>A setting that validation takes.\<close>

definition plain_setting :: "json \<Rightarrow> bool" where
  "plain_setting v = (case v of JBool _ \<Rightarrow> True | JStr _ \<Rightarrow> True | _ \<Rightarrow> False)"

definition plain_settings :: "json \<Rightarrow> bool" where
  "plain_settings s \<longleftrightarrow> (\<exists>d. s = JObj d \<and> d \<noteq> [] \<and> (\<forall>(k, v) \<in> set d. plain_setting v \<and>
     k \<in> {''polling_enabled'', ''alerting_enabled'', ''poll_metrics''}))"

lemma dict_get_other: "dict_get d k JNull = v \<Longrightarrow> v \<noteq> JNull \<Longrightarrow> dict_get d k w = v"
  by (auto simp: dict_get_def split: option.splits)

lemma in_strings_True: "in_strings v A = Inr True \<longleftrightarrow> (\<exists>s \<in> A. v = JStr s)"
  by (cases v) auto

lemma check_string_spec_ok:
  assumes "check_string_spec ok i field spec = Inr []"
  shows "\<exists>d p t. spec = JObj d \<and> dict_get d ''pattern'' (JStr []) = JStr p \<and> dict_get d ''type'' (JStr ''glob'') = JStr t"
proof (cases spec)
  case (JObj d)
  obtain known where known: "in_strings (dict_get d ''type'' (JStr ''glob'')) STRING_TYPES = Inr known"
    "known" "is_string (dict_get d ''pattern'' (JStr []))"
    using assms by (auto simp: JObj Let_def split: if_splits)
  then show ?thesis using JObj by (auto simp: in_strings_True is_string_def split: json.splits)
qed (use assms in simp_all)

lemma check_numeric_spec_ok:
  assumes "check_numeric_spec i field spec = Inr []"
  shows "\<exists>d t x. spec = JObj d \<and> dict_get d ''op'' (JStr ''eq'') = JStr t \<and> json_num (dict_get d ''value'' (JInt 0)) = Some x"
proof (cases spec)
  case (JObj d)
  obtain known where known: "in_strings (dict_get d ''op'' JNull) NUMERIC_OPS = Inr known" "known"
    and x: "json_num (dict_get d ''value'' JNull) \<noteq> None"
    using assms by (auto simp: JObj split: if_splits)
  then obtain t where "dict_get d ''op'' JNull = JStr t" by (auto simp: in_strings_True)
  then have o: "dict_get d ''op'' (JStr ''eq'') = JStr t" by (rule dict_get_other) simp
  have "dict_get d ''value'' JNull \<noteq> JNull" using x by (cases "dict_get d ''value'' JNull") simp_all
  then have "dict_get d ''value'' (JInt 0) = dict_get d ''value'' JNull" by (rule dict_get_other [OF refl])
  moreover obtain y where "json_num (dict_get d ''value'' JNull) = Some y" using x by blast
  ultimately show ?thesis using JObj o by simp
qed (use assms in simp_all)

lemma check_spec_match:
  assumes "check_spec (re_ok env) i field spec = Inr []"
  shows "match_field (re_search env) (re_ok env) f field spec \<noteq> Inl e"
proof -
  consider "field \<in> MATCH_FIELDS_STR" | "field \<notin> MATCH_FIELDS_STR" "field \<in> MATCH_FIELDS_NUM"
    | "field \<notin> MATCH_FIELDS_STR" "field \<notin> MATCH_FIELDS_NUM" by blast
  then show ?thesis
  proof cases
    case 1
    then obtain d p t where "spec = JObj d" "dict_get d ''pattern'' (JStr []) = JStr p" "dict_get d ''type'' (JStr ''glob'') = JStr t"
      using assms check_string_spec_ok [of "re_ok env" i field spec] by (auto simp: check_spec_def)
    then show ?thesis using 1 by (simp add: match_field_def match_string_def Let_def)
  next
    case 2
    then obtain d t x where "spec = JObj d" "dict_get d ''op'' (JStr ''eq'') = JStr t" "json_num (dict_get d ''value'' (JInt 0)) = Some x"
      using assms check_numeric_spec_ok [of i field spec] by (auto simp: check_spec_def)
    then show ?thesis using 2 by (simp add: match_field_def match_numeric_def Let_def json_less_def json_le_def)
  next
    case 3
    then show ?thesis by (simp add: match_field_def)
  qed
qed

lemma check_specs_match:
  "check_specs (re_ok env) i ms = Inr [] \<Longrightarrow> match_fields (re_search env) (re_ok env) f ms \<noteq> Inl e"
proof (induction ms)
  case (Cons m ms)
  obtain field spec where m: "m = (field, spec)" by (cases m)
  have "check_spec (re_ok env) i field spec = Inr []" using Cons.prems m by auto
  from check_spec_match [OF this] obtain b where "match_field (re_search env) (re_ok env) f field spec = Inr b"
    by (cases "match_field (re_search env) (re_ok env) f field spec") auto
  then show ?case using Cons m by auto
qed simp

lemma check_setting_ok:
  "check_setting i (k, v) = [] \<Longrightarrow> plain_setting v \<and> k \<in> {''polling_enabled'', ''alerting_enabled'', ''poll_metrics''}"
  by (auto simp: check_setting_def plain_setting_def split: if_splits json.splits)

lemma check_settings_ok:
  assumes "check_settings i s = []"
  shows "plain_settings s"
proof -
  obtain d where d: "s = JObj d" "d \<noteq> []" "\<forall>x \<in> set d. check_setting i x = []"
    using assms by (auto simp: check_settings_def split: json.splits list.splits)
  then show ?thesis using check_setting_ok unfolding plain_settings_def by (intro exI [of _ d]) fast
qed

lemma check_priority_ok:
  "check_priority i p = [] \<Longrightarrow> (\<exists>n. p = JInt n \<and> 0 \<le> n) \<or> (\<exists>b. p = JBool b)"
  by (auto simp: check_priority_def split: json.splits if_splits)

lemma check_rule_ok:
  assumes "check_rule (re_ok env) i r = Inr []"
  shows "\<exists>d. r = JObj d \<and> 0 \<le> rule_prio r \<and>
    json_num (dict_get d ''priority'' (JInt 0)) = Some (Fin (of_int (rule_prio r))) \<and>
    dict_get d ''settings'' (JObj []) = rule_settings r \<and> plain_settings (rule_settings r) \<and>
    (\<forall>f. match_interface (re_search env) (re_ok env) d f = Inr (rule_matches env f r))"
proof -
  obtain d where d: "r = JObj d" using assms by (cases r) auto
  have m: "check_match (re_ok env) i (dict_get d ''match'' JNull) = Inr []"
    and s: "check_settings i (dict_get d ''settings'' JNull) = []"
    and p: "check_priority i (dict_get d ''priority'' JNull) = []"
    using assms by (auto simp: d)
  obtain ms where ms: "dict_get d ''match'' JNull = JObj ms" "ms \<noteq> []" "check_specs (re_ok env) i ms = Inr []"
    using m by (auto simp: check_match_def split: json.splits list.splits)
  have "dict_get d ''match'' (JObj []) = JObj ms" by (rule dict_get_other [OF ms(1)]) simp
  then have match: "match_interface (re_search env) (re_ok env) d f = Inr (rule_matches env f r)" for f
    using check_specs_match [OF ms(3), of f] ms(2)
    by (cases "match_fields (re_search env) (re_ok env) f ms") (auto simp: match_interface_def rule_matches_def d)
  have ps: "plain_settings (dict_get d ''settings'' JNull)" using s by (rule check_settings_ok)
  then have "dict_get d ''settings'' JNull \<noteq> JNull" unfolding plain_settings_def by (elim exE conjE) simp
  then have "dict_get d ''settings'' (JObj []) = dict_get d ''settings'' JNull" by (rule dict_get_other [OF refl])
  then have st: "dict_get d ''settings'' (JObj []) = rule_settings r" "plain_settings (rule_settings r)"
    using ps by (simp_all add: rule_settings_def d)
  have "dict_get d ''priority'' JNull \<noteq> JNull" using check_priority_ok [OF p] by (elim disjE exE) simp_all
  then have "dict_get d ''priority'' (JInt 0) = dict_get d ''priority'' JNull" by (rule dict_get_other [OF refl])
  then have "0 \<le> rule_prio r" "json_num (dict_get d ''priority'' (JInt 0)) = Some (Fin (of_int (rule_prio r)))"
    using check_priority_ok [OF p] by (auto simp: rule_prio_def d)
  then show ?thesis using d st match by blast
qed

lemma check_rules_ok: "check_rules ok i rs = Inr [] \<Longrightarrow> r \<in> set rs \<Longrightarrow> \<exists>j. check_rule ok j r = Inr []"
  by (induction rs arbitrary: i) auto

lemma valid_rule:
  assumes "valid_rules env rs" and "r \<in> set rs"
  shows "\<exists>d. r = JObj d \<and> 0 \<le> rule_prio r \<and>
    json_num (dict_get d ''priority'' (JInt 0)) = Some (Fin (of_int (rule_prio r))) \<and>
    dict_get d ''settings'' (JObj []) = rule_settings r \<and> plain_settings (rule_settings r) \<and>
    (\<forall>f. match_interface (re_search env) (re_ok env) d f = Inr (rule_matches env f r))"
  using assms check_rules_ok check_rule_ok unfolding valid_rules_def validate_interface_rules_def by fastforce

section \<open>The rule chosen\<close>

text \<open>The value \<open>g\<close> of the rule chosen, where it is better than one of priority \<open>p\<close> with value \<open>best\<close>.\<close>

fun pick :: "(json \<Rightarrow> json) \<Rightarrow> rule_env \<Rightarrow> iface \<Rightarrow> json list \<Rightarrow> json \<Rightarrow> int \<Rightarrow> json" where
  "pick g env f [] best p = best"
| "pick g env f (r # rs) best p =
     (if p < rule_prio r \<and> rule_matches env f r then pick g env f rs (g r) (rule_prio r) else pick g env f rs best p)"

definition rule_name :: "json \<Rightarrow> json" where
  "rule_name r = (case r of JObj d \<Rightarrow> dict_get d ''name'' JNull | _ \<Rightarrow> JNull)"

lemma evaluate_from_pick:
  "\<forall>r \<in> set rs. \<exists>d. r = JObj d \<and> json_num (dict_get d ''priority'' (JInt 0)) = Some (Fin (of_int (rule_prio r))) \<and>
     dict_get d ''settings'' (JObj []) = rule_settings r \<and> match_interface (re_search env) (re_ok env) d f = Inr (rule_matches env f r) \<Longrightarrow>
   json_num bp = Some (Fin (of_int p)) \<Longrightarrow>
   evaluate_from (re_search env) (re_ok env) f rs best bp = Inr (pick rule_settings env f rs best p)"
proof (induction rs arbitrary: best bp p)
  case (Cons r rs)
  obtain d where d: "r = JObj d" "json_num (dict_get d ''priority'' (JInt 0)) = Some (Fin (of_int (rule_prio r)))"
    "dict_get d ''settings'' (JObj []) = rule_settings r"
    "match_interface (re_search env) (re_ok env) d f = Inr (rule_matches env f r)"
    using Cons.prems(1) by auto
  have less: "json_less bp (dict_get d ''priority'' (JInt 0)) = Inr (p < rule_prio r)"
    using d(2) Cons.prems(2) by (auto simp: json_less_def flt_def)
  note ih = Cons.IH [OF _ d(2)] Cons.IH [OF _ Cons.prems(2)]
  show ?case
    using ih Cons.prems(1) d(3,4) less by (simp add: d(1) Let_def)
qed simp

definition first_highest :: "rule_env \<Rightarrow> iface \<Rightarrow> json list \<Rightarrow> nat \<Rightarrow> bool" where
  "first_highest env f rs i \<longleftrightarrow> i < length rs \<and> rule_matches env f (rs ! i) \<and>
     (\<forall>j < length rs. rule_matches env f (rs ! j) \<longrightarrow>
        rule_prio (rs ! j) < rule_prio (rs ! i) \<or> (rule_prio (rs ! j) = rule_prio (rs ! i) \<and> i \<le> j))"

lemma pick_first_highest:
  "if \<exists>r \<in> set rs. p < rule_prio r \<and> rule_matches env f r
   then \<exists>i. first_highest env f rs i \<and> p < rule_prio (rs ! i) \<and> pick g env f rs best p = g (rs ! i)
   else pick g env f rs best p = best"
proof (induction rs arbitrary: best p)
  case (Cons r rs)
  show ?case
  proof (cases "p < rule_prio r \<and> rule_matches env f r")
    case True
    show ?thesis
    proof (cases "\<exists>q \<in> set rs. rule_prio r < rule_prio q \<and> rule_matches env f q")
      case ex: True
      then obtain i where i: "first_highest env f rs i" "rule_prio r < rule_prio (rs ! i)"
        "pick g env f rs (g r) (rule_prio r) = g (rs ! i)"
        using Cons.IH [of "rule_prio r" "g r"] by auto
      have "first_highest env f (r # rs) (Suc i)"
        using i(1,2) unfolding first_highest_def by (auto simp: nth_Cons split: nat.splits)
      then show ?thesis using True i by (auto intro!: exI [of _ "Suc i"])
    next
      case no: False
      then have "first_highest env f (r # rs) 0"
        using True unfolding first_highest_def by (auto simp: nth_Cons split: nat.splits) (meson linorder_neqE nth_mem)
      moreover have "pick g env f rs (g r) (rule_prio r) = g r"
        using no Cons.IH [of "rule_prio r" "g r"] by auto
      ultimately show ?thesis using True by (auto intro!: exI [of _ 0])
    qed
  next
    case False
    show ?thesis
    proof (cases "\<exists>q \<in> set rs. p < rule_prio q \<and> rule_matches env f q")
      case ex: True
      then obtain i where i: "first_highest env f rs i" "p < rule_prio (rs ! i)" "pick g env f rs best p = g (rs ! i)"
        using Cons.IH [of p best] by auto
      have "first_highest env f (r # rs) (Suc i)"
        using i(1,2) False unfolding first_highest_def by (auto simp: nth_Cons split: nat.splits)
      then show ?thesis using False ex i by (auto intro!: exI [of _ "Suc i"])
    next
      case no: False
      then show ?thesis using False Cons.IH [of p best] by auto
    qed
  qed
qed simp

lemma evaluate_pick:
  assumes "valid_rules env rs"
  shows "evaluate_rules (re_search env) (re_ok env) rs f = Inr (pick rule_settings env f rs JNull (- 1))"
  unfolding evaluate_rules_def
proof (rule evaluate_from_pick)
  show "\<forall>r \<in> set rs. \<exists>d. r = JObj d \<and> json_num (dict_get d ''priority'' (JInt 0)) = Some (Fin (of_int (rule_prio r))) \<and>
     dict_get d ''settings'' (JObj []) = rule_settings r \<and> match_interface (re_search env) (re_ok env) d f = Inr (rule_matches env f r)"
    using valid_rule [OF assms] by blast
qed simp

lemma rules_highest:
  assumes "valid_rules env rs"
  shows "if \<exists>r \<in> set rs. rule_matches env f r
    then \<exists>i. first_highest env f rs i \<and> evaluate_rules (re_search env) (re_ok env) rs f = Inr (rule_settings (rs ! i))
    else evaluate_rules (re_search env) (re_ok env) rs f = Inr JNull"
proof -
  have p: "- 1 < rule_prio r" if "r \<in> set rs" for r using valid_rule [OF assms that] by auto
  show ?thesis
    using pick_first_highest [of rs "- 1" env f rule_settings JNull] p unfolding evaluate_pick [OF assms] by (auto split: if_splits)
qed

lemma rules_some:
  "valid_rules env rs \<Longrightarrow> \<exists>r \<in> set rs. rule_matches env f r \<Longrightarrow>
   \<exists>i. first_highest env f rs i \<and> evaluate_rules (re_search env) (re_ok env) rs f = Inr (rule_settings (rs ! i))"
  using rules_highest [of env rs f] by (simp only: if_True)

lemma rules_none:
  "valid_rules env rs \<Longrightarrow> \<not> (\<exists>r \<in> set rs. rule_matches env f r) \<Longrightarrow> evaluate_rules (re_search env) (re_ok env) rs f = Inr JNull"
  using rules_highest [of env rs f] by (simp only: if_False)

text \<open>
  C25: Rules that validation accepts are evaluated without an exception on every interface: the
  result is nothing when no rule matches, and otherwise the settings of the first rule of the
  highest priority among the rules that match.
\<close>

theorem rules_choose_highest:
  assumes "validate_interface_rules (re_ok env) (JArr rs) = Inr []"
  shows "if \<exists>r \<in> set rs. rule_matches env f r
    then \<exists>i. first_highest env f rs i \<and> evaluate_rules (re_search env) (re_ok env) rs f = Inr (rule_settings (rs ! i))
    else evaluate_rules (re_search env) (re_ok env) rs f = Inr JNull"
  by (rule rules_highest) (simp add: valid_rules_def assms)

definition demo_rules :: "json list" where
  "demo_rules =
     [JObj [(''name'', JStr ''uplinks''), (''match'', JObj [(''if_alias'', JObj [(''type'', JStr ''glob''), (''pattern'', JStr ''up*'')])]),
            (''settings'', JObj [(''poll_metrics'', JStr ''traffic, errors'')]), (''priority'', JInt 10)],
      JObj [(''name'', JStr ''fast''), (''match'', JObj [(''if_speed_mbps'', JObj [(''op'', JStr ''gte''), (''value'', JInt 1000)])]),
            (''settings'', JObj [(''alerting_enabled'', JBool False)]), (''priority'', JInt 20)]]"

definition demo_env :: rule_env where
  "demo_env = \<lparr>re_search = (\<lambda>_ _. False), re_ok = (\<lambda>_. True)\<rparr>"

definition demo_iface :: iface where
  "demo_iface = \<lparr>if_name = ''eth0'', if_alias = ''uplink'', if_descr = [], if_speed_mbps = 100\<rparr>"

lemma demo_rules_valid: "validate_interface_rules (re_ok demo_env) (JArr demo_rules) = Inr []"
proof -
  have "metric_parts ''traffic, errors'' = [''traffic'', ''errors'']" by code_simp
  then show ?thesis
    by (simp add: validate_interface_rules_def demo_rules_def demo_env_def dict_get_def check_match_def check_spec_def
        MATCH_FIELDS_STR_def MATCH_FIELDS_NUM_def STRING_TYPES_def NUMERIC_OPS_def POLL_METRICS_PARTS_def is_string_def
        check_name_def check_settings_def check_setting_def check_priority_def)
qed

theorem rules_choose_highest_witness:
  "\<exists>i. first_highest demo_env demo_iface demo_rules i \<and>
     evaluate_rules (re_search demo_env) (re_ok demo_env) demo_rules demo_iface = Inr (rule_settings (demo_rules ! i))"
proof -
  have "fnmatch ''uplink'' ''up*''" by code_simp
  then have "rule_matches demo_env demo_iface (hd demo_rules)"
    by (simp add: rule_matches_def demo_rules_def match_interface_def dict_get_def match_field_def MATCH_FIELDS_STR_def
        match_string_def iface_text_def demo_iface_def)
  then have "\<exists>r \<in> set demo_rules. rule_matches demo_env demo_iface r" by (auto simp: demo_rules_def)
  then show ?thesis using rules_choose_highest [OF demo_rules_valid, of demo_iface] by (simp only: if_True)
qed

section \<open>Applying is idempotent\<close>

lemma ex_bool [simp]: "Ex Not" "\<exists>b. b"
  by blast+

lemma feq_refl: "v \<noteq> NaN \<Longrightarrow> feq v v"
  by (simp add: feq_def)

lemma json_eq_plain: "plain_setting v \<Longrightarrow> json_eq v v"
  by (auto simp: plain_setting_def json_eq_def feq_refl split: json.splits)

lemma plain_settings_get: "plain_settings (JObj d) \<Longrightarrow> map_of d k = Some v \<Longrightarrow> plain_setting v"
  by (auto simp: plain_settings_def dest!: map_of_SomeD)

lemma apply_setting_plain:
  assumes "plain_settings (JObj d)"
  shows "\<exists>v c. apply_setting (JObj d) k old = Inr (v, c) \<and> apply_setting (JObj d) k v = Inr (v, False)"
proof (cases "map_of d k")
  case None
  then have "apply_setting (JObj d) k x = Inr (x, False)" for x by (simp add: apply_setting_def map_of_eq_None_iff)
  then show ?thesis by blast
next
  case (Some w)
  then have "k \<in> set (dict_keys d)" by (force dest: map_of_SomeD)
  then show ?thesis using Some json_eq_plain [OF plain_settings_get [OF assms Some]] by (simp add: apply_setting_def)
qed

lemma apply_settings_twice:
  assumes "plain_settings s"
  shows "\<exists>m' c. apply_settings_to_meta m s = Inr (m', c) \<and> im_iface m' = im_iface m \<and> im_rules_managed m' \<and>
    (\<forall>t. apply_settings_to_meta (m'\<lparr>im_updated_at := t\<rparr>) s = Inr (m'\<lparr>im_updated_at := t\<rparr>, False))"
proof -
  obtain d where d: "s = JObj d" using assms by (auto simp: plain_settings_def)
  obtain p c1 a c2 t c3 where
    "apply_setting s ''polling_enabled'' (im_polling_enabled m) = Inr (p, c1)" "apply_setting s ''polling_enabled'' p = Inr (p, False)"
    "apply_setting s ''alerting_enabled'' (im_alerting_enabled m) = Inr (a, c2)" "apply_setting s ''alerting_enabled'' a = Inr (a, False)"
    "apply_setting s ''poll_metrics'' (im_poll_metrics m) = Inr (t, c3)" "apply_setting s ''poll_metrics'' t = Inr (t, False)"
    using assms apply_setting_plain unfolding d by metis
  then show ?thesis by (simp add: apply_settings_to_meta_def)
qed

lemma evaluate_plain:
  assumes "valid_rules env rs"
  shows "\<exists>s. evaluate_rules (re_search env) (re_ok env) rs f = Inr s \<and> (s = JNull \<or> plain_settings s)"
proof (cases "\<exists>r \<in> set rs. rule_matches env f r")
  case True
  then obtain i where i: "first_highest env f rs i"
    "evaluate_rules (re_search env) (re_ok env) rs f = Inr (rule_settings (rs ! i))"
    using rules_some [OF assms True] by blast
  then have "rs ! i \<in> set rs" by (simp add: first_highest_def)
  then show ?thesis using i(2) valid_rule [OF assms] by blast
next
  case False
  then show ?thesis using rules_none [OF assms] by blast
qed

lemma apply_rows_twice:
  assumes "valid_rules env rs"
  shows "\<exists>ms' su' ns. apply_rules_to_rows env rs force now ms su = Inr (ms', su', ns) \<and> length ms' = length ms \<and>
    (\<forall>v now'. \<exists>v'. apply_rules_to_rows env rs force now' ms' v = Inr (ms', v', []) \<and> su_changed v' = su_changed v)"
proof (induction ms arbitrary: su)
  case (Cons m ms)
  obtain s where s: "evaluate_rules (re_search env) (re_ok env) rs (im_iface m) = Inr s" "s = JNull \<or> plain_settings s"
    using evaluate_plain [OF assms] by blast
  have ih: "\<exists>ms' su' ns. apply_rules_to_rows env rs force now ms w = Inr (ms', su', ns) \<and> length ms' = length ms \<and>
    (\<forall>v now'. \<exists>v'. apply_rules_to_rows env rs force now' ms' v = Inr (ms', v', []) \<and> su_changed v' = su_changed v)" for w
    by (rule Cons.IH)
  consider "s = JNull" | "s \<noteq> JNull" "manual force m" | "s \<noteq> JNull" "\<not> manual force m" by blast
  then show ?case
  proof cases
    case 1
    obtain ms' su' ns where r: "apply_rules_to_rows env rs force now ms (su\<lparr>su_unmatched := su_unmatched su + 1\<rparr>) = Inr (ms', su', ns)"
      "length ms' = length ms" "\<And>v now'. \<exists>v'. apply_rules_to_rows env rs force now' ms' v = Inr (ms', v', []) \<and> su_changed v' = su_changed v"
      using ih by blast
    have "\<exists>v'. apply_rules_to_rows env rs force now' (m # ms') v = Inr (m # ms', v', []) \<and> su_changed v' = su_changed v" for v now'
      using r(3) [of now' "v\<lparr>su_unmatched := su_unmatched v + 1\<rparr>"] s(1) 1 by auto
    then show ?thesis using r(1,2) s(1) 1 by simp
  next
    case 2
    obtain ms' su' ns where r: "apply_rules_to_rows env rs force now ms (su\<lparr>su_skipped_manual := su_skipped_manual su + 1\<rparr>) = Inr (ms', su', ns)"
      "length ms' = length ms" "\<And>v now'. \<exists>v'. apply_rules_to_rows env rs force now' ms' v = Inr (ms', v', []) \<and> su_changed v' = su_changed v"
      using ih by blast
    have "\<exists>v'. apply_rules_to_rows env rs force now' (m # ms') v = Inr (m # ms', v', []) \<and> su_changed v' = su_changed v" for v now'
      using r(3) [of now' "v\<lparr>su_skipped_manual := su_skipped_manual v + 1\<rparr>"] s(1) 2 by auto
    then show ?thesis using r(1,2) s(1) 2 by simp
  next
    case 3
    obtain m' c where m': "apply_settings_to_meta m s = Inr (m', c)" "im_iface m' = im_iface m" "im_rules_managed m'"
      "\<And>t. apply_settings_to_meta (m'\<lparr>im_updated_at := t\<rparr>) s = Inr (m'\<lparr>im_updated_at := t\<rparr>, False)"
      using apply_settings_twice s(2) 3(1) by blast
    define w where "w = (if c then su\<lparr>su_matched := su_matched su + 1, su_changed := su_changed su + 1\<rparr> else su\<lparr>su_matched := su_matched su + 1\<rparr>)"
    obtain ms' su' ns where r: "apply_rules_to_rows env rs force now ms w = Inr (ms', su', ns)"
      "length ms' = length ms" "\<And>v now'. \<exists>v'. apply_rules_to_rows env rs force now' ms' v = Inr (ms', v', []) \<and> su_changed v' = su_changed v"
      using ih by blast
    define n where "n = (if c then m'\<lparr>im_updated_at := now\<rparr> else m')"
    have n: "im_iface n = im_iface m" "\<not> manual force n" "apply_settings_to_meta n s = Inr (n, False)"
      using m'(2,3) m'(4) [of now] m'(4) [of "im_updated_at m'"] by (auto simp: n_def manual_def)
    have "\<exists>v'. apply_rules_to_rows env rs force now' (n # ms') v = Inr (n # ms', v', []) \<and> su_changed v' = su_changed v" for v now'
      using r(3) [of now' "v\<lparr>su_matched := su_matched v + 1\<rparr>"] s(1) 3(1) n by (auto simp: Let_def)
    moreover have "\<exists>ns'. apply_rules_to_rows env rs force now (m # ms) su = Inr (n # ms', su', ns')"
      using r(1) s(1) 3 m'(1) by (cases c) (auto simp: w_def n_def Let_def)
    ultimately show ?thesis using r(2) by (metis length_Cons)
  qed
qed simp

text \<open>
  Applying valid rules to the interfaces of a device never raises, and it is idempotent: a
  second application, at any time, changes no row, drops no cache entry and counts no change.
\<close>

theorem apply_rules_idempotent:
  assumes "validate_interface_rules (re_ok env) (JArr rs) = Inr []"
  shows "\<exists>rows' su ns. apply_rules_to_all_interfaces env rs force now rows = Inr (rows', su, ns) \<and>
    (\<exists>su'. apply_rules_to_all_interfaces env rs force now' rows' = Inr (rows', su', []) \<and> su_changed su' = 0)"
proof -
  have v: "valid_rules env rs" using assms by (simp add: valid_rules_def)
  obtain rows' su ns where r: "apply_rules_to_rows env rs force now rows (new_summary (length rows)) = Inr (rows', su, ns)"
    "\<And>v. \<exists>v'. apply_rules_to_rows env rs force now' rows' v = Inr (rows', v', []) \<and> su_changed v' = su_changed v"
    using apply_rows_twice [OF v, of force now rows "new_summary (length rows)"] by blast
  then show ?thesis
    using r(2) [of "new_summary (length rows')"] by (simp add: apply_rules_to_all_interfaces_def new_summary_def)
qed

definition demo_meta :: interface_metadata where
  "demo_meta = \<lparr>im_id = ''i'', im_iface = demo_iface, im_if_index = 1, im_polling_enabled = JBool True,
     im_alerting_enabled = JBool True, im_poll_metrics = JStr ''all'', im_rules_managed = False, im_updated_at = 0\<rparr>"

theorem apply_rules_idempotent_witness:
  "\<exists>rows' su ns. apply_rules_to_all_interfaces demo_env demo_rules False 5 [demo_meta] = Inr (rows', su, ns) \<and>
    (\<exists>su'. apply_rules_to_all_interfaces demo_env demo_rules False 9 rows' = Inr (rows', su', []) \<and> su_changed su' = 0)"
  by (rule apply_rules_idempotent [OF demo_rules_valid])

section \<open>The preview\<close>

lemma fold_update_get:
  "wf_dict d \<Longrightarrow> map_of (fold (\<lambda>(k, v). dict_set k v) d cur) k = (case map_of d k of None \<Rightarrow> map_of cur k | Some v \<Rightarrow> Some v)"
proof (induction d arbitrary: cur)
  case (Cons p d)
  obtain k' v where p: "p = (k', v)" by (cases p)
  then have "map_of d k' = None" using Cons.prems by (simp add: map_of_eq_None_iff)
  then show ?case using Cons p by (auto split: option.splits)
qed simp

lemma keys_fold_update: "set (dict_keys (fold (\<lambda>(k, v). dict_set k v) d cur)) = set (dict_keys d) \<union> set (dict_keys cur)"
  by (induction d arbitrary: cur) (auto simp del: set_map simp: keys_dict_set split: prod.split)

lemma keys_fold_update_id:
  "set (dict_keys d) \<subseteq> set (dict_keys cur) \<Longrightarrow> dict_keys (fold (\<lambda>(k, v). dict_set k v) d cur) = dict_keys cur"
proof (induction d arbitrary: cur)
  case (Cons p d)
  obtain k v where p: "p = (k, v)" by (cases p)
  have "dict_keys (dict_set k v cur) = dict_keys cur"
    using Cons.prems p by (simp add: update_keys)
  then show ?case using Cons.IH [of "dict_set k v cur"] Cons.prems p by simp
qed simp

lemma dict_ext:
  assumes "dict_keys a = dict_keys b" and "wf_dict a" and "map_of a = map_of b"
  shows "a = b"
proof (rule nth_equalityI)
  show l: "length a = length b" using assms(1) by (metis length_map)
  fix i assume i: "i < length a"
  have k: "fst (a ! i) = fst (b ! i)" using assms(1) i l by (metis nth_map)
  have "map_of a (fst (a ! i)) = Some (snd (a ! i))" using assms(2) i by (intro map_of_is_SomeI) (auto simp: nth_mem)
  moreover have "map_of b (fst (b ! i)) = Some (snd (b ! i))"
    using assms(1,2) i l by (intro map_of_is_SomeI) (auto simp: nth_mem)
  ultimately show "a ! i = b ! i" using assms(3) k by (simp add: prod_eq_iff)
qed

lemma json_eq_plain_iff: "plain_setting a \<Longrightarrow> plain_setting b \<Longrightarrow> json_eq a b \<Longrightarrow> a = b"
  by (auto simp: plain_setting_def json_eq_def feq_def split: json.splits if_splits)

lemma apply_setting_get:
  assumes "plain_settings (JObj d)" and "plain_setting old"
  shows "\<exists>c. apply_setting (JObj d) k old = Inr (case map_of d k of None \<Rightarrow> old | Some w \<Rightarrow> w, c)"
proof (cases "map_of d k")
  case None
  then have "k \<notin> set (dict_keys d)" by (metis map_of_eq_None_iff set_map)
  then show ?thesis using None by (simp add: apply_setting_def)
next
  case (Some w)
  then have "k \<in> set (dict_keys d)" by (force dest: map_of_SomeD)
  then show ?thesis
    using Some json_eq_plain_iff [OF assms(2) plain_settings_get [OF assms(1) Some]] by (simp add: apply_setting_def)
qed

definition row_plain :: "interface_metadata \<Rightarrow> bool" where
  "row_plain m \<longleftrightarrow> plain_setting (im_polling_enabled m) \<and> plain_setting (im_alerting_enabled m) \<and> plain_setting (im_poll_metrics m)"

lemma update_is_apply:
  assumes s: "plain_settings (JObj d)" and wf: "wf_dict d" and m: "row_plain m"
  shows "\<exists>m' c. apply_settings_to_meta m (JObj d) = Inr (m', c) \<and> settings_update (JObj d) (current_settings m) = Inr (current_settings m')"
proof -
  let ?v = "\<lambda>k old. case map_of d k of None \<Rightarrow> old | Some w \<Rightarrow> w"
  let ?m = "m\<lparr>im_polling_enabled := ?v ''polling_enabled'' (im_polling_enabled m),
    im_alerting_enabled := ?v ''alerting_enabled'' (im_alerting_enabled m),
    im_poll_metrics := ?v ''poll_metrics'' (im_poll_metrics m), im_rules_managed := True\<rparr>"
  obtain c1 c2 c3 where
    "apply_setting (JObj d) ''polling_enabled'' (im_polling_enabled m) = Inr (?v ''polling_enabled'' (im_polling_enabled m), c1)"
    "apply_setting (JObj d) ''alerting_enabled'' (im_alerting_enabled m) = Inr (?v ''alerting_enabled'' (im_alerting_enabled m), c2)"
    "apply_setting (JObj d) ''poll_metrics'' (im_poll_metrics m) = Inr (?v ''poll_metrics'' (im_poll_metrics m), c3)"
    using apply_setting_get [OF s] m unfolding row_plain_def by metis
  then have a: "\<exists>c. apply_settings_to_meta m (JObj d) = Inr (?m, c)"
    by (simp add: apply_settings_to_meta_def)
  have ks: "set (dict_keys d) \<subseteq> set (dict_keys (current_settings m))"
    using s by (auto simp: plain_settings_def current_settings_def)
  have "fold (\<lambda>(k, v). dict_set k v) d (current_settings m) = current_settings ?m"
  proof (rule dict_ext)
    show "dict_keys (fold (\<lambda>(k, v). dict_set k v) d (current_settings m)) = dict_keys (current_settings ?m)"
      unfolding keys_fold_update_id [OF ks] by (simp add: current_settings_def)
    show "wf_dict (fold (\<lambda>(k, v). dict_set k v) d (current_settings m))"
      unfolding keys_fold_update_id [OF ks] by (simp add: current_settings_def)
    show "map_of (fold (\<lambda>(k, v). dict_set k v) d (current_settings m)) = map_of (current_settings ?m)"
    proof
      fix k
      have "k \<notin> set (dict_keys (current_settings m)) \<Longrightarrow> map_of d k = None"
        using ks by (metis map_of_eq_None_iff set_map subsetD)
      then show "map_of (fold (\<lambda>(k, v). dict_set k v) d (current_settings m)) k = map_of (current_settings ?m) k"
        unfolding fold_update_get [OF wf] by (auto simp: current_settings_def split: option.splits)
    qed
  qed
  then show ?thesis using a by auto
qed

lemma matched_name_from_pick:
  "\<forall>r \<in> set rs. \<exists>d. r = JObj d \<and> json_num (dict_get d ''priority'' (JInt 0)) = Some (Fin (of_int (rule_prio r))) \<and>
     match_interface (re_search env) (re_ok env) d f = Inr (rule_matches env f r) \<Longrightarrow>
   json_num bp = Some (Fin (of_int p)) \<Longrightarrow>
   matched_name_from env f rs name bp = Inr (pick rule_name env f rs name p)"
proof (induction rs arbitrary: name bp p)
  case (Cons r rs)
  obtain d where d: "r = JObj d" "json_num (dict_get d ''priority'' (JInt 0)) = Some (Fin (of_int (rule_prio r)))"
    "match_interface (re_search env) (re_ok env) d f = Inr (rule_matches env f r)"
    using Cons.prems(1) by auto
  have less: "json_less bp (dict_get d ''priority'' (JInt 0)) = Inr (p < rule_prio r)"
    using d(2) Cons.prems(2) by (auto simp: json_less_def flt_def)
  have "rule_name r = dict_get d ''name'' JNull" by (simp add: rule_name_def d(1))
  then show ?case
    using Cons.IH [OF _ d(2)] Cons.IH [OF _ Cons.prems(2)] Cons.prems(1) d(3) less by (simp add: d(1) Let_def)
qed simp

lemma matched_name_pick:
  assumes "valid_rules env rs"
  shows "matched_name_from env f rs JNull (JInt (- 1)) = Inr (pick rule_name env f rs JNull (- 1))"
proof (rule matched_name_from_pick)
  show "\<forall>r \<in> set rs. \<exists>d. r = JObj d \<and> json_num (dict_get d ''priority'' (JInt 0)) = Some (Fin (of_int (rule_prio r))) \<and>
     match_interface (re_search env) (re_ok env) d f = Inr (rule_matches env f r)"
    using valid_rule [OF assms] by blast
qed simp

lemma first_highest_unique: "first_highest env f rs i \<Longrightarrow> first_highest env f rs j \<Longrightarrow> i = j"
  unfolding first_highest_def by (metis le_antisym less_irrefl order_less_trans)

lemma pick_at:
  assumes "valid_rules env rs" and "first_highest env f rs i"
  shows "pick g env f rs best (- 1) = g (rs ! i)"
proof -
  have "rs ! i \<in> set rs" "rule_matches env f (rs ! i)" using assms(2) by (simp_all add: first_highest_def)
  moreover from this have "- 1 < rule_prio (rs ! i)" using valid_rule [OF assms(1)] by fastforce
  ultimately have ex: "\<exists>r \<in> set rs. - 1 < rule_prio r \<and> rule_matches env f r" by blast
  have "\<exists>j. first_highest env f rs j \<and> pick g env f rs best (- 1) = g (rs ! j)"
    using pick_first_highest [of rs "- 1" env f g best] unfolding if_P [OF ex] by blast
  then show ?thesis using first_highest_unique [OF assms(2)] by auto
qed

lemma preview_forced:
  assumes "valid_rules env rs" and "\<forall>r \<in> set rs. \<forall>d. rule_settings r = JObj d \<longrightarrow> wf_dict d" and "row_plain m"
  shows "\<exists>e m' c. preview_row env rs m = Inr e \<and> apply_rules_to_interface env rs True m = Inr (m', c) \<and>
    pv_proposed e = current_settings m' \<and>
    (\<forall>i. first_highest env (im_iface m) rs i \<longrightarrow> pv_matched_rule e = rule_name (rs ! i))"
proof (cases "\<exists>r \<in> set rs. rule_matches env (im_iface m) r")
  case True
  let ?f = "im_iface m"
  obtain i where i: "first_highest env ?f rs i"
    "evaluate_rules (re_search env) (re_ok env) rs ?f = Inr (rule_settings (rs ! i))"
    using rules_some [OF assms(1) True] by blast
  then have mem: "rs ! i \<in> set rs" by (simp add: first_highest_def)
  then have "plain_settings (rule_settings (rs ! i))" using valid_rule [OF assms(1)] by blast
  then obtain d where d: "rule_settings (rs ! i) = JObj d" "plain_settings (JObj d)" "d \<noteq> []"
    by (auto simp: plain_settings_def)
  have "wf_dict d" using assms(2) mem d(1) by blast
  then obtain m' c where m': "apply_settings_to_meta m (JObj d) = Inr (m', c)"
    "settings_update (JObj d) (current_settings m) = Inr (current_settings m')"
    using update_is_apply [OF d(2) _ assms(3)] by blast
  have name: "matched_name_from env ?f rs JNull (JInt (- 1)) = Inr (rule_name (rs ! i))"
    unfolding matched_name_pick [OF assms(1)] pick_at [OF assms(1) i(1)] ..
  have e: "preview_row env rs m = Inr \<lparr>pv_meta = m, pv_matched_rule = rule_name (rs ! i), pv_current = current_settings m,
      pv_proposed = current_settings m', pv_would_change = (\<not> dict_eq (current_settings m) (current_settings m'))\<rparr>"
    using i(2) d(3) name m'(2) by (simp add: preview_row_def d(1) del: settings_update.simps)
  have "apply_rules_to_interface env rs True m = Inr (m', c)"
    using i(2) m'(1) by (simp add: apply_rules_to_interface_def d(1) manual_def)
  then show ?thesis using e first_highest_unique [OF i(1)] by auto
next
  case False
  then have "evaluate_rules (re_search env) (re_ok env) rs (im_iface m) = Inr JNull" using rules_none [OF assms(1)] by blast
  moreover have "\<not> first_highest env (im_iface m) rs i" for i using False by (auto simp: first_highest_def)
  ultimately show ?thesis by (simp add: preview_row_def apply_rules_to_interface_def)
qed

lemma apply_not_manual: "\<not> manual False m \<Longrightarrow> apply_rules_to_interface env rs False m = apply_rules_to_interface env rs True m"
proof -
  assume "\<not> manual False m"
  moreover have "\<not> manual True m" by (simp add: manual_def)
  ultimately show ?thesis by (simp add: apply_rules_to_interface_def cong: if_cong)
qed

text \<open>
  The preview shows what an application would do.  For valid rules (JSON objects, so with
  distinct keys) and a row of the database that is not set by hand, the proposed settings are the
  settings after applying the rules, and the rule it names is the one whose settings are applied.
\<close>

theorem preview_shows_application:
  assumes "validate_interface_rules (re_ok env) (JArr rs) = Inr []"
    and "\<forall>r \<in> set rs. \<forall>d. rule_settings r = JObj d \<longrightarrow> wf_dict d"
    and "row_plain m" and "\<not> manual False m"
  shows "\<exists>e m' c. preview_row env rs m = Inr e \<and> apply_rules_to_interface env rs False m = Inr (m', c) \<and>
    pv_proposed e = current_settings m' \<and>
    (\<forall>i. first_highest env (im_iface m) rs i \<longrightarrow> pv_matched_rule e = rule_name (rs ! i))"
  unfolding apply_not_manual [OF assms(4)]
  by (rule preview_forced [OF _ assms(2,3)]) (simp add: valid_rules_def assms(1))

theorem preview_shows_application_witness:
  "\<exists>e m' c. preview_row demo_env demo_rules demo_meta = Inr e \<and>
    apply_rules_to_interface demo_env demo_rules False demo_meta = Inr (m', c) \<and> pv_proposed e = current_settings m'"
proof -
  have "\<forall>r \<in> set demo_rules. \<forall>d. rule_settings r = JObj d \<longrightarrow> wf_dict d"
    by (simp add: demo_rules_def rule_settings_def dict_get_def)
  moreover have "row_plain demo_meta" "\<not> manual False demo_meta"
    by (simp_all add: row_plain_def plain_setting_def demo_meta_def manual_def has_non_default_settings_def)
  ultimately show ?thesis using preview_shows_application [OF demo_rules_valid] by blast
qed

text \<open>
  The preview does not look at what was set by hand: for such a row it shows the changes of a forced
  application, while the rules are not applied to it.
\<close>

lemma preview_ignores_manual:
  assumes "valid_rules env rs" and "\<forall>r \<in> set rs. \<forall>d. rule_settings r = JObj d \<longrightarrow> wf_dict d" and "row_plain m" and "manual False m"
  shows "apply_rules_to_interface env rs False m = Inr (m, False)"
    and "\<exists>e m' c. preview_row env rs m = Inr e \<and> apply_rules_to_interface env rs True m = Inr (m', c) \<and> pv_proposed e = current_settings m'"
proof -
  obtain s where "evaluate_rules (re_search env) (re_ok env) rs (im_iface m) = Inr s"
    using evaluate_plain [OF assms(1)] by blast
  then show "apply_rules_to_interface env rs False m = Inr (m, False)"
    using assms(4) by (simp add: apply_rules_to_interface_def)
  show "\<exists>e m' c. preview_row env rs m = Inr e \<and> apply_rules_to_interface env rs True m = Inr (m', c) \<and> pv_proposed e = current_settings m'"
    using preview_forced [OF assms(1-3)] by blast
qed

text \<open>What a rule with a pattern that is no string does to validation.\<close>

lemma validation_raises:
  "validate_interface_rules ok (JArr [JObj [(''name'', JStr ''n''), (''match'', JObj [(''if_name'', JObj [(''type'', JStr ''regex''), (''pattern'', JInt 5)])])]])
   = Inl TypeError"
  by (simp add: validate_interface_rules_def dict_get_def check_match_def check_spec_def MATCH_FIELDS_STR_def STRING_TYPES_def Let_def)

end
