(* ===== verification/Interface_Identity.thy ===== *)
theory Interface_Identity
  imports Interface_Rules_Props Event_System
begin

text \<open>
  The stable identity of an interface (\<open>_resolve_interface_id\<close> of \<open>collector_api/router.py\<close>): the
  stored rows of one device, the Redis cache in front of them, and the interface rules that are
  applied to new and changed interfaces.
\<close>

section \<open>Resolving\<close>

record cached_interface =
  ci_interface_id :: string
  ci_if_index :: int
  ci_polling_enabled :: json

record discovered =
  di_iface :: iface
  di_if_index :: int

text \<open>The fields that came with a value and differ; the speed 0 is no value.\<close>

definition refresh_iface :: "iface \<Rightarrow> iface \<Rightarrow> iface \<times> bool" where
  "refresh_iface new f =
     (let d = if_descr new \<noteq> [] \<and> if_descr new \<noteq> if_descr f;
          a = if_alias new \<noteq> [] \<and> if_alias new \<noteq> if_alias f;
          s = if_speed_mbps new \<noteq> 0 \<and> if_speed_mbps new \<noteq> if_speed_mbps f
      in (f\<lparr>if_descr := (if d then if_descr new else if_descr f), if_alias := (if a then if_alias new else if_alias f),
            if_speed_mbps := (if s then if_speed_mbps new else if_speed_mbps f)\<rparr>, d \<or> a \<or> s))"

text \<open>Rules are applied by force; an exception is logged and leaves the row as it is.\<close>

definition force_rules :: "rule_env \<Rightarrow> json list \<Rightarrow> interface_metadata \<Rightarrow> interface_metadata" where
  "force_rules env rules m =
     (if rules = [] then m
      else case apply_rules_to_interface env rules True m of Inl _ \<Rightarrow> m | Inr (m', _) \<Rightarrow> m')"

definition moved_row :: "rule_env \<Rightarrow> json list \<Rightarrow> int \<Rightarrow> discovered \<Rightarrow> interface_metadata \<Rightarrow> interface_metadata" where
  "moved_row env rules now d m =
     (let (f, changed) = refresh_iface (di_iface d) (im_iface m);
          m = m\<lparr>im_if_index := di_if_index d, im_iface := f, im_updated_at := now\<rparr>
      in if changed \<and> im_rules_managed m then force_rules env rules m else m)"

definition reindexed_row :: "int \<Rightarrow> discovered \<Rightarrow> interface_metadata \<Rightarrow> interface_metadata" where
  "reindexed_row now d m =
     (if im_if_index m \<noteq> di_if_index d then m\<lparr>im_if_index := di_if_index d, im_updated_at := now\<rparr> else m)"

definition new_row :: "rule_env \<Rightarrow> json list \<Rightarrow> int \<Rightarrow> discovered \<Rightarrow> string \<Rightarrow> interface_metadata" where
  "new_row env rules now d new_id =
     force_rules env rules
       \<lparr>im_id = new_id, im_iface = di_iface d, im_if_index = di_if_index d, im_polling_enabled = JBool True,
        im_alerting_enabled = JBool True, im_poll_metrics = JStr ''all'', im_rules_managed = False, im_updated_at = now\<rparr>"

definition replace_row :: "interface_metadata \<Rightarrow> interface_metadata list \<Rightarrow> interface_metadata list" where
  "replace_row m rows = map (\<lambda>r. if im_id r = im_id m then m else r) rows"

record interfaces =
  in_rows :: "interface_metadata list"
  in_cache :: "string \<Rightarrow> cached_interface option"

definition remember :: "string \<Rightarrow> string \<Rightarrow> int \<Rightarrow> json \<Rightarrow> interfaces \<Rightarrow> interfaces" where
  "remember name i idx polling s =
     s\<lparr>in_cache := (in_cache s)(name \<mapsto> \<lparr>ci_interface_id = i, ci_if_index = idx, ci_polling_enabled = polling\<rparr>)\<rparr>"

definition row_by_id :: "string \<Rightarrow> interfaces \<Rightarrow> interface_metadata option" where
  "row_by_id i s = find (\<lambda>m. im_id m = i) (in_rows s)"

definition row_by_name :: "string \<Rightarrow> interfaces \<Rightarrow> interface_metadata option" where
  "row_by_name n s = find (\<lambda>m. if_name (im_iface m) = n) (in_rows s)"

text \<open>The id, whether the interface is polled, and the new state.\<close>

definition resolve_interface_id ::
    "rule_env \<Rightarrow> json list \<Rightarrow> int \<Rightarrow> string \<Rightarrow> discovered \<Rightarrow> interfaces \<Rightarrow> (string \<times> json) \<times> interfaces" where
  "resolve_interface_id env rules now new_id d s =
     (let name = if_name (di_iface d)
      in case in_cache s name of
           Some e \<Rightarrow>
             (if ci_if_index e = di_if_index d then ((ci_interface_id e, ci_polling_enabled e), s)
              else case row_by_id (ci_interface_id e) s of
                     None \<Rightarrow>
                       ((ci_interface_id e, ci_polling_enabled e),
                        remember name (ci_interface_id e) (di_if_index d) (ci_polling_enabled e) s)
                   | Some m \<Rightarrow>
                       (let m' = moved_row env rules now d m
                        in ((ci_interface_id e, im_polling_enabled m'),
                            remember name (ci_interface_id e) (di_if_index d) (im_polling_enabled m')
                              (s\<lparr>in_rows := replace_row m' (in_rows s)\<rparr>))))
         | None \<Rightarrow>
             (case row_by_name name s of
                Some m \<Rightarrow>
                  (let m' = reindexed_row now d m
                   in ((im_id m', im_polling_enabled m'),
                       remember name (im_id m') (di_if_index d) (im_polling_enabled m') (s\<lparr>in_rows := replace_row m' (in_rows s)\<rparr>)))
              | None \<Rightarrow>
                  (let m' = new_row env rules now d new_id
                   in ((im_id m', im_polling_enabled m'),
                       remember name (im_id m') (di_if_index d) (im_polling_enabled m') (s\<lparr>in_rows := in_rows s @ [m']\<rparr>)))))"

section \<open>The interfaces of a device over time\<close>

text \<open>
  Interfaces are resolved, cache entries expire, and rules are applied to all interfaces (which drops
  the entries of those that changed).  A new id is a \<open>uuid4\<close>, so no row has it.  With the state goes
  the list of the ids given out.
\<close>

datatype interface_event =
    Resolve "json list" int string discovered
  | Expire string
  | Apply_Rules "json list" bool int

fun interface_step :: "rule_env \<Rightarrow> interface_event \<Rightarrow> interfaces \<times> (string \<times> string) list \<Rightarrow> (interfaces \<times> (string \<times> string) list) option" where
  "interface_step env (Resolve rules now new_id d) (s, answers) =
     (if new_id \<in> im_id ` set (in_rows s) then None
      else let ((i, polling), s') = resolve_interface_id env rules now new_id d s
           in Some (s', (if_name (di_iface d), i) # answers))"
| "interface_step env (Expire name) (s, answers) = Some (s\<lparr>in_cache := (in_cache s)(name := None)\<rparr>, answers)"
| "interface_step env (Apply_Rules rules force now) (s, answers) =
     (case apply_rules_to_all_interfaces env rules force now (in_rows s) of
        Inl _ \<Rightarrow> Some (s, answers)
      | Inr (rows, su, names) \<Rightarrow>
          Some (s\<lparr>in_rows := rows, in_cache := (\<lambda>n. if n \<in> set names then None else in_cache s n)\<rparr>, answers))"

section \<open>The identity is stable\<close>

definition cache_ok :: "interfaces \<Rightarrow> bool" where
  "cache_ok s \<longleftrightarrow> (\<forall>n e. in_cache s n = Some e \<longrightarrow>
     (\<exists>m \<in> set (in_rows s). im_id m = ci_interface_id e \<and> if_name (im_iface m) = n \<and> im_polling_enabled m = ci_polling_enabled e))"

definition rows_ok :: "interfaces \<Rightarrow> bool" where
  "rows_ok s \<longleftrightarrow> distinct (map im_id (in_rows s)) \<and> distinct (map (\<lambda>m. if_name (im_iface m)) (in_rows s))"

definition identity_inv :: "interfaces \<times> (string \<times> string) list \<Rightarrow> bool" where
  "identity_inv sa \<longleftrightarrow> rows_ok (fst sa) \<and> cache_ok (fst sa) \<and>
     (\<forall>(n, i) \<in> set (snd sa). \<exists>m \<in> set (in_rows (fst sa)). im_id m = i \<and> if_name (im_iface m) = n)"

lemma apply_setting_unchanged: "apply_setting s k old = Inr (v, False) \<Longrightarrow> v = old"
  by (auto simp: apply_setting_def split: if_splits)

lemma apply_settings_keeps:
  "apply_settings_to_meta m s = Inr (m', c) \<Longrightarrow> im_id m' = im_id m \<and> im_iface m' = im_iface m \<and>
     (\<not> c \<longrightarrow> im_polling_enabled m' = im_polling_enabled m)"
proof -
  assume "apply_settings_to_meta m s = Inr (m', c)"
  then have e: "ebind (apply_setting s ''polling_enabled'' (im_polling_enabled m)) (\<lambda>(p, c1).
     ebind (apply_setting s ''alerting_enabled'' (im_alerting_enabled m)) (\<lambda>(a, c2).
     ebind (apply_setting s ''poll_metrics'' (im_poll_metrics m)) (\<lambda>(t, c3).
     Inr (m\<lparr>im_polling_enabled := p, im_alerting_enabled := a, im_poll_metrics := t, im_rules_managed := True\<rparr>,
          c1 \<or> c2 \<or> c3 \<or> \<not> im_rules_managed m)))) = Inr (m', c)"
    by (simp only: apply_settings_to_meta_def)
  obtain p c1 where p: "apply_setting s ''polling_enabled'' (im_polling_enabled m) = Inr (p, c1)"
    using e by (cases "apply_setting s ''polling_enabled'' (im_polling_enabled m)") auto
  obtain a c2 where a: "apply_setting s ''alerting_enabled'' (im_alerting_enabled m) = Inr (a, c2)"
    using e p by (cases "apply_setting s ''alerting_enabled'' (im_alerting_enabled m)") auto
  obtain t c3 where t: "apply_setting s ''poll_metrics'' (im_poll_metrics m) = Inr (t, c3)"
    using e p a by (cases "apply_setting s ''poll_metrics'' (im_poll_metrics m)") auto
  have "m\<lparr>im_polling_enabled := p, im_alerting_enabled := a, im_poll_metrics := t, im_rules_managed := True\<rparr> = m' \<and>
      (c1 \<or> c2 \<or> c3 \<or> \<not> im_rules_managed m) = c"
    using e by (simp only: p a t ebind_simps prod.case sum.inject prod.inject)
  then have m': "m' = m\<lparr>im_polling_enabled := p, im_alerting_enabled := a, im_poll_metrics := t, im_rules_managed := True\<rparr>"
    and c: "c1 \<Longrightarrow> c" by blast+
  have "p = im_polling_enabled m" if "\<not> c1"
  proof (rule apply_setting_unchanged)
    show "apply_setting s ''polling_enabled'' (im_polling_enabled m) = Inr (p, False)" using p that by simp
  qed
  then have "\<not> c \<longrightarrow> im_polling_enabled m' = im_polling_enabled m" using c unfolding m' by auto
  then show ?thesis unfolding m' by simp
qed

lemma force_rules_keeps: "im_id (force_rules env rules m) = im_id m" "im_iface (force_rules env rules m) = im_iface m"
proof -
  have "im_id m' = im_id m \<and> im_iface m' = im_iface m" if r: "apply_rules_to_interface env rules True m = Inr (m', c)" for m' c
  proof -
    obtain s where "(if s = JNull then Inr (m, False) else if manual True m then Inr (m, False)
        else apply_settings_to_meta m s) = Inr (m', c)"
      using r unfolding apply_rules_to_interface_def by (elim ebind_InrE)
    then have "m' = m \<or> apply_settings_to_meta m s = Inr (m', c)" by (simp split: if_splits)
    then show ?thesis using apply_settings_keeps [of m s m' c] by blast
  qed
  note keeps = this
  have "im_id (force_rules env rules m) = im_id m \<and> im_iface (force_rules env rules m) = im_iface m"
  proof (cases "apply_rules_to_interface env rules True m")
    case (Inl e)
    then show ?thesis by (simp add: force_rules_def)
  next
    case (Inr r)
    obtain m' c where r: "r = (m', c)" by (cases r)
    from keeps [OF Inr [unfolded r]] show ?thesis using Inr by (simp add: force_rules_def r)
  qed
  then show "im_id (force_rules env rules m) = im_id m" "im_iface (force_rules env rules m) = im_iface m" by blast+
qed

lemma refresh_iface_name: "if_name (fst (refresh_iface new f)) = if_name f"
  by (simp add: refresh_iface_def Let_def)

lemma moved_row_keeps: "im_id (moved_row env rules now d m) = im_id m" "if_name (im_iface (moved_row env rules now d m)) = if_name (im_iface m)"
  using refresh_iface_name [of "di_iface d" "im_iface m"]
  by (auto simp: moved_row_def force_rules_keeps Let_def split: prod.splits)

lemma reindexed_row_keeps: "im_id (reindexed_row now d m) = im_id m" "im_iface (reindexed_row now d m) = im_iface m"
  by (simp_all add: reindexed_row_def)

lemma new_row_is: "im_id (new_row env rules now d new_id) = new_id" "im_iface (new_row env rules now d new_id) = di_iface d"
  by (simp_all add: new_row_def force_rules_keeps)

text \<open>A row stands for another when it has its id and its name.\<close>

definition same_ident :: "interface_metadata list \<Rightarrow> interface_metadata list \<Rightarrow> bool" where
  "same_ident rows rows' \<longleftrightarrow> map im_id rows' = map im_id rows \<and>
     map (\<lambda>m. if_name (im_iface m)) rows' = map (\<lambda>m. if_name (im_iface m)) rows"

lemma replace_row_ident:
  assumes "distinct (map im_id rows)" and "m \<in> set rows" and "im_id m' = im_id m" and "if_name (im_iface m') = if_name (im_iface m)"
  shows "same_ident rows (replace_row m' rows)"
proof -
  have "r = m" if "r \<in> set rows" "im_id r = im_id m'" for r
    using assms(1-3) that by (metis distinct_map inj_onD)
  then show ?thesis using assms(3,4) by (auto simp: same_ident_def replace_row_def)
qed

lemma same_ident_mem:
  assumes "same_ident rows rows'" and "m \<in> set rows"
  shows "\<exists>m' \<in> set rows'. im_id m' = im_id m \<and> if_name (im_iface m') = if_name (im_iface m)"
proof -
  obtain i where i: "i < length rows" "m = rows ! i" using assms(2) by (metis in_set_conv_nth)
  have l: "length rows' = length rows" using assms(1) unfolding same_ident_def by (metis length_map)
  then have "im_id (rows' ! i) = im_id m" "if_name (im_iface (rows' ! i)) = if_name (im_iface m)"
    using assms(1) i unfolding same_ident_def by (metis nth_map)+
  then show ?thesis using i l by (metis nth_mem)
qed

lemma apply_rows_keeps:
  "apply_rules_to_rows env rules force now rows su = Inr (rows', su', names) \<Longrightarrow>
   same_ident rows rows' \<and>
   list_all2 (\<lambda>m m'. if_name (im_iface m) \<in> set names \<or> im_polling_enabled m' = im_polling_enabled m) rows rows'"
proof (induction rows arbitrary: su rows' names)
  case (Cons m rows)
  have mono: "list_all2 (\<lambda>m m'. if_name (im_iface m) \<in> set (n # names) \<or> im_polling_enabled m' = im_polling_enabled m) xs ys"
    if "list_all2 (\<lambda>m m'. if_name (im_iface m) \<in> set names \<or> im_polling_enabled m' = im_polling_enabled m) xs ys" for n names xs ys
    using that by (auto elim!: list_all2_mono)
  obtain s where s: "evaluate_rules (re_search env) (re_ok env) rules (im_iface m) = Inr s"
    using Cons.prems by auto
  consider "s = JNull \<or> manual force m" | m1 c where "s \<noteq> JNull" "\<not> manual force m" "apply_settings_to_meta m s = Inr (m1, c)"
    using Cons.prems s by (auto split: if_splits)
  then show ?case
  proof cases
    case 1
    then obtain w ms where "apply_rules_to_rows env rules force now rows w = Inr (ms, su', names)" "rows' = m # ms"
      using Cons.prems s by (auto split: if_splits)
    then show ?thesis using Cons.IH by (auto simp: same_ident_def)
  next
    case 2
    note k = apply_settings_keeps [OF 2(3)]
    obtain w ms ns where r: "apply_rules_to_rows env rules force now rows w = Inr (ms, su', ns)"
      "rows' = (if c then m1\<lparr>im_updated_at := now\<rparr> else m1) # ms" "names = (if c then if_name (im_iface m) # ns else ns)"
      using Cons.prems s 2 by (auto simp: Let_def split: if_splits)
    show ?thesis using Cons.IH [OF r(1)] k r(2,3) mono by (cases c) (auto simp: same_ident_def)
  qed
qed (simp add: same_ident_def)

lemma rows_ok_ident: "rows_ok s \<Longrightarrow> same_ident (in_rows s) (in_rows s') \<Longrightarrow> rows_ok s'"
  by (simp add: rows_ok_def same_ident_def)

lemma answers_ident:
  "same_ident rows rows' \<Longrightarrow> \<exists>m \<in> set rows. im_id m = i \<and> if_name (im_iface m) = n \<Longrightarrow> \<exists>m \<in> set rows'. im_id m = i \<and> if_name (im_iface m) = n"
  using same_ident_mem by metis

lemma row_by_id_Some: "row_by_id i s = Some m \<Longrightarrow> m \<in> set (in_rows s) \<and> im_id m = i"
  by (auto simp: row_by_id_def find_Some_iff)

lemma row_by_name_Some: "row_by_name n s = Some m \<Longrightarrow> m \<in> set (in_rows s) \<and> if_name (im_iface m) = n"
  by (auto simp: row_by_name_def find_Some_iff)

lemma row_by_name_None: "row_by_name n s = None \<Longrightarrow> n \<notin> (\<lambda>m. if_name (im_iface m)) ` set (in_rows s)"
  by (auto simp: row_by_name_def find_None_iff)

text \<open>Changing one row and putting it in the cache under its name.\<close>

lemma remember_replaced:
  assumes "rows_ok s" and "cache_ok s" and m: "m \<in> set (in_rows s)" and k: "im_id m' = im_id m" "if_name (im_iface m') = if_name (im_iface m)"
    and n: "n = if_name (im_iface m)"
    and s'_def: "s' = remember n (im_id m) idx (im_polling_enabled m') (s\<lparr>in_rows := replace_row m' (in_rows s)\<rparr>)"
  shows "rows_ok s' \<and> cache_ok s' \<and> same_ident (in_rows s) (in_rows s')"
proof -
  have rows: "in_rows s' = replace_row m' (in_rows s)" by (simp add: s'_def remember_def)
  have same: "same_ident (in_rows s) (in_rows s')"
    unfolding rows using assms(1) m k by (intro replace_row_ident) (simp_all add: rows_ok_def)
  have "\<exists>q \<in> set (in_rows s'). im_id q = ci_interface_id e \<and> if_name (im_iface q) = x \<and> im_polling_enabled q = ci_polling_enabled e"
    if "in_cache s' x = Some e" for x e
  proof (cases "x = n")
    case True
    then have "e = \<lparr>ci_interface_id = im_id m, ci_if_index = idx, ci_polling_enabled = im_polling_enabled m'\<rparr>"
      using that by (simp add: s'_def remember_def)
    moreover have "m' \<in> set (in_rows s')" using m k(1) unfolding rows replace_row_def by force
    ultimately show ?thesis using True k n by auto
  next
    case False
    then have "in_cache s x = Some e" using that by (simp add: s'_def remember_def)
    then obtain q where q: "q \<in> set (in_rows s)" "im_id q = ci_interface_id e" "if_name (im_iface q) = x" "im_polling_enabled q = ci_polling_enabled e"
      using assms(2) by (auto simp: cache_ok_def)
    have "im_id q \<noteq> im_id m" using False q(1,3) m n assms(1) by (metis distinct_map inj_onD rows_ok_def)
    then have "q \<in> set (in_rows s')" using q(1) k(1) unfolding rows replace_row_def by force
    then show ?thesis using q by blast
  qed
  then show ?thesis using same rows_ok_ident [OF assms(1) same] by (simp add: cache_ok_def)
qed

lemma resolve_keeps:
  assumes inv: "rows_ok s" "cache_ok s" and fresh: "new_id \<notin> im_id ` set (in_rows s)"
    and r: "resolve_interface_id env rules now new_id d s = ((i, polling), s')"
  shows "rows_ok s' \<and> cache_ok s' \<and>
    (\<forall>m \<in> set (in_rows s). \<exists>m' \<in> set (in_rows s'). im_id m' = im_id m \<and> if_name (im_iface m') = if_name (im_iface m)) \<and>
    (\<exists>m \<in> set (in_rows s'). im_id m = i \<and> if_name (im_iface m) = if_name (di_iface d) \<and> im_polling_enabled m = polling)"
proof (cases "in_cache s (if_name (di_iface d))")
  case (Some e)
  then obtain m where m: "m \<in> set (in_rows s)" "im_id m = ci_interface_id e" "if_name (im_iface m) = if_name (di_iface d)"
    "im_polling_enabled m = ci_polling_enabled e" using inv(2) by (auto simp: cache_ok_def)
  show ?thesis
  proof (cases "ci_if_index e = di_if_index d")
    case True
    then show ?thesis using r Some m inv by (auto simp: resolve_interface_id_def Let_def)
  next
    case False
    obtain q where q: "row_by_id (ci_interface_id e) s = Some q"
      using m(1,2) by (cases "row_by_id (ci_interface_id e) s") (auto simp: row_by_id_def find_None_iff)
    then have "q = m" using row_by_id_Some [OF q] m(1,2) inv(1) by (metis distinct_map inj_onD rows_ok_def)
    let ?m = "moved_row env rules now d m"
    have "resolve_interface_id env rules now new_id d s =
        ((im_id m, im_polling_enabled ?m),
         remember (if_name (di_iface d)) (im_id m) (di_if_index d) (im_polling_enabled ?m) (s\<lparr>in_rows := replace_row ?m (in_rows s)\<rparr>))"
      using Some False q unfolding \<open>q = m\<close> m(2) by (simp add: resolve_interface_id_def Let_def)
    then have s': "s' = remember (if_name (di_iface d)) (im_id m) (di_if_index d) (im_polling_enabled ?m) (s\<lparr>in_rows := replace_row ?m (in_rows s)\<rparr>)"
      and i: "i = im_id m" "polling = im_polling_enabled ?m"
      using r by simp_all
    have k: "rows_ok s' \<and> cache_ok s' \<and> same_ident (in_rows s) (in_rows s')"
      by (rule remember_replaced [OF inv m(1) moved_row_keeps m(3) [symmetric] s'])
    have "?m \<in> set (in_rows s')" using m(1) moved_row_keeps(1) [of env rules now d m] by (force simp: s' remember_def replace_row_def)
    moreover have "im_id ?m = i" "if_name (im_iface ?m) = if_name (di_iface d)"
      using i(1) m(3) moved_row_keeps [of env rules now d m] by simp_all
    ultimately show ?thesis using k same_ident_mem i(2) by blast
  qed
next
  case None
  show ?thesis
  proof (cases "row_by_name (if_name (di_iface d)) s")
    case m: (Some m)
    note m' = row_by_name_Some [OF m]
    let ?m = "reindexed_row now d m"
    have s': "s' = remember (if_name (di_iface d)) (im_id m) (di_if_index d) (im_polling_enabled ?m) (s\<lparr>in_rows := replace_row ?m (in_rows s)\<rparr>)"
      and i: "i = im_id m" "polling = im_polling_enabled ?m"
      using r [symmetric] None m by (auto simp: resolve_interface_id_def Let_def reindexed_row_keeps)
    have k: "rows_ok s' \<and> cache_ok s' \<and> same_ident (in_rows s) (in_rows s')"
      using m' reindexed_row_keeps [of now d m] by (intro remember_replaced [OF inv _ _ _ _ s']) simp_all
    have "?m \<in> set (in_rows s')" using m' reindexed_row_keeps [of now d m] by (force simp: s' remember_def replace_row_def)
    then show ?thesis using k same_ident_mem i m' reindexed_row_keeps [of now d m] by auto
  next
    case no: None
    let ?m = "new_row env rules now d new_id"
    have s': "s' = remember (if_name (di_iface d)) new_id (di_if_index d) (im_polling_enabled ?m) (s\<lparr>in_rows := in_rows s @ [?m]\<rparr>)"
      and i: "i = new_id" "polling = im_polling_enabled ?m"
      using r [symmetric] None no by (auto simp: resolve_interface_id_def Let_def new_row_is)
    have "rows_ok s'" using inv(1) fresh row_by_name_None [OF no] by (simp add: rows_ok_def s' remember_def new_row_is)
    moreover have "cache_ok s'"
      using inv(2) None by (auto simp: cache_ok_def s' remember_def new_row_is split: if_splits)
    ultimately show ?thesis using i by (auto simp: s' remember_def new_row_is)
  qed
qed

lemma apply_all_keeps:
  assumes "rows_ok s" and "cache_ok s" and "apply_rules_to_rows env rules force now (in_rows s) su = Inr (rows, su', names)"
  defines "s' \<equiv> s\<lparr>in_rows := rows, in_cache := (\<lambda>n. if n \<in> set names then None else in_cache s n)\<rparr>"
  shows "rows_ok s' \<and> cache_ok s' \<and> same_ident (in_rows s) (in_rows s')"
proof -
  note k = apply_rows_keeps [OF assms(3)]
  then have same: "same_ident (in_rows s) (in_rows s')" by (simp add: s'_def)
  have "\<exists>q \<in> set (in_rows s'). im_id q = ci_interface_id e \<and> if_name (im_iface q) = n \<and> im_polling_enabled q = ci_polling_enabled e"
    if c: "in_cache s' n = Some e" for n e
  proof -
    have n: "n \<notin> set names" "in_cache s n = Some e" using c by (auto simp: s'_def split: if_splits)
    then obtain q where q: "q \<in> set (in_rows s)" "im_id q = ci_interface_id e" "if_name (im_iface q) = n" "im_polling_enabled q = ci_polling_enabled e"
      using assms(2) by (auto simp: cache_ok_def)
    obtain j where j: "j < length (in_rows s)" "q = in_rows s ! j" using q(1) by (metis in_set_conv_nth)
    have l: "length rows = length (in_rows s)" by (rule list_all2_lengthD [OF conjunct2 [OF k], symmetric])
    have "im_polling_enabled (rows ! j) = im_polling_enabled q"
      using list_all2_nthD [OF conjunct2 [OF k] j(1)] n(1) q(3) unfolding j(2) by blast
    moreover have "im_id (rows ! j) = im_id q" "if_name (im_iface (rows ! j)) = if_name (im_iface q)"
      using k j l unfolding same_ident_def by (metis nth_map)+
    ultimately show ?thesis using q j l by (auto simp: s'_def intro!: bexI [of _ "rows ! j"])
  qed
  then show ?thesis using same rows_ok_ident [OF assms(1) same] by (simp add: cache_ok_def)
qed

lemma interface_step_inv:
  assumes inv: "identity_inv sa" and st: "interface_step env e sa = Some sa'"
  shows "identity_inv sa'"
proof -
  obtain s answers where sa: "sa = (s, answers)" by (cases sa)
  have ok: "rows_ok s" "cache_ok s" and ans: "\<And>n i. (n, i) \<in> set answers \<Longrightarrow> \<exists>m \<in> set (in_rows s). im_id m = i \<and> if_name (im_iface m) = n"
    using inv by (auto simp: identity_inv_def sa)
  show ?thesis
  proof (cases e)
    case (Resolve rules now new_id d)
    obtain i polling s' where r: "resolve_interface_id env rules now new_id d s = ((i, polling), s')" by (metis surj_pair)
    have f: "new_id \<notin> im_id ` set (in_rows s)" using st by (auto simp: Resolve sa split: if_splits)
    then have sa': "sa' = (s', (if_name (di_iface d), i) # answers)" using st r by (simp add: Resolve sa)
    note k = resolve_keeps [OF ok f r]
    show ?thesis using k ans unfolding identity_inv_def sa' by fastforce
  next
    case (Expire name)
    then show ?thesis using st ok ans by (auto simp: sa identity_inv_def rows_ok_def cache_ok_def split: if_splits)
  next
    case (Apply_Rules rules force now)
    show ?thesis
    proof (cases "apply_rules_to_all_interfaces env rules force now (in_rows s)")
      case Inl
      then show ?thesis using st inv by (simp add: sa Apply_Rules)
    next
      case (Inr t)
      obtain rows su names where t: "t = (rows, su, names)" by (cases t)
      let ?s = "s\<lparr>in_rows := rows, in_cache := (\<lambda>n. if n \<in> set names then None else in_cache s n)\<rparr>"
      have sa': "sa' = (?s, answers)" using st Inr by (simp add: sa Apply_Rules t)
      have k: "rows_ok ?s \<and> cache_ok ?s \<and> same_ident (in_rows s) (in_rows ?s)"
        using Inr unfolding t apply_rules_to_all_interfaces_def by (rule apply_all_keeps [OF ok])
      show ?thesis using k ans answers_ident unfolding identity_inv_def sa' by (fastforce simp del: interfaces.simps)
    qed
  qed
qed

text \<open>
  A changed description, alias or speed is not seen unless the interface is cached under another
  index.
\<close>

lemma metadata_change_unnoticed:
  assumes "rows_ok s" and "row_by_name (if_name (di_iface d)) s = Some m"
    and "\<And>e. in_cache s (if_name (di_iface d)) = Some e \<Longrightarrow> ci_if_index e = di_if_index d"
  shows "map im_iface (in_rows (snd (resolve_interface_id env rules now new_id d s))) = map im_iface (in_rows s)"
proof (cases "in_cache s (if_name (di_iface d))")
  case (Some e)
  then show ?thesis using assms(3) by (simp add: resolve_interface_id_def Let_def)
next
  case None
  have "r = m" if "r \<in> set (in_rows s)" "im_id r = im_id m" for r
    using assms(1) that row_by_name_Some [OF assms(2)] by (metis distinct_map inj_onD rows_ok_def)
  then show ?thesis
    using None assms(2) by (auto simp: resolve_interface_id_def Let_def remember_def replace_row_def reindexed_row_keeps)
qed

interpretation interface_system: event_system "interface_step env" identity_inv for env
  by unfold_locales (rule interface_step_inv)

lemma identity_answer:
  "identity_inv (s, answers) \<Longrightarrow> (n, i) \<in> set answers \<Longrightarrow> \<exists>m \<in> set (in_rows s). im_id m = i \<and> if_name (im_iface m) = n"
  by (auto simp: identity_inv_def)

definition no_interfaces :: interfaces where
  "no_interfaces = \<lparr>in_rows = [], in_cache = (\<lambda>_. None)\<rparr>"


definition demo_found :: "string \<Rightarrow> int \<Rightarrow> discovered" where
  "demo_found n idx = \<lparr>di_iface = demo_iface\<lparr>if_name := n\<rparr>, di_if_index = idx\<rparr>"

definition demo_events :: "interface_event list" where
  "demo_events = [Resolve [] 1 ''a'' (demo_found ''eth0'' 1), Resolve [] 2 ''b'' (demo_found ''eth1'' 2), Expire ''eth0'',
     Resolve [] 3 ''c'' (demo_found ''eth0'' 9)]"


end
