(* ===== verification/Templates.thy ===== *)
theory Templates
  imports Interface_Identity "HOL-Library.List_Lexorder" "HOL-Library.Char_ord" "HOL-Library.Product_Lexorder"
begin

text \<open>
  Monitoring templates: the merging of their configurations along the hierarchy
  (\<open>templates/resolver.py\<close>) and what applying the result does to a device (\<open>apply_config_to_device\<close> of
  \<open>templates/router.py\<close>).  A configuration is free-form JSON, so each step can meet a value of another
  shape and raise.
\<close>

section \<open>Access to JSON\<close>

type_synonym config = "(string, json) dict"

definition jget :: "config \<Rightarrow> string \<Rightarrow> json" where
  "jget d k = dict_get d k JNull"

text \<open>\<open>v.get(k)\<close>, iteration over \<open>v\<close>, and \<open>dict.update(v)\<close>.\<close>

fun as_dict :: "json \<Rightarrow> py_error + config" where
  "as_dict (JObj d) = Inr d"
| "as_dict _ = Inl AttributeError"

fun iterate :: "json \<Rightarrow> py_error + json list" where
  "iterate (JArr xs) = Inr xs"
| "iterate (JObj d) = Inr (map (\<lambda>(k, v). JStr k) d)"
| "iterate (JStr s) = Inr (map (\<lambda>c. JStr [c]) s)"
| "iterate _ = Inl TypeError"

fun dict_update :: "config \<Rightarrow> json \<Rightarrow> py_error + config" where
  "dict_update d (JObj e) = Inr (fold (\<lambda>(k, v). dict_set k v) e d)"
| "dict_update d _ = Inl ValueError"

fun each :: "('a \<Rightarrow> 's \<Rightarrow> 'e + 's) \<Rightarrow> 'a list \<Rightarrow> 's \<Rightarrow> 'e + 's" where
  "each f [] s = Inr s"
| "each f (x # xs) s = ebind (f x s) (each f xs)"

section \<open>Merging\<close>

definition setdefault :: "string \<Rightarrow> json \<Rightarrow> config \<Rightarrow> config" where
  "setdefault k v d = (if k \<in> set (dict_keys d) then d else dict_set k v d)"

definition ROLES :: "string list" where "ROLES = [''availability'', ''latency'', ''interface'']"

text \<open>\<open>result["monitoring"][role] = v\<close>\<close>

definition set_role :: "string \<Rightarrow> json \<Rightarrow> config \<Rightarrow> py_error + config" where
  "set_role role v result =
     (case jget result ''monitoring'' of
        JObj m \<Rightarrow> Inr (dict_set ''monitoring'' (JObj (dict_set role v m)) result)
      | _ \<Rightarrow> Inl TypeError)"

definition merge_monitoring :: "json \<Rightarrow> config \<Rightarrow> py_error + config" where
  "merge_monitoring ov result =
     (if \<not> json_true ov then Inr result
      else each (\<lambda>role result. ebind (as_dict ov) (\<lambda>m.
             if json_true (jget m role) then set_role role (jget m role) result else Inr result))
             ROLES (setdefault ''monitoring'' (JObj []) result))"

text \<open>The dict of the apps by name; the name of an entry is a string, or is skipped when falsy.\<close>

definition add_app :: "json \<Rightarrow> (string, json) dict \<Rightarrow> py_error + (string, json) dict" where
  "add_app a apps =
     ebind (as_dict a) (\<lambda>d.
       if json_true (jget d ''app_name'')
       then (case jget d ''app_name'' of JStr n \<Rightarrow> Inr (dict_set n a apps) | _ \<Rightarrow> Inl TypeError)
       else Inr apps)"

definition merge_apps :: "json \<Rightarrow> config \<Rightarrow> py_error + config" where
  "merge_apps ov result =
     (if \<not> json_true ov then Inr result
      else ebind (iterate (dict_get result ''apps'' (JArr []))) (\<lambda>base.
           ebind (each add_app base []) (\<lambda>existing.
           ebind (iterate ov) (\<lambda>entries.
           ebind (each add_app entries existing) (\<lambda>apps.
           Inr (dict_set ''apps'' (JArr (dict_values apps)) result))))))"

definition merge_dict :: "string \<Rightarrow> json \<Rightarrow> config \<Rightarrow> py_error + config" where
  "merge_dict key ov result =
     (if \<not> json_true ov then Inr result
      else let result = setdefault key (JObj []) result
           in ebind (as_dict (jget result key)) (\<lambda>d.
              ebind (dict_update d ov) (\<lambda>d'. Inr (dict_set key (JObj d') result))))"

definition merge_scalar :: "string \<Rightarrow> json \<Rightarrow> config \<Rightarrow> py_error + config" where
  "merge_scalar key ov result = Inr (if json_true ov then dict_set key ov result else result)"

definition merge_rules :: "json \<Rightarrow> config \<Rightarrow> py_error + config" where
  "merge_rules ov result =
     (if \<not> json_true ov then Inr result
      else let result = setdefault ''interface_rules'' (JArr []) result
           in case jget result ''interface_rules'' of
                JArr rs \<Rightarrow> ebind (iterate ov) (\<lambda>more. Inr (dict_set ''interface_rules'' (JArr (rs @ more)) result))
              | _ \<Rightarrow> Inl AttributeError)"

definition merge_configs :: "config \<Rightarrow> config \<Rightarrow> py_error + config" where
  "merge_configs base ov =
     ebind (merge_monitoring (jget ov ''monitoring'') base) (\<lambda>r.
     ebind (merge_apps (jget ov ''apps'') r) (\<lambda>r.
     ebind (merge_dict ''labels'' (jget ov ''labels'') r) (\<lambda>r.
     ebind (merge_dict ''credentials'' (jget ov ''credentials'') r) (\<lambda>r.
     ebind (merge_scalar ''default_collector_group_id'' (jget ov ''default_collector_group_id'') r) (\<lambda>r.
     merge_rules (jget ov ''interface_rules'') r)))))"

section \<open>The hierarchy\<close>

record binding =
  bd_priority :: int
  bd_template_id :: string
  bd_template_name :: string
  bd_config :: config

record source_template =
  so_template_id :: string
  so_template_name :: string
  so_level :: string
  so_step :: int

definition binding_key :: "binding \<Rightarrow> int \<times> string" where
  "binding_key b = (bd_priority b, bd_template_name b)"

definition source_of :: "string \<Rightarrow> binding \<Rightarrow> source_template" where
  "source_of level b =
     \<lparr>so_template_id = bd_template_id b, so_template_name = bd_template_name b, so_level = level, so_step = bd_priority b\<rparr>"

text \<open>The bindings in the database: of a category by its name, of a device type by its id.\<close>

record bindings =
  bs_category :: "string \<Rightarrow> binding list"
  bs_type :: "string \<Rightarrow> binding list"

definition merge_phase :: "string \<Rightarrow> binding list \<Rightarrow> config \<times> source_template list \<Rightarrow> py_error + (config \<times> source_template list)" where
  "merge_phase level bs =
     each (\<lambda>b (merged, sources). ebind (merge_configs merged (bd_config b)) (\<lambda>m. Inr (m, sources @ [source_of level b])))
       (sort_key binding_key bs)"

text \<open>\<open>None\<close> and the empty string are falsy.\<close>

definition named :: "string option \<Rightarrow> (string \<Rightarrow> binding list) \<Rightarrow> binding list" where
  "named k f = (case k of None \<Rightarrow> [] | Some s \<Rightarrow> if s = [] then [] else f s)"

definition resolve_templates_for_device ::
    "bindings \<Rightarrow> string option \<Rightarrow> string option \<Rightarrow> py_error + (config \<times> source_template list)" where
  "resolve_templates_for_device bs category type_id =
     ebind (merge_phase ''category'' (named category (bs_category bs)) ([], []))
       (merge_phase ''device_type'' (named type_id (bs_type bs)))"

record templated_device =
  td_id :: string
  td_device_category :: "string option"
  td_device_type_id :: "string option"

type_synonym resolve_cache = "(string option \<times> string option, config \<times> source_template list) dict"

definition type_key :: "string option \<Rightarrow> string option" where
  "type_key t = (case t of None \<Rightarrow> None | Some s \<Rightarrow> if s = [] then None else Some s)"

fun resolve_batch ::
    "bindings \<Rightarrow> templated_device list \<Rightarrow> resolve_cache \<Rightarrow> py_error + (string \<times> config \<times> source_template list) list" where
  "resolve_batch bs [] cache = Inr []"
| "resolve_batch bs (d # ds) cache =
     (let key = (td_device_category d, type_key (td_device_type_id d))
      in case map_of cache key of
           Some r \<Rightarrow> ebind (resolve_batch bs ds cache) (\<lambda>rs. Inr ((td_id d, r) # rs))
         | None \<Rightarrow>
             ebind (resolve_templates_for_device bs (td_device_category d) (td_device_type_id d)) (\<lambda>r.
             ebind (resolve_batch bs ds (dict_set key r cache)) (\<lambda>rs. Inr ((td_id d, r) # rs))))"

definition resolve_templates_for_devices ::
    "bindings \<Rightarrow> templated_device list \<Rightarrow> py_error + (string \<times> config \<times> source_template list) list" where
  "resolve_templates_for_devices bs ds = resolve_batch bs ds []"

section \<open>Applying a configuration\<close>

record template_app =
  tp_id :: string
  tp_name :: string
  tp_target_table :: string

record template_assignment =
  ta_app_id :: string
  ta_device_id :: string
  ta_version_id :: string
  ta_config :: json
  ta_schedule_type :: json
  ta_schedule_value :: json
  ta_role :: json
  ta_credential_id :: "string option"
  ta_enabled :: bool
  ta_use_latest :: bool
  ta_updated_at :: int

record target_device =
  dv_id :: string
  dv_labels :: json
  dv_credentials :: json
  dv_collector_group_id :: "string option"
  dv_interface_rules :: json
  dv_updated_at :: int

text \<open>
  The database around the device: the apps by name, the newest version of an app, the parsing of a
  UUID and \<open>str\<close> of a list or dict.
\<close>

record template_env =
  te_app :: "string \<Rightarrow> template_app option"
  te_latest :: "string \<Rightarrow> string option"
  te_uuid :: "string \<Rightarrow> string option"
  te_repr :: "json \<Rightarrow> string"
  te_rules :: rule_env

record device_state =
  ds_device :: target_device
  ds_assignments :: "template_assignment list"
  ds_interfaces :: interfaces

definition ROLE_TARGET_TABLE :: "(string, string) dict" where
  "ROLE_TARGET_TABLE = [(''availability'', ''availability_latency''), (''latency'', ''availability_latency''), (''interface'', ''interface'')]"

fun py_str :: "template_env \<Rightarrow> json \<Rightarrow> string" where
  "py_str env JNull = ''None''"
| "py_str env (JBool b) = (if b then ''True'' else ''False'')"
| "py_str env (JInt i) = str_int i"
| "py_str env (JNum v) = py_repr v"
| "py_str env (JStr s) = s"
| "py_str env v = te_repr env v"

definition resolve_credential_id :: "template_env \<Rightarrow> json \<Rightarrow> string option" where
  "resolve_credential_id env v = (case v of JStr s \<Rightarrow> if s = [] then None else te_uuid env s | _ \<Rightarrow> None)"

text \<open>A name is compared with a text column, which takes no other value.\<close>

definition find_app :: "template_env \<Rightarrow> json \<Rightarrow> py_error + template_app option" where
  "find_app env v = (case v of JStr n \<Rightarrow> Inr (te_app env n) | _ \<Rightarrow> Inl DatabaseError)"

text \<open>Update the only assignment of the app to the device, or add one; two are an exception.\<close>

definition upsert ::
    "string \<Rightarrow> string \<Rightarrow> (template_assignment \<Rightarrow> template_assignment) \<Rightarrow> template_assignment \<Rightarrow> template_assignment list \<Rightarrow>
     py_error + template_assignment list" where
  "upsert app_id device_id upd new as =
     (case filter (\<lambda>a. ta_app_id a = app_id \<and> ta_device_id a = device_id) as of
        [] \<Rightarrow> Inr (as @ [new])
      | [_] \<Rightarrow> Inr (map (\<lambda>a. if ta_app_id a = app_id \<and> ta_device_id a = device_id then upd a else a) as)
      | _ \<Rightarrow> Inl DatabaseError)"

definition assign_monitoring ::
    "template_env \<Rightarrow> int \<Rightarrow> string \<Rightarrow> string \<Rightarrow> config \<Rightarrow> template_app \<Rightarrow> string \<Rightarrow> template_assignment list \<Rightarrow> py_error + template_assignment list" where
  "assign_monitoring env now device_id role c app version as =
     (let conf = dict_get c ''config'' (JObj []);
          interval = JStr (py_str env (dict_get c ''interval_seconds'' (JInt 60)));
          cred = resolve_credential_id env (jget c ''credential_id'')
      in upsert (tp_id app) device_id
           (\<lambda>a. a\<lparr>ta_version_id := version, ta_config := conf, ta_schedule_type := JStr ''interval'', ta_schedule_value := interval,
                  ta_role := JStr role, ta_credential_id := cred, ta_enabled := True, ta_use_latest := True, ta_updated_at := now\<rparr>)
           \<lparr>ta_app_id = tp_id app, ta_device_id = device_id, ta_version_id = version, ta_config = conf,
            ta_schedule_type = JStr ''interval'', ta_schedule_value = interval, ta_role = JStr role, ta_credential_id = cred,
            ta_enabled = True, ta_use_latest = True, ta_updated_at = now\<rparr> as)"

definition apply_role ::
    "template_env \<Rightarrow> int \<Rightarrow> string \<Rightarrow> config \<Rightarrow> string \<Rightarrow> template_assignment list \<Rightarrow> py_error + template_assignment list" where
  "apply_role env now device_id monitoring role as =
     (let check = jget monitoring role
      in if \<not> json_true check then Inr as
         else ebind (as_dict check) (\<lambda>c.
              if \<not> json_true (jget c ''app_name'') then Inr as
              else ebind (find_app env (jget c ''app_name'')) (\<lambda>r.
                   case r of
                     None \<Rightarrow> Inr as
                   | Some app \<Rightarrow>
                       (if Some (tp_target_table app) \<noteq> map_of ROLE_TARGET_TABLE role then Inr as
                        else case te_latest env (tp_id app) of
                               None \<Rightarrow> Inr as
                             | Some version \<Rightarrow> assign_monitoring env now device_id role c app version as))))"

definition assign_app ::
    "template_env \<Rightarrow> int \<Rightarrow> string \<Rightarrow> config \<Rightarrow> template_app \<Rightarrow> string \<Rightarrow> template_assignment list \<Rightarrow> py_error + template_assignment list" where
  "assign_app env now device_id c app version as =
     (let conf = dict_get c ''config'' (JObj []); stype = dict_get c ''schedule_type'' (JStr ''interval'');
          svalue = dict_get c ''schedule_value'' (JStr ''60''); cred = resolve_credential_id env (jget c ''credential_id'')
      in upsert (tp_id app) device_id
           (\<lambda>a. a\<lparr>ta_version_id := version, ta_config := conf, ta_schedule_type := stype, ta_schedule_value := svalue,
                  ta_credential_id := cred, ta_enabled := True, ta_use_latest := True, ta_updated_at := now\<rparr>)
           \<lparr>ta_app_id = tp_id app, ta_device_id = device_id, ta_version_id = version, ta_config = conf,
            ta_schedule_type = stype, ta_schedule_value = svalue, ta_role = jget c ''role'', ta_credential_id = cred,
            ta_enabled = True, ta_use_latest = True, ta_updated_at = now\<rparr> as)"

definition apply_app ::
    "template_env \<Rightarrow> int \<Rightarrow> string \<Rightarrow> json \<Rightarrow> template_assignment list \<Rightarrow> py_error + template_assignment list" where
  "apply_app env now device_id entry as =
     ebind (as_dict entry) (\<lambda>c.
     ebind (in_strings (jget c ''role'') (set ROLES)) (\<lambda>monitored.
       if monitored then Inr as
       else let name = (if json_true (jget c ''app_name'') then jget c ''app_name'' else jget c ''app_id'')
            in if \<not> json_true name then Inr as
               else ebind (find_app env name) (\<lambda>r.
                    case r of
                      None \<Rightarrow> Inr as
                    | Some app \<Rightarrow>
                        (case te_latest env (tp_id app) of
                           None \<Rightarrow> Inr as
                         | Some version \<Rightarrow> assign_app env now device_id c app version as))))"

definition update_column :: "json \<Rightarrow> json \<Rightarrow> py_error + json" where
  "update_column tmpl old =
     (if \<not> json_true tmpl then Inr old
      else ebind (if json_true old then as_dict old else Inr []) (\<lambda>d. ebind (dict_update d tmpl) (\<lambda>d'. Inr (JObj d'))))"

definition apply_group :: "template_env \<Rightarrow> json \<Rightarrow> string option \<Rightarrow> py_error + string option" where
  "apply_group env cg old =
     (if \<not> json_true cg then Inr old
      else case cg of
             JStr s \<Rightarrow> (case te_uuid env s of None \<Rightarrow> Inl ValueError | Some u \<Rightarrow> Inr (Some u))
           | _ \<Rightarrow> Inl AttributeError)"

definition apply_interface_rules :: "template_env \<Rightarrow> int \<Rightarrow> json \<Rightarrow> interfaces \<Rightarrow> py_error + interfaces" where
  "apply_interface_rules env now rules s =
     (if in_rows s = [] then Inr s
      else ebind (iterate rules) (\<lambda>rs.
           ebind (apply_rules_to_all_interfaces (te_rules env) rs False now (in_rows s)) (\<lambda>(rows, su, names).
           Inr (s\<lparr>in_rows := rows, in_cache := (\<lambda>n. if n \<in> set names then None else in_cache s n)\<rparr>))))"

definition apply_config_to_device :: "template_env \<Rightarrow> int \<Rightarrow> config \<Rightarrow> device_state \<Rightarrow> py_error + device_state" where
  "apply_config_to_device env now conf s =
     (let dv = ds_device s
      in ebind (update_column (jget conf ''labels'') (dv_labels dv)) (\<lambda>labels.
         ebind (update_column (jget conf ''credentials'') (dv_credentials dv)) (\<lambda>credentials.
         ebind (apply_group env (jget conf ''default_collector_group_id'') (dv_collector_group_id dv)) (\<lambda>cg.
         ebind (if json_true (jget conf ''monitoring'')
                then each (\<lambda>role as. ebind (as_dict (jget conf ''monitoring'')) (\<lambda>m. apply_role env now (dv_id dv) m role as))
                       ROLES (ds_assignments s)
                else Inr (ds_assignments s)) (\<lambda>as.
         ebind (iterate (dict_get conf ''apps'' (JArr []))) (\<lambda>entries.
         ebind (each (apply_app env now (dv_id dv)) entries as) (\<lambda>as.
         ebind (if json_true (jget conf ''interface_rules'')
                then apply_interface_rules env now (jget conf ''interface_rules'') (ds_interfaces s)
                else Inr (ds_interfaces s)) (\<lambda>ifs.
         Inr (s\<lparr>ds_device := dv\<lparr>dv_labels := labels, dv_credentials := credentials, dv_collector_group_id := cg,
                   dv_interface_rules := (if json_true (jget conf ''interface_rules'') then jget conf ''interface_rules'' else dv_interface_rules dv),
                   dv_updated_at := now\<rparr>,
                ds_assignments := as, ds_interfaces := ifs\<rparr>)))))))))"

end
