(* ===== verification/Templates_Props.thy ===== *)
theory Templates_Props
  imports Templates
begin

text \<open>
  Well-shaped templates merge without an exception and the last one of the hierarchy wins, for each
  role, app, label and credential; the batch is the device by device resolution; applying a
  configuration keeps one assignment per app and leaves other devices alone.
\<close>

section \<open>Views of a configuration\<close>

definition role_of :: "config \<Rightarrow> string \<Rightarrow> json" where
  "role_of c r = (case map_of c ''monitoring'' of Some (JObj m) \<Rightarrow> jget m r | _ \<Rightarrow> JNull)"

definition entry_of :: "string \<Rightarrow> config \<Rightarrow> string \<Rightarrow> json option" where
  "entry_of key c k = (case map_of c key of Some (JObj d) \<Rightarrow> map_of d k | _ \<Rightarrow> None)"

definition rules_of :: "config \<Rightarrow> json list" where
  "rules_of c = (case map_of c ''interface_rules'' of Some (JArr rs) \<Rightarrow> rs | _ \<Rightarrow> [])"

definition group_of :: "config \<Rightarrow> json" where
  "group_of c = jget c ''default_collector_group_id''"

definition app_name_is :: "string \<Rightarrow> json \<Rightarrow> bool" where
  "app_name_is n a = (case a of JObj d \<Rightarrow> jget d ''app_name'' = JStr n | _ \<Rightarrow> False)"

definition last_named :: "string \<Rightarrow> json list \<Rightarrow> json option" where
  "last_named n xs = find (app_name_is n) (rev xs)"

definition app_of :: "config \<Rightarrow> string \<Rightarrow> json option" where
  "app_of c n = (case map_of c ''apps'' of Some (JArr xs) \<Rightarrow> last_named n xs | _ \<Rightarrow> None)"

text \<open>The shape a template is meant to have.\<close>

definition app_ok :: "json \<Rightarrow> bool" where
  "app_ok a \<longleftrightarrow> (\<exists>d. a = JObj d \<and> ((\<exists>n. jget d ''app_name'' = JStr n) \<or> \<not> json_true (jget d ''app_name'')))"

definition config_ok :: "config \<Rightarrow> bool" where
  "config_ok c \<longleftrightarrow>
     (\<forall>v. map_of c ''monitoring'' = Some v \<longrightarrow> (\<exists>d. v = JObj d)) \<and>
     (\<forall>v. map_of c ''apps'' = Some v \<longrightarrow> (\<exists>xs. v = JArr xs \<and> (\<forall>a \<in> set xs. app_ok a))) \<and>
     (\<forall>v. map_of c ''labels'' = Some v \<longrightarrow> (\<exists>d. v = JObj d \<and> wf_dict d)) \<and>
     (\<forall>v. map_of c ''credentials'' = Some v \<longrightarrow> (\<exists>d. v = JObj d \<and> wf_dict d)) \<and>
     (\<forall>v. map_of c ''interface_rules'' = Some v \<longrightarrow> (\<exists>xs. v = JArr xs))"

lemma jget_map: "jget c k = (case map_of c k of None \<Rightarrow> JNull | Some v \<Rightarrow> v)"
  by (simp add: jget_def dict_get_def)

lemma jget_set [simp]: "jget (dict_set k v d) k' = (if k' = k then v else jget d k')"
  by (simp add: jget_map)

lemma map_of_setdefault: "map_of (setdefault k v d) k' = (if k' = k \<and> map_of d k = None then Some v else map_of d k')"
proof -
  have "k \<in> set (dict_keys d) \<longleftrightarrow> map_of d k \<noteq> None" by (metis map_of_eq_None_iff set_map)
  then show ?thesis by (auto simp: setdefault_def simp del: set_map)
qed

text \<open>A step that changes one key.\<close>

definition touches :: "string \<Rightarrow> config \<Rightarrow> config \<Rightarrow> bool" where
  "touches key c c' \<longleftrightarrow> (\<forall>k. k \<noteq> key \<longrightarrow> map_of c' k = map_of c k)"

lemma touchesD: "touches key c c' \<Longrightarrow> k \<noteq> key \<Longrightarrow> map_of c' k = map_of c k"
  by (simp add: touches_def)

section \<open>Merging the parts\<close>

lemma set_roles:
  assumes "distinct roles" and "map_of c ''monitoring'' = Some (JObj m0)"
  shows "\<exists>c' m'. each (\<lambda>role result. ebind (as_dict (JObj ov)) (\<lambda>m.
      if json_true (jget m role) then set_role role (jget m role) result else Inr result)) roles c = Inr c' \<and>
    touches ''monitoring'' c c' \<and> map_of c' ''monitoring'' = Some (JObj m') \<and>
    (\<forall>r. jget m' r = (if r \<in> set roles \<and> json_true (jget ov r) then jget ov r else jget m0 r))"
  using assms
proof (induction roles arbitrary: c m0)
  case (Cons role roles)
  show ?case
  proof (cases "json_true (jget ov role)")
    case True
    let ?c = "dict_set ''monitoring'' (JObj (dict_set role (jget ov role) m0)) c"
    have s: "set_role role (jget ov role) c = Inr ?c" using Cons.prems(2) by (simp add: set_role_def jget_map)
    obtain c' m' where c': "each (\<lambda>role result. ebind (as_dict (JObj ov)) (\<lambda>m.
        if json_true (jget m role) then set_role role (jget m role) result else Inr result)) roles ?c = Inr c'"
      "touches ''monitoring'' ?c c'" "map_of c' ''monitoring'' = Some (JObj m')"
      "\<forall>r. jget m' r = (if r \<in> set roles \<and> json_true (jget ov r) then jget ov r else jget (dict_set role (jget ov role) m0) r)"
      using Cons.IH [of ?c "dict_set role (jget ov role) m0"] Cons.prems(1) by auto
    have "touches ''monitoring'' c c'" using c'(2) by (simp add: touches_def)
    then show ?thesis using c' s True by auto
  next
    case False
    obtain c' m' where "each (\<lambda>role result. ebind (as_dict (JObj ov)) (\<lambda>m.
        if json_true (jget m role) then set_role role (jget m role) result else Inr result)) roles c = Inr c'"
      "touches ''monitoring'' c c'" "map_of c' ''monitoring'' = Some (JObj m')"
      "\<forall>r. jget m' r = (if r \<in> set roles \<and> json_true (jget ov r) then jget ov r else jget m0 r)"
      using Cons.IH [OF _ Cons.prems(2)] Cons.prems(1) by auto
    then show ?thesis using False by auto
  qed
qed (simp add: touches_def)

lemma merge_monitoring_ok:
  assumes "config_ok base" and "config_ok ov"
  shows "\<exists>c. merge_monitoring (jget ov ''monitoring'') base = Inr c \<and> touches ''monitoring'' base c \<and>
    (\<forall>v. map_of c ''monitoring'' = Some v \<longrightarrow> (\<exists>d. v = JObj d)) \<and>
    (\<forall>r \<in> set ROLES. role_of c r = (if json_true (role_of ov r) then role_of ov r else role_of base r))"
proof (cases "json_true (jget ov ''monitoring'')")
  case False
  have "\<not> json_true (role_of ov r)" for r
    using False assms(2) by (auto simp: role_of_def jget_map config_ok_def split: option.splits json.splits)
  then show ?thesis using False assms(1) by (auto simp: merge_monitoring_def touches_def config_ok_def)
next
  case True
  then obtain d where d: "map_of ov ''monitoring'' = Some (JObj d)"
    using assms(2) by (auto simp: jget_map config_ok_def split: option.splits)
  let ?b = "setdefault ''monitoring'' (JObj []) base"
  obtain m0 where m0: "map_of ?b ''monitoring'' = Some (JObj m0)" "\<And>r. jget m0 r = role_of base r"
    using assms(1) by (cases "map_of base ''monitoring''") (auto simp: map_of_setdefault role_of_def config_ok_def jget_map)
  have "distinct ROLES" by (simp add: ROLES_def)
  from set_roles [OF this m0(1), of d] obtain c m' where c: "merge_monitoring (jget ov ''monitoring'') base = Inr c"
    "touches ''monitoring'' ?b c" "map_of c ''monitoring'' = Some (JObj m')"
    "\<forall>r. jget m' r = (if r \<in> set ROLES \<and> json_true (jget d r) then jget d r else jget m0 r)"
    using True d by (auto simp: merge_monitoring_def jget_map)
  have "touches ''monitoring'' base c" using c(2) by (simp add: touches_def map_of_setdefault)
  then show ?thesis using c(1,3,4) m0(2) d by (auto simp: role_of_def)
qed

text \<open>The dict of the apps by name.\<close>

definition by_name :: "(string, json) dict \<Rightarrow> bool" where
  "by_name D \<longleftrightarrow> wf_dict D \<and> (\<forall>(n, a) \<in> set D. n \<noteq> [] \<and> app_name_is n a \<and> app_ok a)"

lemma dict_set_subset: "set (dict_set k v d) \<subseteq> insert (k, v) (set d)"
  by (induction d) auto

lemma find_of_append: "find P (xs @ ys) = (case find P xs of None \<Rightarrow> find P ys | Some x \<Rightarrow> Some x)"
  by (induction xs) auto

lemma add_app_ok:
  assumes "app_ok a" and "by_name D"
  shows "\<exists>D'. add_app a D = Inr D' \<and> by_name D' \<and> (\<forall>n. n \<noteq> [] \<longrightarrow> map_of D' n = (if app_name_is n a then Some a else map_of D n))"
proof -
  obtain d where d: "a = JObj d" and "(\<exists>n. jget d ''app_name'' = JStr n) \<or> \<not> json_true (jget d ''app_name'')"
    using assms(1) by (auto simp: app_ok_def)
  then consider n where "jget d ''app_name'' = JStr n" "n \<noteq> []" | "\<not> json_true (jget d ''app_name'')"
    by fastforce
  then show ?thesis
  proof cases
    case 1
    have "by_name (dict_set n a D)"
      using assms 1 d dict_set_subset [of n a D] unfolding by_name_def by (auto simp: app_name_is_def)
    then show ?thesis using 1 d by (auto simp: add_app_def app_name_is_def)
  next
    case 2
    then have "\<not> app_name_is n a" if "n \<noteq> []" for n using that by (auto simp: app_name_is_def d)
    then show ?thesis using 2 d assms(2) by (simp add: add_app_def)
  qed
qed

lemma each_add_app:
  "\<forall>a \<in> set xs. app_ok a \<Longrightarrow> by_name D \<Longrightarrow>
   \<exists>D'. each add_app xs D = Inr D' \<and> by_name D' \<and>
     (\<forall>n. n \<noteq> [] \<longrightarrow> map_of D' n = (case last_named n xs of None \<Rightarrow> map_of D n | Some a \<Rightarrow> Some a))"
proof (induction xs arbitrary: D)
  case (Cons a xs)
  obtain D1 where D1: "add_app a D = Inr D1" "by_name D1" "\<And>n. n \<noteq> [] \<Longrightarrow> map_of D1 n = (if app_name_is n a then Some a else map_of D n)"
    using add_app_ok Cons.prems by (metis list.set_intros(1))
  obtain D' where D': "each add_app xs D1 = Inr D'" "by_name D'"
    "\<And>n. n \<noteq> [] \<Longrightarrow> map_of D' n = (case last_named n xs of None \<Rightarrow> map_of D1 n | Some a \<Rightarrow> Some a)"
    using Cons.IH [OF _ D1(2)] Cons.prems(1) by auto
  have "last_named n (a # xs) = (case last_named n xs of None \<Rightarrow> if app_name_is n a then Some a else None | Some b \<Rightarrow> Some b)" for n
    by (simp add: last_named_def find_of_append split: option.split)
  then show ?case using D1 D' by (auto split: option.splits)
qed (simp add: last_named_def)

lemma last_named_values:
  assumes "by_name D" and "n \<noteq> []"
  shows "last_named n (dict_values D) = map_of D n"
proof -
  have "app_name_is n a \<longleftrightarrow> k = n" if "(k, a) \<in> set D" for k a
    using assms(1) that by (auto simp: by_name_def app_name_is_def split: json.splits)
  then have "find (app_name_is n) (dict_values E) = map_of E n" if "set E \<subseteq> set D" for E
    using that by (induction E) auto
  moreover have "map_of (rev D) = map_of D"
    using assms(1) by (subst map_of_inject_set) (auto simp: by_name_def rev_map [symmetric])
  ultimately show ?thesis by (simp add: last_named_def rev_map)
qed

lemma merge_apps_ok:
  assumes "config_ok base" and "config_ok ov"
  shows "\<exists>c. merge_apps (jget ov ''apps'') base = Inr c \<and> touches ''apps'' base c \<and>
    (\<forall>v. map_of c ''apps'' = Some v \<longrightarrow> (\<exists>xs. v = JArr xs \<and> (\<forall>a \<in> set xs. app_ok a))) \<and>
    (\<forall>n. n \<noteq> [] \<longrightarrow> app_of c n = (case app_of ov n of None \<Rightarrow> app_of base n | Some a \<Rightarrow> Some a))"
proof (cases "json_true (jget ov ''apps'')")
  case False
  have "app_of ov n = None" for n
    using False assms(2) by (auto simp: app_of_def jget_map config_ok_def last_named_def split: option.splits json.splits)
  then show ?thesis using False assms(1) by (auto simp: merge_apps_def touches_def config_ok_def)
next
  case True
  then obtain ys where ys: "map_of ov ''apps'' = Some (JArr ys)" "\<forall>a \<in> set ys. app_ok a"
    using assms(2) by (auto simp: jget_map config_ok_def split: option.splits)
  obtain xs where xs: "iterate (dict_get base ''apps'' (JArr [])) = Inr xs" "\<forall>a \<in> set xs. app_ok a"
    "\<And>n. app_of base n = last_named n xs"
    using assms(1) by (cases "map_of base ''apps''") (auto simp: config_ok_def dict_get_def app_of_def last_named_def)
  have "by_name []" by (simp add: by_name_def)
  from each_add_app [OF xs(2) this] obtain D where D0: "each add_app xs [] = Inr D" "by_name D"
    "\<forall>n. n \<noteq> [] \<longrightarrow> map_of D n = (case last_named n xs of None \<Rightarrow> map_of [] n | Some a \<Rightarrow> Some a)" by blast
  then have D: "each add_app xs [] = Inr D" "by_name D" "\<And>n. n \<noteq> [] \<Longrightarrow> map_of D n = last_named n xs"
    by (simp_all split: option.splits)
  obtain E where E: "each add_app ys D = Inr E" "by_name E"
    "\<And>n. n \<noteq> [] \<Longrightarrow> map_of E n = (case last_named n ys of None \<Rightarrow> map_of D n | Some a \<Rightarrow> Some a)"
    using each_add_app [OF ys(2) D(2)] by blast
  let ?c = "dict_set ''apps'' (JArr (dict_values E)) base"
  have "merge_apps (jget ov ''apps'') base = Inr ?c"
    using True ys(1) xs(1) D(1) E(1) by (simp add: merge_apps_def jget_map)
  moreover have "touches ''apps'' base ?c" by (simp add: touches_def)
  moreover have "\<forall>a \<in> set (dict_values E). app_ok a" using E(2) by (auto simp: by_name_def)
  moreover have "app_of ?c n = (case app_of ov n of None \<Rightarrow> app_of base n | Some a \<Rightarrow> Some a)" if "n \<noteq> []" for n
  proof -
    have "app_of ?c n = last_named n (dict_values E)" by (simp add: app_of_def)
    also have "\<dots> = (case last_named n ys of None \<Rightarrow> last_named n xs | Some a \<Rightarrow> Some a)"
      using last_named_values [OF E(2) that] E(3) [OF that] D(3) [OF that] by (simp only:)
    also have "last_named n ys = app_of ov n" by (simp add: app_of_def ys(1))
    finally show ?thesis by (simp only: xs(3))
  qed
  ultimately show ?thesis by auto
qed

lemma fold_dict_set:
  "wf_dict e \<Longrightarrow> map_of (fold (\<lambda>(k, v). dict_set k v) e d) k = (case map_of e k of None \<Rightarrow> map_of d k | Some v \<Rightarrow> Some v)"
  by (rule fold_update_get)

lemma wf_fold_dict_set: "wf_dict d \<Longrightarrow> wf_dict (fold (\<lambda>(k, v). dict_set k v) e d)"
  by (induction e arbitrary: d) auto

lemma merge_dict_ok:
  assumes b: "\<And>v. map_of base key = Some v \<Longrightarrow> \<exists>d. v = JObj d \<and> wf_dict d"
    and o: "\<And>v. map_of ov key = Some v \<Longrightarrow> \<exists>d. v = JObj d \<and> wf_dict d"
  shows "\<exists>c. merge_dict key (jget ov key) base = Inr c \<and> touches key base c \<and>
    (\<forall>v. map_of c key = Some v \<longrightarrow> (\<exists>d. v = JObj d \<and> wf_dict d)) \<and>
    (\<forall>k. entry_of key c k = (case entry_of key ov k of None \<Rightarrow> entry_of key base k | Some v \<Rightarrow> Some v))"
proof (cases "json_true (jget ov key)")
  case False
  have "entry_of key ov k = None" for k
    using False o by (fastforce simp: entry_of_def jget_map split: option.splits json.splits)
  then show ?thesis using False b by (auto simp: merge_dict_def touches_def)
next
  case True
  then obtain e where e: "map_of ov key = Some (JObj e)" "wf_dict e"
    using o by (fastforce simp: jget_map split: option.splits)
  let ?b = "setdefault key (JObj []) base"
  obtain d where d: "map_of ?b key = Some (JObj d)" "wf_dict d" "\<And>k. map_of d k = entry_of key base k"
    using b by (cases "map_of base key") (fastforce simp: map_of_setdefault entry_of_def)+
  let ?d = "fold (\<lambda>(k, v). dict_set k v) e d"
  let ?c = "dict_set key (JObj ?d) ?b"
  have "merge_dict key (jget ov key) base = Inr ?c"
    using True e(1) d(1) by (simp add: merge_dict_def jget_map Let_def)
  moreover have "touches key base ?c" by (simp add: touches_def map_of_setdefault)
  moreover have "wf_dict ?d" by (rule wf_fold_dict_set [OF d(2)])
  moreover have "entry_of key ?c k = (case entry_of key ov k of None \<Rightarrow> entry_of key base k | Some v \<Rightarrow> Some v)" for k
  proof -
    have "entry_of key ?c k = map_of ?d k" "entry_of key ov k = map_of e k" by (simp_all add: entry_of_def e(1))
    then show ?thesis using fold_dict_set [OF e(2), of d k] by (simp only: d(3))
  qed
  ultimately show ?thesis by auto
qed

lemma merge_rules_ok:
  assumes "config_ok base" and "config_ok ov"
  shows "\<exists>c. merge_rules (jget ov ''interface_rules'') base = Inr c \<and> touches ''interface_rules'' base c \<and>
    (\<forall>v. map_of c ''interface_rules'' = Some v \<longrightarrow> (\<exists>xs. v = JArr xs)) \<and> rules_of c = rules_of base @ rules_of ov"
proof (cases "json_true (jget ov ''interface_rules'')")
  case False
  have "rules_of ov = []"
    using False assms(2) by (auto simp: rules_of_def jget_map config_ok_def split: option.splits json.splits)
  then show ?thesis using False assms(1) by (auto simp: merge_rules_def touches_def config_ok_def)
next
  case True
  then obtain ys where ys: "map_of ov ''interface_rules'' = Some (JArr ys)"
    using assms(2) by (auto simp: jget_map config_ok_def split: option.splits)
  let ?b = "setdefault ''interface_rules'' (JArr []) base"
  obtain xs where xs: "map_of ?b ''interface_rules'' = Some (JArr xs)" "rules_of base = xs"
    using assms(1) by (cases "map_of base ''interface_rules''") (auto simp: map_of_setdefault rules_of_def config_ok_def)
  show ?thesis
    using True ys xs by (auto simp: merge_rules_def jget_map Let_def touches_def map_of_setdefault rules_of_def)
qed

section \<open>Merging two configurations\<close>

definition newer :: "'a option \<Rightarrow> 'a option \<Rightarrow> 'a option" where
  "newer old new = (case new of None \<Rightarrow> old | Some v \<Rightarrow> Some v)"

definition truer :: "json \<Rightarrow> json \<Rightarrow> json" where
  "truer old new = (if json_true new then new else old)"

definition merged :: "config \<Rightarrow> config \<Rightarrow> config \<Rightarrow> bool" where
  "merged base ov c \<longleftrightarrow>
     (\<forall>r \<in> set ROLES. role_of c r = truer (role_of base r) (role_of ov r)) \<and>
     (\<forall>n. n \<noteq> [] \<longrightarrow> app_of c n = newer (app_of base n) (app_of ov n)) \<and>
     (\<forall>key \<in> {''labels'', ''credentials''}. \<forall>k. entry_of key c k = newer (entry_of key base k) (entry_of key ov k)) \<and>
     group_of c = truer (group_of base) (group_of ov) \<and>
     rules_of c = rules_of base @ rules_of ov"

lemma config_ok_touches:
  assumes "config_ok c" and "touches key c c'"
    and "key = ''monitoring'' \<Longrightarrow> \<forall>v. map_of c' key = Some v \<longrightarrow> (\<exists>d. v = JObj d)"
    and "key = ''apps'' \<Longrightarrow> \<forall>v. map_of c' key = Some v \<longrightarrow> (\<exists>xs. v = JArr xs \<and> (\<forall>a \<in> set xs. app_ok a))"
    and "key \<in> {''labels'', ''credentials''} \<Longrightarrow> \<forall>v. map_of c' key = Some v \<longrightarrow> (\<exists>d. v = JObj d \<and> wf_dict d)"
    and "key = ''interface_rules'' \<Longrightarrow> \<forall>v. map_of c' key = Some v \<longrightarrow> (\<exists>xs. v = JArr xs)"
  shows "config_ok c'"
proof -
  have m: "map_of c' k = map_of c k" if "k \<noteq> key" for k using touchesD [OF assms(2) that] .
  show ?thesis
    unfolding config_ok_def
  proof (intro conjI)
    show "\<forall>v. map_of c' ''monitoring'' = Some v \<longrightarrow> (\<exists>d. v = JObj d)"
      using assms(1,3) m [of "''monitoring''"] by (cases "''monitoring'' = key") (auto simp: config_ok_def)
    show "\<forall>v. map_of c' ''apps'' = Some v \<longrightarrow> (\<exists>xs. v = JArr xs \<and> (\<forall>a \<in> set xs. app_ok a))"
      using assms(1,4) m [of "''apps''"] by (cases "''apps'' = key") (auto simp: config_ok_def)
    show "\<forall>v. map_of c' ''labels'' = Some v \<longrightarrow> (\<exists>d. v = JObj d \<and> wf_dict d)"
      using assms(1,5) m [of "''labels''"] by (cases "''labels'' = key") (auto simp: config_ok_def)
    show "\<forall>v. map_of c' ''credentials'' = Some v \<longrightarrow> (\<exists>d. v = JObj d \<and> wf_dict d)"
      using assms(1,5) m [of "''credentials''"] by (cases "''credentials'' = key") (auto simp: config_ok_def)
    show "\<forall>v. map_of c' ''interface_rules'' = Some v \<longrightarrow> (\<exists>xs. v = JArr xs)"
      using assms(1,6) m [of "''interface_rules''"] by (cases "''interface_rules'' = key") (auto simp: config_ok_def)
  qed
qed

text \<open>A view reads one key.\<close>

lemma view_touches:
  assumes "touches key c c'"
  shows "key \<noteq> ''monitoring'' \<Longrightarrow> role_of c' = role_of c" and "key \<noteq> ''apps'' \<Longrightarrow> app_of c' = app_of c"
    and "key \<noteq> k \<Longrightarrow> entry_of k c' = entry_of k c" and "key \<noteq> ''default_collector_group_id'' \<Longrightarrow> group_of c' = group_of c"
    and "key \<noteq> ''interface_rules'' \<Longrightarrow> rules_of c' = rules_of c"
  using touchesD [OF assms] by (auto simp: role_of_def app_of_def entry_of_def group_of_def rules_of_def jget_map fun_eq_iff)

lemma merge_configs_ok:
  assumes "config_ok base" and "config_ok ov"
  shows "\<exists>c. merge_configs base ov = Inr c \<and> config_ok c \<and> merged base ov c"
proof -
  obtain c1 where c1: "merge_monitoring (jget ov ''monitoring'') base = Inr c1" "touches ''monitoring'' base c1"
    "\<forall>v. map_of c1 ''monitoring'' = Some v \<longrightarrow> (\<exists>d. v = JObj d)"
    "\<forall>r \<in> set ROLES. role_of c1 r = (if json_true (role_of ov r) then role_of ov r else role_of base r)"
    using merge_monitoring_ok [OF assms] by blast
  have ok1: "config_ok c1" by (rule config_ok_touches [OF assms(1) c1(2)]) (use c1(3) in simp_all)
  obtain c2 where c2: "merge_apps (jget ov ''apps'') c1 = Inr c2" "touches ''apps'' c1 c2"
    "\<forall>v. map_of c2 ''apps'' = Some v \<longrightarrow> (\<exists>xs. v = JArr xs \<and> (\<forall>a \<in> set xs. app_ok a))"
    "\<forall>n. n \<noteq> [] \<longrightarrow> app_of c2 n = (case app_of ov n of None \<Rightarrow> app_of c1 n | Some a \<Rightarrow> Some a)"
    using merge_apps_ok [OF ok1 assms(2)] by blast
  have ok2: "config_ok c2" by (rule config_ok_touches [OF ok1 c2(2)]) (use c2(3) in simp_all)
  obtain c3 where c3: "merge_dict ''labels'' (jget ov ''labels'') c2 = Inr c3" "touches ''labels'' c2 c3"
    "\<forall>v. map_of c3 ''labels'' = Some v \<longrightarrow> (\<exists>d. v = JObj d \<and> wf_dict d)"
    "\<forall>k. entry_of ''labels'' c3 k = (case entry_of ''labels'' ov k of None \<Rightarrow> entry_of ''labels'' c2 k | Some v \<Rightarrow> Some v)"
    using merge_dict_ok [of c2 "''labels''" ov] ok2 assms(2) unfolding config_ok_def by blast
  have ok3: "config_ok c3" by (rule config_ok_touches [OF ok2 c3(2)]) (use c3(3) in simp_all)
  obtain c4 where c4: "merge_dict ''credentials'' (jget ov ''credentials'') c3 = Inr c4" "touches ''credentials'' c3 c4"
    "\<forall>v. map_of c4 ''credentials'' = Some v \<longrightarrow> (\<exists>d. v = JObj d \<and> wf_dict d)"
    "\<forall>k. entry_of ''credentials'' c4 k = (case entry_of ''credentials'' ov k of None \<Rightarrow> entry_of ''credentials'' c3 k | Some v \<Rightarrow> Some v)"
    using merge_dict_ok [of c3 "''credentials''" ov] ok3 assms(2) unfolding config_ok_def by blast
  have ok4: "config_ok c4" by (rule config_ok_touches [OF ok3 c4(2)]) (use c4(3) in simp_all)
  define c5 where "c5 = (if json_true (group_of ov) then dict_set ''default_collector_group_id'' (group_of ov) c4 else c4)"
  have c5: "merge_scalar ''default_collector_group_id'' (jget ov ''default_collector_group_id'') c4 = Inr c5"
    "touches ''default_collector_group_id'' c4 c5" "group_of c5 = truer (group_of c4) (group_of ov)"
    by (auto simp: merge_scalar_def c5_def group_of_def touches_def truer_def)
  have ok5: "config_ok c5" by (rule config_ok_touches [OF ok4 c5(2)]) simp_all
  obtain c6 where c6: "merge_rules (jget ov ''interface_rules'') c5 = Inr c6" "touches ''interface_rules'' c5 c6"
    "\<forall>v. map_of c6 ''interface_rules'' = Some v \<longrightarrow> (\<exists>xs. v = JArr xs)" "rules_of c6 = rules_of c5 @ rules_of ov"
    using merge_rules_ok [OF ok5 assms(2)] by blast
  have ok6: "config_ok c6" by (rule config_ok_touches [OF ok5 c6(2)]) (use c6(3) in simp_all)
  note v = view_touches [OF c1(2)] view_touches [OF c2(2)] view_touches [OF c3(2)] view_touches [OF c4(2)] view_touches [OF c5(2)] view_touches [OF c6(2)]
  have "merged base ov c6"
    unfolding merged_def
    using c1(4) c2(4) c3(4) c4(4) c5(3) c6(4) by (simp add: v truer_def newer_def cong: option.case_cong)
  then show ?thesis using c1(1) c2(1) c3(1) c4(1) c5(1) c6(1) ok6 by (simp add: merge_configs_def)
qed

section \<open>The hierarchy\<close>

definition hierarchy :: "bindings \<Rightarrow> string option \<Rightarrow> string option \<Rightarrow> binding list" where
  "hierarchy bs category type_id =
     sort_key binding_key (named category (bs_category bs)) @ sort_key binding_key (named type_id (bs_type bs))"

definition last_true :: "json list \<Rightarrow> json" where
  "last_true vs = fold (\<lambda>v acc. truer acc v) vs JNull"

definition last_some :: "'a option list \<Rightarrow> 'a option" where
  "last_some vs = fold (\<lambda>v acc. newer acc v) vs None"

definition folded :: "config \<Rightarrow> config list \<Rightarrow> config \<Rightarrow> bool" where
  "folded c0 cs c \<longleftrightarrow>
     (\<forall>r \<in> set ROLES. role_of c r = fold (\<lambda>v acc. truer acc v) (map (\<lambda>c. role_of c r) cs) (role_of c0 r)) \<and>
     (\<forall>n. n \<noteq> [] \<longrightarrow> app_of c n = fold (\<lambda>v acc. newer acc v) (map (\<lambda>c. app_of c n) cs) (app_of c0 n)) \<and>
     (\<forall>key \<in> {''labels'', ''credentials''}. \<forall>k.
        entry_of key c k = fold (\<lambda>v acc. newer acc v) (map (\<lambda>c. entry_of key c k) cs) (entry_of key c0 k)) \<and>
     group_of c = fold (\<lambda>v acc. truer acc v) (map group_of cs) (group_of c0) \<and>
     rules_of c = rules_of c0 @ concat (map rules_of cs)"

lemma folded_Cons: "merged c0 ov c1 \<Longrightarrow> folded c1 cs c \<Longrightarrow> folded c0 (ov # cs) c"
  unfolding folded_def merged_def by simp

lemma phase_ok:
  "\<forall>b \<in> set bs. config_ok (bd_config b) \<Longrightarrow> config_ok c0 \<Longrightarrow>
   \<exists>c. each (\<lambda>b (m, sources). ebind (merge_configs m (bd_config b)) (\<lambda>m. Inr (m, sources @ [source_of level b]))) bs (c0, src)
       = Inr (c, src @ map (source_of level) bs) \<and> config_ok c \<and> folded c0 (map bd_config bs) c"
proof (induction bs arbitrary: c0 src)
  case (Cons b bs)
  obtain c1 where c1: "merge_configs c0 (bd_config b) = Inr c1" "config_ok c1" "merged c0 (bd_config b) c1"
    using merge_configs_ok Cons.prems by fastforce
  obtain c where c: "each (\<lambda>b (m, sources). ebind (merge_configs m (bd_config b)) (\<lambda>m. Inr (m, sources @ [source_of level b]))) bs
      (c1, src @ [source_of level b]) = Inr (c, (src @ [source_of level b]) @ map (source_of level) bs)"
    "config_ok c" "folded c1 (map bd_config bs) c"
    using Cons.IH [OF _ c1(2)] Cons.prems(1) by fastforce
  then show ?case using c1 folded_Cons [OF c1(3) c(3)] by (intro exI [of _ c]) simp
qed (simp add: folded_def)

lemma folded_append: "folded c0 cs c1 \<Longrightarrow> folded c1 cs' c \<Longrightarrow> folded c0 (cs @ cs') c"
  unfolding folded_def by simp

text \<open>
  The last template of the hierarchy wins.  Well-shaped templates, merged from the category
  bindings to the type bindings, each by priority and name, never raise; the result has for each
  monitoring role and for the collector group the last value given, for each app, label and
  credential the last entry of that name, and the interface rules of all of them in order.
\<close>

theorem template_last_wins:
  assumes "\<forall>b \<in> set (hierarchy bs category type_id). config_ok (bd_config b)"
  defines "cs \<equiv> map bd_config (hierarchy bs category type_id)"
  shows "\<exists>c sources. resolve_templates_for_device bs category type_id = Inr (c, sources) \<and>
    map so_template_id sources = map bd_template_id (hierarchy bs category type_id) \<and>
    (\<forall>r \<in> set ROLES. role_of c r = last_true (map (\<lambda>c. role_of c r) cs)) \<and>
    (\<forall>n. n \<noteq> [] \<longrightarrow> app_of c n = last_some (map (\<lambda>c. app_of c n) cs)) \<and>
    (\<forall>key \<in> {''labels'', ''credentials''}. \<forall>k. entry_of key c k = last_some (map (\<lambda>c. entry_of key c k) cs)) \<and>
    group_of c = last_true (map group_of cs) \<and> rules_of c = concat (map rules_of cs)"
proof -
  let ?as = "sort_key binding_key (named category (bs_category bs))" and ?ts = "sort_key binding_key (named type_id (bs_type bs))"
  have h: "hierarchy bs category type_id = ?as @ ?ts" by (simp add: hierarchy_def)
  have e: "config_ok []" by (simp add: config_ok_def)
  have as: "\<forall>b \<in> set ?as. config_ok (bd_config b)" and ts: "\<forall>b \<in> set ?ts. config_ok (bd_config b)"
    using assms(1) unfolding h by auto
  obtain c1 where c1: "merge_phase ''category'' (named category (bs_category bs)) ([], []) = Inr (c1, map (source_of ''category'') ?as)"
    "config_ok c1" "folded [] (map bd_config ?as) c1"
    using phase_ok [OF as e, of "''category''" "[]"] unfolding merge_phase_def by auto
  obtain c where c: "merge_phase ''device_type'' (named type_id (bs_type bs)) (c1, map (source_of ''category'') ?as)
      = Inr (c, map (source_of ''category'') ?as @ map (source_of ''device_type'') ?ts)" "folded c1 (map bd_config ?ts) c"
    using phase_ok [OF ts c1(2), of "''device_type''" "map (source_of ''category'') ?as"] unfolding merge_phase_def by blast
  have f: "folded [] cs c"
    using folded_append [OF c1(3) c(2)] unfolding cs_def h map_append .
  define src where "src = map (source_of ''category'') ?as @ map (source_of ''device_type'') ?ts"
  have "resolve_templates_for_device bs category type_id = Inr (c, src)"
    using c1(1) c(1) by (simp add: resolve_templates_for_device_def src_def)
  moreover have "map so_template_id src = map bd_template_id (hierarchy bs category type_id)"
    by (simp add: h source_of_def src_def)
  moreover have "role_of [] r = JNull" "app_of [] n = None" "entry_of key [] k = None" "group_of [] = JNull" "rules_of [] = []" for r n key k
    by (simp_all add: role_of_def app_of_def entry_of_def group_of_def rules_of_def jget_map)
  ultimately show ?thesis
    using f unfolding folded_def last_true_def last_some_def
    by (intro exI [of _ c] exI [of _ src], simp only: append_Nil simp_thms)
qed

definition demo_bindings :: bindings where
  "demo_bindings =
     \<lparr>bs_category = (\<lambda>_. [\<lparr>bd_priority = 1, bd_template_id = ''t1'', bd_template_name = ''base'',
        bd_config = [(''labels'', JObj [(''site'', JStr ''a''), (''tier'', JStr ''x'')]),
                     (''monitoring'', JObj [(''latency'', JObj [(''app_name'', JStr ''ping'')])])]\<rparr>]),
      bs_type = (\<lambda>_. [\<lparr>bd_priority = 0, bd_template_id = ''t2'', bd_template_name = ''switch'',
        bd_config = [(''labels'', JObj [(''site'', JStr ''b'')])]\<rparr>])\<rparr>"

theorem template_last_wins_witness:
  "\<exists>c sources. resolve_templates_for_device demo_bindings (Some ''net'') (Some ''u'') = Inr (c, sources) \<and>
     entry_of ''labels'' c ''site'' = Some (JStr ''b'') \<and> entry_of ''labels'' c ''tier'' = Some (JStr ''x'')"
proof -
  let ?h = "hierarchy demo_bindings (Some ''net'') (Some ''u'')"
  have ok: "\<forall>b \<in> set ?h. config_ok (bd_config b)"
    by (auto simp: hierarchy_def named_def demo_bindings_def config_ok_def)
  obtain c src where c: "resolve_templates_for_device demo_bindings (Some ''net'') (Some ''u'') = Inr (c, src)"
    "\<forall>key \<in> {''labels'', ''credentials''}. \<forall>k. entry_of key c k = last_some (map (\<lambda>c. entry_of key c k) (map bd_config ?h))"
    using template_last_wins [OF ok] by blast
  have "entry_of ''labels'' c k = last_some (map (\<lambda>c. entry_of ''labels'' c k) (map bd_config ?h))" for k using c(2) by blast
  then have "entry_of ''labels'' c ''site'' = Some (JStr ''b'')" "entry_of ''labels'' c ''tier'' = Some (JStr ''x'')"
    by (simp_all add: hierarchy_def named_def demo_bindings_def entry_of_def last_some_def newer_def)
  then show ?thesis using c(1) by blast
qed

section \<open>The batch\<close>

fun resolve_each :: "bindings \<Rightarrow> templated_device list \<Rightarrow> py_error + (string \<times> config \<times> source_template list) list" where
  "resolve_each bs [] = Inr []"
| "resolve_each bs (d # ds) =
     ebind (resolve_templates_for_device bs (td_device_category d) (td_device_type_id d)) (\<lambda>r.
     ebind (resolve_each bs ds) (\<lambda>rs. Inr ((td_id d, r) # rs)))"

lemma named_type_key: "named (type_key t) f = named t f"
  by (auto simp: named_def type_key_def split: option.splits)

lemma resolve_type_key: "resolve_templates_for_device bs c (type_key t) = resolve_templates_for_device bs c t"
  by (simp add: resolve_templates_for_device_def named_type_key)

lemma resolve_batch_each:
  "\<forall>c t r. map_of cache (c, t) = Some r \<longrightarrow> resolve_templates_for_device bs c t = Inr r \<Longrightarrow> resolve_batch bs ds cache = resolve_each bs ds"
proof (induction ds arbitrary: cache)
  case (Cons d ds)
  let ?c = "td_device_category d" and ?t = "td_device_type_id d"
  show ?case
  proof (cases "map_of cache (?c, type_key ?t)")
    case (Some r)
    then have "resolve_templates_for_device bs ?c ?t = Inr r" using Cons.prems resolve_type_key by metis
    then show ?thesis using Some Cons.IH [OF Cons.prems] by (simp add: Let_def)
  next
    case None
    show ?thesis
    proof (cases "resolve_templates_for_device bs ?c ?t")
      case (Inr r)
      have "resolve_batch bs ds (dict_set (?c, type_key ?t) r cache) = resolve_each bs ds"
        using Cons.prems Inr resolve_type_key by (intro Cons.IH) auto
      then show ?thesis using None Inr by (simp add: Let_def)
    qed (simp add: None Let_def)
  qed
qed simp

text \<open>
  Resolving many devices at once, with its cache of what devices of one category and type
  share, gives what resolving each device by itself gives, exceptions included.
\<close>

theorem template_batch_is_single: "resolve_templates_for_devices bs ds = resolve_each bs ds"
  unfolding resolve_templates_for_devices_def by (rule resolve_batch_each) simp

section \<open>Applying a configuration\<close>

definition of_device :: "string \<Rightarrow> template_assignment list \<Rightarrow> string list" where
  "of_device d as = map ta_app_id (filter (\<lambda>a. ta_device_id a = d) as)"

definition keeps_others :: "string \<Rightarrow> template_assignment list \<Rightarrow> template_assignment list \<Rightarrow> bool" where
  "keeps_others d as as' \<longleftrightarrow>
     filter (\<lambda>a. ta_device_id a \<noteq> d) as' = filter (\<lambda>a. ta_device_id a \<noteq> d) as \<and>
     set (of_device d as) \<subseteq> set (of_device d as') \<and> (distinct (of_device d as) \<longrightarrow> distinct (of_device d as'))"

lemma keeps_others_refl: "keeps_others d as as"
  by (simp add: keeps_others_def)

lemma keeps_others_trans: "keeps_others d as as' \<Longrightarrow> keeps_others d as' as'' \<Longrightarrow> keeps_others d as as''"
  by (auto simp: keeps_others_def)

lemma each_keeps:
  assumes "\<And>x as as'. f x as = Inr as' \<Longrightarrow> keeps_others d as as'"
  shows "each f xs as = Inr as' \<Longrightarrow> keeps_others d as as'"
proof (induction xs arbitrary: as)
  case Nil
  then show ?case by (simp add: keeps_others_refl)
next
  case (Cons x xs)
  then obtain as1 where "f x as = Inr as1" "each f xs as1 = Inr as'" by auto
  then show ?case using assms Cons.IH keeps_others_trans by blast
qed

lemma upsert_keeps:
  assumes "upsert app d upd new as = Inr as'" and "\<And>a. ta_app_id (upd a) = ta_app_id a \<and> ta_device_id (upd a) = ta_device_id a"
    and "ta_app_id new = app" and "ta_device_id new = d"
  shows "keeps_others d as as'"
proof (cases "filter (\<lambda>a. ta_app_id a = app \<and> ta_device_id a = d) as")
  case Nil
  then have "as' = as @ [new]" using assms(1) by (simp add: upsert_def)
  moreover have "app \<notin> set (of_device d as)" using Nil by (auto simp: of_device_def filter_empty_conv)
  ultimately show ?thesis using assms(3,4) by (auto simp: keeps_others_def of_device_def)
next
  case (Cons x xs)
  let ?f = "\<lambda>a. if ta_app_id a = app \<and> ta_device_id a = d then upd a else a"
  have as': "as' = map ?f as" using assms(1) Cons by (auto simp: upsert_def split: list.splits)
  have "filter (\<lambda>a. ta_device_id a \<noteq> d) (map ?f as) = filter (\<lambda>a. ta_device_id a \<noteq> d) as"
    using assms(2) by (induction as) auto
  moreover have "of_device d (map ?f as) = of_device d as"
    using assms(2) unfolding of_device_def by (induction as) auto
  ultimately show ?thesis by (simp add: keeps_others_def as')
qed

lemma assign_monitoring_keeps: "assign_monitoring env now d role c app v as = Inr as' \<Longrightarrow> keeps_others d as as'"
  unfolding assign_monitoring_def Let_def by (erule upsert_keeps) simp_all

lemma assign_app_keeps: "assign_app env now d c app v as = Inr as' \<Longrightarrow> keeps_others d as as'"
  unfolding assign_app_def Let_def by (erule upsert_keeps) simp_all

lemma apply_role_keeps: "apply_role env now d m role as = Inr as' \<Longrightarrow> keeps_others d as as'"
  by (auto simp: apply_role_def Let_def keeps_others_refl assign_monitoring_keeps split: if_splits option.splits)

lemma apply_app_keeps: "apply_app env now d entry as = Inr as' \<Longrightarrow> keeps_others d as as'"
  by (auto simp: apply_app_def Let_def keeps_others_refl assign_app_keeps split: if_splits option.splits)

lemma apply_config_parts:
  assumes "apply_config_to_device env now conf s = Inr s'"
  shows "\<exists>as. (if json_true (jget conf ''monitoring'')
      then each (\<lambda>role as. ebind (as_dict (jget conf ''monitoring'')) (\<lambda>m. apply_role env now (dv_id (ds_device s)) m role as)) ROLES (ds_assignments s)
      else Inr (ds_assignments s)) = Inr as \<and>
    (\<exists>entries. each (apply_app env now (dv_id (ds_device s))) entries as = Inr (ds_assignments s'))"
  using assms unfolding apply_config_to_device_def Let_def by (elim ebind_InrE) auto

text \<open>
  Applying a configuration to a device changes no assignment of another device, removes none,
  and keeps at most one assignment per app on the device, however often it is applied.
\<close>

theorem template_apply_keeps_assignments:
  assumes "apply_config_to_device env now conf s = Inr s'"
  defines "d \<equiv> dv_id (ds_device s)"
  shows "filter (\<lambda>a. ta_device_id a \<noteq> d) (ds_assignments s') = filter (\<lambda>a. ta_device_id a \<noteq> d) (ds_assignments s) \<and>
    set (of_device d (ds_assignments s)) \<subseteq> set (of_device d (ds_assignments s')) \<and>
    (distinct (of_device d (ds_assignments s)) \<longrightarrow> distinct (of_device d (ds_assignments s')))"
proof -
  obtain as entries where a: "(if json_true (jget conf ''monitoring'')
      then each (\<lambda>role as. ebind (as_dict (jget conf ''monitoring'')) (\<lambda>m. apply_role env now d m role as)) ROLES (ds_assignments s)
      else Inr (ds_assignments s)) = Inr as"
    and b: "each (apply_app env now d) entries as = Inr (ds_assignments s')"
    using apply_config_parts [OF assms(1)] unfolding d_def by blast
  have "keeps_others d (ds_assignments s) as"
  proof (cases "json_true (jget conf ''monitoring'')")
    case True
    then have e: "each (\<lambda>role as. ebind (as_dict (jget conf ''monitoring'')) (\<lambda>m. apply_role env now d m role as)) ROLES (ds_assignments s) = Inr as"
      using a by simp
    show ?thesis by (rule each_keeps [OF _ e]) (auto intro: apply_role_keeps)
  qed (use a in \<open>simp add: keeps_others_refl\<close>)
  moreover have "keeps_others d as (ds_assignments s')" by (rule each_keeps [OF apply_app_keeps b])
  ultimately have "keeps_others d (ds_assignments s) (ds_assignments s')" by (rule keeps_others_trans)
  then show ?thesis by (simp add: keeps_others_def)
qed

definition demo_template_env :: template_env where
  "demo_template_env = \<lparr>te_app = (\<lambda>n. Some \<lparr>tp_id = n, tp_name = n, tp_target_table = ''availability_latency''\<rparr>),
     te_latest = (\<lambda>_. Some ''v1''), te_uuid = Some, te_repr = (\<lambda>_. []), te_rules = demo_env\<rparr>"

definition demo_state :: device_state where
  "demo_state = \<lparr>ds_device = \<lparr>dv_id = ''d'', dv_labels = JNull, dv_credentials = JNull, dv_collector_group_id = None,
     dv_interface_rules = JNull, dv_updated_at = 0\<rparr>, ds_assignments = [], ds_interfaces = no_interfaces\<rparr>"

definition both_roles :: config where
  "both_roles = [(''monitoring'', JObj [(''availability'', JObj [(''app_name'', JStr ''ping'')]), (''latency'', JObj [(''app_name'', JStr ''ping'')])])]"

text \<open>
  One app for both roles: the second upsert takes the assignment of the first over, and the device
  has no availability check.
\<close>

lemma template_shared_app_loses_role:
  "\<exists>s' a. apply_config_to_device demo_template_env 7 both_roles demo_state = Inr s' \<and> ds_assignments s' = [a] \<and> ta_role a = JStr ''latency''"
  by (simp add: apply_config_to_device_def demo_state_def both_roles_def jget_def dict_get_def update_column_def apply_group_def
      ROLES_def apply_role_def find_app_def demo_template_env_def ROLE_TARGET_TABLE_def assign_monitoring_def upsert_def resolve_credential_id_def)

theorem template_apply_keeps_assignments_witness:
  "\<exists>s'. apply_config_to_device demo_template_env 7 both_roles demo_state = Inr s' \<and> distinct (of_device ''d'' (ds_assignments s'))"
proof -
  obtain s' where s': "apply_config_to_device demo_template_env 7 both_roles demo_state = Inr s'"
    using template_shared_app_loses_role by blast
  then show ?thesis using template_apply_keeps_assignments [OF s'] by (simp add: demo_state_def of_device_def)
qed

text \<open>Templates are not validated: a null where an object belongs stops the merging.\<close>

lemma template_null_monitoring_raises:
  "merge_configs [(''monitoring'', JNull)] [(''monitoring'', JObj [(''latency'', JObj [(''app_name'', JStr ''ping'')])])] = Inl TypeError"
  by (simp add: merge_configs_def merge_monitoring_def jget_def dict_get_def setdefault_def ROLES_def set_role_def)

end
