(* ===== verification/Dsl_Lexer.thy ===== *)
theory Dsl_Lexer
  imports Prelude
begin

text \<open>
  The tokenizer of the alert DSL (\<open>alerting/dsl.py\<close>: \<open>_TOKEN_RE\<close>, \<open>_tokenize\<close>,
  the safety limits and the identifier guard), its error values, and what every token it
  produces looks like.
\<close>

section \<open>Safety limits\<close>

definition MAX_EXPRESSION_LENGTH :: nat where "MAX_EXPRESSION_LENGTH = 2000"
definition MAX_TOKEN_COUNT :: nat where "MAX_TOKEN_COUNT = 200"
definition MAX_NESTING_DEPTH :: nat where "MAX_NESTING_DEPTH = 10"
definition MAX_AGG_CALLS :: nat where "MAX_AGG_CALLS = 20"
definition MAX_ARITH_OPS :: nat where "MAX_ARITH_OPS = 30"
definition IDENTIFIER_MAX_LENGTH :: nat where "IDENTIFIER_MAX_LENGTH = 100"

section \<open>Tokens and errors\<close>

text \<open>
  The groups of \<open>_TOKEN_RE\<close> together with the three kinds a \<open>WORD\<close> is classified into;
  \<open>WORD\<close> and \<open>WS\<close> occur as regex groups only, never in a token list.
\<close>

datatype tkind = LPAREN | RPAREN | COMMA | OP | ARITH | NUMBER | STRING | WORD | WS
  | KEYWORD | AGG_FUNC | IDENT

type_synonym token = "tkind \<times> string"

text \<open>
  One constructor per \<open>raise\<close> of the module, with the data its message carries.
  \<open>FloatOverflow\<close> is the \<open>OverflowError\<close> of \<open>int(v)\<close> on an infinite float;
  \<open>OutOfFuel\<close> belongs to the model only and is shown never to be returned.
\<close>

datatype dsl_error =
    UnexpectedChar nat char
  | UnexpectedEnd
  | ExpectedKind tkind token
  | UnexpectedToken string
  | NestingExceeded
  | AggCallsExceeded
  | ArithOpsExceeded
  | ExpectedCondition
  | IdentTooLong string
  | ExpectedInAfterNot "string option"
  | ExpectedOperatorAfter string
  | ExpectedOperand
  | ExpectedAggNumberOrParen string
  | ExpectedMetricName
  | ExpectedThreshold
  | ExpectedThresholdGot string
  | ExpectedValue
  | ExpectedNumberOrString string
  | ExpectedInValue
  | ExpectedInValueAfterComma
  | EmptyExpression
  | ExpressionTooLong
  | TooManyTokens
  | InvalidIdentifier string string
  | IdentifierTooLongIn string string
  | InvalidCompareOp string
  | UnknownAggFunc string
  | FloatOverflow
  | OutOfFuel

section \<open>The identifier guard\<close>

definition word_shape :: "string \<Rightarrow> bool" where
  "word_shape s \<longleftrightarrow> s \<noteq> [] \<and> is_word_start (hd s) \<and> list_all is_word_char s"

text \<open>
  \<open>_SAFE_IDENT_RE.match\<close>: the \<open>$\<close> of the pattern also matches before a final newline.
\<close>

definition safe_ident :: "string \<Rightarrow> bool" where
  "safe_ident s \<longleftrightarrow>
     word_shape s \<or> (s \<noteq> [] \<and> code_of (last s) = 10 \<and> word_shape (butlast s))"

definition assert_safe_identifier :: "string \<Rightarrow> string \<Rightarrow> dsl_error + string" where
  "assert_safe_identifier v loc =
     (if \<not> safe_ident v then Inl (InvalidIdentifier loc v)
      else if IDENTIFIER_MAX_LENGTH < length v then Inl (IdentifierTooLongIn loc v)
      else Inr v)"

section \<open>Matching one token\<close>

definition AGG_FUNCS :: "string list" where
  "AGG_FUNCS = [''avg'', ''max'', ''min'', ''sum'', ''count'', ''last'', ''rate'']"

definition KEYWORDS :: "string list" where
  "KEYWORDS = [''AND'', ''OR'', ''IN'', ''NOT'', ''CHANGED'']"

text \<open>\<open>-?\d+(?:\.\d+)?\<close>\<close>

definition match_number :: "string \<Rightarrow> (string \<times> string) option" where
  "match_number s =
     (let (sg, r) = (case s of c # r \<Rightarrow> if c = CHR ''-'' then ([c], r) else ([], s) | [] \<Rightarrow> ([], s));
          ds = takeWhile is_digit r; r1 = dropWhile is_digit r
      in if ds = [] then None
         else case r1 of
             c # r2 \<Rightarrow>
               (if c = CHR ''.'' \<and> takeWhile is_digit r2 \<noteq> []
                then Some (sg @ ds @ c # takeWhile is_digit r2, dropWhile is_digit r2)
                else Some (sg @ ds, r1))
           | [] \<Rightarrow> Some (sg @ ds, r1))"

text \<open>A quoted string: everything up to the next occurrence of the same quote.\<close>

definition match_quoted :: "char \<Rightarrow> string \<Rightarrow> (string \<times> string) option" where
  "match_quoted q r =
     (case dropWhile (\<lambda>c. c \<noteq> q) r of
        [] \<Rightarrow> None
      | _ # rest \<Rightarrow> Some (q # takeWhile (\<lambda>c. c \<noteq> q) r @ [q], rest))"

definition is_op_start :: "char \<Rightarrow> bool" where
  "is_op_start c \<longleftrightarrow> c = CHR ''>'' \<or> c = CHR ''<'' \<or> c = CHR ''!''"

definition is_arith :: "char \<Rightarrow> bool" where
  "is_arith c \<longleftrightarrow> c = CHR ''+'' \<or> c = CHR ''-'' \<or> c = CHR ''*'' \<or> c = CHR ''/''"

definition with_kind :: "tkind \<Rightarrow> string \<times> string \<Rightarrow> tkind \<times> string \<times> string" where
  "with_kind k p = (k, fst p, snd p)"

definition QUOTE :: char where "QUOTE = char_of (39 :: nat)"
definition DQUOTE :: char where "DQUOTE = char_of (34 :: nat)"

text \<open>The alternatives of \<open>_TOKEN_RE\<close> in their order; the first that matches wins.\<close>

fun lex_one :: "string \<Rightarrow> (tkind \<times> string \<times> string) option" where
  "lex_one [] = None"
| "lex_one (c # r) =
     (if c = CHR ''('' then Some (LPAREN, [c], r)
      else if c = CHR '')'' then Some (RPAREN, [c], r)
      else if c = CHR '','' then Some (COMMA, [c], r)
      else if is_op_start c then
        (case r of
           d # r' \<Rightarrow> if d = CHR ''='' then Some (OP, [c, d], r') else Some (OP, [c], r)
         | [] \<Rightarrow> Some (OP, [c], r))
      else if c = CHR ''='' \<and> r \<noteq> [] \<and> hd r = CHR ''='' then Some (OP, [c, hd r], tl r)
      else if is_arith c then Some (ARITH, [c], r)
      else case match_number (c # r) of
          Some p \<Rightarrow> Some (with_kind NUMBER p)
        | None \<Rightarrow>
           (if c = QUOTE \<or> c = DQUOTE then map_option (with_kind STRING) (match_quoted c r)
            else if is_word_start c
              then Some (WORD, takeWhile is_word_char (c # r), dropWhile is_word_char (c # r))
            else if is_ws c
              then Some (WS, takeWhile is_ws (c # r), dropWhile is_ws (c # r))
            else None))"

definition classify_word :: "string \<Rightarrow> token" where
  "classify_word v =
     (if upper v \<in> set KEYWORDS then (KEYWORD, upper v)
      else if lower v \<in> set AGG_FUNCS then (AGG_FUNC, lower v)
      else (IDENT, v))"

definition classify :: "tkind \<Rightarrow> string \<Rightarrow> token" where
  "classify k v =
     (if k = WORD then classify_word v
      else if k = STRING then (STRING, butlast (tl v))
      else (k, v))"

section \<open>Each match consumes its lexeme\<close>

lemma match_number_split: "match_number s = Some (v, r) \<Longrightarrow> s = v @ r \<and> v \<noteq> []"
proof -
  assume a: "match_number s = Some (v, r)"
  define sg where "sg = (if s \<noteq> [] \<and> hd s = CHR ''-'' then [CHR ''-''] else [])"
  define t where "t = (if s \<noteq> [] \<and> hd s = CHR ''-'' then tl s else s)"
  define r1 where "r1 = dropWhile is_digit t"
  have s: "s = sg @ takeWhile is_digit t @ r1"
    by (cases s) (auto simp: sg_def t_def r1_def)
  have "(takeWhile is_digit t \<noteq> []) \<and>
     (v = sg @ takeWhile is_digit t \<and> r = r1 \<or>
      (\<exists>r2. r1 = CHR ''.'' # r2 \<and> v = sg @ takeWhile is_digit t @ CHR ''.'' # takeWhile is_digit r2
          \<and> r = dropWhile is_digit r2))"
    using a by (cases s) (auto simp: match_number_def Let_def sg_def t_def r1_def
        dropWhile_eq_Nil_conv [THEN iffD2] split: list.splits if_splits)
  with s show ?thesis by auto
qed

lemma match_quoted_split: "match_quoted q r = Some (v, rest) \<Longrightarrow> q # r = v @ rest \<and> v \<noteq> []"
proof (cases "dropWhile (\<lambda>c. c \<noteq> q) r")
  case Nil
  then show "match_quoted q r = Some (v, rest) \<Longrightarrow> q # r = v @ rest \<and> v \<noteq> []"
    by (simp add: match_quoted_def)
next
  case (Cons d ds)
  then have "d = q" using hd_dropWhile [of "\<lambda>c. c \<noteq> q" r] by simp
  moreover have "r = takeWhile (\<lambda>c. c \<noteq> q) r @ d # ds"
    using takeWhile_dropWhile_id [of "\<lambda>c. c \<noteq> q" r] Cons by simp
  ultimately show "match_quoted q r = Some (v, rest) \<Longrightarrow> q # r = v @ rest \<and> v \<noteq> []"
    using Cons by (auto simp: match_quoted_def)
qed

lemma lex_one_split:
  assumes "lex_one s = Some (k, v, rest)"
  shows "s = v @ rest \<and> v \<noteq> []"
proof (cases s)
  case Nil
  with assms show ?thesis by simp
next
  case (Cons c r)
  have w: "is_word_start c \<Longrightarrow> is_word_char c" by (simp add: is_word_char_def)
  have e: "r \<noteq> [] \<Longrightarrow> hd r = d \<Longrightarrow> r = d # tl r" for d by (cases r) auto
  from assms Cons show ?thesis
    by (auto simp: with_kind_def w intro: e split: if_splits list.splits option.splits
        dest!: match_number_split match_quoted_split)
qed

lemma lex_one_shorter: "lex_one s = Some (k, v, rest) \<Longrightarrow> length rest < length s"
  by (auto dest!: lex_one_split)

section \<open>The token loop\<close>

function tokenize_from :: "nat \<Rightarrow> string \<Rightarrow> dsl_error + token list" where
  "tokenize_from pos s =
     (if s = [] then Inr []
      else case lex_one s of
          None \<Rightarrow> Inl (UnexpectedChar pos (hd s))
        | Some (k, v, rest) \<Rightarrow>
           (case tokenize_from (pos + length v) rest of
              Inl e \<Rightarrow> Inl e
            | Inr ts \<Rightarrow> Inr (if k = WS then ts else classify k v # ts)))"
  by pat_completeness auto
termination
  by (relation "measure (\<lambda>(pos, s). length s)") (auto dest: lex_one_shorter)

declare tokenize_from.simps [simp del]

definition tokenize :: "string \<Rightarrow> dsl_error + token list" where
  "tokenize s = tokenize_from 0 s"

lemma tokenize_from_Nil [simp]: "tokenize_from p [] = Inr []"
  by (simp add: tokenize_from.simps)

lemma tokenize_from_step:
  "lex_one s = Some (k, v, rest) \<Longrightarrow> tokenize_from (p + length v) rest = Inr ts \<Longrightarrow>
   tokenize_from p s = Inr (if k = WS then ts else classify k v # ts)"
  by (subst tokenize_from.simps) (cases s, simp_all del: lex_one.simps(2))

section \<open>The shape of tokens\<close>

definition number_shape :: "string \<Rightarrow> bool" where
  "number_shape v \<longleftrightarrow>
     (\<exists>ds fs. ds \<noteq> [] \<and> list_all is_digit ds \<and> list_all is_digit fs \<and>
        (v = ds \<and> fs = [] \<or> v = ds @ CHR ''.'' # fs \<and> fs \<noteq> []))"

fun tok_ok :: "token \<Rightarrow> bool" where
  "tok_ok (IDENT, v) =
     (word_shape v \<and> upper v \<notin> set KEYWORDS \<and> lower v \<notin> set AGG_FUNCS)"
| "tok_ok (KEYWORD, v) = (v \<in> set KEYWORDS)"
| "tok_ok (AGG_FUNC, v) = (v \<in> set AGG_FUNCS)"
| "tok_ok (NUMBER, v) = number_shape v"
| "tok_ok (OP, v) = (v \<in> {''>'', ''<'', ''!'', ''>='', ''<='', ''!='', ''==''})"
| "tok_ok (ARITH, v) = (v \<in> {''+'', ''-'', ''*'', ''/''})"
| "tok_ok (LPAREN, v) = (v = ''('')"
| "tok_ok (RPAREN, v) = (v = '')'')"
| "tok_ok (COMMA, v) = (v = '','')"
| "tok_ok (STRING, v) = (\<not> {QUOTE, DQUOTE} \<subseteq> set v)"
| "tok_ok (WORD, v) = False"
| "tok_ok (WS, v) = False"

lemma list_all_takeWhile [simp]: "list_all P (takeWhile P s)"
  by (auto simp: list_all_iff dest: set_takeWhileD)

lemma match_number_shape:
  assumes "match_number s = Some (v, r)" and "s \<noteq> []" and "hd s \<noteq> CHR ''-''"
  shows "number_shape v"
proof -
  obtain c t where s: "s = c # t" and c: "c \<noteq> CHR ''-''"
    using assms(2,3) by (cases s) auto
  define ds where "ds = takeWhile is_digit s"
  define r1 where "r1 = dropWhile is_digit s"
  define fs where "fs = takeWhile is_digit (tl r1)"
  have nz: "ds \<noteq> []" and v: "v = ds \<or> (v = ds @ CHR ''.'' # fs \<and> fs \<noteq> [])"
    using assms(1) c
    by (auto simp: match_number_def s ds_def r1_def fs_def Let_def split: list.splits if_splits)
  have "list_all is_digit ds" "list_all is_digit fs" by (simp_all add: ds_def fs_def)
  with nz v show ?thesis unfolding number_shape_def
    using list.pred_inject(1) by blast
qed

lemma match_quoted_body:
  assumes "match_quoted q r = Some (v, rest)"
  shows "q \<notin> set (butlast (tl v))"
  using assms by (auto simp: match_quoted_def split: list.splits dest: set_takeWhileD)

lemma classify_word_ok: "word_shape v \<Longrightarrow> tok_ok (classify_word v)"
  by (simp add: classify_word_def)

lemma word_shape_takeWhile:
  "is_word_start c \<Longrightarrow> word_shape (takeWhile is_word_char (c # r))"
  by (simp add: word_shape_def is_word_char_def)

lemma lex_one_ok:
  assumes "lex_one s = Some (k, v, rest)" and "k \<noteq> WS"
  shows "tok_ok (classify k v)"
proof (cases s)
  case Nil
  with assms show ?thesis by simp
next
  case (Cons c r)
  show ?thesis
  proof (cases "is_word_start c \<and> k = WORD")
    case True
    with assms Cons have "v = takeWhile is_word_char (c # r)"
      by (auto simp: with_kind_def split: if_splits list.splits option.splits)
    with True show ?thesis
      using word_shape_takeWhile [of c r] by (simp add: classify_def classify_word_ok)
  next
    case False
    with assms Cons show ?thesis
      by (auto simp: with_kind_def classify_def is_op_start_def is_arith_def
          split: if_splits list.splits option.splits
          dest!: match_quoted_body dest: match_number_shape)
  qed
qed

lemma tokenize_from_ok: "tokenize_from p s = Inr ts \<Longrightarrow> \<forall>t \<in> set ts. tok_ok t"
proof (induction p s arbitrary: ts rule: tokenize_from.induct)
  case (1 p s)
  show ?case
  proof (cases "s = []")
    case True
    with "1.prems" show ?thesis by simp
  next
    case False
    with "1.prems" obtain k v rest ts' where
      l: "lex_one s = Some (k, v, rest)" and r: "tokenize_from (p + length v) rest = Inr ts'"
      and ts: "ts = (if k = WS then ts' else classify k v # ts')"
      by (subst (asm) tokenize_from.simps) (auto split: option.splits sum.splits prod.splits)
    have "\<forall>t \<in> set ts'. tok_ok t" using "1.IH" False l r by auto
    with ts l show ?thesis by (auto dest: lex_one_ok)
  qed
qed

lemma tokenize_ok: "tokenize s = Inr ts \<Longrightarrow> t \<in> set ts \<Longrightarrow> tok_ok t"
  using tokenize_from_ok by (auto simp: tokenize_def)

end
