(* ===== verification/Dsl_Parser.thy ===== *)
theory Dsl_Parser
  imports Dsl_Lexer PyFloat
begin

text \<open>
  The syntax trees and the recursive-descent parser of the alert DSL (\<open>alerting/dsl.py\<close>:
  the AST dataclasses, \<open>_Parser\<close>, \<open>_auto_threshold_name\<close>, \<open>parse_expression\<close>).

  A parser method is a function from the parser object's state to a result and the new state.
  An exception is a left value and keeps the state it was raised in, as a Python object does, so
  the backtracking of \<open>_parse_condition\<close> restores exactly the four fields the code restores.
  The mutually recursive methods carry fuel; \<open>parse_never_out_of_fuel\<close> shows that the fuel
  \<open>parse_expression\<close> starts with is enough for every token list.
\<close>

section \<open>Syntax trees\<close>

datatype arith = AggCall string string | ArithOp string arith arith | NumericLiteral pyfloat

record threshold_ref =
  tr_name :: string
  tr_inline_value :: "pyfloat option"
  tr_is_named :: bool

datatype cmp_left = LArith arith | LIdent string

datatype cmp_right = RRef threshold_ref | RFloat pyfloat | RStr string

datatype ast =
    Comparison cmp_left string cmp_right
  | Changed string
  | InList string "string list" bool
  | BoolOp string ast ast

section \<open>The parser object\<close>

record pst =
  toks :: "token list"
  depth :: nat
  agg_count :: nat
  arith_count :: nat
  threshold_index :: nat

type_synonym 'a parser = "pst \<Rightarrow> (dsl_error + 'a) \<times> pst"

definition init_pst :: "token list \<Rightarrow> pst" where
  "init_pst ts = \<lparr>toks = ts, depth = 0, agg_count = 0, arith_count = 0, threshold_index = 0\<rparr>"

definition returnP :: "'a \<Rightarrow> 'a parser" where
  "returnP a st = (Inr a, st)"

definition raiseP :: "dsl_error \<Rightarrow> 'a parser" where
  "raiseP e st = (Inl e, st)"

definition bindP :: "'a parser \<Rightarrow> ('a \<Rightarrow> 'b parser) \<Rightarrow> 'b parser" where
  "bindP m f st = (case m st of (Inl e, st') \<Rightarrow> (Inl e, st') | (Inr a, st') \<Rightarrow> f a st')"

text \<open>
  \<open>try: m except ParseError: restore the saved fields; continue with m'\<close>; the threshold
  index is not among the fields the code saves.
\<close>

definition orelseP :: "'a parser \<Rightarrow> 'a parser \<Rightarrow> 'a parser" where
  "orelseP m m' st =
     (case m st of
        (Inr a, st') \<Rightarrow> (Inr a, st')
      | (Inl e, st') \<Rightarrow>
          (if e = OutOfFuel then (Inl e, st')
           else m' (st'\<lparr>toks := toks st, depth := depth st, agg_count := agg_count st,
                       arith_count := arith_count st\<rparr>)))"

definition peek :: "token option parser" where
  "peek st = (Inr (case toks st of [] \<Rightarrow> None | t # _ \<Rightarrow> Some t), st)"

definition consume :: "tkind option \<Rightarrow> token parser" where
  "consume expected st =
     (case toks st of
        [] \<Rightarrow> (Inl UnexpectedEnd, st)
      | t # ts \<Rightarrow>
          (case expected of
             Some k \<Rightarrow> (if fst t \<noteq> k then (Inl (ExpectedKind k t), st) else (Inr t, st\<lparr>toks := ts\<rparr>))
           | None \<Rightarrow> (Inr t, st\<lparr>toks := ts\<rparr>)))"

definition enter_depth :: "unit parser" where
  "enter_depth st =
     (let st' = st\<lparr>depth := depth st + 1\<rparr>
      in if MAX_NESTING_DEPTH < depth st' then (Inl NestingExceeded, st') else (Inr (), st'))"

definition exit_depth :: "unit parser" where
  "exit_depth st = (Inr (), st\<lparr>depth := depth st - 1\<rparr>)"

definition count_agg :: "unit parser" where
  "count_agg st =
     (let st' = st\<lparr>agg_count := agg_count st + 1\<rparr>
      in if MAX_AGG_CALLS < agg_count st' then (Inl AggCallsExceeded, st') else (Inr (), st'))"

definition count_arith :: "unit parser" where
  "count_arith st =
     (let st' = st\<lparr>arith_count := arith_count st + 1\<rparr>
      in if MAX_ARITH_OPS < arith_count st' then (Inl ArithOpsExceeded, st') else (Inr (), st'))"

text \<open>\<open>tok and tok[0] == k and tok[1] in vs\<close>\<close>

definition tok_in :: "tkind \<Rightarrow> string list \<Rightarrow> token option \<Rightarrow> bool" where
  "tok_in k vs t \<longleftrightarrow> (case t of None \<Rightarrow> False | Some p \<Rightarrow> fst p = k \<and> snd p \<in> set vs)"

definition tok_kind :: "tkind \<Rightarrow> token option \<Rightarrow> bool" where
  "tok_kind k t \<longleftrightarrow> (case t of None \<Rightarrow> False | Some p \<Rightarrow> fst p = k)"

definition tok_val :: "token option \<Rightarrow> string" where
  "tok_val t = (case t of None \<Rightarrow> [] | Some p \<Rightarrow> snd p)"

section \<open>Arithmetic\<close>

definition parse_agg_call :: "arith parser" where
  "parse_agg_call =
     bindP (consume (Some AGG_FUNC)) (\<lambda>func.
     bindP (consume (Some LPAREN)) (\<lambda>_.
     bindP peek (\<lambda>mt.
       if \<not> tok_kind IDENT mt then raiseP ExpectedMetricName
       else bindP (consume (Some IDENT)) (\<lambda>m.
         if IDENTIFIER_MAX_LENGTH < length (snd m) then raiseP (IdentTooLong (snd m))
         else bindP (consume (Some RPAREN)) (\<lambda>_.
              bindP count_agg (\<lambda>_. returnP (AggCall (snd func) (snd m))))))))"

fun parse_arith_expr :: "nat \<Rightarrow> arith parser"
  and arith_expr_loop :: "nat \<Rightarrow> arith \<Rightarrow> arith parser"
  and parse_arith_term :: "nat \<Rightarrow> arith parser"
  and arith_term_loop :: "nat \<Rightarrow> arith \<Rightarrow> arith parser"
  and parse_arith_atom :: "nat \<Rightarrow> arith parser" where
  "parse_arith_expr 0 = raiseP OutOfFuel"
| "parse_arith_expr (Suc n) = bindP (parse_arith_term n) (arith_expr_loop n)"
| "arith_expr_loop 0 l = raiseP OutOfFuel"
| "arith_expr_loop (Suc n) l =
     bindP peek (\<lambda>t.
       if tok_in ARITH [''+'', ''-''] t then
         bindP count_arith (\<lambda>_. bindP (consume None) (\<lambda>_.
         bindP (parse_arith_term n) (\<lambda>r. arith_expr_loop n (ArithOp (tok_val t) l r))))
       else returnP l)"
| "parse_arith_term 0 = raiseP OutOfFuel"
| "parse_arith_term (Suc n) = bindP (parse_arith_atom n) (arith_term_loop n)"
| "arith_term_loop 0 l = raiseP OutOfFuel"
| "arith_term_loop (Suc n) l =
     bindP peek (\<lambda>t.
       if tok_in ARITH [''*'', ''/''] t then
         bindP count_arith (\<lambda>_. bindP (consume None) (\<lambda>_.
         bindP (parse_arith_atom n) (\<lambda>r. arith_term_loop n (ArithOp (tok_val t) l r))))
       else returnP l)"
| "parse_arith_atom 0 = raiseP OutOfFuel"
| "parse_arith_atom (Suc n) =
     bindP peek (\<lambda>t.
       if t = None then raiseP ExpectedOperand
       else if tok_kind AGG_FUNC t then parse_agg_call
       else if tok_kind NUMBER t then
         bindP (consume None) (\<lambda>_. returnP (NumericLiteral (py_float (tok_val t))))
       else if tok_kind LPAREN t then
         bindP enter_depth (\<lambda>_. bindP (consume None) (\<lambda>_.
         bindP (parse_arith_expr n) (\<lambda>e. bindP (consume (Some RPAREN)) (\<lambda>_.
         bindP exit_depth (\<lambda>_. returnP e)))))
       else raiseP (ExpectedAggNumberOrParen (tok_val t)))"

declare parse_arith_expr.simps [simp del] arith_expr_loop.simps [simp del]
  parse_arith_term.simps [simp del] arith_term_loop.simps [simp del]
  parse_arith_atom.simps [simp del]

lemmas arith_parser_simps = parse_arith_expr.simps arith_expr_loop.simps parse_arith_term.simps
  arith_term_loop.simps parse_arith_atom.simps

section \<open>Thresholds, values and conditions\<close>

definition auto_threshold_name :: "arith \<Rightarrow> nat \<Rightarrow> string" where
  "auto_threshold_name l index =
     (case l of
        AggCall func metric \<Rightarrow> metric @ ''_threshold''
      | _ \<Rightarrow> ''_expr_'' @ str_nat index @ ''_threshold'')"

definition next_threshold_index :: "nat parser" where
  "next_threshold_index st = (Inr (threshold_index st), st\<lparr>threshold_index := threshold_index st + 1\<rparr>)"

definition parse_threshold_ref :: "arith \<Rightarrow> cmp_right parser" where
  "parse_threshold_ref l =
     bindP peek (\<lambda>t.
       if t = None then raiseP ExpectedThreshold
       else if tok_kind NUMBER t then
         bindP (consume None) (\<lambda>_. bindP next_threshold_index (\<lambda>i.
           returnP (RRef \<lparr>tr_name = auto_threshold_name l i,
             tr_inline_value = Some (py_float (tok_val t)), tr_is_named = False\<rparr>)))
       else if tok_kind IDENT t then
         bindP (consume None) (\<lambda>_.
           returnP (RRef \<lparr>tr_name = tok_val t, tr_inline_value = None, tr_is_named = True\<rparr>))
       else if tok_kind STRING t then
         bindP (consume None) (\<lambda>_. returnP (RStr (tok_val t)))
       else raiseP (ExpectedThresholdGot (tok_val t)))"

definition parse_value :: "cmp_right parser" where
  "parse_value =
     bindP peek (\<lambda>t.
       if t = None then raiseP ExpectedValue
       else if tok_kind NUMBER t then
         bindP (consume None) (\<lambda>_. returnP (RFloat (py_float (tok_val t))))
       else if tok_kind STRING t then bindP (consume None) (\<lambda>_. returnP (RStr (tok_val t)))
       else raiseP (ExpectedNumberOrString (tok_val t)))"

text \<open>The \<open>while True\<close> of \<open>_parse_value_list\<close> over the remaining tokens.\<close>

fun value_list_loop :: "string list \<Rightarrow> token list \<Rightarrow> (dsl_error + string list) \<times> token list" where
  "value_list_loop vs [] = (Inr vs, [])"
| "value_list_loop vs [t] =
     (if fst t = COMMA then (Inl ExpectedInValueAfterComma, []) else (Inr vs, [t]))"
| "value_list_loop vs (t # t2 # ts) =
     (if fst t = COMMA then
        (if fst t2 = STRING \<or> fst t2 = NUMBER then value_list_loop (vs @ [snd t2]) ts
         else (Inl ExpectedInValueAfterComma, t2 # ts))
      else (Inr vs, t # t2 # ts))"

definition value_list_rest :: "string \<Rightarrow> string list parser" where
  "value_list_rest v st =
     (let (r, ts) = value_list_loop [v] (toks st) in (r, st\<lparr>toks := ts\<rparr>))"

definition parse_value_list :: "string list parser" where
  "parse_value_list =
     bindP peek (\<lambda>t.
       if tok_kind STRING t \<or> tok_kind NUMBER t then
         bindP (consume None) (\<lambda>v. value_list_rest (snd v))
       else raiseP ExpectedInValue)"

definition parse_in_list :: "string \<Rightarrow> bool \<Rightarrow> ast parser" where
  "parse_in_list ident negated =
     bindP (consume None) (\<lambda>_. bindP (consume (Some LPAREN)) (\<lambda>_.
     bindP parse_value_list (\<lambda>vs. bindP (consume (Some RPAREN)) (\<lambda>_.
     returnP (InList ident vs negated)))))"

definition parse_ident_condition :: "ast parser" where
  "parse_ident_condition =
     bindP (consume (Some IDENT)) (\<lambda>it.
     let ident = snd it in
     if IDENTIFIER_MAX_LENGTH < length ident then raiseP (IdentTooLong ident)
     else bindP peek (\<lambda>nt.
       if tok_in KEYWORD [''CHANGED''] nt then
         bindP (consume None) (\<lambda>_. returnP (Changed ident))
       else if tok_in KEYWORD [''NOT''] nt then
         bindP (consume None) (\<lambda>_. bindP peek (\<lambda>nin.
           if tok_in KEYWORD [''IN''] nin then parse_in_list ident True
           else raiseP (ExpectedInAfterNot (map_option snd nin))))
       else if tok_in KEYWORD [''IN''] nt then parse_in_list ident False
       else if tok_kind OP nt then
         bindP (consume None) (\<lambda>op. bindP peek (\<lambda>rhs.
           if tok_kind NUMBER rhs \<or> tok_kind IDENT rhs then
             bindP count_agg (\<lambda>_.
             bindP (parse_threshold_ref (AggCall ''last'' ident)) (\<lambda>r.
             returnP (Comparison (LArith (AggCall ''last'' ident)) (snd op) r)))
           else bindP parse_value (\<lambda>r. returnP (Comparison (LIdent ident) (snd op) r))))
       else raiseP (ExpectedOperatorAfter ident)))"

definition parse_arith_comparison :: "nat \<Rightarrow> ast parser" where
  "parse_arith_comparison n =
     bindP (parse_arith_expr n) (\<lambda>a. bindP (consume (Some OP)) (\<lambda>op.
     bindP (parse_threshold_ref a) (\<lambda>r. returnP (Comparison (LArith a) (snd op) r))))"

section \<open>Boolean structure\<close>

fun parse_bool :: "nat \<Rightarrow> ast parser"
  and bool_loop :: "nat \<Rightarrow> ast \<Rightarrow> ast parser"
  and parse_condition :: "nat \<Rightarrow> ast parser" where
  "parse_bool 0 = raiseP OutOfFuel"
| "parse_bool (Suc n) = bindP (parse_condition n) (bool_loop n)"
| "bool_loop 0 l = raiseP OutOfFuel"
| "bool_loop (Suc n) l =
     bindP peek (\<lambda>t.
       if tok_in KEYWORD [''AND'', ''OR''] t then
         bindP (consume None) (\<lambda>_.
         bindP (parse_condition n) (\<lambda>r. bool_loop n (BoolOp (tok_val t) l r)))
       else returnP l)"
| "parse_condition 0 = raiseP OutOfFuel"
| "parse_condition (Suc n) =
     bindP peek (\<lambda>t.
       if t = None then raiseP ExpectedCondition
       else if tok_kind LPAREN t then
         orelseP (parse_arith_comparison n)
           (bindP enter_depth (\<lambda>_. bindP (consume None) (\<lambda>_.
            bindP (parse_bool n) (\<lambda>e. bindP (consume (Some RPAREN)) (\<lambda>_.
            bindP exit_depth (\<lambda>_. returnP e))))))
       else if tok_kind IDENT t then parse_ident_condition
       else if tok_kind AGG_FUNC t \<or> tok_kind NUMBER t then parse_arith_comparison n
       else raiseP (UnexpectedToken (tok_val t)))"

declare parse_bool.simps [simp del] bool_loop.simps [simp del] parse_condition.simps [simp del]

lemmas bool_parser_simps = parse_bool.simps bool_loop.simps parse_condition.simps

text \<open>Fuel for a token list: four calls per token and the five of the deepest chain.\<close>

definition parse_fuel :: "token list \<Rightarrow> nat" where
  "parse_fuel ts = 4 * length ts + 5"

definition parse_tokens :: "token list \<Rightarrow> dsl_error + ast" where
  "parse_tokens ts =
     (case parse_bool (parse_fuel ts) (init_pst ts) of
        (Inl e, st) \<Rightarrow> Inl e
      | (Inr a, st) \<Rightarrow>
          (case toks st of [] \<Rightarrow> Inr a | t # _ \<Rightarrow> Inl (UnexpectedToken (snd t))))"

definition parse_expression :: "string \<Rightarrow> dsl_error + ast" where
  "parse_expression s =
     (let e = strip s in
      if e = [] then Inl EmptyExpression
      else if MAX_EXPRESSION_LENGTH < length e then Inl ExpressionTooLong
      else case tokenize e of
          Inl err \<Rightarrow> Inl err
        | Inr ts \<Rightarrow>
            (if ts = [] then Inl EmptyExpression
             else if MAX_TOKEN_COUNT < length ts then Inl TooManyTokens
             else parse_tokens ts))"

end
