(* ===== verification/Dsl_Compiler.thy ===== *)
theory Dsl_Compiler
  imports Dsl_Parser
begin

text \<open>
  The ClickHouse compiler of the alert DSL (\<open>alerting/dsl.py\<close>: the AST helpers, the table
  descriptions, \<open>_Compiler\<close>, \<open>_parse_interval\<close> and \<open>compile_to_sql\<close>).  The compiler object
  is threaded as a record; an exception aborts the compilation, and the object is then dropped.
\<close>

section \<open>AST helpers\<close>

primrec collect_agg_calls :: "arith \<Rightarrow> (string \<times> string) list" where
  "collect_agg_calls (AggCall func metric) = [(func, metric)]"
| "collect_agg_calls (ArithOp op l r) = collect_agg_calls l @ collect_agg_calls r"
| "collect_agg_calls (NumericLiteral v) = []"

primrec has_agg_call :: "arith \<Rightarrow> bool" where
  "has_agg_call (AggCall func metric) = True"
| "has_agg_call (ArithOp op l r) = (has_agg_call l \<or> has_agg_call r)"
| "has_agg_call (NumericLiteral v) = False"

primrec has_division :: "arith \<Rightarrow> bool" where
  "has_division (AggCall func metric) = False"
| "has_division (ArithOp op l r) = (if op = ''/'' then True else has_division l \<or> has_division r)"
| "has_division (NumericLiteral v) = False"

primrec has_self_div :: "arith \<Rightarrow> bool" where
  "has_self_div (AggCall func metric) = False"
| "has_self_div (ArithOp op l r) =
     (if op = ''/'' \<and> list_ex (\<lambda>la. list_ex (\<lambda>ra. la = ra) (collect_agg_calls r)) (collect_agg_calls l)
      then True else has_self_div l \<or> has_self_div r)"
| "has_self_div (NumericLiteral v) = False"

definition is_zero_literal :: "arith \<Rightarrow> bool" where
  "is_zero_literal a = (case a of NumericLiteral v \<Rightarrow> feq v (Fin 0) | _ \<Rightarrow> False)"

primrec has_div_by_zero_constant :: "arith \<Rightarrow> bool" where
  "has_div_by_zero_constant (AggCall func metric) = False"
| "has_div_by_zero_constant (ArithOp op l r) =
     (if op = ''/'' \<and> is_zero_literal r then True
      else has_div_by_zero_constant l \<or> has_div_by_zero_constant r)"
| "has_div_by_zero_constant (NumericLiteral v) = False"

text \<open>\<open>_number_literal\<close>: \<open>int(value)\<close> raises on an infinite value.\<close>

definition number_literal :: "pyfloat \<Rightarrow> dsl_error + string" where
  "number_literal v =
     (case py_int v of
        None \<Rightarrow> Inl FloatOverflow
      | Some i \<Rightarrow> Inr (if v = Fin (of_int i) then str_int i else py_repr v))"

section \<open>Tables\<close>

definition TABLE_GROUP_BY :: "(string, string list) dict" where
  "TABLE_GROUP_BY =
     [(''availability_latency'', [''assignment_id'']),
      (''performance'', [''device_id'', ''component_type'', ''component'']),
      (''interface'', [''device_id'', ''interface_id'']),
      (''config'', [''device_id'', ''config_key''])]"

definition TABLE_LABEL_COLUMNS :: "(string, string list) dict" where
  "TABLE_LABEL_COLUMNS =
     [(''availability_latency'', [''any(device_name) AS device_name'']),
      (''performance'', [''any(device_name) AS device_name'']),
      (''interface'', [''any(device_name) AS device_name'', ''any(if_name) AS if_name'']),
      (''config'', [''any(device_name) AS device_name''])]"

definition INTERFACE_RATE_COLUMNS :: "string list" where
  "INTERFACE_RATE_COLUMNS =
     [''in_octets'', ''out_octets'', ''in_ucast_pkts'', ''out_ucast_pkts'',
      ''in_mcast_pkts'', ''out_mcast_pkts'', ''in_bcast_pkts'', ''out_bcast_pkts'',
      ''in_errors'', ''out_errors'', ''in_discards'', ''out_discards'']"

definition COUNTER_SUFFIXES :: "string list" where
  "COUNTER_SUFFIXES = [''_octets'', ''_pkts'', ''_bytes'', ''_count'', ''_total'']"

definition VALID_WINDOWS :: "string list" where
  "VALID_WINDOWS = [''30s'', ''1m'', ''5m'', ''15m'', ''1h'']"

definition VALID_SEVERITIES :: "string list" where
  "VALID_SEVERITIES = [''info'', ''warning'', ''critical'', ''emergency'']"

definition VALID_COMPARE_OPS :: "string list" where
  "VALID_COMPARE_OPS = [''>'', ''<'', ''>='', ''<='', ''=='', ''!='']"

record threshold_param =
  tp_name :: string
  tp_default_value :: pyfloat
  tp_param_key :: string

datatype param_value = PFloat pyfloat | PStr string

record compiled_query =
  cq_sql :: string
  cq_params :: "(string, param_value) dict"
  cq_threshold_params :: "threshold_param list"
  cq_is_config_changed :: bool
  cq_config_changed_key :: "string option"
  cq_metric_aliases :: "(string, string) dict"

section \<open>The compiler object\<close>

record cst =
  c_params :: "(string, param_value) dict"
  c_threshold_params :: "threshold_param list"
  c_threshold_idx :: nat
  c_str_idx :: nat
  c_arith_idx :: nat
  c_metric_aliases :: "(string, string) dict"
  c_agg_selects :: "string list"
  c_having_parts :: "string list"
  c_where_extras :: "string list"
  c_finite_checks :: "string list"

definition init_cst :: cst where
  "init_cst = \<lparr>c_params = [], c_threshold_params = [], c_threshold_idx = 0, c_str_idx = 0,
     c_arith_idx = 0, c_metric_aliases = [], c_agg_selects = [], c_having_parts = [],
     c_where_extras = [], c_finite_checks = []\<rparr>"

definition quoted :: "string \<Rightarrow> string" where
  "quoted s = QUOTE # s @ [QUOTE]"

definition placeholder :: "string \<Rightarrow> string \<Rightarrow> string" where
  "placeholder k ty = ''{'' @ k @ '':'' @ ty @ ''}''"

definition add_having :: "string \<Rightarrow> cst \<Rightarrow> cst" where
  "add_having p st = st\<lparr>c_having_parts := c_having_parts st @ [p]\<rparr>"

definition add_where :: "string \<Rightarrow> cst \<Rightarrow> cst" where
  "add_where p st = st\<lparr>c_where_extras := c_where_extras st @ [p]\<rparr>"

definition set_param :: "string \<Rightarrow> param_value \<Rightarrow> cst \<Rightarrow> cst" where
  "set_param k v st = st\<lparr>c_params := dict_set k v (c_params st)\<rparr>"

definition add_threshold :: "threshold_param \<Rightarrow> cst \<Rightarrow> cst" where
  "add_threshold tp st = st\<lparr>c_threshold_params := c_threshold_params st @ [tp]\<rparr>"

definition metric_ref_perf :: "string \<Rightarrow> string" where
  "metric_ref_perf metric = ''metric_values[indexOf(metric_names, '' @ quoted metric @ '')]''"

definition has_metric :: "string \<Rightarrow> string" where
  "has_metric metric = ''has(metric_names, '' @ quoted metric @ '')''"

definition TIME_DELTA :: string where
  "TIME_DELTA = ''(toUnixTimestamp(max(executed_at)) - toUnixTimestamp(min(executed_at)))''"

definition rate_to_sql :: "string \<Rightarrow> string \<Rightarrow> cst \<Rightarrow> dsl_error + string \<times> cst" where
  "rate_to_sql tbl metric0 st =
     ebind (assert_safe_identifier metric0 ''rate metric'') (\<lambda>metric.
       if tbl = ''interface'' \<and> metric \<in> set INTERFACE_RATE_COLUMNS
       then Inr (''argMax('' @ metric @ ''_rate, executed_at)'', st)
       else
         let perf = (tbl = ''performance'');
             metric_ref = (if perf then metric_ref_perf metric else metric);
             st' = (if perf then add_where (has_metric metric) st else st);
             value_delta = ''(max('' @ metric_ref @ '') - min('' @ metric_ref @ ''))''
         in Inr (''if('' @ TIME_DELTA @ '' = 0, nan, '' @ value_delta @ '' / '' @ TIME_DELTA @ '')'', st'))"

definition agg_to_sql :: "string \<Rightarrow> string \<Rightarrow> string \<Rightarrow> cst \<Rightarrow> dsl_error + string \<times> cst" where
  "agg_to_sql tbl func metric0 st =
     ebind (assert_safe_identifier metric0 ''agg metric'') (\<lambda>metric.
       if func \<notin> set AGG_FUNCS then Inl (UnknownAggFunc func)
       else if func = ''rate'' then rate_to_sql tbl metric st
       else
         let perf = (tbl = ''performance'');
             metric_ref = (if perf then metric_ref_perf metric else metric);
             st' = (if perf then add_where (has_metric metric) st else st)
         in if func = ''last'' then Inr (''argMax('' @ metric_ref @ '', executed_at)'', st')
            else Inr (func @ ''('' @ metric_ref @ '')'', st'))"

primrec arith_to_sql :: "string \<Rightarrow> arith \<Rightarrow> cst \<Rightarrow> dsl_error + string \<times> cst" where
  "arith_to_sql tbl (AggCall func metric) st = agg_to_sql tbl func metric st"
| "arith_to_sql tbl (NumericLiteral v) st = Inr (py_repr v, st)"
| "arith_to_sql tbl (ArithOp op l r) st =
     ebind (arith_to_sql tbl l st) (\<lambda>(lsql, st1).
     ebind (arith_to_sql tbl r st1) (\<lambda>(rsql, st2).
       Inr (if op = ''/''
            then ''if(('' @ rsql @ '') = 0, nan, ('' @ lsql @ '') / ('' @ rsql @ ''))''
            else ''('' @ lsql @ '') '' @ op @ '' ('' @ rsql @ '')'', st2)))"

definition is_arith_op :: "arith \<Rightarrow> bool" where
  "is_arith_op a = (case a of ArithOp _ _ _ \<Rightarrow> True | _ \<Rightarrow> False)"

definition alias_key :: "(string \<times> string) list \<Rightarrow> string \<times> string \<Rightarrow> string" where
  "alias_key calls ac =
     (if 1 < count_list (map snd calls) (snd ac) then fst ac @ ''_'' @ snd ac else snd ac)"

definition compile_arith_select :: "string \<Rightarrow> arith \<Rightarrow> cst \<Rightarrow> dsl_error + string \<times> cst" where
  "compile_arith_select tbl a st0 =
     ebind (arith_to_sql tbl a st0) (\<lambda>(sql_expr, st).
       let alias = ''_arith_'' @ str_nat (c_arith_idx st);
           calls = collect_agg_calls a;
           st1 = st\<lparr>c_agg_selects := c_agg_selects st @ [sql_expr @ '' AS '' @ alias],
                    c_arith_idx := c_arith_idx st + 1\<rparr>;
           st2 = (if is_arith_op a \<and> has_division a
                  then st1\<lparr>c_finite_checks := c_finite_checks st1 @ [''isFinite('' @ alias @ '')'']\<rparr>
                  else st1)
       in Inr (alias, st2\<lparr>c_metric_aliases :=
            fold (\<lambda>ac d. dict_set (alias_key calls ac) alias d) calls (c_metric_aliases st2)\<rparr>))"

definition threshold_key :: "nat \<Rightarrow> string" where
  "threshold_key i = ''_threshold_'' @ str_nat i"

definition legacy_threshold_name :: "arith \<Rightarrow> nat \<Rightarrow> string" where
  "legacy_threshold_name a i =
     (case collect_agg_calls a of
        [] \<Rightarrow> ''threshold_'' @ str_nat i
      | (func, metric) # _ \<Rightarrow> metric @ ''_'' @ func @ ''_threshold'')"

text \<open>
  The right-hand side of an arithmetic comparison, after its left-hand side was selected: a named
  reference becomes a parameter of its own name, an inline value a numbered parameter, and an
  inline value under \<open>==\<close> or \<open>!=\<close> a literal of the SQL text.  A string on the right adds
  nothing.  (\<open>inline_value\<close> is \<open>None\<close> for named references only.)
\<close>

definition add_named :: "string \<Rightarrow> string \<Rightarrow> cst \<Rightarrow> cst" where
  "add_named lhs nm st =
     add_threshold \<lparr>tp_name = nm, tp_default_value = Fin 0, tp_param_key = nm\<rparr>
       (set_param nm (PFloat (Fin 0)) (add_having (lhs @ placeholder nm ''Float64'') st))"

definition add_tunable :: "string \<Rightarrow> string \<Rightarrow> pyfloat \<Rightarrow> cst \<Rightarrow> cst" where
  "add_tunable lhs nm v st =
     (let key = threshold_key (c_threshold_idx st);
          st1 = add_having (lhs @ placeholder key ''Float64'') st;
          st2 = set_param key (PFloat v) st1;
          st3 = add_threshold \<lparr>tp_name = nm, tp_default_value = v, tp_param_key = key\<rparr> st2
      in st3\<lparr>c_threshold_idx := c_threshold_idx st + 1\<rparr>)"

definition add_literal :: "string \<Rightarrow> pyfloat \<Rightarrow> cst \<Rightarrow> dsl_error + cst" where
  "add_literal lhs v st = ebind (number_literal v) (\<lambda>lit. Inr (add_having (lhs @ lit) st))"

definition compile_right :: "arith \<Rightarrow> string \<Rightarrow> string \<Rightarrow> cmp_right \<Rightarrow> cst \<Rightarrow> dsl_error + cst" where
  "compile_right a alias ch_op right st =
     (let is_equality = (ch_op = ''='' \<or> ch_op = ''!='');
          lhs = alias @ '' '' @ ch_op @ '' ''
      in case right of
          RRef ref \<Rightarrow>
            (if tr_is_named ref then
               ebind (assert_safe_identifier (tr_name ref) ''threshold name'')
                 (\<lambda>nm. Inr (add_named lhs nm st))
             else case tr_inline_value ref of
                 None \<Rightarrow> Inr st
               | Some v \<Rightarrow>
                   if is_equality then add_literal lhs v st
                   else Inr (add_tunable lhs (tr_name ref) v st))
        | RFloat v \<Rightarrow>
            if is_equality then add_literal lhs v st
            else Inr (add_tunable lhs (legacy_threshold_name a (c_threshold_idx st)) v st)
        | RStr s \<Rightarrow> Inr st)"

definition ch_op_of :: "string \<Rightarrow> string" where
  "ch_op_of op = (if op = ''=='' then ''='' else op)"

fun build_query_parts :: "string \<Rightarrow> ast \<Rightarrow> cst \<Rightarrow> dsl_error + cst" where
  "build_query_parts tbl (Comparison (LArith a) op right) st =
     ebind (compile_arith_select tbl a st) (\<lambda>(alias, st1).
       if op \<notin> set VALID_COMPARE_OPS then Inl (InvalidCompareOp op)
       else compile_right a alias (ch_op_of op) right st1)"
| "build_query_parts tbl (BoolOp op l r) st =
     ebind (build_query_parts tbl l st) (build_query_parts tbl r)"
| "build_query_parts tbl _ st = Inr st"

section \<open>Config-table string conditions\<close>

text \<open>\<open>str(node.right)\<close>\<close>

fun str_right :: "cmp_right \<Rightarrow> string" where
  "str_right (RStr s) = s"
| "str_right (RFloat v) = py_repr v"
| "str_right (RRef r) =
     ''ThresholdRef(name='' @ quoted (tr_name r) @ '', inline_value='' @
     (case tr_inline_value r of None \<Rightarrow> ''None'' | Some v \<Rightarrow> py_repr v) @ '', is_named='' @
     (if tr_is_named r then ''True'' else ''False'') @ '')''"

definition in_val_key :: "nat \<Rightarrow> nat \<Rightarrow> string" where
  "in_val_key n i = ''_in_val_'' @ str_nat n @ ''_'' @ str_nat i"

fun bind_in_values :: "nat \<Rightarrow> nat \<Rightarrow> string list \<Rightarrow> (string, param_value) dict \<Rightarrow> (string, param_value) dict" where
  "bind_in_values n i [] d = d"
| "bind_in_values n i (v # vs) d = bind_in_values n (i + 1) vs (dict_set (in_val_key n i) (PStr v) d)"

fun build_config_where :: "ast \<Rightarrow> string list \<times> cst \<Rightarrow> dsl_error + string list \<times> cst" where
  "build_config_where (Comparison (LIdent i) op right) (parts, st) =
     (if op \<notin> set VALID_COMPARE_OPS then Inl (InvalidCompareOp op)
      else ebind (assert_safe_identifier i ''config_key'') (\<lambda>key.
        let pk = ''_str_val_'' @ str_nat (c_str_idx st);
            parts' = parts @ [''config_key = '' @ quoted key,
                              ''config_value '' @ ch_op_of op @ '' '' @ placeholder pk ''String'']
        in Inr (parts', (set_param pk (PStr (str_right right)) st)\<lparr>c_str_idx := c_str_idx st + 1\<rparr>)))"
| "build_config_where (InList i vs negated) (parts, st) =
     ebind (assert_safe_identifier i ''config_key'') (\<lambda>key.
       let n = c_str_idx st;
           keys = map (\<lambda>j. placeholder (in_val_key n j) ''String'') [0..<length vs];
           op_str = (if negated then ''NOT IN'' else ''IN'');
           parts' = parts @ [''config_key = '' @ quoted key,
                             ''config_value '' @ op_str @ '' ('' @ join '', '' keys @ '')'']
       in Inr (parts', st\<lparr>c_params := bind_in_values n 0 vs (c_params st), c_str_idx := n + 1\<rparr>))"
| "build_config_where (BoolOp op l r) ps =
     ebind (build_config_where l ps) (build_config_where r)"
| "build_config_where _ ps = Inr ps"

definition to_string_col :: "string \<Rightarrow> string" where
  "to_string_col col = ''toString('' @ col @ '') AS '' @ col"

definition compile_config_string ::
    "ast \<Rightarrow> string list \<Rightarrow> string list \<Rightarrow> cst \<Rightarrow> dsl_error + compiled_query" where
  "compile_config_string a group_by label_cols st0 =
     ebind (build_config_where a ([], st0)) (\<lambda>(where_parts, st).
       let select_cols = map to_string_col group_by @ [''config_value''] @ label_cols;
           sql = ''SELECT '' @ join '', '' select_cols @ '' FROM config_latest FINAL WHERE '' @
                 join '' AND '' where_parts @ '' GROUP BY '' @
                 join '', '' (group_by @ [''config_value''])
       in Inr \<lparr>cq_sql = sql, cq_params = c_params st, cq_threshold_params = [],
               cq_is_config_changed = False, cq_config_changed_key = None,
               cq_metric_aliases = []\<rparr>)"

section \<open>The query\<close>

definition INTERVAL_UNITS :: "(char, string) dict" where
  "INTERVAL_UNITS = [(CHR ''s'', ''SECOND''), (CHR ''m'', ''MINUTE''), (CHR ''h'', ''HOUR''), (CHR ''d'', ''DAY'')]"

definition parse_interval :: "string \<Rightarrow> string" where
  "parse_interval s0 =
     (let s = strip s0 in
      if s = [] then ''5 MINUTE''
      else case map_of INTERVAL_UNITS (to_lower (last s)) of
          None \<Rightarrow> ''5 MINUTE''
        | Some u \<Rightarrow>
           (case int_of_string (butlast s) of
              None \<Rightarrow> ''5 MINUTE''
            | Some num \<Rightarrow> str_int num @ '' '' @ u))"

definition group_by_of :: "string \<Rightarrow> string list" where
  "group_by_of tbl = dict_get TABLE_GROUP_BY tbl [''assignment_id'']"

definition label_cols_of :: "string \<Rightarrow> string list" where
  "label_cols_of tbl = dict_get TABLE_LABEL_COLUMNS tbl []"

definition where_clause :: "string \<Rightarrow> cst \<Rightarrow> string" where
  "where_clause window st =
     ''executed_at > now() - INTERVAL '' @ parse_interval window @
     (if c_where_extras st = [] then [] else '' AND '' @ join '' AND '' (c_where_extras st))"

definition having_str :: "cst \<Rightarrow> string" where
  "having_str st =
     (let cs = c_having_parts st @ c_finite_checks st
      in if cs = [] then ''1'' else join '' AND '' cs)"

definition assemble_query :: "string \<Rightarrow> string \<Rightarrow> cst \<Rightarrow> compiled_query" where
  "assemble_query tbl window st =
     \<lparr>cq_sql =
        ''SELECT '' @ join '', '' (map to_string_col (group_by_of tbl) @ c_agg_selects st @ label_cols_of tbl) @
        '' FROM '' @ tbl @ '' WHERE '' @ where_clause window st @
        '' GROUP BY '' @ join '', '' (group_by_of tbl) @ '' HAVING '' @ having_str st,
      cq_params = c_params st, cq_threshold_params = c_threshold_params st,
      cq_is_config_changed = False, cq_config_changed_key = None,
      cq_metric_aliases = c_metric_aliases st\<rparr>"

definition compile_to_sql :: "ast \<Rightarrow> string \<Rightarrow> string \<Rightarrow> dsl_error + compiled_query" where
  "compile_to_sql a tbl window =
     (case a of
        Changed i \<Rightarrow> Inr \<lparr>cq_sql = [], cq_params = [], cq_threshold_params = [],
          cq_is_config_changed = True, cq_config_changed_key = Some i, cq_metric_aliases = []\<rparr>
      | _ \<Rightarrow>
        ebind (build_query_parts tbl a init_cst) (\<lambda>st.
          if tbl = ''config'' \<and> c_agg_selects st = []
          then compile_config_string a (group_by_of tbl) (label_cols_of tbl) st
          else Inr (assemble_query tbl window st)))"

end
