(* ===== verification/Severity.thy ===== *)
theory Severity
  imports Prelude
begin

text \<open>
  Severity scales.  \<open>alerting/severity.py\<close> ranks the severities of the alert tiers and
  \<open>incidents/engine.py\<close> those of the incident ladders; both compare through the rank only and
  rank everything they do not know below everything they know.  The locale states that contract
  and what selecting by rank gives.
\<close>

section \<open>The contract of a scale\<close>

locale severity_scale =
  fixes rank_of :: "'s \<Rightarrow> int" and bottom :: 's
  assumes bottom_least: "rank_of bottom \<le> rank_of s"
begin

text \<open>The loop \<open>if rank(s) > rank(best): best = s\<close>.\<close>

definition select_max :: "'s \<Rightarrow> 's list \<Rightarrow> 's" where
  "select_max s0 ss = foldl (\<lambda>best s. if rank_of s > rank_of best then s else best) s0 ss"

lemma select_max_simps [simp]:
  "select_max s0 [] = s0"
  "select_max s0 (s # ss) = select_max (if rank_of s > rank_of s0 then s else s0) ss"
  by (simp_all add: select_max_def)

lemma select_max_ge_start: "rank_of s0 \<le> rank_of (select_max s0 ss)"
  by (induction ss arbitrary: s0) (auto split: if_splits intro: order_trans less_imp_le)

lemma select_max_ge: "s \<in> set ss \<Longrightarrow> rank_of s \<le> rank_of (select_max s0 ss)"
proof (induction ss arbitrary: s0)
  case (Cons t ss)
  show ?case
  proof (cases "s = t")
    case True
    then show ?thesis
      using select_max_ge_start [of "if rank_of t > rank_of s0 then t else s0" ss] by (simp split: if_splits)
  next
    case False
    then show ?thesis using Cons by simp
  qed
qed simp

lemma select_max_mem: "select_max s0 ss = s0 \<or> select_max s0 ss \<in> set ss"
  by (induction ss arbitrary: s0) auto

lemma select_max_start: "(\<And>s. s \<in> set ss \<Longrightarrow> rank_of s \<le> rank_of s0) \<Longrightarrow> select_max s0 ss = s0"
  by (induction ss) (auto simp: not_less [symmetric])

lemma select_max_bottom_iff:
  "select_max bottom ss = bottom \<longleftrightarrow> (\<forall>s \<in> set ss. rank_of s \<le> rank_of bottom)"
  using select_max_ge [of _ ss bottom] select_max_start [of ss bottom] by auto

lemma select_max_above:
  "select_max bottom ss \<noteq> bottom \<Longrightarrow>
   select_max bottom ss \<in> set ss \<and> rank_of bottom < rank_of (select_max bottom ss)"
proof -
  assume n: "select_max bottom ss \<noteq> bottom"
  then have "\<exists>s \<in> set ss. rank_of bottom < rank_of s" by (auto simp: select_max_bottom_iff not_le)
  then show ?thesis using select_max_mem [of bottom ss] n select_max_ge [of _ ss bottom] by fastforce
qed

text \<open>A comparison by rank: \<open>compare(a, b) = rank(a) - rank(b)\<close>.\<close>

definition step_of :: "'s \<Rightarrow> 's \<Rightarrow> int" where
  "step_of a b = sgn (rank_of a - rank_of b)"

lemma step_antisym: "step_of a b = - step_of b a"
  by (simp add: step_of_def sgn_if)

lemma step_trans: "step_of a b = 1 \<Longrightarrow> step_of b c = 1 \<Longrightarrow> step_of a c = 1"
  by (simp add: step_of_def sgn_if split: if_splits)

end

section \<open>The alert tiers: \<open>alerting/severity.py\<close>\<close>

definition SEVERITY_RANK :: "(string, int) dict" where
  "SEVERITY_RANK = [(''info'', 0), (''warning'', 1), (''critical'', 2)]"

definition rank :: "string option \<Rightarrow> int" where
  "rank severity = (case severity of None \<Rightarrow> - 1 | Some s \<Rightarrow> dict_get SEVERITY_RANK s (- 1))"

definition compare_severity :: "string option \<Rightarrow> string option \<Rightarrow> int" where
  "compare_severity a b = rank a - rank b"

definition highest :: "string list \<Rightarrow> string option" where
  "highest severities =
     (case severities of
        [] \<Rightarrow> None
      | s # ss \<Rightarrow> Some (foldl (\<lambda>best x. if rank (Some x) > rank (Some best) then x else best) s ss))"

lemma rank_None [simp]: "rank None = - 1"
  by (simp add: rank_def)

lemma rank_ge: "- 1 \<le> rank s"
  by (auto simp: rank_def dict_get_def SEVERITY_RANK_def split: option.splits)

lemma rank_unknown_iff: "rank (Some s) = - 1 \<longleftrightarrow> s \<notin> {''info'', ''warning'', ''critical''}"
  by (auto simp: rank_def dict_get_def SEVERITY_RANK_def)

interpretation alert_scale: severity_scale rank None
  by unfold_locales (simp add: rank_ge)

lemma compare_pos_iff: "compare_severity a b > 0 \<longleftrightarrow> rank b < rank a"
  by (auto simp: compare_severity_def)

text \<open>On the severities the scale knows, equal ranks are equal severities.\<close>

lemma rank_inj: "rank a = rank b \<Longrightarrow> rank a \<noteq> - 1 \<Longrightarrow> a = b"
  by (auto simp: rank_def dict_get_def SEVERITY_RANK_def split: option.splits if_splits)

lemma highest_fold:
  "Some (foldl (\<lambda>best x. if rank (Some x) > rank (Some best) then x else best) s ss) =
   alert_scale.select_max (Some s) (map Some ss)"
  by (induction ss arbitrary: s) auto

lemma highest_select: "highest (s # ss) = alert_scale.select_max (Some s) (map Some ss)"
  by (simp add: highest_def highest_fold)

lemma highest_max: "s \<in> set ss \<Longrightarrow> rank (Some s) \<le> rank (highest ss)"
  by (cases ss)
     (auto simp: highest_select alert_scale.select_max_ge_start intro: alert_scale.select_max_ge)

lemma highest_mem: "highest ss = Some s \<Longrightarrow> s \<in> set ss"
  using alert_scale.select_max_mem [of "Some (hd ss)" "map Some (tl ss)"]
  by (cases ss) (auto simp: highest_select highest_def [of "[]"])

section \<open>The incident ladders: \<open>_SEVERITY_PRIORITY\<close> of \<open>incidents/engine.py\<close>\<close>

definition SEVERITY_PRIORITY :: "(string, int) dict" where
  "SEVERITY_PRIORITY = [(''info'', 0), (''warning'', 1), (''critical'', 2), (''emergency'', 3)]"

definition priority :: "string \<Rightarrow> int" where
  "priority s = dict_get SEVERITY_PRIORITY s (- 1)"

lemma priority_ge: "- 1 \<le> priority s"
  by (auto simp: priority_def dict_get_def SEVERITY_PRIORITY_def split: option.splits)

lemma priority_known_iff: "0 \<le> priority s \<longleftrightarrow> s \<in> set (dict_keys SEVERITY_PRIORITY)"
  by (auto simp: priority_def dict_get_def SEVERITY_PRIORITY_def)

interpretation incident_scale: severity_scale priority "[]"
  by unfold_locales (simp add: priority_ge priority_def [of "[]"] dict_get_def SEVERITY_PRIORITY_def)

text \<open>The two scales agree on the severities both know; \<open>emergency\<close> is known to one only.\<close>

lemma rank_priority: "rank (Some s) = (if s = ''emergency'' then - 1 else priority s)"
  by (auto simp: rank_def priority_def dict_get_def SEVERITY_RANK_def SEVERITY_PRIORITY_def)

end
