(* ===== verification/Alert_Engine.thy ===== *)
theory Alert_Engine
  imports Dsl_Compiler PyText Severity
begin

text \<open>
  The alert engine (\<open>alerting/engine.py\<close>): one evaluation cycle over the enabled definitions.
  Each definition's tiers are compiled by the DSL compiler, queried, and every instance
  (\<open>AlertEntity\<close>) with fresh data is stepped; a failing definition is rolled back alone.
  ClickHouse is a parameter (\<open>env_query\<close>): what one attempt of \<open>client.query\<close> gives.  Ids are
  their text, times are microseconds since the epoch in UTC.
\<close>

section \<open>Data\<close>

type_synonym time = int

type_synonym tier = "(string, string option) dict"

type_synonym labels = "(string, cell) dict"

record alert_definition =
  ad_id :: string
  ad_app_id :: string
  ad_app_name :: string
  ad_target_table :: string
  ad_name :: string
  ad_severity_tiers :: "tier list"
  ad_window :: string
  ad_enabled :: bool

record alert_entity =
  ae_definition_id :: string
  ae_assignment_id :: string
  ae_device_id :: "string option"
  ae_enabled :: bool
  ae_state :: string
  ae_severity :: "string option"
  ae_current_value :: "pyfloat option"
  ae_fire_count :: int
  ae_fire_history :: "bool list"
  ae_last_evaluated_at :: "time option"
  ae_started_firing_at :: "time option"
  ae_current_state_since :: "time option"
  ae_last_triggered_at :: "time option"
  ae_last_cleared_at :: "time option"
  ae_entity_key :: string
  ae_entity_labels :: labels
  ae_metric_values :: "(string, pyfloat option) dict"
  ae_threshold_values :: "(string, param_value) dict"

record threshold_variable =
  tv_app_id :: string
  tv_name :: string
  tv_display_name :: "string option"
  tv_description :: "string option"
  tv_default_value :: pyfloat
  tv_app_value :: "pyfloat option"
  tv_unit :: "string option"
  tv_updated_at :: time

record fire_data =
  fd_value :: "pyfloat option"
  fd_labels :: labels
  fd_assignment_id :: cell
  fd_metric_values :: "(string, pyfloat option) dict"
  fd_threshold_values :: "(string, param_value) dict"

type_synonym row = "(string, cell) dict"

type_synonym firing = "(cell \<times> string, fire_data) dict"

record log_record =
  lr_definition_id :: string
  lr_definition_name :: string
  lr_entity_key :: string
  lr_action :: string
  lr_severity :: string
  lr_current_value :: pyfloat
  lr_threshold_value :: pyfloat
  lr_expression :: "string option"
  lr_device_id :: string
  lr_device_name :: cell
  lr_assignment_id :: string
  lr_app_id :: string
  lr_app_name :: string
  lr_tenant_id :: string
  lr_tenant_name :: string
  lr_entity_labels :: string
  lr_fire_count :: int
  lr_message :: string
  lr_metric_values :: string
  lr_threshold_values :: string
  lr_occurred_at :: time

text \<open>
  What the engine is run with: \<open>env_query retried sql params\<close> is one attempt at a query, the
  first or the one after the reconnect; \<open>env_set_list\<close> is the order in which a set of strings
  is listed; \<open>env_fromiso\<close> is \<open>datetime.fromisoformat\<close>; \<open>env_format\<close> is Python's formatting of
  templates with rich fields.
\<close>

datatype query_outcome = Rows "row list" | ConnectionFailed | QueryFailed

datatype query_param = QParam param_value | QTime time

record engine_env =
  env_query :: "bool \<Rightarrow> string \<Rightarrow> (string, query_param) dict \<Rightarrow> query_outcome"
  env_set_list :: "string list \<Rightarrow> string list"
  env_fromiso :: "string \<Rightarrow> time option"
  env_format :: "string \<Rightarrow> (string, string) dict \<Rightarrow> fmt_result"
  env_now :: time

text \<open>\<open>ClickHouseClient.query_for_alert\<close>: a connection error is retried once on a new client.\<close>

definition query_for_alert :: "engine_env \<Rightarrow> string \<Rightarrow> (string, query_param) dict \<Rightarrow> py_error + row list" where
  "query_for_alert env sql params =
     (case env_query env False sql params of
        Rows rs \<Rightarrow> Inr rs
      | QueryFailed \<Rightarrow> Inl DatabaseError
      | ConnectionFailed \<Rightarrow>
          (case env_query env True sql params of
             Rows rs \<Rightarrow> Inr rs
           | _ \<Rightarrow> Inl DatabaseError))"

section \<open>Helpers\<close>

definition tier_get :: "tier \<Rightarrow> string \<Rightarrow> string option" where
  "tier_get t k = dict_get t k None"

definition truthy :: "string option \<Rightarrow> bool" where
  "truthy s \<longleftrightarrow> s \<noteq> None \<and> s \<noteq> Some []"

definition expression_for_severity :: "alert_definition \<Rightarrow> string option \<Rightarrow> string option" where
  "expression_for_severity defn severity =
     (case ad_severity_tiers defn of
        [] \<Rightarrow> Some []
      | t0 # _ \<Rightarrow>
          (case (if truthy severity then find (\<lambda>t. tier_get t ''severity'' = severity) (ad_severity_tiers defn)
                 else None) of
             Some t \<Rightarrow> dict_get t ''expression'' (Some [])
           | None \<Rightarrow> dict_get t0 ''expression'' (Some [])))"

text \<open>\<open>_fmt_number\<close>: \<open>int(v)\<close> raises on a value that is not finite.\<close>

definition fmt_number :: "pyfloat option \<Rightarrow> py_error + string" where
  "fmt_number v =
     (case v of
        None \<Rightarrow> Inr ''N/A''
      | Some NaN \<Rightarrow> Inl ValueError
      | Some PInf \<Rightarrow> Inl OverflowError
      | Some NInf \<Rightarrow> Inl OverflowError
      | Some (Fin q) \<Rightarrow>
          (case py_int (Fin q) of
             Some i \<Rightarrow> Inr (if q = of_int i then str_int i else fixed2 q)
           | None \<Rightarrow> Inl ValueError))"

text \<open>
  A threshold value is a float, or a string parameter: for a string either \<open>int(v)\<close> or the
  format \<open>.2f\<close> raises.
\<close>

fun fmt_param :: "param_value \<Rightarrow> py_error + string" where
  "fmt_param (PFloat v) = fmt_number (Some v)"
| "fmt_param (PStr s) = Inl ValueError"

fun param_float :: "param_value \<Rightarrow> pyfloat option" where
  "param_float (PFloat v) = Some v"
| "param_float (PStr s) = float_of_string s"

fun json_param :: "param_value \<Rightarrow> py_error + string" where
  "json_param (PFloat v) = Inr (json_float v)"
| "json_param (PStr s) = Inr (json_string s)"

fun json_metric :: "pyfloat option \<Rightarrow> py_error + string" where
  "json_metric None = Inr ''null''"
| "json_metric (Some v) = Inr (json_float v)"

fun add_all :: "('v \<Rightarrow> py_error + string) \<Rightarrow> (string \<Rightarrow> string list) \<Rightarrow> (string, 'v) dict \<Rightarrow>
    (string, string) dict \<Rightarrow> py_error + (string, string) dict" where
  "add_all f names [] ctx = Inr ctx"
| "add_all f names ((k, v) # d) ctx =
     ebind (f v) (\<lambda>s. add_all f names d (fold (\<lambda>n c. dict_set n s c) (names k) ctx))"

section \<open>Messages and log records\<close>

definition render_template ::
    "engine_env \<Rightarrow> string \<Rightarrow> alert_definition \<Rightarrow> alert_entity \<Rightarrow> py_error + string option" where
  "render_template env template defn inst =
     ebind (add_all (\<lambda>c. Inr (cell_str c)) (\<lambda>k. [k]) (ae_entity_labels inst) []) (\<lambda>c1.
     ebind (fmt_number (ae_current_value inst)) (\<lambda>v.
       let c2 = dict_set ''entity_key'' (ae_entity_key inst)
                  (dict_set ''alert_name'' (ad_name defn)
                    (dict_set ''fire_count'' (str_int (ae_fire_count inst))
                      (dict_set ''value'' v c1)))
       in ebind (add_all fmt_number (\<lambda>k. [k]) (ae_metric_values inst) c2) (\<lambda>c3.
          ebind (add_all fmt_param (\<lambda>k. [k, CHR ''$'' # k]) (ae_threshold_values inst) c3) (\<lambda>c4.
            case format_map (env_format env) template c4 of
              FmtText s \<Rightarrow> Inr (Some s)
            | FmtError ValueError \<Rightarrow> Inr None
            | FmtError TypeError \<Rightarrow> Inr None
            | FmtError e \<Rightarrow> Inl e))))"

definition entity_display :: "alert_entity \<Rightarrow> string" where
  "entity_display inst =
     (let labels = ae_entity_labels inst
      in if cell_true (labels_get labels ''if_name'') then cell_str (labels_get labels ''if_name'')
         else if cell_true (labels_get labels ''component'') then cell_str (labels_get labels ''component'')
         else ae_entity_key inst)"

definition device_display :: "alert_entity \<Rightarrow> string" where
  "device_display inst = cell_str (dict_get (ae_entity_labels inst) ''device_name'' (CText ''unknown''))"

definition value_suffix :: "pyfloat option \<Rightarrow> string" where
  "value_suffix v = (case v of None \<Rightarrow> [] | Some x \<Rightarrow> '' = '' @ py_repr (py_round 2 x))"

definition fallback_message :: "alert_definition \<Rightarrow> alert_entity \<Rightarrow> string" where
  "fallback_message defn inst =
     strip (ad_name defn @ value_suffix (ae_current_value inst) @ '' on '' @ device_display inst @
            '' '' @ entity_display inst @ '' ['' @ str_int (ae_fire_count inst) @ ''x]'')"

definition tier_template :: "alert_definition \<Rightarrow> string option \<Rightarrow> string option" where
  "tier_template defn severity =
     (case find (\<lambda>t. tier_get t ''severity'' = severity) (ad_severity_tiers defn) of
        Some t \<Rightarrow> tier_get t ''message_template''
      | None \<Rightarrow> None)"

definition build_message ::
    "engine_env \<Rightarrow> alert_definition \<Rightarrow> alert_entity \<Rightarrow> string \<Rightarrow> py_error + string" where
  "build_message env defn inst action =
     (let target = (if action = ''clear'' then Some ''healthy'' else ae_severity inst);
          template = (if truthy target then tier_template defn target else None)
      in ebind (if truthy template then render_template env (the template) defn inst else Inr None) (\<lambda>r.
           if truthy r then Inr (the r)
           else if action = ''clear''
           then Inr (strip (ad_name defn @ '' on '' @ device_display inst @ '' recovered''))
           else Inr (fallback_message defn inst)))"

definition ZERO_UUID :: string where
  "ZERO_UUID = ''00000000-0000-0000-0000-000000000000''"

text \<open>\<open>tenant_by_device\<close> maps a device to its tenant's id (if any) and name.\<close>

type_synonym tenants = "(string, string option \<times> string) dict"

definition threshold_scalar :: "(string, param_value) dict \<Rightarrow> pyfloat" where
  "threshold_scalar d =
     (case d of [] \<Rightarrow> Fin 0 | (k, v) # _ \<Rightarrow> (case param_float v of Some x \<Rightarrow> x | None \<Rightarrow> Fin 0))"

definition build_log_record ::
    "engine_env \<Rightarrow> alert_definition \<Rightarrow> alert_entity \<Rightarrow> string \<Rightarrow> tenants \<Rightarrow> string \<Rightarrow> py_error + log_record" where
  "build_log_record env defn inst action tenants clear_expression =
     (let (tid, tname) = (case ae_device_id inst of
                            Some d \<Rightarrow> dict_get tenants d (None, [])
                          | None \<Rightarrow> (None, []))
      in ebind (json_dumps json_cell (ae_entity_labels inst)) (\<lambda>js_labels.
         ebind (build_message env defn inst action) (\<lambda>msg.
         ebind (json_dumps json_metric (ae_metric_values inst)) (\<lambda>js_metrics.
         ebind (json_dumps json_param (ae_threshold_values inst)) (\<lambda>js_thresholds.
           Inr \<lparr>lr_definition_id = ad_id defn,
                lr_definition_name = ad_name defn,
                lr_entity_key = ae_entity_key inst,
                lr_action = action,
                lr_severity = (if action = ''clear'' then ''healthy''
                               else case ae_severity inst of Some s \<Rightarrow> s | None \<Rightarrow> []),
                lr_current_value = (case ae_current_value inst of Some v \<Rightarrow> v | None \<Rightarrow> Fin 0),
                lr_threshold_value = threshold_scalar (ae_threshold_values inst),
                lr_expression = (if action = ''clear'' then Some clear_expression
                                 else expression_for_severity defn (ae_severity inst)),
                lr_device_id = (case ae_device_id inst of Some d \<Rightarrow> d | None \<Rightarrow> ZERO_UUID),
                lr_device_name = dict_get (ae_entity_labels inst) ''device_name'' (CText []),
                lr_assignment_id = ae_assignment_id inst,
                lr_app_id = ad_app_id defn,
                lr_app_name = ad_app_name defn,
                lr_tenant_id = (case tid of Some t \<Rightarrow> t | None \<Rightarrow> ZERO_UUID),
                lr_tenant_name = tname,
                lr_entity_labels = js_labels,
                lr_fire_count = ae_fire_count inst,
                lr_message = msg,
                lr_metric_values = js_metrics,
                lr_threshold_values = js_thresholds,
                lr_occurred_at = env_now env\<rparr>)))))"

section \<open>Queries\<close>

definition assignment_list :: "engine_env \<Rightarrow> alert_entity list \<Rightarrow> string" where
  "assignment_list env instances =
     join '', '' (map quoted (env_set_list env (remdups (map ae_assignment_id instances))))"

definition resolve_threshold ::
    "(string, threshold_variable) dict \<Rightarrow> threshold_param \<Rightarrow> (string, param_value) dict \<Rightarrow> (string, param_value) dict" where
  "resolve_threshold vars tp params =
     (case map_of vars (tp_name tp) of
        None \<Rightarrow> params
      | Some var \<Rightarrow>
          (case tv_app_value var of
             Some v \<Rightarrow> dict_set (tp_param_key tp) (PFloat v) params
           | None \<Rightarrow> dict_set (tp_param_key tp) (PFloat (tv_default_value var)) params))"

definition effective_params ::
    "compiled_query \<Rightarrow> (string, threshold_variable) dict \<Rightarrow> (string, param_value) dict" where
  "effective_params compiled vars = fold (resolve_threshold vars) (cq_threshold_params compiled) (cq_params compiled)"

definition row_text :: "row \<Rightarrow> string \<Rightarrow> string" where
  "row_text row k = cell_str (dict_get row k (CText []))"

definition row_entity :: "row \<Rightarrow> string \<times> labels" where
  "row_entity row =
     (let dev = (''device_name'', dict_get row ''device_name'' (CText []))
      in if ''interface_id'' \<in> set (dict_keys row) then
           (row_text row ''device_id'' @ ''|'' @ row_text row ''interface_id'',
            [dev, (''if_name'', dict_get row ''if_name'' (CText []))])
         else if ''component_type'' \<in> set (dict_keys row) then
           (row_text row ''device_id'' @ ''|'' @ row_text row ''component_type'' @ ''|'' @
            row_text row ''component'', [dev])
         else if ''config_key'' \<in> set (dict_keys row) then
           (row_text row ''device_id'' @ ''|'' @ row_text row ''config_key'', [dev])
         else ([], [dev]))"

definition opt_float :: "cell \<Rightarrow> py_error + pyfloat option" where
  "opt_float c = (if c = CNone then Inr None else ebind (cell_float c) (\<lambda>v. Inr (Some v)))"

fun row_metrics ::
    "row \<Rightarrow> (string, string) dict \<Rightarrow> (string, pyfloat option) dict \<Rightarrow> py_error + (string, pyfloat option) dict" where
  "row_metrics row [] acc = Inr acc"
| "row_metrics row ((metric_name, alias) # aliases) acc =
     ebind (opt_float (dict_get row alias CNone)) (\<lambda>v.
       row_metrics row aliases (dict_set metric_name (map_option (py_round 4) v) acc))"

definition starts_with :: "string \<Rightarrow> string \<Rightarrow> bool" where
  "starts_with p s \<longleftrightarrow> take (length p) s = p"

definition row_value :: "row \<Rightarrow> (string, pyfloat option) dict \<Rightarrow> py_error + pyfloat option" where
  "row_value row metric_vals =
     (case metric_vals of
        (_, Some v) # _ \<Rightarrow> Inr (Some v)
      | _ \<Rightarrow>
          (case find (\<lambda>(k, _). starts_with ''_agg_'' k \<or> starts_with ''_arith_'' k) row of
             None \<Rightarrow> Inr None
           | Some (_, c) \<Rightarrow> opt_float c))"

definition resolved_thresholds ::
    "compiled_query \<Rightarrow> (string, param_value) dict \<Rightarrow> (string, param_value) dict" where
  "resolved_thresholds compiled params =
     fold (\<lambda>tp d. dict_set (tp_name tp) (dict_get params (tp_param_key tp) (PFloat (tp_default_value tp))) d)
       (cq_threshold_params compiled) []"

fun collect_firing ::
    "compiled_query \<Rightarrow> (string, param_value) dict \<Rightarrow> row list \<Rightarrow> firing \<Rightarrow> py_error + firing" where
  "collect_firing compiled params [] acc = Inr acc"
| "collect_firing compiled params (row # rows) acc =
     (let aid = dict_get row ''assignment_id'' (CText []); (entity_key, labels) = row_entity row
      in ebind (row_metrics row (cq_metric_aliases compiled) []) (\<lambda>metric_vals.
         ebind (row_value row metric_vals) (\<lambda>value.
           collect_firing compiled params rows
             (dict_set (aid, entity_key)
                \<lparr>fd_value = value, fd_labels = labels, fd_assignment_id = aid,
                 fd_metric_values = metric_vals,
                 fd_threshold_values = resolved_thresholds compiled params\<rparr> acc))))"

definition scoped_sql :: "engine_env \<Rightarrow> compiled_query \<Rightarrow> alert_entity list \<Rightarrow> string" where
  "scoped_sql env compiled instances =
     replace_first ''WHERE '' (''WHERE assignment_id IN ('' @ assignment_list env instances @ '') AND '')
       (cq_sql compiled)"

definition execute_compiled_query ::
    "engine_env \<Rightarrow> compiled_query \<Rightarrow> alert_entity list \<Rightarrow> (string, threshold_variable) dict \<Rightarrow> py_error + firing" where
  "execute_compiled_query env compiled instances vars =
     (let params = effective_params compiled vars
      in ebind (query_for_alert env (scoped_sql env compiled instances)
                  (map (\<lambda>(k, v). (k, QParam v)) params)) (\<lambda>rows.
           collect_firing compiled params rows []))"

text \<open>
  \<open>_evaluate_config_changed\<close>: besides the firing keys it gives the instances back, since it
  stores a baseline hash in the labels of an instance that has none.  The lookup dict maps a key
  to the position of its instance.
\<close>

definition inst_lookup :: "alert_entity list \<Rightarrow> (string \<times> string, nat) dict" where
  "inst_lookup instances =
     fold (\<lambda>(i, inst) d. dict_set (ae_assignment_id inst, ae_entity_key inst) i d)
       (enumerate 0 instances) []"

definition config_changed_row ::
    "(string \<times> string, nat) dict \<Rightarrow> row \<Rightarrow> firing \<times> alert_entity list \<Rightarrow> firing \<times> alert_entity list" where
  "config_changed_row lookup row s =
     (let (firing, instances) = s;
          entity_key = row_text row ''device_id'' @ ''|'' @ row_text row ''config_key'';
          current_hash = dict_get row ''config_hash'' (CText [])
      in case find (\<lambda>((aid, ek), _). ek = entity_key \<or> ek = []) lookup of
           None \<Rightarrow> (firing, instances)
         | Some ((aid, ek), i) \<Rightarrow>
             (let inst = instances ! i; prev_hash = labels_get (ae_entity_labels inst) ''last_config_hash''
              in if prev_hash = CNone then
                   (firing, instances[i := inst\<lparr>ae_entity_labels :=
                      dict_set ''last_config_hash'' current_hash (ae_entity_labels inst)\<rparr>])
                 else if prev_hash \<noteq> current_hash then
                   (dict_set (CText aid, entity_key)
                      \<lparr>fd_value = None,
                       fd_labels = [(''device_name'', dict_get row ''device_name'' (CText [])),
                                    (''last_config_hash'', current_hash)],
                       fd_assignment_id = CText aid, fd_metric_values = [], fd_threshold_values = []\<rparr> firing,
                    instances)
                 else (firing, instances)))"

definition config_changed_sql :: "engine_env \<Rightarrow> alert_entity list \<Rightarrow> string" where
  "config_changed_sql env instances =
     ''SELECT toString(device_id) AS device_id, config_key, config_hash, config_value, '' @
     ''any(device_name) AS device_name '' @
     ''FROM config_latest FINAL '' @
     ''WHERE config_key = {key:String} AND assignment_id IN ('' @ assignment_list env instances @ '') '' @
     ''GROUP BY device_id, config_key, config_hash, config_value''"

definition evaluate_config_changed ::
    "engine_env \<Rightarrow> alert_entity list \<Rightarrow> string \<Rightarrow> firing \<times> alert_entity list" where
  "evaluate_config_changed env instances config_key =
     (case query_for_alert env (config_changed_sql env instances) [(''key'', QParam (PStr config_key))] of
        Inl _ \<Rightarrow> ([], instances)
      | Inr rows \<Rightarrow> fold (config_changed_row (inst_lookup instances)) rows ([], instances))"

section \<open>Freshness\<close>

definition cutoff_step ::
    "alert_entity \<Rightarrow> (string, time option) dict \<Rightarrow> (string, time option) dict" where
  "cutoff_step inst d =
     (let aid = ae_assignment_id inst
      in case ae_last_evaluated_at inst of
           None \<Rightarrow> dict_set aid None d
         | Some t \<Rightarrow>
             (case map_of d aid of
                None \<Rightarrow> dict_set aid (Some t) d
              | Some None \<Rightarrow> d
              | Some (Some p) \<Rightarrow> if t < p then dict_set aid (Some t) d else d))"

definition cutoff_by_aid :: "alert_entity list \<Rightarrow> (string, time option) dict" where
  "cutoff_by_aid instances = fold cutoff_step instances []"

definition cell_time :: "engine_env \<Rightarrow> cell \<Rightarrow> time option" where
  "cell_time env c = (case c of CTime t s \<Rightarrow> Some t | _ \<Rightarrow> env_fromiso env (cell_str c))"

definition row_fresh :: "engine_env \<Rightarrow> (string, time) dict \<Rightarrow> row \<Rightarrow> string list" where
  "row_fresh env aids_to_check row =
     (let aid = dict_get row ''aid'' CNone; max_rcv = dict_get row ''max_rcv'' CNone
      in if aid = CNone \<or> max_rcv = CNone then []
         else case cell_time env max_rcv of
                None \<Rightarrow> []
              | Some t \<Rightarrow>
                  (case aid of
                     CText a \<Rightarrow> (case map_of aids_to_check a of
                                   Some cutoff \<Rightarrow> if cutoff < t then [a] else []
                                 | None \<Rightarrow> [])
                   | _ \<Rightarrow> []))"

definition fresh_sql :: "string \<Rightarrow> (string, time) dict \<Rightarrow> string" where
  "fresh_sql tbl aids_to_check =
     ''SELECT toString(assignment_id) AS aid, '' @
     ''       max(received_at) AS max_rcv '' @
     ''FROM '' @ tbl @ '' '' @
     ''WHERE assignment_id IN ('' @ join '', '' (map quoted (dict_keys aids_to_check)) @ '') '' @
     ''  AND received_at > {cutoff:DateTime64(3, '' @ quoted ''UTC'' @ '')} '' @
     (if tbl = ''config'' then [] else ''  AND error_category = '' @ quoted [] @ '' '') @
     ''GROUP BY assignment_id''"

definition fresh_assignments ::
    "engine_env \<Rightarrow> string \<Rightarrow> alert_entity list \<Rightarrow> bool \<Rightarrow> string list" where
  "fresh_assignments env target_table instances is_config_changed =
     (let cutoffs = cutoff_by_aid instances;
          fresh = map fst (filter (\<lambda>(_, c). c = None) cutoffs);
          aids_to_check = List.map_filter (\<lambda>(a, c). map_option (\<lambda>t. (a, t)) c) cutoffs;
          tbl = (if is_config_changed then ''config'' else target_table)
      in if aids_to_check = [] then fresh
         else case query_for_alert env (fresh_sql tbl aids_to_check)
                     [(''cutoff'', QTime (Min (set (map snd aids_to_check))))] of
                Inl _ \<Rightarrow> fresh
              | Inr rows \<Rightarrow> fresh @ concat (map (row_fresh env aids_to_check) rows))"

section \<open>Stepping one instance\<close>

type_synonym tier_results = "(string option \<times> firing) list"

definition inst_key :: "alert_entity \<Rightarrow> cell \<times> string" where
  "inst_key inst = (CText (ae_assignment_id inst), ae_entity_key inst)"

definition no_fire :: fire_data where
  "no_fire = \<lparr>fd_value = None, fd_labels = [], fd_assignment_id = CNone, fd_metric_values = [],
     fd_threshold_values = []\<rparr>"

text \<open>The loop that picks the highest matching tier and its data.\<close>

definition effective_step ::
    "cell \<times> string \<Rightarrow> string option \<times> firing \<Rightarrow> string option \<times> fire_data \<Rightarrow> string option \<times> fire_data" where
  "effective_step key tier best =
     (case map_of (snd tier) key of
        Some fd \<Rightarrow> if compare_severity (fst tier) (fst best) > 0 then (fst tier, fd) else best
      | None \<Rightarrow> best)"

definition effective :: "tier_results \<Rightarrow> cell \<times> string \<Rightarrow> string option \<times> fire_data" where
  "effective results key = fold (effective_step key) results (None, no_fire)"

definition push_history :: "bool \<Rightarrow> alert_entity \<Rightarrow> alert_entity" where
  "push_history b inst = inst\<lparr>ae_fire_history := last_n 19 (ae_fire_history inst) @ [b]\<rparr>"

definition refresh_from_healthy :: "firing \<Rightarrow> alert_entity \<Rightarrow> alert_entity" where
  "refresh_from_healthy healthy_fk inst =
     (case map_of healthy_fk (inst_key inst) of
        Some h \<Rightarrow> inst\<lparr>ae_current_value := fd_value h, ae_metric_values := fd_metric_values h,
                       ae_threshold_values := fd_threshold_values h\<rparr>
      | None \<Rightarrow> inst\<lparr>ae_current_value := None, ae_metric_values := [], ae_threshold_values := []\<rparr>)"

definition set_resolved :: "time \<Rightarrow> alert_entity \<Rightarrow> alert_entity" where
  "set_resolved now inst =
     inst\<lparr>ae_state := ''resolved'', ae_severity := None, ae_last_cleared_at := Some now, ae_fire_count := 0\<rparr>"

definition record_fire :: "time \<Rightarrow> fire_data \<Rightarrow> alert_entity \<Rightarrow> alert_entity" where
  "record_fire now fd inst =
     inst\<lparr>ae_current_value := fd_value fd,
          ae_entity_labels := (if fd_labels fd \<noteq> [] then fd_labels fd else ae_entity_labels inst),
          ae_metric_values := fd_metric_values fd,
          ae_threshold_values := fd_threshold_values fd,
          ae_last_triggered_at := Some now\<rparr>"

text \<open>
  One instance of the loop in \<open>_evaluate_definition\<close>.  \<open>healthy\<close> is the healthy tier when it has
  an expression: that expression and its matches.  The result is the instance and its log
  records.
\<close>

definition step_unmatched ::
    "engine_env \<Rightarrow> alert_definition \<Rightarrow> tenants \<Rightarrow> (string \<times> firing) option \<Rightarrow> alert_entity \<Rightarrow>
     py_error + (alert_entity \<times> log_record list)" where
  "step_unmatched env defn tenants healthy inst =
     (let now = env_now env
      in case healthy of
           Some (healthy_expr, healthy_fk) \<Rightarrow>
             (if map_of healthy_fk (inst_key inst) \<noteq> None \<and> ae_state inst = ''firing'' then
                (let i1 = (set_resolved now (push_history False inst))\<lparr>ae_current_state_since := None\<rparr>;
                     i2 = refresh_from_healthy healthy_fk i1
                 in ebind (build_log_record env defn i2 ''clear'' tenants healthy_expr) (\<lambda>r. Inr (i2, [r])))
              else Inr (inst, []))
         | None \<Rightarrow>
             (let i0 = push_history False inst
              in if ae_state inst = ''firing'' then
                   (let i2 = refresh_from_healthy [] (set_resolved now i0)
                    in ebind (build_log_record env defn i2 ''clear'' tenants []) (\<lambda>r. Inr (i2, [r])))
                 else Inr (i0, [])))"

definition step_matched ::
    "engine_env \<Rightarrow> alert_definition \<Rightarrow> tenants \<Rightarrow> string option \<Rightarrow> fire_data \<Rightarrow> alert_entity \<Rightarrow>
     py_error + (alert_entity \<times> log_record list)" where
  "step_matched env defn tenants effective_sev fd inst =
     (let now = env_now env;
          i1 = record_fire now fd (push_history True inst)
      in if ae_state inst \<noteq> ''firing'' then
           (let i2 = i1\<lparr>ae_state := ''firing'', ae_severity := effective_sev,
                        ae_started_firing_at := Some now, ae_current_state_since := Some now,
                        ae_fire_count := 1\<rparr>
            in ebind (build_log_record env defn i2 ''fire'' tenants []) (\<lambda>r. Inr (i2, [r])))
         else if compare_severity effective_sev (ae_severity inst) \<noteq> 0 then
           (let i2 = i1\<lparr>ae_severity := effective_sev, ae_current_state_since := Some now,
                        ae_fire_count := 1\<rparr>;
                action = (if compare_severity effective_sev (ae_severity inst) > 0
                          then ''escalate'' else ''downgrade'')
            in ebind (build_log_record env defn i2 action tenants []) (\<lambda>r. Inr (i2, [r])))
         else Inr (i1\<lparr>ae_fire_count := ae_fire_count i1 + 1\<rparr>, []))"

definition step_instance ::
    "engine_env \<Rightarrow> alert_definition \<Rightarrow> tenants \<Rightarrow> string list \<Rightarrow> tier_results \<Rightarrow> (string \<times> firing) option \<Rightarrow>
     alert_entity \<Rightarrow> py_error + (alert_entity \<times> log_record list)" where
  "step_instance env defn tenants fresh_aids results healthy inst =
     (if ae_assignment_id inst \<notin> set fresh_aids then Inr (inst, [])
      else let (sev, fd) = effective results (inst_key inst);
               i0 = inst\<lparr>ae_last_evaluated_at := Some (env_now env)\<rparr>
           in if sev = None then step_unmatched env defn tenants healthy i0
              else step_matched env defn tenants sev fd i0)"

fun step_all ::
    "(alert_entity \<Rightarrow> py_error + (alert_entity \<times> log_record list)) \<Rightarrow> alert_entity list \<Rightarrow>
     py_error + (alert_entity list \<times> log_record list)" where
  "step_all f [] = Inr ([], [])"
| "step_all f (inst # insts) =
     ebind (f inst) (\<lambda>(i, rs). ebind (step_all f insts) (\<lambda>(is, rs'). Inr (i # is, rs @ rs')))"

section \<open>One definition\<close>

text \<open>
  The tiers are compiled up front; \<open>None\<close> is the early return when one does not compile.  The
  access \<open>tier["severity"]\<close> raises on a tier without that key.
\<close>

definition is_healthy :: "tier \<Rightarrow> bool" where
  "is_healthy t \<longleftrightarrow> tier_get t ''severity'' = Some ''healthy''"

fun compile_tiers ::
    "string \<Rightarrow> string \<Rightarrow> tier list \<Rightarrow> (string option \<times> compiled_query) list \<Rightarrow> (string \<times> compiled_query) option \<Rightarrow>
     py_error + ((string option \<times> compiled_query) list \<times> (string \<times> compiled_query) option) option" where
  "compile_tiers tbl window [] acc healthy = Inr (Some (acc, healthy))"
| "compile_tiers tbl window (t # ts) acc healthy =
     (if \<not> truthy (tier_get t ''expression'') then compile_tiers tbl window ts acc healthy
      else let expr = the (tier_get t ''expression'')
           in case ebind (parse_expression expr) (\<lambda>a. compile_to_sql a tbl window) of
                Inl _ \<Rightarrow> Inr None
              | Inr compiled \<Rightarrow>
                  if is_healthy t then compile_tiers tbl window ts acc (Some (expr, compiled))
                  else (case map_of t ''severity'' of
                          None \<Rightarrow> Inl KeyError
                        | Some sev \<Rightarrow> compile_tiers tbl window ts (acc @ [(sev, compiled)]) healthy))"

definition config_key_of :: "compiled_query \<Rightarrow> string" where
  "config_key_of compiled = (case cq_config_changed_key compiled of Some k \<Rightarrow> k | None \<Rightarrow> [])"

fun run_tiers ::
    "engine_env \<Rightarrow> bool \<Rightarrow> (string, threshold_variable) dict \<Rightarrow> (string option \<times> compiled_query) list \<Rightarrow>
     alert_entity list \<Rightarrow> py_error + (tier_results \<times> alert_entity list)" where
  "run_tiers env is_cc vars [] instances = Inr ([], instances)"
| "run_tiers env is_cc vars ((sev, compiled) # ts) instances =
     (if is_cc then
        (let (fk, instances') = evaluate_config_changed env instances (config_key_of compiled)
         in ebind (run_tiers env is_cc vars ts instances') (\<lambda>(rs, insts). Inr ((sev, fk) # rs, insts)))
      else
        ebind (execute_compiled_query env compiled instances vars) (\<lambda>fk.
        ebind (run_tiers env is_cc vars ts instances) (\<lambda>(rs, insts). Inr ((sev, fk) # rs, insts))))"

definition run_healthy ::
    "engine_env \<Rightarrow> bool \<Rightarrow> (string, threshold_variable) dict \<Rightarrow> (string \<times> compiled_query) option \<Rightarrow>
     alert_entity list \<Rightarrow> (string \<times> firing) option \<times> alert_entity list" where
  "run_healthy env is_cc vars healthy instances =
     (case healthy of
        None \<Rightarrow> (None, instances)
      | Some (expr, compiled) \<Rightarrow>
          (if is_cc then
             (let (fk, instances') = evaluate_config_changed env instances (config_key_of compiled)
              in (Some (expr, fk), instances'))
           else
             (case execute_compiled_query env compiled instances vars of
                Inl _ \<Rightarrow> (Some (expr, []), instances)
              | Inr fk \<Rightarrow> (Some (expr, fk), instances))))"

record alert_db =
  db_definitions :: "alert_definition list"
  db_entities :: "alert_entity list"
  db_devices :: "(string, string option) dict"
  db_tenants :: "(string, string) dict"
  db_variables :: "threshold_variable list"
  db_alert_log :: "log_record list"

definition own_entity :: "string \<Rightarrow> alert_entity \<Rightarrow> bool" where
  "own_entity d e \<longleftrightarrow> ae_definition_id e = d \<and> ae_enabled e"

definition tenant_by_device :: "alert_db \<Rightarrow> alert_entity list \<Rightarrow> tenants" where
  "tenant_by_device db instances =
     List.map_filter (\<lambda>(dev, tid).
         if Some dev \<in> set (map ae_device_id instances)
         then Some (dev, (tid, case tid of None \<Rightarrow> [] | Some t \<Rightarrow> dict_get (db_tenants db) t []))
         else None)
       (db_devices db)"

definition var_by_name :: "alert_db \<Rightarrow> string \<Rightarrow> (string, threshold_variable) dict" where
  "var_by_name db app =
     fold (\<lambda>v d. dict_set (tv_name v) v d) (filter (\<lambda>v. tv_app_id v = app) (db_variables db)) []"

definition evaluate_definition ::
    "engine_env \<Rightarrow> alert_db \<Rightarrow> alert_definition \<Rightarrow> py_error + (alert_entity list \<times> log_record list)" where
  "evaluate_definition env db defn =
     (let tbl = ad_target_table defn; tiers = ad_severity_tiers defn;
          instances = filter (own_entity (ad_id defn)) (db_entities db)
      in ebind (compile_tiers tbl (ad_window defn) tiers [] None) (\<lambda>c.
         case c of
           None \<Rightarrow> Inr (instances, [])
         | Some ([], _) \<Rightarrow> Inr (instances, [])
         | Some (ct # cts, healthy) \<Rightarrow>
             if instances = [] then Inr ([], [])
             else let is_cc = cq_is_config_changed (snd ct);
                      tenants = tenant_by_device db instances;
                      fresh_aids = fresh_assignments env tbl instances is_cc;
                      vars = var_by_name db (ad_app_id defn)
                  in ebind (run_tiers env is_cc vars (ct # cts) instances) (\<lambda>(results, instances1).
                     let (healthy_fk, instances2) = run_healthy env is_cc vars healthy instances1
                     in step_all (step_instance env defn tenants fresh_aids results healthy_fk) instances2)))"

section \<open>One cycle\<close>

text \<open>The rows of the session's instances are written back where they came from.\<close>

fun write_back :: "('a \<Rightarrow> bool) \<Rightarrow> 'a list \<Rightarrow> 'a list \<Rightarrow> 'a list" where
  "write_back P (x # xs) (y # ys) = (if P x then y # write_back P xs ys else x # write_back P xs (y # ys))"
| "write_back P xs ys = xs"

definition evaluate_definition_isolated ::
    "engine_env \<Rightarrow> alert_db \<Rightarrow> string \<Rightarrow> (py_error + log_record list) \<times> alert_db" where
  "evaluate_definition_isolated env db def_id =
     (case find (\<lambda>d. ad_id d = def_id) (db_definitions db) of
        None \<Rightarrow> (Inr [], db)
      | Some defn \<Rightarrow>
          if \<not> ad_enabled defn then (Inr [], db)
          else case evaluate_definition env db defn of
                 Inl e \<Rightarrow> (Inl e, db)
               | Inr (instances, records) \<Rightarrow>
                   (Inr records, db\<lparr>db_entities := write_back (own_entity def_id) (db_entities db) instances\<rparr>))"

fun eval_batch :: "engine_env \<Rightarrow> string list \<Rightarrow> alert_db \<Rightarrow> log_record list \<times> alert_db" where
  "eval_batch env [] db = ([], db)"
| "eval_batch env (d # ds) db =
     (let (r, db1) = evaluate_definition_isolated env db d; (rs, db2) = eval_batch env ds db1
      in ((case r of Inl _ \<Rightarrow> [] | Inr records \<Rightarrow> records) @ rs, db2))"

definition EVAL_CHUNK_SIZE :: nat where
  "EVAL_CHUNK_SIZE = 8"

function eval_chunks :: "engine_env \<Rightarrow> string list \<Rightarrow> alert_db \<Rightarrow> log_record list \<times> alert_db" where
  "eval_chunks env ds db =
     (if ds = [] then ([], db)
      else let (rs, db1) = eval_batch env (take EVAL_CHUNK_SIZE ds) db;
               (rs', db2) = eval_chunks env (drop EVAL_CHUNK_SIZE ds) db1
           in (rs @ rs', db2))"
  by pat_completeness auto
termination
  by (relation "measure (\<lambda>(env, ds, db). length ds)") (auto simp: EVAL_CHUNK_SIZE_def)

definition evaluate_all :: "engine_env \<Rightarrow> bool \<Rightarrow> alert_db \<Rightarrow> alert_db" where
  "evaluate_all env insert_ok db =
     (let def_ids = map ad_id (filter ad_enabled (db_definitions db));
          (records, db') = eval_chunks env def_ids db
      in if records \<noteq> [] \<and> insert_ok
         then db'\<lparr>db_alert_log := db_alert_log db' @ records\<rparr> else db')"

declare eval_chunks.simps [simp del]

end
