(* ===== verification/Incident_Engine.thy ===== *)
theory Incident_Engine
  imports Alert_Engine
begin

text \<open>
  The incident engine (\<open>incidents/engine.py\<close>): the validation of the JSON columns of a rule, one
  pass of a rule over the alert instances of its definition, the companion-clear pass, and the
  cycle over the enabled rules.  Incidents live in a table and are referred to by position, so
  that a change to an incident is seen by every later step.  An exception stops the rule it
  occurs in and leaves the changes already made, which the cycle then commits.
\<close>

section \<open>Data\<close>

record incident =
  inc_id :: string
  inc_rule_id :: string
  inc_entity_key :: string
  inc_assignment_id :: string
  inc_device_id :: "string option"
  inc_state :: string
  inc_severity :: string
  inc_message :: string
  inc_labels :: labels
  inc_fire_count :: int
  inc_opened_at :: time
  inc_last_fired_at :: time
  inc_cleared_at :: "time option"
  inc_cleared_reason :: "string option"
  inc_parent_incident_id :: "string option"
  inc_severity_reached_at :: "time option"

record incident_rule =
  ir_id :: string
  ir_name :: string
  ir_definition_id :: string
  ir_mode :: string
  ir_fire_count_threshold :: int
  ir_window_size :: int
  ir_severity :: string
  ir_message_template :: "string option"
  ir_auto_clear_on_resolve :: bool
  ir_scope_filter :: json
  ir_severity_ladder :: json
  ir_depends_on :: json
  ir_flap_guard_seconds :: "int option"
  ir_clear_on_companion_ids :: json
  ir_clear_companion_mode :: string
  ir_enabled :: bool

record transition =
  tr_incident_id :: string
  tr_rule_id :: string
  tr_transition :: string
  tr_device_id :: string
  tr_severity :: string
  tr_message :: string
  tr_labels :: labels

text \<open>
  What the engine is run with: the clock when a rule is evaluated, Python's formatting of rich
  templates, \<open>uuid.UUID\<close> as a function to the canonical text, and the ids that \<open>uuid4\<close> gives to
  the rows of the table.
\<close>

record incident_env =
  ie_now :: "string \<Rightarrow> time"
  ie_format :: "string \<Rightarrow> (string, string) dict \<Rightarrow> fmt_result"
  ie_uuid :: "string \<Rightarrow> string option"
  ie_new_id :: "nat \<Rightarrow> string"

section \<open>Validation of the JSON columns\<close>

text \<open>\<open>isinstance(x, int)\<close> holds for the booleans too.\<close>

fun json_int :: "json \<Rightarrow> int option" where
  "json_int (JInt i) = Some i"
| "json_int (JBool b) = Some (if b then 1 else 0)"
| "json_int _ = None"

definition obj_get :: "(string \<times> json) list \<Rightarrow> string \<Rightarrow> json \<Rightarrow> json" where
  "obj_get d k dflt = dict_get d k dflt"

type_synonym ladder = "(int \<times> string) list"

text \<open>
  \<open>_validate_ladder\<close>.  \<open>None\<close> is the rejected ladder.  The membership test on
  \<open>_SEVERITY_PRIORITY\<close> hashes the severity, which raises for a list or an object.
\<close>

fun ladder_entries :: "json list \<Rightarrow> int \<Rightarrow> int \<Rightarrow> py_error + ladder option" where
  "ladder_entries [] last_seconds last_priority = Inr (Some [])"
| "ladder_entries (entry # es) last_seconds last_priority =
     (case entry of
        JObj d \<Rightarrow>
          (case json_int (obj_get d ''after_seconds'' JNull) of
             None \<Rightarrow> Inr None
           | Some after \<Rightarrow>
               if after < 0 then Inr None
               else (case obj_get d ''severity'' JNull of
                       JArr _ \<Rightarrow> Inl TypeError
                     | JObj _ \<Rightarrow> Inl TypeError
                     | JStr sev \<Rightarrow>
                         if sev \<notin> set (dict_keys SEVERITY_PRIORITY) then Inr None
                         else if after \<le> last_seconds then Inr None
                         else if priority sev < last_priority then Inr None
                         else ebind (ladder_entries es after (priority sev)) (\<lambda>r.
                                Inr (map_option (\<lambda>l. (after, sev) # l) r))
                     | _ \<Rightarrow> Inr None))
      | _ \<Rightarrow> Inr None)"

definition validate_ladder :: "json \<Rightarrow> py_error + ladder option" where
  "validate_ladder raw =
     (case raw of
        JArr (e # es) \<Rightarrow>
          ebind (ladder_entries (e # es) (- 1) (- 1)) (\<lambda>r.
            case r of
              Some ((after, sev) # l) \<Rightarrow> if after \<noteq> 0 then Inr None else Inr (Some ((after, sev) # l))
            | _ \<Rightarrow> Inr None)
      | _ \<Rightarrow> Inr None)"

text \<open>The first step from the top whose time has been reached; \<open>elapsed\<close> is a float.\<close>

definition ladder_severity_at :: "ladder \<Rightarrow> pyfloat \<Rightarrow> string" where
  "ladder_severity_at ladder elapsed =
     (case find (\<lambda>(after, _). fle (Fin (of_int after)) elapsed) (rev ladder) of
        Some (_, sev) \<Rightarrow> sev
      | None \<Rightarrow> snd (hd ladder))"

fun string_items :: "(string \<times> json) list \<Rightarrow> (string, string) dict option" where
  "string_items [] = Some []"
| "string_items ((k, JStr v) # d) = map_option (\<lambda>r. (k, v) # r) (string_items d)"
| "string_items _ = None"

definition validate_scope_filter :: "json \<Rightarrow> (string, string) dict option" where
  "validate_scope_filter raw =
     (case raw of JObj [] \<Rightarrow> None | JObj d \<Rightarrow> string_items d | _ \<Rightarrow> None)"

fun uuid_list :: "(string \<Rightarrow> string option) \<Rightarrow> json list \<Rightarrow> string list option" where
  "uuid_list parse [] = Some []"
| "uuid_list parse (JStr rid # rs) =
     (case parse rid of None \<Rightarrow> None | Some u \<Rightarrow> map_option (\<lambda>us. u # us) (uuid_list parse rs))"
| "uuid_list parse _ = None"

fun string_list :: "json list \<Rightarrow> string list option" where
  "string_list [] = Some []"
| "string_list (JStr s # js) = map_option (\<lambda>ss. s # ss) (string_list js)"
| "string_list _ = None"

record depends =
  dep_rule_ids :: "string list"
  dep_match_on :: "string list"

definition validate_depends_on :: "incident_env \<Rightarrow> json \<Rightarrow> depends option" where
  "validate_depends_on env raw =
     (case raw of
        JObj d \<Rightarrow>
          (case obj_get d ''rule_ids'' JNull of
             JArr (r # rs) \<Rightarrow>
               (case uuid_list (ie_uuid env) (r # rs) of
                  None \<Rightarrow> None
                | Some ids \<Rightarrow>
                    (case obj_get d ''match_on'' (JArr []) of
                       JArr ks \<Rightarrow> map_option (\<lambda>m. \<lparr>dep_rule_ids = ids, dep_match_on = m\<rparr>) (string_list ks)
                     | _ \<Rightarrow> None))
           | _ \<Rightarrow> None)
      | _ \<Rightarrow> None)"

definition validate_companion_ids :: "incident_env \<Rightarrow> json \<Rightarrow> string list option" where
  "validate_companion_ids env raw =
     (case raw of JArr (r # rs) \<Rightarrow> uuid_list (ie_uuid env) (r # rs) | _ \<Rightarrow> None)"

section \<open>Helpers of the rule pass\<close>

definition matches_on :: "labels \<Rightarrow> labels \<Rightarrow> string \<Rightarrow> bool" where
  "matches_on parent_labels child_labels key \<longleftrightarrow>
     (let p_val = labels_get parent_labels key; c_val = labels_get child_labels key
      in p_val \<noteq> CNone \<and> c_val \<noteq> CNone \<and> cell_str p_val = cell_str c_val)"

definition find_matching_parent :: "incident list \<Rightarrow> string list \<Rightarrow> labels \<Rightarrow> string option" where
  "find_matching_parent parents match_on child_labels =
     map_option inc_id (find (\<lambda>p. list_all (matches_on (inc_labels p) child_labels) match_on) parents)"

definition entity_in_scope :: "alert_entity \<Rightarrow> (string, string) dict \<Rightarrow> bool" where
  "entity_in_scope inst scope =
     list_all (\<lambda>(key, required).
         let actual = labels_get (ae_entity_labels inst) key
         in actual \<noteq> CNone \<and> (required = [] \<or> cell_str actual = required)) scope"

text \<open>\<open>(now - t).total_seconds()\<close>.\<close>

definition total_seconds :: "time \<Rightarrow> time \<Rightarrow> pyfloat" where
  "total_seconds now t = to_double (of_int (now - t) / 1000000)"

definition apply_ladder :: "incident \<Rightarrow> ladder \<Rightarrow> time \<Rightarrow> incident \<times> bool" where
  "apply_ladder inc ladder now =
     (let target = ladder_severity_at ladder (total_seconds now (inc_opened_at inc))
      in if target = inc_severity inc then (inc, False)
         else if priority target \<le> priority (inc_severity inc) then (inc, False)
         else (inc\<lparr>inc_severity := target, inc_severity_reached_at := Some now\<rparr>, True))"

definition window_of :: "int \<Rightarrow> 'a list \<Rightarrow> 'a list" where
  "window_of w history =
     (if w = 0 then history
      else if 0 < w then last_n (nat w) history
      else drop (nat (- w)) history)"

definition meets_threshold :: "incident_rule \<Rightarrow> alert_entity \<Rightarrow> bool" where
  "meets_threshold rule inst =
     (if ir_mode rule = ''consecutive'' then ae_fire_count inst \<ge> ir_fire_count_threshold rule
      else if ir_mode rule = ''cumulative''
      then int (length (filter id (window_of (ir_window_size rule) (ae_fire_history inst))))
             \<ge> ir_fire_count_threshold rule
      else False)"

definition message_context :: "alert_definition \<Rightarrow> alert_entity \<Rightarrow> py_error + (string, string) dict" where
  "message_context defn inst =
     ebind (add_all (\<lambda>c. Inr (cell_str c)) (\<lambda>k. [k]) (ae_entity_labels inst) []) (\<lambda>c1.
     ebind (fmt_number (ae_current_value inst)) (\<lambda>v.
       let c2 = dict_set ''entity_key'' (ae_entity_key inst)
                  (dict_set ''fire_count'' (str_int (ae_fire_count inst))
                    (dict_set ''rule_name'' (ad_name defn)
                      (dict_set ''alert_name'' (ad_name defn)
                        (dict_set ''value'' v c1))))
       in ebind (add_all fmt_number (\<lambda>k. [k]) (ae_metric_values inst) c2) (\<lambda>c3.
            add_all fmt_param (\<lambda>k. [CHR ''$'' # k]) (ae_threshold_values inst) c3)))"

fun first_rendered ::
    "incident_env \<Rightarrow> alert_definition \<Rightarrow> alert_entity \<Rightarrow> string option list \<Rightarrow> py_error + string" where
  "first_rendered env defn inst [] = Inr (fallback_message defn inst)"
| "first_rendered env defn inst (t # ts) =
     (if \<not> truthy t then first_rendered env defn inst ts
      else ebind (message_context defn inst) (\<lambda>ctx.
        case format_map (ie_format env) (the t) ctx of
          FmtText s \<Rightarrow> Inr s
        | FmtError ValueError \<Rightarrow> first_rendered env defn inst ts
        | FmtError TypeError \<Rightarrow> first_rendered env defn inst ts
        | FmtError e \<Rightarrow> Inl e))"

definition incident_message ::
    "incident_env \<Rightarrow> incident_rule \<Rightarrow> alert_definition \<Rightarrow> alert_entity \<Rightarrow> py_error + string" where
  "incident_message env rule defn inst =
     first_rendered env defn inst [ir_message_template rule, tier_template defn (ae_severity inst)]"

section \<open>The pass of a rule\<close>

text \<open>The state of the session while a rule runs: the incidents table, the counters and the
  transitions recorded so far.\<close>

record pass_state =
  ps_incidents :: "incident list"
  ps_opened :: nat
  ps_updated :: nat
  ps_cleared :: nat
  ps_escalated :: nat
  ps_transitions :: "transition list"

definition transition_of :: "incident_rule \<Rightarrow> string \<Rightarrow> incident \<Rightarrow> string \<Rightarrow> transition" where
  "transition_of rule id_text inc tr =
     \<lparr>tr_incident_id = id_text, tr_rule_id = ir_id rule, tr_transition = tr,
      tr_device_id = (case inc_device_id inc of Some d \<Rightarrow> d | None \<Rightarrow> []),
      tr_severity = inc_severity inc, tr_message = inc_message inc, tr_labels = inc_labels inc\<rparr>"

definition put_incident :: "nat \<Rightarrow> incident \<Rightarrow> pass_state \<Rightarrow> pass_state" where
  "put_incident i inc s = s\<lparr>ps_incidents := (ps_incidents s)[i := inc]\<rparr>"

definition record_transition :: "transition \<Rightarrow> pass_state \<Rightarrow> pass_state" where
  "record_transition t s = s\<lparr>ps_transitions := ps_transitions s @ [t]\<rparr>"

definition clear_incident :: "incident_rule \<Rightarrow> time \<Rightarrow> string \<Rightarrow> nat \<Rightarrow> pass_state \<Rightarrow> pass_state" where
  "clear_incident rule now reason i s =
     (let inc = (ps_incidents s ! i)\<lparr>inc_state := ''cleared'', inc_cleared_at := Some now,
                   inc_cleared_reason := Some reason\<rparr>
      in record_transition (transition_of rule (inc_id inc) inc ''cleared'')
           ((put_incident i inc s)\<lparr>ps_cleared := ps_cleared s + 1\<rparr>))"

text \<open>What the pass of a rule computes before its loop.\<close>

record rule_ctx =
  rc_open_by_key :: "(string, nat) dict"
  rc_ladder :: "ladder option"
  rc_scope :: "(string, string) dict option"
  rc_depends :: bool
  rc_parents :: "incident list"
  rc_match_on :: "string list"
  rc_now :: time

definition incident_key :: "alert_entity \<Rightarrow> string" where
  "incident_key inst = ae_assignment_id inst @ ''|'' @ ae_entity_key inst"

definition base_severity :: "rule_ctx \<Rightarrow> incident_rule \<Rightarrow> alert_entity \<Rightarrow> string" where
  "base_severity ctx rule inst =
     (if truthy (ae_severity inst) then the (ae_severity inst)
      else case rc_ladder ctx of
             Some ((_, sev) # _) \<Rightarrow> if sev \<noteq> [] then sev else ir_severity rule
           | _ \<Rightarrow> ir_severity rule)"

definition open_incident ::
    "incident_env \<Rightarrow> rule_ctx \<Rightarrow> incident_rule \<Rightarrow> alert_definition \<Rightarrow> alert_entity \<Rightarrow> pass_state \<Rightarrow>
     pass_state \<times> py_error option" where
  "open_incident env ctx rule defn inst s =
     (if \<not> meets_threshold rule inst then (s, None)
      else case incident_message env rule defn inst of
             Inl e \<Rightarrow> (s, Some e)
           | Inr msg \<Rightarrow>
               (let now = rc_now ctx;
                    new_inc = \<lparr>inc_id = ie_new_id env (length (ps_incidents s)), inc_rule_id = ir_id rule,
                      inc_entity_key = incident_key inst, inc_assignment_id = ae_assignment_id inst,
                      inc_device_id = ae_device_id inst, inc_state = ''open'',
                      inc_severity = base_severity ctx rule inst, inc_message = msg,
                      inc_labels = ae_entity_labels inst, inc_fire_count = 1, inc_opened_at = now,
                      inc_last_fired_at = now, inc_cleared_at = None, inc_cleared_reason = None,
                      inc_parent_incident_id =
                        find_matching_parent (rc_parents ctx) (rc_match_on ctx) (ae_entity_labels inst),
                      inc_severity_reached_at = Some now\<rparr>
                in (record_transition (transition_of rule ''None'' new_inc ''opened'')
                      (s\<lparr>ps_incidents := ps_incidents s @ [new_inc], ps_opened := ps_opened s + 1\<rparr>), None)))"

definition touch_incident :: "rule_ctx \<Rightarrow> incident \<Rightarrow> incident" where
  "touch_incident ctx inc =
     inc\<lparr>inc_last_fired_at := rc_now ctx, inc_fire_count := inc_fire_count inc + 1\<rparr>"

definition refresh_incident :: "rule_ctx \<Rightarrow> alert_entity \<Rightarrow> string \<Rightarrow> incident \<Rightarrow> incident" where
  "refresh_incident ctx inst msg inc =
     (let inc1 = inc\<lparr>inc_message := msg,
                   inc_labels := (if ae_entity_labels inst \<noteq> [] then ae_entity_labels inst else inc_labels inc)\<rparr>
      in if rc_depends ctx
         then inc1\<lparr>inc_parent_incident_id :=
                find_matching_parent (rc_parents ctx) (rc_match_on ctx) (inc_labels inc1)\<rparr>
         else inc1)"

definition climb :: "rule_ctx \<Rightarrow> incident \<Rightarrow> incident \<times> bool" where
  "climb ctx inc = (case rc_ladder ctx of Some l \<Rightarrow> apply_ladder inc l (rc_now ctx) | None \<Rightarrow> (inc, False))"

definition update_incident ::
    "incident_env \<Rightarrow> rule_ctx \<Rightarrow> incident_rule \<Rightarrow> alert_definition \<Rightarrow> alert_entity \<Rightarrow> nat \<Rightarrow> pass_state \<Rightarrow>
     pass_state \<times> py_error option" where
  "update_incident env ctx rule defn inst i s =
     (let inc1 = touch_incident ctx (ps_incidents s ! i)
      in case incident_message env rule defn inst of
           Inl e \<Rightarrow> (put_incident i inc1 s, Some e)
         | Inr msg \<Rightarrow>
             (let (inc2, promoted) = climb ctx (refresh_incident ctx inst msg inc1);
                  s1 = (put_incident i inc2 s)\<lparr>ps_updated := ps_updated s + 1\<rparr>
              in (if promoted
                  then record_transition (transition_of rule (inc_id inc2) inc2 ''escalated'')
                         (s1\<lparr>ps_escalated := ps_escalated s1 + 1\<rparr>)
                  else s1, None)))"

text \<open>The flap guard: the clear is held while the last fire is younger than the guard.\<close>

definition guard_holds :: "incident_rule \<Rightarrow> time \<Rightarrow> incident \<Rightarrow> bool" where
  "guard_holds rule now inc =
     (case ir_flap_guard_seconds rule of
        Some g \<Rightarrow> 0 < g \<and> flt (total_seconds now (inc_last_fired_at inc)) (Fin (of_int g))
      | None \<Rightarrow> False)"

definition process_entity ::
    "incident_env \<Rightarrow> rule_ctx \<Rightarrow> incident_rule \<Rightarrow> alert_definition \<Rightarrow> alert_entity \<Rightarrow> pass_state \<Rightarrow>
     pass_state \<times> py_error option" where
  "process_entity env ctx rule defn inst s =
     (let found = map_of (rc_open_by_key ctx) (incident_key inst)
      in if (case rc_scope ctx of Some scope \<Rightarrow> scope \<noteq> [] \<and> \<not> entity_in_scope inst scope | None \<Rightarrow> False) then
           (case found of
              Some i \<Rightarrow> (clear_incident rule (rc_now ctx) ''out_of_scope'' i s, None)
            | None \<Rightarrow> (s, None))
         else if ae_state inst = ''firing'' then
           (case found of
              None \<Rightarrow> open_incident env ctx rule defn inst s
            | Some i \<Rightarrow> update_incident env ctx rule defn inst i s)
         else if ae_state inst = ''resolved'' then
           (case found of
              None \<Rightarrow> (s, None)
            | Some i \<Rightarrow>
                if \<not> ir_auto_clear_on_resolve rule then (s, None)
                else if guard_holds rule (rc_now ctx) (ps_incidents s ! i) then (s, None)
                else (clear_incident rule (rc_now ctx) ''auto'' i s, None))
         else (s, None))"

fun process_entities ::
    "incident_env \<Rightarrow> rule_ctx \<Rightarrow> incident_rule \<Rightarrow> alert_definition \<Rightarrow> alert_entity list \<Rightarrow> pass_state \<Rightarrow>
     pass_state \<times> py_error option" where
  "process_entities env ctx rule defn [] s = (s, None)"
| "process_entities env ctx rule defn (inst # insts) s =
     (case process_entity env ctx rule defn inst s of
        (s1, None) \<Rightarrow> process_entities env ctx rule defn insts s1
      | (s1, Some e) \<Rightarrow> (s1, Some e))"

section \<open>Companion clears\<close>

definition companion_states :: "string list \<Rightarrow> alert_entity list \<Rightarrow> (string \<times> string, string) dict" where
  "companion_states companion_ids entities =
     fold (\<lambda>ce d. dict_set (ae_definition_id ce, ae_entity_key ce) (ae_state ce) d)
       (filter (\<lambda>e. ae_definition_id e \<in> set companion_ids \<and> ae_enabled e) entities) []"

definition raw_key :: "string \<Rightarrow> string" where
  "raw_key k = (if CHR ''|'' \<in> set k then tl (dropWhile (\<lambda>c. c \<noteq> CHR ''|'') k) else k)"

definition companion_mode :: "incident_rule \<Rightarrow> string" where
  "companion_mode rule =
     (let m = lower (if ir_clear_companion_mode rule = [] then ''any'' else ir_clear_companion_mode rule)
      in if m = ''any'' \<or> m = ''all'' then m else ''any'')"

definition companion_healthy ::
    "incident_rule \<Rightarrow> string list \<Rightarrow> (string \<times> string, string) dict \<Rightarrow> incident \<Rightarrow> bool" where
  "companion_healthy rule ids states inc =
     (let resolved = (\<lambda>cid. map_of states (cid, raw_key (inc_entity_key inc)) = Some ''resolved'')
      in if companion_mode rule = ''all'' then list_all resolved ids else list_ex resolved ids)"

definition companion_step ::
    "incident_rule \<Rightarrow> string list \<Rightarrow> (string \<times> string, string) dict \<Rightarrow> time \<Rightarrow> nat \<Rightarrow> pass_state \<Rightarrow> pass_state" where
  "companion_step rule ids states now i s =
     (let inc = ps_incidents s ! i
      in if inc_state inc \<noteq> ''open'' then s
         else if companion_healthy rule ids states inc
         then clear_incident rule now
                (if companion_mode rule = ''all'' then ''companion_all_healthy'' else ''companion_any_healthy'') i s
         else s)"

definition apply_companion_clear ::
    "incident_rule \<Rightarrow> string list \<Rightarrow> alert_entity list \<Rightarrow> nat list \<Rightarrow> time \<Rightarrow> pass_state \<Rightarrow> pass_state" where
  "apply_companion_clear rule ids entities open_incidents now s =
     fold (companion_step rule ids (companion_states ids entities) now) open_incidents s"

section \<open>One rule and one cycle\<close>

definition open_positions :: "string \<Rightarrow> incident list \<Rightarrow> nat list" where
  "open_positions rid incidents =
     filter (\<lambda>i. inc_rule_id (incidents ! i) = rid \<and> inc_state (incidents ! i) = ''open'') [0..<length incidents]"

definition open_by_key :: "incident list \<Rightarrow> nat list \<Rightarrow> (string, nat) dict" where
  "open_by_key incidents is = fold (\<lambda>i d. dict_set (inc_entity_key (incidents ! i)) i d) is []"

definition parent_candidates :: "incident_rule \<Rightarrow> depends option \<Rightarrow> incident list \<Rightarrow> incident list" where
  "parent_candidates rule dep incidents =
     (case dep of
        None \<Rightarrow> []
      | Some d \<Rightarrow> filter (\<lambda>inc. inc_rule_id inc \<in> set (filter (\<lambda>r. r \<noteq> ir_id rule) (dep_rule_ids d)) \<and>
                              inc_state inc = ''open'') incidents)"

definition rule_context ::
    "incident_env \<Rightarrow> incident_rule \<Rightarrow> ladder option \<Rightarrow> incident list \<Rightarrow> rule_ctx" where
  "rule_context env rule ladder incidents =
     (let dep = validate_depends_on env (ir_depends_on rule)
      in \<lparr>rc_open_by_key = open_by_key incidents (open_positions (ir_id rule) incidents),
          rc_ladder = ladder,
          rc_scope = validate_scope_filter (ir_scope_filter rule),
          rc_depends = (dep \<noteq> None),
          rc_parents = parent_candidates rule dep incidents,
          rc_match_on = (case dep of Some d \<Rightarrow> dep_match_on d | None \<Rightarrow> []),
          rc_now = ie_now env (ir_id rule)\<rparr>)"

definition evaluate_rule ::
    "incident_env \<Rightarrow> alert_definition list \<Rightarrow> alert_entity list \<Rightarrow> incident_rule \<Rightarrow> pass_state \<Rightarrow>
     pass_state \<times> py_error option" where
  "evaluate_rule env defs entities rule s =
     (case find (\<lambda>d. ad_id d = ir_definition_id rule) defs of
        None \<Rightarrow> (s, None)
      | Some defn \<Rightarrow>
          if \<not> ad_enabled defn then (s, None)
          else case validate_ladder (ir_severity_ladder rule) of
                 Inl e \<Rightarrow> (s, Some e)
               | Inr ladder \<Rightarrow>
                   (let own = filter (own_entity (ad_id defn)) entities;
                        open_incidents = open_positions (ir_id rule) (ps_incidents s);
                        ctx = rule_context env rule ladder (ps_incidents s)
                    in case process_entities env ctx rule defn own s of
                         (s1, Some e) \<Rightarrow> (s1, Some e)
                       | (s1, None) \<Rightarrow>
                           (case validate_companion_ids env (ir_clear_on_companion_ids rule) of
                              Some ids \<Rightarrow>
                                if list_ex (\<lambda>i. inc_state (ps_incidents s1 ! i) = ''open'') open_incidents
                                then (apply_companion_clear rule ids entities open_incidents (rc_now ctx) s1, None)
                                else (s1, None)
                            | None \<Rightarrow> (s1, None))))"

definition start_pass :: "incident list \<Rightarrow> pass_state" where
  "start_pass incidents = \<lparr>ps_incidents = incidents, ps_opened = 0, ps_updated = 0, ps_cleared = 0,
     ps_escalated = 0, ps_transitions = []\<rparr>"

text \<open>
  The cycle: a rule that raises is logged, its counts are dropped, and the next one runs.  The
  result is the committed table and the transitions handed to the automation engine.
\<close>

definition run_rule ::
    "incident_env \<Rightarrow> alert_definition list \<Rightarrow> alert_entity list \<Rightarrow> incident_rule \<Rightarrow> pass_state \<Rightarrow> pass_state" where
  "run_rule env defs entities rule s =
     (case evaluate_rule env defs entities rule s of
        (s1, None) \<Rightarrow> s1
      | (s1, Some e) \<Rightarrow> s1\<lparr>ps_opened := ps_opened s, ps_updated := ps_updated s, ps_cleared := ps_cleared s,
                          ps_escalated := ps_escalated s\<rparr>)"

definition incident_cycle ::
    "incident_env \<Rightarrow> string \<Rightarrow> alert_definition list \<Rightarrow> alert_entity list \<Rightarrow> incident_rule list \<Rightarrow>
     incident list \<Rightarrow> pass_state" where
  "incident_cycle env setting defs entities rules incidents =
     (if setting = ''off'' then start_pass incidents
      else fold (run_rule env defs entities) (filter ir_enabled rules) (start_pass incidents))"

end
