(* ===== verification/Automations.thy ===== *)
theory Automations
  imports Incident_Engine
begin

text \<open>
  The automation engine (\<open>automations/engine.py\<close>) and the local executor (\<open>automations/executor.py\<close>):
  which automations a transition of an incident, the clock or a user starts, the cooldown, and the
  execution of the steps with its run record.  Parameters: the run log and devices of the
  databases, \<open>croniter\<close>, \<open>uuid.UUID\<close>, decryption, the WebSocket of a collector and the subprocess.
\<close>

section \<open>Data\<close>

record automation_action =
  ac_id :: string
  ac_name :: string
  ac_target :: string
  ac_source_code :: string
  ac_credential_type :: "string option"
  ac_credential_id :: "string option"
  ac_timeout_seconds :: int
  ac_enabled :: bool

record automation_step =
  sp_order :: int
  sp_action_id :: string
  sp_action :: "automation_action option"
  sp_credential_type_override :: "string option"
  sp_timeout_override :: "int option"

record automation =
  au_id :: string
  au_name :: string
  au_trigger_type :: string
  au_incident_rule_ids :: "string list option"
  au_incident_state_trigger :: "string option"
  au_cron_expression :: "string option"
  au_cron_device_label_filter :: "(string, cell) dict option"
  au_cron_device_ids :: "string list option"
  au_device_ids :: "string list option"
  au_device_label_filter :: "(string, cell) dict option"
  au_cooldown_seconds :: int
  au_enabled :: bool
  au_steps :: "automation_step list"

record managed_device =
  md_id :: string
  md_name :: string
  md_address :: string
  md_labels :: "(string, cell) dict"
  md_collector_group_id :: "string option"
  md_credentials :: "(string, string) dict"

text \<open>\<open>x or y\<close> on lists and dicts that may be null.\<close>

definition or_list :: "'a list option \<Rightarrow> 'a list option \<Rightarrow> 'a list" where
  "or_list x y = (case x of Some (a # as) \<Rightarrow> a # as | _ \<Rightarrow> (case y of None \<Rightarrow> [] | Some ys \<Rightarrow> ys))"

definition device_scope :: "automation \<Rightarrow> string list" where
  "device_scope a = or_list (au_device_ids a) (au_cron_device_ids a)"

definition label_scope :: "automation \<Rightarrow> (string, cell) dict" where
  "label_scope a = or_list (au_device_label_filter a) (au_cron_device_label_filter a)"

section \<open>Incident triggers\<close>

text \<open>\<open>==\<close> on label values: integers and floats compare as numbers.\<close>

fun label_eq :: "cell \<Rightarrow> cell \<Rightarrow> bool" where
  "label_eq (CInt i) (CNum v) \<longleftrightarrow> feq (Fin (of_int i)) v"
| "label_eq (CNum v) (CInt i) \<longleftrightarrow> feq v (Fin (of_int i))"
| "label_eq (CNum v) (CNum w) \<longleftrightarrow> feq v w"
| "label_eq x y \<longleftrightarrow> x = y"

definition incident_matches :: "automation \<Rightarrow> string \<Rightarrow> string \<Rightarrow> string \<Rightarrow> labels \<Rightarrow> bool" where
  "incident_matches a rule_id tr device_id ls \<longleftrightarrow>
     (case au_incident_rule_ids a of None \<Rightarrow> True | Some ids \<Rightarrow> ids = [] \<or> rule_id \<in> set ids) \<and>
     (case au_incident_state_trigger a of None \<Rightarrow> True | Some want \<Rightarrow> want = [] \<or> want = ''any'' \<or> want = tr) \<and>
     \<not> (device_scope a \<noteq> [] \<and> device_id \<noteq> [] \<and> device_id \<notin> set (device_scope a)) \<and>
     list_all (\<lambda>(k, v). label_eq (labels_get ls k) v) (label_scope a)"

text \<open>
  A run to start.  \<open>last_run\<close> asks the run log for the start of the last run of an automation on a
  device: a datetime with or without a time zone, always in UTC.
\<close>

record run_request =
  rq_automation :: automation
  rq_device_id :: string
  rq_trigger_type :: string
  rq_event_id :: string
  rq_event_severity :: string
  rq_event_message :: string
  rq_triggered_by :: string

datatype timestamp = Naive time | Aware time

type_synonym run_log = "string \<Rightarrow> string \<Rightarrow> py_error + timestamp option"

definition elapsed_below :: "time \<Rightarrow> time \<Rightarrow> int \<Rightarrow> bool" where
  "elapsed_below now t seconds \<longleftrightarrow> now - t < seconds * 1000000"

fun utc_of :: "timestamp \<Rightarrow> time" where
  "utc_of (Naive t) = t"
| "utc_of (Aware t) = t"

definition cooling_down :: "run_log \<Rightarrow> time \<Rightarrow> automation \<Rightarrow> string \<Rightarrow> py_error + bool" where
  "cooling_down last_run now a device_id =
     (if device_id \<noteq> [] \<and> au_cooldown_seconds a > 0
      then ebind (last_run (au_id a) device_id) (\<lambda>r.
             Inr (case r of None \<Rightarrow> False | Some ts \<Rightarrow> elapsed_below now (utc_of ts) (au_cooldown_seconds a)))
      else Inr False)"

definition incident_request :: "transition \<Rightarrow> automation \<Rightarrow> run_request" where
  "incident_request t a =
     \<lparr>rq_automation = a, rq_device_id = tr_device_id t, rq_trigger_type = ''incident'', rq_event_id = tr_incident_id t,
      rq_event_severity = tr_severity t, rq_event_message = tr_message t,
      rq_triggered_by = ''system:incident:'' @ tr_transition t\<rparr>"

text \<open>The runs started before an exception stay started.\<close>

fun start_matching :: "run_log \<Rightarrow> time \<Rightarrow> transition \<Rightarrow> automation list \<Rightarrow> run_request list \<times> py_error option" where
  "start_matching last_run now t [] = ([], None)"
| "start_matching last_run now t (a # as) =
     (if \<not> incident_matches a (tr_rule_id t) (tr_transition t) (tr_device_id t) (tr_labels t)
      then start_matching last_run now t as
      else case cooling_down last_run now a (tr_device_id t) of
             Inl e \<Rightarrow> ([], Some e)
           | Inr True \<Rightarrow> start_matching last_run now t as
           | Inr False \<Rightarrow>
               (let (rs, e) = start_matching last_run now t as in (incident_request t a # rs, e)))"

definition incident_automations :: "automation list \<Rightarrow> automation list" where
  "incident_automations as = filter (\<lambda>a. au_trigger_type a = ''incident'' \<and> au_enabled a) as"

definition on_incident_transition :: "run_log \<Rightarrow> time \<Rightarrow> automation list \<Rightarrow> transition \<Rightarrow> run_request list \<times> py_error option" where
  "on_incident_transition last_run now as t = start_matching last_run now t (incident_automations as)"

text \<open>After its cycle the incident engine hands over the transitions in order; an exception is logged.\<close>

definition dispatch_transitions :: "run_log \<Rightarrow> time \<Rightarrow> automation list \<Rightarrow> transition list \<Rightarrow> run_request list" where
  "dispatch_transitions last_run now as ts = concat (map (\<lambda>t. fst (on_incident_transition last_run now as t)) ts)"

section \<open>Cron and manual triggers\<close>

record cron_env =
  cr_prev :: "string \<Rightarrow> time \<Rightarrow> py_error + time"
  cr_uuid :: "string \<Rightarrow> string option"
  cr_contains :: "(string, cell) dict \<Rightarrow> (string, cell) dict \<Rightarrow> bool"

fun all_uuids :: "(string \<Rightarrow> string option) \<Rightarrow> string list \<Rightarrow> py_error + string list" where
  "all_uuids f [] = Inr []"
| "all_uuids f (x # xs) =
     (case f x of None \<Rightarrow> Inl ValueError | Some u \<Rightarrow> ebind (all_uuids f xs) (\<lambda>us. Inr (u # us)))"

definition resolve_cron_devices :: "cron_env \<Rightarrow> managed_device list \<Rightarrow> automation \<Rightarrow> py_error + managed_device list" where
  "resolve_cron_devices env devices a =
     (if device_scope a \<noteq> []
      then ebind (all_uuids (cr_uuid env) (device_scope a)) (\<lambda>us. Inr (filter (\<lambda>d. md_id d \<in> set us) devices))
      else if label_scope a \<noteq> [] then Inr (filter (\<lambda>d. cr_contains env (md_labels d) (label_scope a)) devices)
      else Inr [])"

definition cron_due :: "time \<Rightarrow> time \<Rightarrow> bool" where
  "cron_due now prev_fire \<longleftrightarrow> now - prev_fire \<le> 30000000"

text \<open>Here the last run is subtracted as it comes: without a time zone that is a \<open>TypeError\<close>.\<close>

definition cron_cooling_down :: "run_log \<Rightarrow> time \<Rightarrow> automation \<Rightarrow> string \<Rightarrow> py_error + bool" where
  "cron_cooling_down last_run now a device_id =
     (if au_cooldown_seconds a > 0
      then ebind (last_run (au_id a) device_id) (\<lambda>r.
             case r of None \<Rightarrow> Inr False
                     | Some (Naive _) \<Rightarrow> Inl TypeError
                     | Some (Aware t) \<Rightarrow> Inr (elapsed_below now t (au_cooldown_seconds a)))
      else Inr False)"

definition cron_request :: "automation \<Rightarrow> string \<Rightarrow> run_request" where
  "cron_request a device_id =
     \<lparr>rq_automation = a, rq_device_id = device_id, rq_trigger_type = ''cron'', rq_event_id = [], rq_event_severity = [],
      rq_event_message = [], rq_triggered_by = ''system:cron''\<rparr>"

fun start_on_devices :: "run_log \<Rightarrow> time \<Rightarrow> automation \<Rightarrow> managed_device list \<Rightarrow> run_request list \<times> py_error option" where
  "start_on_devices last_run now a [] = ([], None)"
| "start_on_devices last_run now a (d # ds) =
     (case cron_cooling_down last_run now a (md_id d) of
        Inl e \<Rightarrow> ([], Some e)
      | Inr True \<Rightarrow> start_on_devices last_run now a ds
      | Inr False \<Rightarrow>
          (let (rs, e) = start_on_devices last_run now a ds in (cron_request a (md_id d) # rs, e)))"

definition evaluate_cron ::
    "cron_env \<Rightarrow> run_log \<Rightarrow> time \<Rightarrow> managed_device list \<Rightarrow> automation \<Rightarrow> run_request list \<times> py_error option" where
  "evaluate_cron env last_run now devices a =
     (if \<not> truthy (au_cron_expression a) then ([], None)
      else case cr_prev env (the (au_cron_expression a)) now of
             Inl e \<Rightarrow> ([], Some e)
           | Inr prev_fire \<Rightarrow>
               (if \<not> cron_due now prev_fire then ([], None)
                else case resolve_cron_devices env devices a of
                       Inl e \<Rightarrow> ([], Some e)
                     | Inr ds \<Rightarrow> start_on_devices last_run now a ds))"

fun evaluate_cron_list ::
    "cron_env \<Rightarrow> run_log \<Rightarrow> time \<Rightarrow> managed_device list \<Rightarrow> automation list \<Rightarrow> run_request list \<times> py_error option" where
  "evaluate_cron_list env last_run now devices [] = ([], None)"
| "evaluate_cron_list env last_run now devices (a # as) =
     (case evaluate_cron env last_run now devices a of
        (rs, Some e) \<Rightarrow> (rs, Some e)
      | (rs, None) \<Rightarrow> (let (rs', e) = evaluate_cron_list env last_run now devices as in (rs @ rs', e)))"

definition evaluate_cron_triggers ::
    "cron_env \<Rightarrow> run_log \<Rightarrow> time \<Rightarrow> managed_device list \<Rightarrow> automation list \<Rightarrow> run_request list \<times> py_error option" where
  "evaluate_cron_triggers env last_run now devices as =
     evaluate_cron_list env last_run now devices (filter (\<lambda>a. au_trigger_type a = ''cron'' \<and> au_enabled a) as)"

text \<open>A user's trigger: no cooldown; the ids of the runs are returned.\<close>

definition manual_request :: "automation \<Rightarrow> string \<Rightarrow> string \<Rightarrow> run_request" where
  "manual_request a triggered_by device_id =
     \<lparr>rq_automation = a, rq_device_id = device_id, rq_trigger_type = ''manual'', rq_event_id = [], rq_event_severity = [],
      rq_event_message = [], rq_triggered_by = triggered_by\<rparr>"

definition trigger_manual ::
    "(string \<Rightarrow> string option) \<Rightarrow> automation list \<Rightarrow> string \<Rightarrow> string list \<Rightarrow> string \<Rightarrow> py_error + run_request list" where
  "trigger_manual uuid as automation_id device_ids triggered_by =
     (case uuid automation_id of
        None \<Rightarrow> Inl ValueError
      | Some u \<Rightarrow> (case find (\<lambda>a. au_id a = u) as of
                    None \<Rightarrow> Inl ValueError
                  | Some a \<Rightarrow> Inr (map (manual_request a triggered_by) device_ids)))"

section \<open>The local executor\<close>

definition SAFE_ENV_VARS :: "string list" where
  "SAFE_ENV_VARS = [''PATH'', ''HOME'', ''LANG'', ''LC_ALL'', ''LC_CTYPE'', ''USER'', ''TZ'', ''TERM'', ''TMPDIR'', ''PYTHONIOENCODING'']"

definition action_env :: "(string, string) dict \<Rightarrow> string \<Rightarrow> string \<Rightarrow> (string, string) dict" where
  "action_env environ context_json output_path =
     (let base = concat (map (\<lambda>n. case map_of environ n of None \<Rightarrow> [] | Some v \<Rightarrow> [(n, v)]) SAFE_ENV_VARS)
      in dict_set ''MONCTL_ACTION_OUTPUT'' output_path (dict_set ''MONCTL_ACTION_CONTEXT'' context_json base))"

text \<open>
  The subprocess: it cannot be started, runs into the time limit, or exits with a code, its decoded
  output and what it wrote to the output file, if that is JSON.
\<close>

datatype proc_outcome =
    SpawnError string
  | ProcTimeout
  | Exited int string string "json option"

type_synonym action_result = "(string, json) dict"

definition result_dict :: "string \<Rightarrow> int \<Rightarrow> string \<Rightarrow> string \<Rightarrow> json \<Rightarrow> int \<Rightarrow> action_result" where
  "result_dict status exit_code out err output duration =
     [(''status'', JStr status), (''exit_code'', JInt exit_code), (''stdout'', JStr out), (''stderr'', JStr err),
      (''output_data'', output), (''duration_ms'', JInt duration)]"

definition execute_action_locally :: "proc_outcome \<Rightarrow> int \<Rightarrow> int \<Rightarrow> action_result" where
  "execute_action_locally outcome timeout duration =
     (case outcome of
        SpawnError text \<Rightarrow> result_dict ''failed'' (- 1) [] text (JObj []) duration
      | ProcTimeout \<Rightarrow>
          result_dict ''timeout'' (- 1) [] (''Action timed out after '' @ str_int timeout @ ''s'') (JObj []) duration
      | Exited code out err output \<Rightarrow>
          result_dict (if code = 0 then ''success'' else ''failed'') code (take 50000 out) (take 50000 err)
            (case output of None \<Rightarrow> JObj [] | Some j \<Rightarrow> j) duration)"

section \<open>Execution\<close>

record action_context =
  ax_device_id :: string
  ax_device_name :: string
  ax_device_ip :: string
  ax_collector_id :: string
  ax_collector_name :: string
  ax_credential :: action_result
  ax_trigger_type :: string
  ax_event_id :: string
  ax_event_severity :: string
  ax_event_message :: string
  ax_shared_data :: action_result
  ax_step_number :: int
  ax_action_name :: string

datatype ws_outcome = WsResult action_result | WsNotConnected | WsTimeout | WsError py_error

text \<open>
  \<open>ex_device\<close> and \<open>ex_credential\<close> are \<open>session.get\<close>, the latter with decryption; \<open>ex_collector\<close> is the
  first live collector of a group.
\<close>

record exec_env =
  ex_device :: "string \<Rightarrow> py_error + managed_device option"
  ex_collector :: "string \<Rightarrow> (string \<times> string option) option"
  ex_credential :: "string \<Rightarrow> py_error + action_result option"
  ex_local :: "string \<Rightarrow> action_context \<Rightarrow> proc_outcome \<times> int"
  ex_ws :: "string \<Rightarrow> string \<Rightarrow> action_context \<Rightarrow> ws_outcome"

definition optional_device :: "exec_env \<Rightarrow> string \<Rightarrow> py_error + managed_device option" where
  "optional_device env device_id = (if device_id = [] then Inr None else ex_device env device_id)"

definition base_context :: "exec_env \<Rightarrow> run_request \<Rightarrow> py_error + action_context" where
  "base_context env rq =
     ebind (optional_device env (rq_device_id rq)) (\<lambda>device.
       let collector = Option.bind (Option.bind device md_collector_group_id) (ex_collector env)
       in Inr \<lparr>ax_device_id = rq_device_id rq,
            ax_device_name = (case device of None \<Rightarrow> [] | Some d \<Rightarrow> md_name d),
            ax_device_ip = (case device of None \<Rightarrow> [] | Some d \<Rightarrow> md_address d),
            ax_collector_id = (case collector of None \<Rightarrow> [] | Some c \<Rightarrow> fst c),
            ax_collector_name = (case collector of Some (_, Some n) \<Rightarrow> n | _ \<Rightarrow> []),
            ax_credential = [], ax_trigger_type = rq_trigger_type rq, ax_event_id = rq_event_id rq,
            ax_event_severity = rq_event_severity rq, ax_event_message = rq_event_message rq,
            ax_shared_data = [], ax_step_number = 0, ax_action_name = []\<rparr>)"

definition get_credential :: "exec_env \<Rightarrow> string \<Rightarrow> py_error + action_result" where
  "get_credential env cid = ebind (ex_credential env cid) (\<lambda>c. Inr (case c of None \<Rightarrow> [] | Some d \<Rightarrow> d))"

definition step_credential :: "exec_env \<Rightarrow> string \<Rightarrow> automation_step \<Rightarrow> automation_action \<Rightarrow> py_error + action_result" where
  "step_credential env device_id st ac =
     (case ac_credential_id ac of
        Some cid \<Rightarrow> get_credential env cid
      | None \<Rightarrow>
          (let cred_type = (if truthy (sp_credential_type_override st) then sp_credential_type_override st else ac_credential_type ac)
           in if \<not> truthy cred_type \<or> device_id = [] then Inr []
              else ebind (ex_device env device_id) (\<lambda>device.
                case Option.bind device (\<lambda>d. map_of (md_credentials d) (the cred_type)) of
                  None \<Rightarrow> Inr []
                | Some cid \<Rightarrow> if cid = [] then Inr [] else get_credential env cid)))"

definition step_timeout :: "automation_step \<Rightarrow> automation_action \<Rightarrow> int" where
  "step_timeout st ac =
     (case sp_timeout_override st of None \<Rightarrow> ac_timeout_seconds ac | Some t \<Rightarrow> if t = 0 then ac_timeout_seconds ac else t)"

definition failure :: "string \<Rightarrow> string \<Rightarrow> int \<Rightarrow> action_result" where
  "failure status err duration = result_dict status (- 1) [] err (JObj []) duration"

definition run_action :: "exec_env \<Rightarrow> automation_action \<Rightarrow> int \<Rightarrow> action_context \<Rightarrow> py_error + action_result" where
  "run_action env ac timeout ctx =
     (if ac_target ac = ''central'' then
        (case ex_local env (ac_source_code ac) ctx of (outcome, ms) \<Rightarrow> Inr (execute_action_locally outcome timeout ms))
      else if ac_target ac = ''collector'' then
        (if ax_collector_id ctx = []
         then Inr (failure ''failed'' (''No active collector found for device'' @ [CHR 0x27] @ ''s collector group'') 0)
         else case ex_ws env (ax_collector_id ctx) (ac_source_code ac) ctx of
                WsResult r \<Rightarrow> Inr r
              | WsNotConnected \<Rightarrow>
                  Inr (failure ''failed'' (''Collector '' @ ax_collector_id ctx @ '' is not connected via WebSocket'') 0)
              | WsTimeout \<Rightarrow>
                  Inr (failure ''timeout'' (''Collector did not respond within '' @ str_int (timeout + 10) @ ''s'') (timeout * 1000))
              | WsError e \<Rightarrow> Inl e)
      else Inr (failure ''failed'' (''Unknown action target: '' @ ac_target ac) 0))"

record step_result =
  sr_step :: int
  sr_action_id :: string
  sr_action_name :: string
  sr_target :: string
  sr_status :: json
  sr_stdout :: json
  sr_stderr :: json
  sr_exit_code :: json
  sr_duration_ms :: json
  sr_output_data :: json

definition skipped_result :: "automation_step \<Rightarrow> step_result" where
  "skipped_result st =
     \<lparr>sr_step = sp_order st, sr_action_id = sp_action_id st,
      sr_action_name = (case sp_action st of None \<Rightarrow> ''unknown'' | Some ac \<Rightarrow> ac_name ac),
      sr_target = (case sp_action st of None \<Rightarrow> ''unknown'' | Some ac \<Rightarrow> ac_target ac),
      sr_status = JStr ''skipped'', sr_stdout = JStr [], sr_stderr = JStr ''Action disabled or not found'',
      sr_exit_code = JInt (- 1), sr_duration_ms = JInt 0, sr_output_data = JObj []\<rparr>"

definition result_of :: "automation_step \<Rightarrow> automation_action \<Rightarrow> action_result \<Rightarrow> step_result" where
  "result_of st ac r =
     \<lparr>sr_step = sp_order st, sr_action_id = ac_id ac, sr_action_name = ac_name ac, sr_target = ac_target ac,
      sr_status = dict_get r ''status'' (JStr ''failed''), sr_stdout = dict_get r ''stdout'' (JStr []),
      sr_stderr = dict_get r ''stderr'' (JStr []), sr_exit_code = dict_get r ''exit_code'' (JInt (- 1)),
      sr_duration_ms = dict_get r ''duration_ms'' (JInt 0), sr_output_data = dict_get r ''output_data'' (JObj [])\<rparr>"

definition succeeded :: "action_result \<Rightarrow> bool" where
  "succeeded r \<longleftrightarrow> map_of r ''status'' = Some (JStr ''success'')"

definition runnable :: "automation_step \<Rightarrow> automation_action option" where
  "runnable st = (case sp_action st of Some ac \<Rightarrow> if ac_enabled ac then Some ac else None | None \<Rightarrow> None)"

definition namespace :: "automation_step \<Rightarrow> string" where
  "namespace st = ''step_'' @ str_int (sp_order st)"

definition run_step ::
    "exec_env \<Rightarrow> action_context \<Rightarrow> automation_step \<Rightarrow> automation_action \<Rightarrow> action_result \<Rightarrow> py_error + action_result" where
  "run_step env base st ac shared =
     ebind (step_credential env (ax_device_id base) st ac) (\<lambda>cred.
       run_action env ac (step_timeout st ac)
         (base\<lparr>ax_credential := cred, ax_shared_data := shared, ax_step_number := sp_order st, ax_action_name := ac_name ac\<rparr>))"

text \<open>The results so far, the shared data, and the step that failed.\<close>

type_synonym run_state = "step_result list \<times> action_result \<times> int option"

fun run_steps ::
    "exec_env \<Rightarrow> action_context \<Rightarrow> automation_step list \<Rightarrow> step_result list \<Rightarrow> action_result \<Rightarrow> py_error + run_state" where
  "run_steps env base [] results shared = Inr (results, shared, None)"
| "run_steps env base (st # sts) results shared =
     (case runnable st of
        None \<Rightarrow> run_steps env base sts (results @ [skipped_result st]) shared
      | Some ac \<Rightarrow>
          ebind (run_step env base st ac shared) (\<lambda>r.
            let results' = results @ [result_of st ac r];
                shared' = dict_set (namespace st) (dict_get r ''output_data'' (JObj [])) shared
            in if succeeded r then run_steps env base sts results' shared'
               else Inr (results', shared', Some (sp_order st))))"

record run_record =
  rr_automation_id :: string
  rr_automation_name :: string
  rr_trigger_type :: string
  rr_event_id :: string
  rr_event_severity :: string
  rr_event_message :: string
  rr_device_id :: string
  rr_device_name :: string
  rr_device_ip :: string
  rr_collector_id :: string
  rr_collector_name :: string
  rr_status :: string
  rr_total_steps :: nat
  rr_completed_steps :: nat
  rr_failed_step :: int
  rr_step_results :: "step_result list"
  rr_shared_data :: action_result
  rr_started_at :: time
  rr_finished_at :: time
  rr_triggered_by :: string

definition ZERO_UUID :: string where
  "ZERO_UUID = ''00000000-0000-0000-0000-000000000000''"

definition or_zero :: "string \<Rightarrow> string" where
  "or_zero s = (if s = [] then ZERO_UUID else s)"

definition completed :: "step_result list \<Rightarrow> nat" where
  "completed rs = length (filter (\<lambda>r. sr_status r = JStr ''success'') rs)"

definition ordered_steps :: "automation \<Rightarrow> automation_step list" where
  "ordered_steps a = sort_key sp_order (au_steps a)"

definition execute_automation :: "exec_env \<Rightarrow> time \<Rightarrow> time \<Rightarrow> run_request \<Rightarrow> py_error + run_record" where
  "execute_automation env started finished rq =
     ebind (base_context env rq) (\<lambda>base.
     ebind (run_steps env base (ordered_steps (rq_automation rq)) [] []) (\<lambda>(results, shared, failed).
       Inr \<lparr>rr_automation_id = au_id (rq_automation rq), rr_automation_name = au_name (rq_automation rq),
            rr_trigger_type = rq_trigger_type rq, rr_event_id = rq_event_id rq, rr_event_severity = rq_event_severity rq,
            rr_event_message = take 1000 (rq_event_message rq), rr_device_id = or_zero (rq_device_id rq),
            rr_device_name = ax_device_name base, rr_device_ip = ax_device_ip base,
            rr_collector_id = or_zero (ax_collector_id base), rr_collector_name = ax_collector_name base,
            rr_status = (if failed = None then ''success'' else ''failed''),
            rr_total_steps = length (au_steps (rq_automation rq)), rr_completed_steps = completed results,
            rr_failed_step = (case failed of None \<Rightarrow> 0 | Some n \<Rightarrow> n), rr_step_results = results,
            rr_shared_data = shared, rr_started_at = started, rr_finished_at = finished,
            rr_triggered_by = rq_triggered_by rq\<rparr>))"

end
