(* ===== verification/Automation_Results.thy ===== *)
theory Automation_Results
  imports Automations
begin

text \<open>
  The automation engine: which automations a transition starts, when the clock starts one, and what
  a run does with its steps.
\<close>

section \<open>Runs\<close>

definition went_well :: "step_result \<Rightarrow> bool" where
  "went_well r \<longleftrightarrow> sr_status r = JStr ''success'' \<or> sr_status r = JStr ''skipped''"

lemma went_well_simps [simp]:
  "went_well (skipped_result st)" "succeeded r \<Longrightarrow> went_well (result_of st ac r)"
  "sr_step (skipped_result st) = sp_order st" "sr_step (result_of st ac r) = sp_order st"
  "sr_status (result_of st ac r) = JStr ''success'' \<longleftrightarrow> succeeded r"
  by (auto simp: went_well_def skipped_result_def result_of_def succeeded_def dict_get_def split: option.splits)

lemma run_steps_spec:
  assumes "run_steps env base sts results shared = Inr (rs, sh, failed)"
  shows "\<exists>new. rs = results @ new \<and> map sr_step new = take (length new) (map sp_order sts) \<and> length new \<le> length sts \<and>
    (case failed of
       None \<Rightarrow> length new = length sts \<and> list_all went_well new
     | Some n \<Rightarrow> new \<noteq> [] \<and> list_all went_well (butlast new) \<and> sr_status (last new) \<noteq> JStr ''success'' \<and> n = sr_step (last new))"
  using assms
proof (induction sts arbitrary: results shared)
  case (Cons st sts)
  have more: "\<exists>new. rs = results @ new \<and> map sr_step new = take (length new) (map sp_order (st # sts)) \<and>
      length new \<le> length (st # sts) \<and>
      (case failed of None \<Rightarrow> length new = length (st # sts) \<and> list_all went_well new
       | Some n \<Rightarrow> new \<noteq> [] \<and> list_all went_well (butlast new) \<and> sr_status (last new) \<noteq> JStr ''success'' \<and> n = sr_step (last new))"
    if x: "went_well x" "sr_step x = sp_order st" and run: "run_steps env base sts (results @ [x]) sh' = Inr (rs, sh, failed)" for x sh'
  proof -
    obtain new where new: "rs = (results @ [x]) @ new" "map sr_step new = take (length new) (map sp_order sts)"
      "length new \<le> length sts"
      "case failed of None \<Rightarrow> length new = length sts \<and> list_all went_well new
       | Some n \<Rightarrow> new \<noteq> [] \<and> list_all went_well (butlast new) \<and> sr_status (last new) \<noteq> JStr ''success'' \<and> n = sr_step (last new)"
      using Cons.IH [OF run] by blast
    then show ?thesis using x by (intro exI [of _ "x # new"]) (auto split: option.splits)
  qed
  show ?case
  proof (cases "runnable st")
    case None
    then show ?thesis using Cons.prems more [of "skipped_result st" shared] by simp
  next
    case (Some ac)
    then obtain r where r: "run_step env base st ac shared = Inr r"
      and k: "(if succeeded r then run_steps env base sts (results @ [result_of st ac r])
                 (dict_set (namespace st) (dict_get r ''output_data'' (JObj [])) shared)
               else Inr (results @ [result_of st ac r], dict_set (namespace st) (dict_get r ''output_data'' (JObj [])) shared, Some (sp_order st)))
             = Inr (rs, sh, failed)"
      using Cons.prems by (auto simp: Let_def)
    show ?thesis
    proof (cases "succeeded r")
      case True
      then show ?thesis using k by (intro more) simp_all
    next
      case False
      then show ?thesis using k by (intro exI [of _ "[result_of st ac r]"]) auto
    qed
  qed
qed simp

text \<open>
  A run executes the steps in their order and stops at the first that does not succeed.  The
  results are those of a prefix of the ordered steps; a run is successful exactly when it went
  through all of them with each successful or skipped, and a failed run names its last step.
\<close>

theorem automation_fail_fast:
  assumes "execute_automation env started finished rq = Inr r"
  shows "map sr_step (rr_step_results r) = take (length (rr_step_results r)) (map sp_order (ordered_steps (rq_automation rq))) \<and>
    rr_completed_steps r \<le> rr_total_steps r \<and>
    (if rr_status r = ''success''
     then length (rr_step_results r) = rr_total_steps r \<and> list_all went_well (rr_step_results r)
     else rr_status r = ''failed'' \<and> rr_step_results r \<noteq> [] \<and> list_all went_well (butlast (rr_step_results r)) \<and>
       sr_status (last (rr_step_results r)) \<noteq> JStr ''success'' \<and> rr_failed_step r = sr_step (last (rr_step_results r)))"
proof -
  obtain base rs sh failed where run: "run_steps env base (ordered_steps (rq_automation rq)) [] [] = Inr (rs, sh, failed)"
    and r: "rr_step_results r = rs" "rr_status r = (if failed = None then ''success'' else ''failed'')"
      "rr_total_steps r = length (au_steps (rq_automation rq))" "rr_completed_steps r = completed rs"
      "rr_failed_step r = (case failed of None \<Rightarrow> 0 | Some n \<Rightarrow> n)"
    using assms by (auto simp: execute_automation_def)
  have len: "length (ordered_steps (rq_automation rq)) = length (au_steps (rq_automation rq))" by (simp add: ordered_steps_def)
  note S = run_steps_spec [OF run]
  have "length rs \<le> length (au_steps (rq_automation rq))" using S len by auto
  then have "completed rs \<le> length (au_steps (rq_automation rq))"
    unfolding completed_def using length_filter_le [of _ rs] le_trans by blast
  then show ?thesis using S r len by (auto split: option.splits)
qed

definition demo_run_action :: automation_action where
  "demo_run_action = \<lparr>ac_id = ''a'', ac_name = ''restart'', ac_target = ''central'', ac_source_code = ''pass'',
     ac_credential_type = None, ac_credential_id = None, ac_timeout_seconds = 60, ac_enabled = True\<rparr>"

definition demo_step :: automation_step where
  "demo_step = \<lparr>sp_order = 1, sp_action_id = ''a'', sp_action = Some demo_run_action, sp_credential_type_override = None,
     sp_timeout_override = None\<rparr>"

definition demo_automation :: automation where
  "demo_automation = \<lparr>au_id = ''u'', au_name = ''n'', au_trigger_type = ''incident'', au_incident_rule_ids = None,
     au_incident_state_trigger = Some ''any'', au_cron_expression = None, au_cron_device_label_filter = None,
     au_cron_device_ids = None, au_device_ids = None, au_device_label_filter = None, au_cooldown_seconds = 300,
     au_enabled = True, au_steps = [demo_step]\<rparr>"

definition demo_transition :: transition where
  "demo_transition = \<lparr>tr_incident_id = ''i'', tr_rule_id = ''r'', tr_transition = ''opened'', tr_device_id = ''d'',
     tr_severity = ''major'', tr_message = ''m'', tr_labels = []\<rparr>"

definition demo_exec_env :: exec_env where
  "demo_exec_env = \<lparr>ex_device = (\<lambda>_. Inr None), ex_collector = (\<lambda>_. None), ex_credential = (\<lambda>_. Inr None),
     ex_local = (\<lambda>_ _. (Exited 1 [] [] None, 5)), ex_ws = (\<lambda>_ _ _. WsTimeout)\<rparr>"

theorem automation_fail_fast_witness:
  "\<exists>r. execute_automation demo_exec_env 0 1 (incident_request demo_transition demo_automation) = Inr r \<and>
     rr_status r = ''failed'' \<and> rr_step_results r \<noteq> [] \<and> rr_failed_step r = sr_step (last (rr_step_results r))"
proof -
  obtain r where r: "execute_automation demo_exec_env 0 1 (incident_request demo_transition demo_automation) = Inr r"
    and f: "rr_status r = ''failed''"
    by (simp add: execute_automation_def base_context_def optional_device_def incident_request_def demo_transition_def
        demo_automation_def demo_step_def demo_run_action_def demo_exec_env_def ordered_steps_def runnable_def run_step_def
        step_credential_def truthy_def run_action_def execute_action_locally_def result_dict_def succeeded_def)
  show ?thesis using automation_fail_fast [OF r] r f by auto
qed

section \<open>Triggers\<close>

definition starts :: "run_log \<Rightarrow> time \<Rightarrow> transition \<Rightarrow> automation \<Rightarrow> bool" where
  "starts last_run now t a \<longleftrightarrow>
     au_trigger_type a = ''incident'' \<and> au_enabled a \<and>
     incident_matches a (tr_rule_id t) (tr_transition t) (tr_device_id t) (tr_labels t) \<and>
     (tr_device_id t = [] \<or> au_cooldown_seconds a \<le> 0 \<or>
      (case last_run (au_id a) (tr_device_id t) of
         Inr (Some ts) \<Rightarrow> au_cooldown_seconds a * 1000000 \<le> now - utc_of ts
       | _ \<Rightarrow> True))"

lemma start_matching_spec:
  assumes "\<And>a d. \<exists>r. last_run a d = Inr r"
  shows "start_matching last_run now t as =
    (map (incident_request t) (filter (\<lambda>a. incident_matches a (tr_rule_id t) (tr_transition t) (tr_device_id t) (tr_labels t) \<and>
       cooling_down last_run now a (tr_device_id t) = Inr False) as), None)"
proof (induction as)
  case (Cons a as)
  obtain b where "cooling_down last_run now a (tr_device_id t) = Inr b"
    using assms [of "au_id a" "tr_device_id t"] by (cases "tr_device_id t \<noteq> [] \<and> au_cooldown_seconds a > 0") (auto simp: cooling_down_def)
  then show ?case using Cons by (cases b) simp_all
qed simp

text \<open>
  A transition of an incident starts exactly the enabled incident automations whose filters it
  passes and whose last recorded run on the device is at least the cooldown ago, in their order,
  as long as the run log can be read.
\<close>

theorem automation_incident_starts:
  assumes "\<And>a d. \<exists>r. last_run a d = Inr r"
  shows "on_incident_transition last_run now as t = (map (incident_request t) (filter (starts last_run now t) as), None)"
proof -
  have "(\<lambda>a. (au_trigger_type a = ''incident'' \<and> au_enabled a) \<and>
      incident_matches a (tr_rule_id t) (tr_transition t) (tr_device_id t) (tr_labels t) \<and>
      cooling_down last_run now a (tr_device_id t) = Inr False) = starts last_run now t"
  proof
    fix a :: automation
    obtain r where "last_run (au_id a) (tr_device_id t) = Inr r" using assms by blast
    then show "((au_trigger_type a = ''incident'' \<and> au_enabled a) \<and>
        incident_matches a (tr_rule_id t) (tr_transition t) (tr_device_id t) (tr_labels t) \<and>
        cooling_down last_run now a (tr_device_id t) = Inr False) = starts last_run now t a"
      by (cases r) (auto simp: starts_def cooling_down_def elapsed_below_def)
  qed
  then show ?thesis
    unfolding on_incident_transition_def incident_automations_def start_matching_spec [OF assms] filter_filter by simp
qed

theorem automation_incident_starts_witness:
  "on_incident_transition (\<lambda>_ _. Inr None) 0 [demo_automation] demo_transition = ([incident_request demo_transition demo_automation], None)"
proof -
  have "starts (\<lambda>_ _. Inr None) 0 demo_transition demo_automation"
    by (simp add: starts_def demo_automation_def demo_transition_def incident_matches_def device_scope_def label_scope_def or_list_def)
  then show ?thesis using automation_incident_starts [of "\<lambda>_ _. Inr None" 0 "[demo_automation]" demo_transition] by simp
qed

text \<open>
  The run log has a run only when it is over.  Two transitions of one cycle for the same device
  both start an automation, whatever its cooldown.
\<close>

lemma automation_cooldown_not_within_cycle:
  assumes "starts last_run now t a" and "starts last_run now t' a" and "\<And>a d. \<exists>r. last_run a d = Inr r"
  shows "dispatch_transitions last_run now [a] [t, t'] = [incident_request t a, incident_request t' a]"
  using assms by (simp add: dispatch_transitions_def automation_incident_starts)

text \<open>A last run without a time zone makes the cron evaluation raise, and the later automations are not looked at.\<close>

lemma cron_naive_last_run_raises:
  assumes "truthy (au_cron_expression a)" and "cr_prev env (the (au_cron_expression a)) now = Inr f" and "cron_due now f"
    and "resolve_cron_devices env devices a = Inr (d # ds)" and "0 < au_cooldown_seconds a"
    and "last_run (au_id a) (md_id d) = Inr (Some (Naive t))" and "au_trigger_type a = ''cron''" and "au_enabled a"
  shows "evaluate_cron_triggers env last_run now devices (a # as) = ([], Some TypeError)"
  using assms by (simp add: evaluate_cron_triggers_def evaluate_cron_def cron_cooling_down_def)

text \<open>
  When the clock starts an automation.  With \<open>prev\<close> the last instant of the schedule before a
  time, an instant of a schedule of at least thirty seconds' spacing is acted on by exactly the
  evaluations later than it by at most thirty seconds; so an evaluation that comes later, as in a
  loop that sleeps thirty seconds and then works, can miss it.
\<close>

theorem cron_instant_window:
  assumes "\<And>t. prev t < t \<and> prev t \<in> instants \<and> (\<forall>f \<in> instants. f < t \<longrightarrow> f \<le> prev t)"
    and "\<And>f g. f \<in> instants \<Longrightarrow> g \<in> instants \<Longrightarrow> f < g \<Longrightarrow> f + 30000000 \<le> g" and "f \<in> instants"
  shows "cron_due t (prev t) \<and> prev t = f \<longleftrightarrow> f < t \<and> t \<le> f + 30000000"
proof
  assume "cron_due t (prev t) \<and> prev t = f"
  then show "f < t \<and> t \<le> f + 30000000" using assms(1) [of t] by (auto simp: cron_due_def)
next
  assume t: "f < t \<and> t \<le> f + 30000000"
  then have "f \<le> prev t" using assms(1,3) by blast
  moreover have "\<not> f < prev t" using assms(1) [of t] assms(2) [OF assms(3), of "prev t"] t by auto
  ultimately show "cron_due t (prev t) \<and> prev t = f" using t by (auto simp: cron_due_def)
qed

definition minutely :: "time \<Rightarrow> time" where
  "minutely t = (t - 1) div 60000000 * 60000000"

theorem cron_instant_window_witness:
  "cron_due 30000001 (minutely 30000001) \<and> minutely 30000001 = 0 \<longleftrightarrow> False"
proof -
  let ?I = "{t :: time. 60000000 dvd t}"
  have p: "minutely t < t \<and> minutely t \<in> ?I \<and> (\<forall>f \<in> ?I. f < t \<longrightarrow> f \<le> minutely t)" for t
  proof -
    have "(t - 1) div 60000000 * 60000000 \<le> t - 1" by (metis add_le_same_cancel1 div_mult_mod_eq le_add_same_cancel1 pos_mod_sign zero_less_numeral)
    moreover have "f \<le> (t - 1) div 60000000 * 60000000" if "60000000 dvd f" "f < t" for f
    proof -
      have "f div 60000000 \<le> (t - 1) div 60000000" using that(2) by (intro zdiv_mono1) simp_all
      moreover have "f div 60000000 * 60000000 = f" using that(1) by simp
      ultimately show ?thesis by linarith
    qed
    ultimately show ?thesis by (simp add: minutely_def)
  qed
  have sp: "f + 30000000 \<le> g" if "f \<in> ?I" "g \<in> ?I" "f < g" for f g :: time
    using that by (auto elim!: dvdE)
  show ?thesis using cron_instant_window [of minutely ?I 0 30000001, OF p sp] by simp
qed

section \<open>The environment of a script\<close>

text \<open>A script sees the allowed variables of the server, its context and its output path, and nothing else.\<close>

lemma action_env_allowed:
  "set (dict_keys (action_env environ context_json output_path)) \<subseteq>
     set SAFE_ENV_VARS \<union> {''MONCTL_ACTION_CONTEXT'', ''MONCTL_ACTION_OUTPUT''}"
proof -
  have "set (dict_keys (concat (map (\<lambda>n. case map_of environ n of None \<Rightarrow> [] | Some v \<Rightarrow> [(n, v)]) ns))) \<subseteq> set ns" for ns
    by (induction ns) (auto split: option.splits)
  then show ?thesis unfolding action_env_def Let_def by (simp only: keys_dict_set) blast
qed

end
