(* ===== verification/Auth_Store.thy ===== *)
theory Auth_Store
  imports PyText Event_System
begin

text \<open>
  What authentication keeps: the user tables in Postgres (\<open>storage/models.py\<close>), the keys with a time
  to live in Redis, and the dict that the dependencies of a request hand to its handler.  Ids are the
  canonical strings of the UUIDs; times are seconds.
\<close>

section \<open>Redis\<close>

text \<open>
  A call can be carried out and answered, carried out with the answer lost, or not carried out at
  all; the code sees an exception in the last two.
\<close>

datatype fate = Answered | Lost_answer | Refused

datatype redis_call = GetCall | IncrCall | ExpireCall | SetexCall | SetNxCall | DelCall | GetDelCall

type_synonym fates = "redis_call \<Rightarrow> fate"

datatype 'v redis_value = Counter nat | Payload 'v

type_synonym 'v redis = "string \<Rightarrow> ('v redis_value \<times> int option) option"

definition redis_live :: "int \<Rightarrow> 'v redis \<Rightarrow> string \<Rightarrow> 'v redis_value option" where
  "redis_live now r k =
     (case r k of None \<Rightarrow> None
      | Some (v, None) \<Rightarrow> Some v
      | Some (v, Some expires) \<Rightarrow> if now < expires then Some v else None)"

definition redis_incr :: "int \<Rightarrow> string \<Rightarrow> 'v redis \<Rightarrow> (nat \<times> 'v redis) option" where
  "redis_incr now k r =
     (case redis_live now r k of
        None \<Rightarrow> Some (1, r(k \<mapsto> (Counter 1, None)))
      | Some (Counter n) \<Rightarrow> Some (Suc n, r(k \<mapsto> (Counter (Suc n), snd (the (r k)))))
      | Some (Payload _) \<Rightarrow> None)"

definition redis_expire :: "int \<Rightarrow> string \<Rightarrow> int \<Rightarrow> 'v redis \<Rightarrow> 'v redis" where
  "redis_expire now k secs r = (case redis_live now r k of None \<Rightarrow> r | Some v \<Rightarrow> r(k \<mapsto> (v, Some (now + secs))))"

definition redis_setex :: "int \<Rightarrow> string \<Rightarrow> int \<Rightarrow> 'v \<Rightarrow> 'v redis \<Rightarrow> 'v redis" where
  "redis_setex now k secs v r = r(k \<mapsto> (Payload v, Some (now + secs)))"

definition redis_setnx :: "int \<Rightarrow> string \<Rightarrow> int \<Rightarrow> 'v \<Rightarrow> 'v redis \<Rightarrow> bool \<times> 'v redis" where
  "redis_setnx now k secs v r =
     (if redis_live now r k = None then (True, r(k \<mapsto> (Payload v, Some (now + secs)))) else (False, r))"

definition redis_del :: "string \<Rightarrow> 'v redis \<Rightarrow> 'v redis" where
  "redis_del k r = r(k := None)"

section \<open>Strings\<close>

fun split_on :: "char \<Rightarrow> string \<Rightarrow> string list" where
  "split_on d [] = [[]]"
| "split_on d (c # cs) = (if c = d then [] # split_on d cs else (c # hd (split_on d cs)) # tl (split_on d cs))"

section \<open>Users and API keys\<close>

record user =
  us_username :: string
  us_password_hash :: string
  us_role :: string
  us_role_id :: "string option"
  us_all_tenants :: bool
  us_is_active :: bool
  us_token_version :: nat
  us_superset_access :: "string option"

record api_key =
  ak_key_type :: string
  ak_collector_id :: "string option"
  ak_scopes :: json
  ak_expires_at :: "int option"
  ak_user_id :: "string option"

text \<open>
  The tables: users by id, the rows of \<open>user_tenants\<close> and of \<open>role_permissions\<close>, API keys by hash.
\<close>

record auth_db =
  db_users :: "(string, user) dict"
  db_user_tenants :: "(string \<times> string) list"
  db_role_permissions :: "(string \<times> string \<times> string) list"
  db_api_keys :: "(string, api_key) dict"

definition tenants_of :: "string \<Rightarrow> auth_db \<Rightarrow> string list" where
  "tenants_of user_id db = map snd (filter (\<lambda>(u, t). u = user_id) (db_user_tenants db))"

definition permission :: "string \<Rightarrow> string \<Rightarrow> string" where
  "permission resource action = resource @ '':'' @ action"

definition permissions_of :: "string \<Rightarrow> auth_db \<Rightarrow> string list" where
  "permissions_of role_id db = map (\<lambda>(_, r, a). permission r a) (filter (\<lambda>(i, _). i = role_id) (db_role_permissions db))"

section \<open>The dict of an authenticated request\<close>

text \<open>An absent key of the dict is None; \<open>ad_tenant_ids = None\<close> is the explicit None, unrestricted.\<close>

record auth =
  ad_auth_type :: string
  ad_key_type :: "string option"
  ad_user_id :: "string option"
  ad_username :: "string option"
  ad_role :: "string option"
  ad_role_id :: "string option"
  ad_tenant_ids :: "string list option"
  ad_permissions :: "string list option"
  ad_collector_id :: "string option"
  ad_scopes :: "json option"

definition visible_tenants :: "string \<Rightarrow> string \<Rightarrow> user \<Rightarrow> auth_db \<Rightarrow> string list option" where
  "visible_tenants role user_id u db =
     (if role = ''admin'' \<or> us_all_tenants u then None else Some (tenants_of user_id db))"

section \<open>Failing requests\<close>

datatype auth_error = Http nat string | UncaughtError string

end
