(* ===== verification/Sessions.thy ===== *)
theory Sessions
  imports Auth_Store
begin

text \<open>
  Web sessions: the signed tokens (\<open>auth/service.py\<close>), login with its lockout, logout, the rotation of
  refresh tokens (\<open>auth/router.py\<close>), the OAuth provider (\<open>auth/oauth.py\<close>), the reading of the cookie
  (\<open>dependencies.py\<close>) and what an administrator changes (\<open>users/router.py\<close>, \<open>roles/router.py\<close>).  The
  signature check of the tokens and the password hash are libraries: parameters of the environment.
  Requests are taken one at a time; the login events, counters and responses that only report are left out.
\<close>

section \<open>Tokens\<close>

record claims =
  cl_type :: string
  cl_sub :: string
  cl_username :: "string option"
  cl_role :: "string option"
  cl_tv :: nat
  cl_jti :: "string option"
  cl_iat :: int
  cl_exp :: int

text \<open>
  \<open>ev_verify\<close> is the signature check: the claims of a token the key has signed.  \<open>jwt.decode\<close> also
  refuses a token that is expired or issued in the future.
\<close>

record session_env =
  ev_verify :: "string \<Rightarrow> claims option"
  ev_check_password :: "string \<Rightarrow> string \<Rightarrow> bool"
  ev_hash_password :: "string \<Rightarrow> string"
  ev_access_minutes :: nat
  ev_refresh_days :: nat
  ev_redis :: bool
  ev_oauth_client_id :: string
  ev_oauth_client_secret :: string
  ev_oauth_redirect_uris :: string

definition access_max_age :: "session_env \<Rightarrow> int" where
  "access_max_age env = int (ev_access_minutes env) * 60"

definition refresh_max_age :: "session_env \<Rightarrow> int" where
  "refresh_max_age env = int (ev_refresh_days env) * 86400"

definition create_access_token :: "session_env \<Rightarrow> int \<Rightarrow> string \<Rightarrow> user \<Rightarrow> claims" where
  "create_access_token env now user_id u =
     \<lparr>cl_type = ''access'', cl_sub = user_id, cl_username = Some (us_username u), cl_role = Some (us_role u),
      cl_tv = us_token_version u, cl_jti = None, cl_iat = now, cl_exp = now + access_max_age env\<rparr>"

definition create_refresh_token :: "session_env \<Rightarrow> int \<Rightarrow> string \<Rightarrow> string \<Rightarrow> user \<Rightarrow> claims" where
  "create_refresh_token env now jti user_id u =
     \<lparr>cl_type = ''refresh'', cl_sub = user_id, cl_username = None, cl_role = None,
      cl_tv = us_token_version u, cl_jti = Some jti, cl_iat = now, cl_exp = now + refresh_max_age env\<rparr>"

definition decode_token :: "session_env \<Rightarrow> int \<Rightarrow> string \<Rightarrow> claims option" where
  "decode_token env now t =
     (case ev_verify env t of None \<Rightarrow> None
      | Some c \<Rightarrow> if cl_iat c \<le> now \<and> now < cl_exp c then Some c else None)"

section \<open>The state\<close>

text \<open>
  What a key of Redis holds: the mark of a locked pair or a used token, or the data of an OAuth code.
  \<open>sw_issued\<close> are the claims of every token signed so far and \<open>sw_redeemed\<close> the refresh tokens
  \<open>/refresh\<close> has accepted, each with whether Redis had answered; the code keeps neither.
\<close>

record oauth_code =
  oc_user_id :: string
  oc_client_id :: string
  oc_redirect_uri :: string

datatype mark = Mark | Code oauth_code

record sessions =
  sw_now :: int
  sw_db :: auth_db
  sw_redis :: "mark redis"
  sw_issued :: "claims list"
  sw_redeemed :: "(string \<times> bool) list"

definition user_of :: "sessions \<Rightarrow> string \<Rightarrow> user option" where
  "user_of w user_id = map_of (db_users (sw_db w)) user_id"

definition put_user :: "string \<Rightarrow> user \<Rightarrow> sessions \<Rightarrow> sessions" where
  "put_user user_id u w = w\<lparr>sw_db := (sw_db w)\<lparr>db_users := dict_set user_id u (db_users (sw_db w))\<rparr>\<rparr>"

definition issue :: "claims list \<Rightarrow> sessions \<Rightarrow> sessions" where
  "issue cs w = w\<lparr>sw_issued := cs @ sw_issued w\<rparr>"

definition bump_token_version :: "user \<Rightarrow> user" where
  "bump_token_version u = u\<lparr>us_token_version := us_token_version u + 1\<rparr>"

definition revoke_all_user_tokens :: "string \<Rightarrow> user \<Rightarrow> sessions \<Rightarrow> sessions" where
  "revoke_all_user_tokens user_id u w = put_user user_id (bump_token_version u) w"

section \<open>The lockout of failed logins\<close>

definition LOGIN_FAIL_WINDOW :: int where "LOGIN_FAIL_WINDOW = 600"
definition LOGIN_FAIL_THRESHOLD :: nat where "LOGIN_FAIL_THRESHOLD = 10"
definition LOGIN_LOCK_DURATION :: int where "LOGIN_LOCK_DURATION = 900"

definition rl_key :: "string \<Rightarrow> string \<Rightarrow> string" where
  "rl_key ip username = ''login_rl:'' @ ip @ '':'' @ username"

definition lock_key :: "string \<Rightarrow> string \<Rightarrow> string" where
  "lock_key ip username = ''login_lock:'' @ ip @ '':'' @ username"

definition rl_client_ip :: "string \<Rightarrow> string option \<Rightarrow> string" where
  "rl_client_ip xff host = (if xff \<noteq> [] then strip (takeWhile (\<lambda>c. c \<noteq> CHR '','') xff)
     else case host of None \<Rightarrow> ''unknown'' | Some h \<Rightarrow> h)"

definition check_login_locked :: "session_env \<Rightarrow> fates \<Rightarrow> string \<Rightarrow> string \<Rightarrow> sessions \<Rightarrow> bool" where
  "check_login_locked env fate ip username w \<longleftrightarrow>
     ev_redis env \<and> fate GetCall = Answered \<and> redis_live (sw_now w) (sw_redis w) (lock_key ip username) \<noteq> None"

text \<open>Nothing of a call that fails is seen but what it did in Redis, and the rest is skipped.\<close>

definition record_login_failure :: "session_env \<Rightarrow> fates \<Rightarrow> string \<Rightarrow> string \<Rightarrow> sessions \<Rightarrow> sessions" where
  "record_login_failure env fate ip username w =
     (if \<not> ev_redis env \<or> fate IncrCall = Refused then w
      else case redis_incr (sw_now w) (rl_key ip username) (sw_redis w) of
        None \<Rightarrow> w
      | Some (count, r) \<Rightarrow>
          if fate IncrCall = Lost_answer then w\<lparr>sw_redis := r\<rparr>
          else let r = (if count = 1 \<and> fate ExpireCall \<noteq> Refused
                        then redis_expire (sw_now w) (rl_key ip username) LOGIN_FAIL_WINDOW r else r)
               in if count = 1 \<and> fate ExpireCall \<noteq> Answered \<or> count < LOGIN_FAIL_THRESHOLD
                     \<or> fate SetexCall = Refused then w\<lparr>sw_redis := r\<rparr>
                  else w\<lparr>sw_redis := redis_setex (sw_now w) (lock_key ip username) LOGIN_LOCK_DURATION Mark r\<rparr>)"

definition clear_login_counters :: "session_env \<Rightarrow> fates \<Rightarrow> string \<Rightarrow> string \<Rightarrow> sessions \<Rightarrow> sessions" where
  "clear_login_counters env fate ip username w =
     (if \<not> ev_redis env \<or> fate DelCall = Refused then w
      else w\<lparr>sw_redis := redis_del (lock_key ip username) (redis_del (rl_key ip username) (sw_redis w))\<rparr>)"

section \<open>Login, logout and rotation\<close>

definition token_pair :: "session_env \<Rightarrow> string \<Rightarrow> string \<Rightarrow> user \<Rightarrow> sessions \<Rightarrow> claims list" where
  "token_pair env jti user_id u w =
     [create_access_token env (sw_now w) user_id u, create_refresh_token env (sw_now w) jti user_id u]"

definition user_by_name :: "string \<Rightarrow> auth_db \<Rightarrow> (string \<times> user) option" where
  "user_by_name username db = find (\<lambda>(_, u). us_username u = username) (db_users db)"

definition login ::
    "session_env \<Rightarrow> fates \<Rightarrow> string \<Rightarrow> string \<Rightarrow> string \<Rightarrow> string \<Rightarrow> sessions
     \<Rightarrow> (auth_error + claims list) \<times> sessions" where
  "login env fate ip username password jti w =
     (if check_login_locked env fate ip username w then (Inl (Http 429 ''Too many failed attempts''), w)
      else case user_by_name username (sw_db w) of
        None \<Rightarrow> (Inl (Http 401 ''Invalid username or password''), record_login_failure env fate ip username w)
      | Some (user_id, u) \<Rightarrow>
          if \<not> ev_check_password env password (us_password_hash u)
          then (Inl (Http 401 ''Invalid username or password''), record_login_failure env fate ip username w)
          else if \<not> us_is_active u
          then (Inl (Http 403 ''Account is disabled''), record_login_failure env fate ip username w)
          else let w = clear_login_counters env fate ip username w;
                   cs = token_pair env jti user_id u w
               in (Inr cs, issue cs w))"

definition token_user :: "session_env \<Rightarrow> string option \<Rightarrow> sessions \<Rightarrow> string option" where
  "token_user env cookie w = (case cookie of None \<Rightarrow> None
      | Some t \<Rightarrow> if t = [] then None else map_option cl_sub (decode_token env (sw_now w) t))"

definition logout :: "session_env \<Rightarrow> string option \<Rightarrow> sessions \<Rightarrow> sessions" where
  "logout env cookie w =
     (case token_user env cookie w of None \<Rightarrow> w
      | Some user_id \<Rightarrow>
          (case user_of w user_id of None \<Rightarrow> w | Some u \<Rightarrow> revoke_all_user_tokens user_id u w))"

definition jti_key :: "string \<Rightarrow> string" where
  "jti_key jti = ''refresh_used:'' @ jti"

definition mark_refresh_jti_used :: "session_env \<Rightarrow> fates \<Rightarrow> string \<Rightarrow> sessions \<Rightarrow> bool \<times> sessions" where
  "mark_refresh_jti_used env fate jti w =
     (if \<not> ev_redis env \<or> fate SetNxCall = Refused then (True, w)
      else let (ok, r) = redis_setnx (sw_now w) (jti_key jti) (refresh_max_age env) Mark (sw_redis w)
           in (fate SetNxCall = Lost_answer \<or> ok, w\<lparr>sw_redis := r\<rparr>))"

definition redeem :: "string option \<Rightarrow> bool \<Rightarrow> sessions \<Rightarrow> sessions" where
  "redeem jti answered w = (case jti of None \<Rightarrow> w | Some j \<Rightarrow> w\<lparr>sw_redeemed := (j, answered) # sw_redeemed w\<rparr>)"

text \<open>\<open>if jti\<close>: an absent or an empty \<open>jti\<close> skips the check for a replay.\<close>

definition refresh ::
    "session_env \<Rightarrow> fates \<Rightarrow> string option \<Rightarrow> string \<Rightarrow> sessions \<Rightarrow> (auth_error + claims list) \<times> sessions" where
  "refresh env fate cookie jti' w =
     (case cookie of None \<Rightarrow> (Inl (Http 401 ''No refresh token''), w)
      | Some t \<Rightarrow> if t = [] then (Inl (Http 401 ''No refresh token''), w) else
     (case decode_token env (sw_now w) t of None \<Rightarrow> (Inl (Http 401 ''Invalid refresh token''), w)
      | Some c \<Rightarrow>
          if cl_type c \<noteq> ''refresh'' then (Inl (Http 401 ''Invalid token type''), w)
          else case user_of w (cl_sub c) of None \<Rightarrow> (Inl (Http 401 ''User not found or disabled''), w)
          | Some u \<Rightarrow>
              if \<not> us_is_active u then (Inl (Http 401 ''User not found or disabled''), w)
              else if cl_tv c \<noteq> us_token_version u then (Inl (Http 401 ''Token revoked''), w)
              else let jti = (if cl_jti c = Some [] then None else cl_jti c);
                       (fresh, w) = (case jti of None \<Rightarrow> (True, w) | Some j \<Rightarrow> mark_refresh_jti_used env fate j w)
                   in if \<not> fresh then (Inl (Http 401 ''Token revoked''), revoke_all_user_tokens (cl_sub c) u w)
                      else let cs = token_pair env jti' (cl_sub c) u w
                           in (Inr cs, issue cs (redeem jti (ev_redis env \<and> fate SetNxCall = Answered) w))))"

section \<open>The cookie of a request\<close>

definition get_user_from_cookie :: "session_env \<Rightarrow> string option \<Rightarrow> sessions \<Rightarrow> auth option" where
  "get_user_from_cookie env cookie w =
     (case cookie of None \<Rightarrow> None
      | Some t \<Rightarrow> if t = [] then None else
     (case decode_token env (sw_now w) t of None \<Rightarrow> None
      | Some c \<Rightarrow>
          if cl_type c \<noteq> ''access'' then None
          else case (cl_role c, cl_username c, user_of w (cl_sub c)) of
            (Some role, Some username, Some u) \<Rightarrow>
              if \<not> us_is_active u \<or> cl_tv c \<noteq> us_token_version u then None
              else Some \<lparr>ad_auth_type = ''user'', ad_key_type = None, ad_user_id = Some (cl_sub c),
                         ad_username = Some username, ad_role = Some role,
                         ad_role_id = (if role \<noteq> ''admin'' then us_role_id u else None),
                         ad_tenant_ids = visible_tenants role (cl_sub c) u (sw_db w),
                         ad_permissions = None, ad_collector_id = None, ad_scopes = None\<rparr>
          | _ \<Rightarrow> None))"


section \<open>The OAuth provider\<close>

definition CODE_TTL_SECONDS :: int where "CODE_TTL_SECONDS = 60"

definition allowed_redirect_uris :: "session_env \<Rightarrow> string list" where
  "allowed_redirect_uris env = filter (\<lambda>u. u \<noteq> []) (map strip (split_on CHR '','' (ev_oauth_redirect_uris env)))"

definition client_configured :: "session_env \<Rightarrow> bool" where
  "client_configured env \<longleftrightarrow> ev_oauth_client_id env \<noteq> [] \<and> ev_oauth_client_secret env \<noteq> [] \<and> allowed_redirect_uris env \<noteq> []"

definition validate_client :: "session_env \<Rightarrow> string \<Rightarrow> auth_error + unit" where
  "validate_client env client_id =
     (if \<not> client_configured env then Inl (Http 503 ''OAuth2 provider is not configured'')
      else if client_id \<noteq> ev_oauth_client_id env then Inl (Http 400 ''invalid_client'') else Inr ())"

definition validate_redirect_uri :: "session_env \<Rightarrow> string \<Rightarrow> auth_error + unit" where
  "validate_redirect_uri env uri =
     (if uri \<in> set (allowed_redirect_uris env) then Inr () else Inl (Http 400 ''invalid redirect_uri''))"

definition code_key :: "string \<Rightarrow> string" where
  "code_key code = ''oauth_code:'' @ code"

definition store_code :: "session_env \<Rightarrow> fates \<Rightarrow> string \<Rightarrow> oauth_code \<Rightarrow> sessions \<Rightarrow> (auth_error + unit) \<times> sessions" where
  "store_code env fate code d w =
     (if \<not> ev_redis env then (Inl (Http 503 ''Redis unavailable''), w)
      else (if fate SetexCall = Answered then Inr () else Inl (UncaughtError ''RedisError''),
            if fate SetexCall = Refused then w
            else w\<lparr>sw_redis := redis_setex (sw_now w) (code_key code) CODE_TTL_SECONDS (Code d) (sw_redis w)\<rparr>))"

fun code_data :: "mark redis_value option \<Rightarrow> oauth_code option" where
  "code_data (Some (Payload (Code d))) = Some d"
| "code_data _ = None"

text \<open>GETDEL, and after an exception GET and DEL.\<close>

definition consume_code :: "session_env \<Rightarrow> fates \<Rightarrow> string \<Rightarrow> sessions \<Rightarrow> (auth_error + oauth_code option) \<times> sessions" where
  "consume_code env fate code w =
     (if \<not> ev_redis env then (Inr None, w)
      else let k = code_key code;
               gone = w\<lparr>sw_redis := redis_del k (sw_redis w)\<rparr>
           in if fate GetDelCall = Answered then (Inr (code_data (redis_live (sw_now w) (sw_redis w) k)), gone)
              else let w = (if fate GetDelCall = Refused then w else gone);
                       raw = redis_live (sw_now w) (sw_redis w) k
                   in if fate GetCall \<noteq> Answered then (Inl (UncaughtError ''RedisError''), w)
                      else if raw = None then (Inr None, w)
                      else (if fate DelCall = Answered then Inr (code_data raw) else Inl (UncaughtError ''RedisError''),
                            if fate DelCall = Refused then w else gone))"

definition effective_superset_access :: "user \<Rightarrow> string" where
  "effective_superset_access u =
     (let val = lower (strip (case us_superset_access u of None \<Rightarrow> [] | Some s \<Rightarrow> s))
      in if val \<in> {''none'', ''viewer'', ''analyst'', ''admin''} then val
         else if us_role u = ''admin'' then ''admin'' else ''viewer'')"

datatype authorize_response = LoginPage | AccessDenied | CodeFor string

definition oauth_authorize ::
    "session_env \<Rightarrow> fates \<Rightarrow> string \<Rightarrow> string \<Rightarrow> string \<Rightarrow> string option \<Rightarrow> string \<Rightarrow> sessions
     \<Rightarrow> (auth_error + authorize_response) \<times> sessions" where
  "oauth_authorize env fate response_type client_id redirect_uri cookie code w =
     (case ebind (validate_client env client_id) (\<lambda>_. validate_redirect_uri env redirect_uri) of
        Inl e \<Rightarrow> (Inl e, w)
      | Inr _ \<Rightarrow>
          if response_type \<noteq> ''code'' then (Inl (Http 400 ''unsupported_response_type''), w)
          else case get_user_from_cookie env cookie w of None \<Rightarrow> (Inr LoginPage, w)
          | Some a \<Rightarrow>
              (case ad_user_id a of None \<Rightarrow> (Inl (Http 403 ''user_inactive''), w)
               | Some user_id \<Rightarrow>
              (case user_of w user_id of None \<Rightarrow> (Inl (Http 403 ''user_inactive''), w)
               | Some u \<Rightarrow>
                   if \<not> us_is_active u then (Inl (Http 403 ''user_inactive''), w)
                   else if effective_superset_access u = ''none'' then (Inr AccessDenied, w)
                   else (case store_code env fate code \<lparr>oc_user_id = user_id, oc_client_id = client_id, oc_redirect_uri = redirect_uri\<rparr> w of
                           (Inl e, w') \<Rightarrow> (Inl e, w')
                         | (Inr _, w') \<Rightarrow> (Inr (CodeFor code), w')))))"

definition client_authenticated :: "session_env \<Rightarrow> (string \<times> string) option \<Rightarrow> string option \<Rightarrow> string option \<Rightarrow> auth_error + string" where
  "client_authenticated env basic client_id client_secret =
     (case (case basic of Some (i, s) \<Rightarrow> (Some i, Some s) | None \<Rightarrow> (client_id, client_secret)) of
        (Some i, Some s) \<Rightarrow>
          if i = [] \<or> s = [] then Inl (Http 401 ''invalid_client'')
          else ebind (validate_client env i) (\<lambda>_.
                 if s \<noteq> ev_oauth_client_secret env then Inl (Http 401 ''invalid_client'') else Inr i)
      | _ \<Rightarrow> Inl (Http 401 ''invalid_client''))"

definition oauth_code_grant ::
    "session_env \<Rightarrow> fates \<Rightarrow> string \<Rightarrow> string option \<Rightarrow> string option \<Rightarrow> string \<Rightarrow> sessions
     \<Rightarrow> (auth_error + claims list) \<times> sessions" where
  "oauth_code_grant env fate client_id code redirect_uri jti w =
     (if code \<in> {None, Some []} \<or> redirect_uri \<in> {None, Some []} then (Inl (Http 400 ''invalid_request''), w)
      else case consume_code env fate (the code) w of
        (Inl e, w) \<Rightarrow> (Inl e, w)
      | (Inr None, w) \<Rightarrow> (Inl (Http 400 ''invalid_grant''), w)
      | (Inr (Some d), w) \<Rightarrow>
          if oc_client_id d \<noteq> client_id \<or> Some (oc_redirect_uri d) \<noteq> redirect_uri then (Inl (Http 400 ''invalid_grant''), w)
          else case user_of w (oc_user_id d) of None \<Rightarrow> (Inl (Http 403 ''user_inactive''), w)
          | Some u \<Rightarrow>
              if \<not> us_is_active u then (Inl (Http 403 ''user_inactive''), w)
              else let cs = token_pair env jti (oc_user_id d) u w in (Inr cs, issue cs w))"

text \<open>The refresh grant neither marks nor rotates the refresh token.\<close>

definition oauth_refresh_grant :: "session_env \<Rightarrow> string option \<Rightarrow> sessions \<Rightarrow> (auth_error + claims list) \<times> sessions" where
  "oauth_refresh_grant env refresh_token w =
     (if refresh_token \<in> {None, Some []} then (Inl (Http 400 ''invalid_request''), w)
      else case decode_token env (sw_now w) (the refresh_token) of None \<Rightarrow> (Inl (Http 400 ''invalid_grant''), w)
      | Some c \<Rightarrow>
          if cl_type c \<noteq> ''refresh'' then (Inl (Http 400 ''invalid_grant''), w)
          else case user_of w (cl_sub c) of None \<Rightarrow> (Inl (Http 403 ''user_inactive''), w)
          | Some u \<Rightarrow>
              if \<not> us_is_active u then (Inl (Http 403 ''user_inactive''), w)
              else if us_token_version u \<noteq> cl_tv c then (Inl (Http 400 ''invalid_grant''), w)
              else let cs = [create_access_token env (sw_now w) (cl_sub c) u] in (Inr cs, issue cs w))"

record token_request =
  tr_grant_type :: string
  tr_basic :: "(string \<times> string) option"
  tr_client_id :: "string option"
  tr_client_secret :: "string option"
  tr_code :: "string option"
  tr_redirect_uri :: "string option"
  tr_refresh_token :: "string option"

definition oauth_token ::
    "session_env \<Rightarrow> fates \<Rightarrow> token_request \<Rightarrow> string \<Rightarrow> sessions \<Rightarrow> (auth_error + claims list) \<times> sessions" where
  "oauth_token env fate r jti w =
     (case client_authenticated env (tr_basic r) (tr_client_id r) (tr_client_secret r) of
        Inl e \<Rightarrow> (Inl e, w)
      | Inr client_id \<Rightarrow>
          if tr_grant_type r = ''authorization_code''
          then oauth_code_grant env fate client_id (tr_code r) (tr_redirect_uri r) jti w
          else if tr_grant_type r = ''refresh_token'' then oauth_refresh_grant env (tr_refresh_token r) w
          else (Inl (Http 400 ''unsupported_grant_type''), w))"


section \<open>What administrators and users change\<close>

record user_update =
  uu_role :: "string option"
  uu_role_id :: "string option"
  uu_all_tenants :: "bool option"
  uu_is_active :: "bool option"
  uu_superset_access :: "string option"

definition auth_changed :: "user_update \<Rightarrow> user \<Rightarrow> bool" where
  "auth_changed q u \<longleftrightarrow>
     (case uu_role q of None \<Rightarrow> False | Some r \<Rightarrow> us_role u \<noteq> r) \<or>
     (case uu_role_id q of None \<Rightarrow> False | Some i \<Rightarrow> us_role_id u \<noteq> (if i = [] then None else Some i)) \<or>
     (case uu_all_tenants q of None \<Rightarrow> False | Some b \<Rightarrow> us_all_tenants u \<noteq> b) \<or>
     (case uu_is_active q of None \<Rightarrow> False | Some b \<Rightarrow> us_is_active u \<and> \<not> b)"

definition updated_user :: "user_update \<Rightarrow> user \<Rightarrow> user" where
  "updated_user q u =
     u\<lparr>us_role := (case uu_role q of None \<Rightarrow> us_role u | Some r \<Rightarrow> r),
       us_role_id := (case uu_role_id q of None \<Rightarrow> us_role_id u | Some i \<Rightarrow> if i = [] then None else Some i),
       us_all_tenants := (case uu_all_tenants q of None \<Rightarrow> us_all_tenants u | Some b \<Rightarrow> b),
       us_is_active := (case uu_is_active q of None \<Rightarrow> us_is_active u | Some b \<Rightarrow> b),
       us_superset_access := (case uu_superset_access q of None \<Rightarrow> us_superset_access u | Some v \<Rightarrow> Some v)\<rparr>"

definition update_user :: "string \<Rightarrow> user_update \<Rightarrow> sessions \<Rightarrow> (auth_error + unit) \<times> sessions" where
  "update_user user_id q w =
     (case user_of w user_id of None \<Rightarrow> (Inl (Http 404 ''User not found''), w)
      | Some u \<Rightarrow>
          (Inr (), put_user user_id (if auth_changed q u then bump_token_version (updated_user q u) else updated_user q u) w))"

definition admin_reset_password :: "session_env \<Rightarrow> string \<Rightarrow> string \<Rightarrow> sessions \<Rightarrow> (auth_error + unit) \<times> sessions" where
  "admin_reset_password env user_id new_password w =
     (case user_of w user_id of None \<Rightarrow> (Inl (Http 404 ''User not found''), w)
      | Some u \<Rightarrow>
          (Inr (), put_user user_id (bump_token_version (u\<lparr>us_password_hash := ev_hash_password env new_password\<rparr>)) w))"

definition change_my_password :: "session_env \<Rightarrow> string \<Rightarrow> string \<Rightarrow> string \<Rightarrow> sessions \<Rightarrow> (auth_error + unit) \<times> sessions" where
  "change_my_password env user_id current_password new_password w =
     (case user_of w user_id of None \<Rightarrow> (Inl (Http 404 ''User not found''), w)
      | Some u \<Rightarrow>
          if \<not> ev_check_password env current_password (us_password_hash u)
          then (Inl (Http 400 ''Current password is incorrect''), w)
          else (Inr (), put_user user_id (u\<lparr>us_password_hash := ev_hash_password env new_password\<rparr>) w))"

text \<open>A new user has the token version 0 of its column; \<open>user_id\<close> is the \<open>uuid4\<close> of the row.\<close>

definition create_user :: "session_env \<Rightarrow> string \<Rightarrow> string \<Rightarrow> string \<Rightarrow> user_update \<Rightarrow> sessions \<Rightarrow> (auth_error + unit) \<times> sessions" where
  "create_user env user_id username password q w =
     (if user_by_name username (sw_db w) \<noteq> None then (Inl (Http 409 ''Username already exists''), w)
      else (Inr (), put_user user_id
             \<lparr>us_username = username, us_password_hash = ev_hash_password env password,
              us_role = (case uu_role q of None \<Rightarrow> ''user'' | Some r \<Rightarrow> r),
              us_role_id = (case uu_role_id q of None \<Rightarrow> None | Some i \<Rightarrow> if i = [] then None else Some i),
              us_all_tenants = (uu_all_tenants q = Some True), us_is_active = True, us_token_version = 0,
              us_superset_access = uu_superset_access q\<rparr> w))"

text \<open>The rows of the user in \<open>user_tenants\<close> and \<open>api_keys\<close> go with it.\<close>

definition delete_user :: "string \<Rightarrow> string \<Rightarrow> sessions \<Rightarrow> (auth_error + unit) \<times> sessions" where
  "delete_user admin_id user_id w =
     (if admin_id = user_id then (Inl (Http 400 ''Cannot delete your own account''), w)
      else case user_of w user_id of None \<Rightarrow> (Inl (Http 404 ''User not found''), w)
      | Some u \<Rightarrow>
          (Inr (), w\<lparr>sw_db := (sw_db w)\<lparr>
             db_users := dict_pop user_id (db_users (sw_db w)),
             db_user_tenants := filter (\<lambda>(i, _). i \<noteq> user_id) (db_user_tenants (sw_db w)),
             db_api_keys := filter (\<lambda>(_, k). ak_user_id k \<noteq> Some user_id) (db_api_keys (sw_db w))\<rparr>\<rparr>))"

definition assign_tenant :: "string \<Rightarrow> string \<Rightarrow> sessions \<Rightarrow> (auth_error + unit) \<times> sessions" where
  "assign_tenant user_id tenant_id w =
     (case user_of w user_id of None \<Rightarrow> (Inl (Http 404 ''User not found''), w)
      | Some u \<Rightarrow>
          if (user_id, tenant_id) \<in> set (db_user_tenants (sw_db w)) then (Inl (Http 409 ''Tenant already assigned''), w)
          else (Inr (), w\<lparr>sw_db := (sw_db w)\<lparr>db_user_tenants := db_user_tenants (sw_db w) @ [(user_id, tenant_id)]\<rparr>\<rparr>))"

definition remove_tenant :: "string \<Rightarrow> string \<Rightarrow> sessions \<Rightarrow> (auth_error + unit) \<times> sessions" where
  "remove_tenant user_id tenant_id w =
     (if (user_id, tenant_id) \<notin> set (db_user_tenants (sw_db w)) then (Inl (Http 404 ''Tenant assignment not found''), w)
      else (Inr (), w\<lparr>sw_db := (sw_db w)\<lparr>db_user_tenants := removeAll (user_id, tenant_id) (db_user_tenants (sw_db w))\<rparr>\<rparr>))"

text \<open>
  An edited role: its permissions when the request has some (checked against the known resources and
  actions), and a new token version for each of its users in any case.
\<close>

definition holds_role :: "string \<Rightarrow> user \<Rightarrow> bool" where
  "holds_role role_id u \<longleftrightarrow> us_role_id u = Some role_id"

definition update_role ::
    "(string \<Rightarrow> bool) \<Rightarrow> (string \<Rightarrow> bool) \<Rightarrow> string \<Rightarrow> (string \<times> string) list option \<Rightarrow> sessions \<Rightarrow> (auth_error + unit) \<times> sessions" where
  "update_role valid_resource valid_action role_id perms w =
     (case find (\<lambda>(r, a). \<not> valid_resource r \<or> \<not> valid_action a) (case perms of None \<Rightarrow> [] | Some ps \<Rightarrow> ps) of
        Some _ \<Rightarrow> (Inl (Http 422 ''Invalid resource or action''), w)
      | None \<Rightarrow>
          (Inr (), w\<lparr>sw_db := (sw_db w)\<lparr>
             db_role_permissions := (case perms of None \<Rightarrow> db_role_permissions (sw_db w)
               | Some ps \<Rightarrow> filter (\<lambda>(i, _). i \<noteq> role_id) (db_role_permissions (sw_db w)) @ map (\<lambda>p. (role_id, p)) ps),
             db_users := map (\<lambda>(i, u). (i, if holds_role role_id u then bump_token_version u else u)) (db_users (sw_db w))\<rparr>\<rparr>))"

text \<open>Deleting a role sets the column of its users to NULL and removes its permissions.\<close>

definition delete_role :: "string \<Rightarrow> bool \<Rightarrow> sessions \<Rightarrow> (auth_error + unit) \<times> sessions" where
  "delete_role role_id is_system w =
     (if is_system then (Inl (Http 400 ''System roles cannot be deleted''), w)
      else (Inr (), w\<lparr>sw_db := (sw_db w)\<lparr>
             db_role_permissions := filter (\<lambda>(i, _). i \<noteq> role_id) (db_role_permissions (sw_db w)),
             db_users := map (\<lambda>(i, u). (i, if holds_role role_id u then u\<lparr>us_role_id := None\<rparr> else u)) (db_users (sw_db w))\<rparr>\<rparr>))"

section \<open>Requests\<close>

text \<open>
  A token of a request that the signature check accepts has been signed before, and the random ids of
  new tokens, users and codes are new.
\<close>

datatype session_event =
    Seconds nat
  | Login fates string string string string
  | Logout "string option"
  | Refresh fates "string option" string
  | Authorize fates string string string "string option" string
  | Token fates token_request string
  | Update_user string user_update
  | Reset_password string string
  | Change_password string string string
  | Create_user string string string user_update
  | Delete_user string string
  | Assign_tenant string string
  | Remove_tenant string string
  | Update_role string "(string \<times> string) list option"
  | Delete_role string bool

definition unforged :: "session_env \<Rightarrow> sessions \<Rightarrow> string option \<Rightarrow> bool" where
  "unforged env w cookie \<longleftrightarrow>
     (case cookie of None \<Rightarrow> True
      | Some t \<Rightarrow> (case ev_verify env t of None \<Rightarrow> True | Some c \<Rightarrow> c \<in> set (sw_issued w)))"

definition new_jti :: "sessions \<Rightarrow> string \<Rightarrow> bool" where
  "new_jti w jti \<longleftrightarrow> jti \<noteq> [] \<and> Some jti \<notin> cl_jti ` set (sw_issued w)"

definition new_user_id :: "sessions \<Rightarrow> string \<Rightarrow> bool" where
  "new_user_id w user_id \<longleftrightarrow> user_of w user_id = None \<and> user_id \<notin> cl_sub ` set (sw_issued w)"

text \<open>The guard of an event, and its effect.\<close>

fun allowed :: "session_env \<Rightarrow> session_event \<Rightarrow> sessions \<Rightarrow> bool" where
  "allowed env (Login fate ip username password jti) w = new_jti w jti"
| "allowed env (Logout cookie) w = unforged env w cookie"
| "allowed env (Refresh fate cookie jti) w = (unforged env w cookie \<and> new_jti w jti)"
| "allowed env (Authorize fate rt client_id uri cookie code) w = unforged env w cookie"
| "allowed env (Token fate r jti) w = (unforged env w (tr_refresh_token r) \<and> new_jti w jti)"
| "allowed env (Create_user user_id username password q) w = new_user_id w user_id"
| "allowed env _ w = True"

fun perform :: "session_env \<Rightarrow> (string \<Rightarrow> bool) \<Rightarrow> (string \<Rightarrow> bool) \<Rightarrow> session_event \<Rightarrow> sessions \<Rightarrow> sessions" where
  "perform env vr va (Seconds n) w = w\<lparr>sw_now := sw_now w + int n\<rparr>"
| "perform env vr va (Login fate ip username password jti) w = snd (login env fate ip username password jti w)"
| "perform env vr va (Logout cookie) w = logout env cookie w"
| "perform env vr va (Refresh fate cookie jti) w = snd (refresh env fate cookie jti w)"
| "perform env vr va (Authorize fate rt client_id uri cookie code) w = snd (oauth_authorize env fate rt client_id uri cookie code w)"
| "perform env vr va (Token fate r jti) w = snd (oauth_token env fate r jti w)"
| "perform env vr va (Update_user user_id q) w = snd (update_user user_id q w)"
| "perform env vr va (Reset_password user_id pw) w = snd (admin_reset_password env user_id pw w)"
| "perform env vr va (Change_password user_id cur pw) w = snd (change_my_password env user_id cur pw w)"
| "perform env vr va (Create_user user_id username pw q) w = snd (create_user env user_id username pw q w)"
| "perform env vr va (Delete_user admin_id user_id) w = snd (delete_user admin_id user_id w)"
| "perform env vr va (Assign_tenant user_id t) w = snd (assign_tenant user_id t w)"
| "perform env vr va (Remove_tenant user_id t) w = snd (remove_tenant user_id t w)"
| "perform env vr va (Update_role role_id ps) w = snd (update_role vr va role_id ps w)"
| "perform env vr va (Delete_role role_id is_system) w = snd (delete_role role_id is_system w)"

definition session_step ::
    "session_env \<Rightarrow> (string \<Rightarrow> bool) \<Rightarrow> (string \<Rightarrow> bool) \<Rightarrow> session_event \<Rightarrow> sessions \<Rightarrow> sessions option" where
  "session_step env vr va e w = (if allowed env e w then Some (perform env vr va e w) else None)"

text \<open>At the start no token has been signed and Redis is empty.\<close>

definition fresh_sessions :: "int \<Rightarrow> auth_db \<Rightarrow> sessions" where
  "fresh_sessions now db = \<lparr>sw_now = now, sw_db = db, sw_redis = (\<lambda>_. None), sw_issued = [], sw_redeemed = []\<rparr>"

end
