(* ===== verification/Sessions_Props.thy ===== *)
theory Sessions_Props
  imports Sessions
begin

text \<open>
  What the sessions promise: an accepted access token carries the present role of an active user, a
  revoked token stays revoked, a refresh token is accepted once, and a guesser of passwords is held up.
\<close>

section \<open>Keys\<close>

lemma keys_apart:
  "jti_key j \<noteq> rl_key ip u" "jti_key j \<noteq> lock_key ip u" "jti_key j \<noteq> code_key c"
  "rl_key ip u \<noteq> jti_key j" "lock_key ip u \<noteq> jti_key j" "code_key c \<noteq> jti_key j"
  "rl_key ip u \<noteq> lock_key ip' u'" "lock_key ip' u' \<noteq> rl_key ip u"
  "code_key c \<noteq> rl_key ip u" "code_key c \<noteq> lock_key ip u"
  by (simp_all add: jti_key_def rl_key_def lock_key_def code_key_def)

lemma jti_key_inj [simp]: "jti_key i = jti_key j \<longleftrightarrow> i = j"
  by (simp add: jti_key_def)

lemma lock_key_eq: "lock_key ip u = lock_key ip' u' \<longleftrightarrow> rl_key ip u = rl_key ip' u'"
  by (simp add: lock_key_def rl_key_def)

section \<open>The invariant\<close>

definition token_current :: "claims \<Rightarrow> user \<Rightarrow> bool" where
  "token_current c u \<longleftrightarrow> cl_tv c \<le> us_token_version u \<and>
     (cl_tv c = us_token_version u \<longrightarrow> cl_type c = ''access'' \<longrightarrow>
        cl_role c = Some (us_role u) \<and> cl_username c = Some (us_username u))"

definition token_ok :: "session_env \<Rightarrow> sessions \<Rightarrow> claims \<Rightarrow> bool" where
  "token_ok env w c \<longleftrightarrow> cl_iat c \<le> sw_now w \<and>
     (cl_type c = ''refresh'' \<longrightarrow> cl_exp c = cl_iat c + refresh_max_age env \<and> cl_jti c \<noteq> None \<and> cl_jti c \<noteq> Some []) \<and>
     (cl_jti c \<noteq> None \<longrightarrow> cl_type c = ''refresh'') \<and>
     (\<forall>u. user_of w (cl_sub c) = Some u \<longrightarrow> token_current c u)"

definition mark_ok :: "sessions \<Rightarrow> string \<Rightarrow> bool" where
  "mark_ok w j \<longleftrightarrow> Some j \<in> cl_jti ` set (sw_issued w) \<and>
     (\<exists>v e. sw_redis w (jti_key j) = Some (v, Some e) \<and> (\<forall>c \<in> set (sw_issued w). cl_jti c = Some j \<longrightarrow> cl_exp c \<le> e))"

definition answered :: "sessions \<Rightarrow> string list" where
  "answered w = map fst (filter snd (sw_redeemed w))"

definition session_inv :: "session_env \<Rightarrow> sessions \<Rightarrow> bool" where
  "session_inv env w \<longleftrightarrow> wf_dict (db_users (sw_db w)) \<and> (\<forall>c \<in> set (sw_issued w). token_ok env w c) \<and>
     (\<forall>j \<in> set (answered w). mark_ok w j) \<and> distinct (answered w)"

text \<open>What every operation does to the users, and what most do to the rest.\<close>

definition user_evolves :: "user \<Rightarrow> user \<Rightarrow> bool" where
  "user_evolves u u' \<longleftrightarrow> us_token_version u \<le> us_token_version u' \<and>
     (us_token_version u' = us_token_version u \<longrightarrow> us_role u' = us_role u \<and> us_username u' = us_username u)"

definition users_evolve :: "sessions \<Rightarrow> sessions \<Rightarrow> bool" where
  "users_evolve w w' \<longleftrightarrow> (\<forall>i u'. user_of w' i = Some u' \<longrightarrow>
     (case user_of w i of None \<Rightarrow> i \<notin> cl_sub ` set (sw_issued w) | Some u \<Rightarrow> user_evolves u u'))"

definition quiet :: "sessions \<Rightarrow> sessions \<Rightarrow> bool" where
  "quiet w w' \<longleftrightarrow> sw_now w \<le> sw_now w' \<and> users_evolve w w' \<and>
     (wf_dict (db_users (sw_db w)) \<longrightarrow> wf_dict (db_users (sw_db w'))) \<and>
     (\<forall>j. sw_redis w' (jti_key j) = sw_redis w (jti_key j)) \<and>
     sw_issued w' = sw_issued w \<and> sw_redeemed w' = sw_redeemed w"

lemma user_evolves_refl [simp]: "user_evolves u u"
  by (simp add: user_evolves_def)

lemma users_evolve_same: "db_users (sw_db w') = db_users (sw_db w) \<Longrightarrow> users_evolve w w'"
  by (simp add: users_evolve_def user_of_def split: option.split)

lemma token_current_evolves: "token_current c u \<Longrightarrow> user_evolves u u' \<Longrightarrow> token_current c u'"
  by (auto simp: token_current_def user_evolves_def)

lemma token_ok_evolves:
  assumes "token_ok env w c" "users_evolve w w'" "sw_now w \<le> sw_now w'" "c \<in> set (sw_issued w)"
  shows "token_ok env w' c"
proof -
  have "token_current c u'" if "user_of w' (cl_sub c) = Some u'" for u'
  proof (cases "user_of w (cl_sub c)")
    case None
    then show ?thesis using assms(2,4) that unfolding users_evolve_def by fastforce
  next
    case (Some u)
    then have "user_evolves u u'" using assms(2) that unfolding users_evolve_def by fastforce
    moreover have "token_current c u" using assms(1) Some by (simp add: token_ok_def)
    ultimately show ?thesis by (rule token_current_evolves [rotated])
  qed
  then show ?thesis using assms(1,3) by (simp add: token_ok_def)
qed

lemma quiet_inv: "session_inv env w \<Longrightarrow> quiet w w' \<Longrightarrow> session_inv env w'"
  unfolding session_inv_def quiet_def answered_def mark_ok_def
  using token_ok_evolves [of env w _ w'] by simp

lemma quiet_refl [simp]: "quiet w w"
  by (simp add: quiet_def users_evolve_same)

lemma quiet_redis:
  "(\<And>j. r (jti_key j) = sw_redis w (jti_key j)) \<Longrightarrow> quiet w (w\<lparr>sw_redis := r\<rparr>)"
  by (simp add: quiet_def users_evolve_same)

lemma redis_incr_other: "redis_incr now k r = Some (n, r') \<Longrightarrow> k' \<noteq> k \<Longrightarrow> r' k' = r k'"
  by (auto simp: redis_incr_def split: option.splits redis_value.splits)

lemma redis_incr_marks: "redis_incr now (rl_key ip u) r = Some (n, r') \<Longrightarrow> r' (jti_key j) = r (jti_key j)"
  by (rule redis_incr_other [OF _ keys_apart(1)])

lemma redis_expire_other: "k' \<noteq> k \<Longrightarrow> redis_expire now k secs r k' = r k'"
  by (simp add: redis_expire_def split: option.split)

lemma redis_setex_other: "k' \<noteq> k \<Longrightarrow> redis_setex now k secs v r k' = r k'"
  by (simp add: redis_setex_def)

lemma redis_del_other: "k' \<noteq> k \<Longrightarrow> redis_del k r k' = r k'"
  by (simp add: redis_del_def)

lemmas redis_other = redis_expire_other redis_setex_other redis_del_other keys_apart

lemma quiet_record_failure: "quiet w (record_login_failure env fate ip username w)"
  by (auto simp: record_login_failure_def redis_other redis_incr_marks Let_def split: option.split
      intro!: quiet_redis)

lemma quiet_clear: "quiet w (clear_login_counters env fate ip username w)"
  by (simp add: clear_login_counters_def redis_other quiet_redis)

lemma quiet_store_code: "quiet w (snd (store_code env fate code d w))"
  by (simp add: store_code_def redis_other quiet_redis)

lemma quiet_consume_code: "quiet w (snd (consume_code env fate code w))"
  by (simp add: consume_code_def redis_other quiet_redis Let_def)

lemma user_of_put [simp]: "user_of (put_user i u w) j = (if j = i then Some u else user_of w j)"
  by (simp add: user_of_def put_user_def)

lemma quiet_put:
  "user_of w i = Some u \<Longrightarrow> user_evolves u u' \<Longrightarrow> quiet w (put_user i u' w)"
  by (auto simp: quiet_def users_evolve_def put_user_def user_of_def split: option.split)

lemma quiet_put_new:
  "user_of w i = None \<Longrightarrow> i \<notin> cl_sub ` set (sw_issued w) \<Longrightarrow> quiet w (put_user i u' w)"
  by (auto simp: quiet_def users_evolve_def put_user_def user_of_def split: option.split)

lemma bump_evolves: "us_token_version u' = us_token_version u \<Longrightarrow> user_evolves u (bump_token_version u')"
  by (simp add: user_evolves_def bump_token_version_def)

section \<open>Every operation keeps it\<close>

lemma issue_sel [simp]:
  "sw_now (issue cs w) = sw_now w" "sw_db (issue cs w) = sw_db w" "sw_redis (issue cs w) = sw_redis w"
  "sw_redeemed (issue cs w) = sw_redeemed w" "sw_issued (issue cs w) = cs @ sw_issued w"
  "user_of (issue cs w) i = user_of w i"
  by (simp_all add: issue_def user_of_def)

lemma issue_inv:
  assumes "session_inv env w"
    and "\<forall>c \<in> set cs. token_ok env w c \<and> (cl_jti c = None \<or> cl_jti c \<notin> cl_jti ` set (sw_issued w))"
  shows "session_inv env (issue cs w)"
proof -
  have same: "token_ok env (issue cs w) c = token_ok env w c" for c by (simp add: token_ok_def)
  have "mark_ok (issue cs w) j" if m: "mark_ok w j" for j
  proof -
    have "cl_jti c \<noteq> Some j" if "c \<in> set cs" for c
      using m assms(2) that by (metis mark_ok_def option.distinct(1))
    then show ?thesis using m by (auto simp: mark_ok_def)
  qed
  then show ?thesis using assms by (auto simp: session_inv_def answered_def same)
qed

lemma access_token_ok:
  "user_of w i = Some u \<Longrightarrow> token_ok env w (create_access_token env (sw_now w) i u)"
  by (simp add: token_ok_def token_current_def create_access_token_def)

lemma refresh_token_ok:
  "user_of w i = Some u \<Longrightarrow> jti \<noteq> [] \<Longrightarrow> token_ok env w (create_refresh_token env (sw_now w) jti i u)"
  by (simp add: token_ok_def token_current_def create_refresh_token_def)

lemma pair_inv:
  assumes "session_inv env w" "user_of w i = Some u" "new_jti w jti"
  shows "session_inv env (issue (token_pair env jti i u w) w)"
  using assms access_token_ok [OF assms(2)] refresh_token_ok [OF assms(2), of jti env]
  by (intro issue_inv) (auto simp: token_pair_def new_jti_def create_access_token_def create_refresh_token_def)

lemma quiet_new_jti: "quiet w w' \<Longrightarrow> new_jti w' jti = new_jti w jti"
  by (simp add: quiet_def new_jti_def)

lemma user_by_name_SomeD:
  "wf_dict (db_users db) \<Longrightarrow> user_by_name name db = Some (i, u) \<Longrightarrow> map_of (db_users db) i = Some u \<and> us_username u = name"
  by (auto simp: user_by_name_def find_Some_iff set_conv_nth)

lemma clear_login_counters_db [simp]: "sw_db (clear_login_counters env fate ip username w) = sw_db w"
  by (simp add: clear_login_counters_def)

lemma login_inv:
  assumes "session_inv env w" "new_jti w jti"
  shows "session_inv env (snd (login env fate ip username password jti w))"
proof (cases "fst (login env fate ip username password jti w)")
  case (Inl e)
  then have "snd (login env fate ip username password jti w) \<in> {w, record_login_failure env fate ip username w}"
    by (auto simp: login_def Let_def split: if_splits option.splits)
  then show ?thesis using assms(1) quiet_inv [OF assms(1) quiet_record_failure] by auto
next
  case (Inr cs)
  then obtain i u where named: "user_by_name username (sw_db w) = Some (i, u)"
    and w': "snd (login env fate ip username password jti w) =
      issue (token_pair env jti i u (clear_login_counters env fate ip username w)) (clear_login_counters env fate ip username w)"
    by (auto simp: login_def Let_def split: if_splits option.splits)
  have "user_of (clear_login_counters env fate ip username w) i = Some u"
    using assms(1) user_by_name_SomeD [OF _ named] by (simp add: session_inv_def user_of_def)
  then show ?thesis unfolding w'
    using assms quiet_inv [OF assms(1) quiet_clear] quiet_new_jti [OF quiet_clear] by (intro pair_inv) simp_all
qed

lemma quiet_revoke: "user_of w i = Some u \<Longrightarrow> quiet w (revoke_all_user_tokens i u w)"
  unfolding revoke_all_user_tokens_def by (erule quiet_put) (simp add: bump_evolves)

lemma quiet_logout: "quiet w (logout env cookie w)"
  by (auto simp: logout_def intro: quiet_revoke split: option.split)

section \<open>Rotation\<close>

lemma mark_sel:
  "sw_now (snd (mark_refresh_jti_used env fate j w)) = sw_now w"
  "sw_db (snd (mark_refresh_jti_used env fate j w)) = sw_db w"
  "sw_issued (snd (mark_refresh_jti_used env fate j w)) = sw_issued w"
  "sw_redeemed (snd (mark_refresh_jti_used env fate j w)) = sw_redeemed w"
  by (simp_all add: mark_refresh_jti_used_def split: prod.split)

lemma mark_other: "i \<noteq> j \<Longrightarrow> sw_redis (snd (mark_refresh_jti_used env fate j w)) (jti_key i) = sw_redis w (jti_key i)"
  by (simp add: mark_refresh_jti_used_def redis_setnx_def)

lemma marked_live:
  assumes "session_inv env w" "j \<in> set (answered w)" "c \<in> set (sw_issued w)" "cl_jti c = Some j" "sw_now w < cl_exp c"
  shows "redis_live (sw_now w) (sw_redis w) (jti_key j) \<noteq> None"
  using assms by (fastforce simp: session_inv_def mark_ok_def redis_live_def)

lemma mark_answered_fresh:
  assumes "ev_redis env" "fate SetNxCall = Answered" "fst (mark_refresh_jti_used env fate j w)"
  shows "redis_live (sw_now w) (sw_redis w) (jti_key j) = None"
    and "sw_redis (snd (mark_refresh_jti_used env fate j w)) (jti_key j) = Some (Payload Mark, Some (sw_now w + refresh_max_age env))"
  using assms by (auto simp: mark_refresh_jti_used_def redis_setnx_def split: if_splits)

lemma mark_live_same:
  "redis_live (sw_now w) (sw_redis w) (jti_key j) \<noteq> None \<Longrightarrow> snd (mark_refresh_jti_used env fate j w) = w"
  by (auto simp: mark_refresh_jti_used_def redis_setnx_def)

lemma redeem_inv:
  assumes inv: "session_inv env w" and c: "c \<in> set (sw_issued w)" "cl_jti c = Some j" "sw_now w < cl_exp c"
    and m: "mark_refresh_jti_used env fate j w = (True, w')"
  shows "session_inv env (redeem (Some j) (ev_redis env \<and> fate SetNxCall = Answered) w')"
proof -
  let ?a = "ev_redis env \<and> fate SetNxCall = Answered"
  let ?w = "redeem (Some j) ?a w'"
  have w': "w' = snd (mark_refresh_jti_used env fate j w)" using m by simp
  have sel: "sw_now w' = sw_now w" "sw_db w' = sw_db w" "sw_issued w' = sw_issued w" "sw_redeemed w' = sw_redeemed w"
    by (simp_all add: w' mark_sel)
  have ans: "answered ?w = (if ?a then [j] else []) @ answered w" by (simp add: answered_def redeem_def sel)
  have rest: "token_ok env ?w d = token_ok env w d" for d by (simp add: token_ok_def redeem_def user_of_def sel)
  have old: "mark_ok ?w i" if "i \<in> set (answered w)" for i
  proof -
    have "sw_redis w' (jti_key i) = sw_redis w (jti_key i)"
      using that marked_live [OF inv _ c] by (cases "i = j") (auto simp: w' mark_other mark_live_same)
    then show ?thesis using inv that by (simp add: session_inv_def mark_ok_def redeem_def sel)
  qed
  have new: "mark_ok ?w j \<and> j \<notin> set (answered w)" if ?a
  proof -
    have "sw_redis w' (jti_key j) = Some (Payload Mark, Some (sw_now w + refresh_max_age env))"
      unfolding w' using that m by (intro mark_answered_fresh(2)) simp_all
    moreover have "cl_exp d \<le> sw_now w + refresh_max_age env" if "d \<in> set (sw_issued w)" "cl_jti d = Some j" for d
    proof -
      have "token_ok env w d" using inv that(1) by (simp add: session_inv_def)
      then show ?thesis using that(2) by (simp add: token_ok_def)
    qed
    moreover have "j \<notin> set (answered w)"
      using mark_answered_fresh(1) [of env fate j w] marked_live [OF inv _ c] that m by (metis fst_conv)
    ultimately show ?thesis using c by (force simp: mark_ok_def redeem_def sel)
  qed
  have base: "db_users (sw_db ?w) = db_users (sw_db w)" "sw_issued ?w = sw_issued w" by (simp_all add: redeem_def sel)
  show ?thesis
  proof (cases ?a)
    case True
    then show ?thesis using inv old new unfolding session_inv_def base rest ans by simp
  next
    case False
    then have "answered ?w = answered w" using ans by (simp only: if_False append_Nil)
    then show ?thesis using inv old unfolding session_inv_def base rest by simp
  qed
qed

lemma session_refresh_inv:
  assumes inv: "session_inv env w" and tok: "unforged env w cookie" and jti: "new_jti w jti"
  shows "session_inv env (snd (refresh env fate cookie jti w))"
proof (cases cookie)
  case None
  then show ?thesis using inv by (simp add: refresh_def)
next
  case (Some t)
  show ?thesis
  proof (cases "decode_token env (sw_now w) t")
    case None
    then show ?thesis using inv Some by (simp add: refresh_def)
  next
    case dec: (Some c)
    then have c: "c \<in> set (sw_issued w)" "sw_now w < cl_exp c"
      using tok by (auto simp: unforged_def Some decode_token_def split: option.splits if_splits)
    show ?thesis
    proof (cases "t = [] \<or> cl_type c \<noteq> ''refresh'' \<or> user_of w (cl_sub c) = None \<or>
        (\<exists>u. user_of w (cl_sub c) = Some u \<and> (\<not> us_is_active u \<or> cl_tv c \<noteq> us_token_version u))")
      case True
      then have "snd (refresh env fate cookie jti w) = w"
        by (auto simp: refresh_def Some dec)
      then show ?thesis using inv by simp
    next
      case False
      then obtain u where u: "user_of w (cl_sub c) = Some u" "us_is_active u" "cl_tv c = us_token_version u"
        and t: "t \<noteq> []" "cl_type c = ''refresh''" by auto
      then obtain j where j: "cl_jti c = Some j" "j \<noteq> []"
        using inv c(1) by (auto simp: session_inv_def token_ok_def)
      obtain fresh w1 where m: "mark_refresh_jti_used env fate j w = (fresh, w1)" by (cases "mark_refresh_jti_used env fate j w")
      have sel: "sw_now w1 = sw_now w" "sw_db w1 = sw_db w" "sw_issued w1 = sw_issued w"
        using mark_sel [of env fate j w] by (simp_all add: m)
      have eq: "snd (refresh env fate cookie jti w) =
        (if \<not> fresh then revoke_all_user_tokens (cl_sub c) u w1
         else issue (token_pair env jti (cl_sub c) u w1) (redeem (Some j) (ev_redis env \<and> fate SetNxCall = Answered) w1))"
        using u t j by (simp add: refresh_def Some dec m Let_def)
      show ?thesis
      proof (cases fresh)
        case True
        let ?w = "redeem (Some j) (ev_redis env \<and> fate SetNxCall = Answered) w1"
        have "session_inv env ?w" using True by (intro redeem_inv [OF inv c(1) j(1) c(2)]) (simp add: m)
        moreover have "user_of ?w (cl_sub c) = Some u" using u(1) by (simp add: user_of_def redeem_def sel)
        moreover have "new_jti ?w jti" using jti by (simp add: new_jti_def redeem_def sel)
        moreover have "token_pair env jti (cl_sub c) u w1 = token_pair env jti (cl_sub c) u ?w"
          by (simp add: token_pair_def redeem_def)
        ultimately show ?thesis unfolding eq using True pair_inv [of env ?w] by simp
      next
        case False
        then have "w1 = w" using m by (auto simp: mark_refresh_jti_used_def redis_setnx_def split: if_splits)
        then show ?thesis unfolding eq using False inv quiet_inv [OF inv quiet_revoke [OF u(1)]] by simp
      qed
    qed
  qed
qed

section \<open>OAuth and administration\<close>

lemma quiet_authorize: "quiet w (snd (oauth_authorize env fate rt client_id uri cookie code w))"
proof -
  have "quiet w w'" if "store_code env fate code d w = (r, w')" for d r w'
    using quiet_store_code [of w env fate code d] that by simp
  then show ?thesis
    by (auto simp: oauth_authorize_def split: sum.split option.split prod.split)
qed

lemma code_grant_inv:
  assumes inv: "session_inv env w" and jti: "new_jti w jti"
  shows "session_inv env (snd (oauth_code_grant env fate client_id code uri jti w))"
proof -
  obtain r w1 where c: "consume_code env fate (the code) w = (r, w1)" by (cases "consume_code env fate (the code) w")
  have q: "quiet w w1" using quiet_consume_code [of w env fate "the code"] by (simp add: c)
  then have "session_inv env w1" "new_jti w1 jti" using quiet_inv [OF inv] quiet_new_jti jti by auto
  then show ?thesis using inv pair_inv [of env w1]
    by (auto simp: oauth_code_grant_def c Let_def split: sum.split option.split)
qed

lemma refresh_grant_inv:
  assumes "session_inv env w"
  shows "session_inv env (snd (oauth_refresh_grant env t w))"
proof -
  have "session_inv env (issue [create_access_token env (sw_now w) i u] w)" if "user_of w i = Some u" for i u
    using access_token_ok [OF that] by (intro issue_inv [OF assms]) (simp add: create_access_token_def)
  then show ?thesis using assms by (auto simp: oauth_refresh_grant_def Let_def split: option.split)
qed

lemma token_inv:
  "session_inv env w \<Longrightarrow> new_jti w jti \<Longrightarrow> session_inv env (snd (oauth_token env fate r jti w))"
  by (auto simp: oauth_token_def code_grant_inv refresh_grant_inv split: sum.split)

lemma quiet_update_user: "quiet w (snd (update_user i q w))"
proof (cases "user_of w i")
  case (Some u)
  have "user_evolves u (bump_token_version (updated_user q u))" by (rule bump_evolves) (simp add: updated_user_def)
  moreover have "user_evolves u (updated_user q u)" if "\<not> auth_changed q u"
    using that by (auto simp: user_evolves_def updated_user_def auth_changed_def split: option.splits)
  ultimately show ?thesis using Some by (simp add: update_user_def quiet_put)
qed (simp add: update_user_def)

lemma quiet_passwords:
  "quiet w (snd (admin_reset_password env i pw w))" "quiet w (snd (change_my_password env i cur pw w))"
proof -
  have "user_evolves u (bump_token_version (u\<lparr>us_password_hash := h\<rparr>))" "user_evolves u (u\<lparr>us_password_hash := h\<rparr>)" for u h
    by (simp_all add: bump_token_version_def user_evolves_def)
  then show "quiet w (snd (admin_reset_password env i pw w))" "quiet w (snd (change_my_password env i cur pw w))"
    by (simp_all add: admin_reset_password_def change_my_password_def quiet_put split: option.split)
qed

lemma quiet_create_user: "new_user_id w i \<Longrightarrow> quiet w (snd (create_user env i name pw q w))"
  by (simp add: create_user_def new_user_id_def quiet_put_new)

lemma quiet_delete_user: "quiet w (snd (delete_user a i w))"
  by (auto simp: delete_user_def quiet_def users_evolve_def user_of_def split: option.split)

lemma quiet_tenants: "quiet w (snd (assign_tenant i t w))" "quiet w (snd (remove_tenant i t w))"
  by (auto simp: assign_tenant_def remove_tenant_def quiet_def users_evolve_same split: option.split)

lemma map_of_map_users: "map_of (map (\<lambda>(i, u). (i, f u)) us) i = map_option f (map_of us i)"
  by (induction us) auto

lemma quiet_roles: "quiet w (snd (update_role vr va i ps w))" "quiet w (snd (delete_role i b w))"
proof -
  have keys: "map fst (map (\<lambda>(i, u). (i, f u)) us) = map fst us" for f :: "user \<Rightarrow> user" and us
    by (induction us) auto
  have e: "user_evolves u (bump_token_version u)" "user_evolves u (u\<lparr>us_role_id := None\<rparr>)" for u
    by (simp_all add: bump_token_version_def user_evolves_def)
  show "quiet w (snd (update_role vr va i ps w))" "quiet w (snd (delete_role i b w))"
    by (auto simp: update_role_def delete_role_def quiet_def users_evolve_def user_of_def map_of_map_users keys e
        split: option.split simp del: map_map)
qed

lemma quiet_tick: "quiet w (w\<lparr>sw_now := sw_now w + int n\<rparr>)"
  by (simp add: quiet_def users_evolve_same)

lemma session_step_inv:
  assumes "session_inv env w" "session_step env vr va e w = Some w'"
  shows "session_inv env w'"
proof -
  have w': "w' = perform env vr va e w" and ok: "allowed env e w"
    using assms(2) by (simp_all add: session_step_def split: if_splits)
  show ?thesis using ok unfolding w'
    by (cases e) (simp_all add: login_inv session_refresh_inv token_inv assms(1) quiet_inv [OF assms(1)] quiet_tick quiet_logout
        quiet_authorize quiet_update_user quiet_passwords quiet_create_user quiet_delete_user quiet_tenants quiet_roles)
qed

interpretation sessions: event_system "session_step env vr va" "session_inv env" for env vr va
  by unfold_locales (rule session_step_inv)

lemma fresh_inv: "wf_dict (db_users db) \<Longrightarrow> session_inv env (fresh_sessions now db)"
  by (simp add: session_inv_def fresh_sessions_def answered_def)

lemmas session_reach = sessions.run_inv [OF fresh_inv]

end
