(* ===== verification/Sessions_Results.thy ===== *)
theory Sessions_Results
  imports Sessions_Props
begin

text \<open>The properties of the sessions, over runs of requests from an empty Redis.\<close>

section \<open>Revocation\<close>

definition spent :: "sessions \<Rightarrow> claims \<Rightarrow> bool" where
  "spent w c \<longleftrightarrow> (\<forall>u. user_of w (cl_sub c) = Some u \<longrightarrow> cl_tv c < us_token_version u)"

definition onward :: "sessions \<Rightarrow> sessions \<Rightarrow> bool" where
  "onward w w' \<longleftrightarrow> users_evolve w w' \<and> set (sw_issued w) \<subseteq> set (sw_issued w')"

lemma quiet_onward: "quiet w w' \<Longrightarrow> onward w w'"
  by (simp add: quiet_def onward_def)

lemma same_db_onward: "sw_db w' = sw_db w \<Longrightarrow> set (sw_issued w) \<subseteq> set (sw_issued w') \<Longrightarrow> onward w w'"
  by (simp add: onward_def users_evolve_same)

lemma record_failure_frame [simp]:
  "sw_db (record_login_failure env fate ip username w) = sw_db w"
  "sw_issued (record_login_failure env fate ip username w) = sw_issued w"
  "sw_now (record_login_failure env fate ip username w) = sw_now w"
  by (simp_all add: record_login_failure_def Let_def split: option.split)

lemma clear_frame [simp]:
  "sw_issued (clear_login_counters env fate ip username w) = sw_issued w"
  "sw_now (clear_login_counters env fate ip username w) = sw_now w"
  by (simp_all add: clear_login_counters_def)

lemma consume_frame:
  "consume_code env fate code w = (r, w') \<Longrightarrow> sw_db w' = sw_db w \<and> sw_issued w' = sw_issued w"
  by (auto simp: consume_code_def Let_def split: if_splits)

lemma login_onward: "onward w (snd (login env fate ip username password jti w))"
  by (rule same_db_onward) (auto simp: login_def Let_def split: option.split)

lemma refresh_onward: "onward w (snd (refresh env fate cookie jti w))"
proof -
  have m: "onward w (revoke_all_user_tokens i u w1)" "onward w (issue cs (redeem j b w1))"
    if "mark_refresh_jti_used env fate k w = (f, w1)" "user_of w i = Some u" for i u w1 cs j b k f
  proof -
    have sel: "sw_db w1 = sw_db w" "sw_issued w1 = sw_issued w" using mark_sel [of env fate k w] that by simp_all
    then have "user_of w1 i = Some u" using that(2) by (simp add: user_of_def)
    from quiet_onward [OF quiet_revoke [OF this]] show "onward w (revoke_all_user_tokens i u w1)"
      unfolding onward_def users_evolve_def user_of_def sel .
    show "onward w (issue cs (redeem j b w1))"
      by (rule same_db_onward) (auto simp: sel redeem_def split: option.split)
  qed
  have r: "onward w (issue cs (redeem None b w))" for cs b by (rule same_db_onward) (auto simp: redeem_def)
  show ?thesis
    by (auto simp: refresh_def Let_def m r quiet_onward split: option.split prod.split)
qed

lemma code_grant_onward: "onward w (snd (oauth_code_grant env fate client_id code uri jti w))"
proof -
  obtain r w1 where c: "consume_code env fate (the code) w = (r, w1)" by (cases "consume_code env fate (the code) w")
  note sel = consume_frame [OF c]
  show ?thesis
    by (rule same_db_onward) (auto simp: oauth_code_grant_def c sel Let_def split: sum.split option.split)
qed

lemma refresh_grant_onward: "onward w (snd (oauth_refresh_grant env t w))"
  by (rule same_db_onward) (auto simp: oauth_refresh_grant_def Let_def split: option.split)

lemma token_onward: "onward w (snd (oauth_token env fate r jti w))"
  by (simp add: oauth_token_def code_grant_onward refresh_grant_onward same_db_onward split: sum.split)

lemma step_onward:
  assumes "session_step env vr va e w = Some w'" shows "onward w w'"
proof -
  have w': "w' = perform env vr va e w" and ok: "allowed env e w"
    using assms by (simp_all add: session_step_def split: if_splits)
  show ?thesis using ok unfolding w'
    by (cases e) (simp_all add: login_onward refresh_onward token_onward quiet_onward quiet_tick quiet_logout quiet_authorize
        quiet_update_user quiet_passwords quiet_create_user quiet_delete_user quiet_tenants quiet_roles)
qed

lemma spent_onward:
  assumes "spent w c" "c \<in> set (sw_issued w)" "onward w w'" shows "spent w' c"
  unfolding spent_def
proof (intro allI impI)
  fix u' assume u': "user_of w' (cl_sub c) = Some u'"
  show "cl_tv c < us_token_version u'"
  proof (cases "user_of w (cl_sub c)")
    case None
    then show ?thesis using assms(2,3) u' unfolding onward_def users_evolve_def by fastforce
  next
    case (Some u)
    then have "user_evolves u u'" using assms(3) u' unfolding onward_def users_evolve_def by fastforce
    then show ?thesis using assms(1) Some by (simp add: spent_def user_evolves_def)
  qed
qed

lemma spent_run:
  "run_events (session_step env vr va) es w = Some w' \<Longrightarrow> spent w c \<Longrightarrow> c \<in> set (sw_issued w) \<Longrightarrow>
   spent w' c \<and> c \<in> set (sw_issued w')"
proof (induction es arbitrary: w)
  case (Cons e es)
  then obtain w1 where w1: "session_step env vr va e w = Some w1" "run_events (session_step env vr va) es w1 = Some w'"
    by (auto simp: bind_eq_Some_conv)
  then show ?case using Cons.IH [OF w1(2)] step_onward [OF w1(1)] spent_onward [OF Cons.prems(2,3)] Cons.prems(3)
    by (auto simp: onward_def)
qed simp

lemma spent_refused:
  assumes "spent w c" "ev_verify env t = Some c"
  shows "get_user_from_cookie env (Some t) w = None" "isl (fst (refresh env fate (Some t) jti w))"
    "isl (fst (oauth_refresh_grant env (Some t) w))"
  using assms
  by (auto simp: get_user_from_cookie_def refresh_def oauth_refresh_grant_def decode_token_def spent_def Let_def split: option.split)

text \<open>The requests after which the tokens a user had are void.\<close>

definition replayed :: "session_env \<Rightarrow> fates \<Rightarrow> string option \<Rightarrow> string \<Rightarrow> sessions \<Rightarrow> bool" where
  "replayed env fate cookie user_id w \<longleftrightarrow>
     (case cookie of None \<Rightarrow> False
      | Some t \<Rightarrow>
     (case (decode_token env (sw_now w) t, user_of w user_id) of
        (Some c, Some u) \<Rightarrow> t \<noteq> [] \<and> cl_type c = ''refresh'' \<and> cl_sub c = user_id \<and> us_is_active u \<and>
          cl_tv c = us_token_version u \<and> fate SetNxCall = Answered \<and> ev_redis env \<and> (\<exists>j \<in> set (answered w). cl_jti c = Some j)
      | _ \<Rightarrow> False))"

fun revokes :: "session_env \<Rightarrow> session_event \<Rightarrow> string \<Rightarrow> sessions \<Rightarrow> bool" where
  "revokes env (Logout cookie) user_id w = (token_user env cookie w = Some user_id)"
| "revokes env (Reset_password i pw) user_id w = (i = user_id)"
| "revokes env (Update_user i q) user_id w =
     (i = user_id \<and> (case user_of w i of None \<Rightarrow> False | Some u \<Rightarrow> auth_changed q u))"
| "revokes env (Delete_user a i) user_id w = (i = user_id \<and> a \<noteq> i)"
| "revokes env (Update_role r ps) user_id w =
     (ps = None \<and> (case user_of w user_id of None \<Rightarrow> False | Some u \<Rightarrow> holds_role r u))"
| "revokes env (Refresh fate cookie jti) user_id w = replayed env fate cookie user_id w"
| "revokes env _ user_id w = False"

lemma bump_gt: "us_token_version (bump_token_version u) = us_token_version u + 1"
  by (simp add: bump_token_version_def)

lemma bump_neq [simp]: "bump_token_version u \<noteq> u" "u \<noteq> bump_token_version u"
  using bump_gt [of u] by (metis n_not_Suc_n Suc_eq_plus1)+

lemma revokes_spent:
  assumes inv: "session_inv env w" and c: "c \<in> set (sw_issued w)" "cl_sub c = user_id"
    and un: "allowed env e w" and r: "revokes env e user_id w"
  shows "spent (perform env vr va e w) c"
proof -
  have cur: "cl_tv c \<le> us_token_version u" if "user_of w user_id = Some u" for u
    using inv c that by (auto simp: session_inv_def token_ok_def token_current_def)
  show ?thesis
  proof (cases e)
    case (Logout cookie)
    then show ?thesis using r cur
      by (auto simp: spent_def c logout_def revoke_all_user_tokens_def bump_gt less_Suc_eq_le split: option.split)
  next
    case (Reset_password i pw)
    then show ?thesis using r cur
      by (auto simp: spent_def c admin_reset_password_def bump_gt less_Suc_eq_le split: option.split)
  next
    case (Update_user i q)
    moreover have "us_token_version (updated_user q u) = us_token_version u" for u by (simp add: updated_user_def)
    ultimately show ?thesis using r cur
      by (auto simp: spent_def c update_user_def bump_gt less_Suc_eq_le split: option.splits)
  next
    case (Delete_user a i)
    then show ?thesis using r by (auto simp: spent_def c delete_user_def user_of_def split: option.split)
  next
    case (Update_role rl ps)
    then show ?thesis using r cur
      by (auto simp: spent_def c update_role_def user_of_def map_of_map_users bump_gt less_Suc_eq_le split: option.splits)
  next
    case (Refresh fate cookie jti)
    then obtain t d u j where rp: "cookie = Some t" "decode_token env (sw_now w) t = Some d" "user_of w user_id = Some u" "t \<noteq> []"
      "cl_type d = ''refresh''" "cl_sub d = user_id" "us_is_active u" "cl_tv d = us_token_version u"
      "fate SetNxCall = Answered" "ev_redis env" "j \<in> set (answered w)" "cl_jti d = Some j"
      using r by (auto simp: replayed_def split: option.splits)
    have d: "d \<in> set (sw_issued w)" "sw_now w < cl_exp d"
      using un rp(1,2) Refresh by (auto simp: unforged_def decode_token_def split: option.splits if_splits)
    have "j \<noteq> []" using inv d(1) rp(5,12) by (auto simp: session_inv_def token_ok_def)
    moreover have "mark_refresh_jti_used env fate j w = (False, w)"
      using marked_live [OF inv rp(11) d(1) rp(12) d(2)] rp(9,10) by (auto simp: mark_refresh_jti_used_def redis_setnx_def)
    ultimately have "perform env vr va e w = revoke_all_user_tokens user_id u w"
      using rp by (simp add: Refresh refresh_def)
    then show ?thesis using cur [OF rp(3)] by (simp add: spent_def c revoke_all_user_tokens_def bump_gt)
  qed (use r in simp_all)
qed
section \<open>The properties\<close>

text \<open>
  C11: The cookie speaks for the user as the user is now: whenever a request authenticates with an access
  token, after any requests, the user exists and is active, and the role, name and tenants of the
  request are the present ones, although the role was written into the token when it was signed.
\<close>

theorem cookie_auth_is_current:
  assumes "wf_dict (db_users db)"
    and "run_events (session_step env vr va) es (fresh_sessions now db) = Some w"
    and "unforged env w cookie" and "get_user_from_cookie env cookie w = Some a"
  shows "\<exists>i u. ad_user_id a = Some i \<and> user_of w i = Some u \<and> us_is_active u \<and> ad_role a = Some (us_role u) \<and>
    ad_username a = Some (us_username u) \<and> ad_tenant_ids a = visible_tenants (us_role u) i u (sw_db w)"
proof -
  have inv: "session_inv env w" by (rule session_reach [OF assms(1,2)])
  obtain t c role name u where t: "cookie = Some t" "decode_token env (sw_now w) t = Some c" "cl_type c = ''access''"
    "cl_role c = Some role" "cl_username c = Some name" "user_of w (cl_sub c) = Some u" "us_is_active u" "cl_tv c = us_token_version u"
    and a: "ad_user_id a = Some (cl_sub c)" "ad_role a = Some role" "ad_username a = Some name"
      "ad_tenant_ids a = visible_tenants role (cl_sub c) u (sw_db w)"
    using assms(4) by (auto simp: get_user_from_cookie_def split: option.splits if_splits)
  have "c \<in> set (sw_issued w)"
    using assms(3) t(1,2) by (auto simp: unforged_def decode_token_def split: option.splits if_splits)
  then have "token_current c u" using inv t(6) by (simp add: session_inv_def token_ok_def)
  then have "role = us_role u" "name = us_username u" using t by (simp_all add: token_current_def)
  then show ?thesis using t a by blast
qed


text \<open>
  C14: Rotation: of the refreshes that were accepted while Redis answered, no two were with the same
  refresh token, however long the requests went on.
\<close>

theorem refresh_token_single_use:
  assumes "wf_dict (db_users db)"
    and "run_events (session_step env vr va) es (fresh_sessions now db) = Some w"
  shows "distinct (map fst (filter snd (sw_redeemed w)))"
  using session_reach [OF assms] by (simp add: session_inv_def answered_def)

section \<open>A user, a theft\<close>

definition demo_access :: claims where
  "demo_access = \<lparr>cl_type = ''access'', cl_sub = ''u1'', cl_username = Some ''bo'', cl_role = Some ''user'', cl_tv = 0,
     cl_jti = None, cl_iat = 0, cl_exp = 1800\<rparr>"

definition demo_refresh :: claims where
  "demo_refresh = \<lparr>cl_type = ''refresh'', cl_sub = ''u1'', cl_username = None, cl_role = None, cl_tv = 0,
     cl_jti = Some ''j1'', cl_iat = 0, cl_exp = 604800\<rparr>"

definition demo_session_env :: session_env where
  "demo_session_env = \<lparr>ev_verify = map_of [(''A'', demo_access), (''R'', demo_refresh)],
     ev_check_password = (\<lambda>pw h. pw = h), ev_hash_password = id,
     ev_access_minutes = 30, ev_refresh_days = 7, ev_redis = True, ev_oauth_client_id = [], ev_oauth_client_secret = [],
     ev_oauth_redirect_uris = []\<rparr>"

definition demo_users :: auth_db where
  "demo_users = \<lparr>db_users = [(''u1'',
     \<lparr>us_username = ''bo'', us_password_hash = ''pw'', us_role = ''user'', us_role_id = None, us_all_tenants = False,
      us_is_active = True, us_token_version = 0, us_superset_access = None\<rparr>)],
     db_user_tenants = [(''u1'', ''t1'')], db_role_permissions = [], db_api_keys = []\<rparr>"

definition demo_login :: session_event where
  "demo_login = Login (\<lambda>_. Answered) ''10.0.0.1'' ''bo'' ''pw'' ''j1''"

definition demo_run :: "session_event list \<Rightarrow> sessions option" where
  "demo_run es = run_events (session_step demo_session_env (\<lambda>_. True) (\<lambda>_. True)) es (fresh_sessions 0 demo_users)"

lemma demo_wf: "wf_dict (db_users demo_users)"
  by (simp add: demo_users_def)

lemma demo_logged_in:
  "map_option (\<lambda>w. (sw_issued w, get_user_from_cookie demo_session_env (Some ''A'') w)) (demo_run [demo_login]) =
   Some ([demo_access, demo_refresh], Some \<lparr>ad_auth_type = ''user'', ad_key_type = None, ad_user_id = Some ''u1'',
     ad_username = Some ''bo'', ad_role = Some ''user'', ad_role_id = None, ad_tenant_ids = Some [''t1''],
     ad_permissions = None, ad_collector_id = None, ad_scopes = None\<rparr>)"
  by code_simp

theorem cookie_auth_is_current_witness:
  "\<exists>w a u. demo_run [demo_login] = Some w \<and> get_user_from_cookie demo_session_env (Some ''A'') w = Some a \<and>
     user_of w ''u1'' = Some u \<and> ad_role a = Some (us_role u) \<and> ad_tenant_ids a = Some [''t1'']"
proof -
  obtain w a where w: "demo_run [demo_login] = Some w" "sw_issued w = [demo_access, demo_refresh]"
    "get_user_from_cookie demo_session_env (Some ''A'') w = Some a" "ad_user_id a = Some ''u1''" "ad_tenant_ids a = Some [''t1'']"
    using demo_logged_in by auto
  have "unforged demo_session_env w (Some ''A'')" by (simp add: unforged_def demo_session_env_def w)
  from cookie_auth_is_current [OF demo_wf w(1) [unfolded demo_run_def] this w(3)]
  show ?thesis using w by force
qed


text \<open>The thief's second use of the token is refused; it was accepted once.\<close>

theorem refresh_token_single_use_witness:
  "\<exists>w. demo_run [demo_login, Refresh (\<lambda>_. Answered) (Some ''R'') ''j2'', Seconds 9, Refresh (\<lambda>_. Answered) (Some ''R'') ''j3''] = Some w \<and>
     sw_redeemed w = [(''j1'', True)] \<and> distinct (map fst (filter snd (sw_redeemed w)))"
proof -
  have "map_option sw_redeemed (demo_run [demo_login, Refresh (\<lambda>_. Answered) (Some ''R'') ''j2'', Seconds 9,
      Refresh (\<lambda>_. Answered) (Some ''R'') ''j3'']) = Some [(''j1'', True)]"
    by code_simp
  then obtain w where w: "demo_run [demo_login, Refresh (\<lambda>_. Answered) (Some ''R'') ''j2'', Seconds 9,
      Refresh (\<lambda>_. Answered) (Some ''R'') ''j3''] = Some w" "sw_redeemed w = [(''j1'', True)]" by auto
  from refresh_token_single_use [OF demo_wf w(1) [unfolded demo_run_def]] show ?thesis using w by auto
qed

section \<open>What is not revoked\<close>

text \<open>Who changes the own password leaves every session of the account as it was, the thief's too.\<close>

lemma own_password_keeps_tokens:
  assumes "get_user_from_cookie env cookie w = Some a"
  shows "get_user_from_cookie env cookie (snd (change_my_password env i cur pw w)) = Some a"
proof (cases "user_of w i")
  case (Some u)
  let ?w = "put_user i (u\<lparr>us_password_hash := ev_hash_password env pw\<rparr>) w"
  have same: "visible_tenants r j (v\<lparr>us_password_hash := h\<rparr>) (sw_db x) = visible_tenants r j v (sw_db x)"
    "visible_tenants r j v (sw_db (put_user k y x)) = visible_tenants r j v (sw_db x)" "sw_now (put_user k y x) = sw_now x"
    for r j v h k x y
    by (simp_all add: visible_tenants_def tenants_of_def put_user_def)
  obtain t c role name v where t: "cookie = Some t" "t \<noteq> []" "decode_token env (sw_now w) t = Some c" "cl_type c = ''access''"
    "cl_role c = Some role" "cl_username c = Some name" "user_of w (cl_sub c) = Some v" "us_is_active v" "cl_tv c = us_token_version v"
    using assms by (auto simp: get_user_from_cookie_def split: option.splits if_splits)
  then have "get_user_from_cookie env cookie ?w = get_user_from_cookie env cookie w"
    using Some by (cases "i = cl_sub c") (simp_all add: get_user_from_cookie_def same cong: option.case_cong if_cong)
  then show ?thesis using assms Some by (simp add: change_my_password_def)
qed (simp add: change_my_password_def assms)

text \<open>An OAuth client can use a refresh token any number of times, also one that \<open>/refresh\<close> has accepted.\<close>

lemma oauth_refresh_unmarked:
  "fst (oauth_refresh_grant env t (w\<lparr>sw_redis := r, sw_redeemed := xs\<rparr>)) = fst (oauth_refresh_grant env t w)"
  by (simp add: oauth_refresh_grant_def user_of_def Let_def split: option.split)

end
