(* ===== verification/Login_Guard.thy ===== *)
theory Login_Guard
  imports Sessions_Props
begin

text \<open>
  The lockout of failed logins: how many wrong passwords the server looks at, over any run of requests
  in which other users come and go.
\<close>

text \<open>
  A login of the guesser's pair of address and name, and its answer; pairs with the same key count as
  one.  The count ends with the first login that succeeds.
\<close>

fun attempt :: "session_env \<Rightarrow> string \<Rightarrow> string \<Rightarrow> session_event \<Rightarrow> sessions \<Rightarrow> (auth_error + claims list) option" where
  "attempt env ip u (Login fate ip' u' pw jti) w =
     (if rl_key ip' u' = rl_key ip u then Some (fst (login env fate ip' u' pw jti w)) else None)"
| "attempt env ip u _ w = None"

fun guesses ::
    "session_env \<Rightarrow> (string \<Rightarrow> bool) \<Rightarrow> (string \<Rightarrow> bool) \<Rightarrow> string \<Rightarrow> string \<Rightarrow> session_event list \<Rightarrow> sessions \<Rightarrow> nat" where
  "guesses env vr va ip u [] w = 0"
| "guesses env vr va ip u (e # es) w =
     (case session_step env vr va e w of None \<Rightarrow> 0
      | Some w' \<Rightarrow>
          (case attempt env ip u e w of
             None \<Rightarrow> guesses env vr va ip u es w'
           | Some (Inr _) \<Rightarrow> 0
           | Some (Inl err) \<Rightarrow>
               (if err = Http 429 ''Too many failed attempts'' then 0 else 1) + guesses env vr va ip u es w'))"

fun seconds :: "session_event list \<Rightarrow> nat" where
  "seconds [] = 0"
| "seconds (Seconds n # es) = n + seconds es"
| "seconds (_ # es) = seconds es"

text \<open>Redis answers every call of a login.\<close>

fun redis_answers :: "session_event \<Rightarrow> bool" where
  "redis_answers (Login fate ip u pw jti) \<longleftrightarrow> (\<forall>c \<in> {GetCall, IncrCall, ExpireCall, SetexCall}. fate c = Answered)"
| "redis_answers _ \<longleftrightarrow> True"

section \<open>The state of the counter\<close>

definition counter_ok :: "string \<Rightarrow> string \<Rightarrow> sessions \<Rightarrow> bool" where
  "counter_ok ip u w \<longleftrightarrow>
     (case sw_redis w (rl_key ip u) of None \<Rightarrow> True
      | Some (Counter n, Some x) \<Rightarrow> sw_now w < x \<longrightarrow> n \<in> {1..10} \<and> x \<le> sw_now w + 600 \<and>
          (n = 10 \<longrightarrow> (\<exists>v y. sw_redis w (lock_key ip u) = Some (v, Some y) \<and> x \<le> y))
      | _ \<Rightarrow> False)"

definition windows :: "nat \<Rightarrow> nat" where
  "windows T = 10 * (T div 600 + 1)"

definition allowance :: "string \<Rightarrow> string \<Rightarrow> sessions \<Rightarrow> nat \<Rightarrow> nat" where
  "allowance ip u w T =
     (case sw_redis w (rl_key ip u) of
        Some (Counter n, Some x) \<Rightarrow>
          if sw_now w < x then (10 - n) + (if x \<le> sw_now w + int T then windows (nat (sw_now w + int T - x)) else 0)
          else windows T
      | _ \<Rightarrow> windows T)"

lemma windows_mono: "S \<le> T \<Longrightarrow> windows S \<le> windows T"
  by (simp add: windows_def div_le_mono)

lemma windows_600: "600 \<le> T \<Longrightarrow> windows T = 10 + windows (T - 600)"
  by (simp add: windows_def le_div_geq)

lemma same_counter:
  assumes "sw_redis w' (rl_key ip u) = sw_redis w (rl_key ip u)" "sw_redis w' (lock_key ip u) = sw_redis w (lock_key ip u)"
    "sw_now w' = sw_now w"
  shows "counter_ok ip u w' = counter_ok ip u w" "allowance ip u w' T = allowance ip u w T"
  unfolding counter_ok_def allowance_def assms by (rule refl)+

lemma tick_counter:
  assumes "counter_ok ip u w"
  shows "counter_ok ip u (w\<lparr>sw_now := sw_now w + int n\<rparr>)"
    and "allowance ip u (w\<lparr>sw_now := sw_now w + int n\<rparr>) T \<le> allowance ip u w (n + T)"
proof -
  show "counter_ok ip u (w\<lparr>sw_now := sw_now w + int n\<rparr>)"
    using assms by (auto simp: counter_ok_def split: option.splits prod.splits redis_value.splits)
  have "windows T \<le> windows (n + T)" by (simp add: windows_mono)
  moreover have "windows T \<le> windows (nat (sw_now w + int (n + T) - x))" if "x \<le> sw_now w + int n" for x
    using that by (intro windows_mono) linarith
  ultimately show "allowance ip u (w\<lparr>sw_now := sw_now w + int n\<rparr>) T \<le> allowance ip u w (n + T)"
    by (auto simp: allowance_def add.assoc trans_le_add2 split: option.splits prod.splits redis_value.splits)
qed

section \<open>A wrong guess\<close>

lemma guess_step:
  assumes ok: "counter_ok ip u w" and r: "ev_redis env"
    and f: "\<forall>c \<in> {GetCall, IncrCall, ExpireCall, SetexCall}. fate c = Answered"
    and free: "\<not> check_login_locked env fate ip u w"
  shows "counter_ok ip u (record_login_failure env fate ip u w)"
    and "Suc (allowance ip u (record_login_failure env fate ip u w) T) \<le> allowance ip u w T"
proof -
  let ?k = "rl_key ip u" and ?w = "record_login_failure env fate ip u w"
  have both: "counter_ok ip u ?w \<and> Suc (allowance ip u ?w T) \<le> allowance ip u w T"
  proof (cases "redis_live (sw_now w) (sw_redis w) ?k")
    case None
    then have e: "sw_redis ?w ?k = Some (Counter 1, Some (sw_now w + 600))" "sw_now ?w = sw_now w"
      using r f by (simp_all add: record_login_failure_def redis_incr_def redis_expire_def redis_live_def
          LOGIN_FAIL_WINDOW_def LOGIN_FAIL_THRESHOLD_def)
    have old: "allowance ip u w T = windows T"
      using None by (auto simp: allowance_def redis_live_def split: option.splits prod.splits redis_value.splits if_splits)
    have "Suc (allowance ip u ?w T) = 10 + (if 600 \<le> T then windows (T - 600) else 0)"
      by (simp add: allowance_def e nat_diff_distrib')
    also have "\<dots> \<le> windows T" by (auto simp: windows_600) (simp add: windows_def)
    finally show ?thesis by (simp add: old counter_ok_def e)
  next
    case (Some v)
    then obtain n x where e: "sw_redis w ?k = Some (Counter n, Some x)" "sw_now w < x" "v = Counter n"
      using ok by (auto simp: counter_ok_def redis_live_def split: option.splits prod.splits redis_value.splits if_splits)
    then have n: "1 \<le> n" "x \<le> sw_now w + 600" using ok by (auto simp: counter_ok_def)
    have "n \<noteq> 10"
    proof
      assume "n = 10"
      then obtain v y where "sw_redis w (lock_key ip u) = Some (v, Some y)" "x \<le> y" using ok e by (auto simp: counter_ok_def)
      then show False using free e(2) r f by (simp add: check_login_locked_def redis_live_def)
    qed
    then have "n < 10" using ok e by (auto simp: counter_ok_def)
    have inc: "redis_incr (sw_now w) ?k (sw_redis w) = Some (Suc n, (sw_redis w)(?k \<mapsto> (Counter (Suc n), Some x)))"
      using Some e by (simp add: redis_incr_def)
    have e': "sw_redis ?w ?k = Some (Counter (Suc n), Some x)" "sw_now ?w = sw_now w"
      "Suc n = 10 \<Longrightarrow> sw_redis ?w (lock_key ip u) = Some (Payload Mark, Some (sw_now w + 900))"
      using r f n(1) by (auto simp: record_login_failure_def inc redis_setex_def keys_apart Let_def
          LOGIN_LOCK_DURATION_def LOGIN_FAIL_THRESHOLD_def)
    then show ?thesis using e n \<open>n < 10\<close> by (auto simp: counter_ok_def allowance_def)
  qed
  then show "counter_ok ip u ?w" "Suc (allowance ip u ?w T) \<le> allowance ip u w T" by auto
qed

section \<open>Every other request\<close>

lemma record_failure_other:
  "k \<noteq> rl_key ip u \<Longrightarrow> k \<noteq> lock_key ip u \<Longrightarrow> sw_redis (record_login_failure env fate ip u w) k = sw_redis w k"
  by (auto simp: record_login_failure_def redis_incr_def redis_expire_def redis_setex_def Let_def
      split: option.split redis_value.split)

lemma clear_other:
  "k \<noteq> rl_key ip u \<Longrightarrow> k \<noteq> lock_key ip u \<Longrightarrow> sw_redis (clear_login_counters env fate ip u w) k = sw_redis w k"
  by (simp add: clear_login_counters_def redis_del_def)

lemma login_other:
  assumes "k \<noteq> rl_key ip' u'" "k \<noteq> lock_key ip' u'"
  shows "sw_redis (snd (login env fate ip' u' pw jti w)) k = sw_redis w k \<and> sw_now (snd (login env fate ip' u' pw jti w)) = sw_now w"
proof -
  have f: "sw_now (record_login_failure env fate ip' u' w) = sw_now w" "sw_now (clear_login_counters env fate ip' u' w) = sw_now w"
    by (auto simp: record_login_failure_def clear_login_counters_def Let_def split: option.split)
  show ?thesis
    by (auto simp: login_def Let_def f record_failure_other [OF assms] clear_other [OF assms] split: option.split)
qed

definition login_key :: "string \<Rightarrow> bool" where
  "login_key k \<longleftrightarrow> (\<exists>ip u. k = rl_key ip u \<or> k = lock_key ip u)"

lemma login_key_not: "login_key k \<Longrightarrow> k \<noteq> jti_key j \<and> k \<noteq> code_key c"
  using keys_apart by (auto simp: login_key_def) metis+

lemma mark_keeps: "login_key k \<Longrightarrow> sw_redis (snd (mark_refresh_jti_used env fate j w)) k = sw_redis w k"
  using login_key_not [of k j] by (auto simp: mark_refresh_jti_used_def redis_setnx_def)

lemma user_frame [simp]:
  "sw_redis (put_user i u w) = sw_redis w" "sw_now (put_user i u w) = sw_now w"
  "sw_redis (redeem j b w) = sw_redis w" "sw_now (redeem j b w) = sw_now w"
  by (simp_all add: put_user_def redeem_def split: option.split)

lemma refresh_keeps:
  assumes "login_key k"
  shows "sw_redis (snd (refresh env fate cookie jti w)) k = sw_redis w k \<and> sw_now (snd (refresh env fate cookie jti w)) = sw_now w"
proof -
  have "sw_redis w1 k = sw_redis w k \<and> sw_now w1 = sw_now w" if "mark_refresh_jti_used env fate j w = (f, w1)" for f w1 j
    using mark_keeps [OF assms, of env fate j w] mark_sel(1) [of env fate j w] that by simp
  then show ?thesis
    by (auto simp: refresh_def revoke_all_user_tokens_def Let_def split: option.split prod.split)
qed

lemma code_keeps:
  assumes "login_key k"
  shows "store_code env fate code d w = (r, w') \<Longrightarrow> sw_redis w' k = sw_redis w k \<and> sw_now w' = sw_now w"
    and "consume_code env fate code w = (q, w') \<Longrightarrow> sw_redis w' k = sw_redis w k \<and> sw_now w' = sw_now w"
  using login_key_not [OF assms, of _ code]
  by (auto simp: store_code_def consume_code_def redis_setex_def redis_del_def Let_def split: if_splits)

lemma authorize_keeps:
  assumes "login_key k"
  shows "sw_redis (snd (oauth_authorize env fate rt client_id uri cookie code w)) k = sw_redis w k \<and>
    sw_now (snd (oauth_authorize env fate rt client_id uri cookie code w)) = sw_now w"
  using code_keeps(1) [OF assms]
  by (auto simp: oauth_authorize_def split: sum.split option.split prod.split)

lemma code_grant_keeps:
  assumes "login_key k"
  shows "sw_redis (snd (oauth_code_grant env fate client_id code uri jti w)) k = sw_redis w k \<and>
    sw_now (snd (oauth_code_grant env fate client_id code uri jti w)) = sw_now w"
proof -
  obtain r w1 where c: "consume_code env fate (the code) w = (r, w1)" by (cases "consume_code env fate (the code) w")
  show ?thesis using code_keeps(2) [OF assms c]
    by (auto simp: oauth_code_grant_def c Let_def split: sum.split option.split)
qed

lemma refresh_grant_keeps:
  "sw_redis (snd (oauth_refresh_grant env t w)) = sw_redis w \<and> sw_now (snd (oauth_refresh_grant env t w)) = sw_now w"
  by (simp add: oauth_refresh_grant_def Let_def split: option.split)

lemma admin_keeps:
  "sw_redis (logout env cookie w) = sw_redis w \<and> sw_now (logout env cookie w) = sw_now w"
  "sw_redis (snd (update_user i q w)) = sw_redis w \<and> sw_now (snd (update_user i q w)) = sw_now w"
  "sw_redis (snd (admin_reset_password env i pw w)) = sw_redis w \<and> sw_now (snd (admin_reset_password env i pw w)) = sw_now w"
  "sw_redis (snd (change_my_password env i cur pw w)) = sw_redis w \<and> sw_now (snd (change_my_password env i cur pw w)) = sw_now w"
  "sw_redis (snd (create_user env i name pw q w)) = sw_redis w \<and> sw_now (snd (create_user env i name pw q w)) = sw_now w"
  "sw_redis (snd (delete_user a i w)) = sw_redis w \<and> sw_now (snd (delete_user a i w)) = sw_now w"
  "sw_redis (snd (assign_tenant i t w)) = sw_redis w \<and> sw_now (snd (assign_tenant i t w)) = sw_now w"
  "sw_redis (snd (remove_tenant i t w)) = sw_redis w \<and> sw_now (snd (remove_tenant i t w)) = sw_now w"
  "sw_redis (snd (update_role vr va i ps w)) = sw_redis w \<and> sw_now (snd (update_role vr va i ps w)) = sw_now w"
  "sw_redis (snd (delete_role i b w)) = sw_redis w \<and> sw_now (snd (delete_role i b w)) = sw_now w"
  by (simp_all add: logout_def update_user_def admin_reset_password_def change_my_password_def create_user_def delete_user_def
      assign_tenant_def remove_tenant_def update_role_def delete_role_def revoke_all_user_tokens_def split: option.split)

lemma other_step:
  assumes "session_step env vr va e w = Some w'" "attempt env ip u e w = None" "login_key k"
    "k = rl_key ip u \<or> k = lock_key ip u"
  shows "sw_redis w' k = sw_redis w k \<and> (seconds [e] = 0 \<longrightarrow> sw_now w' = sw_now w)"
proof -
  have w': "w' = perform env vr va e w" using assms(1) by (simp add: session_step_def split: if_splits)
  show ?thesis
  proof (cases e)
    case (Login fate ip' u' pw jti)
    then have ne: "rl_key ip' u' \<noteq> rl_key ip u" using assms(2) by (simp split: if_splits)
    then have "lock_key ip' u' \<noteq> lock_key ip u" by (simp add: lock_key_eq)
    then have "k \<noteq> rl_key ip' u'" "k \<noteq> lock_key ip' u'" using assms(4) ne by (auto simp: keys_apart)
    then show ?thesis using login_other by (simp add: w' Login)
  next
    case (Token fate r jti)
    then show ?thesis
      by (simp add: w' oauth_token_def code_grant_keeps [OF assms(3)] refresh_grant_keeps split: sum.split)
  qed (simp_all add: w' refresh_keeps [OF assms(3)] authorize_keeps [OF assms(3)] admin_keeps)
qed

section \<open>The bound\<close>

lemma guesses_allowance:
  "ev_redis env \<Longrightarrow> \<forall>e \<in> set es. redis_answers e \<Longrightarrow> counter_ok ip u w \<Longrightarrow>
   guesses env vr va ip u es w \<le> allowance ip u w (seconds es)"
proof (induction es arbitrary: w)
  case (Cons e es)
  show ?case
  proof (cases "session_step env vr va e w")
    case None
    then show ?thesis by simp
  next
    case (Some w')
    note IH = Cons.IH [OF Cons.prems(1), of w']
    have w': "w' = perform env vr va e w" using Some by (simp add: session_step_def split: if_splits)
    show ?thesis
    proof (cases "attempt env ip u e w")
      case None
      have keys: "login_key (rl_key ip u)" "login_key (lock_key ip u)" by (auto simp: login_key_def)
      note same = other_step [OF Some None keys(1)] other_step [OF Some None keys(2)]
      show ?thesis
      proof (cases "\<exists>n. e = Seconds n")
        case True
        then obtain n where n: "e = Seconds n" ..
        show ?thesis using tick_counter(1) [OF Cons.prems(3), of n] tick_counter(2) [OF Cons.prems(3), of n "seconds es"] IH Cons.prems(2)
          by (simp add: n session_step_def w')
      next
        case False
        then have z: "seconds [e] = 0" and s: "seconds (e # es) = seconds es" by (cases e; simp)+
        have c: "counter_ok ip u w' = counter_ok ip u w" "allowance ip u w' T = allowance ip u w T" for T
          using same_counter [of w' ip u w] same z by simp_all
        show ?thesis using IH Cons.prems c by (simp add: Some None s)
      qed
    next
      case a: (Some r)
      then obtain fate ip' u' pw jti where e: "e = Login fate ip' u' pw jti" and k: "rl_key ip' u' = rl_key ip u"
        by (cases e) (simp_all split: if_splits)
      have lk: "lock_key ip' u' = lock_key ip u" using k by (simp add: lock_key_eq)
      have r: "r = fst (login env fate ip' u' pw jti w)" using a by (simp add: e k)
      have f: "\<forall>c \<in> {GetCall, IncrCall, ExpireCall, SetexCall}. fate c = Answered"
        using Cons.prems(2) by (simp add: e)
      have rec: "record_login_failure env fate ip' u' w = record_login_failure env fate ip u w"
        by (simp only: record_login_failure_def k lk)
      have chk: "check_login_locked env fate ip' u' w = check_login_locked env fate ip u w"
        by (simp only: check_login_locked_def lk)
      show ?thesis
      proof (cases r)
        case (Inr cs)
        then show ?thesis by (simp add: Some a)
      next
        case (Inl err)
        show ?thesis
        proof (cases "check_login_locked env fate ip u w")
          case True
          then have "w' = w" "err = Http 429 ''Too many failed attempts''"
            using r by (simp_all add: w' e login_def chk Inl)
          then show ?thesis using IH Cons.prems by (simp add: Some a Inl) (simp add: e)
        next
          case False
          then have "w' = record_login_failure env fate ip u w" "err \<noteq> Http 429 ''Too many failed attempts''"
            using r by (auto simp: w' e login_def chk rec Inl Let_def split: option.splits if_splits)
          moreover from this have "guesses env vr va ip u es w' \<le> allowance ip u w' (seconds es)"
            using guess_step(1) [OF Cons.prems(3,1) f False] IH Cons.prems(2) by simp
          moreover have "seconds (e # es) = seconds es" by (simp add: e)
          ultimately show ?thesis using guess_step(2) [OF Cons.prems(3,1) f False, of "seconds es"]
            by (simp add: Some a Inl)
        qed
      qed
    qed
  qed
qed simp



definition demo_guess_env :: session_env where
  "demo_guess_env = \<lparr>ev_verify = (\<lambda>_. None), ev_check_password = (\<lambda>pw h. pw = h), ev_hash_password = id,
     ev_access_minutes = 30, ev_refresh_days = 7, ev_redis = True, ev_oauth_client_id = [], ev_oauth_client_secret = [],
     ev_oauth_redirect_uris = []\<rparr>"

definition demo_guess_world :: sessions where
  "demo_guess_world = fresh_sessions 0 \<lparr>db_users = [(''u1'',
     \<lparr>us_username = ''bo'', us_password_hash = ''pw'', us_role = ''user'', us_role_id = None, us_all_tenants = False,
      us_is_active = True, us_token_version = 0, us_superset_access = None\<rparr>)],
     db_user_tenants = [], db_role_permissions = [], db_api_keys = []\<rparr>"

definition demo_guesses :: "session_event list" where
  "demo_guesses = concat (replicate 12 [Login (\<lambda>_. Answered) ''10.0.0.1'' ''bo'' ''guess'' ''j1'', Seconds 5])"


end
