(* ===== verification/Access.thy ===== *)
theory Access
  imports Auth_Store
begin

text \<open>
  Authentication of API keys with its two caches (\<open>cache.py\<close>), the dependencies that guard the
  endpoints and the three layers of tenant isolation (\<open>dependencies.py\<close>, the row policy of
  \<open>storage/clickhouse.py\<close>).  SHA-256, the parsing of UUIDs and the SQL engines are parameters.
\<close>

section \<open>The cache of a process\<close>

definition LOCAL_CACHE_MAX :: nat where "LOCAL_CACHE_MAX = 500"
definition LOCAL_CACHE_TTL :: int where "LOCAL_CACHE_TTL = 60"
definition API_KEY_TTL :: int where "API_KEY_TTL = 300"

type_synonym key_cache = "(string, auth \<times> int) dict"

definition get_local_api_key :: "int \<Rightarrow> string \<Rightarrow> key_cache \<Rightarrow> auth option \<times> key_cache" where
  "get_local_api_key now h cache =
     (case map_of cache h of None \<Rightarrow> (None, cache)
      | Some (data, ts) \<Rightarrow> if now - ts > LOCAL_CACHE_TTL then (None, dict_pop h cache) else (Some data, cache))"

definition evict_oldest :: "key_cache \<Rightarrow> key_cache" where
  "evict_oldest cache =
     fold dict_pop (take (LOCAL_CACHE_MAX div 10) (sort_key (\<lambda>k. snd (the (map_of cache k))) (dict_keys cache))) cache"

definition set_local_api_key :: "int \<Rightarrow> string \<Rightarrow> auth \<Rightarrow> key_cache \<Rightarrow> key_cache" where
  "set_local_api_key now h data cache =
     dict_set h (data, now) (if LOCAL_CACHE_MAX \<le> length cache then evict_oldest cache else cache)"

section \<open>Validation\<close>

text \<open>
  Every central process has its own cache; Redis is shared.  \<open>ks_read\<close> is what the database was when
  a validation read it; the code does not keep it.
\<close>

record key_system =
  ks_now :: int
  ks_db :: auth_db
  ks_redis :: "auth redis"
  ks_local :: "nat \<Rightarrow> key_cache"
  ks_read :: "(int \<times> auth_db) list"

definition apikey_key :: "string \<Rightarrow> string" where
  "apikey_key h = ''apikey:'' @ h"

definition put_local :: "nat \<Rightarrow> key_cache \<Rightarrow> key_system \<Rightarrow> key_system" where
  "put_local p cache s = s\<lparr>ks_local := (ks_local s)(p := cache)\<rparr>"

definition get_cached_api_key :: "bool \<Rightarrow> fates \<Rightarrow> nat \<Rightarrow> string \<Rightarrow> key_system \<Rightarrow> auth option \<times> key_system" where
  "get_cached_api_key redis fate p h s =
     (case (if redis \<and> fate GetCall = Answered then redis_live (ks_now s) (ks_redis s) (apikey_key h) else None) of
        Some (Payload data) \<Rightarrow> (Some data, put_local p (set_local_api_key (ks_now s) h data (ks_local s p)) s)
      | _ \<Rightarrow> (let (r, cache) = get_local_api_key (ks_now s) h (ks_local s p) in (r, put_local p cache s)))"

definition set_cached_api_key :: "bool \<Rightarrow> fates \<Rightarrow> nat \<Rightarrow> string \<Rightarrow> auth \<Rightarrow> key_system \<Rightarrow> key_system" where
  "set_cached_api_key redis fate p h data s =
     (let s = put_local p (set_local_api_key (ks_now s) h data (ks_local s p)) s
      in if redis \<and> fate SetexCall \<noteq> Refused
         then s\<lparr>ks_redis := redis_setex (ks_now s) (apikey_key h) API_KEY_TTL data (ks_redis s)\<rparr> else s)"

definition delete_cached_api_key :: "bool \<Rightarrow> fates \<Rightarrow> nat \<Rightarrow> string \<Rightarrow> key_system \<Rightarrow> key_system" where
  "delete_cached_api_key redis fate p h s =
     (let s = put_local p (dict_pop h (ks_local s p)) s
      in if redis \<and> fate DelCall \<noteq> Refused then s\<lparr>ks_redis := redis_del (apikey_key h) (ks_redis s)\<rparr> else s)"

definition key_auth :: "api_key \<Rightarrow> auth" where
  "key_auth k =
     \<lparr>ad_auth_type = ''api_key'', ad_key_type = Some (ak_key_type k), ad_user_id = None, ad_username = None, ad_role = None,
      ad_role_id = None, ad_tenant_ids = None, ad_permissions = None, ad_collector_id = ak_collector_id k,
      ad_scopes = Some (ak_scopes k)\<rparr>"

definition user_auth :: "string \<Rightarrow> user \<Rightarrow> auth_db \<Rightarrow> auth" where
  "user_auth i u db =
     \<lparr>ad_auth_type = ''api_key'', ad_key_type = Some ''user'', ad_user_id = Some i, ad_username = Some (us_username u),
      ad_role = Some (us_role u), ad_role_id = us_role_id u, ad_tenant_ids = visible_tenants (us_role u) i u db,
      ad_permissions = Some (case us_role_id u of None \<Rightarrow> [] | Some r \<Rightarrow> permissions_of r db),
      ad_collector_id = None, ad_scopes = None\<rparr>"

text \<open>What the database says of a key.\<close>

definition validate_in_db :: "int \<Rightarrow> auth_db \<Rightarrow> string \<Rightarrow> auth_error + auth" where
  "validate_in_db now db h =
     (case map_of (db_api_keys db) h of None \<Rightarrow> Inl (Http 401 ''Invalid API key'')
      | Some k \<Rightarrow>
          if (case ak_expires_at k of None \<Rightarrow> False | Some e \<Rightarrow> e < now) then Inl (Http 401 ''API key has expired'')
          else if ak_key_type k = ''user''
          then (case Option.bind (ak_user_id k) (\<lambda>i. map_option (Pair i) (map_of (db_users db) i)) of
                  None \<Rightarrow> Inl (Http 401 ''User account disabled or deleted'')
                | Some (i, u) \<Rightarrow>
                    if us_is_active u then Inr (user_auth i u db) else Inl (Http 401 ''User account disabled or deleted''))
          else Inr (key_auth k))"

definition validate_api_key ::
    "(string \<Rightarrow> string) \<Rightarrow> bool \<Rightarrow> fates \<Rightarrow> nat \<Rightarrow> string \<Rightarrow> key_system \<Rightarrow> (auth_error + auth) \<times> key_system" where
  "validate_api_key hash redis fate p token s =
     (let h = hash token; (cached, s) = get_cached_api_key redis fate p h s
      in case cached of Some data \<Rightarrow> (Inr data, s)
         | None \<Rightarrow>
             (let s = s\<lparr>ks_read := (ks_now s, ks_db s) # ks_read s\<rparr>
              in case validate_in_db (ks_now s) (ks_db s) h of
                   Inl e \<Rightarrow> (Inl e, s)
                 | Inr data \<Rightarrow> (Inr data, set_cached_api_key redis fate p h data s)))"

text \<open>
  What happens to keys: time, a request with a key at a process, an invalidation at a process, and the
  commit of any transaction that leaves the tables as \<open>db\<close>.
\<close>

datatype key_event =
    Key_seconds nat
  | Validate fates nat string
  | Invalidate fates nat string
  | Commit auth_db

fun key_step :: "(string \<Rightarrow> string) \<Rightarrow> bool \<Rightarrow> key_event \<Rightarrow> key_system \<Rightarrow> key_system option" where
  "key_step hash redis (Key_seconds n) s = Some (s\<lparr>ks_now := ks_now s + int n\<rparr>)"
| "key_step hash redis (Validate fate p token) s = Some (snd (validate_api_key hash redis fate p token s))"
| "key_step hash redis (Invalidate fate p h) s = Some (delete_cached_api_key redis fate p h s)"
| "key_step hash redis (Commit db) s = Some (s\<lparr>ks_db := db\<rparr>)"

definition fresh_keys :: "int \<Rightarrow> auth_db \<Rightarrow> key_system" where
  "fresh_keys now db = \<lparr>ks_now = now, ks_db = db, ks_redis = (\<lambda>_. None), ks_local = (\<lambda>_. []), ks_read = []\<rparr>"

section \<open>The guards of an endpoint\<close>

definition require_collector_key :: "auth \<Rightarrow> auth_error + auth" where
  "require_collector_key a = (if ad_key_type a = Some ''collector'' then Inr a else Inl (Http 403 ''Collector API key required''))"

definition require_management_key :: "auth \<Rightarrow> auth_error + auth" where
  "require_management_key a = (if ad_key_type a = Some ''management'' then Inr a else Inl (Http 403 ''Management API key required''))"

text \<open>The cookie's user, if any, and the validation of the bearer token, if there is one.\<close>

definition require_auth :: "auth option \<Rightarrow> (auth_error + auth) option \<Rightarrow> auth_error + auth" where
  "require_auth cookie bearer =
     (case cookie of Some a \<Rightarrow> Inr a
      | None \<Rightarrow>
          (case bearer of
             Some (Inr a) \<Rightarrow>
               if ad_key_type a \<in> {Some ''management'', Some ''user''} then Inr a else Inl (Http 401 ''Authentication required'')
           | _ \<Rightarrow> Inl (Http 401 ''Authentication required'')))"

definition require_admin :: "auth_error + auth \<Rightarrow> auth_error + auth" where
  "require_admin r = ebind r (\<lambda>a. if ad_role a = Some ''admin'' then Inr a else Inl (Http 403 ''Admin role required''))"

definition require_permission :: "(string \<Rightarrow> string list) \<Rightarrow> string \<Rightarrow> string \<Rightarrow> auth_error + auth \<Rightarrow> auth_error + auth" where
  "require_permission load resource action r = ebind r (\<lambda>a.
     if ad_role a = Some ''admin'' then Inr a
     else if ad_auth_type a = ''api_key'' \<and> ad_key_type a = Some ''management'' then Inr a
     else let perms = (if ad_auth_type a = ''api_key'' \<and> ad_key_type a = Some ''user''
                       then (case ad_permissions a of None \<Rightarrow> [] | Some ps \<Rightarrow> ps)
                       else (case ad_user_id a of None \<Rightarrow> [] | Some i \<Rightarrow> load i))
          in if permission resource action \<in> set perms then Inr (a\<lparr>ad_permissions := Some perms\<rparr>)
             else Inl (Http 403 ''Permission required''))"

text \<open>
  The permissions of a cookie's user, from Redis or the database: an answered GET wins; a call that
  fails raises.
\<close>

definition load_user_permissions ::
    "int \<Rightarrow> bool \<Rightarrow> fates \<Rightarrow> string \<Rightarrow> auth_db \<Rightarrow> string list redis \<Rightarrow> (auth_error + string list) \<times> string list redis" where
  "load_user_permissions now redis fate user_id db r =
     (let key = ''user_perms:'' @ user_id
      in if redis \<and> fate GetCall \<noteq> Answered then (Inl (UncaughtError ''RedisError''), r)
         else case (if redis then redis_live now r key else None) of
           Some (Payload ps) \<Rightarrow> (Inr ps, r)
         | Some (Counter n) \<Rightarrow> (Inl (UncaughtError ''TypeError''), r)
         | None \<Rightarrow>
             (case Option.bind (map_of (db_users db) user_id) us_role_id of None \<Rightarrow> (Inr [], r)
              | Some role_id \<Rightarrow>
                  (let ps = permissions_of role_id db
                   in if \<not> redis then (Inr ps, r)
                      else (if fate SetexCall = Answered then Inr ps else Inl (UncaughtError ''RedisError''),
                            if fate SetexCall = Refused then r else redis_setex now key 300 ps r))))"

text \<open>
  The endpoints of the collectors: the shared secret, the validation of the bearer token, the password
  of basic authentication, and otherwise \<open>require_auth\<close>.
\<close>

definition shared_secret_auth :: auth where
  "shared_secret_auth =
     \<lparr>ad_auth_type = ''collector_shared_secret'', ad_key_type = None, ad_user_id = None, ad_username = None, ad_role = None,
      ad_role_id = None, ad_tenant_ids = None, ad_permissions = None, ad_collector_id = None, ad_scopes = None\<rparr>"

definition require_collector_auth ::
    "string \<Rightarrow> (string \<Rightarrow> auth_error + auth) \<Rightarrow> auth option \<Rightarrow> string option \<Rightarrow> string option \<Rightarrow> auth_error + auth" where
  "require_collector_auth secret validate cookie token basic_password =
     (case (case token of None \<Rightarrow> None
            | Some t \<Rightarrow> if secret \<noteq> [] \<and> t = secret then None else
                (case validate t of
                   Inr k \<Rightarrow> if ad_key_type k = Some ''collector''
                     then Some (k\<lparr>ad_auth_type := ''collector_api_key'', ad_key_type := None, ad_tenant_ids := None\<rparr>) else None
                 | Inl _ \<Rightarrow> None)) of
        Some a \<Rightarrow> Inr a
      | None \<Rightarrow>
          if secret \<noteq> [] \<and> (token = Some secret \<or> basic_password = Some secret) then Inr shared_secret_auth
          else require_auth cookie (map_option validate token))"

section \<open>Tenants\<close>

definition NULL_TENANT_SENTINEL :: string where
  "NULL_TENANT_SENTINEL = ''ffffffff-ffff-ffff-ffff-ffffffffffff''"

definition uuid_char :: "char \<Rightarrow> bool" where
  "uuid_char c \<longleftrightarrow> c \<in> set ''0123456789abcdefABCDEF-''"

definition tenant_scope :: "auth \<Rightarrow> string" where
  "tenant_scope a =
     (case ad_tenant_ids a of None \<Rightarrow> []
      | Some ts \<Rightarrow>
          if ts = [] then NULL_TENANT_SENTINEL
          else let safe = filter (list_all uuid_char) ts
               in if safe = [] then NULL_TENANT_SENTINEL else join '','' safe)"

text \<open>
  The row policy with a UUID column, \<open>to_uuid\<close> being that of ClickHouse, which raises on what it cannot
  parse (None).
\<close>

definition row_policy :: "(string \<Rightarrow> 'u option) \<Rightarrow> string \<Rightarrow> 'u \<Rightarrow> bool option" where
  "row_policy to_uuid scope tenant_id =
     (if scope \<in> {[], ''*''} then Some True
      else let us = map to_uuid (split_on CHR '','' scope)
           in if None \<in> set us then None else Some (Some tenant_id \<in> set us))"

text \<open>
  The filter as the predicate it adds to the statement, on the tenant of a row (None for NULL), and the
  check of a single device.
\<close>

definition apply_tenant_filter :: "(string \<Rightarrow> 'u option) \<Rightarrow> auth \<Rightarrow> auth_error + ('u option \<Rightarrow> bool)" where
  "apply_tenant_filter parse a =
     (case ad_tenant_ids a of None \<Rightarrow> Inr (\<lambda>_. True)
      | Some ts \<Rightarrow>
          if ts = [] then Inr (\<lambda>_. False)
          else if None \<in> set (map parse ts) then Inl (UncaughtError ''ValueError'')
          else Inr (\<lambda>t. case t of None \<Rightarrow> False | Some u \<Rightarrow> Some u \<in> set (map parse ts)))"

definition check_tenant_access :: "('u \<Rightarrow> string) \<Rightarrow> auth \<Rightarrow> 'u option \<Rightarrow> bool" where
  "check_tenant_access str_of a t =
     (case ad_tenant_ids a of None \<Rightarrow> True
      | Some ts \<Rightarrow> if ts = [] then False else (case t of None \<Rightarrow> False | Some u \<Rightarrow> str_of u \<in> set ts))"

end
