(* ===== verification/Access_Results.thy ===== *)
theory Access_Results
  imports Access_Props
begin

text \<open>Keys at work: permissions, the tenant layers, and what the caches leave open.\<close>

section \<open>Permissions of a user's key\<close>

lemma set_permissions_of:
  "p \<in> set (permissions_of r db) \<longleftrightarrow> (\<exists>res act. (r, res, act) \<in> set (db_role_permissions db) \<and> p = permission res act)"
  by (force simp: permissions_of_def)

lemma validate_user_key:
  assumes "validate_in_db t db h = Inr a" "ad_key_type a = Some ''user''"
  shows "\<exists>i u. map_of (db_users db) i = Some u \<and> us_is_active u \<and> a = user_auth i u db"
  using assms
  by (auto simp: validate_in_db_def key_auth_def bind_eq_Some_conv split: option.splits if_splits) blast+

text \<open>
  A request with a user's API key that passes the guard of an endpoint was entitled to it: at most six
  minutes ago the database had the user, active, as an administrator or in a role with a row for the
  permission asked for.
\<close>

theorem user_key_permission_was_granted:
  assumes "run_events (key_step hash redis) es (fresh_keys now db) = Some s"
    and "validate_api_key hash redis fate p token s = (Inr a, s')" and "ad_key_type a = Some ''user''"
    and "require_permission load resource action (require_auth None (Some (Inr a))) = Inr a'"
  shows "\<exists>t db' i u. (t, db') \<in> set (ks_read s') \<and> t \<le> ks_now s \<and> ks_now s \<le> t + 360 \<and>
    map_of (db_users db') i = Some u \<and> us_is_active u \<and>
    (us_role u = ''admin'' \<or> (\<exists>r res act. us_role_id u = Some r \<and> (r, res, act) \<in> set (db_role_permissions db') \<and>
       permission res act = permission resource action))"
proof -
  have "key_inv s" by (rule api_keys.run_inv [OF fresh_keys_inv assms(1)])
  note ok = validate_ok [OF this assms(2)]
  obtain t db' where t: "(t, db') \<in> set (ks_read s')" "validate_in_db t db' (hash token) = Inr a" "t \<le> ks_now s" "ks_now s \<le> t + 360"
    using ok(5) [OF refl] by (auto simp: validated_def ok(3) API_KEY_TTL_def LOCAL_CACHE_TTL_def add.commute)
  obtain i u where u: "map_of (db_users db') i = Some u" "us_is_active u" "a = user_auth i u db'"
    using validate_user_key [OF t(2) assms(3)] by blast
  have "us_role u = ''admin'' \<or> permission resource action \<in> set (case us_role_id u of None \<Rightarrow> [] | Some r \<Rightarrow> permissions_of r db')"
    using assms(3,4) by (auto simp: require_permission_def require_auth_def u(3) user_auth_def Let_def split: if_splits)
  then have "us_role u = ''admin'' \<or> (\<exists>r res act. us_role_id u = Some r \<and> (r, res, act) \<in> set (db_role_permissions db') \<and>
       permission res act = permission resource action)"
    by (cases "us_role_id u") (simp_all add: set_permissions_of, metis)
  then show ?thesis using t(1,3,4) u(1,2) by blast
qed

section \<open>Three layers of tenant isolation\<close>

lemma split_on_piece: "d \<notin> set x \<Longrightarrow> split_on d (x @ d # rest) = x # split_on d rest"
  by (induction x) auto

lemma split_on_last: "d \<notin> set x \<Longrightarrow> split_on d x = [x]"
  by (induction x) auto

lemma split_on_join: "xs \<noteq> [] \<Longrightarrow> \<forall>x \<in> set xs. d \<notin> set x \<Longrightarrow> split_on d (join [d] xs) = xs"
  by (induction "[d]" xs rule: join.induct) (auto simp: split_on_piece split_on_last)

text \<open>The text of a UUID, and what reads it.\<close>

definition uuid_text :: "('u \<Rightarrow> string) \<Rightarrow> (string \<Rightarrow> 'u option) \<Rightarrow> bool" where
  "uuid_text str_of parse \<longleftrightarrow> (\<forall>u. parse (str_of u) = Some u \<and> str_of u \<noteq> [] \<and> list_all uuid_char (str_of u))"

lemma uuid_text_inj: "uuid_text str_of parse \<Longrightarrow> str_of u = str_of v \<longleftrightarrow> u = v"
  by (metis option.inject uuid_text_def)

lemma scope_pieces:
  assumes "uuid_text str_of parse" "us \<noteq> []"
  shows "split_on CHR '','' (join '','' (map str_of us)) = map str_of us" "join '','' (map str_of us) \<notin> {[], ''*''}"
proof -
  have no: "CHR '','' \<notin> set (str_of u)" "CHR ''*'' \<notin> set (str_of u)" "str_of u \<noteq> []" for u
    using assms(1) unfolding uuid_text_def list_all_iff uuid_char_def by fastforce+
  show split: "split_on CHR '','' (join '','' (map str_of us)) = map str_of us"
    using assms(2) no by (intro split_on_join) auto
  have "s = [] \<or> s = ''*'' \<Longrightarrow> split_on CHR '','' s = [s]" for s by auto
  moreover have "[s] \<noteq> map str_of us" if "s = [] \<or> s = ''*''" for s using that no by (auto simp: Cons_eq_map_conv) (metis list.set_intros(1))
  ultimately show "join '','' (map str_of us) \<notin> {[], ''*''}" using split by force
qed

text \<open>
  C23: The layers of tenant isolation agree: for a user's tenants as the database gives them, the filter
  that endpoints add to a statement, the check of a single device and the row policy of ClickHouse under
  the scope of the request let through the same tenants, and none of them raises; a device without
  a tenant is seen by the unrestricted alone.
\<close>

theorem tenant_layers_agree:
  assumes "uuid_text str_of parse" "uuid_text str_of to_uuid"
    and "str_of sentinel = NULL_TENANT_SENTINEL" "u \<noteq> sentinel"
    and "ad_tenant_ids a = None \<or> ad_tenant_ids a = Some (map str_of us)"
  shows "\<exists>passes. apply_tenant_filter parse a = Inr passes \<and>
    passes (Some u) = check_tenant_access str_of a (Some u) \<and>
    row_policy to_uuid (tenant_scope a) u = Some (passes (Some u)) \<and>
    passes None = check_tenant_access str_of a None \<and> passes None = (ad_tenant_ids a = None)"
proof (cases "ad_tenant_ids a")
  case None
  then show ?thesis by (simp add: apply_tenant_filter_def check_tenant_access_def row_policy_def tenant_scope_def)
next
  case (Some ts)
  then have ts: "ts = map str_of us" using assms(5) by simp
  have parses: "map parse ts = map Some us" "map to_uuid ts = map Some us"
    using assms(1,2) by (simp_all add: ts uuid_text_def)
  show ?thesis
  proof (cases "us = []")
    case True
    have "CHR '','' \<notin> set NULL_TENANT_SENTINEL" by code_simp
    then have "split_on CHR '','' NULL_TENANT_SENTINEL = [NULL_TENANT_SENTINEL]" by (rule split_on_last)
    moreover have "NULL_TENANT_SENTINEL \<notin> {[], ''*''}" by (simp add: NULL_TENANT_SENTINEL_def)
    moreover have "to_uuid NULL_TENANT_SENTINEL = Some sentinel" using assms(2,3) by (metis uuid_text_def)
    ultimately have "row_policy to_uuid (tenant_scope a) u = Some False"
      using Some assms(4) by (simp add: row_policy_def tenant_scope_def ts True)
    then show ?thesis using Some by (simp add: apply_tenant_filter_def check_tenant_access_def ts True)
  next
    case False
    have "filter (list_all uuid_char) ts = ts" using assms(1) by (simp add: ts uuid_text_def filter_id_conv)
    then have "tenant_scope a = join '','' (map str_of us)" using Some False by (simp add: tenant_scope_def ts)
    then have "row_policy to_uuid (tenant_scope a) u = Some (u \<in> set us)"
      using scope_pieces [OF assms(2) False] parses(2) by (auto simp: row_policy_def ts)
    moreover have "apply_tenant_filter parse a = Inr (\<lambda>t. case t of None \<Rightarrow> False | Some v \<Rightarrow> Some v \<in> set (map parse ts))"
      using Some False parses(1) by (auto simp: apply_tenant_filter_def ts)
    moreover have "Some u \<in> set (map parse ts) \<longleftrightarrow> u \<in> set us" unfolding parses by auto
    moreover have "check_tenant_access str_of a (Some u) \<longleftrightarrow> u \<in> set us" "\<not> check_tenant_access str_of a None"
      using Some False uuid_text_inj [OF assms(1)] by (auto simp: check_tenant_access_def ts)
    ultimately show ?thesis using Some by simp
  qed
qed
section \<open>Two processes\<close>

definition demo_key_user :: user where
  "demo_key_user = \<lparr>us_username = ''bo'', us_password_hash = ''pw'', us_role = ''user'', us_role_id = Some ''r1'',
     us_all_tenants = False, us_is_active = True, us_token_version = 0, us_superset_access = None\<rparr>"

definition demo_key_db :: auth_db where
  "demo_key_db = \<lparr>db_users = [(''u1'', demo_key_user)], db_user_tenants = [(''u1'', ''t1'')],
     db_role_permissions = [(''r1'', ''device'', ''view'')],
     db_api_keys = [(''k'', \<lparr>ak_key_type = ''user'', ak_collector_id = None, ak_scopes = JArr [JStr ''*''], ak_expires_at = None,
       ak_user_id = Some ''u1''\<rparr>)]\<rparr>"

definition demo_gone :: auth_db where
  "demo_gone = demo_key_db\<lparr>db_api_keys := []\<rparr>"

abbreviation all_well :: fates where
  "all_well \<equiv> (\<lambda>_. Answered)"

abbreviation redis_down :: fates where
  "redis_down \<equiv> (\<lambda>_. Refused)"

definition demo_answer :: "key_event list \<Rightarrow> fates \<Rightarrow> nat \<Rightarrow> (int \<times> (auth_error + auth)) option" where
  "demo_answer es fate p =
     map_option (\<lambda>s. (ks_now s, fst (validate_api_key id True fate p ''k'' s))) (run_events (key_step id True) es (fresh_keys 0 demo_key_db))"

text \<open>
  The bound is sharp: a key deleted at once is accepted nearly six minutes later, from the cache of a
  process that took it from Redis in the last second.
\<close>

lemma api_key_age_reached:
  "demo_answer [Validate all_well 0 ''k'', Commit demo_gone, Key_seconds 299, Validate all_well 1 ''k'', Key_seconds 60] redis_down 1 =
   Some (359, Inr (user_auth ''u1'' demo_key_user demo_key_db))"
  by code_simp

text \<open>
  The endpoints invalidate before they commit: a request in between caches the key anew, and it outlives
  its row by five minutes.
\<close>

lemma revocation_race:
  "demo_answer [Invalidate all_well 0 ''k'', Validate all_well 1 ''k'', Commit demo_gone, Key_seconds 299] all_well 0 =
   Some (299, Inr (user_auth ''u1'' demo_key_user demo_key_db))"
  by code_simp

lemma demo_later_answer:
  "demo_answer [Validate all_well 0 ''k'', Commit demo_gone, Key_seconds 200] all_well 1 =
   Some (200, Inr (user_auth ''u1'' demo_key_user demo_key_db))"
  by code_simp

lemma demo_answer_SomeE:
  assumes "demo_answer es fate p = Some (n, r)"
  obtains s s' where "run_events (key_step id True) es (fresh_keys 0 demo_key_db) = Some s" "ks_now s = n"
    "validate_api_key id True fate p ''k'' s = (r, s')"
  using assms by (auto simp: demo_answer_def) (metis prod.collapse)

theorem api_key_answer_age_witness:
  "\<exists>s s' t db'. run_events (key_step id True) [Validate all_well 0 ''k'', Commit demo_gone, Key_seconds 200] (fresh_keys 0 demo_key_db) = Some s \<and>
     ks_now s = 200 \<and> validate_api_key id True all_well 1 ''k'' s = (Inr (user_auth ''u1'' demo_key_user demo_key_db), s') \<and>
     (t, db') \<in> set (ks_read s') \<and> validate_in_db t db' ''k'' = Inr (user_auth ''u1'' demo_key_user demo_key_db) \<and> 200 \<le> t + 360"
proof -
  obtain s s' where s: "run_events (key_step id True) [Validate all_well 0 ''k'', Commit demo_gone, Key_seconds 200] (fresh_keys 0 demo_key_db) = Some s"
    "ks_now s = 200" "validate_api_key id True all_well 1 ''k'' s = (Inr (user_auth ''u1'' demo_key_user demo_key_db), s')"
    by (rule demo_answer_SomeE [OF demo_later_answer])
  show ?thesis using api_key_answer_age [OF s(1,3)] s by (metis id_apply)
qed

theorem user_key_permission_was_granted_witness:
  "\<exists>(t :: int) (db' :: auth_db) i (u :: user). t \<le> 200 \<and> 200 \<le> t + 360 \<and> map_of (db_users db') i = Some u \<and> us_is_active u \<and>
    (us_role u = ''admin'' \<or> (\<exists>r res act. us_role_id u = Some r \<and> (r, res, act) \<in> set (db_role_permissions db') \<and>
       permission res act = permission ''device'' ''view''))"
proof -
  obtain s s' where s: "run_events (key_step id True) [Validate all_well 0 ''k'', Commit demo_gone, Key_seconds 200] (fresh_keys 0 demo_key_db) = Some s"
    "ks_now s = 200" "validate_api_key id True all_well 1 ''k'' s = (Inr (user_auth ''u1'' demo_key_user demo_key_db), s')"
    by (rule demo_answer_SomeE [OF demo_later_answer])
  have granted: "require_permission (\<lambda>_. []) ''device'' ''view'' (require_auth None (Some (Inr (user_auth ''u1'' demo_key_user demo_key_db)))) =
    Inr (user_auth ''u1'' demo_key_user demo_key_db)"
    by code_simp
  have "ad_key_type (user_auth ''u1'' demo_key_user demo_key_db) = Some ''user''" by (simp add: user_auth_def)
  from user_key_permission_was_granted [OF s(1,3) this granted] show ?thesis unfolding s(2) by blast
qed


text \<open>Two UUIDs, the sentinel and another.\<close>

definition demo_uuid :: "bool \<Rightarrow> string" where
  "demo_uuid b = (if b then NULL_TENANT_SENTINEL else ''6fa459ea-ee8a-3ca4-894e-db77e160355e'')"

definition demo_parse :: "string \<Rightarrow> bool option" where
  "demo_parse s = (if s = demo_uuid True then Some True else if s = demo_uuid False then Some False else None)"

theorem tenant_layers_agree_witness:
  "\<exists>passes. apply_tenant_filter demo_parse (user_auth ''u1'' demo_key_user (demo_key_db\<lparr>db_user_tenants := [(''u1'', demo_uuid False)]\<rparr>)) = Inr passes \<and>
     row_policy demo_parse (tenant_scope (user_auth ''u1'' demo_key_user (demo_key_db\<lparr>db_user_tenants := [(''u1'', demo_uuid False)]\<rparr>))) False = Some (passes (Some False))"
proof -
  have "demo_uuid True \<noteq> demo_uuid False" by code_simp
  moreover have "demo_uuid True \<noteq> [] \<and> list_all uuid_char (demo_uuid True)" "demo_uuid False \<noteq> [] \<and> list_all uuid_char (demo_uuid False)"
    by code_simp+
  ultimately have u: "uuid_text demo_uuid demo_parse"
    unfolding uuid_text_def by (metis (full_types) demo_parse_def)
  have "ad_tenant_ids (user_auth ''u1'' demo_key_user (demo_key_db\<lparr>db_user_tenants := [(''u1'', demo_uuid False)]\<rparr>)) = Some (map demo_uuid [False])"
    by (simp add: user_auth_def visible_tenants_def demo_key_user_def tenants_of_def)
  then show ?thesis
    using tenant_layers_agree [OF u u, of True False "user_auth ''u1'' demo_key_user (demo_key_db\<lparr>db_user_tenants := [(''u1'', demo_uuid False)]\<rparr>)" "[False]"]
    by (auto simp: demo_uuid_def)
qed

end
