(* ===== verification/Entitlement.thy ===== *)
theory Entitlement
  imports Auth_Store
begin

text \<open>
  What a collector may do at the central API (\<open>collector_api/router.py\<close>): who the caller is, which
  assignments it owns, which credentials it may fetch, whose results and whose app cache it may send.
  The parsing of UUIDs and of timestamps and the decryption of secrets are parameters; queries are
  over lists of rows.
\<close>

section \<open>The tables\<close>

record collector_row =
  co_id :: string
  co_hostname :: "string option"
  co_status :: string
  co_group_id :: "string option"

record assignment_row =
  as_id :: string
  as_app_id :: string
  as_collector_id :: "string option"
  as_device_id :: "string option"
  as_credential_id :: "string option"

record fleet_device =
  fd_id :: string
  fd_group_id :: "string option"
  fd_credentials :: json

record vault_row =
  cr_id :: string
  cr_name :: string
  cr_type :: string
  cr_secret :: string

record fleet =
  fl_collectors :: "collector_row list"
  fl_assignments :: "assignment_row list"
  fl_devices :: "fleet_device list"
  fl_overrides :: "(string \<times> string) list"
  fl_credentials :: "vault_row list"
  fl_apps :: "(string \<times> string) list"

definition collector_by_id :: "fleet \<Rightarrow> string \<Rightarrow> collector_row option" where
  "collector_by_id fl i = find (\<lambda>c. co_id c = i) (fl_collectors fl)"

definition assignment_by_id :: "fleet \<Rightarrow> string \<Rightarrow> assignment_row option" where
  "assignment_by_id fl i = find (\<lambda>a. as_id a = i) (fl_assignments fl)"

definition device_of :: "fleet \<Rightarrow> assignment_row \<Rightarrow> fleet_device option" where
  "device_of fl a = Option.bind (as_device_id a) (\<lambda>i. find (\<lambda>d. fd_id d = i) (fl_devices fl))"

section \<open>The caller\<close>

definition nonempty :: "string option \<Rightarrow> string option" where
  "nonempty v = (if v = Some [] then None else v)"

definition require_active_collector :: "(string \<Rightarrow> string option) \<Rightarrow> fleet \<Rightarrow> auth \<Rightarrow> auth_error + unit" where
  "require_active_collector uuid_of fl a =
     (case nonempty (ad_collector_id a) of None \<Rightarrow> Inr ()
      | Some cid \<Rightarrow>
     (case uuid_of cid of None \<Rightarrow> Inl (UncaughtError ''ValueError'')
      | Some i \<Rightarrow>
     (case collector_by_id fl i of None \<Rightarrow> Inl (Http 404 ''Collector not found'')
      | Some c \<Rightarrow> if co_status c = ''ACTIVE'' then Inr () else Inl (Http 403 ''approval required''))))"

text \<open>The first of the ids that names a collector; one that is no UUID is passed over.\<close>

definition first_named :: "(string \<Rightarrow> string option) \<Rightarrow> fleet \<Rightarrow> string option list \<Rightarrow> collector_row option" where
  "first_named uuid_of fl ids =
     (case List.map_filter (\<lambda>v. Option.bind (nonempty v) (\<lambda>s. Option.bind (uuid_of s) (collector_by_id fl))) ids of
        [] \<Rightarrow> None | c # _ \<Rightarrow> Some c)"

definition resolve_caller_collector ::
    "(string \<Rightarrow> string option) \<Rightarrow> fleet \<Rightarrow> auth \<Rightarrow> string option \<Rightarrow> string option \<Rightarrow> string option
     \<Rightarrow> auth_error + collector_row option" where
  "resolve_caller_collector uuid_of fl a fallback_hostname header hint =
     (case first_named uuid_of fl [ad_collector_id a, hint, header] of
        Some c \<Rightarrow> Inr (Some c)
      | None \<Rightarrow>
          (case nonempty fallback_hostname of None \<Rightarrow> Inr None
           | Some h \<Rightarrow>
               (case filter (\<lambda>c. co_hostname c = Some h) (fl_collectors fl) of
                  [] \<Rightarrow> Inr None | [c] \<Rightarrow> Inr (Some c) | _ \<Rightarrow> Inl (UncaughtError ''MultipleResultsFound''))))"

section \<open>Ownership\<close>

definition caller_owns_assignment :: "fleet \<Rightarrow> collector_row \<Rightarrow> string \<Rightarrow> bool" where
  "caller_owns_assignment fl c assignment_id =
     (case assignment_by_id fl assignment_id of None \<Rightarrow> False
      | Some a \<Rightarrow>
          if as_collector_id a = Some (co_id c) then True
          else if as_collector_id a \<noteq> None then False
          else if as_device_id a = None then True
          else (case device_of fl a of None \<Rightarrow> False
                | Some d \<Rightarrow> if co_group_id c = None \<or> fd_group_id d = None then True
                    else fd_group_id d = co_group_id c))"

text \<open>
  The query behind the credentials: an outer join with the devices, in which the comparison with the
  group of no device, or of a device without a group, is not true.
\<close>

definition in_group :: "fleet \<Rightarrow> assignment_row \<Rightarrow> string \<Rightarrow> bool" where
  "in_group fl a g = (case device_of fl a of None \<Rightarrow> False | Some d \<Rightarrow> fd_group_id d = Some g)"

definition owned_assignments :: "fleet \<Rightarrow> collector_row \<Rightarrow> assignment_row list" where
  "owned_assignments fl c =
     filter (\<lambda>a. as_collector_id a = Some (co_id c) \<or>
       as_collector_id a = None \<and> (case co_group_id c of None \<Rightarrow> True | Some g \<Rightarrow> in_group fl a g)) (fl_assignments fl)"

fun credential_ref :: "(string \<Rightarrow> string option) \<Rightarrow> json \<Rightarrow> string option" where
  "credential_ref uuid_of (JStr s) = (if s = [] then None else uuid_of s)"
| "credential_ref uuid_of (JInt i) = (if i = 0 then None else uuid_of (str_int i))"
| "credential_ref uuid_of _ = None"

definition device_credential_ids :: "(string \<Rightarrow> string option) \<Rightarrow> fleet_device \<Rightarrow> string list" where
  "device_credential_ids uuid_of d =
     (case fd_credentials d of JObj m \<Rightarrow> List.map_filter (credential_ref uuid_of) (dict_values m) | _ \<Rightarrow> [])"

definition caller_allowed_credentials :: "(string \<Rightarrow> string option) \<Rightarrow> fleet \<Rightarrow> collector_row \<Rightarrow> string list" where
  "caller_allowed_credentials uuid_of fl c =
     (let owned = owned_assignments fl c;
          own = List.map_filter as_credential_id owned;
          overrides = map snd (filter (\<lambda>(i, _). i \<in> set (map as_id owned)) (fl_overrides fl));
          device_ids = List.map_filter as_device_id owned;
          devices = filter (\<lambda>d. fd_id d \<in> set device_ids) (fl_devices fl);
          allowed_ids = own @ overrides @ concat (map (device_credential_ids uuid_of) devices)
      in map cr_name (filter (\<lambda>r. cr_id r \<in> set allowed_ids) (fl_credentials fl)))"

definition caller_allowed_app_ids :: "fleet \<Rightarrow> collector_row \<Rightarrow> string list" where
  "caller_allowed_app_ids fl c =
     map as_app_id (filter (\<lambda>a. as_collector_id a = Some (co_id c) \<or>
       (case co_group_id c of None \<Rightarrow> False | Some g \<Rightarrow> as_collector_id a = None \<and> in_group fl a g)) (fl_assignments fl))"

section \<open>The endpoints\<close>

definition read_credential :: "(string \<Rightarrow> json option) \<Rightarrow> fleet \<Rightarrow> string \<Rightarrow> auth_error + vault_row \<times> json" where
  "read_credential decrypt fl name =
     (case find (\<lambda>r. cr_name r = name) (fl_credentials fl) of None \<Rightarrow> Inl (Http 404 ''Credential not found'')
      | Some r \<Rightarrow> (case decrypt (cr_secret r) of None \<Rightarrow> Inl (Http 500 ''Failed to decrypt credential'') | Some d \<Rightarrow> Inr (r, d)))"

definition get_credential ::
    "(string \<Rightarrow> string option) \<Rightarrow> (string \<Rightarrow> json option) \<Rightarrow> bool \<Rightarrow> fleet \<Rightarrow> auth \<Rightarrow> string option \<Rightarrow> string option \<Rightarrow> string
     \<Rightarrow> auth_error + vault_row \<times> json" where
  "get_credential uuid_of decrypt strict fl a header hint name =
     ebind (require_active_collector uuid_of fl a) (\<lambda>_.
     ebind (resolve_caller_collector uuid_of fl a None header hint) (\<lambda>caller.
       case caller of
         Some c \<Rightarrow> if name \<notin> set (caller_allowed_credentials uuid_of fl c) then Inl (Http 404 ''Credential not found'')
           else read_credential decrypt fl name
       | None \<Rightarrow> if strict then Inl (Http 401 ''per-collector auth is required'') else read_credential decrypt fl name))"

text \<open>What becomes of a result: its job is a discovery, unreadable, not the caller's, or taken.\<close>

datatype result_verdict = Discovery string | Skipped | Unauthorised | Taken string

definition discovery_prefix :: string where
  "discovery_prefix = ''discovery-''"

definition judge_result :: "(string \<Rightarrow> string option) \<Rightarrow> fleet \<Rightarrow> collector_row option \<Rightarrow> string \<Rightarrow> result_verdict" where
  "judge_result uuid_of fl caller job_id =
     (if take (length discovery_prefix) job_id = discovery_prefix
      then (case uuid_of (drop (length discovery_prefix) job_id) of None \<Rightarrow> Skipped | Some d \<Rightarrow> Discovery d)
      else (case uuid_of job_id of None \<Rightarrow> Skipped
            | Some i \<Rightarrow>
                (case caller of None \<Rightarrow> Taken i
                 | Some c \<Rightarrow> if caller_owns_assignment fl c i then Taken i else Unauthorised)))"

definition submit_results ::
    "(string \<Rightarrow> string option) \<Rightarrow> bool \<Rightarrow> fleet \<Rightarrow> auth \<Rightarrow> string \<Rightarrow> string option \<Rightarrow> string list \<Rightarrow> auth_error + result_verdict list" where
  "submit_results uuid_of strict fl a collector_node header job_ids =
     ebind (resolve_caller_collector uuid_of fl a (Some collector_node) header None) (\<lambda>caller.
       if caller = None \<and> strict then Inl (Http 401 ''per-collector auth is required'')
       else Inr (map (judge_result uuid_of fl caller) job_ids))"

definition resolve_collector_group ::
    "(string \<Rightarrow> string option) \<Rightarrow> fleet \<Rightarrow> auth \<Rightarrow> string option \<Rightarrow> string option \<Rightarrow> auth_error + string" where
  "resolve_collector_group uuid_of fl a collector_id_param node_id_param =
     ebind (case (case nonempty (ad_collector_id a) of Some i \<Rightarrow> Some i | None \<Rightarrow> nonempty collector_id_param) of
              None \<Rightarrow> Inr None
            | Some s \<Rightarrow> (case uuid_of s of None \<Rightarrow> Inl (UncaughtError ''ValueError'')
                | Some i \<Rightarrow> Inr (Option.bind (collector_by_id fl i) co_group_id))) (\<lambda>g.
       case g of Some g \<Rightarrow> Inr g
       | None \<Rightarrow>
           (case nonempty node_id_param of None \<Rightarrow> Inl (Http 400 ''Cannot resolve collector group'')
            | Some h \<Rightarrow>
                (case filter (\<lambda>c. co_hostname c = Some h) (fl_collectors fl) of
                   [c] \<Rightarrow> (case co_group_id c of None \<Rightarrow> Inl (Http 400 ''Cannot resolve collector group'') | Some g \<Rightarrow> Inr g)
                 | [] \<Rightarrow> Inl (Http 400 ''Cannot resolve collector group'')
                 | _ \<Rightarrow> Inl (UncaughtError ''MultipleResultsFound''))))"

text \<open>What becomes of a pushed app cache entry; a taken one has its app and device.\<close>

record push_entry =
  pe_app_id :: string
  pe_device_id :: string
  pe_updated_at :: string

datatype push_verdict = Rejected | Forbidden | Merged string string

definition judge_push ::
    "(string \<Rightarrow> string option) \<Rightarrow> (string \<Rightarrow> bool) \<Rightarrow> fleet \<Rightarrow> collector_row option \<Rightarrow> push_entry \<Rightarrow> push_verdict" where
  "judge_push uuid_of iso_ok fl caller e =
     (if \<not> iso_ok (pe_updated_at e) then Rejected
      else case (case map_of (fl_apps fl) (pe_app_id e) of Some i \<Rightarrow> Some i | None \<Rightarrow> uuid_of (pe_app_id e)) of
        None \<Rightarrow> Rejected
      | Some app \<Rightarrow>
          if (case caller of None \<Rightarrow> False | Some c \<Rightarrow> app \<notin> set (caller_allowed_app_ids fl c)) then Forbidden
          else (case uuid_of (pe_device_id e) of None \<Rightarrow> Rejected | Some d \<Rightarrow> Merged app d))"

definition push_app_cache ::
    "(string \<Rightarrow> string option) \<Rightarrow> (string \<Rightarrow> bool) \<Rightarrow> fleet \<Rightarrow> auth \<Rightarrow> string option \<Rightarrow> string option \<Rightarrow> string option
     \<Rightarrow> push_entry list \<Rightarrow> auth_error + string \<times> push_verdict list" where
  "push_app_cache uuid_of iso_ok fl a header collector_id node_id entries =
     ebind (resolve_collector_group uuid_of fl a collector_id node_id) (\<lambda>g.
     ebind (resolve_caller_collector uuid_of fl a None header collector_id) (\<lambda>caller.
       Inr (g, map (judge_push uuid_of iso_ok fl caller) entries)))"

end
