(* ===== verification/Entitlement_Props.thy ===== *)
theory Entitlement_Props
  imports Entitlement
begin

text \<open>
  Whoever authenticates with the key of a collector acts as that collector, and gets and writes what
  belongs to the work of that collector.
\<close>

section \<open>The caller\<close>

lemma key_identifies:
  assumes "ad_collector_id a = Some cid" "cid \<noteq> []" "uuid_of cid = Some i" "collector_by_id fl i = Some c"
  shows "resolve_caller_collector uuid_of fl a h header hint = Inr (Some c)"
  using assms by (simp add: resolve_caller_collector_def first_named_def nonempty_def List.map_filter_simps)

lemma key_active:
  assumes "ad_collector_id a = Some cid" "cid \<noteq> []" "uuid_of cid = Some i" "collector_by_id fl i = Some c"
  shows "require_active_collector uuid_of fl a = (if co_status c = ''ACTIVE'' then Inr () else Inl (Http 403 ''approval required''))"
  using assms by (simp add: require_active_collector_def nonempty_def)

section \<open>Two views of ownership\<close>

text \<open>Ids are primary keys and the devices of assignments exist.\<close>

definition fleet_ok :: "fleet \<Rightarrow> bool" where
  "fleet_ok fl \<longleftrightarrow> distinct (map as_id (fl_assignments fl)) \<and>
     (\<forall>a \<in> set (fl_assignments fl). as_device_id a \<noteq> None \<longrightarrow> device_of fl a \<noteq> None)"

lemma assignment_by_id_row:
  "fleet_ok fl \<Longrightarrow> a \<in> set (fl_assignments fl) \<Longrightarrow> assignment_by_id fl (as_id a) = Some a"
  unfolding assignment_by_id_def fleet_ok_def
  by (auto simp: find_Some_iff in_set_conv_nth distinct_conv_nth)

lemma owned_in_scope:
  assumes "fleet_ok fl" "a \<in> set (owned_assignments fl c)"
  shows "a \<in> set (fl_assignments fl)" "caller_owns_assignment fl c (as_id a)"
proof -
  show a: "a \<in> set (fl_assignments fl)" using assms(2) by (auto simp: owned_assignments_def)
  have dev: "as_device_id a \<noteq> None \<Longrightarrow> device_of fl a \<noteq> None" using assms(1) a by (simp add: fleet_ok_def)
  show "caller_owns_assignment fl c (as_id a)"
    using assms(2) dev assignment_by_id_row [OF assms(1) a]
    by (auto simp: caller_owns_assignment_def owned_assignments_def in_group_def split: option.splits)
qed

text \<open>Where a credential is named.\<close>

definition refers_to :: "(string \<Rightarrow> string option) \<Rightarrow> fleet \<Rightarrow> assignment_row \<Rightarrow> string \<Rightarrow> bool" where
  "refers_to uuid_of fl a cred \<longleftrightarrow> as_credential_id a = Some cred \<or> (as_id a, cred) \<in> set (fl_overrides fl) \<or>
     (\<exists>d \<in> set (fl_devices fl). as_device_id a = Some (fd_id d) \<and> cred \<in> set (device_credential_ids uuid_of d))"

lemma map_filter_set: "x \<in> set (List.map_filter f xs) \<longleftrightarrow> (\<exists>y \<in> set xs. f y = Some x)"
  by (induction xs) (auto simp: List.map_filter_simps split: option.split)

lemma allowed_credentials_iff:
  "name \<in> set (caller_allowed_credentials uuid_of fl c) \<longleftrightarrow>
   (\<exists>r \<in> set (fl_credentials fl). cr_name r = name \<and> (\<exists>a \<in> set (owned_assignments fl c). refers_to uuid_of fl a (cr_id r)))"
proof -
  have "i \<in> set (List.map_filter as_credential_id os @ map snd (filter (\<lambda>(j, _). j \<in> set (map as_id os)) (fl_overrides fl)) @
      concat (map (device_credential_ids uuid_of) (filter (\<lambda>d. fd_id d \<in> set (List.map_filter as_device_id os)) (fl_devices fl))))
    \<longleftrightarrow> (\<exists>a \<in> set os. refers_to uuid_of fl a i)" for i os
    by (auto simp: map_filter_set refers_to_def image_iff split_beta) (force+)?
  then show ?thesis unfolding caller_allowed_credentials_def Let_def by (auto simp: image_iff)
qed


text \<open>
  For a collector in a group the views of ownership agree: an assignment that is pinned, or whose
  device is in a group, is in the scope of the credentials exactly if its results are accepted, and
  the apps whose cache may be pushed are exactly those of the assignments in scope.
\<close>

theorem ownership_views_agree:
  assumes "fleet_ok fl" "co_group_id c = Some g" "w \<in> set (fl_assignments fl)"
    and "as_collector_id w \<noteq> None \<or> (\<exists>d. device_of fl w = Some d \<and> fd_group_id d \<noteq> None)"
  shows "(w \<in> set (owned_assignments fl c) \<longleftrightarrow> caller_owns_assignment fl c (as_id w)) \<and>
    set (caller_allowed_app_ids fl c) = as_app_id ` set (owned_assignments fl c)"
proof
  have "as_device_id w = None \<Longrightarrow> device_of fl w = None" by (simp add: device_of_def)
  then show "w \<in> set (owned_assignments fl c) \<longleftrightarrow> caller_owns_assignment fl c (as_id w)"
    using assms(2-4) assignment_by_id_row [OF assms(1,3)]
    by (auto simp: owned_assignments_def caller_owns_assignment_def in_group_def split: option.splits)
  show "set (caller_allowed_app_ids fl c) = as_app_id ` set (owned_assignments fl c)"
    using assms(2) by (auto simp: caller_allowed_app_ids_def owned_assignments_def)
qed


section \<open>Where the views differ\<close>

text \<open>
  Any user of the web interface, whatever the role, reads any credential: the endpoint falls back to the
  cookie, such a request has no collector, and without strict mode it is let through.
\<close>

lemma any_user_reads_credentials:
  assumes "ad_collector_id a = None"
  shows "get_credential uuid_of decrypt False fl a None None name = read_credential decrypt fl name"
  using assms
  by (simp add: get_credential_def require_active_collector_def resolve_caller_collector_def first_named_def nonempty_def List.map_filter_simps)

text \<open>The results of an unpinned assignment without a device are taken from a grouped collector, its credential is not given.\<close>

lemma host_unbound_without_credential:
  assumes "fleet_ok fl" "w \<in> set (fl_assignments fl)" "as_collector_id w = None" "as_device_id w = None" "co_group_id c = Some g"
  shows "caller_owns_assignment fl c (as_id w)" "w \<notin> set (owned_assignments fl c)"
  using assms assignment_by_id_row [OF assms(1,2)]
  by (simp_all add: caller_owns_assignment_def owned_assignments_def in_group_def device_of_def)

text \<open>A collector without a group is in scope for the credentials of every unpinned assignment, but may push the cache of none.\<close>

lemma ungrouped_views_differ:
  assumes "w \<in> set (fl_assignments fl)" "as_collector_id w = None" "co_group_id c = None"
  shows "w \<in> set (owned_assignments fl c)"
    "as_app_id w \<in> set (caller_allowed_app_ids fl c) \<longleftrightarrow>
     (\<exists>x \<in> set (fl_assignments fl). as_app_id x = as_app_id w \<and> as_collector_id x = Some (co_id c))"
  using assms by (auto simp: owned_assignments_def caller_allowed_app_ids_def image_iff)

section \<open>A small fleet\<close>

definition demo_fleet :: fleet where
  "demo_fleet = \<lparr>fl_collectors = [\<lparr>co_id = ''c1'', co_hostname = Some ''h1'', co_status = ''ACTIVE'', co_group_id = Some ''g1''\<rparr>],
     fl_assignments = [\<lparr>as_id = ''a1'', as_app_id = ''ping'', as_collector_id = None, as_device_id = Some ''d1'', as_credential_id = None\<rparr>,
       \<lparr>as_id = ''a2'', as_app_id = ''snmp'', as_collector_id = Some ''c2'', as_device_id = Some ''d1'', as_credential_id = Some ''k2''\<rparr>],
     fl_devices = [\<lparr>fd_id = ''d1'', fd_group_id = Some ''g1'', fd_credentials = JObj [(''snmp'', JStr ''k1'')]\<rparr>],
     fl_overrides = [], fl_credentials = [\<lparr>cr_id = ''k1'', cr_name = ''public'', cr_type = ''snmp'', cr_secret = ''s''\<rparr>,
       \<lparr>cr_id = ''k2'', cr_name = ''root'', cr_type = ''ssh'', cr_secret = ''s''\<rparr>], fl_apps = [(''ping'', ''ping'')]\<rparr>"

definition demo_caller :: auth where
  "demo_caller = \<lparr>ad_auth_type = ''collector_api_key'', ad_key_type = None, ad_user_id = None, ad_username = None, ad_role = None,
     ad_role_id = None, ad_tenant_ids = None, ad_permissions = None, ad_collector_id = Some ''c1'', ad_scopes = None\<rparr>"

definition demo_collector :: collector_row where
  "demo_collector = \<lparr>co_id = ''c1'', co_hostname = Some ''h1'', co_status = ''ACTIVE'', co_group_id = Some ''g1''\<rparr>"

lemma demo_fleet_ok: "fleet_ok demo_fleet"
  by (simp add: fleet_ok_def demo_fleet_def device_of_def)

lemma demo_caller_is: "ad_collector_id demo_caller = Some ''c1''" "''c1'' \<noteq> []" "collector_by_id demo_fleet ''c1'' = Some demo_collector"
  by (simp_all add: demo_caller_def demo_fleet_def demo_collector_def collector_by_id_def)

lemma demo_fetch:
  "get_credential Some (\<lambda>s. Some (JStr s)) False demo_fleet demo_caller None None ''public'' =
   Inr (\<lparr>cr_id = ''k1'', cr_name = ''public'', cr_type = ''snmp'', cr_secret = ''s''\<rparr>, JStr ''s'')"
  "get_credential Some (\<lambda>s. Some (JStr s)) False demo_fleet demo_caller None None ''root'' = Inl (Http 404 ''Credential not found'')"
  by code_simp+


theorem ownership_views_agree_witness:
  "set (caller_allowed_app_ids demo_fleet demo_collector) = as_app_id ` set (owned_assignments demo_fleet demo_collector)"
  using ownership_views_agree [OF demo_fleet_ok, of demo_collector "''g1''"
      "\<lparr>as_id = ''a1'', as_app_id = ''ping'', as_collector_id = None, as_device_id = Some ''d1'', as_credential_id = None\<rparr>"]
  by (simp add: demo_collector_def demo_fleet_def device_of_def)

lemma demo_writes:
  "submit_results Some False demo_fleet demo_caller ''h1'' None [''a1'', ''a2'', ''discovery-d1''] = Inr [Taken ''a1'', Unauthorised, Discovery ''d1'']"
  "push_app_cache Some (\<lambda>_. True) demo_fleet demo_caller None None None
     [\<lparr>pe_app_id = ''ping'', pe_device_id = ''d1'', pe_updated_at = ''t''\<rparr>, \<lparr>pe_app_id = ''snmp'', pe_device_id = ''d1'', pe_updated_at = ''t''\<rparr>] =
   Inr (''g1'', [Merged ''ping'' ''d1'', Forbidden])"
  by code_simp+


end
