(* ===== verification/Collector_Lifecycle.thy ===== *)
theory Collector_Lifecycle
  imports Access Entitlement Job_Ring
begin

text \<open>
  The life of a collector at central: registration tokens (\<open>registration_tokens/router.py\<close>), groups
  (\<open>collector_groups/router.py\<close>), registration, provisioning, approval, rejection, heartbeat, update
  and deletion (\<open>collectors/router.py\<close>, the heartbeat of \<open>collector_api/router.py\<close>), and the health check
  of the scheduler (\<open>scheduler/tasks.py\<close>).

  A request is one transaction: \<open>Inl\<close> is an exception, after which the tables are as before.  Its fields
  are as the validation of the request leaves them, ids that it has validated are canonical.  Random
  ids, keys and codes are arguments.  Times are seconds; a request sees one time.  An empty JSON column
  is \<open>JNull\<close>; the types of text columns that take values of a JSON object are not checked.  The column \<open>hostname\<close> may be null, but both places that make a collector fill it and none
  clears it.
\<close>

section \<open>The tables\<close>

record collector =
  cl_id :: string
  cl_name :: string
  cl_hostname :: string
  cl_ip_addresses :: json
  cl_os_info :: json
  cl_labels :: json
  cl_status :: string
  cl_config_version :: nat
  cl_last_seen_at :: "int option"
  cl_updated_at :: int
  cl_cluster_id :: "string option"
  cl_group_id :: "string option"
  cl_reported_peer_states :: "(string, json) dict"
  cl_load_score :: pyfloat
  cl_effective_load :: pyfloat
  cl_total_jobs :: int
  cl_worker_count :: int
  cl_deadline_miss_rate :: pyfloat
  cl_load_updated_at :: "int option"
  cl_fingerprint :: "string option"
  cl_approved_at :: "int option"
  cl_approved_by :: "string option"
  cl_rejected_reason :: "string option"
  cl_log_level_filter :: string

record collector_group =
  gr_id :: string
  gr_name :: string
  gr_description :: "string option"
  gr_weight_snapshot :: "weights option"

record registration_token =
  rt_id :: string
  rt_name :: string
  rt_token_hash :: string
  rt_short_code :: "string option"
  rt_one_time :: bool
  rt_used :: bool
  rt_cluster_id :: "string option"
  rt_expires_at :: "int option"

record host_device =
  hd_id :: string
  hd_name :: string
  hd_address :: string
  hd_category :: string
  hd_collector_id :: "string option"
  hd_group_id :: "string option"

text \<open>An assignment with the name of its app and the text of its version, which its query joins.\<close>

record fleet_assignment =
  fa_id :: string
  fa_app_id :: string
  fa_app_name :: string
  fa_app_version :: string
  fa_collector_id :: "string option"
  fa_device_id :: "string option"
  fa_enabled :: bool
  fa_schedule_type :: string
  fa_schedule_value :: string
  fa_config :: "(string, json) dict"
  fa_resource_limits :: json
  fa_avg_execution_time :: "pyfloat option"

record system_version =
  sv_node_hostname :: string
  sv_node_role :: string
  sv_node_ip :: string
  sv_monctl_version :: json
  sv_os_version :: json
  sv_kernel_version :: json
  sv_python_version :: json
  sv_reboot_required :: json
  sv_last_reported_at :: int

record registry =
  rg_collectors :: "collector list"
  rg_groups :: "collector_group list"
  rg_tokens :: "registration_token list"
  rg_clusters :: "string list"
  rg_devices :: "host_device list"
  rg_assignments :: "fleet_assignment list"
  rg_versions :: "system_version list"
  rg_credentials :: "vault_row list"
  rg_auth :: auth_db

section \<open>Queries and updates\<close>

text \<open>\<open>scalar_one_or_none\<close> where no unique column keeps the result small.\<close>

fun scalar_one_or_none :: "'a list \<Rightarrow> auth_error + 'a option" where
  "scalar_one_or_none [] = Inr None"
| "scalar_one_or_none [x] = Inr (Some x)"
| "scalar_one_or_none (x # y # zs) = Inl (UncaughtError ''MultipleResultsFound'')"

definition collectors_of_host :: "string \<Rightarrow> registry \<Rightarrow> collector list" where
  "collectors_of_host h s = filter (\<lambda>c. cl_hostname c = h) (rg_collectors s)"

definition get_collector :: "string \<Rightarrow> registry \<Rightarrow> collector option" where
  "get_collector i s = find (\<lambda>c. cl_id c = i) (rg_collectors s)"

definition get_group :: "string \<Rightarrow> registry \<Rightarrow> collector_group option" where
  "get_group i s = find (\<lambda>g. gr_id g = i) (rg_groups s)"

definition map_collectors :: "(collector \<Rightarrow> bool) \<Rightarrow> (collector \<Rightarrow> collector) \<Rightarrow> registry \<Rightarrow> registry" where
  "map_collectors P f s = s\<lparr>rg_collectors := map (\<lambda>c. if P c then f c else c) (rg_collectors s)\<rparr>"

definition map_groups :: "(collector_group \<Rightarrow> bool) \<Rightarrow> (collector_group \<Rightarrow> collector_group) \<Rightarrow> registry \<Rightarrow> registry" where
  "map_groups P f s = s\<lparr>rg_groups := map (\<lambda>g. if P g then f g else g) (rg_groups s)\<rparr>"

definition clear_snapshot :: "string \<Rightarrow> registry \<Rightarrow> registry" where
  "clear_snapshot i = map_groups (\<lambda>g. gr_id g = i) (\<lambda>g. g\<lparr>gr_weight_snapshot := None\<rparr>)"

text \<open>The rows of the API keys of a collector.\<close>

definition owned_by :: "string \<Rightarrow> api_key \<Rightarrow> bool" where
  "owned_by i k \<longleftrightarrow> ak_collector_id k = Some i"

definition keys_of_collector :: "string \<Rightarrow> registry \<Rightarrow> string list" where
  "keys_of_collector i s = map fst (filter (\<lambda>(h, k). owned_by i k) (db_api_keys (rg_auth s)))"

definition with_keys :: "((string, api_key) dict \<Rightarrow> (string, api_key) dict) \<Rightarrow> registry \<Rightarrow> registry" where
  "with_keys f s = s\<lparr>rg_auth := (rg_auth s)\<lparr>db_api_keys := f (db_api_keys (rg_auth s))\<rparr>\<rparr>"

definition drop_keys :: "string \<Rightarrow> registry \<Rightarrow> registry" where
  "drop_keys i = with_keys (filter (\<lambda>(h, k). \<not> owned_by i k))"

definition collector_key :: "string \<Rightarrow> api_key" where
  "collector_key i =
     \<lparr>ak_key_type = ''collector'', ak_collector_id = Some i, ak_scopes = JArr [JStr ''collector:*''], ak_expires_at = None,
      ak_user_id = None\<rparr>"

definition add_key :: "string \<Rightarrow> string \<Rightarrow> registry \<Rightarrow> auth_error + registry" where
  "add_key h i s =
     (if h \<in> set (dict_keys (db_api_keys (rg_auth s))) then Inl (UncaughtError ''IntegrityError'')
      else Inr (with_keys (\<lambda>ks. ks @ [(h, collector_key i)]) s))"

text \<open>An insert into \<open>collectors\<close>: the primary key, the unique name, the foreign key and the widths of the columns.\<close>

definition insert_collector :: "collector \<Rightarrow> registry \<Rightarrow> auth_error + registry" where
  "insert_collector c s =
     (if 255 < length (cl_hostname c) \<or> (case cl_fingerprint c of None \<Rightarrow> False | Some f \<Rightarrow> 64 < length f)
      then Inl (UncaughtError ''DBAPIError'')
      else if cl_id c \<in> set (map cl_id (rg_collectors s)) \<or> cl_name c \<in> set (map cl_name (rg_collectors s)) \<or>
          (case cl_cluster_id c of None \<Rightarrow> False | Some k \<Rightarrow> k \<notin> set (rg_clusters s))
      then Inl (UncaughtError ''IntegrityError'')
      else Inr (s\<lparr>rg_collectors := rg_collectors s @ [c]\<rparr>))"

definition new_collector :: "string \<Rightarrow> string \<Rightarrow> int \<Rightarrow> collector" where
  "new_collector i hostname now =
     \<lparr>cl_id = i, cl_name = hostname, cl_hostname = hostname, cl_ip_addresses = JNull, cl_os_info = JNull, cl_labels = JObj [],
      cl_status = ''PENDING'', cl_config_version = 0, cl_last_seen_at = Some now, cl_updated_at = now, cl_cluster_id = None,
      cl_group_id = None, cl_reported_peer_states = [], cl_load_score = Fin 0, cl_effective_load = Fin 0, cl_total_jobs = 0,
      cl_worker_count = 0, cl_deadline_miss_rate = Fin 0, cl_load_updated_at = None, cl_fingerprint = None,
      cl_approved_at = None, cl_approved_by = None, cl_rejected_reason = None, cl_log_level_filter = ''INFO''\<rparr>"

section \<open>Registration tokens\<close>

fun free_code :: "string list \<Rightarrow> registry \<Rightarrow> string option" where
  "free_code [] s = None"
| "free_code (c # cs) s = (if Some c \<in> set (map rt_short_code (rg_tokens s)) then free_code cs s else Some c)"

text \<open>\<open>codes\<close> are the random codes in the order they are drawn; ten are tried.\<close>

definition create_registration_token ::
    "(string \<Rightarrow> string) \<Rightarrow> string list \<Rightarrow> string \<Rightarrow> string \<Rightarrow> string \<Rightarrow> bool \<Rightarrow> string option \<Rightarrow> int option \<Rightarrow> registry
     \<Rightarrow> auth_error + registration_token \<times> registry" where
  "create_registration_token hash codes i raw name one_time cluster_id expires s =
     (case free_code (take 10 codes) s of None \<Rightarrow> Inl (Http 500 ''Could not generate unique registration code'')
      | Some code \<Rightarrow>
          let t = \<lparr>rt_id = i, rt_name = name, rt_token_hash = hash raw, rt_short_code = Some code, rt_one_time = one_time,
                   rt_used = False, rt_cluster_id = cluster_id, rt_expires_at = expires\<rparr>
          in if i \<in> set (map rt_id (rg_tokens s)) \<or> hash raw \<in> set (map rt_token_hash (rg_tokens s)) \<or>
                (case cluster_id of None \<Rightarrow> False | Some k \<Rightarrow> k \<notin> set (rg_clusters s))
             then Inl (UncaughtError ''IntegrityError'')
             else Inr (t, s\<lparr>rg_tokens := rg_tokens s @ [t]\<rparr>))"

definition delete_registration_token :: "(string \<Rightarrow> string option) \<Rightarrow> string \<Rightarrow> registry \<Rightarrow> auth_error + unit \<times> registry" where
  "delete_registration_token uuid_of i s =
     (case uuid_of i of None \<Rightarrow> Inl (UncaughtError ''ValueError'')
      | Some i \<Rightarrow>
          if i \<notin> set (map rt_id (rg_tokens s)) then Inl (Http 404 ''Token not found'')
          else Inr ((), s\<lparr>rg_tokens := filter (\<lambda>t. rt_id t \<noteq> i) (rg_tokens s)\<rparr>))"

section \<open>Registration\<close>

record register_request =
  rq_hostname :: string
  rq_registration_token :: "string option"
  rq_registration_code :: "string option"
  rq_os_info :: json
  rq_ip_addresses :: json
  rq_labels :: json
  rq_cluster_id :: "string option"
  rq_fingerprint :: "string option"

definition find_registration_token :: "(string \<Rightarrow> string) \<Rightarrow> register_request \<Rightarrow> registry \<Rightarrow> registration_token option" where
  "find_registration_token hash req s =
     (case nonempty (rq_registration_code req) of
        Some code \<Rightarrow> find (\<lambda>t. rt_short_code t = Some (upper (strip code))) (rg_tokens s)
      | None \<Rightarrow>
     (case nonempty (rq_registration_token req) of
        Some raw \<Rightarrow> find (\<lambda>t. rt_token_hash t = hash raw) (rg_tokens s)
      | None \<Rightarrow> None))"

text \<open>
  Registration reads the token and the collector of the hostname, and then writes.  The two halves are
  apart because other requests may come in between: no lock is held.
\<close>

definition register_read ::
    "(string \<Rightarrow> string) \<Rightarrow> int \<Rightarrow> register_request \<Rightarrow> registry \<Rightarrow> auth_error + registration_token \<times> collector option" where
  "register_read hash now req s =
     (case find_registration_token hash req s of None \<Rightarrow> Inl (Http 401 ''Invalid registration code'')
      | Some t \<Rightarrow>
          if rt_one_time t \<and> rt_used t then Inl (Http 401 ''Registration token already used'')
          else if (case rt_expires_at t of None \<Rightarrow> False | Some e \<Rightarrow> e < now) then Inl (Http 401 ''Registration token expired'')
          else ebind (scalar_one_or_none (collectors_of_host (rq_hostname req) s)) (\<lambda>found. Inr (t, found)))"

definition reset_collector :: "int \<Rightarrow> register_request \<Rightarrow> collector \<Rightarrow> collector" where
  "reset_collector now req c =
     c\<lparr>cl_ip_addresses := rq_ip_addresses req, cl_os_info := rq_os_info req, cl_labels := rq_labels req,
       cl_status := ''PENDING'', cl_fingerprint := rq_fingerprint req, cl_approved_at := None, cl_approved_by := None,
       cl_rejected_reason := None, cl_last_seen_at := Some now, cl_updated_at := now\<rparr>"

definition requested_collector :: "string \<Rightarrow> int \<Rightarrow> register_request \<Rightarrow> registration_token \<Rightarrow> collector" where
  "requested_collector i now req t =
     (new_collector i (rq_hostname req) now)
       \<lparr>cl_ip_addresses := rq_ip_addresses req, cl_os_info := rq_os_info req, cl_labels := rq_labels req,
        cl_cluster_id := (case rq_cluster_id req of None \<Rightarrow> rt_cluster_id t | Some k \<Rightarrow> Some k),
        cl_fingerprint := rq_fingerprint req\<rparr>"

definition mark_token_used :: "registration_token \<Rightarrow> registry \<Rightarrow> registry" where
  "mark_token_used t s =
     (if rt_one_time t
      then s\<lparr>rg_tokens := map (\<lambda>u. if rt_id u = rt_id t then u\<lparr>rt_used := True\<rparr> else u) (rg_tokens s)\<rparr> else s)"

definition register_write ::
    "(string \<Rightarrow> string) \<Rightarrow> int \<Rightarrow> string \<Rightarrow> string \<Rightarrow> register_request \<Rightarrow> registration_token \<times> collector option \<Rightarrow> registry
     \<Rightarrow> auth_error + string \<times> registry" where
  "register_write hash now i raw req found s =
     (let t = fst found;
          placed = (case snd found of
              Some c \<Rightarrow>
                if (case rq_fingerprint req of None \<Rightarrow> False | Some f \<Rightarrow> 64 < length f) then Inl (UncaughtError ''DBAPIError'')
                else Inr (cl_id c, drop_keys (cl_id c) (map_collectors (\<lambda>d. cl_id d = cl_id c) (reset_collector now req) s))
            | None \<Rightarrow> ebind (insert_collector (requested_collector i now req t) s) (\<lambda>s. Inr (i, s)))
      in ebind placed (\<lambda>(cid, s).
         ebind (add_key (hash raw) cid s) (\<lambda>s. Inr (cid, mark_token_used t s))))"

definition register_collector ::
    "(string \<Rightarrow> string) \<Rightarrow> int \<Rightarrow> string \<Rightarrow> string \<Rightarrow> register_request \<Rightarrow> registry \<Rightarrow> auth_error + string \<times> registry" where
  "register_collector hash now i raw req s =
     ebind (register_read hash now req s) (\<lambda>found. register_write hash now i raw req found s)"

text \<open>The hashes of the keys that registration and provisioning take out of the cache of API keys.\<close>

definition register_invalidates :: "string \<Rightarrow> registry \<Rightarrow> string list" where
  "register_invalidates hostname s = concat (map (\<lambda>c. keys_of_collector (cl_id c) s) (collectors_of_host hostname s))"

text \<open>The status that a collector may ask for with its own key.\<close>

definition get_registration_status ::
    "auth \<Rightarrow> string \<Rightarrow> registry \<Rightarrow> auth_error + string \<times> string option \<times> string option \<times> string option" where
  "get_registration_status a i s =
     (if ad_collector_id a \<noteq> Some i then Inl (Http 403 ''Collector ID mismatch'')
      else case get_collector i s of None \<Rightarrow> Inl (Http 404 ''Collector not found'')
      | Some c \<Rightarrow> Inr (cl_status c, cl_group_id c, map_option gr_name (Option.bind (cl_group_id c) (\<lambda>g. get_group g s)),
          cl_rejected_reason c))"

section \<open>Administration\<close>

text \<open>The answer of provisioning: the collector, whether it is new, and the revoked hashes.\<close>

definition provision_collector_api_key ::
    "(string \<Rightarrow> string) \<Rightarrow> int \<Rightarrow> string \<Rightarrow> string \<Rightarrow> bool \<Rightarrow> string \<Rightarrow> registry
     \<Rightarrow> auth_error + (string \<times> bool \<times> string list) \<times> registry" where
  "provision_collector_api_key hash now i raw revoke_existing hostname s =
     (if strip hostname = [] then Inl (Http 400 ''hostname is required'')
      else ebind (scalar_one_or_none (collectors_of_host hostname s)) (\<lambda>found.
           ebind (case found of
               Some c \<Rightarrow> Inr (cl_id c, False, s)
             | None \<Rightarrow> ebind (insert_collector (new_collector i hostname now) s) (\<lambda>s. Inr (i, True, s))) (\<lambda>(cid, created, s).
           let revoked = (if revoke_existing then keys_of_collector cid s else []);
               s = (if revoke_existing then drop_keys cid s else s)
           in ebind (add_key (hash raw) cid s) (\<lambda>s. Inr ((cid, created, revoked), s)))))"

definition approve_collector ::
    "(string \<Rightarrow> string option) \<Rightarrow> int \<Rightarrow> auth \<Rightarrow> string \<Rightarrow> string \<Rightarrow> registry \<Rightarrow> auth_error + unit \<times> registry" where
  "approve_collector uuid_of now a i group_id s =
     (case uuid_of i of None \<Rightarrow> Inl (UncaughtError ''ValueError'')
      | Some i \<Rightarrow>
     (case get_collector i s of None \<Rightarrow> Inl (Http 404 ''Collector not found'')
      | Some c \<Rightarrow>
     (case get_group group_id s of None \<Rightarrow> Inl (Http 404 ''Collector group not found'')
      | Some g \<Rightarrow>
          Inr ((), clear_snapshot group_id (map_collectors (\<lambda>d. cl_id d = i)
            (\<lambda>d. d\<lparr>cl_status := ''ACTIVE'', cl_group_id := Some group_id, cl_approved_at := Some now,
              cl_approved_by := Some (case ad_username a of None \<Rightarrow> ''admin'' | Some u \<Rightarrow> u),
              cl_rejected_reason := None, cl_updated_at := now\<rparr>) s)))))"

definition reject_collector ::
    "(string \<Rightarrow> string option) \<Rightarrow> int \<Rightarrow> string \<Rightarrow> string option \<Rightarrow> registry \<Rightarrow> auth_error + unit \<times> registry" where
  "reject_collector uuid_of now i reason s =
     (case uuid_of i of None \<Rightarrow> Inl (UncaughtError ''ValueError'')
      | Some i \<Rightarrow>
     (case get_collector i s of None \<Rightarrow> Inl (Http 404 ''Collector not found'')
      | Some c \<Rightarrow>
          Inr ((), map_collectors (\<lambda>d. cl_id d = i)
            (\<lambda>d. d\<lparr>cl_status := ''REJECTED'', cl_rejected_reason := reason, cl_updated_at := now\<rparr>) s)))"

record update_request =
  uq_name :: "string option"
  uq_group_id :: "string option"
  uq_log_level_filter :: "string option"

definition leave_group :: "string option \<Rightarrow> registry \<Rightarrow> registry" where
  "leave_group g s = (case g of None \<Rightarrow> s | Some g \<Rightarrow> clear_snapshot g s)"

definition update_collector ::
    "(string \<Rightarrow> string option) \<Rightarrow> int \<Rightarrow> string \<Rightarrow> update_request \<Rightarrow> registry \<Rightarrow> auth_error + unit \<times> registry" where
  "update_collector uuid_of now i req s =
     (case uuid_of i of None \<Rightarrow> Inl (UncaughtError ''ValueError'')
      | Some i \<Rightarrow>
     (case get_collector i s of None \<Rightarrow> Inl (Http 404 ''Collector not found'')
      | Some c \<Rightarrow>
          let name = (case uq_name req of None \<Rightarrow> cl_name c | Some n \<Rightarrow> n);
              level = (case uq_log_level_filter req of None \<Rightarrow> cl_log_level_filter c | Some l \<Rightarrow> l)
          in ebind (case uq_group_id req of
                 None \<Rightarrow> Inr (cl_group_id c, s)
               | Some g \<Rightarrow>
                   let s = leave_group (cl_group_id c) s
                   in if g = [] then Inr (None, s)
                      else case get_group g s of None \<Rightarrow> Inl (Http 404 ''Collector group not found'')
                           | Some _ \<Rightarrow> Inr (Some g, clear_snapshot g s)) (\<lambda>(group, s).
             if name \<in> set (map cl_name (filter (\<lambda>d. cl_id d \<noteq> i) (rg_collectors s))) then Inl (UncaughtError ''IntegrityError'')
             else Inr ((), map_collectors (\<lambda>d. cl_id d = i)
               (\<lambda>d. d\<lparr>cl_name := name, cl_log_level_filter := level, cl_group_id := group, cl_updated_at := now\<rparr>) s))))"

text \<open>
  Deletion (the tables outside of this theory have no rows that refer to collectors).  The relationships of the class have no cascade, so the ORM sets \<open>collector_id\<close> of the
  assignments and API keys to null; devices have no relationship, and their foreign key stops it.
\<close>

definition disown :: "string \<Rightarrow> string option \<Rightarrow> string option" where
  "disown i v = (if v = Some i then None else v)"

definition delete_collector :: "(string \<Rightarrow> string option) \<Rightarrow> string \<Rightarrow> registry \<Rightarrow> auth_error + unit \<times> registry" where
  "delete_collector uuid_of i s =
     (case uuid_of i of None \<Rightarrow> Inl (UncaughtError ''ValueError'')
      | Some i \<Rightarrow>
     (case get_collector i s of None \<Rightarrow> Inl (Http 404 ''Collector not found'')
      | Some c \<Rightarrow>
          if Some i \<in> set (map hd_collector_id (rg_devices s)) then Inl (UncaughtError ''IntegrityError'')
          else Inr ((), with_keys (map (\<lambda>(h, k). (h, k\<lparr>ak_collector_id := disown i (ak_collector_id k)\<rparr>)))
            (s\<lparr>rg_collectors := filter (\<lambda>d. cl_id d \<noteq> i) (rg_collectors s),
               rg_assignments := map (\<lambda>a. a\<lparr>fa_collector_id := disown i (fa_collector_id a)\<rparr>) (rg_assignments s)\<rparr>))))"

section \<open>Groups\<close>

definition create_collector_group :: "string \<Rightarrow> string \<Rightarrow> string option \<Rightarrow> registry \<Rightarrow> auth_error + unit \<times> registry" where
  "create_collector_group i name description s =
     (if name \<in> set (map gr_name (rg_groups s)) then Inl (Http 409 ''Collector group already exists'')
      else if i \<in> set (map gr_id (rg_groups s)) then Inl (UncaughtError ''IntegrityError'')
      else Inr ((), s\<lparr>rg_groups := rg_groups s @
        [\<lparr>gr_id = i, gr_name = name, gr_description = description, gr_weight_snapshot = None\<rparr>]\<rparr>))"

definition update_collector_group ::
    "(string \<Rightarrow> string option) \<Rightarrow> string \<Rightarrow> string option \<Rightarrow> string option \<Rightarrow> registry \<Rightarrow> auth_error + nat \<times> registry" where
  "update_collector_group uuid_of i name description s =
     (case uuid_of i of None \<Rightarrow> Inl (UncaughtError ''ValueError'')
      | Some i \<Rightarrow>
     (case get_group i s of None \<Rightarrow> Inl (Http 404 ''Collector group not found'')
      | Some g \<Rightarrow>
          let name' = (case name of None \<Rightarrow> gr_name g | Some n \<Rightarrow> n);
              description' = (case description of None \<Rightarrow> gr_description g | Some d \<Rightarrow> Some d)
          in if name' \<noteq> gr_name g \<and> name' \<in> set (map gr_name (rg_groups s))
             then Inl (Http 409 ''Collector group already exists'')
             else Inr (length (filter (\<lambda>c. cl_group_id c = Some i) (rg_collectors s)),
               map_groups (\<lambda>h. gr_id h = i) (\<lambda>h. h\<lparr>gr_name := name', gr_description := description'\<rparr>) s)))"

definition delete_collector_group :: "(string \<Rightarrow> string option) \<Rightarrow> string \<Rightarrow> registry \<Rightarrow> auth_error + unit \<times> registry" where
  "delete_collector_group uuid_of i s =
     (case uuid_of i of None \<Rightarrow> Inl (UncaughtError ''ValueError'')
      | Some i \<Rightarrow>
     (case get_group i s of None \<Rightarrow> Inl (Http 404 ''Collector group not found'')
      | Some g \<Rightarrow>
          Inr ((), s\<lparr>rg_groups := filter (\<lambda>h. gr_id h \<noteq> i) (rg_groups s),
            rg_collectors := map (\<lambda>c. c\<lparr>cl_group_id := disown i (cl_group_id c)\<rparr>) (rg_collectors s),
            rg_devices := map (\<lambda>d. d\<lparr>hd_group_id := disown i (hd_group_id d)\<rparr>) (rg_devices s)\<rparr>)))"

definition compute_group_health :: "collector list \<Rightarrow> string \<times> string" where
  "compute_group_health cs =
     (let down = filter (\<lambda>c. cl_status c = ''DOWN'') cs; total = length cs
      in if total = 0 then (''empty'', ''No collectors'')
         else if length down = total then (''critical'', ''All '' @ str_nat total @ '' collectors are DOWN'')
         else if down \<noteq> []
         then (''degraded'', str_nat (length down) @ '' DOWN: '' @
                join '', '' (map (\<lambda>c. if cl_hostname c = [] then cl_name c else cl_hostname c) down))
         else (''healthy'', ''All '' @ str_nat total @ '' collectors online''))"

definition list_collector_groups :: "registry \<Rightarrow> (collector_group \<times> nat \<times> string \<times> string) list" where
  "list_collector_groups s =
     map (\<lambda>g. let cs = filter (\<lambda>c. cl_group_id c = Some (gr_id g) \<and> cl_status c \<notin> {''PENDING'', ''REJECTED''}) (rg_collectors s)
              in (g, length cs, compute_group_health cs)) (sort_key gr_name (rg_groups s))"

section \<open>Heartbeats\<close>

text \<open>\<open>dict.get\<close> of a JSON object, and the truth of a JSON value.\<close>

definition jget :: "(string, json) dict \<Rightarrow> string \<Rightarrow> json" where
  "jget d k = dict_get d k JNull"

fun json_truth :: "json \<Rightarrow> bool" where
  "json_truth JNull = False"
| "json_truth (JBool b) = b"
| "json_truth (JInt n) = (n \<noteq> 0)"
| "json_truth (JNum f) = (f \<noteq> Fin 0)"
| "json_truth (JStr s) = (s \<noteq> [])"
| "json_truth (JArr xs) = (xs \<noteq> [])"
| "json_truth (JObj kvs) = (kvs \<noteq> [])"

text \<open>The first hop of \<open>X-Forwarded-For\<close>.\<close>

definition forwarded_ip :: "string \<Rightarrow> string" where
  "forwarded_ip header = strip (hd (split_on (CHR '','') header))"

definition docker_ip :: "string \<Rightarrow> bool" where
  "docker_ip ip \<longleftrightarrow> take 4 ip = ''172.''"

definition report_version :: "int \<Rightarrow> (string, json) dict \<Rightarrow> system_version \<Rightarrow> system_version" where
  "report_version now stats sv =
     (let sv = sv\<lparr>sv_monctl_version := jget stats ''monctl_version'', sv_last_reported_at := now\<rparr>
      in case dict_get stats ''os_info'' (JObj []) of
           JObj info \<Rightarrow> sv\<lparr>sv_os_version := jget info ''os_version'', sv_kernel_version := jget info ''kernel_version'',
                           sv_python_version := jget info ''python_version''\<rparr>
         | _ \<Rightarrow> sv)"

definition store_version :: "int \<Rightarrow> string \<Rightarrow> string \<Rightarrow> (string, json) dict \<Rightarrow> string \<Rightarrow> registry \<Rightarrow> registry" where
  "store_version now header client stats hostname s =
     (let real_ip = (if forwarded_ip header = [] then client else forwarded_ip header);
          old = find (\<lambda>v. sv_node_hostname v = hostname) (rg_versions s);
          sv = (case old of Some v \<Rightarrow> v
                | None \<Rightarrow> \<lparr>sv_node_hostname = hostname, sv_node_role = ''collector'', sv_node_ip = real_ip,
                    sv_monctl_version = JNull, sv_os_version = JNull, sv_kernel_version = JNull, sv_python_version = JNull,
                    sv_reboot_required = JBool False, sv_last_reported_at = now\<rparr>);
          sv = (if docker_ip (sv_node_ip sv) \<and> real_ip \<noteq> [] \<and> \<not> docker_ip real_ip then sv\<lparr>sv_node_ip := real_ip\<rparr> else sv);
          sv = report_version now stats sv
      in case old of
           None \<Rightarrow> s\<lparr>rg_versions := rg_versions s @ [sv]\<rparr>
         | Some _ \<Rightarrow> s\<lparr>rg_versions := map (\<lambda>v. if sv_node_hostname v = hostname then sv else v) (rg_versions s)\<rparr>)"

text \<open>The status after a sign of life.\<close>

definition revived :: "string \<Rightarrow> string" where
  "revived st = (if st \<in> {''PENDING'', ''REJECTED''} then st else ''ACTIVE'')"

definition bump :: "int \<Rightarrow> collector \<Rightarrow> collector" where
  "bump now c = c\<lparr>cl_config_version := Suc (cl_config_version c), cl_updated_at := now\<rparr>"

text \<open>The heartbeat of a collector with its own key: its config version, and whether that has changed.\<close>

definition heartbeat ::
    "int \<Rightarrow> string \<Rightarrow> string \<Rightarrow> auth \<Rightarrow> string \<Rightarrow> nat \<Rightarrow> (string, json) dict \<Rightarrow> registry
     \<Rightarrow> auth_error + (nat \<times> bool) \<times> registry" where
  "heartbeat now header client a i config_version stats s =
     (if ad_collector_id a \<noteq> Some i then Inl (Http 403 ''Collector ID mismatch'')
      else case get_collector i s of None \<Rightarrow> Inl (Http 404 ''Collector not found'')
      | Some c \<Rightarrow>
          let s = map_collectors (\<lambda>d. cl_id d = i)
                (\<lambda>d. d\<lparr>cl_status := revived (cl_status d), cl_last_seen_at := Some now, cl_updated_at := now\<rparr>) s;
              s = (if cl_status c = ''DOWN'' \<and> cl_group_id c \<noteq> None
                   then map_collectors (\<lambda>d. cl_group_id d = cl_group_id c) (bump now) s else s);
              s = (if stats \<noteq> [] then store_version now header client stats (cl_hostname c) s else s);
              version = (case get_collector i s of None \<Rightarrow> 0 | Some d \<Rightarrow> cl_config_version d)
          in Inr ((version, version \<noteq> config_version), s))"

record node_heartbeat =
  nh_node_id :: string
  nh_load_score :: pyfloat
  nh_worker_count :: int
  nh_effective_load :: pyfloat
  nh_deadline_miss_rate :: pyfloat
  nh_total_jobs :: int
  nh_container_states :: "(string, json) dict"
  nh_queue_stats :: "(string, json) dict"
  nh_system_resources :: "(string, json) dict"
  nh_system_stats :: "(string, json) dict"
  nh_job_costs :: "(string, pyfloat) dict"

definition put_state :: "string \<Rightarrow> (string, json) dict \<Rightarrow> (string, json) dict \<Rightarrow> (string, json) dict" where
  "put_state k v states = (if v = [] then states else dict_set k (JObj v) states)"

definition merged_ips :: "string \<Rightarrow> json \<Rightarrow> json" where
  "merged_ips real_ip old =
     (let existing = (case old of JArr xs \<Rightarrow> xs | JObj kvs \<Rightarrow> dict_values kvs | _ \<Rightarrow> [])
      in if real_ip = [] \<or> JStr real_ip \<in> set existing then old else JArr (JStr real_ip # existing))"

definition record_load :: "int \<Rightarrow> string \<Rightarrow> node_heartbeat \<Rightarrow> collector \<Rightarrow> collector" where
  "record_load now header req c =
     c\<lparr>cl_last_seen_at := Some now, cl_status := revived (cl_status c),
       cl_reported_peer_states := put_state ''_system_resources'' (nh_system_resources req)
         (put_state ''_queue_stats'' (nh_queue_stats req)
         (put_state ''_container_states'' (nh_container_states req) (cl_reported_peer_states c))),
       cl_load_score := nh_load_score req, cl_effective_load := nh_effective_load req, cl_total_jobs := nh_total_jobs req,
       cl_worker_count := nh_worker_count req, cl_deadline_miss_rate := nh_deadline_miss_rate req, cl_load_updated_at := Some now,
       cl_ip_addresses := merged_ips (forwarded_ip header) (cl_ip_addresses c)\<rparr>"

definition store_costs :: "(string \<Rightarrow> string option) \<Rightarrow> (string, pyfloat) dict \<Rightarrow> registry \<Rightarrow> registry" where
  "store_costs uuid_of costs s =
     s\<lparr>rg_assignments := fold (\<lambda>(k, v) as. case uuid_of k of None \<Rightarrow> as
         | Some i \<Rightarrow> map (\<lambda>a. if fa_id a = i then a\<lparr>fa_avg_execution_time := Some v\<rparr> else a) as) costs (rg_assignments s)\<rparr>"

text \<open>\<open>new or old\<close>\<close>

definition json_or :: "json \<Rightarrow> json \<Rightarrow> json" where
  "json_or v old = (if json_truth v then v else old)"

definition refresh_version :: "int \<Rightarrow> (string, json) dict \<Rightarrow> (string, json) dict \<Rightarrow> system_version \<Rightarrow> system_version" where
  "refresh_version now stats info sv =
     sv\<lparr>sv_monctl_version := json_or (jget stats ''monctl_version'') (sv_monctl_version sv),
        sv_os_version := json_or (jget info ''os_version'') (sv_os_version sv),
        sv_kernel_version := json_or (jget info ''kernel_version'') (sv_kernel_version sv),
        sv_python_version := json_or (jget info ''python_version'') (sv_python_version sv),
        sv_reboot_required := dict_get stats ''reboot_required'' (sv_reboot_required sv),
        sv_last_reported_at := now\<rparr>"

definition update_version ::
    "int \<Rightarrow> string \<Rightarrow> (string, json) dict \<Rightarrow> string \<Rightarrow> registry \<Rightarrow> auth_error + registry" where
  "update_version now header stats hostname s =
     (let by_ip = (if forwarded_ip header = [] then None
           else find (\<lambda>v. sv_node_ip v = forwarded_ip header \<and> sv_node_role v = ''collector'') (rg_versions s))
      in case (case find (\<lambda>v. sv_node_hostname v = hostname) (rg_versions s) of Some v \<Rightarrow> Some v | None \<Rightarrow> by_ip) of
           None \<Rightarrow> Inr s
         | Some v \<Rightarrow>
             (case (if json_truth (jget stats ''os_info'') then jget stats ''os_info'' else JObj []) of
                JObj info \<Rightarrow> Inr (s\<lparr>rg_versions := map (\<lambda>w. if sv_node_hostname w = sv_node_hostname v
                    then refresh_version now stats info w else w) (rg_versions s)\<rparr>)
              | _ \<Rightarrow> Inl (UncaughtError ''AttributeError'')))"

text \<open>The heartbeat of a cache node, which names itself by its hostname; the answer says whether it is known.\<close>

definition collector_heartbeat ::
    "(string \<Rightarrow> string option) \<Rightarrow> int \<Rightarrow> string \<Rightarrow> node_heartbeat \<Rightarrow> registry \<Rightarrow> auth_error + bool \<times> registry" where
  "collector_heartbeat uuid_of now header req s =
     ebind (scalar_one_or_none (collectors_of_host (nh_node_id req) s)) (\<lambda>found.
       case found of None \<Rightarrow> Inr (False, s)
       | Some c \<Rightarrow>
           let s = map_collectors (\<lambda>d. cl_id d = cl_id c) (record_load now header req) s;
               s = store_costs uuid_of (nh_job_costs req) s
           in if nh_system_stats req = [] then Inr (True, s)
              else ebind (update_version now header (nh_system_stats req) (cl_hostname c) s) (\<lambda>s. Inr (True, s)))"

section \<open>The health check\<close>

definition STALE_SECONDS :: int where "STALE_SECONDS = 90"

definition stale :: "int \<Rightarrow> collector \<Rightarrow> bool" where
  "stale cutoff c \<longleftrightarrow> cl_status c = ''ACTIVE'' \<and> (case cl_last_seen_at c of None \<Rightarrow> False | Some t \<Rightarrow> t < cutoff)"

definition mark_down :: "int \<Rightarrow> collector \<Rightarrow> registry \<Rightarrow> registry" where
  "mark_down now c s =
     (let s = map_collectors (\<lambda>d. cl_id d = cl_id c) (\<lambda>d. d\<lparr>cl_status := ''DOWN'', cl_updated_at := now\<rparr>) s
      in case cl_group_id c of None \<Rightarrow> s
         | Some g \<Rightarrow> clear_snapshot g (map_collectors
             (\<lambda>d. cl_group_id d = Some g \<and> cl_id d \<noteq> cl_id c \<and> cl_status d = ''ACTIVE'') (bump now) s))"

definition health_check :: "int \<Rightarrow> registry \<Rightarrow> registry" where
  "health_check now s = fold (mark_down now) (filter (stale (now - STALE_SECONDS)) (rg_collectors s)) s"


section \<open>The configuration of a collector\<close>

definition credential_prefix :: string where
  "credential_prefix = ''$credential:''"

definition credential_name :: "json \<Rightarrow> string option" where
  "credential_name v =
     (case v of
        JStr t \<Rightarrow> if take (length credential_prefix) t = credential_prefix then Some (drop (length credential_prefix) t) else None
      | _ \<Rightarrow> None)"

text \<open>The decrypted secret of a name, \<open>{}\<close> where there is none; the cache of one request holds what this gives.\<close>

definition secret_of :: "(string \<Rightarrow> (string, json) dict option) \<Rightarrow> registry \<Rightarrow> string \<Rightarrow> (string, json) dict" where
  "secret_of decrypt s name =
     (case find (\<lambda>r. cr_name r = name) (rg_credentials s) of None \<Rightarrow> []
      | Some r \<Rightarrow> (case decrypt (cr_secret r) of None \<Rightarrow> [] | Some d \<Rightarrow> d))"

definition dict_update :: "('k, 'v) dict \<Rightarrow> ('k, 'v) dict \<Rightarrow> ('k, 'v) dict" where
  "dict_update new d = fold (\<lambda>(k, v). dict_set k v) new d"

text \<open>The loop over the keys the dict has at its start; \<open>resolved[key]\<close> can raise.\<close>

fun resolve_references ::
    "(string \<Rightarrow> (string, json) dict) \<Rightarrow> string list \<Rightarrow> (string, json) dict \<Rightarrow> auth_error + (string, json) dict" where
  "resolve_references secret [] resolved = Inr resolved"
| "resolve_references secret (key # ks) resolved =
     (case map_of resolved key of None \<Rightarrow> Inl (UncaughtError ''KeyError'')
      | Some v \<Rightarrow>
     (case credential_name v of None \<Rightarrow> resolve_references secret ks resolved
      | Some name \<Rightarrow>
     (case map_of (secret name) key of
        Some x \<Rightarrow> resolve_references secret ks (dict_set key x resolved)
      | None \<Rightarrow>
          if secret name \<noteq> [] then resolve_references secret ks (dict_update (secret name) (dict_pop key resolved))
          else resolve_references secret ks resolved)))"

definition device_defaults :: "registry \<Rightarrow> fleet_assignment \<Rightarrow> (string, json) dict" where
  "device_defaults s a =
     (case Option.bind (fa_device_id a) (\<lambda>i. find (\<lambda>d. hd_id d = i) (rg_devices s)) of None \<Rightarrow> []
      | Some d \<Rightarrow> [(''host'', JStr (hd_address d)), (''device_name'', JStr (hd_name d)), (''device_category'', JStr (hd_category d))])"

definition resolve_config ::
    "(string \<Rightarrow> (string, json) dict option) \<Rightarrow> registry \<Rightarrow> fleet_assignment \<Rightarrow> auth_error + (string, json) dict" where
  "resolve_config decrypt s a =
     (let resolved = dict_update (fa_config a) (device_defaults s a)
      in resolve_references (secret_of decrypt s) (dict_keys resolved) resolved)"

record config_entry =
  ce_assignment_id :: string
  ce_app_id :: string
  ce_app_name :: string
  ce_app_version :: string
  ce_device_id :: "string option"
  ce_schedule :: "string \<times> string"
  ce_config :: "(string, json) dict"
  ce_resource_limits :: json

definition config_entry_of :: "fleet_assignment \<Rightarrow> (string, json) dict \<Rightarrow> config_entry" where
  "config_entry_of a resolved =
     \<lparr>ce_assignment_id = fa_id a, ce_app_id = fa_app_id a, ce_app_name = fa_app_name a, ce_app_version = fa_app_version a,
      ce_device_id = fa_device_id a, ce_schedule = (fa_schedule_type a, fa_schedule_value a), ce_config = resolved,
      ce_resource_limits = fa_resource_limits a\<rparr>"

fun config_entries ::
    "(string \<Rightarrow> (string, json) dict option) \<Rightarrow> registry \<Rightarrow> fleet_assignment list \<Rightarrow> auth_error + config_entry list" where
  "config_entries decrypt s [] = Inr []"
| "config_entries decrypt s (a # as) =
     ebind (resolve_config decrypt s a) (\<lambda>resolved.
     ebind (config_entries decrypt s as) (\<lambda>es. Inr (config_entry_of a resolved # es)))"

definition live_members :: "int \<Rightarrow> string \<Rightarrow> registry \<Rightarrow> collector list" where
  "live_members now g s =
     sort_key cl_id (filter (\<lambda>c. cl_group_id c = Some g \<and> cl_status c = ''ACTIVE'' \<and>
       (case cl_last_seen_at c of None \<Rightarrow> False | Some t \<Rightarrow> now - STALE_SECONDS \<le> t)) (rg_collectors s))"

definition group_rows :: "string \<Rightarrow> registry \<Rightarrow> fleet_assignment list" where
  "group_rows g s =
     sort_key fa_id (filter (\<lambda>a. fa_collector_id a = None \<and> fa_enabled a \<and>
       (case Option.bind (fa_device_id a) (\<lambda>i. find (\<lambda>d. hd_id d = i) (rg_devices s)) of None \<Rightarrow> False
        | Some d \<Rightarrow> hd_group_id d = Some g)) (rg_assignments s))"

fun position :: "('a \<Rightarrow> bool) \<Rightarrow> 'a list \<Rightarrow> nat option" where
  "position P [] = None"
| "position P (x # xs) = (if P x then Some 0 else map_option Suc (position P xs))"

definition group_share :: "int \<Rightarrow> collector \<Rightarrow> registry \<Rightarrow> fleet_assignment list" where
  "group_share now c s =
     (case cl_group_id c of None \<Rightarrow> []
      | Some g \<Rightarrow>
          let members = live_members now g s
          in case position (\<lambda>d. cl_id d = cl_id c) members of None \<Rightarrow> []
             | Some k \<Rightarrow> map snd (filter (\<lambda>(idx, row). idx mod length members = k) (enumerate 0 (group_rows g s))))"

definition pinned_rows :: "collector \<Rightarrow> registry \<Rightarrow> fleet_assignment list" where
  "pinned_rows c s = filter (\<lambda>a. fa_collector_id a = Some (cl_id c) \<and> fa_enabled a) (rg_assignments s)"

record collector_config =
  cc_config_version :: nat
  cc_assignments :: "config_entry list"
  cc_cluster :: "(string \<times> string option) option"

text \<open>The answer without its constant settings.\<close>

definition get_collector_config ::
    "(string \<Rightarrow> (string, json) dict option) \<Rightarrow> int \<Rightarrow> auth \<Rightarrow> string \<Rightarrow> registry \<Rightarrow> auth_error + collector_config" where
  "get_collector_config decrypt now a i s =
     (if ad_collector_id a \<noteq> Some i then Inl (Http 403 ''Collector ID mismatch'')
      else case get_collector i s of None \<Rightarrow> Inl (Http 404 ''Collector not found'')
      | Some c \<Rightarrow>
          ebind (config_entries decrypt s (pinned_rows c s @ group_share now c s)) (\<lambda>es.
            Inr \<lparr>cc_config_version = cl_config_version c, cc_assignments = es,
                 cc_cluster = map_option (\<lambda>g. (g, map_option gr_name (get_group g s))) (cl_group_id c)\<rparr>))"

section \<open>The jobs of the group\<close>

text \<open>How \<open>GET /jobs\<close> divides the unpinned rows of the caller's group, from the tables.\<close>

definition active_hosts :: "string \<Rightarrow> registry \<Rightarrow> string list" where
  "active_hosts g s =
     map cl_hostname (sort_key cl_hostname (filter (\<lambda>c. cl_group_id c = Some g \<and> cl_status c = ''ACTIVE'') (rg_collectors s)))"

definition group_jobs :: "(string \<Rightarrow> nat) \<Rightarrow> registry \<Rightarrow> ('r \<Rightarrow> string) \<Rightarrow> 'r list \<Rightarrow> collector \<Rightarrow> 'r list" where
  "group_jobs sha s row_id rows c =
     (case cl_group_id c of None \<Rightarrow> rows
      | Some g \<Rightarrow> partition_rows sha (Option.bind (get_group g s) gr_weight_snapshot) (active_hosts g s) (cl_hostname c) row_id rows)"

text \<open>What the guards of the collector API see of the table.\<close>

definition guard_row :: "collector \<Rightarrow> collector_row" where
  "guard_row c = \<lparr>co_id = cl_id c, co_hostname = Some (cl_hostname c), co_status = cl_status c, co_group_id = cl_group_id c\<rparr>"

section \<open>The requests in sequence\<close>

datatype fleet_request =
    CreateToken "string list" string string string bool "string option" "int option"
  | DeleteToken string
  | Register int string string register_request
  | Provision int string string bool string
  | Approve int auth string string
  | Reject int string "string option"
  | Update int string update_request
  | Delete string
  | CreateGroup string string "string option"
  | UpdateGroup string "string option" "string option"
  | DeleteGroup string
  | Heartbeat int string string auth string nat "(string, json) dict"
  | NodeHeartbeat int string node_heartbeat
  | HealthCheck int

fun handle ::
    "(string \<Rightarrow> string) \<Rightarrow> (string \<Rightarrow> string option) \<Rightarrow> fleet_request \<Rightarrow> registry \<Rightarrow> auth_error + registry" where
  "handle hash uuid_of (CreateToken codes i raw name one_time k expires) s =
     map_sum id snd (create_registration_token hash codes i raw name one_time k expires s)"
| "handle hash uuid_of (DeleteToken i) s = map_sum id snd (delete_registration_token uuid_of i s)"
| "handle hash uuid_of (Register now i raw req) s = map_sum id snd (register_collector hash now i raw req s)"
| "handle hash uuid_of (Provision now i raw revoke hostname) s =
     map_sum id snd (provision_collector_api_key hash now i raw revoke hostname s)"
| "handle hash uuid_of (Approve now a i g) s = map_sum id snd (approve_collector uuid_of now a i g s)"
| "handle hash uuid_of (Reject now i reason) s = map_sum id snd (reject_collector uuid_of now i reason s)"
| "handle hash uuid_of (Update now i req) s = map_sum id snd (update_collector uuid_of now i req s)"
| "handle hash uuid_of (Delete i) s = map_sum id snd (delete_collector uuid_of i s)"
| "handle hash uuid_of (CreateGroup i name d) s = map_sum id snd (create_collector_group i name d s)"
| "handle hash uuid_of (UpdateGroup i name d) s = map_sum id snd (update_collector_group uuid_of i name d s)"
| "handle hash uuid_of (DeleteGroup i) s = map_sum id snd (delete_collector_group uuid_of i s)"
| "handle hash uuid_of (Heartbeat now header client a i v stats) s = map_sum id snd (heartbeat now header client a i v stats s)"
| "handle hash uuid_of (NodeHeartbeat now header req) s = map_sum id snd (collector_heartbeat uuid_of now header req s)"
| "handle hash uuid_of (HealthCheck now) s = Inr (health_check now s)"

text \<open>A request that raises leaves the tables as they were.\<close>

definition fleet_step ::
    "(string \<Rightarrow> string) \<Rightarrow> (string \<Rightarrow> string option) \<Rightarrow> fleet_request \<Rightarrow> registry \<Rightarrow> registry option" where
  "fleet_step hash uuid_of e s = Some (case handle hash uuid_of e s of Inl _ \<Rightarrow> s | Inr s' \<Rightarrow> s')"

text \<open>Central before the first registration: assignments, devices, clusters, credentials and keys are given.\<close>

definition no_collectors :: "registry \<Rightarrow> bool" where
  "no_collectors s \<longleftrightarrow> rg_collectors s = [] \<and> rg_groups s = [] \<and> rg_tokens s = []"


end
