(* ===== verification/Collector_Lifecycle_Props.thy ===== *)
theory Collector_Lifecycle_Props
  imports Collector_Lifecycle
begin

text \<open>
  Lemmas on the life of a collector: what each request may do to the rows of the table, the status
  machine they amount to, the invariant of the registry, and the effect of the health check.
\<close>

section \<open>The status machine\<close>

text \<open>Which collector a request is about, and which change of its status it may make.\<close>

fun concerns :: "(string \<Rightarrow> string option) \<Rightarrow> fleet_request \<Rightarrow> collector \<Rightarrow> bool" where
  "concerns uuid_of (Register now i raw req) c = (cl_hostname c = rq_hostname req)"
| "concerns uuid_of (Approve now a i g) c = (uuid_of i = Some (cl_id c))"
| "concerns uuid_of (Reject now i reason) c = (uuid_of i = Some (cl_id c))"
| "concerns uuid_of (Heartbeat now header client a i v stats) c = (ad_collector_id a = Some (cl_id c))"
| "concerns uuid_of (NodeHeartbeat now header req) c = (cl_hostname c = nh_node_id req)"
| "concerns uuid_of (HealthCheck now) c = stale (now - STALE_SECONDS) c"
| "concerns uuid_of _ c = False"

fun status_edge :: "fleet_request \<Rightarrow> string \<Rightarrow> string \<Rightarrow> bool" where
  "status_edge (Register now i raw req) x y = (y = ''PENDING'')"
| "status_edge (Approve now a i g) x y = (y = ''ACTIVE'')"
| "status_edge (Reject now i reason) x y = (y = ''REJECTED'')"
| "status_edge (Heartbeat now header client a i v stats) x y = (x \<notin> {''PENDING'', ''REJECTED''} \<and> y = ''ACTIVE'')"
| "status_edge (NodeHeartbeat now header req) x y = (x \<notin> {''PENDING'', ''REJECTED''} \<and> y = ''ACTIVE'')"
| "status_edge (HealthCheck now) x y = (x = ''ACTIVE'' \<and> y = ''DOWN'')"
| "status_edge _ x y = False"

definition collector_ok :: "collector \<Rightarrow> bool" where
  "collector_ok c \<longleftrightarrow> cl_status c \<in> {''PENDING'', ''ACTIVE'', ''DOWN'', ''REJECTED''} \<and>
     (cl_status c \<in> {''ACTIVE'', ''DOWN''} \<longrightarrow> cl_approved_at c \<noteq> None \<and> cl_approved_by c \<noteq> None)"

text \<open>A row before and after a request that keeps it.\<close>

definition row_change :: "(string \<Rightarrow> string option) \<Rightarrow> fleet_request \<Rightarrow> collector \<Rightarrow> collector \<Rightarrow> bool" where
  "row_change uuid_of e c c' \<longleftrightarrow> cl_id c' = cl_id c \<and> cl_hostname c' = cl_hostname c \<and>
     (cl_status c' = cl_status c \<or> concerns uuid_of e c \<and> status_edge e (cl_status c) (cl_status c')) \<and>
     (collector_ok c \<longrightarrow> collector_ok c')"

lemma row_change_refl [simp]: "row_change uuid_of e c c"
  by (simp add: row_change_def)

definition rows_kept :: "(string \<Rightarrow> string option) \<Rightarrow> fleet_request \<Rightarrow> registry \<Rightarrow> registry \<Rightarrow> bool" where
  "rows_kept uuid_of e s s' \<longleftrightarrow>
     (\<exists>f. rg_collectors s' = map f (rg_collectors s) \<and> (\<forall>c \<in> set (rg_collectors s). row_change uuid_of e c (f c)))"

definition rows_added :: "registry \<Rightarrow> registry \<Rightarrow> bool" where
  "rows_added s s' \<longleftrightarrow>
     (\<exists>c. rg_collectors s' = rg_collectors s @ [c] \<and> cl_id c \<notin> set (map cl_id (rg_collectors s)) \<and>
       cl_hostname c \<notin> set (map cl_hostname (rg_collectors s)) \<and> cl_status c = ''PENDING'' \<and> cl_approved_at c = None)"

definition rows_removed :: "registry \<Rightarrow> registry \<Rightarrow> bool" where
  "rows_removed s s' \<longleftrightarrow> (\<exists>P. rg_collectors s' = filter P (rg_collectors s))"

lemma rows_kept_same: "rg_collectors s' = rg_collectors s \<Longrightarrow> rows_kept uuid_of e s s'"
  unfolding rows_kept_def by (rule exI [of _ "\<lambda>c. c"]) simp

section \<open>Collectors under the updates\<close>

lemma collectors_simps [simp]:
  "rg_collectors (map_collectors P f s) = map (\<lambda>c. if P c then f c else c) (rg_collectors s)"
  "rg_collectors (map_groups Q h s) = rg_collectors s"
  "rg_collectors (clear_snapshot g s) = rg_collectors s"
  "rg_collectors (leave_group v s) = rg_collectors s"
  "rg_collectors (with_keys kf s) = rg_collectors s"
  "rg_collectors (drop_keys i s) = rg_collectors s"
  "rg_collectors (mark_token_used t s) = rg_collectors s"
  "rg_collectors (store_version now header client stats hostname s) = rg_collectors s"
  "rg_collectors (store_costs uuid_of costs s) = rg_collectors s"
  by (simp_all add: map_collectors_def map_groups_def clear_snapshot_def leave_group_def with_keys_def drop_keys_def
      mark_token_used_def store_version_def store_costs_def Let_def split: option.splits)

lemma add_key_collectors: "add_key h i s = Inr s' \<Longrightarrow> rg_collectors s' = rg_collectors s"
  by (auto simp: add_key_def split: if_splits)

lemma update_version_collectors: "update_version now header stats h s = Inr s' \<Longrightarrow> rg_collectors s' = rg_collectors s"
  by (auto simp: update_version_def Let_def split: option.splits json.splits if_splits)

lemma scalar_one_or_none_Inr:
  "scalar_one_or_none xs = Inr r \<Longrightarrow> (case r of None \<Rightarrow> xs = [] | Some x \<Rightarrow> xs = [x])"
  by (cases xs rule: remdups_adj.cases) auto

lemma host_found:
  assumes "scalar_one_or_none (collectors_of_host h s) = Inr (Some c)"
  shows "c \<in> set (rg_collectors s)" and "cl_hostname c = h"
proof -
  have "collectors_of_host h s = [c]" using scalar_one_or_none_Inr [OF assms] by simp
  then have "c \<in> set (collectors_of_host h s)" by simp
  then show "c \<in> set (rg_collectors s)" "cl_hostname c = h" by (simp_all add: collectors_of_host_def)
qed

lemma host_absent: "scalar_one_or_none (collectors_of_host h s) = Inr None \<Longrightarrow> h \<notin> set (map cl_hostname (rg_collectors s))"
  using scalar_one_or_none_Inr [of "collectors_of_host h s" None] by (auto simp: collectors_of_host_def filter_empty_conv)

lemma insert_collector_Inr:
  assumes "insert_collector c s = Inr s'"
  shows "rg_collectors s' = rg_collectors s @ [c]" and "cl_id c \<notin> set (map cl_id (rg_collectors s))"
    and "cl_name c \<notin> set (map cl_name (rg_collectors s))"
  using assms by (auto simp: insert_collector_def split: if_splits)

lemma get_collector_Some: "get_collector i s = Some c \<Longrightarrow> c \<in> set (rg_collectors s) \<and> cl_id c = i"
  by (auto simp: get_collector_def find_Some_iff)

section \<open>What each request does to the rows\<close>

definition ids_distinct :: "registry \<Rightarrow> bool" where
  "ids_distinct s \<longleftrightarrow> distinct (map cl_id (rg_collectors s))"

lemma same_row: "ids_distinct s \<Longrightarrow> c \<in> set (rg_collectors s) \<Longrightarrow> d \<in> set (rg_collectors s) \<Longrightarrow> cl_id d = cl_id c \<Longrightarrow> d = c"
  by (auto simp: ids_distinct_def distinct_map inj_on_def)

lemma rows_kept_mapI:
  assumes "rg_collectors s' = map (\<lambda>c. if P c then f c else c) (rg_collectors s)"
    and "\<And>c. c \<in> set (rg_collectors s) \<Longrightarrow> P c \<Longrightarrow> row_change uuid_of e c (f c)"
  shows "rows_kept uuid_of e s s'"
  unfolding rows_kept_def using assms by (intro exI [of _ "\<lambda>c. if P c then f c else c"]) simp

lemma register_rows:
  assumes "register_collector hash now i raw req s = Inr (cid, s')" and "ids_distinct s"
  shows "rows_kept uuid_of (Register now i raw req) s s' \<or> rows_added s s'"
proof -
  obtain t found where r: "register_read hash now req s = Inr (t, found)"
      and w: "register_write hash now i raw req (t, found) s = Inr (cid, s')"
    using assms(1) by (auto simp: register_collector_def ebind_def split: sum.splits)
  have f: "scalar_one_or_none (collectors_of_host (rq_hostname req) s) = Inr found"
    using r by (auto simp: register_read_def ebind_def split: option.splits if_splits sum.splits)
  show ?thesis
  proof (cases found)
    case None
    obtain s1 s2 where i: "insert_collector (requested_collector i now req t) s = Inr s1"
        and k: "add_key (hash raw) i s1 = Inr s2" and s': "s' = mark_token_used t s2"
      using w None by (auto simp: register_write_def ebind_def split: sum.splits)
    have "rg_collectors s' = rg_collectors s @ [requested_collector i now req t]"
      using insert_collector_Inr(1) [OF i] add_key_collectors [OF k] s' by simp
    moreover have "rq_hostname req \<notin> set (map cl_hostname (rg_collectors s))" using host_absent f None by simp
    ultimately have "rows_added s s'"
      using insert_collector_Inr(2) [OF i] by (simp add: rows_added_def requested_collector_def new_collector_def)
    then show ?thesis ..
  next
    case (Some c)
    obtain s2 where k: "add_key (hash raw) (cl_id c)
          (drop_keys (cl_id c) (map_collectors (\<lambda>d. cl_id d = cl_id c) (reset_collector now req) s)) = Inr s2"
        and s': "s' = mark_token_used t s2"
      using w Some by (auto simp: register_write_def ebind_def split: sum.splits if_splits)
    have c: "c \<in> set (rg_collectors s)" "cl_hostname c = rq_hostname req" using host_found f Some by simp_all
    have "rg_collectors s' = map (\<lambda>d. if cl_id d = cl_id c then reset_collector now req d else d) (rg_collectors s)"
      using add_key_collectors [OF k] s' by simp
    then have "rows_kept uuid_of (Register now i raw req) s s'"
      by (rule rows_kept_mapI)
        (use c same_row [OF assms(2) c(1)] in \<open>auto simp: row_change_def reset_collector_def collector_ok_def\<close>)
    then show ?thesis ..
  qed
qed

lemma provision_rows:
  assumes "provision_collector_api_key hash now i raw revoke hostname s = Inr (r, s')"
  shows "rg_collectors s' = rg_collectors s \<or> rows_added s s'"
proof -
  obtain found where f: "scalar_one_or_none (collectors_of_host hostname s) = Inr found"
    using assms by (auto simp: provision_collector_api_key_def ebind_def split: sum.splits if_splits)
  show ?thesis
  proof (cases found)
    case (Some c)
    then show ?thesis
      using assms f by (auto simp: provision_collector_api_key_def ebind_def Let_def dest!: add_key_collectors split: sum.splits if_splits)
  next
    case None
    obtain s1 where i: "insert_collector (new_collector i hostname now) s = Inr s1" and s': "rg_collectors s' = rg_collectors s1"
      using assms f None
      by (auto simp: provision_collector_api_key_def ebind_def Let_def dest!: add_key_collectors split: sum.splits if_splits)
    have "hostname \<notin> set (map cl_hostname (rg_collectors s))" using host_absent f None by simp
    then have "rows_added s s'"
      using insert_collector_Inr(1,2) [OF i] s' by (simp add: rows_added_def new_collector_def)
    then show ?thesis ..
  qed
qed

lemma approve_rows: "approve_collector uuid_of now a i g s = Inr (u, s') \<Longrightarrow> rows_kept uuid_of (Approve now a i g) s s'"
  by (rule rows_kept_mapI [where P = "\<lambda>d. uuid_of i = Some (cl_id d)"
        and f = "\<lambda>d. d\<lparr>cl_status := ''ACTIVE'', cl_group_id := Some g, cl_approved_at := Some now,
              cl_approved_by := Some (case ad_username a of None \<Rightarrow> ''admin'' | Some u \<Rightarrow> u),
              cl_rejected_reason := None, cl_updated_at := now\<rparr>"])
    (auto simp: approve_collector_def row_change_def collector_ok_def split: option.splits)

lemma reject_rows: "reject_collector uuid_of now i reason s = Inr (u, s') \<Longrightarrow> rows_kept uuid_of (Reject now i reason) s s'"
  by (rule rows_kept_mapI [where P = "\<lambda>d. uuid_of i = Some (cl_id d)"
        and f = "\<lambda>d. d\<lparr>cl_status := ''REJECTED'', cl_rejected_reason := reason, cl_updated_at := now\<rparr>"])
    (auto simp: reject_collector_def row_change_def collector_ok_def split: option.splits)

lemma update_rows:
  assumes "update_collector uuid_of now i req s = Inr (u, s')"
  shows "rows_kept uuid_of (Update now i req) s s'"
proof -
  obtain name level grp where "rg_collectors s' =
      map (\<lambda>d. if uuid_of i = Some (cl_id d) then
        d\<lparr>cl_name := name, cl_log_level_filter := level, cl_group_id := grp, cl_updated_at := now\<rparr> else d) (rg_collectors s)"
    using assms by (fastforce simp: update_collector_def ebind_def Let_def split: option.splits sum.splits if_splits)
  then show ?thesis by (rule rows_kept_mapI) (simp add: row_change_def collector_ok_def)
qed

lemma delete_rows: "delete_collector uuid_of i s = Inr (u, s') \<Longrightarrow> rows_removed s s'"
  by (auto simp: delete_collector_def rows_removed_def split: option.splits if_splits)

lemma delete_group_rows:
  assumes "delete_collector_group uuid_of i s = Inr (u, s')"
  shows "rows_kept uuid_of (DeleteGroup i) s s'"
proof -
  obtain j where "rg_collectors s' = map (\<lambda>c. if True then c\<lparr>cl_group_id := disown j (cl_group_id c)\<rparr> else c) (rg_collectors s)"
    using assms by (force simp: delete_collector_group_def split: option.splits)
  then show ?thesis by (rule rows_kept_mapI) (simp add: row_change_def collector_ok_def)
qed

lemma row_change_trans:
  assumes "row_change uuid_of e c d" and "row_change uuid_of e d f" and "cl_status f = cl_status d"
  shows "row_change uuid_of e c f"
  using assms by (auto simp: row_change_def)

lemma heartbeat_rows:
  assumes "heartbeat now header client a i v stats s = Inr (r, s')"
  shows "rows_kept uuid_of (Heartbeat now header client a i v stats) s s'"
proof -
  obtain c where c: "get_collector i s = Some c" and a: "ad_collector_id a = Some i"
    using assms by (auto simp: heartbeat_def split: if_splits option.splits)
  let ?beat = "\<lambda>d. if cl_id d = i
     then d\<lparr>cl_status := revived (cl_status d), cl_last_seen_at := Some now, cl_updated_at := now\<rparr> else d"
  let ?bump = "\<lambda>d. if (cl_status c = ''DOWN'' \<and> cl_group_id c \<noteq> None) \<and> cl_group_id d = cl_group_id c then bump now d else d"
  have "rg_collectors s' = map (?bump \<circ> ?beat) (rg_collectors s)"
    using assms c a by (auto simp: heartbeat_def Let_def)
  moreover have "row_change uuid_of (Heartbeat now header client a i v stats) d ((?bump \<circ> ?beat) d)" for d
  proof (rule row_change_trans)
    show "row_change uuid_of (Heartbeat now header client a i v stats) d (?beat d)"
      using a by (auto simp: row_change_def collector_ok_def revived_def)
  qed (simp_all add: row_change_def bump_def collector_ok_def)
  ultimately show ?thesis unfolding rows_kept_def by blast
qed

lemma node_heartbeat_rows:
  assumes "collector_heartbeat uuid_of now header req s = Inr (r, s')" and "ids_distinct s"
  shows "rows_kept uuid_of (NodeHeartbeat now header req) s s'"
proof -
  obtain found where f: "scalar_one_or_none (collectors_of_host (nh_node_id req) s) = Inr found"
    using assms by (auto simp: collector_heartbeat_def ebind_def split: sum.splits)
  show ?thesis
  proof (cases found)
    case None
    then show ?thesis using assms(1) f by (intro rows_kept_same) (simp add: collector_heartbeat_def)
  next
    case (Some c)
    have c: "c \<in> set (rg_collectors s)" "cl_hostname c = nh_node_id req" using host_found f Some by simp_all
    have "rg_collectors s' = map (\<lambda>d. if cl_id d = cl_id c then record_load now header req d else d) (rg_collectors s)"
      using assms(1) f Some
      by (auto simp: collector_heartbeat_def ebind_def Let_def dest!: update_version_collectors split: if_splits sum.splits)
    then show ?thesis
      by (rule rows_kept_mapI)
        (use c same_row [OF assms(2) c(1)] in \<open>auto simp: row_change_def record_load_def collector_ok_def revived_def\<close>)
  qed
qed

section \<open>The health check on the rows\<close>

text \<open>What marking \<open>c\<close> does to a row.\<close>

definition touch :: "int \<Rightarrow> collector \<Rightarrow> collector \<Rightarrow> collector" where
  "touch now c d =
     (if cl_id d = cl_id c then d\<lparr>cl_status := ''DOWN'', cl_updated_at := now\<rparr>
      else if cl_group_id c \<noteq> None \<and> cl_group_id d = cl_group_id c \<and> cl_status d = ''ACTIVE'' then bump now d else d)"

lemma mark_down_rows: "rg_collectors (mark_down now c s) = map (touch now c) (rg_collectors s)"
  by (auto simp: mark_down_def touch_def Let_def split: option.splits)

lemma fold_mark_down_rows:
  "rg_collectors (fold (mark_down now) L s) = map (fold (touch now) L) (rg_collectors s)"
  by (induction L arbitrary: s) (simp_all add: mark_down_rows)

lemma touch_keeps [simp]:
  "cl_id (touch now c d) = cl_id d" "cl_hostname (touch now c d) = cl_hostname d" "cl_group_id (touch now c d) = cl_group_id d"
  "cl_last_seen_at (touch now c d) = cl_last_seen_at d" "cl_approved_at (touch now c d) = cl_approved_at d"
  "cl_approved_by (touch now c d) = cl_approved_by d"
  by (simp_all add: touch_def bump_def)

lemma fold_touch_keeps [simp]:
  "cl_id (fold (touch now) L d) = cl_id d" "cl_hostname (fold (touch now) L d) = cl_hostname d"
  "cl_group_id (fold (touch now) L d) = cl_group_id d" "cl_last_seen_at (fold (touch now) L d) = cl_last_seen_at d"
  "cl_approved_at (fold (touch now) L d) = cl_approved_at d" "cl_approved_by (fold (touch now) L d) = cl_approved_by d"
  by (induction L arbitrary: d) simp_all

lemma fold_touch_idle: "cl_status d \<noteq> ''ACTIVE'' \<Longrightarrow> cl_id d \<notin> set (map cl_id L) \<Longrightarrow> fold (touch now) L d = d"
  by (induction L) (auto simp: touch_def)

lemma fold_touch_stays_down: "cl_status d = ''DOWN'' \<Longrightarrow> cl_status (fold (touch now) L d) = ''DOWN''"
  by (induction L arbitrary: d) (simp_all add: touch_def)

lemma fold_touch_down: "cl_id d \<in> set (map cl_id L) \<Longrightarrow> cl_status (fold (touch now) L d) = ''DOWN''"
proof (induction L arbitrary: d)
  case (Cons c L)
  show ?case
  proof (cases "cl_id d = cl_id c")
    case True
    then have "cl_status (touch now c d) = ''DOWN''" by (simp add: touch_def)
    then show ?thesis by (simp add: fold_touch_stays_down)
  next
    case False
    then show ?thesis using Cons by simp
  qed
qed simp

definition losses :: "collector list \<Rightarrow> collector \<Rightarrow> nat" where
  "losses L d = length (filter (\<lambda>c. cl_group_id c \<noteq> None \<and> cl_group_id c = cl_group_id d) L)"

lemma fold_touch_survivor:
  assumes "cl_status d = ''ACTIVE''" and "cl_id d \<notin> set (map cl_id L)"
  shows "cl_status (fold (touch now) L d) = ''ACTIVE''"
    and "cl_config_version (fold (touch now) L d) = cl_config_version d + losses L d"
  using assms
proof (induction L arbitrary: d)
  case (Cons c L)
  { case 1 then show ?case using Cons.IH(1) [of "touch now c d"] by (simp add: touch_def bump_def) }
  { case 2
    have g: "losses L (touch now c d) = losses L d" by (simp add: losses_def)
    have s: "cl_status (touch now c d) = ''ACTIVE''" using 2 by (simp add: touch_def bump_def)
    show ?case using Cons.IH(2) [of "touch now c d", OF s] 2 g by (auto simp: touch_def bump_def losses_def) }
qed (simp_all add: losses_def)

definition stale_rows :: "int \<Rightarrow> registry \<Rightarrow> collector list" where
  "stale_rows now s = filter (stale (now - STALE_SECONDS)) (rg_collectors s)"

lemma health_check_rows: "rg_collectors (health_check now s) = map (fold (touch now) (stale_rows now s)) (rg_collectors s)"
  by (simp add: health_check_def stale_rows_def fold_mark_down_rows)

lemma stale_by_id:
  assumes "ids_distinct s" and "c \<in> set (rg_collectors s)"
  shows "cl_id c \<in> set (map cl_id (stale_rows now s)) \<longleftrightarrow> stale (now - STALE_SECONDS) c"
  using assms same_row by (fastforce simp: stale_rows_def)

lemma health_check_change:
  assumes "ids_distinct s" and "c \<in> set (rg_collectors s)"
  shows "row_change uuid_of (HealthCheck now) c (fold (touch now) (stale_rows now s) c)"
proof (cases "stale (now - STALE_SECONDS) c")
  case True
  then have "cl_status (fold (touch now) (stale_rows now s) c) = ''DOWN''"
    using stale_by_id [OF assms] by (intro fold_touch_down) blast
  moreover have "cl_status c = ''ACTIVE''" using True by (simp add: stale_def)
  ultimately show ?thesis using True by (simp add: row_change_def collector_ok_def)
next
  case False
  then have n: "cl_id c \<notin> set (map cl_id (stale_rows now s))" using stale_by_id [OF assms] by blast
  then have "cl_status (fold (touch now) (stale_rows now s) c) = cl_status c"
    by (cases "cl_status c = ''ACTIVE''") (simp_all only: fold_touch_survivor(1) fold_touch_idle not_False_eq_True)
  then show ?thesis by (simp add: row_change_def collector_ok_def)
qed

section \<open>Tokens under the requests\<close>

lemma tokens_simps [simp]:
  "rg_tokens (map_collectors P f s) = rg_tokens s"
  "rg_tokens (map_groups Q h s) = rg_tokens s"
  "rg_tokens (clear_snapshot g s) = rg_tokens s"
  "rg_tokens (leave_group v s) = rg_tokens s"
  "rg_tokens (with_keys kf s) = rg_tokens s"
  "rg_tokens (drop_keys i s) = rg_tokens s"
  "rg_tokens (store_version now header client stats hostname s) = rg_tokens s"
  "rg_tokens (store_costs uuid_of costs s) = rg_tokens s"
  "rg_tokens (mark_down now c s) = rg_tokens s"
  by (simp_all add: map_collectors_def map_groups_def clear_snapshot_def leave_group_def with_keys_def drop_keys_def
      store_version_def store_costs_def mark_down_def Let_def split: option.splits)

lemma add_key_tokens: "add_key h i s = Inr s' \<Longrightarrow> rg_tokens s' = rg_tokens s"
  by (auto simp: add_key_def split: if_splits)

lemma insert_collector_tokens: "insert_collector c s = Inr s' \<Longrightarrow> rg_tokens s' = rg_tokens s"
  by (auto simp: insert_collector_def split: if_splits)

lemma update_version_tokens: "update_version now header stats h s = Inr s' \<Longrightarrow> rg_tokens s' = rg_tokens s"
  by (auto simp: update_version_def Let_def split: option.splits json.splits if_splits)

lemma fold_mark_down_tokens [simp]: "rg_tokens (fold (mark_down now) L s) = rg_tokens s"
  by (induction L arbitrary: s) simp_all

definition mark_used :: "string option \<Rightarrow> registration_token \<Rightarrow> registration_token" where
  "mark_used i t = (if i = Some (rt_id t) then t\<lparr>rt_used := True\<rparr> else t)"

lemma mark_used_keeps [simp]:
  "rt_id (mark_used i t) = rt_id t" "rt_one_time (mark_used i t) = rt_one_time t" "rt_used t \<Longrightarrow> rt_used (mark_used i t)"
  by (simp_all add: mark_used_def)

lemma map_mark_used_None [simp]: "map (mark_used None) ts = ts"
  by (induction ts) (simp_all add: mark_used_def)

text \<open>A registration marks the token it was made with.\<close>

lemma register_tokens:
  assumes "register_collector hash now i raw req s = Inr (cid, s')"
  obtains t where "find_registration_token hash req s = Some t" and "\<not> (rt_one_time t \<and> rt_used t)"
    and "rg_tokens s' = map (mark_used (if rt_one_time t then Some (rt_id t) else None)) (rg_tokens s)"
proof -
  obtain t found where r: "register_read hash now req s = Inr (t, found)"
      and w: "register_write hash now i raw req (t, found) s = Inr (cid, s')"
    using assms by (auto simp: register_collector_def ebind_def split: sum.splits)
  obtain s2 where s2: "rg_tokens s2 = rg_tokens s" and s': "s' = mark_token_used t s2"
    using w by (cases found) (auto simp: register_write_def ebind_def dest!: insert_collector_tokens add_key_tokens
      split: sum.splits if_splits)
  have "rg_tokens s' = map (mark_used (if rt_one_time t then Some (rt_id t) else None)) (rg_tokens s)"
    using s2 s' by (auto simp: mark_token_used_def mark_used_def)
  moreover have "find_registration_token hash req s = Some t" "\<not> (rt_one_time t \<and> rt_used t)"
    using r by (auto simp: register_read_def ebind_def split: option.splits if_splits sum.splits)
  ultimately show ?thesis using that by blast
qed

fun created_token :: "fleet_request \<Rightarrow> string option" where
  "created_token (CreateToken codes i raw name one k expires) = Some i"
| "created_token _ = None"

definition tokens_change :: "fleet_request \<Rightarrow> registry \<Rightarrow> registry \<Rightarrow> bool" where
  "tokens_change e s s' \<longleftrightarrow>
     (\<exists>P. rg_tokens s' = filter P (rg_tokens s)) \<or> (\<exists>i. rg_tokens s' = map (mark_used i) (rg_tokens s)) \<or>
     (\<exists>t. rg_tokens s' = rg_tokens s @ [t] \<and> created_token e = Some (rt_id t) \<and> rt_id t \<notin> set (map rt_id (rg_tokens s)))"

lemma tokens_unchanged: "rg_tokens s' = rg_tokens s \<Longrightarrow> tokens_change e s s'"
  unfolding tokens_change_def by (intro disjI1 exI [of _ "\<lambda>_. True"]) simp

lemma handle_tokens:
  assumes "handle hash uuid_of e s = Inr s'"
  shows "tokens_change e s s'"
proof (cases e)
  case (CreateToken codes i raw name one k expires)
  then show ?thesis using assms
    by (auto simp: tokens_change_def create_registration_token_def Let_def map_sum_def split: option.splits sum.splits if_splits)
next
  case (DeleteToken i)
  then show ?thesis using assms
    by (auto simp: tokens_change_def delete_registration_token_def map_sum_def split: option.splits sum.splits if_splits)
next
  case (Register now i raw req)
  then obtain cid where "register_collector hash now i raw req s = Inr (cid, s')"
    using assms by (auto simp: map_sum_def split: sum.splits)
  then show ?thesis by (rule register_tokens) (auto simp: tokens_change_def)
next
  case (Provision now i raw revoke h)
  then have "rg_tokens s' = rg_tokens s" using assms
    by (auto simp: provision_collector_api_key_def ebind_def Let_def map_sum_def dest!: add_key_tokens insert_collector_tokens
        split: sum.splits if_splits option.splits)
  then show ?thesis by (rule tokens_unchanged)
next
  case (NodeHeartbeat now header req)
  then have "rg_tokens s' = rg_tokens s" using assms
    by (auto simp: collector_heartbeat_def ebind_def Let_def map_sum_def dest!: update_version_tokens
        split: sum.splits if_splits option.splits)
  then show ?thesis by (rule tokens_unchanged)
next
  case (Update now i req)
  then have "rg_tokens s' = rg_tokens s" using assms
    by (auto simp: update_collector_def ebind_def Let_def map_sum_def split: sum.splits if_splits option.splits)
  then show ?thesis by (rule tokens_unchanged)
qed (use assms in \<open>auto intro!: tokens_unchanged simp: approve_collector_def reject_collector_def delete_collector_def
    create_collector_group_def update_collector_group_def delete_collector_group_def heartbeat_def health_check_def
    Let_def map_sum_def split: sum.splits option.splits if_splits\<close>)

lemma fleet_step_tokens: "fleet_step hash uuid_of e s = Some s' \<Longrightarrow> tokens_change e s s'"
  using handle_tokens [of hash uuid_of e s] tokens_unchanged by (auto simp: fleet_step_def split: sum.splits)

text \<open>A one-time token that has been used.\<close>

definition spent :: "string \<Rightarrow> registry \<Rightarrow> bool" where
  "spent i s \<longleftrightarrow> (\<forall>t \<in> set (rg_tokens s). rt_id t = i \<longrightarrow> rt_one_time t \<and> rt_used t)"

lemma spent_step:
  assumes "spent i s" and "fleet_step hash uuid_of e s = Some s'" and "created_token e \<noteq> Some i"
  shows "spent i s'"
  using fleet_step_tokens [OF assms(2)] assms(1,3) by (auto simp: tokens_change_def spent_def)

lemma token_spent_run:
  assumes "spent i s" and "run_events (fleet_step hash uuid_of) es s = Some s'" and "\<forall>e \<in> set es. created_token e \<noteq> Some i"
  shows "spent i s'"
  using assms by (induction es arbitrary: s) (auto simp: bind_eq_Some_conv intro: spent_step)

section \<open>The invariant\<close>

lemma handle_rows:
  assumes "handle hash uuid_of e s = Inr s'" and "ids_distinct s"
  shows "rows_kept uuid_of e s s' \<or> rows_added s s' \<or> rows_removed s s'"
proof (cases e)
  case (CreateToken codes i raw name one k expires)
  then show ?thesis using assms(1)
    by (intro disjI1 rows_kept_same)
      (auto simp: create_registration_token_def Let_def map_sum_def split: option.splits sum.splits if_splits)
next
  case (DeleteToken i)
  then show ?thesis using assms(1)
    by (intro disjI1 rows_kept_same) (auto simp: delete_registration_token_def split: option.splits if_splits)
next
  case (CreateGroup i name d)
  then show ?thesis using assms(1)
    by (intro disjI1 rows_kept_same) (auto simp: create_collector_group_def split: if_splits)
next
  case (UpdateGroup i name d)
  then show ?thesis using assms(1)
    by (intro disjI1 rows_kept_same) (auto simp: update_collector_group_def Let_def split: option.splits if_splits)
next
  case (HealthCheck now)
  then have "rows_kept uuid_of e s s'"
    using assms health_check_change unfolding rows_kept_def
    by (intro exI [of _ "fold (touch now) (stale_rows now s)"]) (simp add: health_check_rows [symmetric])
  then show ?thesis ..
next
  case (Register now i raw req)
  then obtain cid where "register_collector hash now i raw req s = Inr (cid, s')"
    using assms(1) by (auto simp: map_sum_def split: sum.splits)
  from register_rows [OF this assms(2), of uuid_of] show ?thesis unfolding Register by blast
next
  case (Provision now i raw revoke h)
  then show ?thesis using assms provision_rows rows_kept_same by (fastforce simp: map_sum_def split: sum.splits)
next
  case (NodeHeartbeat now header req)
  then show ?thesis using assms node_heartbeat_rows by (auto simp: map_sum_def split: sum.splits)
next
  case (Delete i)
  then show ?thesis using assms delete_rows by (auto simp: map_sum_def split: sum.splits)
qed (use assms in \<open>auto simp: map_sum_def intro: approve_rows reject_rows update_rows delete_group_rows heartbeat_rows split: sum.splits\<close>)

definition registry_ok :: "registry \<Rightarrow> bool" where
  "registry_ok s \<longleftrightarrow> distinct (map cl_id (rg_collectors s)) \<and> distinct (map cl_hostname (rg_collectors s)) \<and>
     (\<forall>c \<in> set (rg_collectors s). collector_ok c) \<and> distinct (map rt_id (rg_tokens s))"

lemma registry_ok_ids: "registry_ok s \<Longrightarrow> ids_distinct s"
  by (simp add: registry_ok_def ids_distinct_def)

lemma registry_ok_kept:
  assumes "registry_ok s" and "rows_kept uuid_of e s s'" and "distinct (map rt_id (rg_tokens s'))"
  shows "registry_ok s'"
proof -
  obtain f where f: "rg_collectors s' = map f (rg_collectors s)" "\<forall>c \<in> set (rg_collectors s). row_change uuid_of e c (f c)"
    using assms(2) by (auto simp: rows_kept_def)
  then have "map cl_id (rg_collectors s') = map cl_id (rg_collectors s)"
      "map cl_hostname (rg_collectors s') = map cl_hostname (rg_collectors s)"
    by (simp_all add: row_change_def)
  moreover have "\<forall>c \<in> set (rg_collectors s'). collector_ok c" using assms(1) f by (auto simp: registry_ok_def row_change_def)
  ultimately show ?thesis using assms(1,3) by (simp only: registry_ok_def)
qed

lemma registry_ok_added:
  "registry_ok s \<Longrightarrow> rows_added s s' \<Longrightarrow> distinct (map rt_id (rg_tokens s')) \<Longrightarrow> registry_ok s'"
  by (auto simp: registry_ok_def rows_added_def collector_ok_def)

lemma registry_ok_removed:
  "registry_ok s \<Longrightarrow> rows_removed s s' \<Longrightarrow> distinct (map rt_id (rg_tokens s')) \<Longrightarrow> registry_ok s'"
  by (auto simp: registry_ok_def rows_removed_def distinct_map_filter)

lemma tokens_distinct:
  assumes "tokens_change e s s'" and "distinct (map rt_id (rg_tokens s))"
  shows "distinct (map rt_id (rg_tokens s'))"
proof -
  have "map rt_id (map (mark_used i) ts) = map rt_id ts" for i ts by simp
  then show ?thesis using assms by (auto simp: tokens_change_def distinct_map_filter simp del: map_map)
qed

lemma fleet_step_cases:
  assumes "fleet_step hash uuid_of e s = Some s'" and "ids_distinct s"
  obtains "rows_kept uuid_of e s s'" | "rows_added s s'" | "rows_removed s s'"
  using assms handle_rows [of hash uuid_of e s] rows_kept_same
  by (auto simp: fleet_step_def split: sum.splits)

interpretation collectors: event_system "fleet_step hash uuid_of" registry_ok for hash uuid_of
proof
  fix s e s' assume ok: "registry_ok s" and st: "fleet_step hash uuid_of e s = Some s'"
  have "distinct (map rt_id (rg_tokens s'))"
    using tokens_distinct [OF fleet_step_tokens [OF st]] ok by (simp add: registry_ok_def)
  then show "registry_ok s'"
    by (rule_tac fleet_step_cases [OF st registry_ok_ids [OF ok]])
      (use ok registry_ok_kept registry_ok_added registry_ok_removed in blast)+
qed

lemma no_collectors_ok: "no_collectors s \<Longrightarrow> registry_ok s"
  by (simp add: no_collectors_def registry_ok_def)

end
