(* ===== verification/Collector_Models.thy ===== *)
theory Collector_Models
  imports PyText
begin

text \<open>
  The data of the collector's job system (\<open>jobs/models.py\<close>): job definitions with their connector
  bindings, execution profiles with the moving average of their run time, load reports and worker
  registrations, and the JSON form in which \<open>LocalCache.upsert_job\<close> stores a definition and
  \<open>_dict_to_job\<close> of \<open>jobs/scheduler.py\<close> reads it back.  Durations and Unix timestamps are floats.
\<close>

section \<open>Records\<close>

record connector_binding =
  cb_connector_type :: string
  cb_connector_id :: string
  cb_connector_version_id :: string
  cb_credential_name :: "string option"
  cb_settings :: json
  cb_connector_checksum :: string

record job_definition =
  jd_job_id :: string
  jd_device_id :: "string option"
  jd_device_host :: "string option"
  jd_app_id :: string
  jd_app_version :: string
  jd_credential_names :: "string list"
  jd_interval :: int
  jd_parameters :: json
  jd_role :: "string option"
  jd_max_execution_time :: int
  jd_enabled :: bool
  jd_updated_at :: string
  jd_app_checksum :: string
  jd_connector_bindings :: "connector_binding list"

record job_profile =
  jp_job_id :: string
  jp_avg_execution_time :: pyfloat
  jp_last_execution_time :: pyfloat
  jp_max_execution_time :: pyfloat
  jp_execution_count :: int
  jp_error_count :: int
  jp_last_error_time :: pyfloat
  jp_last_run :: pyfloat
  jp_next_deadline :: pyfloat
  jp_status :: string
  jp_is_stable :: bool
  jp_is_heavy :: bool

definition new_profile :: "string \<Rightarrow> job_profile" where
  "new_profile job_id = \<lparr>jp_job_id = job_id, jp_avg_execution_time = Fin 5, jp_last_execution_time = Fin 0,
     jp_max_execution_time = Fin 0, jp_execution_count = 0, jp_error_count = 0, jp_last_error_time = Fin 0,
     jp_last_run = Fin 0, jp_next_deadline = Fin 0, jp_status = ''idle'', jp_is_stable = False,
     jp_is_heavy = False\<rparr>"

record node_load_info =
  nl_node_id :: string
  nl_load_score :: pyfloat
  nl_worker_count :: int
  nl_effective_load :: pyfloat
  nl_deadline_miss_rate :: pyfloat
  nl_total_jobs :: int

definition empty_load_info :: "string \<Rightarrow> node_load_info" where
  "empty_load_info node_id = \<lparr>nl_node_id = node_id, nl_load_score = Fin 0, nl_worker_count = 0,
     nl_effective_load = Fin 0, nl_deadline_miss_rate = Fin 0, nl_total_jobs = 0\<rparr>"

record worker_registration =
  wr_worker_id :: string
  wr_loaded_apps :: "(string \<times> string) set"
  wr_job_count :: int
  wr_last_seen :: pyfloat

section \<open>Profiles\<close>

text \<open>\<open>JobProfile.update_after_execution\<close>; \<open>now\<close> is \<open>time.time()\<close>.\<close>

definition update_after_execution ::
    "pyfloat \<Rightarrow> pyfloat \<Rightarrow> pyfloat \<Rightarrow> pyfloat \<Rightarrow> job_profile \<Rightarrow> job_profile" where
  "update_after_execution now actual_time alpha heavy_threshold p =
     (let n = jp_execution_count p + 1;
          avg = (if n \<le> 1 then actual_time
                 else fadd (fmul alpha actual_time) (fmul (fsub (Fin 1) alpha) (jp_avg_execution_time p)))
      in p\<lparr>jp_last_execution_time := actual_time,
           jp_max_execution_time := fmax (jp_max_execution_time p) actual_time,
           jp_execution_count := n,
           jp_last_run := now,
           jp_avg_execution_time := avg,
           jp_is_stable := 3 \<le> n,
           jp_is_heavy := fle heavy_threshold avg\<rparr>)"

definition load_contribution :: "job_profile \<Rightarrow> int \<Rightarrow> pyfloat" where
  "load_contribution p interval =
     (if interval \<le> 0 then Fin 0 else fdiv_int (jp_avg_execution_time p) interval)"

section \<open>Stored job definitions\<close>

fun json_opt :: "string option \<Rightarrow> json" where
  "json_opt None = JNull"
| "json_opt (Some s) = JStr s"

definition binding_to_json :: "connector_binding \<Rightarrow> json" where
  "binding_to_json b = JObj
     [(''connector_type'', JStr (cb_connector_type b)),
      (''connector_id'', JStr (cb_connector_id b)),
      (''connector_version_id'', JStr (cb_connector_version_id b)),
      (''credential_name'', json_opt (cb_credential_name b)),
      (''settings'', cb_settings b),
      (''connector_checksum'', JStr (cb_connector_checksum b))]"

definition job_to_json :: "job_definition \<Rightarrow> json" where
  "job_to_json j = JObj
     [(''job_id'', JStr (jd_job_id j)),
      (''device_id'', json_opt (jd_device_id j)),
      (''device_host'', json_opt (jd_device_host j)),
      (''app_id'', JStr (jd_app_id j)),
      (''app_version'', JStr (jd_app_version j)),
      (''app_checksum'', JStr (jd_app_checksum j)),
      (''credential_names'', JArr (map JStr (jd_credential_names j))),
      (''interval'', JInt (jd_interval j)),
      (''parameters'', jd_parameters j),
      (''role'', json_opt (jd_role j)),
      (''max_execution_time'', JInt (jd_max_execution_time j)),
      (''enabled'', JBool (jd_enabled j)),
      (''updated_at'', JStr (jd_updated_at j)),
      (''connector_bindings'', JArr (map binding_to_json (jd_connector_bindings j)))]"

text \<open>
  Reading back.  A missing required key is the \<open>KeyError\<close>; a value of another type than the one
  the definitions are written with is reported as \<open>TypeError\<close>.
\<close>

fun as_str :: "json \<Rightarrow> py_error + string" where
  "as_str (JStr s) = Inr s"
| "as_str _ = Inl TypeError"

fun as_opt :: "json \<Rightarrow> py_error + string option" where
  "as_opt (JStr s) = Inr (Some s)"
| "as_opt JNull = Inr None"
| "as_opt _ = Inl TypeError"

fun as_int :: "json \<Rightarrow> py_error + int" where
  "as_int (JInt i) = Inr i"
| "as_int _ = Inl TypeError"

fun as_bool :: "json \<Rightarrow> py_error + bool" where
  "as_bool (JBool b) = Inr b"
| "as_bool _ = Inl TypeError"

fun map_result :: "('a \<Rightarrow> 'e + 'b) \<Rightarrow> 'a list \<Rightarrow> 'e + 'b list" where
  "map_result f [] = Inr []"
| "map_result f (x # xs) = ebind (f x) (\<lambda>y. ebind (map_result f xs) (\<lambda>ys. Inr (y # ys)))"

fun as_list :: "(json \<Rightarrow> py_error + 'a) \<Rightarrow> json \<Rightarrow> py_error + 'a list" where
  "as_list f (JArr js) = map_result f js"
| "as_list f _ = Inl TypeError"

definition required :: "(string \<times> json) list \<Rightarrow> string \<Rightarrow> py_error + json" where
  "required d k = (case map_of d k of Some v \<Rightarrow> Inr v | None \<Rightarrow> Inl KeyError)"

fun dict_to_binding :: "json \<Rightarrow> py_error + connector_binding" where
  "dict_to_binding (JObj d) =
     ebind (ebind (required d ''connector_type'') as_str) (\<lambda>ty.
     ebind (ebind (required d ''connector_id'') as_str) (\<lambda>cid.
     ebind (ebind (required d ''connector_version_id'') as_str) (\<lambda>vid.
     ebind (as_opt (dict_get d ''credential_name'' JNull)) (\<lambda>cred.
     ebind (as_str (dict_get d ''connector_checksum'' (JStr []))) (\<lambda>sum.
       Inr \<lparr>cb_connector_type = ty, cb_connector_id = cid, cb_connector_version_id = vid,
            cb_credential_name = cred, cb_settings = dict_get d ''settings'' (JObj []),
            cb_connector_checksum = sum\<rparr>)))))"
| "dict_to_binding _ = Inl TypeError"

fun dict_to_job :: "json \<Rightarrow> py_error + job_definition" where
  "dict_to_job (JObj d) =
     ebind (as_list dict_to_binding (dict_get d ''connector_bindings'' (JArr []))) (\<lambda>bindings.
     ebind (ebind (required d ''job_id'') as_str) (\<lambda>jid.
     ebind (as_opt (dict_get d ''device_id'' JNull)) (\<lambda>dev.
     ebind (as_opt (dict_get d ''device_host'' JNull)) (\<lambda>host.
     ebind (ebind (required d ''app_id'') as_str) (\<lambda>app.
     ebind (as_str (dict_get d ''app_version'' (JStr ''1.0.0''))) (\<lambda>ver.
     ebind (as_list as_str (dict_get d ''credential_names'' (JArr []))) (\<lambda>creds.
     ebind (as_int (dict_get d ''interval'' (JInt 60))) (\<lambda>interval.
     ebind (as_opt (dict_get d ''role'' JNull)) (\<lambda>role.
     ebind (as_int (dict_get d ''max_execution_time'' (JInt 120))) (\<lambda>maxt.
     ebind (as_bool (dict_get d ''enabled'' (JBool True))) (\<lambda>en.
     ebind (as_str (dict_get d ''updated_at'' (JStr []))) (\<lambda>upd.
     ebind (as_str (dict_get d ''app_checksum'' (JStr []))) (\<lambda>sum.
       Inr \<lparr>jd_job_id = jid, jd_device_id = dev, jd_device_host = host, jd_app_id = app,
            jd_app_version = ver, jd_credential_names = creds, jd_interval = interval,
            jd_parameters = dict_get d ''parameters'' (JObj []), jd_role = role,
            jd_max_execution_time = maxt, jd_enabled = en, jd_updated_at = upd, jd_app_checksum = sum,
            jd_connector_bindings = bindings\<rparr>)))))))))))))"
| "dict_to_job _ = Inl TypeError"

section \<open>A stored definition reads back as itself\<close>

lemma as_opt_json_opt [simp]: "as_opt (json_opt s) = Inr s"
  by (cases s) auto

lemma map_result_map: "(\<And>x. f (g x) = Inr x) \<Longrightarrow> map_result f (map g xs) = Inr xs"
  by (induction xs) auto

lemma dict_to_binding_inverse [simp]: "dict_to_binding (binding_to_json b) = Inr b"
  by (simp add: binding_to_json_def required_def dict_get_def)

lemma dict_to_job_inverse: "dict_to_job (job_to_json j) = Inr j"
  by (simp add: job_to_json_def required_def dict_get_def map_result_map)

end
