(* ===== verification/Local_Cache.thy ===== *)
theory Local_Cache
  imports Collector_Models
begin

text \<open>
  The SQLite store of a collector node (\<open>cache/local_cache.py\<close>).  A table is the dict of its rows
  by primary key, in the order of their rowids, or for \<open>results\<close> the list of its rows; each
  operation takes \<open>time.time()\<close> where it reads the clock.  Timestamps are the rationals that
  floats denote, and sums with a time to live are rounded as floats.
\<close>

section \<open>Tables\<close>

record cache_entry =
  ce_value :: string
  ce_ttl_seconds :: int
  ce_created_at :: rat
  ce_origin_node :: string
  ce_is_primary :: bool

record job_row =
  jr_definition_json :: json
  jr_home_node :: "string option"
  jr_executing_node :: "string option"
  jr_is_mine :: bool
  jr_last_synced :: rat
  jr_updated_at :: string
  jr_deleted :: bool

record profile_row =
  pr_avg_execution_time :: pyfloat
  pr_last_execution_time :: pyfloat
  pr_max_execution_time :: pyfloat
  pr_execution_count :: int
  pr_error_count :: int
  pr_last_error_time :: pyfloat
  pr_last_run :: pyfloat
  pr_is_heavy :: bool

record app_row =
  ar_metadata :: json
  ar_code_path :: "string option"
  ar_venv_hash :: "string option"
  ar_checksum :: string
  ar_fetched_at :: rat

record credential_row =
  cr_credential_type :: string
  cr_encrypted_data :: string
  cr_refresh_after :: rat
  cr_fetched_at :: rat

record result_row =
  rr_id :: nat
  rr_result :: json
  rr_created_at :: rat
  rr_sent :: bool

record app_cache_row =
  ac_value :: json
  ac_ttl_seconds :: "int option"
  ac_updated_at :: rat
  ac_dirty :: bool

type_synonym app_key = "string \<times> string \<times> string"

record local_cache =
  lc_cache :: "(string, cache_entry) dict"
  lc_jobs :: "(string, job_row) dict"
  lc_profiles :: "(string, profile_row) dict"
  lc_apps :: "(string \<times> string, app_row) dict"
  lc_credentials :: "(string, credential_row) dict"
  lc_results :: "result_row list"
  lc_next_id :: nat
  lc_app_cache :: "(app_key, app_cache_row) dict"

section \<open>The contract of a keyed table\<close>

locale keyed_table =
  fixes lookup :: "'t \<Rightarrow> 'k \<Rightarrow> 'v option" and upsert :: "'k \<Rightarrow> 'v \<Rightarrow> 't \<Rightarrow> 't" and remove :: "'k \<Rightarrow> 't \<Rightarrow> 't"
  assumes lookup_upsert: "lookup (upsert k v t) k' = (if k' = k then Some v else lookup t k')"
    and lookup_remove: "lookup (remove k t) k' = (if k' = k then None else lookup t k')"
begin

lemma upsert_get: "lookup (upsert k v t) k = Some v"
  by (simp add: lookup_upsert)

lemma upsert_other: "k' \<noteq> k \<Longrightarrow> lookup (upsert k v t) k' = lookup t k'"
  by (simp add: lookup_upsert)

lemma last_upsert_wins: "lookup (upsert k w (upsert k v t)) = lookup (upsert k w t)"
  by (rule ext) (simp add: lookup_upsert)

lemma upserts_commute: "k \<noteq> k' \<Longrightarrow> lookup (upsert k v (upsert k' w t)) = lookup (upsert k' w (upsert k v t))"
  by (rule ext) (simp add: lookup_upsert)

lemma removed_is_gone: "lookup (remove k t) k = None"
  by (simp add: lookup_remove)

lemma remove_other: "k' \<noteq> k \<Longrightarrow> lookup (remove k t) k' = lookup t k'"
  by (simp add: lookup_remove)

lemma remove_all: "lookup (fold remove ks t) k = (if k \<in> set ks then None else lookup t k)"
  by (induction ks arbitrary: t) (auto simp: lookup_remove)

lemma upsert_all:
  "lookup (fold (\<lambda>(k, v). upsert k v) kvs t) k = (case map_of (rev kvs) k of Some v \<Rightarrow> Some v | None \<Rightarrow> lookup t k)"
  by (induction kvs arbitrary: t) (auto simp: lookup_upsert map_add_def split: option.splits)

end

section \<open>The TTL cache\<close>

definition expires_at :: "cache_entry \<Rightarrow> pyfloat" where
  "expires_at e = fadd (Fin (ce_created_at e)) (to_double (of_int (ce_ttl_seconds e)))"

definition is_expired :: "rat \<Rightarrow> cache_entry \<Rightarrow> bool" where
  "is_expired now e = flt (expires_at e) (Fin now)"

definition cache_delete :: "string \<Rightarrow> local_cache \<Rightarrow> local_cache" where
  "cache_delete key db = db\<lparr>lc_cache := dict_pop key (lc_cache db)\<rparr>"

definition cache_get :: "rat \<Rightarrow> string \<Rightarrow> local_cache \<Rightarrow> cache_entry option \<times> local_cache" where
  "cache_get now key db =
     (case map_of (lc_cache db) key of
        None \<Rightarrow> (None, db)
      | Some e \<Rightarrow> if is_expired now e then (None, cache_delete key db) else (Some e, db))"

definition cache_store :: "string \<Rightarrow> cache_entry \<Rightarrow> local_cache \<Rightarrow> local_cache" where
  "cache_store key e db = db\<lparr>lc_cache := dict_set key e (lc_cache db)\<rparr>"

definition cache_put :: "rat \<Rightarrow> string \<Rightarrow> string \<Rightarrow> int \<Rightarrow> string \<Rightarrow> bool \<Rightarrow> local_cache \<Rightarrow> local_cache" where
  "cache_put now key v ttl origin_node is_primary db =
     cache_store key \<lparr>ce_value = v, ce_ttl_seconds = ttl, ce_created_at = now,
       ce_origin_node = origin_node, ce_is_primary = is_primary\<rparr> db"

definition cleanup_expired :: "rat \<Rightarrow> local_cache \<Rightarrow> nat \<times> local_cache" where
  "cleanup_expired now db =
     (length (filter (\<lambda>(_, e). is_expired now e) (lc_cache db)),
      db\<lparr>lc_cache := filter (\<lambda>(_, e). \<not> is_expired now e) (lc_cache db)\<rparr>)"

text \<open>\<open>ring\<close> is the first 32 bits of the key's SHA-256.\<close>

definition get_keys_for_range :: "(string \<Rightarrow> int) \<Rightarrow> int \<Rightarrow> int \<Rightarrow> local_cache \<Rightarrow> string list" where
  "get_keys_for_range ring start stop db =
     filter (\<lambda>k. start \<le> ring k \<and> ring k \<le> stop) (dict_keys (lc_cache db))"

interpretation ttl_table: keyed_table "\<lambda>db. map_of (lc_cache db)" cache_store cache_delete
  by unfold_locales (simp_all add: cache_store_def cache_delete_def)

section \<open>Jobs and profiles\<close>

definition upsert_job :: "rat \<Rightarrow> job_definition \<Rightarrow> string option \<Rightarrow> local_cache \<Rightarrow> local_cache" where
  "upsert_job now job home_node db =
     (let row = (case map_of (lc_jobs db) (jd_job_id job) of
                   None \<Rightarrow> \<lparr>jr_definition_json = job_to_json job, jr_home_node = home_node,
                             jr_executing_node = None, jr_is_mine = False, jr_last_synced = now,
                             jr_updated_at = jd_updated_at job, jr_deleted = False\<rparr>
                 | Some r \<Rightarrow> r\<lparr>jr_definition_json := job_to_json job,
                             jr_home_node := (if home_node = None then jr_home_node r else home_node),
                             jr_last_synced := now, jr_updated_at := jd_updated_at job, jr_deleted := False\<rparr>)
      in db\<lparr>lc_jobs := dict_set (jd_job_id job) row (lc_jobs db)\<rparr>)"

definition mark_job_deleted :: "string \<Rightarrow> local_cache \<Rightarrow> local_cache" where
  "mark_job_deleted job_id db =
     (case map_of (lc_jobs db) job_id of
        None \<Rightarrow> db
      | Some r \<Rightarrow> db\<lparr>lc_jobs := dict_set job_id (r\<lparr>jr_deleted := True\<rparr>) (lc_jobs db)\<rparr>)"

definition delete_job :: "string \<Rightarrow> local_cache \<Rightarrow> local_cache" where
  "delete_job job_id db = db\<lparr>lc_jobs := dict_pop job_id (lc_jobs db)\<rparr>"

text \<open>The three keys \<open>_home_node\<close>, \<open>_executing_node\<close> and \<open>_is_mine\<close> are added to the definition.\<close>

fun with_node_keys :: "job_row \<Rightarrow> json \<Rightarrow> json" where
  "with_node_keys r (JObj d) =
     JObj (dict_set ''_is_mine'' (JBool (jr_is_mine r))
       (dict_set ''_executing_node'' (json_opt (jr_executing_node r))
         (dict_set ''_home_node'' (json_opt (jr_home_node r)) d)))"
| "with_node_keys r j = j"

definition get_all_jobs :: "local_cache \<Rightarrow> json list" where
  "get_all_jobs db =
     map (\<lambda>(_, r). with_node_keys r (jr_definition_json r)) (filter (\<lambda>(_, r). \<not> jr_deleted r) (lc_jobs db))"

definition set_job_nodes ::
    "string \<Rightarrow> string option \<Rightarrow> string option \<Rightarrow> bool \<Rightarrow> local_cache \<Rightarrow> local_cache" where
  "set_job_nodes job_id home executing mine db =
     (case map_of (lc_jobs db) job_id of
        None \<Rightarrow> db
      | Some r \<Rightarrow> db\<lparr>lc_jobs := dict_set job_id
            (r\<lparr>jr_home_node := home, jr_executing_node := executing, jr_is_mine := mine\<rparr>) (lc_jobs db)\<rparr>)"

definition get_profile :: "string \<Rightarrow> local_cache \<Rightarrow> profile_row option" where
  "get_profile job_id db = map_of (lc_profiles db) job_id"

definition upsert_profile :: "job_profile \<Rightarrow> local_cache \<Rightarrow> local_cache" where
  "upsert_profile p db =
     db\<lparr>lc_profiles := dict_set (jp_job_id p)
        \<lparr>pr_avg_execution_time = jp_avg_execution_time p, pr_last_execution_time = jp_last_execution_time p,
         pr_max_execution_time = jp_max_execution_time p, pr_execution_count = jp_execution_count p,
         pr_error_count = jp_error_count p, pr_last_error_time = jp_last_error_time p,
         pr_last_run = jp_last_run p, pr_is_heavy = jp_is_heavy p\<rparr> (lc_profiles db)\<rparr>"

section \<open>Apps and credentials\<close>

definition get_app :: "string \<Rightarrow> string \<Rightarrow> local_cache \<Rightarrow> app_row option" where
  "get_app app_id version db = map_of (lc_apps db) (app_id, version)"

definition upsert_app ::
    "rat \<Rightarrow> string \<Rightarrow> string \<Rightarrow> json \<Rightarrow> string option \<Rightarrow> string option \<Rightarrow> string \<Rightarrow> local_cache \<Rightarrow> local_cache" where
  "upsert_app now app_id version metadata code_path venv_hash checksum db =
     db\<lparr>lc_apps := dict_set (app_id, version)
        \<lparr>ar_metadata = metadata, ar_code_path = code_path, ar_venv_hash = venv_hash, ar_checksum = checksum,
         ar_fetched_at = now\<rparr> (lc_apps db)\<rparr>"

definition get_credential :: "string \<Rightarrow> local_cache \<Rightarrow> credential_row option" where
  "get_credential name db = map_of (lc_credentials db) name"

definition upsert_credential ::
    "rat \<Rightarrow> string \<Rightarrow> string \<Rightarrow> string \<Rightarrow> rat \<Rightarrow> local_cache \<Rightarrow> local_cache" where
  "upsert_credential now name ctype data refresh_after db =
     db\<lparr>lc_credentials := dict_set name
        \<lparr>cr_credential_type = ctype, cr_encrypted_data = data, cr_refresh_after = refresh_after,
         cr_fetched_at = now\<rparr> (lc_credentials db)\<rparr>"

section \<open>The result buffer\<close>

definition enqueue_result :: "rat \<Rightarrow> json \<Rightarrow> local_cache \<Rightarrow> local_cache" where
  "enqueue_result now result db =
     db\<lparr>lc_results := lc_results db @
          [\<lparr>rr_id = lc_next_id db, rr_result = result, rr_created_at = now, rr_sent = False\<rparr>],
        lc_next_id := lc_next_id db + 1\<rparr>"

text \<open>\<open>ORDER BY created_at\<close>: rows of the same time stay in the order of their rowids.\<close>

definition unsent :: "local_cache \<Rightarrow> result_row list" where
  "unsent db = filter (\<lambda>r. \<not> rr_sent r) (lc_results db)"

definition dequeue_results :: "nat \<Rightarrow> local_cache \<Rightarrow> (nat \<times> json) list" where
  "dequeue_results limit db = map (\<lambda>r. (rr_id r, rr_result r)) (take limit (sort_key rr_created_at (unsent db)))"

definition mark_results_sent :: "nat list \<Rightarrow> local_cache \<Rightarrow> local_cache" where
  "mark_results_sent ids db =
     db\<lparr>lc_results := map (\<lambda>r. if rr_id r \<in> set ids then r\<lparr>rr_sent := True\<rparr> else r) (lc_results db)\<rparr>"

definition cleanup_sent_results :: "rat \<Rightarrow> int \<Rightarrow> local_cache \<Rightarrow> nat \<times> local_cache" where
  "cleanup_sent_results now older_than db =
     (let cutoff = fsub (Fin now) (to_double (of_int older_than));
          old = (\<lambda>r. rr_sent r \<and> flt (Fin (rr_created_at r)) cutoff)
      in (length (filter old (lc_results db)), db\<lparr>lc_results := filter (\<lambda>r. \<not> old r) (lc_results db)\<rparr>))"

definition count_results :: "local_cache \<Rightarrow> nat" where
  "count_results db = length (lc_results db)"

definition drop_oldest_results :: "int \<Rightarrow> local_cache \<Rightarrow> nat \<times> local_cache" where
  "drop_oldest_results n db =
     (if n \<le> 0 then (0, db)
      else let ids = set (map rr_id (take (nat n) (sort_key rr_created_at (lc_results db))))
           in (length (filter (\<lambda>r. rr_id r \<in> ids) (lc_results db)),
               db\<lparr>lc_results := filter (\<lambda>r. rr_id r \<notin> ids) (lc_results db)\<rparr>))"

section \<open>The shared app cache\<close>

definition app_expired :: "rat \<Rightarrow> app_cache_row \<Rightarrow> bool" where
  "app_expired now r =
     (case ac_ttl_seconds r of
        None \<Rightarrow> False
      | Some ttl \<Rightarrow> flt (fadd (Fin (ac_updated_at r)) (to_double (of_int ttl))) (Fin now))"

definition app_cache_delete :: "app_key \<Rightarrow> local_cache \<Rightarrow> local_cache" where
  "app_cache_delete k db = db\<lparr>lc_app_cache := dict_pop k (lc_app_cache db)\<rparr>"

definition app_cache_get :: "rat \<Rightarrow> app_key \<Rightarrow> local_cache \<Rightarrow> json option \<times> local_cache" where
  "app_cache_get now k db =
     (case map_of (lc_app_cache db) k of
        None \<Rightarrow> (None, db)
      | Some r \<Rightarrow> if app_expired now r then (None, app_cache_delete k db) else (Some (ac_value r), db))"

definition app_cache_store :: "app_key \<Rightarrow> app_cache_row \<Rightarrow> local_cache \<Rightarrow> local_cache" where
  "app_cache_store k r db = db\<lparr>lc_app_cache := dict_set k r (lc_app_cache db)\<rparr>"

definition app_cache_set :: "rat \<Rightarrow> app_key \<Rightarrow> json \<Rightarrow> int option \<Rightarrow> local_cache \<Rightarrow> local_cache" where
  "app_cache_set now k v ttl db =
     app_cache_store k \<lparr>ac_value = v, ac_ttl_seconds = ttl, ac_updated_at = now, ac_dirty = True\<rparr> db"

definition app_cache_get_dirty :: "nat \<Rightarrow> local_cache \<Rightarrow> (app_key \<times> app_cache_row) list" where
  "app_cache_get_dirty limit db = take limit (filter (\<lambda>(_, r). ac_dirty r) (lc_app_cache db))"

definition mark_clean_one :: "app_key \<Rightarrow> local_cache \<Rightarrow> local_cache" where
  "mark_clean_one k db =
     (case map_of (lc_app_cache db) k of
        None \<Rightarrow> db
      | Some r \<Rightarrow> app_cache_store k (r\<lparr>ac_dirty := False\<rparr>) db)"

definition app_cache_mark_clean :: "app_key list \<Rightarrow> local_cache \<Rightarrow> local_cache" where
  "app_cache_mark_clean keys db = fold mark_clean_one keys db"

text \<open>The upsert of one pulled entry: the newer value wins; the dirty flag of a row stays.\<close>

record central_entry =
  en_key :: app_key
  en_value :: json
  en_ttl_seconds :: "int option"
  en_updated_at :: rat

definition merge_entry :: "central_entry \<Rightarrow> local_cache \<Rightarrow> local_cache" where
  "merge_entry e db =
     app_cache_store (en_key e)
       (case map_of (lc_app_cache db) (en_key e) of
          None \<Rightarrow> \<lparr>ac_value = en_value e, ac_ttl_seconds = en_ttl_seconds e, ac_updated_at = en_updated_at e,
                   ac_dirty = False\<rparr>
        | Some r \<Rightarrow> (if ac_updated_at r < en_updated_at e
                     then r\<lparr>ac_value := en_value e, ac_ttl_seconds := en_ttl_seconds e,
                            ac_updated_at := en_updated_at e\<rparr>
                     else r)) db"

definition app_cache_upsert_from_central :: "central_entry list \<Rightarrow> local_cache \<Rightarrow> local_cache" where
  "app_cache_upsert_from_central entries db = fold merge_entry entries db"

interpretation app_table: keyed_table "\<lambda>db. map_of (lc_app_cache db)" app_cache_store app_cache_delete
  by unfold_locales (simp_all add: app_cache_store_def app_cache_delete_def)

section \<open>What the operations keep\<close>

definition results_ok :: "local_cache \<Rightarrow> bool" where
  "results_ok db \<longleftrightarrow> distinct (map rr_id (lc_results db)) \<and> (\<forall>r \<in> set (lc_results db). rr_id r < lc_next_id db)"

lemma results_ok_enqueue [simp]: "results_ok db \<Longrightarrow> results_ok (enqueue_result now r db)"
  by (fastforce simp: results_ok_def enqueue_result_def)

lemma results_ok_mark [simp]: "results_ok db \<Longrightarrow> results_ok (mark_results_sent ids db)"
proof -
  have "rr_id \<circ> (\<lambda>r :: result_row. if rr_id r \<in> set ids then r\<lparr>rr_sent := True\<rparr> else r) = rr_id"
    by (rule ext) simp
  then show "results_ok db \<Longrightarrow> results_ok (mark_results_sent ids db)"
    by (auto simp: results_ok_def mark_results_sent_def)
qed

lemma results_ok_filter: "results_ok db \<Longrightarrow> results_ok (db\<lparr>lc_results := filter P (lc_results db)\<rparr>)"
  by (auto simp: results_ok_def distinct_map_filter)

lemma results_ok_cleanup [simp]: "results_ok db \<Longrightarrow> results_ok (snd (cleanup_sent_results now n db))"
  using results_ok_filter [of db "\<lambda>r. \<not> (rr_sent r \<and> flt (Fin (rr_created_at r)) (fsub (Fin now) (to_double (of_int n))))"]
  by (simp add: cleanup_sent_results_def Let_def)

lemma results_ok_drop [simp]: "results_ok db \<Longrightarrow> results_ok (snd (drop_oldest_results n db))"
  by (auto simp: drop_oldest_results_def Let_def intro: results_ok_filter)

text \<open>An entry is served until the moment the cleanup would remove it.\<close>

lemma cache_get_cleanup:
  assumes "wf_dict (lc_cache db)"
  shows "fst (cache_get now key db) = map_of (lc_cache (snd (cleanup_expired now db))) key"
proof -
  have "map_of (filter (\<lambda>(_, e). P e) d) key = (case map_of d key of Some e \<Rightarrow> if P e then Some e else None | None \<Rightarrow> None)"
    if "wf_dict d" for P and d :: "(string, cache_entry) dict"
    using that
  proof (induction d)
    case (Cons p d)
    obtain k e where p: "p = (k, e)" by (cases p)
    show ?case
    proof (cases "k = key")
      case True
      then have "map_of d key = None" using Cons.prems p by (simp add: map_of_eq_None_iff)
      then show ?thesis using Cons True by (simp add: p)
    qed (use Cons in \<open>simp add: p\<close>)
  qed simp
  from this [OF assms, of "\<lambda>e. \<not> is_expired now e"] show ?thesis
    by (simp add: cache_get_def cleanup_expired_def split: option.splits)
qed

end
