(* ===== verification/Scheduler.thy ===== *)
theory Scheduler
  imports Local_Cache "HOL-Library.List_Lexorder" "HOL-Library.Char_ord"
begin

text \<open>
  The job scheduler of a collector node (\<open>jobs/scheduler.py\<close>): synchronising the job definitions
  with central into memory and SQLite, distributing them over the registered workers, and the
  load it reports.  Central's \<open>get_jobs\<close> is a parameter: for the \<open>since\<close> it is asked with, the
  jobs and the deleted ids, or \<open>None\<close> for an exception.  Persisting a profile is a background
  task of the source; here it is done at once.
\<close>

section \<open>State\<close>

record scheduler =
  sc_my_jobs :: "(string, job_definition) dict"
  sc_workers :: "(string, worker_registration) dict"
  sc_profiles :: "(string, job_profile) dict"
  sc_last_sync :: "rat option"
  sc_sync_count :: nat
  sc_triggers :: "string set"
  sc_deadline_miss_ema :: pyfloat
  sc_cache :: local_cache

definition full_sync_every :: nat where
  "full_sync_every = 10"

definition init_scheduler :: "local_cache \<Rightarrow> scheduler" where
  "init_scheduler cache = \<lparr>sc_my_jobs = [], sc_workers = [], sc_profiles = [], sc_last_sync = None,
     sc_sync_count = 0, sc_triggers = {}, sc_deadline_miss_ema = Fin 0, sc_cache = cache\<rparr>"

section \<open>Jobs and immediate triggers\<close>

definition get_job :: "string \<Rightarrow> scheduler \<Rightarrow> job_definition option" where
  "get_job job_id s = map_of (sc_my_jobs s) job_id"

definition trigger_immediate :: "string \<Rightarrow> scheduler \<Rightarrow> bool \<times> scheduler" where
  "trigger_immediate job_id s =
     (if job_id \<in> set (dict_keys (sc_my_jobs s))
      then (True, s\<lparr>sc_triggers := insert job_id (sc_triggers s)\<rparr>) else (False, s))"

definition pop_immediate_triggers :: "string set \<Rightarrow> scheduler \<Rightarrow> string set \<times> scheduler" where
  "pop_immediate_triggers job_ids s =
     (let matched = sc_triggers s \<inter> job_ids in (matched, s\<lparr>sc_triggers := sc_triggers s - matched\<rparr>))"

section \<open>Loading and synchronising\<close>

definition row_to_profile :: "string \<Rightarrow> profile_row \<Rightarrow> job_profile" where
  "row_to_profile job_id row =
     (new_profile job_id)\<lparr>jp_avg_execution_time := pr_avg_execution_time row,
        jp_last_execution_time := pr_last_execution_time row, jp_max_execution_time := pr_max_execution_time row,
        jp_execution_count := pr_execution_count row, jp_error_count := pr_error_count row,
        jp_last_error_time := pr_last_error_time row, jp_last_run := pr_last_run row,
        jp_is_heavy := pr_is_heavy row\<rparr>"

text \<open>A stored definition that cannot be read is skipped with a warning.\<close>

definition load_job :: "json \<Rightarrow> scheduler \<Rightarrow> scheduler" where
  "load_job d s =
     (case dict_to_job d of
        Inl _ \<Rightarrow> s
      | Inr job \<Rightarrow> s\<lparr>sc_my_jobs := dict_set (jd_job_id job) job (sc_my_jobs s)\<rparr>)"

definition load_profile :: "string \<Rightarrow> scheduler \<Rightarrow> scheduler" where
  "load_profile job_id s =
     (case get_profile job_id (sc_cache s) of
        None \<Rightarrow> s
      | Some row \<Rightarrow> s\<lparr>sc_profiles := dict_set job_id (row_to_profile job_id row) (sc_profiles s)\<rparr>)"

definition initial_load_from_db :: "scheduler \<Rightarrow> scheduler" where
  "initial_load_from_db s =
     (let s1 = fold load_job (get_all_jobs (sc_cache s)) s
      in fold load_profile (dict_keys (sc_my_jobs s1)) s1)"

definition apply_deletion :: "string \<Rightarrow> scheduler \<Rightarrow> scheduler" where
  "apply_deletion job_id s =
     s\<lparr>sc_my_jobs := dict_pop job_id (sc_my_jobs s), sc_profiles := dict_pop job_id (sc_profiles s),
       sc_cache := delete_job job_id (sc_cache s)\<rparr>"

definition remove_stale :: "string \<Rightarrow> scheduler \<Rightarrow> scheduler" where
  "remove_stale job_id s =
     s\<lparr>sc_my_jobs := dict_pop job_id (sc_my_jobs s), sc_profiles := dict_pop job_id (sc_profiles s),
       sc_cache := mark_job_deleted job_id (sc_cache s)\<rparr>"

definition reconcile :: "job_definition list \<Rightarrow> scheduler \<Rightarrow> scheduler" where
  "reconcile jobs s =
     (let valid_ids = set (map jd_job_id jobs);
          stale_ids = filter (\<lambda>jid. jid \<notin> valid_ids) (dict_keys (sc_my_jobs s))
      in fold remove_stale stale_ids s)"

definition ensure_profile :: "string \<Rightarrow> scheduler \<Rightarrow> scheduler" where
  "ensure_profile job_id s =
     (if job_id \<in> set (dict_keys (sc_profiles s)) then s
      else case get_profile job_id (sc_cache s) of
             Some row \<Rightarrow> s\<lparr>sc_profiles := dict_set job_id (row_to_profile job_id row) (sc_profiles s)\<rparr>
           | None \<Rightarrow> s\<lparr>sc_profiles := dict_set job_id (new_profile job_id) (sc_profiles s)\<rparr>)"

definition apply_upsert :: "rat \<Rightarrow> job_definition \<Rightarrow> scheduler \<Rightarrow> scheduler" where
  "apply_upsert now job s =
     (if \<not> jd_enabled job then s\<lparr>sc_my_jobs := dict_pop (jd_job_id job) (sc_my_jobs s)\<rparr>
      else ensure_profile (jd_job_id job)
             (s\<lparr>sc_cache := upsert_job now job None (sc_cache s),
                sc_my_jobs := dict_set (jd_job_id job) job (sc_my_jobs s)\<rparr>))"

type_synonym central_jobs = "rat option \<Rightarrow> (job_definition list \<times> string list) option"

definition begin_sync :: "scheduler \<Rightarrow> scheduler" where
  "begin_sync s =
     (let n = sc_sync_count s + 1
      in s\<lparr>sc_sync_count := n, sc_last_sync := (if n mod full_sync_every = 0 then None else sc_last_sync s)\<rparr>)"

definition sync_jobs :: "central_jobs \<Rightarrow> rat \<Rightarrow> scheduler \<Rightarrow> scheduler" where
  "sync_jobs central now s =
     (let s0 = begin_sync s;
          is_full_sync = (sc_last_sync s0 = None)
      in case central (sc_last_sync s0) of
           None \<Rightarrow> s0
         | Some (jobs, deleted_ids) \<Rightarrow>
             (let s1 = fold apply_deletion deleted_ids (s0\<lparr>sc_last_sync := Some now\<rparr>);
                  s2 = (if is_full_sync then reconcile jobs s1 else s1)
              in fold (apply_upsert now) jobs s2))"

definition force_sync :: "central_jobs \<Rightarrow> rat \<Rightarrow> scheduler \<Rightarrow> scheduler" where
  "force_sync central now s = sync_jobs central now (s\<lparr>sc_last_sync := None\<rparr>)"

section \<open>Workers\<close>

definition register_worker :: "pyfloat \<Rightarrow> string \<Rightarrow> (string \<times> string) set \<Rightarrow> scheduler \<Rightarrow> scheduler" where
  "register_worker now worker_id loaded_apps s =
     s\<lparr>sc_workers := dict_set worker_id
         (case map_of (sc_workers s) worker_id of
            Some w \<Rightarrow> w\<lparr>wr_loaded_apps := loaded_apps, wr_last_seen := now\<rparr>
          | None \<Rightarrow> \<lparr>wr_worker_id = worker_id, wr_loaded_apps = loaded_apps, wr_job_count = 0, wr_last_seen = now\<rparr>)
         (sc_workers s)\<rparr>"

fun index_of :: "'a \<Rightarrow> 'a list \<Rightarrow> nat" where
  "index_of x [] = 0"
| "index_of x (y # ys) = (if x = y then 0 else Suc (index_of x ys))"

definition sorted_jobs :: "scheduler \<Rightarrow> job_definition list" where
  "sorted_jobs s = sort_key jd_job_id (dict_values (sc_my_jobs s))"

definition active_workers :: "scheduler \<Rightarrow> string list" where
  "active_workers s = sort (dict_keys (sc_workers s))"

definition assign_jobs_to_worker :: "string \<Rightarrow> scheduler \<Rightarrow> job_definition list" where
  "assign_jobs_to_worker worker_id s =
     (let ws = active_workers s; n = (if length ws = 0 then 1 else length ws)
      in if worker_id \<notin> set ws then []
         else map snd (filter (\<lambda>(i, job). i mod n = index_of worker_id ws) (enumerate 0 (sorted_jobs s))))"

definition get_or_create_profile :: "string \<Rightarrow> scheduler \<Rightarrow> job_profile \<times> scheduler" where
  "get_or_create_profile job_id s =
     (case map_of (sc_profiles s) job_id of
        Some p \<Rightarrow> (p, s)
      | None \<Rightarrow> (new_profile job_id, s\<lparr>sc_profiles := dict_set job_id (new_profile job_id) (sc_profiles s)\<rparr>))"

fun with_profiles :: "job_definition list \<Rightarrow> scheduler \<Rightarrow> (job_definition \<times> job_profile) list \<times> scheduler" where
  "with_profiles [] s = ([], s)"
| "with_profiles (j # js) s =
     (let (p, s1) = get_or_create_profile (jd_job_id j) s; (r, s2) = with_profiles js s1 in ((j, p) # r, s2))"

definition get_jobs_for_worker ::
    "pyfloat \<Rightarrow> string \<Rightarrow> (string \<times> string) list \<Rightarrow> scheduler \<Rightarrow> (job_definition \<times> job_profile) list \<times> scheduler" where
  "get_jobs_for_worker now worker_id loaded_apps s =
     (let s1 = register_worker now worker_id (set loaded_apps) s
      in if sc_my_jobs s1 = [] then ([], s1)
         else with_profiles (assign_jobs_to_worker worker_id s1) s1)"

definition update_job_profile ::
    "pyfloat \<Rightarrow> pyfloat \<Rightarrow> pyfloat \<Rightarrow> string \<Rightarrow> pyfloat \<Rightarrow> bool \<Rightarrow> scheduler \<Rightarrow> scheduler" where
  "update_job_profile now ema_alpha heavy_threshold job_id execution_time error s =
     (let (p, s1) = get_or_create_profile job_id s;
          p1 = update_after_execution now execution_time ema_alpha heavy_threshold p;
          p2 = (if error then p1\<lparr>jp_error_count := jp_error_count p1 + 1, jp_last_error_time := now\<rparr> else p1)
      in s1\<lparr>sc_profiles := dict_set job_id p2 (sc_profiles s1), sc_cache := upsert_profile p2 (sc_cache s1)\<rparr>)"

section \<open>Load\<close>

definition job_load :: "scheduler \<Rightarrow> job_definition \<Rightarrow> pyfloat" where
  "job_load s job =
     (case map_of (sc_profiles s) (jd_job_id job) of
        Some p \<Rightarrow> load_contribution p (jd_interval job)
      | None \<Rightarrow> fdiv_int (Fin 5) (max (jd_interval job) 1))"

definition get_current_load_info :: "string \<Rightarrow> scheduler \<Rightarrow> node_load_info" where
  "get_current_load_info node_id s =
     (let load_score = foldl (\<lambda>acc j. fadd acc (job_load s j)) (Fin 0) (dict_values (sc_my_jobs s));
          n = int (length (sc_workers s));
          effective = (if 0 < n then fdiv_int load_score n else load_score)
      in \<lparr>nl_node_id = node_id, nl_load_score = py_round 4 load_score, nl_worker_count = n,
          nl_effective_load = py_round 4 effective,
          nl_deadline_miss_rate = py_round 4 (sc_deadline_miss_ema s),
          nl_total_jobs = int (length (sc_my_jobs s))\<rparr>)"

definition get_job_costs :: "scheduler \<Rightarrow> (string, pyfloat) dict" where
  "get_job_costs s =
     List.map_filter (\<lambda>(job_id, p).
         if 3 \<le> jp_execution_count p \<and> job_id \<in> set (dict_keys (sc_my_jobs s))
         then Some (job_id, py_round 3 (jp_avg_execution_time p)) else None)
       (sc_profiles s)"

end
