(* ===== verification/Scheduler_Props.thy ===== *)
theory Scheduler_Props
  imports Scheduler "HOL-Library.Multiset"
begin

text \<open>
  Properties of the scheduler: the workers share the jobs out exactly, a full sync makes memory
  what central says, and what a restart brings back from SQLite.
\<close>

section \<open>Round robin\<close>

definition residue :: "nat \<Rightarrow> nat \<Rightarrow> nat \<Rightarrow> 'a list \<Rightarrow> 'a list" where
  "residue n k m xs = map snd (filter (\<lambda>(i, x). i mod n = k) (enumerate m xs))"

lemma residue_simps [simp]:
  "residue n k m [] = []"
  "residue n k m (x # xs) = (if m mod n = k then x # residue n k (Suc m) xs else residue n k (Suc m) xs)"
  by (simp_all add: residue_def)

lemma residue_partition:
  assumes "0 < n"
  shows "(\<Sum>k<n. mset (residue n k m xs)) = mset xs"
proof (induction xs arbitrary: m)
  case (Cons x xs)
  have "(\<Sum>k<n. mset (residue n k m (x # xs))) =
      (\<Sum>k<n. (if m mod n = k then {#x#} else {#}) + mset (residue n k (Suc m) xs))"
    by (rule sum.cong) auto
  also have "\<dots> = {#x#} + mset xs"
    using assms by (simp add: sum.distrib Cons.IH sum.delta)
  finally show ?case by simp
qed simp

lemma length_residue:
  assumes "k < n"
  shows "length (residue n k 0 xs) = (length xs + n - 1 - k) div n"
proof (induction xs rule: rev_induct)
  case Nil
  then show ?case using assms by simp
next
  case (snoc x xs)
  let ?N = "length xs"
  have len: "length (residue n k 0 (xs @ [x])) = length (residue n k 0 xs) + (if ?N mod n = k then 1 else 0)"
    by (simp add: residue_def enumerate_append_eq)
  have s: "Suc (?N + n - 1 - k) = ?N + n - k" using assms by simp
  have "(?N + n - k) mod n = 0 \<longleftrightarrow> ?N mod n = k"
  proof
    assume "(?N + n - k) mod n = 0"
    then have "((?N + n - k) + k) mod n = k mod n" by (metis add_0 mod_add_left_eq)
    then show "?N mod n = k" using assms by simp
  next
    assume "?N mod n = k"
    then have "?N = n * (?N div n) + k" by (metis mult_div_mod_eq)
    then have "?N + n - k = n * (?N div n + 1)" using assms by (simp add: algebra_simps)
    then show "(?N + n - k) mod n = 0" by (metis mod_mult_self1_is_0)
  qed
  then have "(?N + n - k) div n = (?N + n - 1 - k) div n + (if ?N mod n = k then 1 else 0)"
    using div_Suc [of "?N + n - 1 - k" n] unfolding s by simp
  then show ?case using snoc len assms by simp
qed

lemma index_of_nth: "distinct xs \<Longrightarrow> k < length xs \<Longrightarrow> index_of (xs ! k) xs = k"
  by (induction xs arbitrary: k) (auto simp: nth_Cons split: nat.splits)

lemma assign_nth:
  assumes "wf_dict (sc_workers s)" and "k < length (active_workers s)"
  shows "assign_jobs_to_worker (active_workers s ! k) s = residue (length (active_workers s)) k 0 (sorted_jobs s)"
proof -
  have "distinct (active_workers s)" using assms(1) by (simp add: active_workers_def)
  then show ?thesis
    using assms(2) by (simp add: assign_jobs_to_worker_def Let_def index_of_nth residue_def) auto
qed

lemma mset_concat_map: "mset (concat (map f [0..<n])) = (\<Sum>k<n. mset (f k))"
  by (induction n) (auto simp: lessThan_Suc)

lemma assign_partition:
  assumes "wf_dict (sc_workers s)" and "sc_workers s \<noteq> []"
  shows "mset (concat (map (\<lambda>w. assign_jobs_to_worker w s) (active_workers s))) = mset (dict_values (sc_my_jobs s))"
proof -
  let ?ws = "active_workers s"
  have n: "0 < length ?ws" using assms(2) by (simp add: active_workers_def)
  have "map (\<lambda>w. assign_jobs_to_worker w s) ?ws = map (\<lambda>k. assign_jobs_to_worker (?ws ! k) s) [0..<length ?ws]"
    by (rule nth_equalityI) auto
  also have "\<dots> = map (\<lambda>k. residue (length ?ws) k 0 (sorted_jobs s)) [0..<length ?ws]"
    using assign_nth [OF assms(1)] by auto
  finally show ?thesis using residue_partition [OF n, of 0 "sorted_jobs s"]
    by (simp add: mset_concat_map sorted_jobs_def)
qed

lemma assign_balanced:
  assumes "wf_dict (sc_workers s)" and "v \<in> set (active_workers s)" and "w \<in> set (active_workers s)"
  shows "length (assign_jobs_to_worker v s) \<le> length (assign_jobs_to_worker w s) + 1"
proof -
  let ?n = "length (active_workers s)" and ?N = "length (sorted_jobs s)"
  obtain i j where i: "i < ?n" "v = active_workers s ! i" and j: "j < ?n" "w = active_workers s ! j"
    using assms(2,3) by (auto simp: in_set_conv_nth)
  define b where "b = ?N + ?n - 1 - j"
  have "(?N + ?n - 1 - i) div ?n \<le> (b + ?n) div ?n"
    using i(1) j(1) unfolding b_def by (intro div_le_mono) linarith
  also have "\<dots> = b div ?n + 1" using j(1) by (intro div_add_self2) linarith
  finally show ?thesis using assign_nth [OF assms(1)] i j by (simp add: length_residue b_def)
qed

section \<open>A full sync\<close>

lemma ensure_profile_jobs [simp]:
  "sc_my_jobs (ensure_profile k s) = sc_my_jobs s" "sc_cache (ensure_profile k s) = sc_cache s"
  by (simp_all add: ensure_profile_def split: option.split)

lemma apply_upsert_jobs:
  "map_of (sc_my_jobs (apply_upsert now j s)) =
     (map_of (sc_my_jobs s))(jd_job_id j := (if jd_enabled j then Some j else None))"
  by (simp add: apply_upsert_def)

definition latest :: "job_definition list \<Rightarrow> string \<Rightarrow> job_definition option" where
  "latest jobs k = map_of (rev (map (\<lambda>j. (jd_job_id j, j)) jobs)) k"

lemma fold_upsert_jobs:
  "map_of (sc_my_jobs (fold (apply_upsert now) jobs s)) k =
     (case latest jobs k of Some j \<Rightarrow> if jd_enabled j then Some j else None | None \<Rightarrow> map_of (sc_my_jobs s) k)"
  by (induction jobs arbitrary: s) (auto simp: latest_def apply_upsert_jobs map_add_def split: option.splits)

lemma latest_None: "latest jobs k = None \<longleftrightarrow> k \<notin> set (map jd_job_id jobs)"
  by (simp add: latest_def map_of_eq_None_iff image_image)

lemma fold_remove_stale_jobs:
  "map_of (sc_my_jobs (fold remove_stale ks s)) k = (if k \<in> set ks then None else map_of (sc_my_jobs s) k)"
  by (induction ks arbitrary: s) (auto simp: remove_stale_def)

lemma reconcile_jobs: "map_of (sc_my_jobs (reconcile jobs s)) k =
    (if k \<in> set (map jd_job_id jobs) then map_of (sc_my_jobs s) k else None)"
  by (auto simp: reconcile_def Let_def fold_remove_stale_jobs map_of_eq_None_iff [THEN iffD2])

lemma full_sync_jobs:
  assumes "sc_last_sync (begin_sync s) = None" and "central None = Some (jobs, deleted)"
  shows "map_of (sc_my_jobs (sync_jobs central now s)) k =
    (case latest jobs k of Some j \<Rightarrow> if jd_enabled j then Some j else None | None \<Rightarrow> None)"
proof (cases "k \<in> set (map jd_job_id jobs)")
  case True
  then have "latest jobs k \<noteq> None" using latest_None by blast
  then show ?thesis using assms by (auto simp: sync_jobs_def Let_def fold_upsert_jobs)
next
  case False
  then show ?thesis
    using assms latest_None [of jobs k] by (simp add: sync_jobs_def Let_def fold_upsert_jobs reconcile_jobs)
qed

section \<open>What SQLite remembers\<close>

text \<open>The live definition a row stands for, and stores whose rows hold the definition of their key.\<close>

definition stored :: "local_cache \<Rightarrow> string \<Rightarrow> job_definition option" where
  "stored db k = (case map_of (lc_jobs db) k of
     Some r \<Rightarrow> if jr_deleted r then None else (case dict_to_job (jr_definition_json r) of Inr j \<Rightarrow> Some j | Inl _ \<Rightarrow> None)
   | None \<Rightarrow> None)"

definition store_ok :: "local_cache \<Rightarrow> bool" where
  "store_ok db \<longleftrightarrow> wf_dict (lc_jobs db) \<and>
     (\<forall>(k, r) \<in> set (lc_jobs db). \<exists>j. jr_definition_json r = job_to_json j \<and> jd_job_id j = k)"

definition persisted :: "scheduler \<Rightarrow> bool" where
  "persisted s \<longleftrightarrow> store_ok (sc_cache s) \<and> (\<forall>k. map_of (sc_my_jobs s) k = stored (sc_cache s) k)"

lemma store_ok_row: "store_ok db \<Longrightarrow> map_of (lc_jobs db) k = Some r \<Longrightarrow>
    \<exists>j. jr_definition_json r = job_to_json j \<and> jd_job_id j = k"
  by (auto simp: store_ok_def dest!: map_of_SomeD)

lemma set_dict_set: "wf_dict d \<Longrightarrow> set (dict_set k v d) \<subseteq> insert (k, v) (set d)"
  by (induction d) auto

lemma set_dict_pop: "set (dict_pop k d) \<subseteq> set d"
  by (induction d) auto

lemma store_ok_set:
  assumes "store_ok db" and "\<exists>j. jr_definition_json r = job_to_json j \<and> jd_job_id j = k"
  shows "store_ok (db\<lparr>lc_jobs := dict_set k r (lc_jobs db)\<rparr>)"
  using assms set_dict_set [of "lc_jobs db" k r] by (fastforce simp: store_ok_def)

lemma delete_job_stored:
  assumes "store_ok db"
  shows "store_ok (delete_job k db) \<and> stored (delete_job k db) = (stored db)(k := None)"
proof
  show "store_ok (delete_job k db)"
    using assms set_dict_pop [of k "lc_jobs db"] by (fastforce simp: store_ok_def delete_job_def)
  show "stored (delete_job k db) = (stored db)(k := None)"
    by (rule ext) (simp add: stored_def delete_job_def)
qed

lemma mark_deleted_stored:
  assumes "store_ok db"
  shows "store_ok (mark_job_deleted k db) \<and> stored (mark_job_deleted k db) = (stored db)(k := None)"
proof (cases "map_of (lc_jobs db) k")
  case None
  then show ?thesis using assms by (auto simp: mark_job_deleted_def stored_def)
next
  case (Some r)
  then have "\<exists>j. jr_definition_json (r\<lparr>jr_deleted := True\<rparr>) = job_to_json j \<and> jd_job_id j = k"
    using store_ok_row [OF assms Some] by simp
  from store_ok_set [OF assms this] show ?thesis
    by (auto simp: mark_job_deleted_def Some stored_def)
qed

lemma upsert_job_stored:
  assumes "store_ok db"
  shows "store_ok (upsert_job now j h db) \<and> stored (upsert_job now j h db) = (stored db)(jd_job_id j := Some j)"
proof -
  define r where "r = (case map_of (lc_jobs db) (jd_job_id j) of
     None \<Rightarrow> \<lparr>jr_definition_json = job_to_json j, jr_home_node = h, jr_executing_node = None, jr_is_mine = False,
               jr_last_synced = now, jr_updated_at = jd_updated_at j, jr_deleted = False\<rparr>
   | Some r \<Rightarrow> r\<lparr>jr_definition_json := job_to_json j, jr_home_node := (if h = None then jr_home_node r else h),
               jr_last_synced := now, jr_updated_at := jd_updated_at j, jr_deleted := False\<rparr>)"
  have r: "jr_definition_json r = job_to_json j" "\<not> jr_deleted r" by (simp_all add: r_def split: option.split)
  have u: "upsert_job now j h db = db\<lparr>lc_jobs := dict_set (jd_job_id j) r (lc_jobs db)\<rparr>"
    by (simp add: upsert_job_def Let_def r_def)
  show ?thesis
  proof
    show "store_ok (upsert_job now j h db)" unfolding u using assms r by (intro store_ok_set) auto
    show "stored (upsert_job now j h db) = (stored db)(jd_job_id j := Some j)"
      unfolding u by (rule ext) (simp add: stored_def r dict_to_job_inverse)
  qed
qed

lemma persistedI:
  "store_ok (sc_cache s) \<Longrightarrow> map_of (sc_my_jobs s) = stored (sc_cache s) \<Longrightarrow> persisted s"
  by (simp add: persisted_def)

lemma persistedD: "persisted s \<Longrightarrow> store_ok (sc_cache s) \<and> map_of (sc_my_jobs s) = stored (sc_cache s)"
  by (auto simp: persisted_def)

lemma persisted_deletion: "persisted s \<Longrightarrow> persisted (apply_deletion k s)"
  using delete_job_stored [of "sc_cache s" k] persistedD [of s] by (intro persistedI) (simp_all add: apply_deletion_def)

lemma persisted_stale: "persisted s \<Longrightarrow> persisted (remove_stale k s)"
  using mark_deleted_stored [of "sc_cache s" k] persistedD [of s] by (intro persistedI) (simp_all add: remove_stale_def)

lemma persisted_upsert: "persisted s \<Longrightarrow> jd_enabled j \<Longrightarrow> persisted (apply_upsert now j s)"
  using upsert_job_stored [of "sc_cache s" now j None] persistedD [of s]
  by (intro persistedI) (simp_all add: apply_upsert_def)

lemma persisted_fold: "persisted s \<Longrightarrow> (\<And>x t. x \<in> set xs \<Longrightarrow> persisted t \<Longrightarrow> persisted (f x t)) \<Longrightarrow> persisted (fold f xs s)"
  by (induction xs arbitrary: s) auto

lemma persisted_frame: "persisted s \<Longrightarrow> sc_my_jobs t = sc_my_jobs s \<Longrightarrow> sc_cache t = sc_cache s \<Longrightarrow> persisted t"
  by (simp add: persisted_def)

lemma begin_sync_frame [simp]: "sc_my_jobs (begin_sync s) = sc_my_jobs s" "sc_cache (begin_sync s) = sc_cache s"
  by (simp_all add: begin_sync_def Let_def)

lemma persisted_sync:
  assumes p: "persisted s" and en: "\<And>jobs deleted. central (sc_last_sync (begin_sync s)) = Some (jobs, deleted) \<Longrightarrow>
      \<forall>j \<in> set jobs. jd_enabled j"
  shows "persisted (sync_jobs central now s)"
proof (cases "central (sc_last_sync (begin_sync s))")
  case None
  then show ?thesis using persisted_frame [OF p] by (simp add: sync_jobs_def Let_def)
next
  case (Some jd)
  obtain jobs deleted where jd: "jd = (jobs, deleted)" by (cases jd)
  let ?s1 = "fold apply_deletion deleted ((begin_sync s)\<lparr>sc_last_sync := Some now\<rparr>)"
  have "persisted ((begin_sync s)\<lparr>sc_last_sync := Some now\<rparr>)" using persisted_frame [OF p] by simp
  then have "persisted ?s1" by (rule persisted_fold) (rule persisted_deletion)
  moreover from this have "persisted (reconcile jobs ?s1)"
    unfolding reconcile_def Let_def by (rule persisted_fold) (rule persisted_stale)
  moreover have "persisted t \<Longrightarrow> persisted (fold (apply_upsert now) jobs t)" for t
    by (rule persisted_fold) (use en Some jd persisted_upsert in auto)
  ultimately show ?thesis by (simp add: sync_jobs_def Let_def Some jd)
qed

text \<open>Reading the store back.\<close>

lemma map_of_rev_distinct: "wf_dict d \<Longrightarrow> map_of (rev d) = map_of d"
  by (rule ext) (metis distinct_rev map_of_eqI map_of_eq_Some_iff rev_map set_rev option.exhaust)

lemma dict_to_job_node_keys: "dict_to_job (with_node_keys r (job_to_json j)) = Inr j"
  by (simp add: job_to_json_def required_def dict_get_def map_result_map)

lemma load_all_jobs:
  assumes "\<forall>d \<in> set ds. \<exists>j. dict_to_job d = Inr j"
  shows "map_of (sc_my_jobs (fold load_job ds s)) =
    map_of (sc_my_jobs s) ++ map_of (rev (map (\<lambda>d. let j = projr (dict_to_job d) in (jd_job_id j, j)) ds))"
  using assms
proof (induction ds arbitrary: s)
  case (Cons d ds)
  then obtain j where "dict_to_job d = Inr j" by auto
  with Cons show ?case by (auto simp: load_job_def map_add_upd_left fun_eq_iff map_add_def split: option.splits)
qed simp

lemma load_profile_jobs [simp]: "sc_my_jobs (fold load_profile ks s) = sc_my_jobs s"
  by (induction ks arbitrary: s) (auto simp: load_profile_def split: option.splits)

lemma reload_jobs:
  assumes "store_ok db"
  shows "map_of (sc_my_jobs (initial_load_from_db (init_scheduler db))) = stored db"
proof -
  let ?rows = "filter (\<lambda>(_, r). \<not> jr_deleted r) (lc_jobs db)"
  have row: "dict_to_job (with_node_keys r (jr_definition_json r)) = dict_to_job (jr_definition_json r) \<and>
      (\<exists>j. dict_to_job (jr_definition_json r) = Inr j \<and> jd_job_id j = k)" if "(k, r) \<in> set (lc_jobs db)" for k r
  proof -
    obtain j where "jr_definition_json r = job_to_json j" "jd_job_id j = k"
      using assms \<open>(k, r) \<in> set (lc_jobs db)\<close> by (auto simp: store_ok_def)
    then show ?thesis by (simp add: dict_to_job_node_keys dict_to_job_inverse del: dict_to_job.simps)
  qed
  have all: "\<forall>d \<in> set (get_all_jobs db). \<exists>j. dict_to_job d = Inr j"
    using row by (fastforce simp: get_all_jobs_def)
  have "map (\<lambda>d. let j = projr (dict_to_job d) in (jd_job_id j, j)) (get_all_jobs db) =
      map (\<lambda>(k, r). (k, projr (dict_to_job (jr_definition_json r)))) ?rows"
    unfolding get_all_jobs_def map_map by (rule map_cong) (use row in \<open>fastforce simp: Let_def\<close>)+
  then have "map_of (sc_my_jobs (initial_load_from_db (init_scheduler db))) =
      map_of (rev (map (\<lambda>(k, r). (k, projr (dict_to_job (jr_definition_json r)))) ?rows))"
    using load_all_jobs [OF all, of "init_scheduler db"]
    by (simp add: initial_load_from_db_def Let_def init_scheduler_def)
  also have "\<dots> = map_of (map (\<lambda>(k, r). (k, projr (dict_to_job (jr_definition_json r)))) ?rows)"
  proof (rule map_of_rev_distinct)
    show "distinct (map fst (map (\<lambda>(k, r). (k, projr (dict_to_job (jr_definition_json r)))) ?rows))"
      using assms by (simp add: store_ok_def comp_def case_prod_beta distinct_map_filter)
  qed
  also have "\<dots> = stored db"
  proof
    fix k
    have "map_of (filter (\<lambda>(_, r). \<not> jr_deleted r) d) k =
        (case map_of d k of Some r \<Rightarrow> if jr_deleted r then None else Some r | None \<Rightarrow> None)"
      if "wf_dict d" for d :: "(string, job_row) dict"
      using that
    proof (induction d)
      case (Cons p d)
      obtain a b where p: "p = (a, b)" by (cases p)
      show ?case
      proof (cases "a = k")
        case True
        then have "map_of d k = None" using Cons.prems p by (simp add: map_of_eq_None_iff)
        then show ?thesis using Cons True by (simp add: p)
      qed (use Cons in \<open>simp add: p\<close>)
    qed simp
    then have "map_of ?rows k = (case map_of (lc_jobs db) k of Some r \<Rightarrow> if jr_deleted r then None else Some r | None \<Rightarrow> None)"
      using assms by (simp add: store_ok_def)
    then show "map_of (map (\<lambda>(k, r). (k, projr (dict_to_job (jr_definition_json r)))) ?rows) k = stored db k"
    proof (cases "map_of (lc_jobs db) k")
      case (Some r)
      then obtain j where "dict_to_job (jr_definition_json r) = Inr j" using row map_of_SomeD by metis
      then show ?thesis using \<open>map_of ?rows k = _\<close> Some by (simp add: map_of_map stored_def)
    qed (simp add: map_of_map stored_def)
  qed
  finally show ?thesis .
qed

section \<open>Properties\<close>

definition demo_job :: job_definition where
  "demo_job = \<lparr>jd_job_id = ''j1'', jd_device_id = None, jd_device_host = Some ''10.0.0.1'', jd_app_id = ''ping_check'',
     jd_app_version = ''1.0.0'', jd_credential_names = [], jd_interval = 60, jd_parameters = JObj [], jd_role = None,
     jd_max_execution_time = 120, jd_enabled = True, jd_updated_at = [], jd_app_checksum = [],
     jd_connector_bindings = []\<rparr>"

definition empty_cache :: local_cache where
  "empty_cache = \<lparr>lc_cache = [], lc_jobs = [], lc_profiles = [], lc_apps = [], lc_credentials = [],
     lc_results = [], lc_next_id = 1, lc_app_cache = []\<rparr>"

definition demo_central :: central_jobs where
  "demo_central since = Some ([demo_job, demo_job\<lparr>jd_job_id := ''j2''\<rparr>], [])"

definition demo_scheduler :: scheduler where
  "demo_scheduler = register_worker (Fin 0) ''w2'' {} (register_worker (Fin 0) ''w1'' {}
     (sync_jobs demo_central 100 (init_scheduler empty_cache)))"

lemma demo_scheduler_keys: "dict_keys (sc_workers demo_scheduler) = [''w1'', ''w2'']"
  by code_simp

text \<open>
  C30: The registered workers share the jobs out exactly: put together, what the workers are given is
  the collector's jobs, each once, and no worker gets more than one job more than another.
\<close>

theorem scheduler_partitions_jobs:
  assumes "wf_dict (sc_workers s)" and "sc_workers s \<noteq> []"
  shows "mset (concat (map (\<lambda>w. assign_jobs_to_worker w s) (active_workers s))) = mset (dict_values (sc_my_jobs s)) \<and>
    (\<forall>v w. v \<in> set (active_workers s) \<longrightarrow> w \<in> set (active_workers s) \<longrightarrow>
       length (assign_jobs_to_worker v s) \<le> length (assign_jobs_to_worker w s) + 1)"
  using assign_partition [OF assms] assign_balanced [OF assms(1)] by blast

theorem scheduler_partitions_jobs_witness:
  "mset (concat (map (\<lambda>w. assign_jobs_to_worker w demo_scheduler) (active_workers demo_scheduler))) =
     mset (dict_values (sc_my_jobs demo_scheduler)) \<and>
   length (assign_jobs_to_worker ''w1'' demo_scheduler) \<le> length (assign_jobs_to_worker ''w2'' demo_scheduler) + 1"
proof -
  have "wf_dict (sc_workers demo_scheduler)" "sc_workers demo_scheduler \<noteq> []"
    "''w1'' \<in> set (active_workers demo_scheduler)" "''w2'' \<in> set (active_workers demo_scheduler)"
    using demo_scheduler_keys by (auto simp: active_workers_def)
  then show ?thesis using scheduler_partitions_jobs [of demo_scheduler] by blast
qed

text \<open>
  After a full sync that central answers, the jobs in memory are exactly the enabled ones of the
  answer, each as last listed, whatever was there before and whatever ids were deleted.
\<close>

theorem scheduler_full_sync:
  assumes "sc_last_sync (begin_sync s) = None" and "central None = Some (jobs, deleted)"
  shows "get_job k (sync_jobs central now s) =
    (case map_of (rev (map (\<lambda>j. (jd_job_id j, j)) jobs)) k of
       Some j \<Rightarrow> if jd_enabled j then Some j else None
     | None \<Rightarrow> None)"
  using full_sync_jobs [of s central jobs deleted now k] assms by (simp add: get_job_def latest_def)

theorem scheduler_full_sync_witness:
  "get_job ''j2'' (sync_jobs demo_central 100 (init_scheduler empty_cache)) = Some (demo_job\<lparr>jd_job_id := ''j2''\<rparr>)"
  using scheduler_full_sync [of "init_scheduler empty_cache" demo_central "[demo_job, demo_job\<lparr>jd_job_id := ''j2''\<rparr>]" "[]" "''j2''" 100]
  by (simp add: begin_sync_def init_scheduler_def demo_central_def full_sync_every_def demo_job_def Let_def)

text \<open>
  C31: A restart brings the same jobs back.  As long as central lists no disabled job, the live rows
  of SQLite are the jobs in memory after every sync, full or delta, answered or failed, and a
  scheduler started from that SQLite file loads exactly them.
\<close>

theorem scheduler_restart_keeps_jobs:
  assumes "persisted s" and "\<And>jobs deleted. central (sc_last_sync (begin_sync s)) = Some (jobs, deleted) \<Longrightarrow>
      \<forall>j \<in> set jobs. jd_enabled j"
  shows "let s' = sync_jobs central now s in persisted s' \<and>
    map_of (sc_my_jobs (initial_load_from_db (init_scheduler (sc_cache s')))) = map_of (sc_my_jobs s')"
proof -
  have "persisted (sync_jobs central now s)" using assms by (rule persisted_sync)
  then show ?thesis using reload_jobs persistedD by (simp add: Let_def)
qed

lemma demo_persisted: "persisted (init_scheduler empty_cache)"
  by (simp add: persisted_def store_ok_def stored_def init_scheduler_def empty_cache_def)

theorem scheduler_restart_keeps_jobs_witness:
  "let s' = sync_jobs demo_central 100 (init_scheduler empty_cache) in persisted s' \<and>
    map_of (sc_my_jobs (initial_load_from_db (init_scheduler (sc_cache s')))) = map_of (sc_my_jobs s')"
  by (rule scheduler_restart_keeps_jobs [OF demo_persisted]) (auto simp: demo_central_def demo_job_def)

text \<open>
  A disabled job comes back with a restart.  When central reports a stored job as disabled, the
  sync takes it out of memory but not out of SQLite, and the next start loads and runs it again.
\<close>

theorem scheduler_disabled_job_returns:
  assumes "persisted s" and "get_job (jd_job_id j) s = Some old" and "\<not> jd_enabled j"
    and "central (sc_last_sync (begin_sync s)) = Some ([j], [])"
  shows "let s' = sync_jobs central now s in get_job (jd_job_id j) s' = None \<and>
    get_job (jd_job_id j) (initial_load_from_db (init_scheduler (sc_cache s'))) = Some old"
proof -
  let ?s0 = "(begin_sync s)\<lparr>sc_last_sync := Some now\<rparr>"
  have p0: "persisted ?s0" using persisted_frame [OF assms(1)] by simp
  have pr: "persisted (reconcile [j] ?s0)"
    unfolding reconcile_def Let_def by (rule persisted_fold [OF p0]) (rule persisted_stale)
  have "\<exists>t. persisted t \<and> map_of (sc_my_jobs t) (jd_job_id j) = Some old \<and>
      sync_jobs central now s = apply_upsert now j t"
    using p0 pr assms(2,4) reconcile_jobs [of "[j]" ?s0 "jd_job_id j"]
    by (cases "sc_last_sync (begin_sync s) = None") (auto simp: sync_jobs_def Let_def get_job_def)
  then obtain t where t: "persisted t" "map_of (sc_my_jobs t) (jd_job_id j) = Some old"
    "sync_jobs central now s = apply_upsert now j t" by blast
  have "map_of (sc_my_jobs (initial_load_from_db (init_scheduler (sc_cache t)))) (jd_job_id j) = Some old"
    using reload_jobs [of "sc_cache t"] persistedD [OF t(1)] t(2) by simp
  then show ?thesis using assms(3) by (simp add: t(3) apply_upsert_def get_job_def Let_def)
qed

definition demo_disable :: central_jobs where
  "demo_disable since = Some ([demo_job\<lparr>jd_enabled := False\<rparr>], [])"

theorem scheduler_disabled_job_returns_witness:
  "let s' = sync_jobs demo_disable 200 (sync_jobs demo_central 100 (init_scheduler empty_cache)) in get_job ''j1'' s' = None \<and>
    get_job ''j1'' (initial_load_from_db (init_scheduler (sc_cache s'))) = Some demo_job"
proof -
  have p: "persisted (sync_jobs demo_central 100 (init_scheduler empty_cache))"
    by (rule persisted_sync [OF demo_persisted]) (auto simp: demo_central_def demo_job_def)
  have g: "get_job (jd_job_id (demo_job\<lparr>jd_enabled := False\<rparr>)) (sync_jobs demo_central 100 (init_scheduler empty_cache)) = Some demo_job"
    by (simp add: get_job_def full_sync_jobs [of _ demo_central "[demo_job, demo_job\<lparr>jd_job_id := ''j2''\<rparr>]" "[]"]
        begin_sync_def init_scheduler_def demo_central_def full_sync_every_def demo_job_def latest_def)
  show ?thesis
    using scheduler_disabled_job_returns [OF p g, of demo_disable 200] by (simp add: demo_disable_def demo_job_def)
qed

end
