(* ===== verification/Collector_Lifecycle_Results.thy ===== *)
theory Collector_Lifecycle_Results
  imports Collector_Lifecycle_Props Job_Ring_Props Scheduler_Props
begin

text \<open>
  The properties of the life of a collector: who may work, how often a token counts, what becomes of
  the jobs of a collector that stays silent, what its configuration holds, and which keys are left.
\<close>

section \<open>Approval\<close>

definition working :: "string \<Rightarrow> registry \<Rightarrow> bool" where
  "working i s \<longleftrightarrow> (\<exists>c \<in> set (rg_collectors s). cl_id c = i \<and> cl_status c \<in> {''ACTIVE'', ''DOWN''})"

lemma starts_working:
  assumes "registry_ok s" and "fleet_step hash uuid_of e s = Some s'" and "working i s'" and "\<not> working i s"
  shows "\<exists>now a j g. e = Approve now a j g \<and> uuid_of j = Some i \<and> handle hash uuid_of e s = Inr s'"
proof -
  obtain c' where c': "c' \<in> set (rg_collectors s')" "cl_id c' = i" "cl_status c' \<in> {''ACTIVE'', ''DOWN''}"
    using assms(3) by (auto simp: working_def)
  have new: "cl_id c = i \<Longrightarrow> c \<in> set (rg_collectors s) \<Longrightarrow> cl_status c \<in> {''PENDING'', ''REJECTED''}" for c
    using assms(1,4) by (auto simp: working_def registry_ok_def collector_ok_def)
  have "handle hash uuid_of e s = Inr s'"
    using assms(2-4) by (auto simp: fleet_step_def split: sum.splits)
  moreover have "\<exists>now a j g. e = Approve now a j g \<and> uuid_of j = Some i"
  proof (rule fleet_step_cases [OF assms(2) registry_ok_ids [OF assms(1)]])
    assume "rows_kept uuid_of e s s'"
    then obtain c where c: "c \<in> set (rg_collectors s)" "row_change uuid_of e c c'"
      using c'(1) by (auto simp: rows_kept_def)
    then have "concerns uuid_of e c" "status_edge e (cl_status c) (cl_status c')" "cl_id c = i"
        "cl_status c \<in> {''PENDING'', ''REJECTED''}"
      using c' new [of c] by (auto simp: row_change_def)
    then show ?thesis using c'(3) by (cases e) auto
  next
    assume "rows_added s s'"
    then show ?thesis using c' new by (fastforce simp: rows_added_def)
  next
    assume "rows_removed s s'"
    then show ?thesis using c' new by (fastforce simp: rows_removed_def)
  qed
  ultimately show ?thesis by blast
qed


section \<open>Tokens\<close>

text \<open>
  C22: A one-time token registers one collector.  Once a registration with it has succeeded, every later
  registration that finds this token is refused, whatever requests came in between, as long as they
  are served one after another (\<open>one_time_token_race\<close> shows what happens otherwise).
\<close>

theorem one_time_token_registers_once:
  assumes "no_collectors s0" and "run_events (fleet_step hash uuid_of) before s0 = Some s"
    and "find_registration_token hash req s = Some t" and "rt_one_time t"
    and "register_collector hash now i raw req s = Inr (cid, s1)"
    and "run_events (fleet_step hash uuid_of) es s1 = Some s2" and "\<forall>e \<in> set es. created_token e \<noteq> Some (rt_id t)"
    and "find_registration_token hash req' s2 = Some t'" and "rt_id t' = rt_id t"
  shows "register_collector hash now' i' raw' req' s2 = Inl (Http 401 ''Registration token already used'')"
proof -
  have d: "distinct (map rt_id (rg_tokens s))"
    using collectors.run_inv [OF no_collectors_ok [OF assms(1)] assms(2)] by (simp add: registry_ok_def)
  have t: "t \<in> set (rg_tokens s)"
    using assms(3) by (auto simp: find_registration_token_def find_Some_iff split: option.splits)
  have "spent (rt_id t) s1"
  proof (rule register_tokens [OF assms(5)])
    fix u assume "find_registration_token hash req s = Some u"
      and "rg_tokens s1 = map (mark_used (if rt_one_time u then Some (rt_id u) else None)) (rg_tokens s)"
    then have "rg_tokens s1 = map (mark_used (Some (rt_id t))) (rg_tokens s)" using assms(3,4) by simp
    moreover have "\<forall>v \<in> set (rg_tokens s). rt_id v = rt_id t \<longrightarrow> v = t" using t d by (auto simp: distinct_map inj_on_def)
    ultimately show ?thesis using assms(4) by (auto simp: spent_def mark_used_def)
  qed
  then have "spent (rt_id t) s2" by (rule token_spent_run [OF _ assms(6,7)])
  moreover have "t' \<in> set (rg_tokens s2)"
    using assms(8) by (auto simp: find_registration_token_def find_Some_iff split: option.splits)
  ultimately have "rt_one_time t'" "rt_used t'" using assms(9) by (auto simp: spent_def)
  then show ?thesis by (simp add: register_collector_def register_read_def assms(8) ebind_def)
qed

section \<open>The jobs of a group\<close>

lemma members_distinct:
  "registry_ok s \<Longrightarrow> distinct (map cl_hostname (filter P (rg_collectors s)))"
  by (simp add: registry_ok_def distinct_map_filter)


section \<open>Silent collectors\<close>

lemma get_collector_row:
  assumes "ids_distinct s" and "c \<in> set (rg_collectors s)"
  shows "get_collector (cl_id c) s = Some c"
proof -
  have "get_collector (cl_id c) s \<noteq> None" using assms(2) by (auto simp: get_collector_def find_None_iff)
  then obtain d where "get_collector (cl_id c) s = Some d" by blast
  then show ?thesis using get_collector_Some same_row [OF assms] by blast
qed

lemma ids_kept: "map cl_id (rg_collectors (health_check now s)) = map cl_id (rg_collectors s)"
  by (simp add: health_check_rows)

lemma get_after_health_check:
  assumes "ids_distinct s" and "c \<in> set (rg_collectors s)"
  shows "get_collector (cl_id c) (health_check now s) = Some (fold (touch now) (stale_rows now s) c)"
proof -
  have "ids_distinct (health_check now s)" using assms(1) ids_kept by (simp add: ids_distinct_def)
  moreover have "fold (touch now) (stale_rows now s) c \<in> set (rg_collectors (health_check now s))"
    using assms(2) by (simp add: health_check_rows)
  ultimately show ?thesis using get_collector_row by fastforce
qed

lemma mark_down_groups:
  "rg_groups (mark_down now c s) =
     map (\<lambda>g. if cl_group_id c = Some (gr_id g) then g\<lparr>gr_weight_snapshot := None\<rparr> else g) (rg_groups s)"
  by (auto simp: mark_down_def Let_def clear_snapshot_def map_groups_def map_collectors_def split: option.splits)

lemma fold_mark_down_groups:
  "rg_groups (fold (mark_down now) L s) =
     map (\<lambda>g. if Some (gr_id g) \<in> set (map cl_group_id L) then g\<lparr>gr_weight_snapshot := None\<rparr> else g) (rg_groups s)"
  by (induction L arbitrary: s) (auto simp: mark_down_groups)

lemma no_stale_left:
  assumes "ids_distinct s" and "c \<in> set (rg_collectors (health_check now s))"
  shows "\<not> stale (now - STALE_SECONDS) c"
proof -
  obtain d where d: "d \<in> set (rg_collectors s)" "c = fold (touch now) (stale_rows now s) d"
    using assms(2) by (auto simp: health_check_rows)
  show ?thesis
  proof (cases "stale (now - STALE_SECONDS) d")
    case True
    then have "cl_status c = ''DOWN''" using stale_by_id [OF assms(1) d(1)] d(2) fold_touch_down by metis
    then show ?thesis by (simp add: stale_def)
  next
    case False
    then have n: "cl_id d \<notin> set (map cl_id (stale_rows now s))" using stale_by_id [OF assms(1) d(1)] by blast
    show ?thesis
    proof (cases "cl_status d = ''ACTIVE''")
      case True
      then show ?thesis using False d(2) by (simp add: stale_def)
    next
      case False
      then show ?thesis using fold_touch_idle [OF False n] d(2) by (simp add: stale_def)
    qed
  qed
qed

text \<open>The answer to the heartbeat of a collector that is not DOWN.\<close>

lemma get_collector_map:
  assumes "get_collector i s = Some c" and "rg_collectors s' = map f (rg_collectors s)" and "\<And>d. cl_id (f d) = cl_id d"
  shows "get_collector i s' = Some (f c)"
proof -
  have "find (\<lambda>d. cl_id d = i) (map f xs) = map_option f (find (\<lambda>d. cl_id d = i) xs)" for xs
    by (induction xs) (simp_all add: assms(3))
  then show ?thesis using assms(1,2) by (simp add: get_collector_def)
qed

lemma heartbeat_alive:
  assumes "ad_collector_id a = Some i" and "get_collector i s = Some c" and "cl_status c \<noteq> ''DOWN''"
  shows "\<exists>s'. heartbeat now header client a i v stats s = Inr ((cl_config_version c, cl_config_version c \<noteq> v), s')"
proof -
  let ?f = "\<lambda>d. if cl_id d = i
     then d\<lparr>cl_status := revived (cl_status d), cl_last_seen_at := Some now, cl_updated_at := now\<rparr> else d"
  let ?s = "map_collectors (\<lambda>d. cl_id d = i) (\<lambda>d. d\<lparr>cl_status := revived (cl_status d), cl_last_seen_at := Some now, cl_updated_at := now\<rparr>) s"
  let ?t = "if stats \<noteq> [] then store_version now header client stats (cl_hostname c) ?s else ?s"
  have "get_collector i ?t = Some (?f c)" by (rule get_collector_map [OF assms(2)]) auto
  moreover have "cl_config_version (?f c) = cl_config_version c" by simp
  ultimately show ?thesis using assms by (simp add: heartbeat_def Let_def)
qed


section \<open>The configuration of a collector\<close>

lemma position_nth:
  "distinct (map f xs) \<Longrightarrow> k < length xs \<Longrightarrow> position (\<lambda>d. f d = f (xs ! k)) xs = Some k"
proof (induction xs arbitrary: k)
  case (Cons x xs)
  show ?case
  proof (cases k)
    case (Suc j)
    then have "f (xs ! j) \<in> set (map f xs)" using Cons.prems(2) by simp
    then have "f x \<noteq> f (xs ! j)" using Cons.prems(1) by auto
    then show ?thesis using Cons Suc by simp
  qed simp
qed simp

lemma position_None: "\<forall>d \<in> set xs. \<not> P d \<Longrightarrow> position P xs = None"
  by (induction xs) simp_all

lemma live_members_distinct:
  assumes "registry_ok s"
  shows "distinct (map cl_id (live_members now g s))"
proof -
  let ?m = "filter (\<lambda>c. cl_group_id c = Some g \<and> cl_status c = ''ACTIVE'' \<and>
       (case cl_last_seen_at c of None \<Rightarrow> False | Some t \<Rightarrow> now - STALE_SECONDS \<le> t)) (rg_collectors s)"
  have "distinct (map cl_id ?m)" using assms by (simp add: registry_ok_def distinct_map_filter)
  moreover have "mset (map cl_id (live_members now g s)) = mset (map cl_id ?m)" by (simp add: live_members_def)
  ultimately show ?thesis using mset_eq_imp_distinct_iff by blast
qed

text \<open>
  The second way to divide the rows of a group, by which \<open>GET /config\<close> gives every member its turn,
  is a partition as well: the members seen within ninety seconds share the enabled unpinned rows of
  the devices of the group, each row once, and a collector that is not among them gets none.
\<close>

theorem config_round_robin:
  assumes "no_collectors s0" and "run_events (fleet_step hash uuid_of) es s0 = Some s" and "live_members now g s \<noteq> []"
  shows "mset (group_rows g s) = (\<Sum>c \<leftarrow> live_members now g s. mset (group_share now c s)) \<and>
     (\<forall>c \<in> set (rg_collectors s). cl_group_id c = Some g \<longrightarrow> c \<notin> set (live_members now g s) \<longrightarrow> group_share now c s = [])"
proof
  have ok: "registry_ok s" using collectors.run_inv [OF no_collectors_ok [OF assms(1)] assms(2)] .
  let ?m = "live_members now g s" let ?n = "length ?m"
  have in_group: "c \<in> set ?m \<Longrightarrow> cl_group_id c = Some g \<and> c \<in> set (rg_collectors s)" for c by (simp add: live_members_def)
  have share: "group_share now (?m ! k) s = residue ?n k 0 (group_rows g s)" if k: "k < ?n" for k
  proof -
    have "cl_group_id (?m ! k) = Some g" using in_group nth_mem [OF k] by blast
    then show ?thesis
      by (simp add: group_share_def Let_def position_nth [OF live_members_distinct [OF ok] k] residue_def)
  qed
  have "(\<Sum>c \<leftarrow> ?m. mset (group_share now c s)) = (\<Sum>k<?n. mset (group_share now (?m ! k) s))"
    by (simp add: sum_list_sum_nth atLeast0LessThan)
  also have "\<dots> = (\<Sum>k<?n. mset (residue ?n k 0 (group_rows g s)))" using share by simp
  also have "\<dots> = mset (group_rows g s)" using assms(3) by (intro residue_partition) simp
  finally show "mset (group_rows g s) = (\<Sum>c \<leftarrow> ?m. mset (group_share now c s))" by simp
  show "\<forall>c \<in> set (rg_collectors s). cl_group_id c = Some g \<longrightarrow> c \<notin> set ?m \<longrightarrow> group_share now c s = []"
  proof (intro ballI impI)
    fix c assume c: "c \<in> set (rg_collectors s)" "cl_group_id c = Some g" "c \<notin> set ?m"
    have "cl_id d \<noteq> cl_id c" if "d \<in> set ?m" for d
      using that c in_group same_row [OF registry_ok_ids [OF ok] c(1)] by blast
    then have "position (\<lambda>d. cl_id d = cl_id c) ?m = None" by (intro position_None) blast
    then show "group_share now c s = []" using c(2) by (simp add: group_share_def Let_def)
  qed
qed

subsection \<open>References to credentials\<close>

lemma map_of_dict_update: "map_of (dict_update new d) = map_of d ++ map_of (rev new)"
proof -
  have "map_of (fold (\<lambda>(k, v). dict_set k v) new d) = map_of d ++ map_of (rev new)"
  proof (induction new arbitrary: d)
    case (Cons p new)
    obtain k v where p: "p = (k, v)" by (cases p)
    have "map_of (dict_set k v d) ++ map_of (rev new) = map_of d ++ map_of (rev (p # new))"
      by (rule ext) (simp add: p update_conv' map_add_def split: option.split)
    then show ?case using Cons.IH [of "dict_set k v d"] p by (simp add: fun_upd_def)
  qed simp
  then show ?thesis by (simp add: dict_update_def)
qed

lemma wf_dict_update: "wf_dict d \<Longrightarrow> wf_dict (dict_update new d)"
proof -
  have "wf_dict d \<Longrightarrow> wf_dict (fold (\<lambda>(k, v). dict_set k v) new d)" for d :: "('a, 'b) dict"
    by (induction new arbitrary: d) (auto simp: distinct_update)
  then show "wf_dict d \<Longrightarrow> wf_dict (dict_update new d)" by (simp add: dict_update_def)
qed

definition secret_values :: "(string \<Rightarrow> (string, json) dict) \<Rightarrow> json set" where
  "secret_values secret = {v. \<exists>n. v \<in> snd ` set (secret n)}"

text \<open>A value that needs no more resolution.\<close>

definition settled :: "(string \<Rightarrow> (string, json) dict) \<Rightarrow> json \<Rightarrow> bool" where
  "settled secret v \<longleftrightarrow> (\<forall>n. credential_name v = Some n \<longrightarrow> secret n = []) \<or> v \<in> secret_values secret"

lemma secret_value_settled: "map_of (secret n) k = Some v \<Longrightarrow> settled secret v"
  using map_of_SomeD by (force simp: settled_def secret_values_def)

lemma secret_value_settled_rev: "map_of (rev (secret n)) k = Some v \<Longrightarrow> settled secret v"
  using map_of_SomeD by (force simp: settled_def secret_values_def)

lemma resolve_references_ok:
  assumes "distinct ks" and "\<forall>k \<in> set ks. map_of r k \<noteq> None"
    and "\<forall>k v. map_of r k = Some v \<longrightarrow> k \<notin> set ks \<longrightarrow> settled secret v"
  shows "\<exists>r'. resolve_references secret ks r = Inr r' \<and> (\<forall>k v. map_of r' k = Some v \<longrightarrow> settled secret v)"
  using assms
proof (induction ks arbitrary: r)
  case (Cons key ks)
  obtain v where v: "map_of r key = Some v" using Cons.prems(2) by auto
  have IH: "\<exists>r'. resolve_references secret ks q = Inr r' \<and> (\<forall>k v. map_of r' k = Some v \<longrightarrow> settled secret v)"
    if "\<forall>k \<in> set ks. map_of q k \<noteq> None" "\<forall>k v. map_of q k = Some v \<longrightarrow> k \<notin> set ks \<longrightarrow> settled secret v" for q
    using Cons.IH [OF _ that] Cons.prems(1) by simp
  have keep: "\<exists>r'. resolve_references secret ks r = Inr r' \<and> (\<forall>k v. map_of r' k = Some v \<longrightarrow> settled secret v)"
    if ok: "settled secret v"
  proof (rule IH)
    show "\<forall>k \<in> set ks. map_of r k \<noteq> None" using Cons.prems(2) by simp
    show "\<forall>k w. map_of r k = Some w \<longrightarrow> k \<notin> set ks \<longrightarrow> settled secret w"
    proof (intro allI impI)
      fix k w assume "map_of r k = Some w" "k \<notin> set ks"
      then show "settled secret w" using Cons.prems(3) v ok by (cases "k = key") auto
    qed
  qed
  show ?case
  proof (cases "credential_name v")
    case None
    then have "settled secret v" by (simp add: settled_def)
    then show ?thesis using keep v None by simp
  next
    case (Some name)
    show ?thesis
    proof (cases "map_of (secret name) key")
      case (Some x)
      have "\<exists>r'. resolve_references secret ks (dict_set key x r) = Inr r' \<and> (\<forall>k v. map_of r' k = Some v \<longrightarrow> settled secret v)"
        using Cons.prems secret_value_settled [of secret name key x, OF Some] by (intro IH) (auto simp: update_conv')
      then show ?thesis using v \<open>credential_name v = Some name\<close> Some by simp
    next
      case None
      show ?thesis
      proof (cases "secret name = []")
        case True
        then have "settled secret v" using Some by (simp add: settled_def)
        then show ?thesis using keep v Some None True by simp
      next
        case False
        have "\<exists>r'. resolve_references secret ks (dict_update (secret name) (dict_pop key r)) = Inr r' \<and>
            (\<forall>k v. map_of r' k = Some v \<longrightarrow> settled secret v)"
        proof (rule IH)
          show "\<forall>k \<in> set ks. map_of (dict_update (secret name) (dict_pop key r)) k \<noteq> None"
            using Cons.prems(1,2) by (auto simp: map_of_dict_update delete_conv' map_add_None)
          show "\<forall>k v. map_of (dict_update (secret name) (dict_pop key r)) k = Some v \<longrightarrow> k \<notin> set ks \<longrightarrow> settled secret v"
            using Cons.prems(3) secret_value_settled_rev
            by (auto simp: map_of_dict_update delete_conv' map_add_Some_iff split: if_splits)
        qed
        then show ?thesis using v Some None False by simp
      qed
    qed
  qed
qed simp

lemma references_resolved:
  "\<exists>resolved. resolve_config decrypt s a = Inr resolved \<and>
     (\<forall>key v name. map_of resolved key = Some v \<longrightarrow> credential_name v = Some name \<longrightarrow>
        secret_of decrypt s name = [] \<or> (\<exists>m. v \<in> snd ` set (secret_of decrypt s m)))"
proof -
  let ?d = "dict_update (fa_config a) (device_defaults s a)"
  have "wf_dict (device_defaults s a)" by (auto simp: device_defaults_def split: option.splits)
  then have d: "wf_dict ?d" by (rule wf_dict_update)
  have "\<exists>r. resolve_references (secret_of decrypt s) (dict_keys ?d) ?d = Inr r \<and>
      (\<forall>k v. map_of r k = Some v \<longrightarrow> settled (secret_of decrypt s) v)"
  proof (rule resolve_references_ok)
    show "\<forall>k v. map_of ?d k = Some v \<longrightarrow> k \<notin> set (dict_keys ?d) \<longrightarrow> settled (secret_of decrypt s) v"
      by (force dest: map_of_SomeD)
  qed (use d in \<open>auto simp: map_of_eq_None_iff\<close>)
  then obtain r where "resolve_config decrypt s a = Inr r" "\<forall>k v. map_of r k = Some v \<longrightarrow> settled (secret_of decrypt s) v"
    by (auto simp: resolve_config_def Let_def)
  then show ?thesis unfolding settled_def secret_values_def by blast
qed


text \<open>
  Resolving the references of a configuration never raises, and leaves no reference to a credential
  that can be read: whatever is still of the form \<open>$credential:name\<close> afterwards names a credential that
  is missing, empty or cannot be decrypted, or was itself taken out of a secret.
\<close>

theorem config_references_resolved:
  "\<exists>resolved. resolve_config decrypt s a = Inr resolved \<and>
     (\<forall>key v name. map_of resolved key = Some v \<longrightarrow> credential_name v = Some name \<longrightarrow>
        secret_of decrypt s name = [] \<or> (\<exists>m. v \<in> snd ` set (secret_of decrypt s m)))"
  by (rule references_resolved)

section \<open>Keys\<close>

lemma require_active_pending:
  assumes "ids_distinct s" and "c \<in> set (rg_collectors s)" and "cl_status c \<noteq> ''ACTIVE''" and "cl_id c \<noteq> []"
    and "uuid_of (cl_id c) = Some (cl_id c)" and "fl_collectors fl = map guard_row (rg_collectors s)" and "ad_collector_id a = Some (cl_id c)"
  shows "require_active_collector uuid_of fl a = Inl (Http 403 ''approval required'')"
proof -
  have "find (\<lambda>r. co_id r = cl_id c) (map guard_row xs) = map_option guard_row (find (\<lambda>d. cl_id d = cl_id c) xs)" for xs
    by (induction xs) (simp_all add: guard_row_def)
  then have "collector_by_id fl (cl_id c) = Some (guard_row c)"
    using get_collector_row [OF assms(1,2)] assms(6) by (simp add: collector_by_id_def get_collector_def)
  then show ?thesis using assms by (simp add: require_active_collector_def nonempty_def guard_row_def)
qed

lemma register_again:
  assumes "registry_ok s" and "c \<in> set (rg_collectors s)" and "cl_hostname c = rq_hostname req"
    and "register_collector hash now i raw req s = Inr (cid, s')"
  shows "cid = cl_id c" and "hash raw \<notin> set (dict_keys (filter (\<lambda>(h, k). \<not> owned_by (cl_id c) k) (db_api_keys (rg_auth s))))"
    and "db_api_keys (rg_auth s') =
      filter (\<lambda>(h, k). \<not> owned_by (cl_id c) k) (db_api_keys (rg_auth s)) @ [(hash raw, collector_key (cl_id c))]"
    and "rg_collectors s' = map (\<lambda>d. if cl_id d = cl_id c then reset_collector now req d else d) (rg_collectors s)"
proof -
  obtain t found where r: "register_read hash now req s = Inr (t, found)"
      and w: "register_write hash now i raw req (t, found) s = Inr (cid, s')"
    using assms(4) by (auto simp: register_collector_def ebind_def split: sum.splits)
  have f: "scalar_one_or_none (collectors_of_host (rq_hostname req) s) = Inr found"
    using r by (auto simp: register_read_def ebind_def split: option.splits if_splits sum.splits)
  have "found \<noteq> None"
  proof
    assume "found = None"
    then have "rq_hostname req \<notin> set (map cl_hostname (rg_collectors s))" using host_absent f by simp
    then show False using assms(2,3) by (metis image_eqI set_map)
  qed
  then obtain d where d: "found = Some d" by blast
  then have "d \<in> set (rg_collectors s)" "cl_hostname d = cl_hostname c" using host_found f assms(3) by simp_all
  then have "d = c" using assms(1,2) by (auto simp: registry_ok_def distinct_map inj_on_def)
  then obtain s2 where k: "add_key (hash raw) (cl_id c)
        (drop_keys (cl_id c) (map_collectors (\<lambda>d. cl_id d = cl_id c) (reset_collector now req) s)) = Inr s2"
      and s': "s' = mark_token_used t s2" and cid: "cid = cl_id c"
    using w d by (auto simp: register_write_def ebind_def split: sum.splits if_splits)
  have keys: "db_api_keys (rg_auth (map_collectors P f s)) = db_api_keys (rg_auth s)" for P f by (simp add: map_collectors_def)
  have new: "rg_auth s' = rg_auth s2" by (simp add: s' mark_token_used_def)
  show "cid = cl_id c" by (rule cid)
  show "hash raw \<notin> set (dict_keys (filter (\<lambda>(h, k). \<not> owned_by (cl_id c) k) (db_api_keys (rg_auth s))))"
    using k by (auto simp: add_key_def drop_keys_def with_keys_def keys split: if_splits)
  show "db_api_keys (rg_auth s') =
      filter (\<lambda>(h, k). \<not> owned_by (cl_id c) k) (db_api_keys (rg_auth s)) @ [(hash raw, collector_key (cl_id c))]"
    using k unfolding new by (auto simp: add_key_def drop_keys_def with_keys_def keys split: if_splits)
  show "rg_collectors s' = map (\<lambda>d. if cl_id d = cl_id c then reset_collector now req d else d) (rg_collectors s)"
    using add_key_collectors [OF k] s' by simp
qed


section \<open>Where the code falls short\<close>

text \<open>
  Deleting a collector leaves its keys: they become collector keys without a collector, for which the
  guard has nothing to check and every credential is readable unless the strict mode is on.
\<close>

theorem deleted_collector_key_survives:
  assumes "delete_collector uuid_of i s = Inr ((), s')" and "uuid_of i = Some cid"
    and "map_of (db_api_keys (rg_auth s)) h = Some k" and "ak_key_type k = ''collector''"
    and "ak_collector_id k = Some cid" and "ak_expires_at k = None"
  shows "validate_in_db later (rg_auth s') h = Inr (key_auth (k\<lparr>ak_collector_id := None\<rparr>)) \<and>
     require_collector_key (key_auth (k\<lparr>ak_collector_id := None\<rparr>)) = Inr (key_auth (k\<lparr>ak_collector_id := None\<rparr>)) \<and>
     Entitlement.get_credential uuid_of decrypt False fl (key_auth (k\<lparr>ak_collector_id := None\<rparr>)) None None name = read_credential decrypt fl name"
proof -
  have "db_api_keys (rg_auth s') = map (\<lambda>(h, k). (h, k\<lparr>ak_collector_id := disown cid (ak_collector_id k)\<rparr>)) (db_api_keys (rg_auth s))"
    using assms(1,2) by (auto simp: delete_collector_def with_keys_def split: option.splits if_splits)
  then have "map_of (db_api_keys (rg_auth s')) h = Some (k\<lparr>ak_collector_id := None\<rparr>)"
    using assms(3,5) by (simp add: map_of_map disown_def)
  then show ?thesis
    using assms(4,6)
    by (simp add: validate_in_db_def require_collector_key_def key_auth_def Entitlement.get_credential_def require_active_collector_def
        nonempty_def resolve_caller_collector_def first_named_def ebind_def)
qed

text \<open>
  \<open>GET /config\<close> asks for a key of the collector and not for its approval: a collector that has registered
  again, or was rejected, gets the assignments pinned to it with their credentials in clear.
\<close>

lemma config_entries_ok:
  "\<exists>es. config_entries decrypt s as = Inr es \<and> map ce_assignment_id es = map fa_id as \<and>
     (\<forall>a \<in> set as. \<exists>e \<in> set es. ce_assignment_id e = fa_id a \<and> resolve_config decrypt s a = Inr (ce_config e))"
proof (induction as)
  case (Cons a as)
  obtain r where r: "resolve_config decrypt s a = Inr r" using references_resolved by blast
  with Cons show ?case by (auto simp: ebind_def config_entry_of_def)
qed simp

theorem unapproved_collector_gets_config:
  assumes "get_collector i s = Some c" and "ad_collector_id a = Some i" and "cl_status c \<in> {''PENDING'', ''REJECTED''}"
  shows "\<exists>cfg. get_collector_config decrypt now a i s = Inr cfg \<and>
     (\<forall>row \<in> set (pinned_rows c s). \<exists>e \<in> set (cc_assignments cfg).
        ce_assignment_id e = fa_id row \<and> resolve_config decrypt s row = Inr (ce_config e))"
proof -
  obtain es where "config_entries decrypt s (pinned_rows c s @ group_share now c s) = Inr es"
      "\<forall>a \<in> set (pinned_rows c s @ group_share now c s). \<exists>e \<in> set es. ce_assignment_id e = fa_id a \<and>
         resolve_config decrypt s a = Inr (ce_config e)"
    using config_entries_ok by blast
  then show ?thesis using assms(1,2) by (simp add: get_collector_config_def ebind_def)
qed

text \<open>The cluster a token is restricted to gives way to the one the request names.\<close>

theorem token_cluster_overridden:
  assumes "register_write hash now i raw req (t, None) s = Inr (cid, s')" and "rq_cluster_id req = Some k"
    and "rt_cluster_id t = Some k'" and "k \<noteq> k'"
  shows "\<exists>c \<in> set (rg_collectors s'). cl_id c = cid \<and> cl_cluster_id c = Some k"
proof -
  obtain s1 where i: "insert_collector (requested_collector i now req t) s = Inr s1"
    using assms(1) by (cases "insert_collector (requested_collector i now req t) s") (simp_all add: register_write_def ebind_def)
  obtain s2 where k: "add_key (hash raw) i s1 = Inr s2"
    using assms(1) i by (cases "add_key (hash raw) i s1") (simp_all add: register_write_def ebind_def)
  have s': "s' = mark_token_used t s2" "cid = i" using assms(1) i k by (simp_all add: register_write_def ebind_def)
  then have "requested_collector i now req t \<in> set (rg_collectors s')"
    using insert_collector_Inr(1) [OF i] add_key_collectors [OF k] by simp
  moreover have "cl_id (requested_collector i now req t) = cid" "cl_cluster_id (requested_collector i now req t) = Some k"
    using s'(2) assms(2) by (simp_all add: requested_collector_def new_collector_def)
  ultimately show ?thesis by blast
qed

text \<open>A fingerprint may have 512 characters, its column has 64.\<close>

theorem long_fingerprint_fails:
  assumes "register_read hash now req s = Inr found" and "rq_fingerprint req = Some f" and "64 < length f"
  shows "register_collector hash now i raw req s = Inl (UncaughtError ''DBAPIError'')"
proof (cases "snd found")
  case None
  then show ?thesis using assms
    by (simp add: register_collector_def register_write_def ebind_def insert_collector_def requested_collector_def new_collector_def)
qed (use assms in \<open>simp add: register_collector_def register_write_def ebind_def\<close>)


end
