(* ===== verification/Collector_Lifecycle_Examples.thy ===== *)
theory Collector_Lifecycle_Examples
  imports Collector_Lifecycle_Results
begin

text \<open>
  A group with a token, a device and three assignments, two collectors that register and are approved:
  the properties of \<open>Collector_Lifecycle_Results\<close> on it, and the race for a one-time token.
\<close>

section \<open>A small fleet\<close>

definition demo_device :: host_device where
  "demo_device = \<lparr>hd_id = ''d1'', hd_name = ''sw'', hd_address = ''192.0.2.1'', hd_category = ''network'', hd_collector_id = None,
     hd_group_id = Some ''g1''\<rparr>"

definition demo_row :: "string \<Rightarrow> string option \<Rightarrow> fleet_assignment" where
  "demo_row i c = \<lparr>fa_id = i, fa_app_id = ''p'', fa_app_name = ''ping'', fa_app_version = ''1.0'', fa_collector_id = c,
     fa_device_id = Some ''d1'', fa_enabled = True, fa_schedule_type = ''interval'', fa_schedule_value = ''60'',
     fa_config = [(''community'', JStr ''$credential:snmp'')], fa_resource_limits = JObj [], fa_avg_execution_time = None\<rparr>"

definition demo_central :: registry where
  "demo_central = \<lparr>rg_collectors = [], rg_groups = [], rg_tokens = [], rg_clusters = [], rg_devices = [demo_device],
     rg_assignments = [demo_row ''a1'' None, demo_row ''a2'' None, demo_row ''a3'' None], rg_versions = [],
     rg_credentials = [\<lparr>cr_id = ''k'', cr_name = ''snmp'', cr_type = ''snmp'', cr_secret = ''x''\<rparr>],
     rg_auth = \<lparr>db_users = [], db_user_tenants = [], db_role_permissions = [], db_api_keys = []\<rparr>\<rparr>"

definition demo_request :: "string \<Rightarrow> register_request" where
  "demo_request h = \<lparr>rq_hostname = h, rq_registration_token = None, rq_registration_code = Some ''abcdef'', rq_os_info = JNull,
     rq_ip_addresses = JNull, rq_labels = JObj [], rq_cluster_id = None, rq_fingerprint = None\<rparr>"

definition demo_admin :: auth where
  "demo_admin = (key_auth (collector_key ''c1''))\<lparr>ad_username := Some ''root''\<rparr>"

text \<open>A group and a token, two collectors that register and are approved, the second a minute later.\<close>

definition demo_setup :: "bool \<Rightarrow> fleet_request list" where
  "demo_setup one = [CreateGroup ''g1'' ''lab'' None, CreateToken [''ABCDEF''] ''t1'' ''raw'' ''lab'' one None None]"

definition demo_joins :: "fleet_request list" where
  "demo_joins = [Register 0 ''c1'' ''k1'' (demo_request ''h1''), Register 60 ''c2'' ''k2'' (demo_request ''h2'')]"

definition demo_approvals :: "fleet_request list" where
  "demo_approvals = [Approve 60 demo_admin ''c1'' ''g1'', Approve 60 demo_admin ''c2'' ''g1'']"

definition demo_run :: "fleet_request list \<Rightarrow> registry" where
  "demo_run es = the (run_events (fleet_step id Some) es demo_central)"

lemma run_total: "\<exists>s'. run_events (fleet_step hash uuid_of) es s = Some s'"
  by (induction es arbitrary: s) (auto simp: fleet_step_def)

lemma demo_run: "run_events (fleet_step id Some) es demo_central = Some (demo_run es)"
  using run_total [of id Some es demo_central] by (auto simp: demo_run_def)

lemma demo_run_append: "run_events (fleet_step id Some) es' (demo_run es) = Some (demo_run (es @ es'))"
  using demo_run [of "es @ es'"] demo_run [of es] by (simp add: run_events_append)

lemma demo_start: "no_collectors demo_central"
  by (simp add: no_collectors_def demo_central_def)

definition demo_fleet :: registry where
  "demo_fleet = demo_run (demo_setup False @ demo_joins @ demo_approvals)"

lemma demo_fleet_run: "run_events (fleet_step id Some) (demo_setup False @ demo_joins @ demo_approvals) demo_central = Some demo_fleet"
  unfolding demo_fleet_def by (rule demo_run)

definition demo_member :: "nat \<Rightarrow> collector" where
  "demo_member k = rg_collectors demo_fleet ! k"

lemma demo_members: "demo_member 0 \<in> set (rg_collectors demo_fleet)" "demo_member 1 \<in> set (rg_collectors demo_fleet)"
proof -
  have "length (rg_collectors demo_fleet) = 2" by code_simp
  then show "demo_member 0 \<in> set (rg_collectors demo_fleet)" "demo_member 1 \<in> set (rg_collectors demo_fleet)"
    by (simp_all add: demo_member_def)
qed


theorem one_time_token_registers_once_witness:
  "\<exists>s1. register_collector id 0 ''c1'' ''k1'' (demo_request ''h1'') (demo_run (demo_setup True)) = Inr (''c1'', s1) \<and>
     register_collector id 60 ''c2'' ''k2'' (demo_request ''h2'') (health_check 50 s1) = Inl (Http 401 ''Registration token already used'')"
proof -
  let ?s = "demo_run (demo_setup True)" let ?t = "hd (rg_tokens ?s)"
  let ?r = "register_collector id 0 ''c1'' ''k1'' (demo_request ''h1'') ?s"
  let ?s1 = "snd (projr ?r)" let ?t1 = "hd (rg_tokens (health_check 50 ?s1))"
  have "\<not> isl ?r" "fst (projr ?r) = ''c1''" by code_simp+
  then have r: "?r = Inr (''c1'', ?s1)" by (metis prod.collapse sum.collapse(2))
  have f: "find_registration_token id (demo_request ''h1'') ?s = Some ?t" and o: "rt_one_time ?t" by code_simp+
  have f1: "find_registration_token id (demo_request ''h2'') (health_check 50 ?s1) = Some ?t1" and i: "rt_id ?t1 = rt_id ?t" by code_simp+
  have "run_events (fleet_step id Some) [HealthCheck 50] ?s1 = Some (health_check 50 ?s1)" by (simp add: fleet_step_def)
  from one_time_token_registers_once [OF demo_start demo_run f o r this _ f1 i]
  have "register_collector id 60 ''c2'' ''k2'' (demo_request ''h2'') (health_check 50 ?s1) =
      Inl (Http 401 ''Registration token already used'')"
    by simp
  then show ?thesis using r by blast
qed

text \<open>
  Two registrations that both read before either writes use a one-time token twice.
\<close>

theorem one_time_token_race:
  "\<exists>t s1 s2. register_read id 0 (demo_request ''h1'') (demo_run (demo_setup True)) = Inr (t, None) \<and>
     register_read id 0 (demo_request ''h2'') (demo_run (demo_setup True)) = Inr (t, None) \<and> rt_one_time t \<and>
     register_write id 0 ''c1'' ''k1'' (demo_request ''h1'') (t, None) (demo_run (demo_setup True)) = Inr (''c1'', s1) \<and>
     register_write id 0 ''c2'' ''k2'' (demo_request ''h2'') (t, None) s1 = Inr (''c2'', s2)"
proof -
  let ?s = "demo_run (demo_setup True)" let ?t = "hd (rg_tokens ?s)"
  let ?w1 = "register_write id 0 ''c1'' ''k1'' (demo_request ''h1'') (?t, None) ?s"
  let ?w2 = "register_write id 0 ''c2'' ''k2'' (demo_request ''h2'') (?t, None) (snd (projr ?w1))"
  have "\<not> isl ?w1" "fst (projr ?w1) = ''c1''" "\<not> isl ?w2" "fst (projr ?w2) = ''c2''" by code_simp+
  then have "?w1 = Inr (''c1'', snd (projr ?w1))" "?w2 = Inr (''c2'', snd (projr ?w2))"
    by (metis prod.collapse sum.collapse(2))+
  moreover have "(case register_read id 0 (demo_request ''h1'') ?s of Inl _ \<Rightarrow> False | Inr (t, c) \<Rightarrow> t = ?t \<and> Option.is_none c)"
      "(case register_read id 0 (demo_request ''h2'') ?s of Inl _ \<Rightarrow> False | Inr (t, c) \<Rightarrow> t = ?t \<and> Option.is_none c)"
      "rt_one_time ?t" by code_simp+
  ultimately show ?thesis by (auto simp: Option.is_none_def split: sum.splits)
qed



theorem config_round_robin_witness:
  "mset (group_rows ''g1'' demo_fleet) = (\<Sum>c \<leftarrow> live_members 100 ''g1'' demo_fleet. mset (group_share 100 c demo_fleet))"
proof -
  have "live_members 100 ''g1'' demo_fleet \<noteq> []" by code_simp
  from config_round_robin [OF demo_start demo_fleet_run this] show ?thesis ..
qed


end
