(* ===== verification/Os_Rollout.thy ===== *)
theory Os_Rollout
  imports Collector_Lifecycle "HOL-Library.Product_Lexorder"
begin

text \<open>
  The roll-out of operating system packages over the nodes (\<open>upgrades/os_service.py\<close>, the job handlers of
  \<open>upgrades/router.py\<close>, the tasks of \<open>upgrades/os_collector_api.py\<close>): jobs of ordered steps that central
  executes through the sidecars of its nodes and that collectors pull and report.

  What sidecars answer is the parameter \<open>sidecars\<close> (a key missing in an answer is \<open>None\<close> or an empty
  list); polling ends with a deadline, so the answers until then are finite lists.  A run of the driver is one transition: it writes its steps as they are in its
  memory.  \<open>ro_commands\<close> is no table but the record of what was sent to sidecars, with its success.
\<close>

section \<open>Jobs\<close>

record os_step =
  st_order :: nat
  st_hostname :: string
  st_role :: string
  st_ip :: string
  st_action :: string
  st_status :: string
  st_is_test :: bool
  st_started_at :: "int option"
  st_completed_at :: "int option"
  st_output_log :: "string option"
  st_error :: "string option"
  st_sidecar_job :: "string option"

record os_job =
  oj_id :: string
  oj_packages :: "string list"
  oj_strategy :: string
  oj_restart_policy :: string
  oj_status :: string
  oj_started_by :: "string option"
  oj_started_at :: "int option"
  oj_completed_at :: "int option"
  oj_error :: "string option"
  oj_steps :: "os_step list"

text \<open>The rows of available updates and of the audit are (host, package, installed) and (host, package, by).\<close>

record rollout =
  ro_job :: os_job
  ro_updates :: "(string \<times> string \<times> bool) list"
  ro_audit :: "(string \<times> string \<times> string) list"
  ro_commands :: "(nat \<times> string \<times> bool) list"

definition steps_of :: "rollout \<Rightarrow> os_step list" where
  "steps_of w = oj_steps (ro_job w)"

definition set_job :: "(os_job \<Rightarrow> os_job) \<Rightarrow> rollout \<Rightarrow> rollout" where
  "set_job f w = w\<lparr>ro_job := f (ro_job w)\<rparr>"

definition map_steps :: "(os_step \<Rightarrow> os_step) \<Rightarrow> rollout \<Rightarrow> rollout" where
  "map_steps f = set_job (\<lambda>j. j\<lparr>oj_steps := map f (oj_steps j)\<rparr>)"

definition set_step :: "nat \<Rightarrow> (os_step \<Rightarrow> os_step) \<Rightarrow> rollout \<Rightarrow> rollout" where
  "set_step i f = set_job (\<lambda>j. j\<lparr>oj_steps := (oj_steps j)[i := f (oj_steps j ! i)]\<rparr>)"

definition sent :: "os_step \<Rightarrow> bool \<Rightarrow> rollout \<Rightarrow> rollout" where
  "sent s ok w = w\<lparr>ro_commands := ro_commands w @ [(st_order s, st_action s, ok)]\<rparr>"

section \<open>Creating a job\<close>

definition new_step :: "nat \<Rightarrow> system_version \<Rightarrow> string \<Rightarrow> bool \<Rightarrow> os_step" where
  "new_step k n action test =
     \<lparr>st_order = k, st_hostname = sv_node_hostname n, st_role = sv_node_role n, st_ip = sv_node_ip n, st_action = action,
      st_status = ''pending'', st_is_test = test, st_started_at = None, st_completed_at = None, st_output_log = None,
      st_error = None, st_sidecar_job = None\<rparr>"

text \<open>Collectors first, then the other central nodes, then this one.\<close>

definition order_nodes :: "string \<Rightarrow> system_version list \<Rightarrow> system_version list" where
  "order_nodes current = sort_key (\<lambda>n. (sv_node_role n = ''central'', sv_node_hostname n = current, sv_node_hostname n))"

definition target_nodes :: "string \<Rightarrow> string list \<Rightarrow> system_version list \<Rightarrow> system_version list" where
  "target_nodes scope targets nodes =
     (if scope = ''nodes'' \<and> targets \<noteq> [] then filter (\<lambda>n. sv_node_hostname n \<in> set targets) nodes
      else if scope = ''central'' then filter (\<lambda>n. sv_node_role n = ''central'') nodes
      else if scope = ''collectors'' then filter (\<lambda>n. sv_node_role n \<noteq> ''central'') nodes
      else nodes)"

fun node_steps :: "string \<Rightarrow> string \<Rightarrow> bool \<Rightarrow> nat \<Rightarrow> system_version list \<Rightarrow> os_step list" where
  "node_steps strategy policy first k [] = []"
| "node_steps strategy policy first k (n # ns) =
     (let test = (strategy = ''test_first'' \<and> first)
      in if policy = ''rolling''
         then new_step (k + 1) n ''install'' test # new_step (k + 2) n ''reboot'' test # new_step (k + 3) n ''health_check'' test #
              node_steps strategy policy False (k + 3) ns
         else new_step (k + 1) n ''install'' test # node_steps strategy policy False (k + 1) ns)"

definition create_os_install_job ::
    "string \<Rightarrow> string \<Rightarrow> string list \<Rightarrow> string \<Rightarrow> string list \<Rightarrow> string \<Rightarrow> string \<Rightarrow> string option \<Rightarrow> system_version list \<Rightarrow> os_job" where
  "create_os_install_job current i packages scope targets strategy policy by nodes =
     \<lparr>oj_id = i, oj_packages = packages, oj_strategy = strategy, oj_restart_policy = policy, oj_status = ''pending'',
      oj_started_by = by, oj_started_at = None, oj_completed_at = None, oj_error = None,
      oj_steps = node_steps strategy policy True 0 (order_nodes current (target_nodes scope targets nodes))\<rparr>"

fun restart_steps :: "nat \<Rightarrow> system_version list \<Rightarrow> os_step list" where
  "restart_steps i [] = []"
| "restart_steps i (n # ns) =
     new_step (i * 2 + 1) n ''reboot'' False # new_step (i * 2 + 2) n ''health_check'' False # restart_steps (i + 1) ns"

section \<open>Sidecars\<close>

record report =
  ir_output :: "string option"
  ir_returncode :: "int option"
  ir_success :: bool
  ir_installed :: "string list"
  ir_skipped :: "string list"
  ir_failed :: "string list"
  ir_warnings :: "string list"

text \<open>The answer to the launch of an installation, and to a question for its state.\<close>

datatype launch = LaunchFails string | Inline report | Launched string

datatype poll = Disconnected | PollFails string | Polled string report

record sidecars =
  sc_now :: int
  sc_launch :: "os_step \<Rightarrow> launch"
  sc_polls :: "os_step \<Rightarrow> poll list"
  sc_reboot_required :: "os_step \<Rightarrow> string list option"
  sc_uptime :: "os_step \<Rightarrow> pyfloat option"
  sc_fixed0 :: "pyfloat \<Rightarrow> string"
  sc_reboot :: "os_step \<Rightarrow> string option"
  sc_uptimes :: "os_step \<Rightarrow> pyfloat option list"
  sc_healths :: "os_step \<Rightarrow> bool list"
  sc_lost :: "nat \<Rightarrow> bool"

definition newline :: string where
  "newline = [CHR 0x0A]"

fun poll_install :: "string \<Rightarrow> poll list \<Rightarrow> string + report" where
  "poll_install prev [] =
     Inr \<lparr>ir_output = Some (prev @ newline @ ''[central] timeout waiting for install to finish''), ir_returncode = Some 124,
          ir_success = False, ir_installed = [], ir_skipped = [], ir_failed = [], ir_warnings = []\<rparr>"
| "poll_install prev (Disconnected # ps) = poll_install prev ps"
| "poll_install prev (PollFails e # ps) = Inl e"
| "poll_install prev (Polled state d # ps) =
     (if state = ''completed'' \<or> state = ''failed''
      then Inr \<lparr>ir_output = Some (case ir_output d of None \<Rightarrow> [] | Some t \<Rightarrow> t),
                ir_returncode = Some (case ir_returncode d of None \<Rightarrow> 1 | Some n \<Rightarrow> n), ir_success = ir_success d,
                ir_installed = [], ir_skipped = [], ir_failed = [], ir_warnings = ir_warnings d\<rparr>
      else poll_install (case ir_output d of None \<Rightarrow> prev | Some t \<Rightarrow> t) ps)"

text \<open>The id that \<open>on_launch\<close> stores, and the result.\<close>

definition install_packages_on_node :: "sidecars \<Rightarrow> os_step \<Rightarrow> string option \<Rightarrow> string option \<times> (string + report)" where
  "install_packages_on_node env s resume =
     (case nonempty resume of Some _ \<Rightarrow> (None, poll_install [] (sc_polls env s))
      | None \<Rightarrow>
     (case sc_launch env s of
        LaunchFails e \<Rightarrow> (None, Inl e)
      | Inline r \<Rightarrow> (None, Inr r)
      | Launched j \<Rightarrow> (Some j, poll_install [] (sc_polls env s))))"

definition report_output :: "report \<Rightarrow> string" where
  "report_output r = (case ir_output r of None \<Rightarrow> [] | Some t \<Rightarrow> t)"

text \<open>The text of the error, or of the log, that a report leads to.\<close>

definition judge_report :: "report \<Rightarrow> string + string" where
  "judge_report r =
     (if \<not> ir_success r \<and> ir_installed r = [] \<and> ir_skipped r = []
      then Inl (''Install failed (rc='' @ (case ir_returncode r of None \<Rightarrow> ''None'' | Some n \<Rightarrow> str_int n) @ ''): '' @
             take 500 (report_output r))
      else Inr (report_output r @
        (if ir_failed r = [] then []
         else newline @ ''Warning: '' @ str_nat (length (ir_failed r)) @ '' package(s) failed: '' @ join '', '' (ir_failed r)) @
        (if ir_warnings r = [] then [] else newline @ ''[postinst warnings]'' @ concat (map (\<lambda>v. newline @ ''  '' @ v) (ir_warnings r)))))"

definition reboot_note :: "string list option \<Rightarrow> string" where
  "reboot_note v =
     (case v of None \<Rightarrow> []
      | Some pkgs \<Rightarrow> newline @ ''[reboot-required] '' @ (if pkgs = [] then ''unspecified'' else join '', '' pkgs))"

section \<open>Waiting for a node\<close>

fun stable :: "nat \<Rightarrow> bool list \<Rightarrow> bool" where
  "stable n [] = False"
| "stable n (ok # oks) = (if ok then (if 3 \<le> n + 1 then True else stable (n + 1) oks) else stable 0 oks)"

definition rebooted :: "pyfloat option \<Rightarrow> pyfloat option list \<Rightarrow> bool" where
  "rebooted pre = list_ex (\<lambda>u. case u of None \<Rightarrow> False | Some v \<Rightarrow> flt v (case pre of None \<Rightarrow> Fin 300 | Some p \<Rightarrow> p))"

definition wait_for_node_recovery :: "sidecars \<Rightarrow> os_step \<Rightarrow> pyfloat option \<Rightarrow> bool" where
  "wait_for_node_recovery env s pre \<longleftrightarrow> rebooted pre (sc_uptimes env s) \<and> stable 0 (sc_healths env s)"

text \<open>The uptime before the reboot, which the reboot step keeps in its log.\<close>

definition pre_uptime_mark :: string where
  "pre_uptime_mark = ''[pre_uptime=''"

fun search_pre_uptime :: "string \<Rightarrow> string option" where
  "search_pre_uptime [] = None"
| "search_pre_uptime (c # cs) =
     (let body = takeWhile (\<lambda>d. is_digit d \<or> d = CHR ''.'') (drop (length pre_uptime_mark) (c # cs));
          rest = drop (length pre_uptime_mark + length body) (c # cs)
      in if take (length pre_uptime_mark) (c # cs) = pre_uptime_mark \<and> body \<noteq> [] \<and> take 1 rest = '']'' then Some body
         else search_pre_uptime cs)"

definition reboot_log :: "sidecars \<Rightarrow> pyfloat option \<Rightarrow> string" where
  "reboot_log env pre =
     (case pre of None \<Rightarrow> ''Reboot command sent''
      | Some u \<Rightarrow> ''Reboot command sent (pre-uptime='' @ sc_fixed0 env u @ ''s) '' @ pre_uptime_mark @ py_repr u @ '']'')"

text \<open>\<open>Inl\<close> is the exception of \<open>float\<close>.\<close>

definition stored_pre_uptime :: "string \<Rightarrow> os_step list \<Rightarrow> string + pyfloat option" where
  "stored_pre_uptime host steps =
     (case find (\<lambda>s. st_hostname s = host \<and> st_action s = ''reboot'' \<and> st_status s = ''completed'' \<and>
         nonempty (st_output_log s) \<noteq> None) steps of
        None \<Rightarrow> Inr None
      | Some s \<Rightarrow>
     (case search_pre_uptime (the (st_output_log s)) of None \<Rightarrow> Inr None
      | Some t \<Rightarrow> (case float_of_string t of None \<Rightarrow> Inl (''could not convert string to float: '' @ t) | Some v \<Rightarrow> Inr (Some v))))"

section \<open>The driver\<close>

text \<open>
  The next step to do: pending, or an installation of a central node that a former driver left running;
  the reboot and the health check of this node come after all others.
\<close>

definition actionable :: "os_step \<Rightarrow> bool" where
  "actionable s \<longleftrightarrow> st_status s = ''pending'' \<or>
     (st_status s = ''running'' \<and> st_role s = ''central'' \<and> st_action s = ''install'')"

definition own_restart :: "string \<Rightarrow> os_step \<Rightarrow> bool" where
  "own_restart current s \<longleftrightarrow> st_action s \<in> {''reboot'', ''health_check''} \<and> st_hostname s = current"

definition pick_next_pending :: "os_step list \<Rightarrow> string \<Rightarrow> nat \<Rightarrow> nat option" where
  "pick_next_pending steps current i =
     (case find (\<lambda>j. actionable (steps ! j) \<and> \<not> own_restart current (steps ! j)) [i..<length steps] of
        Some j \<Rightarrow> Some j
      | None \<Rightarrow> find (\<lambda>j. actionable (steps ! j)) [i..<length steps])"

definition finish_step :: "int \<Rightarrow> os_step \<Rightarrow> os_step" where
  "finish_step now s = s\<lparr>st_status := ''completed'', st_completed_at := Some now\<rparr>"

definition fail_step :: "int \<Rightarrow> string \<Rightarrow> os_step \<Rightarrow> os_step" where
  "fail_step now e s = s\<lparr>st_status := ''failed'', st_error := Some e, st_completed_at := Some now\<rparr>"

definition mark_installed :: "os_step \<Rightarrow> rollout \<Rightarrow> rollout" where
  "mark_installed s w =
     (let pkgs = oj_packages (ro_job w);
          by = (case nonempty (oj_started_by (ro_job w)) of None \<Rightarrow> ''system'' | Some u \<Rightarrow> u)
      in w\<lparr>ro_updates := map (\<lambda>(h, p, b). (h, p, b \<or> (h = st_hostname s \<and> p \<in> set pkgs))) (ro_updates w),
           ro_audit := ro_audit w @ map (\<lambda>p. (st_hostname s, p, by)) pkgs\<rparr>)"

definition run_install :: "sidecars \<Rightarrow> nat \<Rightarrow> string option \<Rightarrow> rollout \<Rightarrow> bool \<times> rollout" where
  "run_install env i resume w =
     (let s = steps_of w ! i; now = sc_now env; (launched, answer) = install_packages_on_node env s resume;
          w = (case launched of None \<Rightarrow> w | Some j \<Rightarrow> set_step i (\<lambda>s. s\<lparr>st_sidecar_job := Some j\<rparr>) w)
      in case answer of
           Inl e \<Rightarrow> (True, sent s False (set_step i (fail_step now e) w))
         | Inr r \<Rightarrow>
             (case judge_report r of
                Inl e \<Rightarrow> (True, sent s False (set_step i (\<lambda>s. fail_step now e (s\<lparr>st_output_log := Some (report_output r)\<rparr>)) w))
              | Inr text \<Rightarrow>
                  (False, sent s True (mark_installed s (set_step i
                     (\<lambda>t. finish_step now (t\<lparr>st_output_log := Some (text @ reboot_note (sc_reboot_required env s))\<rparr>)) w)))))"

definition run_reboot :: "sidecars \<Rightarrow> nat \<Rightarrow> rollout \<Rightarrow> bool \<times> rollout" where
  "run_reboot env i w =
     (let s = steps_of w ! i; now = sc_now env
      in case sc_reboot env s of
           Some e \<Rightarrow> (True, sent s False (set_step i (fail_step now e) w))
         | None \<Rightarrow> (False, sent s True (set_step i
             (\<lambda>t. finish_step now (t\<lparr>st_output_log := Some (reboot_log env (sc_uptime env s))\<rparr>)) w)))"

text \<open>The reboot of the node the driver runs on; after it the driver is no more, unless the sidecar refuses.\<close>

definition run_own_reboot :: "sidecars \<Rightarrow> string \<Rightarrow> nat \<Rightarrow> rollout \<Rightarrow> bool \<times> rollout" where
  "run_own_reboot env current i w =
     (let s = steps_of w ! i; now = sc_now env;
          w = set_step i (\<lambda>s. finish_step now (s\<lparr>st_output_log := Some ''Reboot initiated (current node - final step)''\<rparr>)) w;
          w = map_steps (\<lambda>h. if st_hostname h = current \<and> st_action h = ''health_check'' \<and> st_status h = ''pending''
                then finish_step now (h\<lparr>st_output_log := Some ''Skipped (own reboot)''\<rparr>) else h) w;
          w = set_job (\<lambda>j. j\<lparr>oj_status := ''completed'', oj_completed_at := Some now\<rparr>) w
      in case sc_reboot env s of
           Some e \<Rightarrow> (True, sent s False (set_step i (fail_step now e) w))
         | None \<Rightarrow> (False, sent s True w))"

definition run_health_check :: "sidecars \<Rightarrow> nat \<Rightarrow> rollout \<Rightarrow> bool \<times> rollout" where
  "run_health_check env i w =
     (let s = steps_of w ! i; now = sc_now env;
          fails = (\<lambda>e. (True, sent s False (set_step i (fail_step now e) w)))
      in case stored_pre_uptime (st_hostname s) (steps_of w) of
           Inl e \<Rightarrow> fails e
         | Inr pre \<Rightarrow>
             if wait_for_node_recovery env s pre
             then (False, sent s True (set_step i (\<lambda>s. finish_step now (s\<lparr>st_output_log := Some ''Node recovered successfully''\<rparr>)) w))
             else fails (''Node '' @ st_hostname s @ '' did not recover within 5 minutes''))"

text \<open>A central step: whether the driver ends with it, whether it failed, and the new state.\<close>

definition central_action :: "sidecars \<Rightarrow> string \<Rightarrow> nat \<Rightarrow> string option \<Rightarrow> rollout \<Rightarrow> bool \<times> bool \<times> rollout" where
  "central_action env current i resume w =
     (if st_action (steps_of w ! i) = ''install'' then (False, run_install env i resume w)
      else if st_action (steps_of w ! i) = ''reboot''
      then (if st_hostname (steps_of w ! i) = current
            then (\<not> fst (run_own_reboot env current i w), run_own_reboot env current i w)
            else (False, run_reboot env i w))
      else if st_action (steps_of w ! i) = ''health_check'' then (False, run_health_check env i w)
      else (False, False, set_step i (finish_step (sc_now env)) w))"

definition start_step :: "int \<Rightarrow> nat \<Rightarrow> rollout \<Rightarrow> rollout" where
  "start_step now i w =
     (if st_status (steps_of w ! i) = ''running'' then w
      else set_step i (\<lambda>s. s\<lparr>st_status := ''running'', st_started_at := Some now\<rparr>) w)"

definition central_step :: "sidecars \<Rightarrow> string \<Rightarrow> nat \<Rightarrow> rollout \<Rightarrow> bool \<times> bool \<times> rollout" where
  "central_step env current i w =
     central_action env current i
       (if st_status (steps_of w ! i) = ''running'' then st_sidecar_job (steps_of w ! i) else None) (start_step (sc_now env) i w)"

definition failed_hosts :: "os_step list \<Rightarrow> string list" where
  "failed_hosts steps = remdups (map st_hostname (filter (\<lambda>s. st_status s = ''failed'') steps))"

definition close_job :: "int \<Rightarrow> bool \<Rightarrow> os_job \<Rightarrow> os_job" where
  "close_job now ok j =
     j\<lparr>oj_status := if ok then ''completed'' else ''failed'', oj_completed_at := Some now,
       oj_error := (if failed_hosts (oj_steps j) \<noteq> [] then Some (''Failed on: '' @ join '', '' (failed_hosts (oj_steps j)))
                    else oj_error j)\<rparr>"

definition finalize :: "int \<Rightarrow> rollout \<Rightarrow> rollout" where
  "finalize now w =
     (let steps = steps_of w
      in if list_ex (\<lambda>s. st_status s = ''awaiting_collector'') steps then w
         else set_job (close_job now (list_all (\<lambda>s. st_status s \<in> {''completed'', ''skipped''}) steps)) w)"

definition stepwise :: "rollout \<Rightarrow> bool" where
  "stepwise w \<longleftrightarrow> oj_strategy (ro_job w) \<in> {''rolling'', ''test_first''}"

text \<open>After a step of the test node: does a step of another node come next?\<close>

definition approval_due :: "nat \<Rightarrow> rollout \<Rightarrow> bool" where
  "approval_due i w \<longleftrightarrow> oj_strategy (ro_job w) = ''test_first'' \<and> st_is_test (steps_of w ! i) \<and>
     (case filter (\<lambda>s. st_status s = ''pending'') (drop (i + 1) (steps_of w)) of [] \<Rightarrow> False | s # _ \<Rightarrow> \<not> st_is_test s)"

lemma length_steps [simp]:
  "length (steps_of (set_step i f w)) = length (steps_of w)"
  "length (steps_of (map_steps f w)) = length (steps_of w)"
  "length (steps_of (sent s ok w)) = length (steps_of w)"
  "length (steps_of (mark_installed s w)) = length (steps_of w)"
  by (simp_all add: steps_of_def set_step_def map_steps_def set_job_def sent_def mark_installed_def Let_def)

lemma length_steps_job: "(\<And>j. oj_steps (f j) = oj_steps j) \<Longrightarrow> length (steps_of (set_job f w)) = length (steps_of w)"
  by (simp add: steps_of_def set_job_def)

lemma length_run_install: "length (steps_of (snd (run_install env i resume w))) = length (steps_of w)"
  by (simp add: run_install_def Let_def split: prod.split option.split sum.split)

lemma length_run_reboot: "length (steps_of (snd (run_reboot env i w))) = length (steps_of w)"
  by (simp add: run_reboot_def Let_def split: option.split)

lemma length_run_own_reboot: "length (steps_of (snd (run_own_reboot env current i w))) = length (steps_of w)"
  by (simp add: run_own_reboot_def Let_def length_steps_job split: option.split)

lemma length_run_health_check: "length (steps_of (snd (run_health_check env i w))) = length (steps_of w)"
  by (simp add: run_health_check_def Let_def split: sum.split)

lemma length_central_step: "length (steps_of (snd (snd (central_step env current i w)))) = length (steps_of w)"
proof -
  have "length (steps_of (snd (snd (central_action env current i resume w)))) = length (steps_of w)" for resume w
    by (simp add: central_action_def length_run_install length_run_reboot length_run_own_reboot length_run_health_check)
  then show ?thesis by (simp add: central_step_def start_step_def)
qed

lemma pick_next_bounds: "pick_next_pending steps current i = Some j \<Longrightarrow> i \<le> j \<and> j < length steps"
  by (auto simp: pick_next_pending_def find_Some_iff nth_append split: option.splits)

datatype driver_exit = Done | LeaseLost

text \<open>
  One turn of the loop: it ends, or it goes on from a place in the steps, with what has failed so far.
\<close>

datatype turn = Exit driver_exit rollout | Continue nat bool rollout

definition central_turn :: "sidecars \<Rightarrow> string \<Rightarrow> nat \<Rightarrow> bool \<Rightarrow> rollout \<Rightarrow> turn" where
  "central_turn env current j failed w =
     (case central_step env current j w of (ends, err, w') \<Rightarrow>
        if ends then Exit Done w'
        else if \<not> (failed \<or> err) \<and> approval_due j w'
        then Exit Done (set_job (\<lambda>k. k\<lparr>oj_status := ''awaiting_approval''\<rparr>) w')
        else Continue (j + 1) (failed \<or> err) w')"

definition run_turn :: "sidecars \<Rightarrow> string \<Rightarrow> nat \<Rightarrow> nat \<Rightarrow> bool \<Rightarrow> rollout \<Rightarrow> turn" where
  "run_turn env current n i failed w =
     (if sc_lost env n then Exit LeaseLost w
      else case pick_next_pending (steps_of w) current i of
        None \<Rightarrow> Exit Done (finalize (sc_now env) w)
      | Some j \<Rightarrow>
          if failed \<and> stepwise w then Continue (j + 1) failed (set_step j (\<lambda>s. s\<lparr>st_status := ''skipped''\<rparr>) w)
          else if st_role (steps_of w ! j) = ''central'' then central_turn env current j failed w
          else let w' = set_step j (\<lambda>s. s\<lparr>st_status := ''awaiting_collector'', st_started_at := Some (sc_now env)\<rparr>) w
               in if stepwise w then Exit Done w' else Continue (j + 1) failed w')"

lemma central_turn_Continue:
  "central_turn env current j failed w = Continue i' failed' w' \<Longrightarrow> i' = j + 1 \<and> w' = snd (snd (central_step env current j w))"
  by (auto simp: central_turn_def split: prod.splits if_splits)

lemma run_turn_progress:
  assumes "run_turn env current n i failed w = Continue i' failed' w'"
  shows "length (steps_of w') - i' < length (steps_of w) - i"
proof -
  obtain j where j: "pick_next_pending (steps_of w) current i = Some j"
    using assms by (cases "pick_next_pending (steps_of w) current i") (auto simp: run_turn_def split: if_splits)
  have "i' = j + 1 \<and> length (steps_of w') = length (steps_of w)"
    using assms j length_central_step [of env current j w]
    by (auto simp: run_turn_def Let_def split: if_splits dest!: central_turn_Continue)
  moreover have "i \<le> j" "j < length (steps_of w)" using pick_next_bounds [OF j] by simp_all
  ultimately show ?thesis by simp
qed

text \<open>The loop; \<open>n\<close> counts its turns, for the event that the lease is lost.\<close>

function run_steps :: "sidecars \<Rightarrow> string \<Rightarrow> nat \<Rightarrow> nat \<Rightarrow> bool \<Rightarrow> rollout \<Rightarrow> driver_exit \<times> rollout" where
  "run_steps env current n i failed w =
     (case run_turn env current n i failed w of
        Exit e w' \<Rightarrow> (e, w')
      | Continue i' failed' w' \<Rightarrow> run_steps env current (n + 1) i' failed' w')"
  by pat_completeness auto

termination
  by (relation "measure (\<lambda>(env, current, n, i, failed, w). length (steps_of w) - i)") (auto dest: run_turn_progress)

declare run_steps.simps [simp del]

section \<open>Who drives\<close>

definition DRIVER_LEASE_TTL :: int where "DRIVER_LEASE_TTL = 60"

definition lease_key :: "string \<Rightarrow> string" where
  "lease_key job = ''monctl:os_install_job:'' @ job @ '':driver''"

definition acquire_driver_lease :: "int \<Rightarrow> string \<Rightarrow> string \<Rightarrow> string redis \<Rightarrow> bool \<times> string redis" where
  "acquire_driver_lease now job inst r = redis_setnx now (lease_key job) DRIVER_LEASE_TTL inst r"

definition holds_lease :: "int \<Rightarrow> string \<Rightarrow> string \<Rightarrow> string redis \<Rightarrow> bool" where
  "holds_lease now job inst r \<longleftrightarrow> redis_live now r (lease_key job) = Some (Payload inst)"

text \<open>One round of the refresher: whether the lease is still held; where it is not, the run is told to stop.\<close>

definition refresh_driver_lease :: "int \<Rightarrow> string \<Rightarrow> string \<Rightarrow> string redis \<Rightarrow> bool \<times> string redis" where
  "refresh_driver_lease now job inst r =
     (if holds_lease now job inst r then (True, redis_expire now (lease_key job) DRIVER_LEASE_TTL r) else (False, r))"

definition release_driver_lease :: "int \<Rightarrow> string \<Rightarrow> string \<Rightarrow> string redis \<Rightarrow> string redis" where
  "release_driver_lease now job inst r = (if holds_lease now job inst r then redis_del (lease_key job) r else r)"

definition drive :: "sidecars \<Rightarrow> string \<Rightarrow> rollout \<Rightarrow> rollout" where
  "drive env current w =
     (let w = (if oj_status (ro_job w) = ''running'' then w
               else set_job (\<lambda>j. j\<lparr>oj_status := ''running'', oj_started_at := Some (sc_now env)\<rparr>) w)
      in snd (run_steps env current 0 0 False w))"

text \<open>\<open>r = None\<close>: no Redis is configured.  A failing call counts as a lease.\<close>

definition execute_os_install_job ::
    "sidecars \<Rightarrow> string \<Rightarrow> string \<Rightarrow> bool \<Rightarrow> string redis option \<Rightarrow> rollout \<Rightarrow> auth_error + rollout \<times> string redis option" where
  "execute_os_install_job env current instance_id redis_fails r w =
     (let inst = strip instance_id; job = oj_id (ro_job w); now = sc_now env
      in if inst = [] then Inl (UncaughtError ''RuntimeError'')
         else case r of None \<Rightarrow> Inr (drive env current w, None)
         | Some store \<Rightarrow>
             (let (got, store') = (if redis_fails then (True, store) else acquire_driver_lease now job inst store)
              in if got then Inr (drive env current w, Some (release_driver_lease now job inst store')) else Inr (w, Some store')))"

text \<open>A run that is not driven under the lease is never told to stop.\<close>

definition unleased :: "sidecars \<Rightarrow> sidecars" where
  "unleased env = env\<lparr>sc_lost := (\<lambda>n. False)\<rparr>"

definition resume_os_install_job :: "sidecars \<Rightarrow> string \<Rightarrow> rollout \<Rightarrow> rollout" where
  "resume_os_install_job env current w =
     (if oj_status (ro_job w) \<noteq> ''awaiting_approval'' then w
      else snd (run_steps (unleased env) current 0 0 False (set_job (\<lambda>j. j\<lparr>oj_status := ''running''\<rparr>) w)))"

definition is_active_step :: "os_step \<Rightarrow> bool" where
  "is_active_step s \<longleftrightarrow> st_status s \<in> {''pending'', ''awaiting_collector'', ''running''}"

definition close_if_done :: "int \<Rightarrow> rollout \<Rightarrow> rollout" where
  "close_if_done now w =
     (if list_ex is_active_step (steps_of w) then w else set_job (close_job now (failed_hosts (steps_of w) = [])) w)"

definition skip_waiting :: "os_step \<Rightarrow> os_step" where
  "skip_waiting s = (if st_status s \<in> {''pending'', ''awaiting_collector''} then s\<lparr>st_status := ''skipped''\<rparr> else s)"

text \<open>After a collector has reported a step.\<close>

definition advance_collector_job :: "sidecars \<Rightarrow> string \<Rightarrow> rollout \<Rightarrow> rollout" where
  "advance_collector_job env current w =
     (let steps = steps_of w; now = sc_now env
      in if oj_status (ro_job w) \<noteq> ''running'' then w
         else if oj_strategy (ro_job w) = ''test_first'' \<and> list_ex (\<lambda>s. st_is_test s \<and> st_status s = ''completed'') steps \<and>
             list_ex (\<lambda>s. \<not> st_is_test s \<and> st_status s = ''pending'') steps
         then set_job (\<lambda>j. j\<lparr>oj_status := ''awaiting_approval''\<rparr>) w
         else if stepwise w \<and> failed_hosts steps \<noteq> [] then set_job (close_job now False) (map_steps skip_waiting w)
         else case (if stepwise w then find (\<lambda>j. st_status (steps ! j) = ''pending'') [0..<length steps] else None) of
           Some j \<Rightarrow>
             if st_role (steps ! j) \<noteq> ''central''
             then set_step j (\<lambda>s. s\<lparr>st_status := ''awaiting_collector'', st_started_at := Some now\<rparr>) w
             else close_if_done now (snd (run_steps (unleased env) current 0 0 False w))
         | None \<Rightarrow> close_if_done now w)"

section \<open>The handlers\<close>

text \<open>A step is named by its job and its number, in place of a random id.\<close>

record os_db =
  od_jobs :: "os_job list"
  od_updates :: "(string \<times> string \<times> bool) list"
  od_audit :: "(string \<times> string \<times> string) list"
  od_commands :: "(nat \<times> string \<times> bool) list"

definition get_job :: "string \<Rightarrow> os_db \<Rightarrow> os_job option" where
  "get_job i db = find (\<lambda>j. oj_id j = i) (od_jobs db)"

definition rollout_of :: "os_job \<Rightarrow> os_db \<Rightarrow> rollout" where
  "rollout_of j db = \<lparr>ro_job = j, ro_updates = od_updates db, ro_audit = od_audit db, ro_commands = od_commands db\<rparr>"

definition store_rollout :: "rollout \<Rightarrow> os_db \<Rightarrow> os_db" where
  "store_rollout w db =
     \<lparr>od_jobs = map (\<lambda>j. if oj_id j = oj_id (ro_job w) then ro_job w else j) (od_jobs db),
      od_updates = ro_updates w, od_audit = ro_audit w, od_commands = ro_commands w\<rparr>"

definition active_jobs :: "os_db \<Rightarrow> os_job list" where
  "active_jobs db = filter (\<lambda>j. oj_status j \<in> {''pending'', ''running'', ''awaiting_approval''}) (od_jobs db)"

definition refuse_if_active :: "os_db \<Rightarrow> auth_error + unit" where
  "refuse_if_active db =
     ebind (scalar_one_or_none (active_jobs db)) (\<lambda>a. case a of
       None \<Rightarrow> Inr () | Some _ \<Rightarrow> Inl (Http 409 ''Another OS install job is already active''))"

definition add_job :: "os_job \<Rightarrow> os_db \<Rightarrow> auth_error + os_db" where
  "add_job j db =
     (if oj_id j \<in> set (map oj_id (od_jobs db)) then Inl (UncaughtError ''IntegrityError'')
      else Inr (db\<lparr>od_jobs := od_jobs db @ [j]\<rparr>))"

definition start_os_install_job ::
    "string \<Rightarrow> string \<Rightarrow> auth \<Rightarrow> string list \<Rightarrow> string \<Rightarrow> string list \<Rightarrow> string \<Rightarrow> string \<Rightarrow> system_version list \<Rightarrow> os_db
     \<Rightarrow> auth_error + os_db" where
  "start_os_install_job current i a packages scope targets strategy policy nodes db =
     ebind (refuse_if_active db) (\<lambda>_.
       if scope = ''nodes'' \<and> targets = [] then Inl (Http 400 ''target_nodes required when scope is nodes'')
       else add_job (create_os_install_job current i packages scope targets strategy policy (ad_username a) nodes) db)"

definition restart_nodes ::
    "string \<Rightarrow> string \<Rightarrow> auth \<Rightarrow> string list \<Rightarrow> string \<Rightarrow> system_version list \<Rightarrow> os_db \<Rightarrow> auth_error + os_db" where
  "restart_nodes current i a hosts strategy nodes db =
     (if hosts = [] then Inl (Http 400 ''node_hostnames required'')
      else ebind (refuse_if_active db) (\<lambda>_.
        let ns = order_nodes current (filter (\<lambda>n. sv_node_hostname n \<in> set hosts) nodes)
        in if ns = [] then Inl (Http 404 ''No matching nodes found'')
           else add_job \<lparr>oj_id = i, oj_packages = [], oj_strategy = strategy, oj_restart_policy = ''rolling'',
             oj_status = ''pending'', oj_started_by = ad_username a, oj_started_at = None, oj_completed_at = None,
             oj_error = None, oj_steps = restart_steps 0 ns\<rparr> db))"

definition install_all_updates ::
    "string \<Rightarrow> string \<Rightarrow> auth \<Rightarrow> string \<Rightarrow> string \<Rightarrow> system_version list \<Rightarrow> os_db \<Rightarrow> auth_error + os_db" where
  "install_all_updates current i a strategy policy nodes db =
     ebind (refuse_if_active db) (\<lambda>_.
       let packages = remdups (map (\<lambda>(h, p, b). p) (filter (\<lambda>(h, p, b). \<not> b) (od_updates db)))
       in if packages = [] then Inl (Http 400 ''No pending updates. Scan for updates first.'')
          else add_job (create_os_install_job current i packages ''all'' [] strategy policy (ad_username a) nodes) db)"

text \<open>The approval and, in the background, the resumption.\<close>

definition approve_os_install_job :: "sidecars \<Rightarrow> string \<Rightarrow> string \<Rightarrow> os_db \<Rightarrow> auth_error + os_db" where
  "approve_os_install_job env current i db =
     (case get_job i db of None \<Rightarrow> Inl (Http 404 ''Job not found'')
      | Some j \<Rightarrow>
          if oj_status j \<noteq> ''awaiting_approval'' then Inl (Http 409 ''Job is not awaiting approval'')
          else Inr (store_rollout (resume_os_install_job env current (rollout_of j db)) db))"

definition skip_pending :: "os_step \<Rightarrow> os_step" where
  "skip_pending s = (if st_status s = ''pending'' then s\<lparr>st_status := ''skipped''\<rparr> else s)"

definition cancel_os_install_job :: "int \<Rightarrow> string \<Rightarrow> os_db \<Rightarrow> auth_error + os_db" where
  "cancel_os_install_job now i db =
     (case get_job i db of None \<Rightarrow> Inl (Http 404 ''Job not found'')
      | Some j \<Rightarrow>
          if oj_status j \<notin> {''pending'', ''running'', ''awaiting_approval''} then Inl (Http 409 ''Cannot cancel job'')
          else Inr (store_rollout (map_steps skip_pending
            (set_job (\<lambda>j. j\<lparr>oj_status := ''cancelled'', oj_completed_at := Some now\<rparr>) (rollout_of j db))) db))"

definition delete_os_install_job :: "string \<Rightarrow> os_db \<Rightarrow> auth_error + os_db" where
  "delete_os_install_job i db =
     (case get_job i db of None \<Rightarrow> Inl (Http 404 ''Job not found'')
      | Some j \<Rightarrow>
          if oj_status j \<in> {''pending'', ''running'', ''awaiting_approval''} then Inl (Http 409 ''Cannot delete an active job'')
          else Inr (db\<lparr>od_jobs := filter (\<lambda>k. oj_id k \<noteq> i) (od_jobs db)\<rparr>))"

text \<open>The scheduler's search for jobs without a driver; \<open>driven\<close> are those this instance drives.\<close>

definition orphaned_os_jobs :: "string list \<Rightarrow> os_db \<Rightarrow> string list" where
  "orphaned_os_jobs driven db =
     map oj_id (filter (\<lambda>j. oj_status j = ''running'' \<and> oj_id j \<notin> set driven) (od_jobs db))"

definition resume_orphan :: "sidecars \<Rightarrow> string \<Rightarrow> string list \<Rightarrow> string \<Rightarrow> os_db \<Rightarrow> os_db" where
  "resume_orphan env current driven i db =
     (if i \<notin> set (orphaned_os_jobs driven db) then db
      else case get_job i db of None \<Rightarrow> db | Some j \<Rightarrow> store_rollout (drive env current (rollout_of j db)) db)"

section \<open>Collectors\<close>

text \<open>The names under which a caller may be known.\<close>

definition host_of_ip :: "string \<Rightarrow> registry \<Rightarrow> string list" where
  "host_of_ip ip s =
     (if ip = [] then []
      else case find (\<lambda>v. sv_node_ip v = ip) (rg_versions s) of None \<Rightarrow> [] | Some v \<Rightarrow> [sv_node_hostname v])"

definition first_ip :: "json \<Rightarrow> string" where
  "first_ip v =
     (case v of
        JArr (JStr ip # _) \<Rightarrow> ip
      | JObj ((_, JStr ip) # _) \<Rightarrow> ip
      | _ \<Rightarrow> [])"

definition resolve_node_hostnames :: "string \<Rightarrow> string \<Rightarrow> string \<Rightarrow> registry \<Rightarrow> auth_error + string list" where
  "resolve_node_hostnames hostname header client s =
     ebind (if hostname = [] then Inr None else scalar_one_or_none (collectors_of_host hostname s)) (\<lambda>found.
       let by_collector = (case found of None \<Rightarrow> [] | Some c \<Rightarrow> host_of_ip (first_ip (cl_ip_addresses c)) s);
           caller = (if forwarded_ip header = [] then client else forwarded_ip header)
       in Inr (filter (\<lambda>h. h \<noteq> []) (hostname # by_collector @ host_of_ip caller s)))"

definition get_my_tasks :: "string list \<Rightarrow> os_db \<Rightarrow> (string \<times> nat \<times> string \<times> string list) option" where
  "get_my_tasks hosts db =
     (case sort_key (\<lambda>(i, k, a, p). k) (concat (map (\<lambda>j. if oj_status j = ''running''
         then map (\<lambda>s. (oj_id j, st_order s, st_action s, oj_packages j))
           (filter (\<lambda>s. st_hostname s \<in> set hosts \<and> st_status s = ''awaiting_collector'') (oj_steps j)) else []) (od_jobs db))) of
        [] \<Rightarrow> None
      | t # _ \<Rightarrow> Some t)"

text \<open>A collector's report; \<open>status\<close> is completed or failed.  The job advances in the background.\<close>

definition report_step_result ::
    "sidecars \<Rightarrow> string \<Rightarrow> string \<Rightarrow> nat \<Rightarrow> string \<Rightarrow> string option \<Rightarrow> string option \<Rightarrow> os_db \<Rightarrow> auth_error + os_db" where
  "report_step_result env current i k status output err db =
     (case get_job i db of None \<Rightarrow> Inl (Http 404 ''Step not found'')
      | Some j \<Rightarrow>
     (case find (\<lambda>n. st_order (oj_steps j ! n) = k) [0..<length (oj_steps j)] of None \<Rightarrow> Inl (Http 404 ''Step not found'')
      | Some n \<Rightarrow>
          let s = oj_steps j ! n
          in if st_status s \<noteq> ''awaiting_collector'' then Inl (Http 409 ''Step not in awaiting_collector state'')
             else let w = set_step n (\<lambda>s. s\<lparr>st_status := status, st_output_log := output, st_error := err,
                        st_completed_at := Some (sc_now env)\<rparr>) (rollout_of j db);
                      w = (if status = ''completed'' \<and> st_action s = ''install'' then mark_installed s w else w)
                  in Inr (store_rollout (advance_collector_job env current w) db)))"


section \<open>Requests and runs in sequence\<close>

datatype os_event =
    StartJob string string auth "string list" string "string list" string string "system_version list"
  | RestartNodes string string auth "string list" string "system_version list"
  | InstallAll string string auth string string "system_version list"
  | Execute sidecars string string bool "string redis option" string
  | ResumeOrphan sidecars string "string list" string
  | ApproveJob sidecars string string
  | CancelJob int string
  | DeleteJob string
  | ReportStep sidecars string string nat string "string option" "string option"

fun os_handle :: "os_event \<Rightarrow> os_db \<Rightarrow> auth_error + os_db" where
  "os_handle (StartJob current i a packages scope targets strategy policy nodes) db =
     start_os_install_job current i a packages scope targets strategy policy nodes db"
| "os_handle (RestartNodes current i a hosts strategy nodes) db = restart_nodes current i a hosts strategy nodes db"
| "os_handle (InstallAll current i a strategy policy nodes) db = install_all_updates current i a strategy policy nodes db"
| "os_handle (Execute env current inst fails r i) db =
     (case get_job i db of None \<Rightarrow> Inr db
      | Some j \<Rightarrow> map_sum id (\<lambda>(w, r). store_rollout w db) (execute_os_install_job env current inst fails r (rollout_of j db)))"
| "os_handle (ResumeOrphan env current driven i) db = Inr (resume_orphan env current driven i db)"
| "os_handle (ApproveJob env current i) db = approve_os_install_job env current i db"
| "os_handle (CancelJob now i) db = cancel_os_install_job now i db"
| "os_handle (DeleteJob i) db = delete_os_install_job i db"
| "os_handle (ReportStep env current i k status output err) db = report_step_result env current i k status output err db"

definition os_run :: "os_event \<Rightarrow> os_db \<Rightarrow> os_db option" where
  "os_run e db = Some (case os_handle e db of Inl _ \<Rightarrow> db | Inr db' \<Rightarrow> db')"


end
