(* ===== verification/Os_Rollout_Props.thy ===== *)
theory Os_Rollout_Props
  imports Os_Rollout
begin

text \<open>
  Properties of the roll-out: what a run of the driver may change and send, when it stops, what its
  last word on the job means, and the order of the steps of a new job.
\<close>

section \<open>What the updates keep\<close>

lemma steps_set_step: "steps_of (set_step i f w) = (steps_of w)[i := f (steps_of w ! i)]"
  by (simp add: steps_of_def set_step_def set_job_def)

lemma steps_map_steps: "steps_of (map_steps f w) = map f (steps_of w)"
  by (simp add: steps_of_def map_steps_def set_job_def)

lemma steps_simps [simp]:
  "steps_of (sent s ok w) = steps_of w"
  "steps_of (mark_installed s w) = steps_of w"
  by (simp_all add: steps_of_def sent_def mark_installed_def Let_def)

lemma steps_set_job: "oj_steps (f (ro_job w)) = oj_steps (ro_job w) \<Longrightarrow> steps_of (set_job f w) = steps_of w"
  by (simp add: steps_of_def set_job_def)

lemma job_simps [simp]:
  "ro_job (sent s ok w) = ro_job w"
  "ro_job (mark_installed s w) = ro_job w"
  "ro_job (set_job f w) = f (ro_job w)"
  by (simp_all add: sent_def mark_installed_def set_job_def Let_def)

lemma strategy_simps [simp]:
  "oj_id (ro_job (set_step i f w)) = oj_id (ro_job w)"
  "oj_id (ro_job (map_steps g w)) = oj_id (ro_job w)"
  "oj_strategy (ro_job (set_step i f w)) = oj_strategy (ro_job w)"
  "oj_strategy (ro_job (map_steps g w)) = oj_strategy (ro_job w)"
  "oj_status (ro_job (set_step i f w)) = oj_status (ro_job w)"
  "oj_status (ro_job (map_steps g w)) = oj_status (ro_job w)"
  by (simp_all add: set_step_def map_steps_def)

lemma commands_simps [simp]:
  "ro_commands (set_step i f w) = ro_commands w"
  "ro_commands (map_steps g w) = ro_commands w"
  "ro_commands (set_job h w) = ro_commands w"
  "ro_commands (mark_installed s w) = ro_commands w"
  "ro_commands (sent s ok w) = ro_commands w @ [(st_order s, st_action s, ok)]"
  by (simp_all add: set_step_def map_steps_def set_job_def mark_installed_def sent_def Let_def)

section \<open>One central step\<close>

text \<open>
  What a step of the driver on the step \<open>i\<close> may do: change that step, and with a reboot of the own node
  the pending health checks; keep the strategy; send at most one command, which failed if the step did.
\<close>

definition settled_status :: "string \<Rightarrow> bool" where
  "settled_status st \<longleftrightarrow> st \<in> {''completed'', ''failed'', ''skipped''}"

text \<open>What no handler ever changes of the steps.\<close>

definition fixed_part :: "os_step \<Rightarrow> nat \<times> string \<times> string \<times> string \<times> bool" where
  "fixed_part s = (st_order s, st_hostname s, st_role s, st_action s, st_is_test s)"

definition skeleton :: "rollout \<Rightarrow> (nat \<times> string \<times> string \<times> string \<times> bool) list" where
  "skeleton w = map fixed_part (steps_of w)"

lemma skeleton_set_step: "fixed_part (f (steps_of w ! i)) = fixed_part (steps_of w ! i) \<Longrightarrow> skeleton (set_step i f w) = skeleton w"
  by (cases "i < length (steps_of w)") (simp_all add: skeleton_def steps_set_step map_update list_update_same_conv list_update_beyond)

lemma skeleton_map_steps: "(\<And>s. fixed_part (f s) = fixed_part s) \<Longrightarrow> skeleton (map_steps f w) = skeleton w"
  by (simp add: skeleton_def steps_map_steps)

lemma skeleton_simps [simp]:
  "skeleton (sent s ok w) = skeleton w"
  "skeleton (mark_installed s w) = skeleton w"
  by (simp_all add: skeleton_def)

lemma skeleton_set_job: "oj_steps (f (ro_job w)) = oj_steps (ro_job w) \<Longrightarrow> skeleton (set_job f w) = skeleton w"
  by (simp add: skeleton_def steps_set_job)

lemmas skeleton_rules = skeleton_set_step skeleton_map_steps skeleton_set_job fixed_part_def finish_step_def fail_step_def

definition step_effect :: "nat \<Rightarrow> bool \<Rightarrow> rollout \<Rightarrow> rollout \<Rightarrow> bool" where
  "step_effect i err w w' \<longleftrightarrow>
     length (steps_of w') = length (steps_of w) \<and>
     (\<forall>k < length (steps_of w). k \<noteq> i \<longrightarrow> st_status (steps_of w ! k) \<noteq> ''pending'' \<longrightarrow> steps_of w' ! k = steps_of w ! k) \<and>
     oj_id (ro_job w') = oj_id (ro_job w) \<and> oj_strategy (ro_job w') = oj_strategy (ro_job w) \<and> skeleton w' = skeleton w \<and>
     (\<exists>cs. ro_commands w' = ro_commands w @ cs \<and> length cs \<le> 1 \<and> (\<not> err \<longrightarrow> (\<forall>(k, a, ok) \<in> set cs. ok)))"

lemma run_install_effect: "step_effect i (fst (run_install env i resume w)) w (snd (run_install env i resume w))"
  by (simp add: run_install_def step_effect_def skeleton_rules Let_def steps_set_step nth_list_update split: prod.split option.split sum.split)

lemma run_reboot_effect: "step_effect i (fst (run_reboot env i w)) w (snd (run_reboot env i w))"
  by (simp add: run_reboot_def step_effect_def skeleton_rules Let_def steps_set_step split: option.split)

lemma run_health_check_effect: "step_effect i (fst (run_health_check env i w)) w (snd (run_health_check env i w))"
  by (simp add: run_health_check_def step_effect_def skeleton_rules Let_def steps_set_step split: sum.split)

lemma run_own_reboot_effect: "step_effect i (fst (run_own_reboot env current i w)) w (snd (run_own_reboot env current i w))"
  by (auto simp: run_own_reboot_def step_effect_def skeleton_rules Let_def steps_set_step steps_map_steps steps_set_job nth_list_update
      split: option.split)

lemma central_action_effect:
  "step_effect i (fst (snd (central_action env current i resume w))) w (snd (snd (central_action env current i resume w)))"
  using run_install_effect run_reboot_effect run_own_reboot_effect run_health_check_effect
  by (auto simp: central_action_def step_effect_def steps_set_step skeleton_rules)

lemma start_step_effect: "step_effect i False w (start_step now i w)"
  by (simp add: start_step_def step_effect_def steps_set_step skeleton_rules)

lemma central_step_effect:
  "step_effect i (fst (snd (central_step env current i w))) w (snd (snd (central_step env current i w)))"
proof -
  let ?v = "start_step (sc_now env) i w"
  let ?resume = "if st_status (steps_of w ! i) = ''running'' then st_sidecar_job (steps_of w ! i) else None"
  have v: "length (steps_of ?v) = length (steps_of w)" "ro_commands ?v = ro_commands w"
      "oj_id (ro_job ?v) = oj_id (ro_job w)"
      "oj_strategy (ro_job ?v) = oj_strategy (ro_job w)" "skeleton ?v = skeleton w" "k \<noteq> i \<Longrightarrow> steps_of ?v ! k = steps_of w ! k" for k
    by (simp_all add: start_step_def steps_set_step skeleton_rules)
  then show ?thesis using central_action_effect [of i env current ?resume ?v] by (simp add: central_step_def step_effect_def)
qed

section \<open>The loop\<close>

lemma pick_next_actionable: "pick_next_pending steps current i = Some j \<Longrightarrow> actionable (steps ! j)"
  by (auto simp: pick_next_pending_def find_Some_iff split: option.splits)

text \<open>A relation that all parts of the loop respect holds from its start to its end.\<close>

fun turn_state :: "turn \<Rightarrow> rollout" where
  "turn_state (Exit e w) = w"
| "turn_state (Continue i failed w) = w"

lemma run_steps_rel:
  assumes trans: "\<And>u v w. R u v \<Longrightarrow> R v w \<Longrightarrow> R u w"
    and turn: "\<And>env current n i failed w. R w (turn_state (run_turn env current n i failed w))"
  shows "R w (snd (run_steps env current n i failed w))"
proof (induction env current n i failed w rule: run_steps.induct)
  case (1 env current n i failed w)
  show ?case
  proof (cases "run_turn env current n i failed w")
    case (Exit e w')
    then show ?thesis using turn [of w env current n i failed] by (simp add: run_steps.simps [of env])
  next
    case (Continue i' failed' w')
    then have "R w w'" using turn [of w env current n i failed] by simp
    from trans [OF this "1.IH" [OF Continue]] show ?thesis using Continue by (simp add: run_steps.simps [of env current n i])
  qed
qed

text \<open>What one turn does to the roll-out: nothing, the last word, or an update of a step that is actionable.\<close>

lemma run_turn_cases:
  assumes "run_turn env current n i failed w = t"
  obtains (idle) "t = Exit LeaseLost w"
  | (last) "t = Exit Done (finalize (sc_now env) w)"
  | (skip) j where "actionable (steps_of w ! j)" "failed" "stepwise w"
      "t = Continue (j + 1) True (set_step j (\<lambda>s. s\<lparr>st_status := ''skipped''\<rparr>) w)"
  | (wait) j where "actionable (steps_of w ! j)" "\<not> (failed \<and> stepwise w)"
      "t = (let w' = set_step j (\<lambda>s. s\<lparr>st_status := ''awaiting_collector'', st_started_at := Some (sc_now env)\<rparr>) w
         in if stepwise w then Exit Done w' else Continue (j + 1) failed w')"
  | (central) j where "actionable (steps_of w ! j)" "j < length (steps_of w)" "\<not> (failed \<and> stepwise w)"
      "t = central_turn env current j failed w"
  using assms pick_next_actionable [of "steps_of w" current i] pick_next_bounds [of "steps_of w" current i]
  by (auto simp: run_turn_def Let_def split: if_splits option.splits)

lemma job_finalize: "oj_id (ro_job (finalize now w)) = oj_id (ro_job w)" "oj_strategy (ro_job (finalize now w)) = oj_strategy (ro_job w)" "steps_of (finalize now w) = steps_of w"
    "ro_commands (finalize now w) = ro_commands w"
  by (simp_all add: finalize_def Let_def close_job_def steps_set_job)

text \<open>No step that is completed, failed or skipped is touched by a run.\<close>

definition settled_kept :: "rollout \<Rightarrow> rollout \<Rightarrow> bool" where
  "settled_kept w w' \<longleftrightarrow> oj_id (ro_job w') = oj_id (ro_job w) \<and> oj_strategy (ro_job w') = oj_strategy (ro_job w) \<and> length (steps_of w') = length (steps_of w) \<and>
     (\<forall>k < length (steps_of w). settled_status (st_status (steps_of w ! k)) \<longrightarrow> steps_of w' ! k = steps_of w ! k)"

lemma settled_kept_refl [simp]: "settled_kept w w"
  by (simp add: settled_kept_def)

lemma settled_kept_trans: "settled_kept u v \<Longrightarrow> settled_kept v w \<Longrightarrow> settled_kept u w"
  by (simp add: settled_kept_def)

lemma actionable_unsettled: "actionable s \<Longrightarrow> \<not> settled_status (st_status s)"
  by (auto simp: actionable_def settled_status_def)

lemma settled_kept_set_step:
  "\<not> settled_status (st_status (steps_of w ! j)) \<Longrightarrow> settled_kept w (set_step j f w)"
  by (simp add: settled_kept_def steps_set_step) (metis nth_list_update_neq)

lemma settled_kept_central_step:
  assumes "actionable (steps_of w ! j)"
  shows "settled_kept w (snd (snd (central_step env current j w)))"
proof -
  have "settled_status st \<Longrightarrow> st \<noteq> ''pending''" for st by (auto simp: settled_status_def)
  then show ?thesis
    using central_step_effect [of j env current w] actionable_unsettled [OF assms] unfolding step_effect_def settled_kept_def by metis
qed

lemma settled_kept_close: "settled_kept w (finalize now w)" "settled_kept w (set_job (\<lambda>k. k\<lparr>oj_status := st\<rparr>) w)"
  by (simp_all add: settled_kept_def job_finalize steps_set_job)

text \<open>The end of a central turn, by what its step did.\<close>

lemma central_turn_cases:
  assumes "central_turn env current j failed w = t"
  obtains (ends) err w' where "central_step env current j w = (True, err, w')" "t = Exit Done w'"
  | (approval) w' where "central_step env current j w = (False, False, w')" "\<not> failed"
      "t = Exit Done (set_job (\<lambda>k. k\<lparr>oj_status := ''awaiting_approval''\<rparr>) w')"
  | (go_on) err w' where "central_step env current j w = (False, err, w')" "t = Continue (j + 1) (failed \<or> err) w'"
  using assms by (cases "central_step env current j w") (auto simp: central_turn_def split: if_splits)

lemma settled_kept_turn: "settled_kept w (turn_state (run_turn env current n i failed w))"
  using refl [of "run_turn env current n i failed w"]
proof (cases rule: run_turn_cases)
  case (skip j)
  then show ?thesis by (simp add: settled_kept_set_step actionable_unsettled)
next
  case (wait j)
  then show ?thesis by (simp add: Let_def settled_kept_set_step actionable_unsettled)
next
  case (central j)
  have c: "settled_kept w (snd (snd (central_step env current j w)))" by (rule settled_kept_central_step [OF central(1)])
  show ?thesis using refl [of "central_turn env current j failed w"]
  proof (cases rule: central_turn_cases)
    case (approval w')
    then show ?thesis using settled_kept_trans [OF c settled_kept_close(2)] unfolding central(4) by simp
  qed (use c in \<open>simp_all add: central(4)\<close>)
qed (simp_all add: settled_kept_close)

lemma run_steps_settled: "settled_kept w (snd (run_steps env current n i failed w))"
  by (rule run_steps_rel [where R = settled_kept]) (auto intro: settled_kept_trans settled_kept_turn)

section \<open>When something fails\<close>

lemma stepwise_set_step [simp]: "stepwise (set_step j f w) = stepwise w"
  by (simp add: stepwise_def)

lemma stepwise_central_step: "stepwise (snd (snd (central_step env current j w))) = stepwise w"
  using central_step_effect [of j env current w] by (simp add: step_effect_def stepwise_def)

lemma run_steps_Exit: "run_turn env current n i failed w = Exit e w' \<Longrightarrow> run_steps env current n i failed w = (e, w')"
  by (simp add: run_steps.simps [of env current n i])

lemma run_steps_Continue:
  "run_turn env current n i failed w = Continue i' failed' w' \<Longrightarrow>
   run_steps env current n i failed w = run_steps env current (n + 1) i' failed' w'"
  by (simp add: run_steps.simps [of env current n i])

text \<open>After a failure the rest is skipped in silence.\<close>

lemma run_steps_silent:
  assumes "failed" and "stepwise w"
  shows "ro_commands (snd (run_steps env current n i failed w)) = ro_commands w"
  using assms
proof (induction env current n i failed w rule: run_steps.induct)
  case (1 env current n i failed w)
  show ?case using refl [of "run_turn env current n i failed w"]
  proof (cases rule: run_turn_cases)
    case (skip j)
    then show ?thesis using run_steps_Continue [OF skip(4)] "1.IH" [OF skip(4)] by simp
  qed (use 1(2,3) in \<open>auto dest: run_steps_Exit simp: job_finalize\<close>)
qed

definition all_fine :: "(nat \<times> string \<times> bool) list \<Rightarrow> bool" where
  "all_fine cs \<longleftrightarrow> (\<forall>(k, a, ok) \<in> set cs. ok)"

lemma run_steps_fail_fast:
  assumes "stepwise w" and "\<not> failed"
  shows "\<exists>cs. ro_commands (snd (run_steps env current n i failed w)) = ro_commands w @ cs \<and> all_fine (butlast cs)"
  using assms
proof (induction env current n i failed w rule: run_steps.induct)
  case (1 env current n i failed w)
  show ?case using refl [of "run_turn env current n i failed w"]
  proof (cases rule: run_turn_cases)
    case (central j)
    let ?c = "central_step env current j w" and ?v = "snd (snd (central_step env current j w))"
    obtain cs where cs: "ro_commands ?v = ro_commands w @ cs" "length cs \<le> 1" "\<not> fst (snd ?c) \<Longrightarrow> all_fine cs"
      using central_step_effect [of j env current w] by (auto simp: step_effect_def all_fine_def)
    have one: "all_fine (butlast cs)" using cs(2) by (cases cs) (auto simp: all_fine_def)
    show ?thesis using refl [of "central_turn env current j failed w"]
    proof (cases rule: central_turn_cases)
      case (ends err w')
      then show ?thesis using run_steps_Exit central(4) cs one by fastforce
    next
      case (approval w')
      then show ?thesis using run_steps_Exit central(4) cs one by fastforce
    next
      case (go_on err w')
      then have t: "run_turn env current n i failed w = Continue (j + 1) (failed \<or> err) w'" and v: "?v = w'" using central(4) by simp_all
      show ?thesis
      proof (cases err)
        case True
        then have "ro_commands (snd (run_steps env current n i failed w)) = ro_commands w @ cs"
          using run_steps_Continue [OF t] run_steps_silent [of True w' env current "n + 1" "j + 1"] v cs(1) 1(2)
            stepwise_central_step [of env current j w] by simp
        then show ?thesis using one by blast
      next
        case False
        then obtain ds where "ro_commands (snd (run_steps env current n i failed w)) = ro_commands w' @ ds" "all_fine (butlast ds)"
          using run_steps_Continue [OF t] "1.IH" [OF t] v 1(2,3) stepwise_central_step [of env current j w] by auto
        moreover have "all_fine cs" using cs(3) go_on(1) False by simp
        ultimately have "ro_commands (snd (run_steps env current n i failed w)) = ro_commands w @ (cs @ ds) \<and> all_fine (butlast (cs @ ds))"
          using v cs(1) one by (auto simp: butlast_append all_fine_def)
        then show ?thesis by blast
      qed
    qed
  next
    case (wait j)
    then have "run_steps env current n i failed w =
        (Done, set_step j (\<lambda>s. s\<lparr>st_status := ''awaiting_collector'', st_started_at := Some (sc_now env)\<rparr>) w)"
      using 1(2) by (intro run_steps_Exit) (simp add: Let_def)
    then show ?thesis by (simp add: all_fine_def)
  qed (use 1(2,3) in \<open>auto dest: run_steps_Exit simp: job_finalize all_fine_def\<close>)
qed

section \<open>The last word\<close>

lemma skeleton_nth:
  assumes "skeleton w' = skeleton w" and "k < length (steps_of w)"
  shows "fixed_part (steps_of w' ! k) = fixed_part (steps_of w ! k)"
  using assms by (metis length_map nth_map skeleton_def)

definition no_own_reboot :: "string \<Rightarrow> rollout \<Rightarrow> bool" where
  "no_own_reboot current w \<longleftrightarrow> (\<forall>s \<in> set (steps_of w). \<not> (st_action s = ''reboot'' \<and> st_hostname s = current))"

lemma no_own_reboot_skeleton:
  "no_own_reboot current w \<longleftrightarrow> (\<forall>(k, h, r, a, t) \<in> set (skeleton w). \<not> (a = ''reboot'' \<and> h = current))"
  by (auto simp: no_own_reboot_def skeleton_def fixed_part_def)

lemma central_step_status:
  assumes "no_own_reboot current w" and "j < length (steps_of w)"
  shows "oj_status (ro_job (snd (snd (central_step env current j w)))) = oj_status (ro_job w)"
    and "fst (central_step env current j w) = False"
proof -
  let ?v = "start_step (sc_now env) j w"
  have "fixed_part (steps_of ?v ! j) = fixed_part (steps_of w ! j)"
    using assms(2) by (intro skeleton_nth) (simp_all add: start_step_def skeleton_rules)
  then have a: "\<not> (st_action (steps_of ?v ! j) = ''reboot'' \<and> st_hostname (steps_of ?v ! j) = current)"
    using assms by (auto simp: no_own_reboot_def fixed_part_def)
  have v: "oj_status (ro_job ?v) = oj_status (ro_job w)" by (simp add: start_step_def)
  have i: "oj_status (ro_job (snd (run_install env j r u))) = oj_status (ro_job u)"
      "oj_status (ro_job (snd (run_reboot env j u))) = oj_status (ro_job u)"
      "oj_status (ro_job (snd (run_health_check env j u))) = oj_status (ro_job u)" for r u
    by (simp_all add: run_install_def run_reboot_def run_health_check_def Let_def split: prod.split option.split sum.split)
  show "oj_status (ro_job (snd (snd (central_step env current j w)))) = oj_status (ro_job w)"
    using a v by (auto simp: central_step_def central_action_def i)
  show "fst (central_step env current j w) = False" using a by (auto simp: central_step_def central_action_def)
qed

lemma finalize_completed:
  assumes "oj_status (ro_job (finalize now w)) = ''completed''" and "oj_status (ro_job w) \<noteq> ''completed''"
  shows "\<forall>s \<in> set (steps_of (finalize now w)). st_status s \<in> {''completed'', ''skipped''}"
  using assms by (auto simp: finalize_def Let_def close_job_def list_all_iff steps_set_job split: if_splits)

lemma run_steps_completed:
  assumes "oj_status (ro_job w) \<noteq> ''completed''" and "no_own_reboot current w"
    and "oj_status (ro_job (snd (run_steps env current n i failed w))) = ''completed''"
  shows "\<forall>s \<in> set (steps_of (snd (run_steps env current n i failed w))). st_status s \<in> {''completed'', ''skipped''}"
  using assms
proof (induction env current n i failed w rule: run_steps.induct)
  case (1 env current n i failed w)
  show ?case using refl [of "run_turn env current n i failed w"]
  proof (cases rule: run_turn_cases)
    case last
    then show ?thesis using run_steps_Exit [OF last] finalize_completed 1(2,4) by simp
  next
    case (skip j)
    have "no_own_reboot current (set_step j (\<lambda>s. s\<lparr>st_status := ''skipped''\<rparr>) w)"
      using 1(3) by (simp add: no_own_reboot_skeleton skeleton_rules)
    then show ?thesis using run_steps_Continue [OF skip(4)] "1.IH" [OF skip(4)] 1(2,4) by simp
  next
    case (wait j)
    let ?w = "set_step j (\<lambda>s. s\<lparr>st_status := ''awaiting_collector'', st_started_at := Some (sc_now env)\<rparr>) w"
    have o: "no_own_reboot current ?w" using 1(3) by (simp add: no_own_reboot_skeleton skeleton_rules)
    show ?thesis
    proof (cases "stepwise w")
      case True
      then have "run_steps env current n i failed w = (Done, ?w)" using wait(3) by (intro run_steps_Exit) (simp add: Let_def)
      then show ?thesis using 1(2,4) by simp
    next
      case False
      then have t: "run_turn env current n i failed w = Continue (j + 1) failed ?w" using wait(3) by (simp add: Let_def)
      then show ?thesis using run_steps_Continue [OF t] "1.IH" [OF t] o 1(2,4) by simp
    qed
  next
    case (central j)
    note st = central_step_status [OF 1(3) central(2), of env]
    show ?thesis using refl [of "central_turn env current j failed w"]
    proof (cases rule: central_turn_cases)
      case (ends err w')
      then show ?thesis using st(2) by simp
    next
      case (approval w')
      then show ?thesis using run_steps_Exit central(4) 1(4) by fastforce
    next
      case (go_on err w')
      then have t: "run_turn env current n i failed w = Continue (j + 1) (failed \<or> err) w'" using central(4) by simp
      have "no_own_reboot current w'" "oj_status (ro_job w') \<noteq> ''completed''"
        using go_on(1) st(1) 1(2,3) central_step_effect [of j env current w] by (simp_all add: no_own_reboot_skeleton step_effect_def)
      then show ?thesis using run_steps_Continue [OF t] "1.IH" [OF t] 1(4) by simp
    qed
  qed (use 1(2,4) in \<open>auto dest: run_steps_Exit\<close>)
qed


section \<open>Settled steps in the history of a job\<close>

lemma settled_kept_map_steps:
  assumes "\<And>s. settled_status (st_status s) \<Longrightarrow> f s = s"
  shows "settled_kept w (map_steps f w)"
  using assms by (simp add: settled_kept_def steps_map_steps)

lemma settled_kept_set_job:
  "(\<And>j. oj_id (f j) = oj_id j \<and> oj_strategy (f j) = oj_strategy j \<and> oj_steps (f j) = oj_steps j) \<Longrightarrow> settled_kept w (set_job f w)"
  by (simp add: settled_kept_def steps_set_job)

lemma close_job_keeps [simp]:
  "oj_id (close_job now ok j) = oj_id j" "oj_strategy (close_job now ok j) = oj_strategy j" "oj_steps (close_job now ok j) = oj_steps j"
  by (simp_all add: close_job_def)

lemma settled_kept_drive: "settled_kept w (drive env current w)"
proof -
  let ?v = "if oj_status (ro_job w) = ''running'' then w
    else set_job (\<lambda>j. j\<lparr>oj_status := ''running'', oj_started_at := Some (sc_now env)\<rparr>) w"
  have "settled_kept w ?v" by (simp add: settled_kept_set_job)
  then show ?thesis unfolding drive_def Let_def using run_steps_settled by (rule settled_kept_trans)
qed

lemma settled_kept_execute:
  "execute_os_install_job env current inst fails r w = Inr (w', r') \<Longrightarrow> settled_kept w w'"
  by (auto simp: execute_os_install_job_def Let_def settled_kept_drive split: if_splits option.splits prod.splits)

lemma settled_kept_resume: "settled_kept w (resume_os_install_job env current w)"
  unfolding resume_os_install_job_def
  by (auto intro: settled_kept_trans [OF settled_kept_close(2) run_steps_settled])

lemma settled_kept_close_if_done: "settled_kept w (close_if_done now w)"
  by (simp add: close_if_done_def settled_kept_set_job)

lemma settled_kept_advance: "settled_kept w (advance_collector_job env current w)"
proof -
  have skip: "settled_status (st_status s) \<Longrightarrow> skip_waiting s = s" for s by (auto simp: settled_status_def skip_waiting_def)
  have "settled_kept w (set_job (close_job (sc_now env) False) (map_steps skip_waiting w))"
    by (rule settled_kept_trans [OF settled_kept_map_steps settled_kept_set_job]) (simp_all add: skip)
  moreover have "settled_kept w (set_step j f w)" if "find (\<lambda>j. st_status (steps_of w ! j) = ''pending'') ks = Some j" for j f ks
    using that by (intro settled_kept_set_step) (auto simp: find_Some_iff settled_status_def)
  moreover have "settled_kept w (close_if_done now (snd (run_steps env' current 0 0 False w)))" for now env'
    by (rule settled_kept_trans [OF run_steps_settled settled_kept_close_if_done])
  ultimately show ?thesis
    by (auto simp: advance_collector_job_def Let_def settled_kept_close settled_kept_close_if_done split: option.splits if_splits)
qed

text \<open>A step of a job, as it stands in the tables.\<close>

definition has_step :: "string \<Rightarrow> nat \<Rightarrow> os_step \<Rightarrow> os_db \<Rightarrow> bool" where
  "has_step i n s db \<longleftrightarrow> (\<exists>j. get_job i db = Some j \<and> n < length (oj_steps j) \<and> oj_steps j ! n = s)"

lemma has_step_store:
  assumes "has_step i n s db" and "settled_status (st_status s)" and "get_job i' db = Some j'" and "settled_kept (rollout_of j' db) w"
  shows "has_step i n s (store_rollout w db)"
proof -
  have id: "oj_id j' = i'" using assms(3) by (auto simp: get_job_def find_Some_iff)
  have w: "oj_id (ro_job w) = i'" using assms(4) id by (simp add: settled_kept_def rollout_of_def)
  have f: "find (\<lambda>j. oj_id j = i) (map (\<lambda>j. if oj_id j = i' then ro_job w else j) xs) =
      map_option (\<lambda>j. if oj_id j = i' then ro_job w else j) (find (\<lambda>j. oj_id j = i) xs)" for xs
    using w by (induction xs) auto
  obtain j where j: "get_job i db = Some j" "n < length (oj_steps j)" "oj_steps j ! n = s" using assms(1) by (auto simp: has_step_def)
  show ?thesis
  proof (cases "i = i'")
    case True
    then have "j = j'" "get_job i (store_rollout w db) = Some (ro_job w)"
      using j(1) assms(3) f id w by (simp_all add: get_job_def store_rollout_def)
    then show ?thesis using j assms(2,4) by (auto simp: has_step_def settled_kept_def rollout_of_def steps_of_def)
  next
    case False
    have "oj_id j = i" using j(1) by (auto simp: get_job_def find_Some_iff)
    then have "get_job i (store_rollout w db) = Some j" using j(1) f False w by (simp add: get_job_def store_rollout_def)
    then show ?thesis using j by (simp add: has_step_def)
  qed
qed

lemma has_step_add: "has_step i n s db \<Longrightarrow> add_job j db = Inr db' \<Longrightarrow> has_step i n s db'"
proof -
  have "find P xs = Some y \<Longrightarrow> find P (xs @ ys) = Some y" for P and xs ys :: "os_job list" and y by (induction xs) (auto split: if_splits)
  then show "has_step i n s db \<Longrightarrow> add_job j db = Inr db' \<Longrightarrow> has_step i n s db'"
    by (auto simp: has_step_def add_job_def get_job_def split: if_splits)
qed

lemma has_step_create:
  "has_step i n s db \<Longrightarrow> start_os_install_job current k a packages scope targets strategy policy nodes db = Inr db' \<Longrightarrow> has_step i n s db'"
  "has_step i n s db \<Longrightarrow> restart_nodes current k a hosts strategy nodes db = Inr db' \<Longrightarrow> has_step i n s db'"
  "has_step i n s db \<Longrightarrow> install_all_updates current k a strategy policy nodes db = Inr db' \<Longrightarrow> has_step i n s db'"
  by (auto simp: start_os_install_job_def restart_nodes_def install_all_updates_def ebind_def Let_def
      intro: has_step_add split: sum.splits if_splits)

lemma has_step_delete:
  assumes "has_step i n s db" and "delete_os_install_job k db = Inr db'" and "k \<noteq> i"
  shows "has_step i n s db'"
proof -
  have "find (\<lambda>j. oj_id j = i) (filter (\<lambda>j. oj_id j \<noteq> k) xs) = find (\<lambda>j. oj_id j = i) xs" for xs
    using assms(3) by (induction xs) auto
  then have "get_job i (db\<lparr>od_jobs := filter (\<lambda>j. oj_id j \<noteq> k) (od_jobs db)\<rparr>) = get_job i db" by (simp add: get_job_def)
  moreover have "db' = db\<lparr>od_jobs := filter (\<lambda>j. oj_id j \<noteq> k) (od_jobs db)\<rparr>"
    using assms(2) by (auto simp: delete_os_install_job_def split: option.splits if_splits)
  ultimately show ?thesis using assms(1) by (simp add: has_step_def)
qed

lemma settled_kept_mark: "settled_kept w (if b then mark_installed s v else v) = settled_kept w v"
  by (simp add: settled_kept_def)

lemma has_step_report:
  assumes "has_step i n s db" and "settled_status (st_status s)" and "report_step_result env current k m status output err db = Inr db'"
  shows "has_step i n s db'"
proof -
  obtain j where j: "get_job k db = Some j" using assms(3) by (cases "get_job k db") (simp_all add: report_step_result_def)
  obtain p where p: "find (\<lambda>n. st_order (oj_steps j ! n) = m) [0..<length (oj_steps j)] = Some p"
    using assms(3) j by (cases "find (\<lambda>n. st_order (oj_steps j ! n) = m) [0..<length (oj_steps j)]") (simp_all add: report_step_result_def)
  let ?w = "set_step p (\<lambda>s. s\<lparr>st_status := status, st_output_log := output, st_error := err,
     st_completed_at := Some (sc_now env)\<rparr>) (rollout_of j db)"
  let ?v = "if status = ''completed'' \<and> st_action (oj_steps j ! p) = ''install'' then mark_installed (oj_steps j ! p) ?w else ?w"
  have a: "st_status (oj_steps j ! p) = ''awaiting_collector''" and db': "db' = store_rollout (advance_collector_job env current ?v) db"
    using assms(3) j p by (auto simp: report_step_result_def Let_def split: if_splits)
  have "settled_kept (rollout_of j db) ?w"
    using a by (intro settled_kept_set_step) (simp add: steps_of_def rollout_of_def settled_status_def)
  then have "settled_kept (rollout_of j db) ?v"
    by (simp only: settled_kept_mark)
  then show ?thesis unfolding db'
    by (intro has_step_store [OF assms(1,2) j] settled_kept_trans [OF _ settled_kept_advance])
qed

lemma has_step_event:
  assumes "has_step i n s db" and "settled_status (st_status s)" and "os_handle e db = Inr db'" and "e \<noteq> DeleteJob i"
  shows "has_step i n s db'"
proof (cases e)
  case (Execute env current inst fails r k)
  show ?thesis
  proof (cases "get_job k db")
    case (Some j)
    then obtain w r' where "execute_os_install_job env current inst fails r (rollout_of j db) = Inr (w, r')" "db' = store_rollout w db"
      using assms(3) Execute by (auto simp: map_sum_def split: sum.splits)
    then show ?thesis using has_step_store [OF assms(1,2) Some settled_kept_execute] by blast
  qed (use assms Execute in simp)
next
  case (ResumeOrphan env current driven k)
  then show ?thesis using assms has_step_store [OF assms(1,2) _ settled_kept_drive]
    by (auto simp: resume_orphan_def split: option.splits)
next
  case (ApproveJob env current k)
  then show ?thesis using assms has_step_store [OF assms(1,2) _ settled_kept_resume]
    by (auto simp: approve_os_install_job_def split: option.splits if_splits)
next
  case (CancelJob now k)
  have skip: "settled_status (st_status s) \<Longrightarrow> skip_pending s = s" for s by (auto simp: settled_status_def skip_pending_def)
  have "settled_kept w (map_steps skip_pending (set_job (\<lambda>j. j\<lparr>oj_status := ''cancelled'', oj_completed_at := Some now\<rparr>) w))" for w
    by (rule settled_kept_trans [OF settled_kept_set_job settled_kept_map_steps]) (simp_all add: skip)
  then show ?thesis using assms CancelJob has_step_store [OF assms(1,2)]
    by (auto simp: cancel_os_install_job_def split: option.splits if_splits)
next
  case (DeleteJob k)
  then show ?thesis using assms(1,3,4) has_step_delete by auto
next
  case (ReportStep env current k m status out err)
  then show ?thesis using assms(1-3) has_step_report by auto
next
  case (StartJob current k a packages scope targets strategy policy nodes)
  then show ?thesis using has_step_create(1) [OF assms(1)] assms(3) by simp
next
  case (RestartNodes current k a hosts strategy nodes)
  then show ?thesis using has_step_create(2) [OF assms(1)] assms(3) by simp
next
  case (InstallAll current k a strategy policy nodes)
  then show ?thesis using has_step_create(3) [OF assms(1)] assms(3) by simp
qed


end
