(* ===== verification/Os_Rollout_Results.thy ===== *)
theory Os_Rollout_Results
  imports Os_Rollout_Props
begin

text \<open>
  What the roll-out guarantees, and four histories that show where it does not do what it means to.
\<close>

section \<open>Guarantees\<close>

text \<open>
  C7: What a roll-out has recorded stays.  A step of a job that is completed, failed or skipped is the
  same, with its log, its error and its times, after any further requests, runs of drivers, resumptions,
  approvals, cancellations and reports that follow one another, as long as the job is not deleted.
\<close>

theorem settled_steps_final:
  assumes "run_events os_run es db = Some db'" and "get_job i db = Some j" and "n < length (oj_steps j)"
    and "st_status (oj_steps j ! n) \<in> {''completed'', ''failed'', ''skipped''}" and "DeleteJob i \<notin> set es"
  shows "\<exists>j'. get_job i db' = Some j' \<and> n < length (oj_steps j') \<and> oj_steps j' ! n = oj_steps j ! n"
proof -
  have s: "settled_status (st_status (oj_steps j ! n))" using assms(4) by (simp add: settled_status_def)
  have "has_step i n (oj_steps j ! n) db" using assms(2,3) by (simp add: has_step_def)
  then have "has_step i n (oj_steps j ! n) db'" using assms(1,5)
  proof (induction es arbitrary: db)
    case (Cons e es)
    obtain db1 where d: "os_run e db = Some db1" "run_events os_run es db1 = Some db'"
      using Cons.prems(2) by (auto simp: bind_eq_Some_conv)
    have "has_step i n (oj_steps j ! n) db1"
      using d(1) Cons.prems(1,3) has_step_event [OF Cons.prems(1) s] by (auto simp: os_run_def split: sum.splits)
    then show ?case using Cons.IH d(2) Cons.prems(3) by simp
  qed simp
  then show ?thesis by (simp add: has_step_def)
qed

text \<open>
  C8: A rolling or test-first roll-out stops at the first failure.  In a run of the driver every command
  that it sends to a node, but possibly the last, has succeeded: after an installation, a reboot or a
  health check that failed nothing is sent any more.
\<close>

theorem rollout_fails_fast:
  assumes "oj_strategy (ro_job w) \<in> {''rolling'', ''test_first''}"
  shows "\<exists>cs. ro_commands (drive env current w) = ro_commands w @ cs \<and> (\<forall>(k, a, ok) \<in> set (butlast cs). ok)"
proof -
  let ?v = "if oj_status (ro_job w) = ''running'' then w
    else set_job (\<lambda>j. j\<lparr>oj_status := ''running'', oj_started_at := Some (sc_now env)\<rparr>) w"
  have "stepwise ?v" "ro_commands ?v = ro_commands w" using assms by (simp_all add: stepwise_def)
  then show ?thesis using run_steps_fail_fast [of ?v False env current 0 0] by (simp add: drive_def all_fine_def)
qed

text \<open>
  A job that a run on some other node's behalf declares completed is: every step is completed or
  skipped.  (The reboot of the driver's own node declares it beforehand; see \<open>own_reboot_ends_job\<close>.)
\<close>

theorem completion_is_honest:
  assumes "oj_status (ro_job w) \<noteq> ''completed''" and "no_own_reboot current w"
    and "oj_status (ro_job (drive env current w)) = ''completed''"
  shows "\<forall>s \<in> set (oj_steps (ro_job (drive env current w))). st_status s \<in> {''completed'', ''skipped''}"
proof -
  let ?v = "if oj_status (ro_job w) = ''running'' then w
    else set_job (\<lambda>j. j\<lparr>oj_status := ''running'', oj_started_at := Some (sc_now env)\<rparr>) w"
  have "oj_status (ro_job ?v) \<noteq> ''completed''" using assms(1) by simp
  moreover have "no_own_reboot current ?v" using assms(2) by (simp add: no_own_reboot_def steps_set_job)
  ultimately show ?thesis
    using run_steps_completed [of ?v current env 0 0 False] assms(3) by (simp add: drive_def steps_of_def)
qed

lemma get_job_store:
  assumes "get_job i db = Some j" and "oj_id (ro_job w) = i"
  shows "get_job i (store_rollout w db) = Some (ro_job w)"
proof -
  have "find (\<lambda>j. oj_id j = i) (map (\<lambda>j. if oj_id j = i then ro_job w else j) xs) =
      map_option (\<lambda>_. ro_job w) (find (\<lambda>j. oj_id j = i) xs)" for xs
    using assms(2) by (induction xs) auto
  then show ?thesis using assms by (simp add: get_job_def store_rollout_def)
qed

text \<open>The report of a failure ends a rolling job: what waits is skipped and nothing is sent.\<close>

theorem collector_failure_stops_rolling:
  assumes "get_job i db = Some j" and "oj_strategy j = ''rolling''" and "oj_status j = ''running''"
    and "report_step_result env current i k ''failed'' out err db = Inr db'"
  shows "od_commands db' = od_commands db \<and>
     (\<exists>j'. get_job i db' = Some j' \<and> oj_status j' = ''failed'' \<and>
        (\<forall>s \<in> set (oj_steps j'). st_status s \<notin> {''pending'', ''awaiting_collector''}))"
proof -
  obtain p where p: "find (\<lambda>n. st_order (oj_steps j ! n) = k) [0..<length (oj_steps j)] = Some p"
    using assms(1,4) by (cases "find (\<lambda>n. st_order (oj_steps j ! n) = k) [0..<length (oj_steps j)]") (simp_all add: report_step_result_def)
  let ?w = "set_step p (\<lambda>s. s\<lparr>st_status := ''failed'', st_output_log := out, st_error := err,
     st_completed_at := Some (sc_now env)\<rparr>) (rollout_of j db)"
  have r: "ro_job (rollout_of j db) = j" "ro_commands (rollout_of j db) = od_commands db" by (simp_all add: rollout_of_def)
  have len: "p < length (steps_of (rollout_of j db))" using p by (auto simp: find_Some_iff steps_of_def r nth_append)
  then have "(steps_of (rollout_of j db))[p := (steps_of (rollout_of j db) ! p)\<lparr>st_status := ''failed'', st_output_log := out,
      st_error := err, st_completed_at := Some (sc_now env)\<rparr>] ! p \<in> set (steps_of ?w)"
    unfolding steps_set_step by (intro nth_mem) simp
  then have "\<exists>s \<in> set (steps_of ?w). st_status s = ''failed''" using len by force
  then have f: "failed_hosts (steps_of ?w) \<noteq> []" by (auto simp: failed_hosts_def filter_empty_conv)
  let ?a = "set_job (close_job (sc_now env) False) (map_steps skip_waiting ?w)"
  have "advance_collector_job env current ?w = ?a"
    using assms(2,3) f by (simp add: advance_collector_job_def Let_def stepwise_def r)
  moreover have "db' = store_rollout (advance_collector_job env current ?w) db"
    using assms(1,4) p by (auto simp: report_step_result_def Let_def split: if_splits)
  ultimately have db': "db' = store_rollout ?a db" by simp
  have id: "oj_id j = i" using assms(1) by (auto simp: get_job_def find_Some_iff)
  have "get_job i db' = Some (ro_job ?a)"
    unfolding db' by (rule get_job_store [OF assms(1)]) (simp add: r id)
  moreover have "\<forall>s \<in> set (oj_steps (ro_job ?a)). st_status s \<notin> {''pending'', ''awaiting_collector''}"
    by (auto simp: map_steps_def skip_waiting_def)
  ultimately show ?thesis unfolding db' by (simp add: store_rollout_def r close_job_def)
qed

text \<open>
  The steps of a new job are numbered from one and pending; collectors come before central nodes, and
  the node that creates the job comes last among these.
\<close>

lemma node_steps_order: "map st_order (node_steps strategy policy first k ns) = [Suc k..<Suc (k + length (node_steps strategy policy first k ns))]"
proof (induction strategy policy first k ns rule: node_steps.induct)
  case (2 strategy policy first k n ns)
  then show ?case by (auto simp: Let_def new_step_def upt_conv_Cons numeral_eq_Suc)
qed simp

definition place :: "string \<Rightarrow> string \<Rightarrow> string \<Rightarrow> bool \<times> bool \<times> string" where
  "place current role host = (role = ''central'', host = current, host)"

lemma node_steps_place:
  "sorted (map (\<lambda>n. place current (sv_node_role n) (sv_node_hostname n)) ns) \<Longrightarrow>
   sorted (map (\<lambda>s. place current (st_role s) (st_hostname s)) (node_steps strategy policy first k ns))"
proof (induction strategy policy first k ns rule: node_steps.induct)
  case (2 strategy policy first k n ns)
  have "\<exists>m \<in> set ns. st_role s = sv_node_role m \<and> st_hostname s = sv_node_hostname m"
    if "s \<in> set (node_steps strategy policy f k' ns)" for s f k'
    using that by (induction strategy policy f k' ns rule: node_steps.induct) (auto simp: Let_def new_step_def split: if_splits)
  then show ?case using 2 by (fastforce simp: Let_def new_step_def)
qed simp

theorem created_steps_ordered:
  "map st_order (oj_steps (create_os_install_job current i packages scope targets strategy policy by nodes)) =
     [1..<Suc (length (oj_steps (create_os_install_job current i packages scope targets strategy policy by nodes)))] \<and>
   sorted (map (\<lambda>s. place current (st_role s) (st_hostname s))
     (oj_steps (create_os_install_job current i packages scope targets strategy policy by nodes)))"
proof -
  have "sorted (map (\<lambda>n. place current (sv_node_role n) (sv_node_hostname n)) (order_nodes current (target_nodes scope targets nodes)))"
    unfolding order_nodes_def place_def by (rule sorted_sort_key)
  then show ?thesis using node_steps_order [of strategy policy True 0] node_steps_place by (simp add: create_os_install_job_def)
qed

section \<open>Histories\<close>

definition demo_node :: "string \<Rightarrow> string \<Rightarrow> system_version" where
  "demo_node h role = \<lparr>sv_node_hostname = h, sv_node_role = role, sv_node_ip = ''192.0.2.1'', sv_monctl_version = JNull,
     sv_os_version = JNull, sv_kernel_version = JNull, sv_python_version = JNull, sv_reboot_required = JBool False,
     sv_last_reported_at = 0\<rparr>"

text \<open>Sidecars that do all they are told, except for the steps on one host.\<close>

definition demo_sidecars :: "string \<Rightarrow> sidecars" where
  "demo_sidecars bad =
     \<lparr>sc_now = 0,
      sc_launch = (\<lambda>s. if st_hostname s = bad then LaunchFails ''down'' else Inline \<lparr>ir_output = Some ''ok'', ir_returncode = Some 0,
        ir_success = True, ir_installed = [], ir_skipped = [], ir_failed = [], ir_warnings = []\<rparr>),
      sc_polls = (\<lambda>s. []), sc_reboot_required = (\<lambda>s. None), sc_uptime = (\<lambda>s. None),
      sc_fixed0 = (\<lambda>u. ''1000''), sc_reboot = (\<lambda>s. None), sc_uptimes = (\<lambda>s. [None, Some (Fin 10)]),
      sc_healths = (\<lambda>s. [True, True, True]), sc_lost = (\<lambda>n. False)\<rparr>"

definition demo_db :: os_db where
  "demo_db = \<lparr>od_jobs = [], od_updates = [(''a'', ''vim'', False)], od_audit = [], od_commands = []\<rparr>"

definition demo_admin :: auth where
  "demo_admin = (key_auth (collector_key ''c1''))\<lparr>ad_username := Some ''root''\<rparr>"

definition demo_os :: "os_event list \<Rightarrow> os_db" where
  "demo_os es = the (run_events os_run es demo_db)"

definition job_view :: "os_db \<Rightarrow> (string \<times> string option \<times> (string \<times> string \<times> string) list) list" where
  "job_view db = map (\<lambda>j. (oj_status j, oj_error j, map (\<lambda>s. (st_hostname s, st_action s, st_status s)) (oj_steps j))) (od_jobs db)"

text \<open>
  Two central nodes, the job made on \<open>b\<close> and driven on \<open>a\<close>: the restart of \<open>a\<close> is put off until the others are
  done, but the search then starts behind it, and the job fails although nothing did.
\<close>

theorem own_restart_forgotten:
  "job_view (demo_os [StartJob ''b'' ''j'' demo_admin [''vim''] ''central'' [] ''rolling'' ''rolling''
       [demo_node ''a'' ''central'', demo_node ''b'' ''central''],
     Execute (demo_sidecars []) ''a'' ''a'' False None ''j'']) =
   [(''failed'', None, [(''a'', ''install'', ''completed''), (''a'', ''reboot'', ''pending''), (''a'', ''health_check'', ''pending''),
      (''b'', ''install'', ''completed''), (''b'', ''reboot'', ''completed''), (''b'', ''health_check'', ''completed'')])]"
  by code_simp

text \<open>
  A restart of all nodes at once: the reboot of the driver's own node declares the job completed while
  the collector has not fetched its task, and as the job runs no more, it never gets it.
\<close>

definition restarted :: os_db where
  "restarted = demo_os [RestartNodes ''a'' ''j'' demo_admin [''a'', ''k''] ''all_at_once''
     [demo_node ''a'' ''central'', demo_node ''k'' ''collector''], Execute (demo_sidecars []) ''a'' ''a'' False None ''j'']"

theorem own_reboot_ends_job:
  "job_view restarted =
     [(''completed'', None, [(''k'', ''reboot'', ''awaiting_collector''), (''k'', ''health_check'', ''awaiting_collector''),
        (''a'', ''reboot'', ''completed''), (''a'', ''health_check'', ''completed'')])] \<and>
   get_my_tasks [''k''] restarted = None"
  by code_simp

text \<open>
  A rolling job waits for its first collector; the next turn of the scheduler finds a running job that
  no task of its instance drives, resumes it, and starts on the second collector.
\<close>

definition rolling_collectors :: "os_event list" where
  "rolling_collectors = [StartJob ''a'' ''j'' demo_admin [''vim''] ''collectors'' [] ''rolling'' ''none''
     [demo_node ''k1'' ''collector'', demo_node ''k2'' ''collector''], Execute (demo_sidecars []) ''a'' ''a'' False None ''j'']"

theorem orphan_search_breaks_rolling:
  "job_view (demo_os rolling_collectors) =
     [(''running'', None, [(''k1'', ''install'', ''awaiting_collector''), (''k2'', ''install'', ''pending'')])] \<and>
   job_view (demo_os (rolling_collectors @ [ResumeOrphan (demo_sidecars []) ''a'' [] ''j''])) =
     [(''running'', None, [(''k1'', ''install'', ''awaiting_collector''), (''k2'', ''install'', ''awaiting_collector'')])]"
  by code_simp

text \<open>
  Test first: after each report of the test node the job waits for an approval, with steps of the test
  node left, and it does so even when the step reported has failed.
\<close>

definition test_node_fails :: "os_event list" where
  "test_node_fails = [StartJob ''a'' ''j'' demo_admin [''vim''] ''collectors'' [] ''test_first'' ''rolling''
     [demo_node ''k1'' ''collector'', demo_node ''k2'' ''collector''], Execute (demo_sidecars []) ''a'' ''a'' False None ''j'',
     ReportStep (demo_sidecars []) ''a'' ''j'' 1 ''completed'' None None, ApproveJob (demo_sidecars []) ''a'' ''j'',
     ReportStep (demo_sidecars []) ''a'' ''j'' 2 ''failed'' None (Some ''no reboot'')]"

theorem test_failure_awaits_approval:
  "job_view (demo_os test_node_fails) =
     [(''awaiting_approval'', None,
       [(''k1'', ''install'', ''completed''), (''k1'', ''reboot'', ''failed''), (''k1'', ''health_check'', ''pending''),
        (''k2'', ''install'', ''pending''), (''k2'', ''reboot'', ''pending''), (''k2'', ''health_check'', ''pending'')])]"
  by code_simp

section \<open>The guarantees on these jobs\<close>

lemma demo_os_run: "run_events os_run es' (demo_os es) = Some (demo_os (es @ es'))"
proof -
  have "\<exists>db'. run_events os_run es db = Some db'" for es db
    by (induction es arbitrary: db) (auto simp: os_run_def)
  then obtain d d' where "run_events os_run es demo_db = Some d" "run_events os_run es' d = Some d'" by metis
  then show ?thesis by (simp add: demo_os_def run_events_append)
qed

theorem settled_steps_final_witness:
  "\<exists>j j'. get_job ''j'' (demo_os (take 3 test_node_fails)) = Some j \<and> get_job ''j'' (demo_os test_node_fails) = Some j' \<and>
     oj_steps j' ! 0 = oj_steps j ! 0"
proof -
  let ?db = "demo_os (take 3 test_node_fails)" let ?j = "hd (od_jobs ?db)"
  have j: "get_job ''j'' ?db = Some ?j"
  proof -
    have "length (od_jobs ?db) = 1" "oj_id ?j = ''j''" by code_simp+
    then show ?thesis by (cases "od_jobs ?db") (simp_all add: get_job_def)
  qed
  have n: "0 < length (oj_steps ?j)" "st_status (oj_steps ?j ! 0) \<in> {''completed'', ''failed'', ''skipped''}" by code_simp+
  have "take 3 test_node_fails @ drop 3 test_node_fails = test_node_fails" by simp
  then have run: "run_events os_run (drop 3 test_node_fails) ?db = Some (demo_os test_node_fails)"
    using demo_os_run [of "drop 3 test_node_fails" "take 3 test_node_fails"] by simp
  have d: "DeleteJob ''j'' \<notin> set (drop 3 test_node_fails)" by (simp add: test_node_fails_def)
  from settled_steps_final [OF run j n d] j show ?thesis by blast
qed

definition demo_rollout :: rollout where
  "demo_rollout = rollout_of (create_os_install_job ''z'' ''j'' [''vim''] ''central'' [] ''rolling'' ''none'' None
     [demo_node ''a'' ''central'', demo_node ''b'' ''central'', demo_node ''c'' ''central'']) demo_db"

theorem rollout_fails_fast_witness:
  "(\<exists>cs. ro_commands (drive (demo_sidecars ''b'') ''z'' demo_rollout) = ro_commands demo_rollout @ cs \<and>
      (\<forall>(k, a, ok) \<in> set (butlast cs). ok)) \<and>
   ro_commands (drive (demo_sidecars ''b'') ''z'' demo_rollout) = [(1, ''install'', True), (2, ''install'', False)]"
proof
  show "\<exists>cs. ro_commands (drive (demo_sidecars ''b'') ''z'' demo_rollout) = ro_commands demo_rollout @ cs \<and>
      (\<forall>(k, a, ok) \<in> set (butlast cs). ok)"
    by (rule rollout_fails_fast) (simp add: demo_rollout_def rollout_of_def create_os_install_job_def)
qed code_simp

theorem completion_is_honest_witness:
  "\<forall>s \<in> set (oj_steps (ro_job (drive (demo_sidecars []) ''z'' demo_rollout))). st_status s \<in> {''completed'', ''skipped''}"
proof -
  have "oj_status (ro_job demo_rollout) \<noteq> ''completed''" "no_own_reboot ''z'' demo_rollout"
      "oj_status (ro_job (drive (demo_sidecars []) ''z'' demo_rollout)) = ''completed''"
    unfolding no_own_reboot_def by code_simp+
  then show ?thesis by (rule completion_is_honest)
qed


end
