(* ===== verification/Heapq.thy ===== *)
theory Heapq
  imports "HOL-Library.Multiset"
begin

text \<open>
  The binary heap of Python's \<open>heapq\<close>, which the poll engine keeps its deadlines in, with the
  comparison of the elements given by a key.  A heap is a list; \<open>siftdown\<close> and \<open>siftup\<close> move the hole
  that \<open>x\<close> is to be written into, as the library does.
\<close>

section \<open>Operations\<close>

definition par :: "nat \<Rightarrow> nat" where
  "par i = (i - 1) div 2"

lemma par_less: "0 < i \<Longrightarrow> par i < i"
  by (simp add: par_def)

lemma par_child: "0 < c \<and> par c = p \<longleftrightarrow> c = 2 * p + 1 \<or> c = 2 * p + 2"
  by (auto simp: par_def)

function siftdown :: "('a \<Rightarrow> 'k::linorder) \<Rightarrow> nat \<Rightarrow> nat \<Rightarrow> 'a \<Rightarrow> 'a list \<Rightarrow> 'a list" where
  "siftdown key startpos pos x h =
     (if startpos < pos \<and> key x < key (h ! par pos)
      then siftdown key startpos (par pos) x (h[pos := h ! par pos]) else h[pos := x])"
  by auto
termination by (relation "measure (\<lambda>(key, startpos, pos, x, h). pos)") (auto intro: par_less)

declare siftdown.simps [simp del]

definition small_child :: "('a \<Rightarrow> 'k::linorder) \<Rightarrow> nat \<Rightarrow> 'a list \<Rightarrow> nat" where
  "small_child key pos h =
     (let c = 2 * pos + 1
      in if c + 1 < length h \<and> \<not> key (h ! c) < key (h ! (c + 1)) then c + 1 else c)"

function sift_hole :: "('a \<Rightarrow> 'k::linorder) \<Rightarrow> nat \<Rightarrow> 'a list \<Rightarrow> nat \<times> 'a list" where
  "sift_hole key pos h =
     (if 2 * pos + 1 < length h
      then sift_hole key (small_child key pos h) (h[pos := h ! small_child key pos h]) else (pos, h))"
  by auto
termination by (relation "measure (\<lambda>(key, pos, h). length h - pos)") (auto simp: small_child_def Let_def)

declare sift_hole.simps [simp del]

definition siftup :: "('a \<Rightarrow> 'k::linorder) \<Rightarrow> nat \<Rightarrow> 'a list \<Rightarrow> 'a list" where
  "siftup key pos h = (let x = h ! pos; (p, h') = sift_hole key pos h in siftdown key pos p x h')"

definition heappush :: "('a \<Rightarrow> 'k::linorder) \<Rightarrow> 'a \<Rightarrow> 'a list \<Rightarrow> 'a list" where
  "heappush key x h = siftdown key 0 (length h) x (h @ [x])"

definition heappop :: "('a \<Rightarrow> 'k::linorder) \<Rightarrow> 'a list \<Rightarrow> ('a \<times> 'a list) option" where
  "heappop key h =
     (if h = [] then None
      else let x = last h; rest = butlast h
           in if rest = [] then Some (x, []) else Some (rest ! 0, siftup key 0 (rest[0 := x])))"

definition heapify :: "('a \<Rightarrow> 'k::linorder) \<Rightarrow> 'a list \<Rightarrow> 'a list" where
  "heapify key h = fold (siftup key) (rev [0..<length h div 2]) h"

section \<open>The elements\<close>

lemma mset_swap_hole:
  assumes "i < length h" and "p < length h"
  shows "mset (h[p := h ! i, i := x]) = mset (h[p := x])"
proof (cases "i = p")
  case False
  have "mset ((h[p := x])[p := (h[p := x]) ! i, i := (h[p := x]) ! p]) = mset (h[p := x])"
    using mset_swap [of i "h[p := x]" p] assms by simp
  then show ?thesis using False assms by simp
qed simp

lemma siftdown_mset: "pos < length h \<Longrightarrow> mset (siftdown key s pos x h) = mset (h[pos := x])"
proof (induction key s pos x h rule: siftdown.induct)
  case (1 key s pos x h)
  show ?case
  proof (cases "s < pos \<and> key x < key (h ! par pos)")
    case True
    then have "par pos < length h" using 1(2) par_less [of pos] by simp
    then show ?thesis using 1 True mset_swap_hole [of "par pos" h pos x] by (simp add: siftdown.simps [of key s pos])
  qed (auto simp: siftdown.simps [of key s pos])
qed

lemma small_child_bounds:
  "2 * pos + 1 < length h \<Longrightarrow> pos < small_child key pos h \<and> small_child key pos h < length h \<and> par (small_child key pos h) = pos"
  by (auto simp: small_child_def Let_def par_def)

lemma sift_hole_mset:
  "pos < length h \<Longrightarrow> case sift_hole key pos h of (p, h') \<Rightarrow>
     p < length h' \<and> length h' = length h \<and> mset (h'[p := x]) = mset (h[pos := x])"
proof (induction key pos h rule: sift_hole.induct)
  case (1 key pos h)
  show ?case
  proof (cases "2 * pos + 1 < length h")
    case True
    note b = small_child_bounds [OF True, of key]
    show ?thesis
      using 1 True b mset_swap_hole [of "small_child key pos h" h pos x]
      by (simp add: sift_hole.simps [of key pos] split: prod.splits)
  qed (use 1 in \<open>simp add: sift_hole.simps [of key pos]\<close>)
qed

lemma siftup_mset: "pos < length h \<Longrightarrow> mset (siftup key pos h) = mset h"
  using sift_hole_mset [of pos h "h ! pos" key] by (auto simp: siftup_def siftdown_mset split: prod.splits)

lemma length_eq_mset: "mset a = mset b \<Longrightarrow> length a = length b"
  by (metis size_mset)

lemma heappush_mset [simp]: "mset (heappush key x h) = add_mset x (mset h)"
  using siftdown_mset [of "length h" "h @ [x]" key 0 x] by (simp add: heappush_def)

lemma heappop_mset: "heappop key h = Some (x, h') \<Longrightarrow> mset h = add_mset x (mset h')"
proof -
  assume a: "heappop key h = Some (x, h')"
  then have h: "h = butlast h @ [last h]" by (auto simp: heappop_def split: if_splits)
  then have m: "mset h = add_mset (last h) (mset (butlast h))" by (metis mset_append mset.simps add_mset_add_single)
  show ?thesis
  proof (cases "butlast h")
    case Nil
    then show ?thesis using a m by (auto simp: heappop_def split: if_splits)
  next
    case (Cons y ys)
    then have "x = y" "h' = siftup key 0 (last h # ys)" using a by (auto simp: heappop_def split: if_splits)
    then show ?thesis using m Cons siftup_mset [of 0 "last h # ys" key] by simp
  qed
qed

lemma heapify_mset [simp]: "mset (heapify key h) = mset h"
proof -
  have "mset (fold (siftup key) is h') = mset h'" if "\<forall>i \<in> set is. i < length h'" for "is" h'
    using that
  proof (induction "is" arbitrary: h')
    case (Cons i "is")
    then have "mset (siftup key i h') = mset h'" by (simp add: siftup_mset)
    then show ?case using Cons length_eq_mset [of "siftup key i h'" h'] by simp
  qed simp
  moreover have "\<forall>i \<in> set (rev [0..<length h div 2]). i < length h" by auto
  ultimately show ?thesis unfolding heapify_def by blast
qed

section \<open>The order\<close>

definition heap_from :: "('a \<Rightarrow> 'k::linorder) \<Rightarrow> nat \<Rightarrow> 'a list \<Rightarrow> bool" where
  "heap_from key s h \<longleftrightarrow> (\<forall>i < length h. 0 < i \<and> s \<le> par i \<longrightarrow> key (h ! par i) \<le> key (h ! i))"

abbreviation is_heap :: "('a \<Rightarrow> 'k::linorder) \<Rightarrow> 'a list \<Rightarrow> bool" where
  "is_heap key h \<equiv> heap_from key 0 h"

text \<open>Positions below \<open>s\<close> in the tree, and a heap but for the hole at \<open>p\<close>.\<close>

inductive desc :: "nat \<Rightarrow> nat \<Rightarrow> bool" for s where
  self: "desc s s"
| child: "desc s p \<Longrightarrow> 0 < c \<Longrightarrow> par c = p \<Longrightarrow> desc s c"

lemma desc_le: "desc s p \<Longrightarrow> s \<le> p"
  by (induction rule: desc.induct) (auto dest: par_less)

lemma desc_par: "desc s p \<Longrightarrow> s < p \<Longrightarrow> desc s (par p)"
  by (erule desc.cases) auto

definition hole_ok :: "('a \<Rightarrow> 'k::linorder) \<Rightarrow> nat \<Rightarrow> nat \<Rightarrow> 'a list \<Rightarrow> bool" where
  "hole_ok key s p h \<longleftrightarrow>
     (\<forall>i < length h. 0 < i \<and> i \<noteq> p \<and> par i \<noteq> p \<and> s \<le> par i \<longrightarrow> key (h ! par i) \<le> key (h ! i)) \<and>
     (\<forall>c < length h. 0 < c \<and> par c = p \<and> 0 < p \<and> s \<le> par p \<longrightarrow> key (h ! par p) \<le> key (h ! c))"

lemma siftdown_heap:
  "pos < length h \<Longrightarrow> desc s pos \<Longrightarrow> hole_ok key s pos h \<Longrightarrow>
   (\<And>c. c < length h \<Longrightarrow> 0 < c \<Longrightarrow> par c = pos \<Longrightarrow> key x \<le> key (h ! c)) \<Longrightarrow>
   heap_from key s (siftdown key s pos x h)"
proof (induction key s pos x h rule: siftdown.induct)
  case (1 key s pos x h)
  show ?case
  proof (cases "s < pos \<and> key x < key (h ! par pos)")
    case True
    let ?q = "par pos" and ?h = "h[pos := h ! par pos]"
    have q: "?q < pos" "s \<le> ?q" "desc s ?q" using True 1(3) desc_par desc_le par_less [of pos] by auto
    have e: "key (h ! par i) \<le> key (h ! i)" if "i < length h" "0 < i" "i \<noteq> pos" "par i \<noteq> pos" "s \<le> par i" for i
      using 1(4) that by (auto simp: hole_ok_def)
    have g: "key (h ! ?q) \<le> key (h ! c)" if "c < length h" "0 < c" "par c = pos" for c
      using 1(4) that q by (auto simp: hole_ok_def)
    have "hole_ok key s ?q ?h" unfolding hole_ok_def
    proof (intro conjI allI impI)
      fix i assume "i < length ?h" and i: "0 < i \<and> i \<noteq> ?q \<and> par i \<noteq> ?q \<and> s \<le> par i"
      then show "key (?h ! par i) \<le> key (?h ! i)"
        using e [of i] g [of i] 1(2) by (cases "i = pos") (auto simp: nth_list_update)
    next
      fix c assume "c < length ?h" and c: "0 < c \<and> par c = ?q \<and> 0 < ?q \<and> s \<le> par ?q"
      moreover have "par ?q < ?q" using c par_less by simp
      ultimately show "key (?h ! par ?q) \<le> key (?h ! c)"
        using e [of ?q] e [of c] q 1(2) by (cases "c = pos") (auto simp: nth_list_update intro: order_trans)
    qed
    moreover have "key x \<le> key (?h ! c)" if "c < length ?h" "0 < c" "par c = ?q" for c
      using that e [of c] True q 1(2) by (cases "c = pos") (auto simp: nth_list_update)
    moreover have "?q < length ?h" using q 1(2) by simp
    ultimately show ?thesis using 1(1) [OF True] q(3) True by (simp add: siftdown.simps [of key s pos])
  next
    case False
    have "heap_from key s (h[pos := x])" unfolding heap_from_def
    proof (intro allI impI)
      fix i assume i: "i < length (h[pos := x])" "0 < i \<and> s \<le> par i"
      consider "i = pos" | "par i = pos" "i \<noteq> pos" | "i \<noteq> pos" "par i \<noteq> pos" by blast
      then show "key (h[pos := x] ! par i) \<le> key (h[pos := x] ! i)"
      proof cases
        case 1
        then have "s < pos" using i par_less [of pos] by simp
        then show ?thesis using 1 False i par_less [of pos] by (simp add: nth_list_update)
      next
        case 2
        then show ?thesis using "1.prems" i by simp
      next
        case 3
        then show ?thesis using "1.prems"(3) i by (simp add: hole_ok_def)
      qed
    qed
    then show ?thesis using False by (subst siftdown.simps) (simp only: if_False)
  qed
qed

lemma sift_hole_heap:
  "pos < length h \<Longrightarrow> desc s pos \<Longrightarrow> hole_ok key s pos h \<Longrightarrow>
   case sift_hole key pos h of (p, h') \<Rightarrow> hole_ok key s p h' \<and> desc s p \<and> p < length h' \<and> length h' \<le> 2 * p + 1"
proof (induction key pos h rule: sift_hole.induct)
  case (1 key pos h)
  show ?case
  proof (cases "2 * pos + 1 < length h")
    case True
    let ?c = "small_child key pos h" and ?h = "h[pos := h ! small_child key pos h]"
    note b = small_child_bounds [OF True, of key]
    have e: "key (h ! par i) \<le> key (h ! i)" if "i < length h" "0 < i" "i \<noteq> pos" "par i \<noteq> pos" "s \<le> par i" for i
      using 1(4) that by (auto simp: hole_ok_def)
    have g: "key (h ! par pos) \<le> key (h ! ?c)" if "0 < pos" "s \<le> par pos"
      using 1(4) that b by (auto simp: hole_ok_def)
    have m: "key (h ! ?c) \<le> key (h ! d)" if "d < length h" "0 < d" "par d = pos" for d
      using that par_child [of d pos] by (auto simp: small_child_def Let_def)
    have "hole_ok key s ?c ?h" unfolding hole_ok_def
    proof (intro conjI allI impI)
      fix i assume "i < length ?h" and i: "0 < i \<and> i \<noteq> ?c \<and> par i \<noteq> ?c \<and> s \<le> par i"
      then show "key (?h ! par i) \<le> key (?h ! i)"
        using e [of i] g m [of i] 1(2) par_less [of i] by (cases "i = pos"; cases "par i = pos") (auto simp: nth_list_update)
    next
      fix d assume "d < length ?h" and d: "0 < d \<and> par d = ?c \<and> 0 < ?c \<and> s \<le> par ?c"
      moreover have "?c < d" using d par_less [of d] by simp
      ultimately show "key (?h ! par ?c) \<le> key (?h ! d)"
        using e [of d] b 1(2,3) desc_le [of s pos] by (auto simp: nth_list_update)
    qed
    moreover have "desc s ?c" using 1(3) b by (auto intro: desc.child)
    ultimately show ?thesis using 1(1) [OF True] b True by (simp add: sift_hole.simps [of key pos])
  qed (use 1 in \<open>simp add: sift_hole.simps [of key pos]\<close>)
qed

lemma siftup_heap:
  assumes "pos < length h" and "heap_from key (Suc pos) h"
  shows "heap_from key pos (siftup key pos h)"
proof -
  obtain p h' where p: "sift_hole key pos h = (p, h')" by (cases "sift_hole key pos h")
  have "hole_ok key pos pos h"
    unfolding hole_ok_def using assms(2) par_less [of pos] by (auto simp: heap_from_def)
  then have "hole_ok key pos p h' \<and> desc pos p \<and> p < length h' \<and> length h' \<le> 2 * p + 1"
    using sift_hole_heap [OF assms(1) desc.self] p by fastforce
  moreover have "\<not> c < length h'" if "0 < c" "par c = p" "length h' \<le> 2 * p + 1" for c
    using that par_child [of c p] by auto
  ultimately show ?thesis using siftdown_heap [of p h' pos key "h ! pos"] p by (auto simp: siftup_def)
qed

lemma heappush_heap:
  assumes "is_heap key h"
  shows "is_heap key (heappush key x h)"
proof -
  have d: "desc 0 p" for p
    by (induction p rule: less_induct) (metis desc.simps gr0I par_less)
  have leaf: "c < length (h @ [x]) \<Longrightarrow> 0 < c \<Longrightarrow> par c \<noteq> length h" for c
    using par_less [of c] by fastforce
  have "hole_ok key 0 (length h) (h @ [x])"
    unfolding hole_ok_def
  proof (intro conjI allI impI)
    fix i assume i: "i < length (h @ [x])" "0 < i \<and> i \<noteq> length h \<and> par i \<noteq> length h \<and> 0 \<le> par i"
    then have "i < length h" "par i < length h" using par_less [of i] by simp_all
    then show "key ((h @ [x]) ! par i) \<le> key ((h @ [x]) ! i)" using assms i by (simp add: heap_from_def nth_append)
  qed (use leaf in auto)
  then show ?thesis unfolding heappush_def using leaf d by (intro siftdown_heap) auto
qed

lemma heap_butlast: "is_heap key h \<Longrightarrow> is_heap key (butlast h)"
  unfolding heap_from_def
proof (intro allI impI)
  fix i assume h: "\<forall>i<length h. 0 < i \<and> 0 \<le> par i \<longrightarrow> key (h ! par i) \<le> key (h ! i)"
    and i: "i < length (butlast h)" "0 < i \<and> 0 \<le> par i"
  then have "par i < length (butlast h)" using par_less [of i] by simp
  then show "key (butlast h ! par i) \<le> key (butlast h ! i)" using h i by (simp add: nth_butlast)
qed

lemma heappop_heap:
  assumes "is_heap key h" and "heappop key h = Some (x, h')"
  shows "is_heap key h'"
proof (cases "butlast h = []")
  case False
  have "heap_from key (Suc 0) ((butlast h)[0 := last h])"
    using heap_butlast [OF assms(1)] by (auto simp: heap_from_def nth_list_update)
  moreover have "h' = siftup key 0 ((butlast h)[0 := last h])" using assms(2) False by (auto simp: heappop_def Let_def split: if_splits)
  moreover have "0 < length ((butlast h)[0 := last h])" using False by (metis length_greater_0_conv length_list_update)
  ultimately show ?thesis using siftup_heap [of 0 "(butlast h)[0 := last h]" key] by blast
qed (use assms(2) in \<open>auto simp: heappop_def heap_from_def split: if_splits\<close>)

lemma heap_min:
  assumes "is_heap key h" and "i < length h"
  shows "key (h ! 0) \<le> key (h ! i)"
  using assms(2)
proof (induction i rule: less_induct)
  case (less i)
  show ?case
  proof (cases "i = 0")
    case False
    then have "key (h ! 0) \<le> key (h ! par i)" using less par_less [of i] by simp
    also have "\<dots> \<le> key (h ! i)" using assms(1) less(2) False by (simp add: heap_from_def)
    finally show ?thesis .
  qed simp
qed

lemma heappop_min: "is_heap key h \<Longrightarrow> heappop key h = Some (x, h') \<Longrightarrow> x = h ! 0 \<and> (\<forall>y \<in> set h. key x \<le> key y)"
proof
  assume h: "is_heap key h" and pop: "heappop key h = Some (x, h')"
  then have "h \<noteq> []" by (auto simp: heappop_def)
  then show x: "x = h ! 0"
    using pop by (cases h rule: rev_cases) (auto simp: heappop_def nth_append split: if_splits)
  show "\<forall>y \<in> set h. key x \<le> key y" using heap_min [OF h] x by (auto simp: in_set_conv_nth)
qed

lemma heappop_None [simp]: "heappop key h = None \<longleftrightarrow> h = []"
  by (simp add: heappop_def Let_def)

lemma heapify_heap [simp]: "is_heap key (heapify key h)"
proof -
  have "heap_from key 0 (fold (siftup key) (rev [0..<n]) h')" if "n \<le> length h'" "heap_from key n h'" for n h'
    using that
  proof (induction n arbitrary: h')
    case (Suc n)
    have "length (siftup key n h') = length h'" by (rule length_eq_mset, rule siftup_mset) (use Suc.prems(1) in simp)
    moreover have "heap_from key n (siftup key n h')" by (rule siftup_heap) (use Suc.prems in simp_all)
    ultimately have "heap_from key 0 (fold (siftup key) (rev [0..<n]) (siftup key n h'))" by (intro Suc.IH) (use Suc.prems(1) in simp_all)
    then show ?case by simp
  qed simp
  moreover have "heap_from key (length h div 2) h" unfolding heap_from_def par_def by (auto; linarith)
  ultimately show ?thesis unfolding heapify_def by (metis div_le_dividend)
qed

end
