(* ===== verification/Poll_Engine.thy ===== *)
theory Poll_Engine
  imports Event_System Heapq Scheduler
begin

text \<open>
  The poll engine of a collector worker (\<open>polling/engine.py\<close>) with the job list it gets from the cache
  node (\<open>peer/server.py\<close>, \<open>peer/client.py\<close>): the deadline heap, refreshing and dispatching, the
  execution of a job with its error classification, and the concurrent tasks as an event system
  whose events are what runs between two \<open>await\<close>s.  Deadlines are exact rationals; \<open>hash\<close>, the app
  manager, the credentials, the connectors and the apps are parameters.
\<close>

section \<open>The job list over gRPC\<close>

record wire_binding =
  wb_connector_type :: string
  wb_connector_id :: string
  wb_connector_version_id :: string
  wb_credential_name :: string
  wb_settings_json :: json

record wire_job =
  wj_job_id :: string
  wj_device_id :: string
  wj_device_host :: string
  wj_app_id :: string
  wj_app_version :: string
  wj_app_checksum :: string
  wj_credential_names :: "string list"
  wj_interval :: int
  wj_parameters_json :: json
  wj_max_execution_time :: int
  wj_avg_execution_time :: pyfloat
  wj_is_heavy :: bool
  wj_role :: string
  wj_connector_bindings :: "wire_binding list"

definition or_empty :: "string option \<Rightarrow> string" where
  "or_empty s = (case s of None \<Rightarrow> [] | Some t \<Rightarrow> t)"

definition or_none :: "string \<Rightarrow> string option" where
  "or_none s = (if s = [] then None else Some s)"

definition settings_or_empty :: "json \<Rightarrow> json" where
  "settings_or_empty s = (if s = JNull then JObj [] else s)"

text \<open>An \<open>int32\<close> field refuses a value out of its range, which fails the call; \<open>f32\<close> rounds to a \<open>float\<close> field.\<close>

definition int32 :: "int \<Rightarrow> bool" where
  "int32 i \<longleftrightarrow> - (2 ^ 31) \<le> i \<and> i < 2 ^ 31"

definition encode_binding :: "connector_binding \<Rightarrow> wire_binding" where
  "encode_binding b = \<lparr>wb_connector_type = cb_connector_type b, wb_connector_id = cb_connector_id b,
     wb_connector_version_id = cb_connector_version_id b, wb_credential_name = or_empty (cb_credential_name b),
     wb_settings_json = settings_or_empty (cb_settings b)\<rparr>"

definition encode_job :: "(pyfloat \<Rightarrow> pyfloat) \<Rightarrow> job_definition \<times> job_profile \<Rightarrow> wire_job option" where
  "encode_job f32 jp =
     (case jp of (j, p) \<Rightarrow>
        if int32 (jd_interval j) \<and> int32 (jd_max_execution_time j)
        then Some \<lparr>wj_job_id = jd_job_id j, wj_device_id = or_empty (jd_device_id j),
               wj_device_host = or_empty (jd_device_host j), wj_app_id = jd_app_id j, wj_app_version = jd_app_version j,
               wj_app_checksum = jd_app_checksum j, wj_credential_names = jd_credential_names j,
               wj_interval = jd_interval j, wj_parameters_json = jd_parameters j,
               wj_max_execution_time = jd_max_execution_time j,
               wj_avg_execution_time = f32 (jp_avg_execution_time p), wj_is_heavy = jp_is_heavy p,
               wj_role = or_empty (jd_role j), wj_connector_bindings = map encode_binding (jd_connector_bindings j)\<rparr>
        else None)"

fun encode_jobs :: "(pyfloat \<Rightarrow> pyfloat) \<Rightarrow> (job_definition \<times> job_profile) list \<Rightarrow> wire_job list option" where
  "encode_jobs f32 [] = Some []"
| "encode_jobs f32 (x # xs) =
     (case encode_job f32 x of None \<Rightarrow> None | Some w \<Rightarrow> map_option ((#) w) (encode_jobs f32 xs))"

definition decode_binding :: "wire_binding \<Rightarrow> connector_binding" where
  "decode_binding b = \<lparr>cb_connector_type = wb_connector_type b, cb_connector_id = wb_connector_id b,
     cb_connector_version_id = wb_connector_version_id b, cb_credential_name = or_none (wb_credential_name b),
     cb_settings = wb_settings_json b, cb_connector_checksum = []\<rparr>"

definition decode_job :: "wire_job \<Rightarrow> job_definition \<times> job_profile" where
  "decode_job j =
     (\<lparr>jd_job_id = wj_job_id j, jd_device_id = or_none (wj_device_id j), jd_device_host = or_none (wj_device_host j),
       jd_app_id = wj_app_id j, jd_app_version = wj_app_version j, jd_credential_names = wj_credential_names j,
       jd_interval = wj_interval j, jd_parameters = wj_parameters_json j, jd_role = or_none (wj_role j),
       jd_max_execution_time = wj_max_execution_time j, jd_enabled = True, jd_updated_at = [],
       jd_app_checksum = wj_app_checksum j, jd_connector_bindings = map decode_binding (wj_connector_bindings j)\<rparr>,
      (new_profile (wj_job_id j))\<lparr>jp_avg_execution_time := wj_avg_execution_time j, jp_is_heavy := wj_is_heavy j\<rparr>)"

text \<open>The handler of the cache node; \<open>None\<close> is a failed call.\<close>

definition GetMyJobs ::
    "(pyfloat \<Rightarrow> pyfloat) \<Rightarrow> pyfloat \<Rightarrow> string \<Rightarrow> (string \<times> string) list \<Rightarrow> scheduler \<Rightarrow>
     (wire_job list \<times> string set) option \<times> scheduler" where
  "GetMyJobs f32 now worker_id loaded_apps s =
     (let (jobs, s1) = get_jobs_for_worker now worker_id loaded_apps s
      in case encode_jobs f32 jobs of
           None \<Rightarrow> (None, s1)
         | Some ws \<Rightarrow>
             (let (immediate, s2) = (if jobs = [] then ({}, s1)
                                     else pop_immediate_triggers (set (map (\<lambda>p. jd_job_id (fst p)) jobs)) s1)
              in (Some (ws, immediate), s2)))"

text \<open>The client answers a failed call with no jobs.\<close>

definition get_my_jobs :: "(wire_job list \<times> string set) option \<Rightarrow> wire_job list \<times> string set" where
  "get_my_jobs resp = (case resp of None \<Rightarrow> ([], {}) | Some r \<Rightarrow> r)"

section \<open>The deadline heap\<close>

record scheduled_job =
  sj_next_deadline :: rat
  sj_job_id :: string
  sj_job :: job_definition
  sj_profile :: job_profile

definition scheduled :: "rat \<Rightarrow> job_definition \<Rightarrow> job_profile \<Rightarrow> scheduled_job" where
  "scheduled deadline job profile =
     \<lparr>sj_next_deadline = deadline, sj_job_id = jd_job_id job, sj_job = job, sj_profile = profile\<rparr>"

abbreviation push :: "scheduled_job \<Rightarrow> scheduled_job list \<Rightarrow> scheduled_job list" where
  "push \<equiv> heappush sj_next_deadline"

definition jitter :: "(string \<Rightarrow> int) \<Rightarrow> job_definition \<Rightarrow> rat" where
  "jitter hash job = of_int (hash (jd_job_id job) mod max 1 (jd_interval job))"

definition refresh_deadline ::
    "(string \<Rightarrow> int) \<Rightarrow> rat \<Rightarrow> (string \<rightharpoonup> rat \<times> int) \<Rightarrow> job_definition \<Rightarrow> rat" where
  "refresh_deadline hash now existing job =
     (case existing (jd_job_id job) of
        None \<Rightarrow> now + jitter hash job
      | Some (deadline, interval) \<Rightarrow> if interval \<noteq> jd_interval job then now + jitter hash job else deadline)"

text \<open>A dict built from the heap: the last entry of a job counts.\<close>

definition existing_of :: "scheduled_job list \<Rightarrow> string \<rightharpoonup> rat \<times> int" where
  "existing_of h = map_of (rev (map (\<lambda>sj. (sj_job_id sj, sj_next_deadline sj, jd_interval (sj_job sj))) h))"

definition rebuild ::
    "(string \<Rightarrow> int) \<Rightarrow> rat \<Rightarrow> string set \<Rightarrow> (string \<rightharpoonup> rat \<times> int) \<Rightarrow> (job_definition \<times> job_profile) list \<Rightarrow> scheduled_job list" where
  "rebuild hash now running existing pairs =
     fold (\<lambda>(job, profile) h. if jd_job_id job \<in> running then h
        else push (scheduled (refresh_deadline hash now existing job) job profile) h) pairs []"

definition make_due :: "scheduled_job \<Rightarrow> scheduled_job" where
  "make_due sj = sj\<lparr>sj_next_deadline := 0\<rparr>"

definition apply_immediate :: "string set \<Rightarrow> scheduled_job list \<Rightarrow> scheduled_job list" where
  "apply_immediate ids h =
     (if ids = {} then h
      else heapify sj_next_deadline (map (\<lambda>sj. if sj_job_id sj \<in> ids then make_due sj else sj) h))"

fun find_index :: "'a \<Rightarrow> 'a list \<Rightarrow> nat option" where
  "find_index x [] = None"
| "find_index x (y # ys) = (if x = y then Some 0 else map_option Suc (find_index x ys))"

text \<open>Launching all due jobs.  A running job is put back, at least a second away; a running one-shot is dropped.\<close>

definition retry_deadline :: "rat \<Rightarrow> scheduled_job \<Rightarrow> rat" where
  "retry_deadline now sj = now + max (of_int (jd_interval (sj_job sj)) / 10) 1"

lemma heappop_due_size:
  assumes "heappop key h = Some (x, h')" and "P x"
  shows "size (filter P h') < size (filter P h)"
  using heappop_mset [OF assms(1)] assms(2)
  by (metis filter_mset_add_mset lessI mset_filter size_add_mset size_mset)

function dispatch_loop :: "rat \<Rightarrow> string set \<Rightarrow> scheduled_job list \<Rightarrow> scheduled_job list \<times> scheduled_job list" where
  "dispatch_loop now running h =
     (case heappop sj_next_deadline h of
        None \<Rightarrow> ([], h)
      | Some (sj, h') \<Rightarrow>
          if \<not> sj_next_deadline sj \<le> now then ([], h)
          else if sj_job_id sj \<in> running then
            (if jd_interval (sj_job sj) \<le> 0 then dispatch_loop now running h'
             else dispatch_loop now running (push (sj\<lparr>sj_next_deadline := retry_deadline now sj\<rparr>) h'))
          else (let (launched, h'') = dispatch_loop now running h' in (sj # launched, h'')))"
  by pat_completeness auto
termination
proof (relation "measure (\<lambda>(now, running, h). size (filter (\<lambda>sj. sj_next_deadline sj \<le> now) h))", simp, goal_cases)
  case (2 now running h x sj h')
  have "mset (filter (\<lambda>y. sj_next_deadline y \<le> now) (push (sj\<lparr>sj_next_deadline := retry_deadline now sj\<rparr>) h')) =
      mset (filter (\<lambda>y. sj_next_deadline y \<le> now) h')"
    by (simp add: mset_filter retry_deadline_def)
  then have "size (filter (\<lambda>y. sj_next_deadline y \<le> now) (push (sj\<lparr>sj_next_deadline := retry_deadline now sj\<rparr>) h')) =
      size (filter (\<lambda>y. sj_next_deadline y \<le> now) h')"
    by (metis size_mset)
  then show ?case using 2 heappop_due_size [of sj_next_deadline h sj h' "\<lambda>y. sj_next_deadline y \<le> now"] by simp
qed (use heappop_due_size in \<open>fastforce+\<close>)

declare dispatch_loop.simps [simp del]

section \<open>Executing a job\<close>

text \<open>\<open>asyncio.TimeoutError\<close> is caught by itself; any other exception is its type and text.\<close>

datatype poll_exc = TimeoutExc | OtherExc string

datatype fail_phase = SetupPhase | ConnectPhase | PollPhase

record poll_result =
  pr_job_id :: string
  pr_device_id :: "string option"
  pr_collector_node :: string
  pr_timestamp :: rat
  pr_metrics :: "json list"
  pr_config_data :: "json option"
  pr_status :: string
  pr_reachable :: bool
  pr_error_message :: "string option"
  pr_execution_time_ms :: int
  pr_started_at :: "rat option"
  pr_rtt_ms :: "rat option"
  pr_response_time_ms :: "rat option"
  pr_interface_rows :: "json list option"
  pr_error_category :: string

type_synonym credential = "(string, json) dict"

record poll_context =
  pc_job :: job_definition
  pc_credential :: credential
  pc_node_id :: string
  pc_device_host :: string
  pc_parameters :: json
  pc_connectors :: "(string, connector_binding) dict"

text \<open>
  What the code calls.  A connector is known by the binding it was made for; \<open>env_poll\<close> is the call of
  the app under its time limit, a timeout being \<open>TimeoutExc\<close>.
\<close>

record poll_env =
  env_ensure_app :: "string \<Rightarrow> string \<Rightarrow> string \<Rightarrow> poll_exc option"
  env_credential :: "string \<Rightarrow> poll_exc + credential"
  env_ensure_connector :: "string \<Rightarrow> string \<Rightarrow> string \<Rightarrow> poll_exc option"
  env_new_connector :: "connector_binding \<Rightarrow> credential \<Rightarrow> poll_exc option"
  env_connect :: "connector_binding \<Rightarrow> string \<Rightarrow> poll_exc option"
  env_cache_client :: "poll_exc option"
  env_setup :: "poll_exc option"
  env_poll :: "poll_context \<Rightarrow> poll_exc + poll_result option"

definition guard :: "poll_exc option \<Rightarrow> poll_exc + unit" where
  "guard e = (case e of None \<Rightarrow> Inr () | Some x \<Rightarrow> Inl x)"

fun get_credentials :: "poll_env \<Rightarrow> string list \<Rightarrow> credential \<Rightarrow> poll_exc + credential" where
  "get_credentials env [] acc = Inr acc"
| "get_credentials env (n # ns) acc =
     ebind (env_credential env n) (\<lambda>data. get_credentials env ns (fold (\<lambda>(k, v). dict_set k v) data acc))"

definition host_of :: "job_definition \<Rightarrow> string" where
  "host_of job = or_empty (jd_device_host job)"

text \<open>One binding up to and including the connection: the phase it got to, and whether it raised.\<close>

definition connect_one :: "poll_env \<Rightarrow> string \<Rightarrow> connector_binding \<Rightarrow> fail_phase \<Rightarrow> fail_phase \<times> poll_exc option" where
  "connect_one env host b phase =
     (case ebind (guard (env_ensure_connector env (cb_connector_id b) (cb_connector_version_id b) (cb_connector_checksum b))) (\<lambda>_.
           ebind (case cb_credential_name b of
                    None \<Rightarrow> Inr []
                  | Some n \<Rightarrow> if n = [] then Inr [] else env_credential env n) (\<lambda>cred.
             guard (env_new_connector env b cred))) of
        Inl e \<Rightarrow> (phase, Some e)
      | Inr _ \<Rightarrow> (ConnectPhase, env_connect env b host))"

fun connect_all ::
    "poll_env \<Rightarrow> string \<Rightarrow> connector_binding list \<Rightarrow> fail_phase \<Rightarrow> (string, connector_binding) dict \<Rightarrow>
     fail_phase \<times> (string, connector_binding) dict \<times> poll_exc option" where
  "connect_all env host [] phase conns = (phase, conns, None)"
| "connect_all env host (b # bs) phase conns =
     (case connect_one env host b phase of
        (phase', Some e) \<Rightarrow> (phase', conns, Some e)
      | (phase', None) \<Rightarrow> connect_all env host bs phase' (dict_set (cb_connector_type b) b conns))"

definition poll_app ::
    "poll_env \<Rightarrow> string \<Rightarrow> job_definition \<Rightarrow> credential \<Rightarrow> (string, connector_binding) dict \<Rightarrow> poll_exc + poll_result option" where
  "poll_app env worker_id job cred conns =
     ebind (guard (env_cache_client env)) (\<lambda>_.
     ebind (guard (env_setup env)) (\<lambda>_.
       env_poll env \<lparr>pc_job = job, pc_credential = cred, pc_node_id = worker_id, pc_device_host = host_of job,
         pc_parameters = jd_parameters job, pc_connectors = conns\<rparr>))"

text \<open>The body of the \<open>try\<close>: the phase, the connectors made, and the outcome.\<close>

definition try_body ::
    "poll_env \<Rightarrow> string \<Rightarrow> job_definition \<Rightarrow>
     fail_phase \<times> (string, connector_binding) dict \<times> (poll_exc + poll_result option)" where
  "try_body env worker_id job =
     (case ebind (guard (env_ensure_app env (jd_app_id job) (jd_app_version job) (jd_app_checksum job)))
             (\<lambda>_. get_credentials env (jd_credential_names job) []) of
        Inl e \<Rightarrow> (SetupPhase, [], Inl e)
      | Inr cred \<Rightarrow>
          (case connect_all env (host_of job) (jd_connector_bindings job) SetupPhase [] of
             (phase, conns, Some e) \<Rightarrow> (phase, conns, Inl e)
           | (_, conns, None) \<Rightarrow> (PollPhase, conns, poll_app env worker_id job cred conns)))"

fun category_of :: "fail_phase \<Rightarrow> string" where
  "category_of SetupPhase = ''config''"
| "category_of ConnectPhase = ''device''"
| "category_of PollPhase = ''app''"

definition error_result :: "job_definition \<Rightarrow> string \<Rightarrow> rat \<Rightarrow> string \<Rightarrow> int \<Rightarrow> string \<Rightarrow> poll_result" where
  "error_result job node_id now error_message execution_ms error_category =
     \<lparr>pr_job_id = jd_job_id job, pr_device_id = jd_device_id job, pr_collector_node = node_id, pr_timestamp = now,
      pr_metrics = [], pr_config_data = None, pr_status = ''error'', pr_reachable = False,
      pr_error_message = Some error_message, pr_execution_time_ms = execution_ms, pr_started_at = None,
      pr_rtt_ms = None, pr_response_time_ms = None, pr_interface_rows = None, pr_error_category = error_category\<rparr>"

definition with_category :: "poll_result \<Rightarrow> poll_result" where
  "with_category r =
     (if pr_status r \<noteq> ''ok'' \<and> pr_error_category r = [] then r\<lparr>pr_error_category := ''app''\<rparr> else r)"

definition with_start :: "rat \<Rightarrow> poll_result \<Rightarrow> poll_result" where
  "with_start start r = (if pr_started_at r = None then r\<lparr>pr_started_at := Some start\<rparr> else r)"

definition int_trunc :: "rat \<Rightarrow> int" where
  "int_trunc x = (if 0 \<le> x then \<lfloor>x\<rfloor> else \<lceil>x\<rceil>)"

text \<open>
  The result of a run that started at \<open>start\<close> and failed or returned at \<open>now\<close>, both wall-clock
  times, and the connectors that are closed at its end.
\<close>

definition execute_job ::
    "poll_env \<Rightarrow> string \<Rightarrow> rat \<Rightarrow> rat \<Rightarrow> job_definition \<Rightarrow> poll_result option \<times> connector_binding list" where
  "execute_job env worker_id start now job =
     (let execution_ms = int_trunc ((now - start) * 1000)
      in case try_body env worker_id job of
           (phase, conns, outcome) \<Rightarrow>
             (map_option (with_start start)
                (case outcome of
                   Inl TimeoutExc \<Rightarrow> Some (error_result job worker_id now ''timeout'' execution_ms ''device'')
                 | Inl (OtherExc text) \<Rightarrow> Some (error_result job worker_id now text execution_ms (category_of phase))
                 | Inr r \<Rightarrow> map_option with_category r),
              dict_values conns))"

section \<open>The engine\<close>

datatype task_phase = Created | Waiting | Executing | Reporting

record poll_task =
  pt_id :: nat
  pt_sj :: scheduled_job
  pt_phase :: task_phase
  pt_start :: rat
  pt_result :: "poll_result option"

record poll_engine =
  en_heap :: "scheduled_job list"
  en_running :: "string set"
  en_loaded_apps :: "(string \<times> string) set"
  en_tasks :: "poll_task list"
  en_next_id :: nat
  en_running_flag :: bool
  en_light_slots :: nat
  en_heavy_slots :: nat
  en_submitted :: "poll_result list"

definition init_engine :: "nat \<Rightarrow> nat \<Rightarrow> poll_engine" where
  "init_engine light heavy = \<lparr>en_heap = [], en_running = {}, en_loaded_apps = {}, en_tasks = [], en_next_id = 0,
     en_running_flag = True, en_light_slots = light, en_heavy_slots = heavy, en_submitted = []\<rparr>"

definition refresh_jobs ::
    "(string \<Rightarrow> int) \<Rightarrow> rat \<Rightarrow> (job_definition \<times> job_profile) list \<times> string set \<Rightarrow> poll_engine \<Rightarrow> poll_engine" where
  "refresh_jobs hash now answer s =
     (if fst answer = []
      then (if en_heap s \<noteq> [] then s\<lparr>en_heap := [], en_loaded_apps := {}\<rparr> else s)
      else let h = rebuild hash now (en_running s) (existing_of (en_heap s)) (fst answer)
           in s\<lparr>en_heap := apply_immediate (snd answer) h,
                en_loaded_apps := set (map (\<lambda>sj. (jd_app_id (sj_job sj), jd_app_version (sj_job sj))) h)\<rparr>)"

definition create_task :: "scheduled_job \<Rightarrow> poll_engine \<Rightarrow> poll_engine" where
  "create_task sj s =
     s\<lparr>en_tasks := en_tasks s @ [\<lparr>pt_id = en_next_id s, pt_sj = sj, pt_phase = Created, pt_start = 0, pt_result = None\<rparr>],
       en_next_id := en_next_id s + 1\<rparr>"

definition dispatch_ready :: "rat \<Rightarrow> poll_engine \<Rightarrow> poll_engine" where
  "dispatch_ready now s =
     (let (launched, h) = dispatch_loop now (en_running s) (en_heap s)
      in fold create_task launched (s\<lparr>en_heap := h\<rparr>))"

definition trigger_job :: "string \<Rightarrow> poll_engine \<Rightarrow> bool \<times> poll_engine" where
  "trigger_job job_id s =
     (case find_index job_id (map sj_job_id (en_heap s)) of
        None \<Rightarrow> (False, s)
      | Some i \<Rightarrow> (True, s\<lparr>en_heap := heapify sj_next_deadline ((en_heap s)[i := make_due (en_heap s ! i)])\<rparr>))"

section \<open>Concurrency\<close>

text \<open>
  The events.  \<open>Refresh\<close> is the part after the calls to the cache node: they suspend the loop, so
  the tasks created before have started; the jobs of an answer are distinct, as the scheduler of
  the cache node keeps them by id.  A task waits for a slot of its lane; leaving the semaphore it
  puts the next entry on the heap, and then reports while its job still counts as running.
\<close>

datatype engine_event =
    Refresh rat "(job_definition \<times> job_profile) list \<times> string set"
  | Dispatch rat
  | StartTask nat rat
  | Acquire nat
  | Finish nat poll_env string rat rat
  | Done nat bool
  | Abort nat
  | Trigger string
  | StopEngine

abbreviation task_job :: "poll_task \<Rightarrow> string" where
  "task_job t \<equiv> jd_job_id (sj_job (pt_sj t))"

definition heavy :: "poll_task \<Rightarrow> bool" where
  "heavy t = jp_is_heavy (sj_profile (pt_sj t))"

definition executing :: "bool \<Rightarrow> poll_engine \<Rightarrow> poll_task list" where
  "executing h s = filter (\<lambda>t. pt_phase t = Executing \<and> heavy t = h) (en_tasks s)"

definition slots :: "bool \<Rightarrow> poll_engine \<Rightarrow> nat" where
  "slots h s = (if h then en_heavy_slots s else en_light_slots s)"

definition task_in :: "task_phase \<Rightarrow> nat \<Rightarrow> poll_engine \<Rightarrow> poll_task option" where
  "task_in p n s = find (\<lambda>t. pt_id t = n \<and> pt_phase t = p) (en_tasks s)"

definition set_task :: "poll_task \<Rightarrow> poll_engine \<Rightarrow> poll_engine" where
  "set_task t s = s\<lparr>en_tasks := map (\<lambda>u. if pt_id u = pt_id t then t else u) (en_tasks s)\<rparr>"

definition end_task :: "poll_task \<Rightarrow> poll_engine \<Rightarrow> poll_engine" where
  "end_task t s = s\<lparr>en_tasks := filter (\<lambda>u. pt_id u \<noteq> pt_id t) (en_tasks s),
     en_running := (if pt_phase t = Created then en_running s else en_running s - {task_job t})\<rparr>"

definition reschedule :: "poll_task \<Rightarrow> poll_engine \<Rightarrow> poll_engine" where
  "reschedule t s =
     (let sj = pt_sj t; job = sj_job sj
      in if jd_interval job > 0
         then s\<lparr>en_heap := push (scheduled (pt_start t + of_int (jd_interval job)) job (sj_profile sj)) (en_heap s)\<rparr>
         else s)"

definition finish_task :: "poll_result option \<Rightarrow> poll_task \<Rightarrow> poll_engine \<Rightarrow> poll_engine" where
  "finish_task result t s =
     (case result of
        None \<Rightarrow> end_task t (reschedule t s)
      | Some r \<Rightarrow> set_task (t\<lparr>pt_phase := Reporting, pt_result := Some r\<rparr>) (reschedule t s))"

definition submit_result :: "bool \<Rightarrow> poll_task \<Rightarrow> poll_engine \<Rightarrow> poll_engine" where
  "submit_result ok t s =
     (case pt_result t of None \<Rightarrow> s | Some r \<Rightarrow> if ok then s\<lparr>en_submitted := en_submitted s @ [r]\<rparr> else s)"

fun engine_step :: "(string \<Rightarrow> int) \<Rightarrow> engine_event \<Rightarrow> poll_engine \<Rightarrow> poll_engine option" where
  "engine_step hash (Refresh now answer) s =
     (if en_running_flag s \<and> (\<forall>t \<in> set (en_tasks s). pt_phase t \<noteq> Created) \<and> distinct (map (\<lambda>p. jd_job_id (fst p)) (fst answer))
      then Some (refresh_jobs hash now answer s) else None)"
| "engine_step hash (Dispatch now) s = (if en_running_flag s then Some (dispatch_ready now s) else None)"
| "engine_step hash (StartTask n now) s =
     map_option (\<lambda>t. set_task (t\<lparr>pt_phase := Waiting, pt_start := now\<rparr>) (s\<lparr>en_running := insert (task_job t) (en_running s)\<rparr>))
       (task_in Created n s)"
| "engine_step hash (Acquire n) s =
     Option.bind (task_in Waiting n s) (\<lambda>t.
       if length (executing (heavy t) s) < slots (heavy t) s then Some (set_task (t\<lparr>pt_phase := Executing\<rparr>) s) else None)"
| "engine_step hash (Finish n env worker_id start now) s =
     map_option (\<lambda>t. finish_task (fst (execute_job env worker_id start now (sj_job (pt_sj t)))) t s) (task_in Executing n s)"
| "engine_step hash (Done n ok) s = map_option (\<lambda>t. end_task t (submit_result ok t s)) (task_in Reporting n s)"
| "engine_step hash (Abort n) s = map_option (\<lambda>t. end_task t s) (find (\<lambda>t. pt_id t = n) (en_tasks s))"
| "engine_step hash (Trigger job_id) s = Some (snd (trigger_job job_id s))"
| "engine_step hash StopEngine s = Some (s\<lparr>en_running_flag := False\<rparr>)"

end
