(* ===== verification/Poll_Props.thy ===== *)
theory Poll_Props
  imports Poll_Engine Scheduler_Props
begin

text \<open>
  The poll engine: a dispatch launches exactly the due jobs that do not run, no job is executed
  twice at a time, the lanes hold, a refresh covers the jobs of the answer, and results are
  classified.
\<close>

section \<open>Dispatch\<close>

abbreviation due :: "rat \<Rightarrow> scheduled_job \<Rightarrow> bool" where
  "due now sj \<equiv> sj_next_deadline sj \<le> now"

abbreviation retry :: "rat \<Rightarrow> scheduled_job \<Rightarrow> scheduled_job" where
  "retry now sj \<equiv> sj\<lparr>sj_next_deadline := retry_deadline now sj\<rparr>"

lemma retry_not_due [simp]: "\<not> due now (retry now sj)"
  by (simp add: retry_deadline_def)

lemma dispatch_loop_spec:
  assumes "is_heap sj_next_deadline h" and "dispatch_loop now running h = (launched, h')"
  shows "is_heap sj_next_deadline h' \<and>
    mset launched = filter_mset (\<lambda>sj. due now sj \<and> sj_job_id sj \<notin> running) (mset h) \<and>
    mset h' = filter_mset (\<lambda>sj. \<not> due now sj) (mset h) +
      image_mset (retry now) (filter_mset (\<lambda>sj. due now sj \<and> sj_job_id sj \<in> running \<and> 0 < jd_interval (sj_job sj)) (mset h))"
  using assms
proof (induction now running h arbitrary: launched h' rule: dispatch_loop.induct)
  case (1 now running h)
  note prems = "1.prems"
  show ?case
  proof (cases "heappop sj_next_deadline h")
    case None
    then have "dispatch_loop now running h = ([], h)" by (subst dispatch_loop.simps) (simp add: heappop_def)
    then show ?thesis using prems None by simp
  next
    case (Some p)
    obtain sj r where p: "heappop sj_next_deadline h = Some (sj, r)" using Some by (cases p) simp
    have m: "mset h = add_mset sj (mset r)" and hr: "is_heap sj_next_deadline r"
      using heappop_mset [OF p] heappop_heap [OF prems(1) p] by simp_all
    note IH = "1.IH" [OF p refl]
    consider (late) "\<not> due now sj" | (drop) "due now sj" "sj_job_id sj \<in> running" "jd_interval (sj_job sj) \<le> 0"
      | (again) "due now sj" "sj_job_id sj \<in> running" "0 < jd_interval (sj_job sj)" | (go) "due now sj" "sj_job_id sj \<notin> running"
      by linarith
    then show ?thesis
    proof cases
      case late
      have n: "\<not> due now y" if "y \<in># mset h" for y
        using heappop_min [OF prems(1) p] late that by fastforce
      have "dispatch_loop now running h = ([], h)" using p late by (subst dispatch_loop.simps) simp
      moreover have "filter_mset (\<lambda>sj. \<not> due now sj) (mset h) = mset h" using n by (intro filter_mset_eq_conv [THEN iffD2]) auto
      ultimately show ?thesis using prems n by auto
    next
      case drop
      then have "dispatch_loop now running h = dispatch_loop now running r" using p by (subst dispatch_loop.simps) simp
      then show ?thesis using IH(1) [of launched h'] drop hr m prems(2) by simp
    next
      case again
      then have "dispatch_loop now running h = dispatch_loop now running (push (retry now sj) r)"
        using p by (subst dispatch_loop.simps) simp
      then show ?thesis using IH(2) [of launched h'] again heappush_heap [OF hr, of "retry now sj"] m prems(2) retry_not_due [of now sj] by simp
    next
      case go
      obtain l' where l: "dispatch_loop now running r = (l', h')" "launched = sj # l'"
        using prems(2) go p by (subst (asm) dispatch_loop.simps) (auto split: prod.splits)
      then show ?thesis using IH(3) [of l' h'] go hr m by simp
    qed
  qed
qed

section \<open>The invariant\<close>

abbreviation heap_ids :: "poll_engine \<Rightarrow> string list" where
  "heap_ids s \<equiv> map sj_job_id (en_heap s)"

definition heap_ok :: "poll_engine \<Rightarrow> bool" where
  "heap_ok s \<longleftrightarrow> is_heap sj_next_deadline (en_heap s) \<and> distinct (heap_ids s) \<and>
     (\<forall>sj \<in> set (en_heap s). sj_job_id sj = jd_job_id (sj_job sj))"

definition tasks_ok :: "poll_engine \<Rightarrow> bool" where
  "tasks_ok s \<longleftrightarrow> distinct (map pt_id (en_tasks s)) \<and> (\<forall>t \<in> set (en_tasks s). pt_id t < en_next_id s) \<and>
     distinct (map task_job (en_tasks s)) \<and> en_running s = task_job ` {t \<in> set (en_tasks s). pt_phase t \<noteq> Created}"

definition apart :: "poll_engine \<Rightarrow> bool" where
  "apart s \<longleftrightarrow> (\<forall>t \<in> set (en_tasks s). pt_phase t \<noteq> Reporting \<longrightarrow> task_job t \<notin> set (heap_ids s))"

definition lanes_ok :: "poll_engine \<Rightarrow> bool" where
  "lanes_ok s \<longleftrightarrow> (\<forall>h. length (executing h s) \<le> slots h s)"

definition engine_inv :: "poll_engine \<Rightarrow> bool" where
  "engine_inv s \<longleftrightarrow> heap_ok s \<and> tasks_ok s \<and> apart s \<and> lanes_ok s"

lemma init_engine_inv: "engine_inv (init_engine l h)"
  by (simp add: engine_inv_def init_engine_def heap_ok_def tasks_ok_def apart_def lanes_ok_def heap_from_def executing_def)

lemma apart_mono:
  "apart s \<Longrightarrow> set (heap_ids s') \<subseteq> set (heap_ids s) \<Longrightarrow> set (en_tasks s') \<subseteq> set (en_tasks s) \<Longrightarrow> apart s'"
  unfolding apart_def by blast

lemma lanes_okI:
  "lanes_ok s \<Longrightarrow> (\<And>h. executing h s' = executing h s) \<Longrightarrow> (\<And>h. slots h s' = slots h s) \<Longrightarrow> lanes_ok s'"
  by (simp add: lanes_ok_def)

lemma lanes_ok_le:
  "lanes_ok s \<Longrightarrow> (\<And>h. length (executing h s') \<le> length (executing h s)) \<Longrightarrow> (\<And>h. slots h s' = slots h s) \<Longrightarrow> lanes_ok s'"
  by (metis lanes_ok_def order_trans)

lemma distinct_submset:
  assumes "mset xs \<subseteq># mset ys" and "distinct ys"
  shows "distinct xs"
proof -
  have "count (mset xs) a = (if a \<in> set xs then 1 else 0)" for a
    using mset_subset_eq_count [OF assms(1), of a] assms(2) count_greater_zero_iff [of "mset xs" a]
    by (auto simp: distinct_count_atmost_1 simp del: count_greater_zero_iff split: if_splits)
  then show ?thesis by (simp add: distinct_count_atmost_1)
qed

lemma same_mset:
  assumes "mset h = mset h'"
  shows "set h = set h'" and "distinct (map f h) = distinct (map f h')"
  using assms by (metis set_mset_mset, metis mset_map mset_eq_imp_distinct_iff)

lemma scheduled_simps [simp]:
  "sj_job_id (scheduled d j p) = jd_job_id j" "sj_job (scheduled d j p) = j" "sj_next_deadline (scheduled d j p) = d"
  "sj_profile (scheduled d j p) = p"
  by (simp_all add: scheduled_def)

lemma set_push [simp]: "set (push x h) = insert x (set h)"
  using same_mset(1) [of "push x h" "x # h"] by simp

lemma distinct_push [simp]: "distinct (map f (push x h)) \<longleftrightarrow> f x \<notin> f ` set h \<and> distinct (map f h)"
  using same_mset(2) [of "push x h" "x # h" f] by auto

subsection \<open>Refresh\<close>

lemma rebuild_gen:
  assumes "is_heap sj_next_deadline h" and "distinct (map (\<lambda>p. jd_job_id (fst p)) pairs)" and "distinct (map sj_job_id h)"
    and "sj_job_id ` set h \<inter> (\<lambda>p. jd_job_id (fst p)) ` set pairs = {}"
    and "r = fold (\<lambda>(job, profile) h. if jd_job_id job \<in> running then h
        else push (scheduled (refresh_deadline hash now existing job) job profile) h) pairs h"
  shows "is_heap sj_next_deadline r \<and> distinct (map sj_job_id r) \<and>
    set r = set h \<union> {scheduled (refresh_deadline hash now existing job) job profile | job profile.
      (job, profile) \<in> set pairs \<and> jd_job_id job \<notin> running}"
  using assms(1-4) unfolding assms(5)
proof (induction pairs arbitrary: h)
  case (Cons p pairs)
  obtain job profile where p: "p = (job, profile)" by (cases p)
  show ?case
  proof (cases "jd_job_id job \<in> running")
    case True
    have "is_heap sj_next_deadline h" "distinct (map (\<lambda>p. jd_job_id (fst p)) pairs)" "distinct (map sj_job_id h)"
      "sj_job_id ` set h \<inter> (\<lambda>p. jd_job_id (fst p)) ` set pairs = {}" using Cons.prems by auto
    from Cons.IH [OF this] show ?thesis using True p by auto
  next
    case False
    let ?h = "push (scheduled (refresh_deadline hash now existing job) job profile) h"
    have "is_heap sj_next_deadline ?h" "distinct (map (\<lambda>p. jd_job_id (fst p)) pairs)" "distinct (map sj_job_id ?h)"
      "sj_job_id ` set ?h \<inter> (\<lambda>p. jd_job_id (fst p)) ` set pairs = {}" using Cons.prems p by (auto intro: heappush_heap)
    from Cons.IH [OF this] show ?thesis using False p by auto
  qed
qed simp

lemma rebuild_spec:
  assumes "distinct (map (\<lambda>p. jd_job_id (fst p)) pairs)"
  shows "is_heap sj_next_deadline (rebuild hash now running existing pairs)"
    and "distinct (map sj_job_id (rebuild hash now running existing pairs))"
    and "set (rebuild hash now running existing pairs) =
      {scheduled (refresh_deadline hash now existing job) job profile | job profile.
        (job, profile) \<in> set pairs \<and> jd_job_id job \<notin> running}"
  using rebuild_gen [of "[]" pairs _ running hash now existing, OF _ _ _ _ refl] assms by (auto simp: rebuild_def heap_from_def)

lemma make_due_simps [simp]: "sj_job_id (make_due sj) = sj_job_id sj" "sj_job (make_due sj) = sj_job sj"
  by (simp_all add: make_due_def)

lemma apply_immediate_spec:
  assumes "is_heap sj_next_deadline h" and "distinct (map sj_job_id h)"
  shows "is_heap sj_next_deadline (apply_immediate ids h)" and "distinct (map sj_job_id (apply_immediate ids h))"
    and "sj_job_id ` set (apply_immediate ids h) = sj_job_id ` set h"
    and "sj_job ` set (apply_immediate ids h) = sj_job ` set h"
    and "\<forall>sj \<in> set h. sj_job_id sj = jd_job_id (sj_job sj) \<Longrightarrow> \<forall>sj \<in> set (apply_immediate ids h). sj_job_id sj = jd_job_id (sj_job sj)"
proof -
  let ?h = "map (\<lambda>sj. if sj_job_id sj \<in> ids then make_due sj else sj) h"
  have m: "mset (heapify sj_next_deadline ?h) = mset ?h" by simp
  have i: "map sj_job_id ?h = map sj_job_id h" by simp
  show "is_heap sj_next_deadline (apply_immediate ids h)" using assms(1) by (simp add: apply_immediate_def)
  show "distinct (map sj_job_id (apply_immediate ids h))"
    using assms(2) same_mset(2) [OF m, of sj_job_id] unfolding i apply_immediate_def by simp
  show "sj_job_id ` set (apply_immediate ids h) = sj_job_id ` set h"
    using same_mset(1) [OF m] by (auto simp: apply_immediate_def image_Un image_image)
  show "sj_job ` set (apply_immediate ids h) = sj_job ` set h"
    using same_mset(1) [OF m] by (auto simp: apply_immediate_def image_Un image_image)
  show "\<forall>sj \<in> set h. sj_job_id sj = jd_job_id (sj_job sj) \<Longrightarrow> \<forall>sj \<in> set (apply_immediate ids h). sj_job_id sj = jd_job_id (sj_job sj)"
    using same_mset(1) [OF m] by (auto simp: apply_immediate_def)
qed

lemma scheduled_ids:
  "sj_job_id ` {scheduled (D j) j p | j p. (j, p) \<in> A \<and> jd_job_id j \<notin> R} = (\<lambda>p. jd_job_id (fst p)) ` A - R"
proof safe
  fix j p assume "(j, p) \<in> A" "jd_job_id (fst (j, p)) \<notin> R"
  then show "jd_job_id (fst (j, p)) \<in> sj_job_id ` {scheduled (D j) j p | j p. (j, p) \<in> A \<and> jd_job_id j \<notin> R}"
    by (intro image_eqI [of _ _ "scheduled (D j) j p"]) auto
qed force+

lemma refresh_ids:
  assumes "distinct (map (\<lambda>p. jd_job_id (fst p)) (fst answer))" and "fst answer \<noteq> []"
  shows "set (heap_ids (refresh_jobs hash now answer s)) = (\<lambda>p. jd_job_id (fst p)) ` set (fst answer) - en_running s"
proof -
  note R = rebuild_spec [OF assms(1), of hash now "en_running s" "existing_of (en_heap s)"]
  show ?thesis
    using assms(2) apply_immediate_spec(3) [OF R(1,2), of "snd answer"] 
    unfolding R(3) scheduled_ids by (simp add: refresh_jobs_def Let_def)
qed

lemma refresh_frame [simp]:
  "en_tasks (refresh_jobs hash now answer s) = en_tasks s" "en_running (refresh_jobs hash now answer s) = en_running s"
  "en_next_id (refresh_jobs hash now answer s) = en_next_id s" "en_light_slots (refresh_jobs hash now answer s) = en_light_slots s"
  "en_heavy_slots (refresh_jobs hash now answer s) = en_heavy_slots s"
  by (simp_all add: refresh_jobs_def Let_def)

lemma refresh_inv:
  assumes "engine_inv s" and "\<forall>t \<in> set (en_tasks s). pt_phase t \<noteq> Created"
    and "distinct (map (\<lambda>p. jd_job_id (fst p)) (fst answer))"
  shows "engine_inv (refresh_jobs hash now answer s)"
proof (cases "fst answer = []")
  case True
  have "lanes_ok (refresh_jobs hash now answer s)"
    by (rule lanes_okI [of s]) (use assms(1) in \<open>simp_all add: engine_inv_def executing_def slots_def\<close>)
  moreover have "heap_ok (refresh_jobs hash now answer s)" "apart (refresh_jobs hash now answer s)"
    using True assms(1) by (simp_all add: refresh_jobs_def engine_inv_def heap_ok_def heap_from_def apart_def)
  ultimately show ?thesis using assms(1) by (simp add: engine_inv_def tasks_ok_def)
next
  case False
  let ?s = "refresh_jobs hash now answer s"
  note R = rebuild_spec [OF assms(3), of hash now "en_running s" "existing_of (en_heap s)"]
  have "heap_ok ?s"
  proof -
    let ?r = "rebuild hash now (en_running s) (existing_of (en_heap s)) (fst answer)"
    have "\<forall>sj \<in> set ?r. sj_job_id sj = jd_job_id (sj_job sj)" unfolding R(3) by auto
    then show ?thesis
      using False apply_immediate_spec(1,2,5) [OF R(1,2), of "snd answer"] by (simp add: heap_ok_def refresh_jobs_def Let_def)
  qed
  moreover have "apart ?s"
    using assms(1,2) refresh_ids [OF assms(3) False, of hash now s] unfolding apart_def engine_inv_def tasks_ok_def by auto
  moreover have "lanes_ok ?s"
    by (rule lanes_okI [of s]) (use assms(1) in \<open>simp_all add: engine_inv_def executing_def slots_def\<close>)
  ultimately show ?thesis using assms(1) by (simp add: engine_inv_def tasks_ok_def)
qed

subsection \<open>Dispatch\<close>

lemma fold_create_frame [simp]:
  "en_heap (fold create_task sjs s) = en_heap s" "en_running (fold create_task sjs s) = en_running s"
  "en_light_slots (fold create_task sjs s) = en_light_slots s" "en_heavy_slots (fold create_task sjs s) = en_heavy_slots s"
  by (induction sjs arbitrary: s) (simp_all add: create_task_def)

lemma create_task_inv:
  assumes "engine_inv s" and "sj_job_id sj = jd_job_id (sj_job sj)" and "sj_job_id sj \<notin> set (heap_ids s)"
    and "sj_job_id sj \<notin> task_job ` set (en_tasks s)"
  shows "engine_inv (create_task sj s)"
proof -
  have "lanes_ok (create_task sj s)"
    by (rule lanes_okI [of s]) (use assms(1) in \<open>simp_all add: engine_inv_def create_task_def executing_def slots_def\<close>)
  moreover have "tasks_ok (create_task sj s)"
  proof -
    have n: "en_next_id s \<notin> pt_id ` set (en_tasks s)" using assms(1) by (fastforce simp: engine_inv_def tasks_ok_def)
    have "{t \<in> set (en_tasks (create_task sj s)). pt_phase t \<noteq> Created} = {t \<in> set (en_tasks s). pt_phase t \<noteq> Created}"
      by (auto simp: create_task_def)
    then show ?thesis
      using assms(1,2,4) n unfolding engine_inv_def tasks_ok_def by (simp add: create_task_def less_SucI)
  qed
  moreover have "heap_ok (create_task sj s) \<and> apart (create_task sj s)"
    using assms by (auto simp: engine_inv_def heap_ok_def apart_def create_task_def)
  ultimately show ?thesis by (simp add: engine_inv_def)
qed

lemma create_tasks_inv:
  assumes "engine_inv s" and "distinct (map sj_job_id sjs)" and "\<forall>sj \<in> set sjs. sj_job_id sj = jd_job_id (sj_job sj)"
    and "\<forall>sj \<in> set sjs. sj_job_id sj \<notin> set (heap_ids s) \<and> sj_job_id sj \<notin> task_job ` set (en_tasks s)"
  shows "engine_inv (fold create_task sjs s)"
  using assms
proof (induction sjs arbitrary: s)
  case (Cons sj sjs)
  have "engine_inv (create_task sj s)" using Cons.prems by (intro create_task_inv) auto
  moreover have h: "en_heap (create_task sj s) = en_heap s" by (simp add: create_task_def)
  moreover have t: "task_job ` set (en_tasks (create_task sj s)) = insert (jd_job_id (sj_job sj)) (task_job ` set (en_tasks s))"
    by (simp add: create_task_def)
  moreover have "\<forall>x \<in> set sjs. sj_job_id x \<notin> set (heap_ids (create_task sj s)) \<and> sj_job_id x \<notin> task_job ` set (en_tasks (create_task sj s))"
  proof
    fix x assume x: "x \<in> set sjs"
    then have "sj_job_id x \<in> sj_job_id ` set sjs" by (rule imageI)
    then have "sj_job_id x \<noteq> sj_job_id sj" using Cons.prems(2) by auto
    then show "sj_job_id x \<notin> set (heap_ids (create_task sj s)) \<and> sj_job_id x \<notin> task_job ` set (en_tasks (create_task sj s))"
      unfolding h t using Cons.prems(3,4) x by simp
  qed
  ultimately have "engine_inv (fold create_task sjs (create_task sj s))"
    using Cons.prems(2,3) by (intro Cons.IH) simp_all
  then show ?case by simp
qed simp

lemma filter_three:
  "filter_mset (\<lambda>x. P x \<and> \<not> Q x) M + (filter_mset (\<lambda>x. \<not> P x) M + filter_mset (\<lambda>x. P x \<and> Q x \<and> R x) M) \<subseteq># M"
  by (rule mset_subset_eqI) simp

lemma mset_ids:
  assumes "mset h = A + image_mset f B" and "\<And>x. sj_job_id (f x) = sj_job_id x"
  shows "image_mset sj_job_id (mset h) = image_mset sj_job_id (A + B)"
  using assms by (simp add: multiset.map_comp comp_def)

lemma dispatch_inv:
  assumes "engine_inv s"
  shows "engine_inv (dispatch_ready now s)"
proof -
  obtain l h where d: "dispatch_loop now (en_running s) (en_heap s) = (l, h)" by (cases "dispatch_loop now (en_running s) (en_heap s)")
  have hp: "is_heap sj_next_deadline (en_heap s)" and dist: "distinct (heap_ids s)"
    and ids: "\<forall>sj \<in> set (en_heap s). sj_job_id sj = jd_job_id (sj_job sj)" using assms by (auto simp: engine_inv_def heap_ok_def)
  note D = dispatch_loop_spec [OF hp d]
  let ?L = "\<lambda>sj. due now sj \<and> sj_job_id sj \<notin> en_running s"
  let ?B = "\<lambda>sj. due now sj \<and> sj_job_id sj \<in> en_running s \<and> 0 < jd_interval (sj_job sj)"
  have sl: "set l \<subseteq> {sj \<in> set (en_heap s). ?L sj}" using D by (metis (no_types, lifting) mem_Collect_eq set_mset_filter set_mset_mset subsetI)
  have sub: "mset (map sj_job_id l) + mset (map sj_job_id h) \<subseteq># mset (heap_ids s)"
  proof -
    let ?M = "mset (en_heap s)"
    have "mset (map sj_job_id h) = image_mset sj_job_id (filter_mset (\<lambda>sj. \<not> due now sj) ?M + filter_mset ?B ?M)"
      using D by (simp add: multiset.map_comp comp_def)
    moreover have "mset (map sj_job_id l) = image_mset sj_job_id (filter_mset ?L ?M)" using D by simp
    ultimately have "mset (map sj_job_id l) + mset (map sj_job_id h) =
        image_mset sj_job_id (filter_mset ?L ?M + (filter_mset (\<lambda>sj. \<not> due now sj) ?M + filter_mset ?B ?M))"
      by (simp only: image_mset_union)
    also have "\<dots> \<subseteq># image_mset sj_job_id ?M" by (rule image_mset_subseteq_mono, rule filter_three)
    finally show ?thesis by simp
  qed
  have dd: "distinct (map sj_job_id l @ map sj_job_id h)"
    by (rule distinct_submset [OF _ dist]) (use sub in simp)
  have "sj_job_id sj = jd_job_id (sj_job sj)" if "sj \<in> set h" for sj
  proof -
    have "sj \<in># mset h" using that by simp
    then show ?thesis using D ids by auto
  qed
  then have "heap_ok (s\<lparr>en_heap := h\<rparr>)" using D dd by (simp add: heap_ok_def)
  moreover have hs: "set (map sj_job_id h) \<subseteq> set (heap_ids s)"
    using mset_subset_eqD [OF sub] by (metis Un_iff set_mset_mset set_mset_union subsetI)
  moreover have "lanes_ok (s\<lparr>en_heap := h\<rparr>)"
    by (rule lanes_okI [of s]) (use assms in \<open>simp_all add: engine_inv_def executing_def slots_def\<close>)
  moreover have "apart (s\<lparr>en_heap := h\<rparr>)"
    by (rule apart_mono [of s]) (use assms hs in \<open>simp_all add: engine_inv_def\<close>)
  ultimately have "engine_inv (s\<lparr>en_heap := h\<rparr>)" using assms by (simp add: engine_inv_def tasks_ok_def)
  moreover have "sj_job_id sj \<notin> task_job ` set (en_tasks s)" if "sj \<in> set l" for sj
  proof
    assume "sj_job_id sj \<in> task_job ` set (en_tasks s)"
    then obtain t where t: "t \<in> set (en_tasks s)" "task_job t = sj_job_id sj" by auto
    have "sj_job_id sj \<notin> en_running s" "sj_job_id sj \<in> set (heap_ids s)" using sl that by auto
    then have "task_job t \<notin> task_job ` {t \<in> set (en_tasks s). pt_phase t \<noteq> Created}"
      and "pt_phase t = Reporting"
      using assms t(1) unfolding t(2) by (auto simp: engine_inv_def tasks_ok_def apart_def simp flip: t(2) simp del: set_map)
    moreover have "task_job t \<in> task_job ` {t \<in> set (en_tasks s). pt_phase t \<noteq> Created}" if "pt_phase t \<noteq> Created"
      using t(1) that by (intro imageI) simp
    ultimately show False by force
  qed
  ultimately have "engine_inv (fold create_task l (s\<lparr>en_heap := h\<rparr>))"
    using dd sl ids by (intro create_tasks_inv) auto
  then show ?thesis using d by (simp add: dispatch_ready_def)
qed

subsection \<open>Tasks\<close>

lemma task_in_Some: "task_in p n s = Some t \<Longrightarrow> t \<in> set (en_tasks s) \<and> pt_id t = n \<and> pt_phase t = p"
  by (auto simp: task_in_def find_Some_iff)

text \<open>Changing the phase of one task.\<close>

lemma set_task_set:
  assumes "tasks_ok s" and "t \<in> set (en_tasks s)" and "pt_id t' = pt_id t"
  shows "set (en_tasks (set_task t' s)) = insert t' (set (en_tasks s) - {t})"
proof -
  have "u = t" if "u \<in> set (en_tasks s)" "pt_id u = pt_id t" for u
    using assms(1,2) that by (auto simp: tasks_ok_def distinct_map inj_on_def)
  then show ?thesis using assms(2,3) by (auto simp: set_task_def)
qed

lemma set_task_same:
  assumes "tasks_ok s" and "t \<in> set (en_tasks s)" and "pt_id t' = pt_id t" and "pt_sj t' = pt_sj t"
  shows "map pt_id (en_tasks (set_task t' s)) = map pt_id (en_tasks s)"
    and "map task_job (en_tasks (set_task t' s)) = map task_job (en_tasks s)"
proof -
  have "pt_sj u = pt_sj t'" if "u \<in> set (en_tasks s)" "pt_id u = pt_id t'" for u
    using assms that by (auto simp: tasks_ok_def distinct_map inj_on_def)
  then show "map pt_id (en_tasks (set_task t' s)) = map pt_id (en_tasks s)"
    and "map task_job (en_tasks (set_task t' s)) = map task_job (en_tasks s)" by (auto simp: set_task_def)
qed

lemma set_task_frame [simp]:
  "en_running (set_task t s) = en_running s" "en_heap (set_task t s) = en_heap s" "en_next_id (set_task t s) = en_next_id s"
  "en_light_slots (set_task t s) = en_light_slots s" "en_heavy_slots (set_task t s) = en_heavy_slots s"
  by (simp_all add: set_task_def)

lemma set_task_running:
  assumes "tasks_ok s" and "t \<in> set (en_tasks s)" and "pt_id t' = pt_id t" and "pt_sj t' = pt_sj t" and "pt_phase t' \<noteq> Created"
  shows "task_job ` {u \<in> set (en_tasks (set_task t' s)). pt_phase u \<noteq> Created} = insert (task_job t) (en_running s)"
proof -
  let ?A = "{u \<in> set (en_tasks s). pt_phase u \<noteq> Created}"
  have "{u \<in> set (en_tasks (set_task t' s)). pt_phase u \<noteq> Created} = insert t' (?A - {t})"
    unfolding set_task_set [OF assms(1-3)] using assms(5) by auto
  moreover have "insert (task_job t) (task_job ` (?A - {t})) = insert (task_job t) (task_job ` ?A)" by auto
  moreover have "en_running s = task_job ` ?A" using assms(1) by (simp add: tasks_ok_def)
  ultimately show ?thesis using assms(4) by simp
qed

lemma set_task_tasks_ok:
  assumes "tasks_ok s" and "t \<in> set (en_tasks s)" and "pt_id t' = pt_id t" and "pt_sj t' = pt_sj t" and "pt_phase t' \<noteq> Created"
  shows "tasks_ok ((set_task t' s)\<lparr>en_running := insert (task_job t) (en_running s)\<rparr>)"
proof -
  have "pt_id u < en_next_id s" if "u \<in> set (en_tasks (set_task t' s))" for u
    using that set_task_set [OF assms(1-3)] assms(1-3) by (auto simp: tasks_ok_def)
  then show ?thesis
    using set_task_same [OF assms(1-4)] set_task_running [OF assms] assms(1) by (simp add: tasks_ok_def)
qed

lemma end_task_frame [simp]:
  "en_heap (end_task t s) = en_heap s" "en_next_id (end_task t s) = en_next_id s"
  "en_light_slots (end_task t s) = en_light_slots s" "en_heavy_slots (end_task t s) = en_heavy_slots s"
  by (simp_all add: end_task_def)

lemma end_task_set: "set (en_tasks (end_task t s)) = {u \<in> set (en_tasks s). pt_id u \<noteq> pt_id t}"
  by (simp add: end_task_def)

lemma end_task_tasks_ok:
  assumes "tasks_ok s" and "t \<in> set (en_tasks s)"
  shows "tasks_ok (end_task t s)"
proof -
  have inj: "inj_on task_job (set (en_tasks s))" "inj_on pt_id (set (en_tasks s))" using assms(1) by (auto simp: tasks_ok_def distinct_map)
  let ?A = "{u \<in> set (en_tasks s). pt_phase u \<noteq> Created}"
  have "set (en_tasks (end_task t s)) = set (en_tasks s) - {t}"
    unfolding end_task_set using inj(2) assms(2) by (auto simp: inj_on_def)
  then have "{u \<in> set (en_tasks (end_task t s)). pt_phase u \<noteq> Created} = ?A - {t}" by auto
  moreover have "task_job ` (?A - {t}) = task_job ` ?A - (if pt_phase t = Created then {} else {task_job t})"
    using inj(1) assms(2) by (auto simp: inj_on_def)
  ultimately show ?thesis
    using assms(1) by (auto simp: tasks_ok_def end_task_def intro: distinct_filter simp: distinct_map_filter)
qed

lemma executing_end: "length (executing h (end_task t s)) \<le> length (executing h s)"
proof -
  have "executing h (end_task t s) = filter (\<lambda>u. pt_id u \<noteq> pt_id t) (executing h s)"
    by (simp add: executing_def end_task_def conj_commute conj_left_commute)
  then show ?thesis by simp
qed

lemma end_task_inv:
  assumes "engine_inv s" and "t \<in> set (en_tasks s)"
  shows "engine_inv (end_task t s)"
proof -
  have "lanes_ok (end_task t s)"
    by (rule lanes_ok_le [of s]) (use assms(1) executing_end in \<open>simp_all add: engine_inv_def slots_def\<close>)
  moreover have "heap_ok (end_task t s)" using assms(1) by (simp add: engine_inv_def heap_ok_def)
  moreover have "apart (end_task t s)"
    by (rule apart_mono [of s]) (use assms(1) in \<open>auto simp: engine_inv_def end_task_set\<close>)
  ultimately show ?thesis using assms end_task_tasks_ok by (simp add: engine_inv_def)
qed

text \<open>A task that takes a slot, and one that takes none.\<close>

lemma filter_replaced:
  "distinct (map pt_id xs) \<Longrightarrow>
   length (filter P (map (\<lambda>u. if pt_id u = n then t' else u) xs)) \<le> length (filter P xs) + (if P t' then 1 else 0)"
proof (induction xs)
  case (Cons x xs)
  show ?case
  proof (cases "pt_id x = n")
    case True
    then have "n \<notin> pt_id ` set xs" using Cons.prems by simp
    then have "\<forall>u \<in> set xs. pt_id u \<noteq> n" by blast
    then have "map (\<lambda>u. if pt_id u = n then t' else u) xs = xs" by (simp add: map_idI)
    then show ?thesis using True by simp
  next
    case False
    then show ?thesis using Cons by (auto split: if_splits)
  qed
qed simp

lemma executing_set_task:
  "tasks_ok s \<Longrightarrow> length (executing h (set_task t' s)) \<le>
     length (executing h s) + (if pt_phase t' = Executing \<and> heavy t' = h then 1 else 0)"
  using filter_replaced [of "en_tasks s" "\<lambda>t. pt_phase t = Executing \<and> heavy t = h" "pt_id t'" t']
  by (simp add: tasks_ok_def executing_def set_task_def)

lemma set_task_inv:
  assumes "engine_inv s" and "t \<in> set (en_tasks s)" and "pt_id t' = pt_id t" and "pt_sj t' = pt_sj t"
    and "pt_phase t' \<noteq> Created" and "task_job t \<in> en_running s" and "pt_phase t' = Reporting \<or> pt_phase t \<noteq> Reporting"
    and "pt_phase t' = Executing \<longrightarrow> length (executing (heavy t') s) < slots (heavy t') s"
  shows "engine_inv (set_task t' s)"
proof -
  have ok: "tasks_ok s" using assms(1) by (simp add: engine_inv_def)
  have "(set_task t' s)\<lparr>en_running := insert (task_job t) (en_running s)\<rparr> = set_task t' s"
    using assms(6) by (simp add: set_task_def insert_absorb)
  then have "tasks_ok (set_task t' s)" using set_task_tasks_ok [OF ok assms(2-5)] by simp
  moreover have "heap_ok (set_task t' s)" using assms(1) by (simp add: engine_inv_def heap_ok_def)
  moreover have "apart (set_task t' s)"
    using assms(1,2,4,7) unfolding apart_def set_task_set [OF ok assms(2,3)] by (auto simp: engine_inv_def apart_def)
  moreover have "lanes_ok (set_task t' s)" unfolding lanes_ok_def
  proof
    fix h
    have "length (executing h s) \<le> slots h s" using assms(1) by (simp add: engine_inv_def lanes_ok_def)
    then show "length (executing h (set_task t' s)) \<le> slots h (set_task t' s)"
      using executing_set_task [OF ok, of h t'] assms(8) by (auto simp: slots_def split: if_splits)
  qed
  ultimately show ?thesis by (simp add: engine_inv_def)
qed

lemma start_inv:
  assumes "engine_inv s" and "task_in Created n s = Some t"
  shows "engine_inv (set_task (t\<lparr>pt_phase := Waiting, pt_start := now\<rparr>) (s\<lparr>en_running := insert (task_job t) (en_running s)\<rparr>))"
proof -
  let ?t = "t\<lparr>pt_phase := Waiting, pt_start := now\<rparr>" and ?s = "s\<lparr>en_running := insert (task_job t) (en_running s)\<rparr>"
  have t: "t \<in> set (en_tasks s)" "pt_phase t = Created" using task_in_Some [OF assms(2)] by auto
  have ok: "tasks_ok s" using assms(1) by (simp add: engine_inv_def)
  have eq: "set_task ?t ?s = (set_task ?t s)\<lparr>en_running := insert (task_job t) (en_running s)\<rparr>" by (simp add: set_task_def)
  have "tasks_ok (set_task ?t ?s)" unfolding eq using t by (intro set_task_tasks_ok [OF ok]) simp_all
  moreover have "heap_ok (set_task ?t ?s)" using assms(1) by (simp add: engine_inv_def heap_ok_def)
  moreover have "apart (set_task ?t ?s)"
    using assms(1) t set_task_set [OF ok t(1), of ?t] unfolding eq by (auto simp: engine_inv_def apart_def)
  moreover have "lanes_ok (set_task ?t ?s)"
    by (rule lanes_ok_le [of s])
      (use assms(1) executing_set_task [OF ok, of _ ?t] in \<open>simp_all add: engine_inv_def slots_def executing_def set_task_def\<close>)
  ultimately show ?thesis by (simp add: engine_inv_def)
qed

lemma acquire_inv:
  assumes "engine_inv s" and "task_in Waiting n s = Some t" and "length (executing (heavy t) s) < slots (heavy t) s"
  shows "engine_inv (set_task (t\<lparr>pt_phase := Executing\<rparr>) s)"
proof -
  have t: "t \<in> set (en_tasks s)" "pt_phase t = Waiting" using task_in_Some [OF assms(2)] by auto
  then have "task_job t \<in> en_running s" using assms(1) by (auto simp: engine_inv_def tasks_ok_def)
  then show ?thesis using assms t by (intro set_task_inv) (auto simp: heavy_def)
qed

lemma reschedule_inv:
  assumes "engine_inv s" and "task_job t \<notin> set (heap_ids s)"
    and "\<forall>u \<in> set (en_tasks s). task_job u = task_job t \<longrightarrow> pt_phase u = Reporting"
  shows "engine_inv (reschedule t s)"
proof (cases "0 < jd_interval (sj_job (pt_sj t))")
  case True
  let ?x = "scheduled (pt_start t + of_int (jd_interval (sj_job (pt_sj t)))) (sj_job (pt_sj t)) (sj_profile (pt_sj t))"
  have eq: "reschedule t s = s\<lparr>en_heap := push ?x (en_heap s)\<rparr>" using True by (simp add: reschedule_def Let_def)
  have "heap_ok (reschedule t s)" unfolding eq
    using assms(1,2) by (auto simp: engine_inv_def heap_ok_def intro: heappush_heap)
  moreover have "apart (reschedule t s)" unfolding eq
    using assms(1,3) by (auto simp: engine_inv_def apart_def)
  moreover have "lanes_ok (reschedule t s)" unfolding eq
    by (rule lanes_okI [of s]) (use assms(1) in \<open>simp_all add: engine_inv_def executing_def slots_def\<close>)
  ultimately show ?thesis using assms(1) by (simp add: engine_inv_def tasks_ok_def eq)
qed (use assms(1) in \<open>simp add: reschedule_def Let_def\<close>)

lemma same_job:
  assumes "tasks_ok s" and "t \<in> set (en_tasks s)" and "u \<in> set (en_tasks s)" and "task_job u = task_job t"
  shows "u = t"
  using assms by (auto simp: tasks_ok_def distinct_map inj_on_def)

lemma finish_inv:
  assumes "engine_inv s" and "task_in Executing n s = Some t"
  shows "engine_inv (finish_task r t s)"
proof -
  have t: "t \<in> set (en_tasks s)" "pt_phase t = Executing" using task_in_Some [OF assms(2)] by auto
  have ok: "tasks_ok s" and h: "task_job t \<notin> set (heap_ids s)" and run: "task_job t \<in> en_running s"
    using assms(1) t by (auto simp: engine_inv_def apart_def tasks_ok_def)
  show ?thesis
  proof (cases r)
    case None
    have "finish_task r t s = reschedule t (end_task t s)"
      using None by (simp add: finish_task_def reschedule_def end_task_def Let_def)
    moreover have "\<forall>u \<in> set (en_tasks (end_task t s)). task_job u = task_job t \<longrightarrow> pt_phase u = Reporting"
      using same_job [OF ok t(1)] by (auto simp: end_task_set)
    ultimately show ?thesis using reschedule_inv [OF end_task_inv [OF assms(1) t(1)]] h by simp
  next
    case (Some x)
    let ?t = "t\<lparr>pt_phase := Reporting, pt_result := Some x\<rparr>"
    have "finish_task r t s = reschedule t (set_task ?t s)"
      using Some by (simp add: finish_task_def reschedule_def set_task_def Let_def)
    moreover have "engine_inv (set_task ?t s)" using assms(1) t run by (intro set_task_inv) auto
    moreover have "\<forall>u \<in> set (en_tasks (set_task ?t s)). task_job u = task_job t \<longrightarrow> pt_phase u = Reporting"
      using same_job [OF ok t(1)] set_task_set [OF ok t(1), of ?t] by auto
    ultimately show ?thesis using reschedule_inv [of "set_task ?t s" t] h by simp
  qed
qed

lemma submit_inv: "engine_inv s \<Longrightarrow> engine_inv (submit_result ok t s)"
proof -
  assume inv: "engine_inv s"
  have "lanes_ok (submit_result ok t s)"
    by (rule lanes_okI [of s]) (use inv in \<open>simp_all add: engine_inv_def submit_result_def executing_def slots_def split: option.splits\<close>)
  moreover have "apart (submit_result ok t s)"
    by (rule apart_mono [of s]) (use inv in \<open>simp_all add: engine_inv_def submit_result_def split: option.splits\<close>)
  ultimately show ?thesis
    using inv by (simp add: engine_inv_def submit_result_def heap_ok_def tasks_ok_def split: option.splits)
qed

lemma find_index_Some: "find_index x xs = Some i \<Longrightarrow> i < length xs \<and> xs ! i = x"
  by (induction xs arbitrary: i) (auto split: if_splits)

lemma trigger_inv:
  assumes "engine_inv s"
  shows "engine_inv (snd (trigger_job job_id s))"
proof (cases "find_index job_id (heap_ids s)")
  case (Some i)
  let ?h = "(en_heap s)[i := make_due (en_heap s ! i)]"
  have i: "i < length (en_heap s)" using find_index_Some [OF Some] by simp
  have m: "mset (heapify sj_next_deadline ?h) = mset ?h" by simp
  have ids: "map sj_job_id ?h = heap_ids s" using i by (simp add: map_update list_update_same_conv)
  have eq: "snd (trigger_job job_id s) = s\<lparr>en_heap := heapify sj_next_deadline ?h\<rparr>" using Some by (simp add: trigger_job_def)
  have e: "en_heap (snd (trigger_job job_id s)) = heapify sj_next_deadline ?h" using eq by simp
  have hids: "set (heap_ids (snd (trigger_job job_id s))) = set (heap_ids s)"
    unfolding e set_map same_mset(1) [OF m] by (simp only: set_map [symmetric] ids)
  have "\<forall>sj \<in> set ?h. sj_job_id sj = jd_job_id (sj_job sj)"
    using assms i set_update_subset_insert [of "en_heap s" i "make_due (en_heap s ! i)"] nth_mem [OF i]
    by (fastforce simp: engine_inv_def heap_ok_def)
  moreover have "distinct (heap_ids (snd (trigger_job job_id s)))"
    unfolding e same_mset(2) [OF m] ids using assms by (simp add: engine_inv_def heap_ok_def)
  ultimately have "heap_ok (snd (trigger_job job_id s))"
    unfolding heap_ok_def e same_mset(1) [OF m] by simp
  moreover have "apart (snd (trigger_job job_id s))"
    by (rule apart_mono [of s]) (use assms hids eq in \<open>simp_all add: engine_inv_def\<close>)
  moreover have "lanes_ok (snd (trigger_job job_id s))" unfolding eq
    by (rule lanes_okI [of s]) (use assms in \<open>simp_all add: engine_inv_def executing_def slots_def\<close>)
  ultimately show ?thesis using assms by (simp add: engine_inv_def tasks_ok_def eq)
qed (use assms in \<open>simp add: trigger_job_def\<close>)

lemma engine_step_inv:
  assumes "engine_inv s" and "engine_step hash e s = Some s'"
  shows "engine_inv s'"
proof (cases e)
  case (Refresh now answer)
  then show ?thesis using assms by (auto split: if_splits intro: refresh_inv)
next
  case (Dispatch now)
  then show ?thesis using assms dispatch_inv by (auto split: if_splits)
next
  case (StartTask n now)
  then show ?thesis using assms start_inv by auto
next
  case (Acquire n)
  then show ?thesis using assms acquire_inv by (auto simp: bind_eq_Some_conv split: if_splits)
next
  case (Finish n env w st now)
  then show ?thesis using assms finish_inv by auto
next
  case (Done n ok)
  then obtain t where t: "task_in Reporting n s = Some t" "s' = end_task t (submit_result ok t s)" using assms(2) by auto
  have "en_tasks (submit_result ok t s) = en_tasks s" by (simp add: submit_result_def split: option.splits)
  then show ?thesis using end_task_inv [OF submit_inv [OF assms(1)]] task_in_Some [OF t(1)] t(2) by simp
next
  case (Abort n)
  then show ?thesis using assms end_task_inv by (auto simp: find_Some_iff)
next
  case (Trigger j)
  then show ?thesis using assms trigger_inv by auto
next
  case StopEngine
  then have "s' = s\<lparr>en_running_flag := False\<rparr>" using assms(2) by simp
  moreover have "lanes_ok (s\<lparr>en_running_flag := False\<rparr>)"
    by (rule lanes_okI [of s]) (use assms(1) in \<open>simp_all add: engine_inv_def executing_def slots_def\<close>)
  moreover have "apart (s\<lparr>en_running_flag := False\<rparr>)"
    by (rule apart_mono [of s]) (use assms(1) in \<open>simp_all add: engine_inv_def\<close>)
  ultimately show ?thesis using assms(1) by (simp add: engine_inv_def heap_ok_def tasks_ok_def)
qed

interpretation poll: event_system "engine_step hash" engine_inv for hash
  by unfold_locales (rule engine_step_inv)

end
