(* ===== verification/Poll_Results.thy ===== *)
theory Poll_Results
  imports Poll_Props
begin

text \<open>
  What the poll engine guarantees: one execution of a job at a time within the lanes, dispatch and
  refresh against their specifications, classified results, closed connectors, and what a job
  keeps on its way from the cache node to a worker.
\<close>

section \<open>One execution at a time\<close>

lemma submit_frame [simp]:
  "en_light_slots (submit_result ok t s) = en_light_slots s" "en_heavy_slots (submit_result ok t s) = en_heavy_slots s"
  by (simp_all add: submit_result_def split: option.splits)

lemma finish_frame [simp]:
  "en_light_slots (finish_task r t s) = en_light_slots s" "en_heavy_slots (finish_task r t s) = en_heavy_slots s"
  by (simp_all add: finish_task_def reschedule_def Let_def split: option.splits)

lemma trigger_frame [simp]:
  "en_light_slots (snd (trigger_job j s)) = en_light_slots s" "en_heavy_slots (snd (trigger_job j s)) = en_heavy_slots s"
  by (simp_all add: trigger_job_def split: option.splits)

lemma dispatch_frame [simp]:
  "en_light_slots (dispatch_ready now s) = en_light_slots s" "en_heavy_slots (dispatch_ready now s) = en_heavy_slots s"
  by (simp_all add: dispatch_ready_def split: prod.splits)

lemma engine_step_slots:
  "engine_step hash e s = Some s' \<Longrightarrow> en_light_slots s' = en_light_slots s \<and> en_heavy_slots s' = en_heavy_slots s"
  by (cases e) (auto simp: bind_eq_Some_conv split: if_splits)

definition worker_inv :: "nat \<Rightarrow> nat \<Rightarrow> poll_engine \<Rightarrow> bool" where
  "worker_inv nl nh s \<longleftrightarrow> engine_inv s \<and> en_light_slots s = nl \<and> en_heavy_slots s = nh"

interpretation worker: event_system "engine_step hash" "worker_inv nl nh" for hash nl nh
  by unfold_locales (auto simp: worker_inv_def dest: engine_step_inv engine_step_slots)

lemma reachable_worker:
  "run_events (engine_step hash) es (init_engine nl nh) = Some s \<Longrightarrow> worker_inv nl nh s"
  by (rule worker.run_inv [of nl nh "init_engine nl nh"])
    (simp_all add: worker_inv_def init_engine_inv, simp add: init_engine_def)

definition poll_demo_run :: "poll_engine option" where
  "poll_demo_run = run_events (engine_step (\<lambda>_. 0))
     [Refresh 0 ([(demo_job, new_profile ''j1'')], {}), Dispatch 0, StartTask 0 0, Acquire 0] (init_engine 45 5)"

text \<open>
  C32: The poll engine never executes a job twice at a time.  In every state it can reach, whatever
  the order in which tasks start, finish, fail and report and whenever the job list is refreshed,
  no two tasks have the same job, and the executing light and heavy tasks are within their slots.
\<close>

theorem poll_one_execution_per_job:
  assumes "run_events (engine_step hash) es (init_engine nl nh) = Some s"
  shows "distinct (map (\<lambda>t. jd_job_id (sj_job (pt_sj t))) (en_tasks s)) \<and>
    length (executing False s) \<le> nl \<and> length (executing True s) \<le> nh"
proof -
  have w: "worker_inv nl nh s" by (rule reachable_worker [OF assms])
  then have "length (executing h s) \<le> slots h s" for h by (simp add: worker_inv_def engine_inv_def lanes_ok_def)
  from this [of False] this [of True] show ?thesis
    using w by (simp add: worker_inv_def engine_inv_def tasks_ok_def slots_def)
qed

lemma poll_demo_runs: "\<exists>s. poll_demo_run = Some s \<and> length (executing False s) = 1"
  by (simp add: poll_demo_run_def init_engine_def refresh_jobs_def rebuild_def existing_of_def refresh_deadline_def
      jitter_def apply_immediate_def heappush_def siftdown.simps dispatch_ready_def dispatch_loop.simps heappop_def
      scheduled_def create_task_def task_in_def set_task_def executing_def slots_def heavy_def new_profile_def demo_job_def)

theorem poll_one_execution_per_job_witness:
  "\<exists>s. poll_demo_run = Some s \<and> length (executing False s) = 1 \<and>
     distinct (map (\<lambda>t. jd_job_id (sj_job (pt_sj t))) (en_tasks s)) \<and> length (executing False s) \<le> 45 \<and> length (executing True s) \<le> 5"
  using poll_demo_runs poll_one_execution_per_job [of "\<lambda>_. 0"] unfolding poll_demo_run_def by blast

section \<open>Dispatch and refresh\<close>

lemma set_heapify: "set (heapify key h) = set h"
  by (rule mset_eq_setD) simp

text \<open>
  C33: A dispatch launches exactly the due jobs that are not running and leaves no due entry behind:
  the loop ends, a running job with an interval is put back later than now, and the heap still has
  its order.
\<close>

theorem poll_dispatch_exact:
  assumes "run_events (engine_step hash) es (init_engine nl nh) = Some s"
    and "dispatch_loop now (en_running s) (en_heap s) = (launched, h)"
  shows "set launched = {sj \<in> set (en_heap s). sj_next_deadline sj \<le> now \<and> sj_job_id sj \<notin> en_running s} \<and>
    distinct (map sj_job_id launched) \<and> list_all (\<lambda>sj. now < sj_next_deadline sj) h \<and> is_heap sj_next_deadline h"
proof -
  have e: "engine_inv s" using reachable_worker [OF assms(1)] by (simp add: worker_inv_def)
  then have hp: "is_heap sj_next_deadline (en_heap s)" and d: "distinct (heap_ids s)" by (auto simp: engine_inv_def heap_ok_def)
  note D = dispatch_loop_spec [OF hp assms(2)]
  have "set launched = set_mset (mset launched)" by simp
  then have "set launched = {sj \<in> set (en_heap s). due now sj \<and> sj_job_id sj \<notin> en_running s}" using D by auto
  moreover have "mset (map sj_job_id launched) \<subseteq># mset (heap_ids s)"
    using D by (simp add: image_mset_subseteq_mono)
  then have "distinct (map sj_job_id launched)" using d by (rule distinct_submset)
  moreover have "now < sj_next_deadline sj" if "sj \<in> set h" for sj
  proof -
    have "sj \<in># mset h" using that by simp
    then have "\<not> due now sj" using D by (auto simp: retry_deadline_def)
    then show ?thesis by simp
  qed
  ultimately show ?thesis using D by (simp add: list_all_iff)
qed

theorem poll_dispatch_exact_witness:
  "\<exists>s launched h. run_events (engine_step (\<lambda>_. 0)) [Refresh 0 ([(demo_job, new_profile ''j1'')], {})] (init_engine 45 5) = Some s \<and>
     dispatch_loop 0 (en_running s) (en_heap s) = (launched, h) \<and> distinct (map sj_job_id launched) \<and>
     set launched = {sj \<in> set (en_heap s). sj_next_deadline sj \<le> 0 \<and> sj_job_id sj \<notin> en_running s}"
proof -
  obtain s where s: "run_events (engine_step (\<lambda>_. 0)) [Refresh 0 ([(demo_job, new_profile ''j1'')], {})] (init_engine 45 5) = Some s"
    by (simp add: init_engine_def)
  obtain l h where "dispatch_loop 0 (en_running s) (en_heap s) = (l, h)" by (cases "dispatch_loop 0 (en_running s) (en_heap s)")
  then show ?thesis using s poll_dispatch_exact [OF s, of 0 l h] by blast
qed

text \<open>
  After a refresh the heap has exactly one entry for each job of the answer that is not running,
  and a job whose interval did not change keeps its deadline, unless it is to run at once.
\<close>

theorem poll_refresh_covers:
  assumes "distinct (map (\<lambda>p. jd_job_id (fst p)) pairs)" and "pairs \<noteq> []"
  shows "set (map sj_job_id (en_heap (refresh_jobs hash now (pairs, ids) s))) = (\<lambda>p. jd_job_id (fst p)) ` set pairs - en_running s \<and>
    distinct (map sj_job_id (en_heap (refresh_jobs hash now (pairs, ids) s))) \<and>
    (\<forall>job profile t. (job, profile) \<in> set pairs \<longrightarrow> jd_job_id job \<notin> en_running s \<longrightarrow> jd_job_id job \<notin> ids \<longrightarrow>
       existing_of (en_heap s) (jd_job_id job) = Some (t, jd_interval job) \<longrightarrow>
       scheduled t job profile \<in> set (en_heap (refresh_jobs hash now (pairs, ids) s)))"
proof -
  note R = rebuild_spec [OF assms(1), of hash now "en_running s" "existing_of (en_heap s)"]
  let ?r = "rebuild hash now (en_running s) (existing_of (en_heap s)) pairs"
  have eq: "en_heap (refresh_jobs hash now (pairs, ids) s) = apply_immediate ids ?r"
    using assms(2) by (simp add: refresh_jobs_def Let_def)
  have keep: "sj \<in> set (apply_immediate ids ?r)" if "sj \<in> set ?r" "sj_job_id sj \<notin> ids" for sj
  proof (cases "ids = {}")
    case False
    have "set (apply_immediate ids ?r) = (\<lambda>sj. if sj_job_id sj \<in> ids then make_due sj else sj) ` set ?r"
      using False by (simp add: apply_immediate_def set_heapify)
    moreover have "sj = (if sj_job_id sj \<in> ids then make_due sj else sj)" using that(2) by simp
    ultimately show ?thesis using that(1) by blast
  qed (use that in \<open>simp add: apply_immediate_def\<close>)
  have "scheduled t job profile \<in> set (apply_immediate ids ?r)"
    if "(job, profile) \<in> set pairs" "jd_job_id job \<notin> en_running s" "jd_job_id job \<notin> ids"
      "existing_of (en_heap s) (jd_job_id job) = Some (t, jd_interval job)" for job profile t
  proof (rule keep)
    have "refresh_deadline hash now (existing_of (en_heap s)) job = t" using that(4) by (simp add: refresh_deadline_def)
    then show "scheduled t job profile \<in> set ?r" unfolding R(3) using that(1,2) by blast
  qed (use that(3) in simp)
  then show ?thesis
    using refresh_ids [of "(pairs, ids)" hash now s] apply_immediate_spec(2) [OF R(1,2), of ids] assms eq by auto
qed

theorem poll_refresh_covers_witness:
  "let s = refresh_jobs (\<lambda>_. 0) 0 ([(demo_job, new_profile ''j1'')], {}) (init_engine 45 5)
   in set (map sj_job_id (en_heap s)) = (\<lambda>p. jd_job_id (fst p)) ` set [(demo_job, new_profile ''j1'')] - en_running (init_engine 45 5) \<and>
      distinct (map sj_job_id (en_heap s))"
  using poll_refresh_covers [of "[(demo_job, new_profile ''j1'')]" "\<lambda>_. 0" 0 "{}" "init_engine 45 5"] unfolding Let_def by simp

text \<open>
  A refresh drops the entry a job has put on the heap for its next run while its result is still
  being reported.
\<close>

lemma poll_refresh_during_report_drops:
  assumes "engine_inv s" and "t \<in> set (en_tasks s)" and "pt_phase t = Reporting"
    and "distinct (map (\<lambda>p. jd_job_id (fst p)) (fst answer))" and "fst answer \<noteq> []"
  shows "task_job t \<notin> set (heap_ids (refresh_jobs hash now answer s))"
proof -
  have "task_job t \<in> en_running s" using assms(1-3) by (auto simp: engine_inv_def tasks_ok_def)
  then show ?thesis using refresh_ids [OF assms(4,5), of hash now s] by simp
qed

text \<open>A call to the cache node that fails is answered with no jobs, and then the whole heap is cleared.\<close>

lemma poll_failed_call_clears_heap:
  "en_heap (refresh_jobs hash now (map decode_job (fst (get_my_jobs None)), snd (get_my_jobs None)) s) = []"
  by (simp add: get_my_jobs_def refresh_jobs_def)

section \<open>Results\<close>

lemma connect_one_phase: "connect_one env host b phase = (p, e) \<Longrightarrow> p = phase \<or> p = ConnectPhase"
  by (auto simp: connect_one_def split: sum.splits)

lemma connect_all_phase: "connect_all env host bs phase conns = (p, c, e) \<Longrightarrow> p = phase \<or> p = ConnectPhase"
  by (induction bs arbitrary: phase conns) (auto split: prod.splits option.splits dest!: connect_one_phase)

definition classified :: "poll_result \<Rightarrow> bool" where
  "classified r \<longleftrightarrow> pr_status r = ''ok'' \<or> pr_error_category r \<noteq> []"

lemma classified_simps [simp]:
  "classified (error_result job w now text ms ''device'')" "classified (error_result job w now text ms (category_of p))"
  "classified (with_category r)"
  by (simp_all add: classified_def error_result_def with_category_def) (cases p; simp)


definition demo_poll_env :: poll_env where
  "demo_poll_env = \<lparr>env_ensure_app = (\<lambda>_ _ _. Some (OtherExc ''ValueError: no app'')), env_credential = (\<lambda>_. Inr []),
     env_ensure_connector = (\<lambda>_ _ _. None), env_new_connector = (\<lambda>_ _. None), env_connect = (\<lambda>_ _. None),
     env_cache_client = None, env_setup = None, env_poll = (\<lambda>_. Inr None)\<rparr>"


text \<open>
  The phase is not set back between two connectors, so a second connector whose code cannot be
  loaded counts as a problem of the device.
\<close>

lemma poll_second_connector_misclassified:
  assumes "jd_connector_bindings job = [b1, b2]" and "env_ensure_app env (jd_app_id job) (jd_app_version job) (jd_app_checksum job) = None"
    and "jd_credential_names job = []" and "connect_one env (host_of job) b1 SetupPhase = (ConnectPhase, None)"
    and "env_ensure_connector env (cb_connector_id b2) (cb_connector_version_id b2) (cb_connector_checksum b2) = Some (OtherExc text)"
  shows "fst (execute_job env w start now job) =
    Some (with_start start (error_result job w now text (int_trunc ((now - start) * 1000)) ''device''))"
  using assms by (simp add: execute_job_def try_body_def guard_def connect_one_def [of env _ b2] Let_def)

section \<open>Connectors\<close>

fun connected :: "poll_env \<Rightarrow> string \<Rightarrow> connector_binding list \<Rightarrow> fail_phase \<Rightarrow> connector_binding list" where
  "connected env host [] phase = []"
| "connected env host (b # bs) phase =
     (case connect_one env host b phase of (p, None) \<Rightarrow> b # connected env host bs p | (_, Some _) \<Rightarrow> [])"

lemma dict_set_new: "k \<notin> set (dict_keys d) \<Longrightarrow> dict_set k v d = d @ [(k, v)]"
  by (induction d) auto

lemma connect_all_connected:
  "distinct (dict_keys conns @ map cb_connector_type bs) \<Longrightarrow>
   dict_values (fst (snd (connect_all env host bs phase conns))) = dict_values conns @ connected env host bs phase"
proof (induction bs arbitrary: phase conns)
  case (Cons b bs)
  obtain p e where p: "connect_one env host b phase = (p, e)" by (cases "connect_one env host b phase")
  then show ?case using Cons by (cases e) (simp_all add: dict_set_new)
qed simp

text \<open>
  Whatever happens in a run, the connectors closed at its end are exactly those whose
  connection was made, each once, when the job's bindings are of distinct types.
\<close>

theorem poll_connectors_closed:
  assumes "distinct (map cb_connector_type (jd_connector_bindings job))"
  shows "snd (execute_job env w start now job) =
    (case ebind (guard (env_ensure_app env (jd_app_id job) (jd_app_version job) (jd_app_checksum job)))
            (\<lambda>_. get_credentials env (jd_credential_names job) []) of
       Inl _ \<Rightarrow> []
     | Inr _ \<Rightarrow> connected env (host_of job) (jd_connector_bindings job) SetupPhase)"
proof -
  obtain p c e where c: "connect_all env (host_of job) (jd_connector_bindings job) SetupPhase [] = (p, c, e)"
    by (cases "connect_all env (host_of job) (jd_connector_bindings job) SetupPhase []")
  have "dict_values c = connected env (host_of job) (jd_connector_bindings job) SetupPhase"
    using connect_all_connected [of "[]" "jd_connector_bindings job" env "host_of job" SetupPhase] assms c by simp
  then show ?thesis using c by (auto simp: execute_job_def try_body_def Let_def split: sum.splits option.splits)
qed

theorem poll_connectors_closed_witness:
  "snd (execute_job demo_poll_env ''w'' 0 1 demo_job) = []"
  using poll_connectors_closed [of demo_job demo_poll_env "''w''" 0 1]
  by (simp add: demo_job_def demo_poll_env_def guard_def)

section \<open>From the cache node to the worker\<close>

definition wire_safe :: "job_definition \<Rightarrow> bool" where
  "wire_safe j \<longleftrightarrow> jd_enabled j \<and> jd_device_id j \<noteq> Some [] \<and> jd_device_host j \<noteq> Some [] \<and> jd_role j \<noteq> Some [] \<and>
     list_all (\<lambda>b. cb_credential_name b \<noteq> Some [] \<and> cb_settings b \<noteq> JNull) (jd_connector_bindings j)"

lemma or_none_empty [simp]: "s \<noteq> Some [] \<Longrightarrow> or_none (or_empty s) = s"
  by (auto simp: or_none_def or_empty_def split: option.splits)

lemma decode_encode_binding:
  "cb_credential_name b \<noteq> Some [] \<Longrightarrow> cb_settings b \<noteq> JNull \<Longrightarrow> decode_binding (encode_binding b) = b\<lparr>cb_connector_checksum := []\<rparr>"
  by (simp add: decode_binding_def encode_binding_def settings_or_empty_def)

text \<open>
  What a worker receives of a job is the job the cache node holds, but for the time of its last
  change, which the worker does not use, and the checksums of its connectors, which it does: the
  message has no field for them.
\<close>

theorem poll_job_over_grpc:
  assumes "encode_job f32 (j, p) = Some m" and "wire_safe j"
  shows "fst (decode_job m) =
      j\<lparr>jd_updated_at := [], jd_connector_bindings := map (\<lambda>b. b\<lparr>cb_connector_checksum := []\<rparr>) (jd_connector_bindings j)\<rparr> \<and>
    jp_avg_execution_time (snd (decode_job m)) = f32 (jp_avg_execution_time p) \<and> jp_is_heavy (snd (decode_job m)) = jp_is_heavy p"
proof -
  have "map (decode_binding \<circ> encode_binding) (jd_connector_bindings j) = map (\<lambda>b. b\<lparr>cb_connector_checksum := []\<rparr>) (jd_connector_bindings j)"
    using assms(2) by (auto simp: wire_safe_def list_all_iff decode_encode_binding)
  then show ?thesis
    using assms by (auto simp: encode_job_def decode_job_def wire_safe_def split: if_splits)
qed

theorem poll_job_over_grpc_witness:
  "fst (decode_job (the (encode_job id (demo_job, new_profile ''j1'')))) = demo_job\<lparr>jd_updated_at := [], jd_connector_bindings := []\<rparr>"
proof -
  obtain m where m: "encode_job id (demo_job, new_profile ''j1'') = Some m"
    by (simp add: encode_job_def int32_def demo_job_def)
  have "wire_safe demo_job" by (simp add: wire_safe_def demo_job_def)
  from poll_job_over_grpc [OF m this] show ?thesis using m by (simp add: demo_job_def)
qed

end
