(* ===== verification/Alert_Props.thy ===== *)
theory Alert_Props
  imports Alert_Engine
begin

text \<open>
  What an evaluation cycle does to an instance and to the database: the selected tier, the
  invariant of instances, the phase machine that every step refines and the shape of the alert
  log it produces, freshness, and the independence of the definitions from each other.
\<close>

section \<open>The selected tier\<close>

definition matched :: "tier_results \<Rightarrow> cell \<times> string \<Rightarrow> string option list" where
  "matched results key = map fst (filter (\<lambda>(s, fk). map_of fk key \<noteq> None) results)"

lemma matched_simps [simp]:
  "matched [] key = []"
  "matched ((s, fk) # rs) key = (case map_of fk key of None \<Rightarrow> matched rs key | Some _ \<Rightarrow> s # matched rs key)"
  by (simp_all add: matched_def split: option.splits)

lemma set_matched: "s \<in> set (matched results key) \<longleftrightarrow> (\<exists>fk. (s, fk) \<in> set results \<and> map_of fk key \<noteq> None)"
  by (force simp: matched_def)

lemma effective_step_pair:
  "effective_step key (s, fk) best =
     (case map_of fk key of
        Some fd \<Rightarrow> if rank (fst best) < rank s then (s, fd) else best
      | None \<Rightarrow> best)"
  by (simp add: effective_step_def compare_pos_iff split: option.splits)

lemma effective_fold:
  "fst (fold (effective_step key) results best) = alert_scale.select_max (fst best) (matched results key)"
proof (induction results arbitrary: best)
  case (Cons r rs)
  obtain s fk where r: "r = (s, fk)" by (cases r)
  show ?case
    unfolding r by (cases "map_of fk key") (simp_all add: Cons.IH effective_step_pair)
qed simp

lemma effective_select: "fst (effective results key) = alert_scale.select_max None (matched results key)"
  by (simp add: effective_def effective_fold)

lemma effective_data:
  "fold (effective_step key) results best = (s, fd) \<Longrightarrow>
   (s, fd) = best \<or> (\<exists>fk. (s, fk) \<in> set results \<and> map_of fk key = Some fd)"
proof (induction results arbitrary: best)
  case (Cons r rs)
  then have "(s, fd) = effective_step key r best \<or> (\<exists>fk. (s, fk) \<in> set rs \<and> map_of fk key = Some fd)"
    by (metis fold_simps(2))
  then show ?case
    by (cases r) (auto simp: effective_step_def split: option.splits if_splits)
qed simp

lemma effective_Some:
  assumes "effective results key = (Some s, fd)"
  shows "- 1 < rank (Some s)" and "\<exists>fk. (Some s, fk) \<in> set results \<and> map_of fk key = Some fd"
    and "\<And>s' fk. (s', fk) \<in> set results \<Longrightarrow> map_of fk key \<noteq> None \<Longrightarrow> rank s' \<le> rank (Some s)"
proof -
  have sel: "alert_scale.select_max None (matched results key) = Some s"
    using effective_select [of results key] assms by simp
  show "- 1 < rank (Some s)"
    using alert_scale.select_max_above [of "matched results key"] sel by simp
  show "\<exists>fk. (Some s, fk) \<in> set results \<and> map_of fk key = Some fd"
    using effective_data [of key results "(None, no_fire)" "Some s" fd] assms by (simp add: effective_def)
  show "rank s' \<le> rank (Some s)" if "(s', fk) \<in> set results" "map_of fk key \<noteq> None" for s' fk
    using that alert_scale.select_max_ge [of s' "matched results key" None] set_matched [of s' results key]
    by (auto simp: sel)
qed

lemma effective_None_iff:
  "fst (effective results key) = None \<longleftrightarrow>
   (\<forall>(s, fk) \<in> set results. map_of fk key \<noteq> None \<longrightarrow> rank s = - 1)"
proof -
  have "rank s \<le> - 1 \<longleftrightarrow> rank s = - 1" for s using rank_ge [of s] by linarith
  then show ?thesis
    by (fastforce simp: effective_select alert_scale.select_max_bottom_iff set_matched)
qed

section \<open>The phase machine\<close>

text \<open>
  The contract of an instance: it is quiet, or it fires at a severity for a number of cycles at
  that severity.  Each step carries the actions it logs.
\<close>

datatype phase = Quiet | Firing string int

inductive alert_step :: "phase \<Rightarrow> string list \<Rightarrow> phase \<Rightarrow> bool" where
  stay: "alert_step p [] p"
| fire: "0 \<le> rank (Some s) \<Longrightarrow> alert_step Quiet [''fire''] (Firing s 1)"
| again: "alert_step (Firing s n) [] (Firing s (n + 1))"
| escalate: "rank (Some s) < rank (Some s') \<Longrightarrow> alert_step (Firing s n) [''escalate''] (Firing s' 1)"
| downgrade: "0 \<le> rank (Some s') \<Longrightarrow> rank (Some s') < rank (Some s) \<Longrightarrow>
    alert_step (Firing s n) [''downgrade''] (Firing s' 1)"
| clear: "alert_step (Firing s n) [''clear''] Quiet"

inductive_cases alert_stepE: "alert_step p as q"

definition phase_of :: "alert_entity \<Rightarrow> phase" where
  "phase_of e = (case ae_severity e of
                   Some s \<Rightarrow> if ae_state e = ''firing'' then Firing s (ae_fire_count e) else Quiet
                 | None \<Rightarrow> Quiet)"

definition entity_ok :: "alert_entity \<Rightarrow> bool" where
  "entity_ok e \<longleftrightarrow>
     length (ae_fire_history e) \<le> 20 \<and>
     (if ae_state e = ''firing''
      then 0 \<le> rank (ae_severity e) \<and> 1 \<le> ae_fire_count e \<and>
           ae_current_state_since e \<noteq> None \<and> ae_started_firing_at e \<noteq> None \<and> ae_last_triggered_at e \<noteq> None
      else ae_severity e = None \<and> ae_fire_count e = 0)"

lemma build_log_record_action:
  "build_log_record env defn inst action tenants ce = Inr r \<Longrightarrow> lr_action r = action"
  by (auto simp: build_log_record_def Let_def split: prod.splits)

lemma push_history_le: "length (ae_fire_history (push_history b e)) \<le> 20"
  by (simp add: push_history_def)

lemma refresh_sel [simp]:
  "ae_fire_history (refresh_from_healthy fk e) = ae_fire_history e"
  "ae_state (refresh_from_healthy fk e) = ae_state e"
  "ae_severity (refresh_from_healthy fk e) = ae_severity e"
  "ae_fire_count (refresh_from_healthy fk e) = ae_fire_count e"
  "ae_definition_id (refresh_from_healthy fk e) = ae_definition_id e"
  "ae_enabled (refresh_from_healthy fk e) = ae_enabled e"
  "ae_assignment_id (refresh_from_healthy fk e) = ae_assignment_id e"
  "ae_entity_key (refresh_from_healthy fk e) = ae_entity_key e"
  by (auto simp: refresh_from_healthy_def split: option.splits)

lemmas instance_defs = push_history_def set_resolved_def record_fire_def

text \<open>A step of the loop refines a step of the machine and keeps the invariant.\<close>

lemma step_unmatched_cases:
  assumes "step_unmatched env defn tenants healthy e = Inr (e', rs)"
  obtains (same) "e' = e" "rs = []"
  | (idle) "healthy = None" "ae_state e \<noteq> ''firing''" "e' = push_history False e" "rs = []"
  | (clear) r where "ae_state e = ''firing''" "rs = [r]" "lr_action r = ''clear''"
      "ae_state e' = ''resolved''" "ae_severity e' = None" "ae_fire_count e' = 0"
      "length (ae_fire_history e') \<le> 20" "ae_last_cleared_at e' = Some (env_now env)"
proof (cases healthy)
  case None
  show thesis
  proof (cases "ae_state e = ''firing''")
    case True
    then show thesis
      using assms None clear
      by (auto simp: step_unmatched_def Let_def instance_defs refresh_from_healthy_def
          dest!: build_log_record_action)
  qed (use assms None idle in \<open>simp add: step_unmatched_def Let_def\<close>)
next
  case (Some h)
  obtain ex fk where h: "h = (ex, fk)" by (cases h)
  show thesis
  proof (cases "map_of fk (inst_key e) \<noteq> None \<and> ae_state e = ''firing''")
    case True
    then obtain r where r: "build_log_record env defn (refresh_from_healthy fk
        ((set_resolved (env_now env) (push_history False e))\<lparr>ae_current_state_since := None\<rparr>)) ''clear'' tenants ex = Inr r"
      and e': "e' = refresh_from_healthy fk
        ((set_resolved (env_now env) (push_history False e))\<lparr>ae_current_state_since := None\<rparr>)" and rs: "rs = [r]"
      using assms Some h by (auto simp: step_unmatched_def Let_def)
    show thesis
      by (rule clear [of r])
        (use True rs build_log_record_action [OF r] in
          \<open>auto simp: e' instance_defs refresh_from_healthy_def split: option.splits\<close>)
  next
    case False
    then have "e' = e \<and> rs = []" using assms Some h by (auto simp: step_unmatched_def Let_def)
    then show thesis using same by simp
  qed
qed

lemma step_unmatched_refines:
  assumes "step_unmatched env defn tenants healthy e = Inr (e', rs)" and ok: "entity_ok e"
  shows "alert_step (phase_of e) (map lr_action rs) (phase_of e') \<and> entity_ok e'"
  using assms(1)
proof (cases rule: step_unmatched_cases)
  case same
  then show ?thesis using ok by (simp add: alert_step.stay)
next
  case idle
  then have "phase_of e' = phase_of e" by (simp add: phase_of_def push_history_def split: option.splits)
  then show ?thesis using idle ok by (simp add: alert_step.stay entity_ok_def push_history_def)
next
  case (clear r)
  then obtain s where "phase_of e = Firing s (ae_fire_count e)"
    using ok by (cases "ae_severity e") (auto simp: entity_ok_def phase_of_def)
  then show ?thesis using clear by (simp add: phase_of_def entity_ok_def alert_step.clear)
qed

lemma step_matched_cases:
  assumes "step_matched env defn tenants sev fd e = Inr (e', rs)"
  shows "ae_state e' = ''firing'' \<and> length (ae_fire_history e') \<le> 20 \<and>
     ae_last_triggered_at e' = Some (env_now env) \<and>
     (if ae_state e \<noteq> ''firing'' then
        ae_severity e' = sev \<and> ae_fire_count e' = 1 \<and> map lr_action rs = [''fire''] \<and>
        ae_started_firing_at e' = Some (env_now env) \<and> ae_current_state_since e' = Some (env_now env)
      else ae_started_firing_at e' = ae_started_firing_at e \<and>
        (if rank sev = rank (ae_severity e) then
           ae_severity e' = ae_severity e \<and> ae_fire_count e' = ae_fire_count e + 1 \<and> rs = [] \<and>
           ae_current_state_since e' = ae_current_state_since e
         else ae_severity e' = sev \<and> ae_fire_count e' = 1 \<and>
           ae_current_state_since e' = Some (env_now env) \<and>
           map lr_action rs = [if rank (ae_severity e) < rank sev then ''escalate'' else ''downgrade'']))"
proof (cases "ae_state e = ''firing''")
  case True
  show ?thesis
  proof (cases "rank sev = rank (ae_severity e)")
    case False
    then obtain r where
      "build_log_record env defn ((record_fire (env_now env) fd (push_history True e))
          \<lparr>ae_severity := sev, ae_current_state_since := Some (env_now env), ae_fire_count := 1\<rparr>)
        (if rank (ae_severity e) < rank sev then ''escalate'' else ''downgrade'') tenants [] = Inr r"
      "e' = (record_fire (env_now env) fd (push_history True e))
          \<lparr>ae_severity := sev, ae_current_state_since := Some (env_now env), ae_fire_count := 1\<rparr>" "rs = [r]"
      using assms True by (auto simp: step_matched_def Let_def compare_severity_def)
    then show ?thesis
      using True False by (auto dest!: build_log_record_action simp: instance_defs)
  qed (use assms True in \<open>auto simp: step_matched_def Let_def compare_severity_def instance_defs\<close>)
next
  case False
  then show ?thesis
    using assms by (auto simp: step_matched_def Let_def instance_defs dest!: build_log_record_action)
qed

lemma step_matched_refines:
  assumes "step_matched env defn tenants (Some s) fd e = Inr (e', rs)" and ok: "entity_ok e" and s: "0 \<le> rank (Some s)"
  shows "alert_step (phase_of e) (map lr_action rs) (phase_of e') \<and> entity_ok e'"
proof (cases "ae_state e = ''firing''")
  case False
  then have "phase_of e = Quiet" by (simp add: phase_of_def split: option.splits)
  then show ?thesis
    using step_matched_cases [OF assms(1)] False s by (simp add: phase_of_def entity_ok_def alert_step.fire)
next
  case True
  then obtain p where p: "ae_severity e = Some p" "phase_of e = Firing p (ae_fire_count e)"
    using ok by (cases "ae_severity e") (auto simp: entity_ok_def phase_of_def)
  have inv: "1 \<le> ae_fire_count e" "0 \<le> rank (Some p)" "ae_started_firing_at e \<noteq> None" "ae_current_state_since e \<noteq> None"
    using ok True p(1) by (simp_all add: entity_ok_def)
  note c = step_matched_cases [OF assms(1)]
  consider "rank (Some p) < rank (Some s)" | "rank (Some s) < rank (Some p)" | "rank (Some s) = rank (Some p)"
    by linarith
  then show ?thesis
  proof cases
    case 1
    then show ?thesis using c True p inv s by (simp add: phase_of_def entity_ok_def alert_step.escalate)
  next
    case 2
    then show ?thesis using c True p inv s by (simp add: phase_of_def entity_ok_def alert_step.downgrade)
  next
    case 3
    then show ?thesis using c True p inv by (simp add: phase_of_def entity_ok_def alert_step.again)
  qed
qed

lemma entity_ok_evaluated [simp]: "entity_ok (e\<lparr>ae_last_evaluated_at := t\<rparr>) = entity_ok e"
  by (simp add: entity_ok_def)

lemma phase_of_evaluated [simp]: "phase_of (e\<lparr>ae_last_evaluated_at := t\<rparr>) = phase_of e"
  by (simp add: phase_of_def split: option.splits)

lemma step_instance_refines:
  assumes "step_instance env defn tenants fresh results healthy e = Inr (e', rs)" and ok: "entity_ok e"
  shows "alert_step (phase_of e) (map lr_action rs) (phase_of e')" and "entity_ok e'"
proof -
  obtain sev fd where eff: "effective results (inst_key e) = (sev, fd)" by fastforce
  have "alert_step (phase_of e) (map lr_action rs) (phase_of e') \<and> entity_ok e'"
  proof (cases "ae_assignment_id e \<notin> set fresh")
    case True
    then show ?thesis using assms by (auto simp: step_instance_def intro: alert_step.intros)
  next
    case False
    show ?thesis
    proof (cases sev)
      case None
      then show ?thesis
        using assms False eff step_unmatched_refines [of env defn tenants healthy "e\<lparr>ae_last_evaluated_at := Some (env_now env)\<rparr>" e' rs]
        by (simp add: step_instance_def)
    next
      case (Some s)
      then show ?thesis
        using assms False eff effective_Some(1) [of results "inst_key e" s fd]
          step_matched_refines [of env defn tenants s fd "e\<lparr>ae_last_evaluated_at := Some (env_now env)\<rparr>" e' rs]
        by (simp add: step_instance_def)
    qed
  qed
  then show "alert_step (phase_of e) (map lr_action rs) (phase_of e')" "entity_ok e'" by auto
qed

section \<open>Runs of the machine and the shape of the log\<close>

inductive alert_run :: "phase \<Rightarrow> string list \<Rightarrow> phase \<Rightarrow> bool" where
  run_refl: "alert_run p [] p"
| run_step: "alert_step p as q \<Longrightarrow> alert_run q bs r \<Longrightarrow> alert_run p (as @ bs) r"

lemma alert_run_trans: "alert_run p as q \<Longrightarrow> alert_run q bs r \<Longrightarrow> alert_run p (as @ bs) r"
proof (induction rule: alert_run.induct)
  case (run_step p as q cs r')
  then show ?case using alert_run.run_step [of p as q "cs @ bs" r] by simp
qed simp

lemma alert_run_one: "alert_step p as q \<Longrightarrow> alert_run p as q"
  using run_step [of p as q "[]" q] by (simp add: run_refl)

text \<open>\<open>fire (escalate | downgrade)* clear\<close>, repeated; the flag says whether the alert fires.\<close>

fun log_shape :: "bool \<Rightarrow> string list \<Rightarrow> bool" where
  "log_shape firing [] = True"
| "log_shape False (a # as) \<longleftrightarrow> a = ''fire'' \<and> log_shape True as"
| "log_shape True (a # as) \<longleftrightarrow>
     (a = ''escalate'' \<or> a = ''downgrade'') \<and> log_shape True as \<or> a = ''clear'' \<and> log_shape False as"

fun fires_after :: "bool \<Rightarrow> string list \<Rightarrow> bool" where
  "fires_after firing [] = firing"
| "fires_after firing (a # as) = fires_after (a \<noteq> ''clear'') as"

lemma alert_run_shape:
  "alert_run p as q \<Longrightarrow> log_shape (p \<noteq> Quiet) as \<and> fires_after (p \<noteq> Quiet) as = (q \<noteq> Quiet)"
proof (induction rule: alert_run.induct)
  case (run_step p as q bs r)
  from run_step.hyps(1) run_step.IH show ?case by cases auto
qed simp

section \<open>The records of one definition\<close>

definition log_key :: "alert_entity \<Rightarrow> string \<times> string" where
  "log_key e = (ae_definition_id e, ae_assignment_id e)"

definition log_of :: "string \<times> string \<Rightarrow> log_record list \<Rightarrow> log_record list" where
  "log_of k rs = filter (\<lambda>r. (lr_definition_id r, lr_assignment_id r) = k) rs"

lemma log_of_append [simp]: "log_of k (xs @ ys) = log_of k xs @ log_of k ys"
  by (simp add: log_of_def)

lemma log_of_Nil [simp]: "log_of k [] = []"
  by (simp add: log_of_def)

definition same_row :: "alert_entity \<Rightarrow> alert_entity \<Rightarrow> bool" where
  "same_row e e' \<longleftrightarrow> ae_definition_id e' = ae_definition_id e \<and> ae_assignment_id e' = ae_assignment_id e \<and>
     ae_enabled e' = ae_enabled e \<and> ae_entity_key e' = ae_entity_key e"

definition follows :: "log_record list \<Rightarrow> alert_entity \<Rightarrow> alert_entity \<Rightarrow> bool" where
  "follows rs e e' \<longleftrightarrow> same_row e e' \<and>
     (entity_ok e \<longrightarrow> entity_ok e' \<and> alert_run (phase_of e) (map lr_action (log_of (log_key e) rs)) (phase_of e'))"

lemma same_row_key: "same_row e e' \<Longrightarrow> log_key e' = log_key e"
  by (simp add: same_row_def log_key_def)

lemma follows_refl: "log_of (log_key e) rs = [] \<Longrightarrow> follows rs e e"
  by (simp add: follows_def same_row_def run_refl)

lemma follows_trans: "follows rs e e' \<Longrightarrow> follows rs' e' e'' \<Longrightarrow> follows (rs @ rs') e e''"
  using alert_run_trans by (auto simp: follows_def same_row_def log_key_def)

lemma build_log_record_key:
  "build_log_record env defn inst action tenants ce = Inr r \<Longrightarrow>
   lr_definition_id r = ad_id defn \<and> lr_assignment_id r = ae_assignment_id inst"
  by (auto simp: build_log_record_def Let_def split: prod.splits)

lemma step_unmatched_row:
  "step_unmatched env defn tenants healthy e = Inr (e', rs) \<Longrightarrow> same_row e e' \<and>
   (\<forall>r \<in> set rs. lr_definition_id r = ad_id defn \<and> lr_assignment_id r = ae_assignment_id e)"
  by (auto simp: step_unmatched_def Let_def same_row_def instance_defs dest!: build_log_record_key
      split: option.splits if_splits prod.splits)

lemma step_matched_row:
  "step_matched env defn tenants s fd e = Inr (e', rs) \<Longrightarrow> same_row e e' \<and>
   (\<forall>r \<in> set rs. lr_definition_id r = ad_id defn \<and> lr_assignment_id r = ae_assignment_id e)"
  by (auto simp: step_matched_def Let_def same_row_def instance_defs dest!: build_log_record_key
      split: if_splits)

lemma step_instance_row:
  assumes "step_instance env defn tenants fresh results healthy e = Inr (e', rs)"
  shows "same_row e e'"
    and "\<forall>r \<in> set rs. lr_definition_id r = ad_id defn \<and> lr_assignment_id r = ae_assignment_id e"
proof -
  let ?e = "e\<lparr>ae_last_evaluated_at := Some (env_now env)\<rparr>"
  have "same_row e e' \<and> (\<forall>r \<in> set rs. lr_definition_id r = ad_id defn \<and> lr_assignment_id r = ae_assignment_id e)"
    using assms step_unmatched_row [of env defn tenants healthy ?e e' rs]
      step_matched_row [of env defn tenants _ _ ?e e' rs]
    by (auto simp: step_instance_def same_row_def Let_def split: if_splits prod.splits)
  then show "same_row e e'"
    "\<forall>r \<in> set rs. lr_definition_id r = ad_id defn \<and> lr_assignment_id r = ae_assignment_id e" by auto
qed

lemma log_of_own: "\<forall>r \<in> set rs. lr_definition_id r = d \<and> lr_assignment_id r = a \<Longrightarrow> log_of (d, a) rs = rs"
  by (simp add: log_of_def)

lemma log_of_other: "\<forall>r \<in> set rs. (lr_definition_id r, lr_assignment_id r) \<noteq> k \<Longrightarrow> log_of k rs = []"
  by (auto simp: log_of_def filter_empty_conv)

text \<open>Stepping all instances gives every instance its own records and no others.\<close>

lemma step_all_records:
  assumes "step_all (step_instance env defn tenants fresh results healthy) es = Inr (es', rs)"
  shows "\<forall>r \<in> set rs. lr_definition_id r = ad_id defn \<and> lr_assignment_id r \<in> ae_assignment_id ` set es"
  using assms
proof (induction es arbitrary: es' rs)
  case (Cons e es)
  then show ?case by (fastforce dest: step_instance_row(2))
qed simp

lemma step_all_follows:
  assumes "step_all (step_instance env defn tenants fresh results healthy) es = Inr (es', rs)"
    and "distinct (map log_key es)" and "\<forall>e \<in> set es. ae_definition_id e = ad_id defn"
  shows "list_all2 (follows rs) es es'"
  using assms
proof (induction es arbitrary: es' rs)
  case (Cons e es)
  from Cons.prems(1) obtain e1 r1 es1 rs1
    where one: "step_instance env defn tenants fresh results healthy e = Inr (e1, r1)"
      and rest: "step_all (step_instance env defn tenants fresh results healthy) es = Inr (es1, rs1)"
      and eq: "es' = e1 # es1" "rs = r1 @ rs1" by auto
  have IH: "list_all2 (follows rs1) es es1" using Cons.IH [OF rest] Cons.prems by simp
  have k: "log_key e = (ad_id defn, ae_assignment_id e)" using Cons.prems(3) by (simp add: log_key_def)
  have own: "log_of (log_key e) r1 = r1" unfolding k by (rule log_of_own [OF step_instance_row(2) [OF one]])
  have "log_key e \<noteq> (lr_definition_id r, lr_assignment_id r)" if "r \<in> set rs1" for r
  proof -
    obtain x where "x \<in> set es" "lr_assignment_id r = ae_assignment_id x" "lr_definition_id r = ad_id defn"
      using step_all_records [OF rest] \<open>r \<in> set rs1\<close> by auto
    then have "log_key x = (lr_definition_id r, lr_assignment_id r)"
      using Cons.prems(3) by (simp add: log_key_def)
    moreover have "log_key x \<noteq> log_key e" using Cons.prems(2) \<open>x \<in> set es\<close> by (metis distinct.simps(2) image_eqI list.set_map list.simps(9))
    ultimately show ?thesis by simp
  qed
  then have none: "log_of (log_key e) rs1 = []" by (intro log_of_other ballI) metis
  have other: "log_of (log_key x) r1 = []" if "x \<in> set es" for x
    using step_instance_row(2) [OF one] Cons.prems(2,3) that
    by (intro log_of_other) (auto simp: log_key_def image_iff)
  have "follows rs e e1"
    using step_instance_refines [OF one] step_instance_row(1) [OF one]
    by (simp add: follows_def eq own none alert_run_one)
  moreover have "list_all2 (follows rs) es es1"
    using IH other by (auto simp: eq follows_def list_all2_conv_all_nth)
  ultimately show ?case by (simp add: eq)
qed simp

section \<open>One definition against the database\<close>

text \<open>The queries only ever touch the labels of an instance.\<close>

definition relabelled :: "alert_entity \<Rightarrow> alert_entity \<Rightarrow> bool" where
  "relabelled e e' \<longleftrightarrow> (\<exists>l. e' = e\<lparr>ae_entity_labels := l\<rparr>)"

lemma relabelled_refl [simp]: "relabelled e e"
  unfolding relabelled_def by (rule exI [of _ "ae_entity_labels e"]) simp

lemma relabelled_trans: "relabelled a b \<Longrightarrow> relabelled b c \<Longrightarrow> relabelled a c"
  by (auto simp: relabelled_def)

lemma relabelled_all_trans:
  "list_all2 relabelled as bs \<Longrightarrow> list_all2 relabelled bs cs \<Longrightarrow> list_all2 relabelled as cs"
  by (rule list_all2_trans [of relabelled relabelled relabelled]) (auto intro: relabelled_trans)

lemma relabelled_all_refl [simp]: "list_all2 relabelled es es"
  by (simp add: list_all2_refl)

lemma relabelled_update: "list_all2 relabelled es (es[i := (es ! i)\<lparr>ae_entity_labels := l\<rparr>])"
proof -
  have "relabelled (es ! j) (es[i := (es ! i)\<lparr>ae_entity_labels := l\<rparr>] ! j)" if "j < length es" for j
    by (cases "i = j") (use that in \<open>auto simp: relabelled_def intro: relabelled_refl [unfolded relabelled_def]\<close>)
  then show ?thesis by (simp add: list_all2_conv_all_nth)
qed

lemma config_changed_row_relabels:
  "list_all2 relabelled (snd s) (snd (config_changed_row lookup row s))"
  by (cases s)
    (auto simp: config_changed_row_def Let_def relabelled_update split: option.splits prod.splits)

lemma config_changed_relabels: "list_all2 relabelled es (snd (evaluate_config_changed env es key))"
proof -
  have "list_all2 relabelled (snd s) (snd (fold (config_changed_row lookup) rows s))" for lookup rows s
  proof (induction rows arbitrary: s)
    case (Cons row rows)
    show ?case
      using relabelled_all_trans [OF config_changed_row_relabels Cons.IH] by simp
  qed simp
  from this [of "([], es)"] show ?thesis
    by (simp add: evaluate_config_changed_def split: sum.splits)
qed

lemma run_tiers_relabels:
  "run_tiers env is_cc vars ts es = Inr (results, es') \<Longrightarrow> list_all2 relabelled es es'"
proof (induction ts arbitrary: es results)
  case (Cons t ts)
  obtain sev compiled where t: "t = (sev, compiled)" by (cases t)
  show ?case
  proof (cases is_cc)
    case True
    then show ?thesis
      using Cons.prems Cons.IH config_changed_relabels [of es env "config_key_of compiled"]
      by (fastforce simp: t Let_def split: prod.splits intro: relabelled_all_trans)
  next
    case False
    then show ?thesis using Cons.prems Cons.IH by (auto simp: t)
  qed
qed simp

lemma run_healthy_relabels: "list_all2 relabelled es (snd (run_healthy env is_cc vars healthy es))"
proof (cases healthy)
  case (Some h)
  obtain ex compiled where h: "h = (ex, compiled)" by (cases h)
  show ?thesis
    using config_changed_relabels [of es env "config_key_of compiled"]
    by (cases "evaluate_config_changed env es (config_key_of compiled)")
      (simp add: run_healthy_def Some h Let_def split: sum.splits)
qed (simp add: run_healthy_def)

lemma relabelled_keeps:
  "relabelled e e' \<Longrightarrow> same_row e e' \<and> entity_ok e' = entity_ok e \<and> phase_of e' = phase_of e \<and> log_key e' = log_key e"
proof -
  assume "relabelled e e'"
  then obtain l where "e' = e\<lparr>ae_entity_labels := l\<rparr>" unfolding relabelled_def ..
  then show ?thesis
    by (simp add: same_row_def entity_ok_def phase_of_def log_key_def split: option.split)
qed

lemma relabelled_map_key: "list_all2 relabelled es es' \<Longrightarrow> map log_key es' = map log_key es"
  by (induction rule: list_all2_induct) (auto simp: relabelled_keeps)

lemma relabelled_definition:
  "list_all2 relabelled es es' \<Longrightarrow> \<forall>e \<in> set es. ae_definition_id e = d \<Longrightarrow> \<forall>e \<in> set es'. ae_definition_id e = d"
  by (induction rule: list_all2_induct) (auto dest: relabelled_keeps simp: same_row_def)

lemma relabelled_follows:
  "list_all2 relabelled es es1 \<Longrightarrow> list_all2 (follows rs) es1 es2 \<Longrightarrow> list_all2 (follows rs) es es2"
  by (rule list_all2_trans [of relabelled "follows rs" "follows rs"])
    (auto simp: follows_def same_row_def log_key_def dest: relabelled_keeps)

lemma follows_all_refl: "list_all2 (follows []) es es"
  by (simp add: list_all2_refl follows_refl)

definition unique_keys :: "alert_entity list \<Rightarrow> bool" where
  "unique_keys es \<longleftrightarrow> distinct (map log_key es)"

lemma distinct_map_filter_key: "distinct (map f xs) \<Longrightarrow> distinct (map f (filter P xs))"
  by (induction xs) auto

lemma evaluate_definition_follows:
  assumes "evaluate_definition env db defn = Inr (es', rs)" and "unique_keys (db_entities db)"
  shows "list_all2 (follows rs) (filter (own_entity (ad_id defn)) (db_entities db)) es'"
    and "\<forall>r \<in> set rs. \<exists>e \<in> set (filter (own_entity (ad_id defn)) (db_entities db)).
           log_key e = (lr_definition_id r, lr_assignment_id r)"
proof -
  let ?es = "filter (own_entity (ad_id defn)) (db_entities db)"
  have d: "\<forall>e \<in> set ?es. ae_definition_id e = ad_id defn" by (simp add: own_entity_def)
  have u: "distinct (map log_key ?es)"
    using assms(2) by (simp add: unique_keys_def distinct_map_filter_key)
  have "es' = ?es \<and> rs = [] \<or>
    (\<exists>tenants fresh results healthy es2. list_all2 relabelled ?es es2 \<and>
       step_all (step_instance env defn tenants fresh results healthy) es2 = Inr (es', rs))"
  proof -
    from assms(1) obtain c where c: "compile_tiers (ad_target_table defn) (ad_window defn) (ad_severity_tiers defn) [] None = Inr c"
      by (auto simp: evaluate_definition_def Let_def)
    show ?thesis
    proof (cases "c = None \<or> (\<exists>h. c = Some ([], h)) \<or> ?es = []")
      case True
      then show ?thesis
        using assms(1) c by (auto simp: evaluate_definition_def Let_def split: option.splits list.splits)
    next
      case False
      then obtain ct cts h where c': "c = Some (ct # cts, h)"
        by (metis list.exhaust option.exhaust surj_pair)
      from assms(1) False obtain is_cc vars results es1 tenants fresh healthy es2
        where "run_tiers env is_cc vars (ct # cts) ?es = Inr (results, es1)"
          and "run_healthy env is_cc vars h es1 = (healthy, es2)"
          and "step_all (step_instance env defn tenants fresh results healthy) es2 = Inr (es', rs)"
        by (auto simp: evaluate_definition_def c c' Let_def simp del: run_tiers.simps split: prod.splits)
      moreover from calculation have "list_all2 relabelled ?es es2"
        by (metis relabelled_all_trans run_healthy_relabels run_tiers_relabels snd_conv)
      ultimately show ?thesis by blast
    qed
  qed
  then consider "es' = ?es" "rs = []"
    | tenants fresh results healthy es2 where "list_all2 relabelled ?es es2"
       "step_all (step_instance env defn tenants fresh results healthy) es2 = Inr (es', rs)" by blast
  then have "list_all2 (follows rs) ?es es' \<and> (\<forall>r \<in> set rs. \<exists>e \<in> set ?es. log_key e = (lr_definition_id r, lr_assignment_id r))"
  proof cases
    case 1
    then show ?thesis using follows_all_refl by simp
  next
    case 2
    have m: "map log_key es2 = map log_key ?es" using relabelled_map_key [OF 2(1)] .
    have d2: "\<forall>e \<in> set es2. ae_definition_id e = ad_id defn" using relabelled_definition [OF 2(1) d] .
    have "\<exists>e \<in> set ?es. log_key e = (lr_definition_id r, lr_assignment_id r)" if "r \<in> set rs" for r
    proof -
      obtain x where "x \<in> set es2" "log_key x = (lr_definition_id r, lr_assignment_id r)"
        using step_all_records [OF 2(2)] \<open>r \<in> set rs\<close> d2 by (auto simp: log_key_def)
      then show ?thesis using arg_cong [OF m, of set] by (metis imageE image_eqI list.set_map)
    qed
    then show ?thesis
      using relabelled_follows [OF 2(1) step_all_follows [OF 2(2)]] d2 u m by simp
  qed
  then show "list_all2 (follows rs) ?es es'"
    "\<forall>r \<in> set rs. \<exists>e \<in> set ?es. log_key e = (lr_definition_id r, lr_assignment_id r)" by auto
qed

section \<open>Cycles\<close>

lemma write_back_rel:
  "list_all2 R (filter P xs) ys \<Longrightarrow> (\<And>x. x \<in> set xs \<Longrightarrow> \<not> P x \<Longrightarrow> R x x) \<Longrightarrow> list_all2 R xs (write_back P xs ys)"
proof (induction xs arbitrary: ys)
  case (Cons x xs)
  show ?case
  proof (cases "P x")
    case True
    with Cons.prems(1) obtain y ys' where "ys = y # ys'" "R x y" "list_all2 R (filter P xs) ys'"
      by (auto simp: list_all2_Cons1)
    then show ?thesis using True Cons by simp
  next
    case False
    then show ?thesis using Cons by (cases ys) (auto simp: list_all2_refl)
  qed
qed simp

lemma follows_all_trans:
  "list_all2 (follows rs) es es1 \<Longrightarrow> list_all2 (follows rs') es1 es2 \<Longrightarrow> list_all2 (follows (rs @ rs')) es es2"
  by (rule list_all2_trans [of "follows rs" "follows rs'" "follows (rs @ rs')"]) (auto intro: follows_trans)

lemma follows_all_keys: "list_all2 (follows rs) es es' \<Longrightarrow> unique_keys es' = unique_keys es"
proof -
  assume "list_all2 (follows rs) es es'"
  then have "map log_key es' = map log_key es"
    by (induction rule: list_all2_induct) (auto simp: follows_def same_row_key)
  then show ?thesis by (simp add: unique_keys_def)
qed

definition records_of :: "py_error + log_record list \<Rightarrow> log_record list" where
  "records_of r = (case r of Inl _ \<Rightarrow> [] | Inr rs \<Rightarrow> rs)"

lemma isolated_frame:
  assumes "evaluate_definition_isolated env db d = (r, db')"
  shows "db' = db\<lparr>db_entities := db_entities db'\<rparr>"
  using assms by (auto simp: evaluate_definition_isolated_def split: option.splits if_splits sum.splits prod.splits)

lemma isolated_follows:
  assumes "evaluate_definition_isolated env db d = (r, db')" and "unique_keys (db_entities db)"
  shows "list_all2 (follows (records_of r)) (db_entities db) (db_entities db')"
proof (cases "\<exists>defn es rs. find (\<lambda>x. ad_id x = d) (db_definitions db) = Some defn \<and> ad_enabled defn \<and>
    evaluate_definition env db defn = Inr (es, rs)")
  case False
  then have "db' = db \<and> records_of r = []"
    using assms(1) by (auto simp: evaluate_definition_isolated_def records_of_def split: option.splits if_splits sum.splits)
  then show ?thesis using follows_all_refl by simp
next
  case True
  then obtain defn es rs where f: "find (\<lambda>x. ad_id x = d) (db_definitions db) = Some defn" "ad_enabled defn"
    "evaluate_definition env db defn = Inr (es, rs)" by blast
  have d: "ad_id defn = d" using f(1) by (auto simp: find_Some_iff)
  note ev = evaluate_definition_follows [OF f(3) assms(2), unfolded d]
  have r: "records_of r = rs" "db_entities db' = write_back (own_entity d) (db_entities db) es"
    using assms(1) f by (auto simp: evaluate_definition_isolated_def records_of_def)
  have "follows rs e e" if e: "e \<in> set (db_entities db)" "\<not> own_entity d e" for e
  proof (rule follows_refl, rule log_of_other, intro ballI notI)
    fix rc assume "rc \<in> set rs" and k: "(lr_definition_id rc, lr_assignment_id rc) = log_key e"
    then obtain x where "x \<in> set (db_entities db)" "own_entity d x" "log_key x = log_key e" using ev(2) by auto
    then show False using e assms(2) unfolding unique_keys_def by (metis distinct_map inj_onD)
  qed
  then show ?thesis using write_back_rel [OF ev(1)] by (simp add: r)
qed

lemma eval_batch_follows:
  assumes "eval_batch env ds db = (rs, db')" and "unique_keys (db_entities db)"
  shows "list_all2 (follows rs) (db_entities db) (db_entities db') \<and> db' = db\<lparr>db_entities := db_entities db'\<rparr>"
  using assms
proof (induction ds arbitrary: db rs)
  case Nil
  then show ?case using follows_all_refl by simp
next
  case (Cons d ds)
  obtain r db1 where one: "evaluate_definition_isolated env db d = (r, db1)" by fastforce
  obtain rs2 where rest: "eval_batch env ds db1 = (rs2, db')" and rs: "rs = records_of r @ rs2"
    using Cons.prems(1) one by (auto simp: records_of_def split: prod.splits)
  note fo = isolated_follows [OF one Cons.prems(2)]
  have "unique_keys (db_entities db1)" using follows_all_keys [OF fo] Cons.prems(2) by simp
  note IH = Cons.IH [OF rest this]
  have "db' = db\<lparr>db_entities := db_entities db'\<rparr>"
    using IH isolated_frame [OF one]
    by (metis alert_db.cases_scheme alert_db.select_convs(2) alert_db.update_convs(2))
  then show ?case using follows_all_trans [OF fo] IH rs by simp
qed

text \<open>Working in chunks of eight gives the same as working through the list.\<close>

lemma eval_batch_append:
  "eval_batch env (ds @ ds') db =
     (let (rs, db1) = eval_batch env ds db; (rs', db2) = eval_batch env ds' db1 in (rs @ rs', db2))"
  by (induction ds arbitrary: db) (auto simp: Let_def split: prod.splits)

lemma eval_chunks_batch: "eval_chunks env ds db = eval_batch env ds db"
proof (induction env ds db rule: eval_chunks.induct)
  case (1 env ds db)
  show ?case
  proof (cases "ds = []")
    case True
    then show ?thesis by (simp add: eval_chunks.simps)
  next
    case False
    have "eval_chunks env ds db =
        (let (rs, db1) = eval_batch env (take EVAL_CHUNK_SIZE ds) db;
             (rs', db2) = eval_batch env (drop EVAL_CHUNK_SIZE ds) db1 in (rs @ rs', db2))"
      using False 1 [OF False] by (subst eval_chunks.simps) (simp add: Let_def split: prod.splits)
    then show ?thesis using eval_batch_append [of env "take EVAL_CHUNK_SIZE ds" "drop EVAL_CHUNK_SIZE ds" db] by simp
  qed
qed

definition cycle_records :: "engine_env \<Rightarrow> alert_db \<Rightarrow> log_record list" where
  "cycle_records env db = fst (eval_chunks env (map ad_id (filter ad_enabled (db_definitions db))) db)"

lemma evaluate_all_follows:
  assumes "unique_keys (db_entities db)"
  shows "list_all2 (follows (cycle_records env db)) (db_entities db) (db_entities (evaluate_all env ok db))"
    and "db_alert_log (evaluate_all env ok db) = db_alert_log db @ (if ok then cycle_records env db else [])"
    and "unique_keys (db_entities (evaluate_all env ok db))"
    and "db_definitions (evaluate_all env ok db) = db_definitions db"
proof -
  let ?ds = "map ad_id (filter ad_enabled (db_definitions db))"
  obtain rs db' where b: "eval_batch env ?ds db = (rs, db')" by fastforce
  note bf = eval_batch_follows [OF b assms]
  have rs: "cycle_records env db = rs" by (simp add: cycle_records_def eval_chunks_batch b)
  have all: "evaluate_all env ok db = (if rs \<noteq> [] \<and> ok then db'\<lparr>db_alert_log := db_alert_log db' @ rs\<rparr> else db')"
    by (simp add: evaluate_all_def eval_chunks_batch b)
  have fr: "db_alert_log db' = db_alert_log db" "db_definitions db' = db_definitions db"
    using bf by (metis alert_db.select_convs alert_db.cases_scheme alert_db.update_convs(2))+
  show f: "list_all2 (follows (cycle_records env db)) (db_entities db) (db_entities (evaluate_all env ok db))"
    using bf by (simp add: rs all)
  show "db_alert_log (evaluate_all env ok db) = db_alert_log db @ (if ok then cycle_records env db else [])"
    using fr by (simp add: rs all)
  show "unique_keys (db_entities (evaluate_all env ok db))"
    using follows_all_keys [OF f] assms by simp
  show "db_definitions (evaluate_all env ok db) = db_definitions db"
    using fr by (simp add: all)
qed

text \<open>Any number of cycles, each with its own environment, with the inserts succeeding.\<close>

definition alert_cycles :: "engine_env list \<Rightarrow> alert_db \<Rightarrow> alert_db" where
  "alert_cycles envs db = fold (\<lambda>env. evaluate_all env True) envs db"

lemma alert_cycles_follow:
  assumes "unique_keys (db_entities db)"
  shows "\<exists>rs. list_all2 (follows rs) (db_entities db) (db_entities (alert_cycles envs db)) \<and>
    db_alert_log (alert_cycles envs db) = db_alert_log db @ rs"
  using assms
proof (induction envs arbitrary: db)
  case Nil
  then show ?case using follows_all_refl by (auto simp: alert_cycles_def)
next
  case (Cons env envs)
  note one = evaluate_all_follows [OF Cons.prems, of env True]
  from Cons.IH [OF one(3)] obtain rs where
    "list_all2 (follows rs) (db_entities (evaluate_all env True db)) (db_entities (alert_cycles (env # envs) db))"
    "db_alert_log (alert_cycles (env # envs) db) = db_alert_log (evaluate_all env True db) @ rs"
    by (auto simp: alert_cycles_def)
  then show ?case
    using follows_all_trans [OF one(1)] one(2) by (intro exI [of _ "cycle_records env db @ rs"]) auto
qed

section \<open>The definitions of a batch do not interfere\<close>

lemma write_back_Nil [simp]: "write_back P xs [] = xs"
  by (cases xs) auto

lemma write_back_simps [simp]:
  "P x \<Longrightarrow> write_back P (x # xs) (y # ys) = y # write_back P xs ys"
  "\<not> P x \<Longrightarrow> write_back P (x # xs) ys = x # write_back P xs ys"
  by (simp, cases ys, auto)

declare write_back.simps(1) [simp del]

lemma filter_write_back:
  "(\<And>x. Q x \<Longrightarrow> \<not> P x) \<Longrightarrow> \<forall>y \<in> set ys. \<not> P y \<Longrightarrow> filter P (write_back Q xs ys) = filter P xs"
proof (induction xs arbitrary: ys)
  case (Cons x xs)
  then show ?case by (cases "Q x"; cases ys) auto
qed simp

lemma write_back_commute:
  assumes "\<And>x. P x \<Longrightarrow> \<not> Q x"
  shows "\<forall>y \<in> set ys. Q y \<Longrightarrow> \<forall>z \<in> set zs. P z \<Longrightarrow>
    write_back P (write_back Q xs ys) zs = write_back Q (write_back P xs zs) ys"
proof (induction xs arbitrary: ys zs)
  case (Cons x xs)
  have dis: "Q y \<Longrightarrow> \<not> P y" for y using assms by blast
  show ?case
  proof (cases "P x")
    case True
    with Cons show ?thesis by (cases zs) (auto simp: assms)
  next
    case False
    with Cons show ?thesis by (cases "Q x"; cases ys) (auto simp: dis)
  qed
qed simp

lemma evaluate_definition_local:
  assumes "filter (own_entity (ad_id defn)) (db_entities db') = filter (own_entity (ad_id defn)) (db_entities db)"
    and "db' = db\<lparr>db_entities := db_entities db'\<rparr>"
  shows "evaluate_definition env db' defn = evaluate_definition env db defn"
proof -
  have f: "db_devices db' = db_devices db" "db_tenants db' = db_tenants db" "db_variables db' = db_variables db"
    using assms(2) by (metis alert_db.select_convs alert_db.cases_scheme alert_db.update_convs(2))+
  have t: "tenant_by_device db' = tenant_by_device db" by (intro ext) (simp only: tenant_by_device_def f)
  have v: "var_by_name db' = var_by_name db" by (intro ext) (simp add: var_by_name_def f)
  show ?thesis unfolding evaluate_definition_def assms(1) t v ..
qed

lemma follows_own:
  "list_all2 (follows rs) es ys \<Longrightarrow> \<forall>e \<in> set es. own_entity d e \<Longrightarrow> \<forall>y \<in> set ys. own_entity d y"
proof (induction rule: list_all2_induct)
  case (Cons x xs y ys)
  have "same_row x y" using Cons.hyps(1) unfolding follows_def by blast
  moreover have "own_entity d x" using Cons.prems by simp
  ultimately have "own_entity d y" by (simp add: same_row_def own_entity_def)
  moreover have "\<forall>y \<in> set ys. own_entity d y" using Cons.IH Cons.prems by simp
  ultimately show ?case by simp
qed simp

text \<open>An evaluation replaces the definition's own rows, by rows of the same definition.\<close>

lemma isolated_write:
  assumes "unique_keys (db_entities db)"
  obtains r ys where "\<And>db'. db_definitions db' = db_definitions db \<Longrightarrow>
      filter (own_entity d) (db_entities db') = filter (own_entity d) (db_entities db) \<Longrightarrow>
      db' = db\<lparr>db_entities := db_entities db'\<rparr> \<Longrightarrow>
      evaluate_definition_isolated env db' d = (r, db'\<lparr>db_entities := write_back (own_entity d) (db_entities db') ys\<rparr>)"
    and "\<forall>y \<in> set ys. own_entity d y"
proof (cases "\<exists>defn es rs. find (\<lambda>x. ad_id x = d) (db_definitions db) = Some defn \<and> ad_enabled defn \<and>
    evaluate_definition env db defn = Inr (es, rs)")
  case True
  then obtain defn es rs where f: "find (\<lambda>x. ad_id x = d) (db_definitions db) = Some defn" "ad_enabled defn"
    "evaluate_definition env db defn = Inr (es, rs)" by blast
  have d: "ad_id defn = d" using f(1) by (auto simp: find_Some_iff)
  have "\<forall>y \<in> set es. own_entity d y"
    using follows_own [OF evaluate_definition_follows(1) [OF f(3) assms]] d by simp
  moreover have "evaluate_definition_isolated env db' d =
      (Inr rs, db'\<lparr>db_entities := write_back (own_entity d) (db_entities db') es\<rparr>)"
    if "db_definitions db' = db_definitions db"
      "filter (own_entity d) (db_entities db') = filter (own_entity d) (db_entities db)"
      "db' = db\<lparr>db_entities := db_entities db'\<rparr>" for db'
  proof -
    have "evaluate_definition env db' defn = Inr (es, rs)"
      using evaluate_definition_local [of defn db' db env, unfolded d, OF that(2,3)] f(3) by (rule trans)
    then show ?thesis using f(1,2) that(1) by (simp add: evaluate_definition_isolated_def)
  qed
  ultimately show ?thesis by (intro that [of "Inr rs" es]) simp_all
next
  case False
  define r where "r = fst (evaluate_definition_isolated env db d)"
  have "evaluate_definition_isolated env db' d = (r, db'\<lparr>db_entities := write_back (own_entity d) (db_entities db') []\<rparr>)"
    if "db_definitions db' = db_definitions db"
      "filter (own_entity d) (db_entities db') = filter (own_entity d) (db_entities db)"
      "db' = db\<lparr>db_entities := db_entities db'\<rparr>" for db'
  proof (cases "find (\<lambda>x. ad_id x = d) (db_definitions db)")
    case None
    then show ?thesis using that(1) by (simp add: evaluate_definition_isolated_def r_def)
  next
    case (Some defn)
    then have "ad_id defn = d" by (auto simp: find_Some_iff)
    then have "evaluate_definition env db' defn = evaluate_definition env db defn"
      using evaluate_definition_local that(2,3) by blast
    then show ?thesis
      using Some False that(1)
      by (cases "evaluate_definition env db defn") (auto simp: evaluate_definition_isolated_def r_def)
  qed
  then show ?thesis by (intro that [of r "[]"]) simp_all
qed

lemma own_entity_disjoint: "d1 \<noteq> d2 \<Longrightarrow> own_entity d1 e \<Longrightarrow> \<not> own_entity d2 e"
  by (simp add: own_entity_def)

lemma isolated_commute:
  assumes "d1 \<noteq> d2" and u: "unique_keys (db_entities db)"
    and "evaluate_definition_isolated env db d1 = (r1, db1)" and "evaluate_definition_isolated env' db1 d2 = (r2, db12)"
    and "evaluate_definition_isolated env' db d2 = (s2, db2)" and "evaluate_definition_isolated env db2 d1 = (s1, db21)"
  shows "r1 = s1 \<and> r2 = s2 \<and> db12 = db21"
proof -
  obtain x ys where e1: "\<And>db'. db_definitions db' = db_definitions db \<Longrightarrow>
      filter (own_entity d1) (db_entities db') = filter (own_entity d1) (db_entities db) \<Longrightarrow>
      db' = db\<lparr>db_entities := db_entities db'\<rparr> \<Longrightarrow>
      evaluate_definition_isolated env db' d1 = (x, db'\<lparr>db_entities := write_back (own_entity d1) (db_entities db') ys\<rparr>)"
    and o1: "\<forall>y \<in> set ys. own_entity d1 y" using isolated_write [OF u, of d1 env] by blast
  obtain x' zs where e2: "\<And>db'. db_definitions db' = db_definitions db \<Longrightarrow>
      filter (own_entity d2) (db_entities db') = filter (own_entity d2) (db_entities db) \<Longrightarrow>
      db' = db\<lparr>db_entities := db_entities db'\<rparr> \<Longrightarrow>
      evaluate_definition_isolated env' db' d2 = (x', db'\<lparr>db_entities := write_back (own_entity d2) (db_entities db') zs\<rparr>)"
    and o2: "\<forall>y \<in> set zs. own_entity d2 y" using isolated_write [OF u, of d2 env'] by blast
  have f1: "filter (own_entity d2) (write_back (own_entity d1) (db_entities db) ys) = filter (own_entity d2) (db_entities db)"
    using o1 own_entity_disjoint [OF assms(1)] by (intro filter_write_back) auto
  have f2: "filter (own_entity d1) (write_back (own_entity d2) (db_entities db) zs) = filter (own_entity d1) (db_entities db)"
    using o2 own_entity_disjoint [OF assms(1)] by (intro filter_write_back) auto
  have c: "write_back (own_entity d2) (write_back (own_entity d1) (db_entities db) ys) zs =
      write_back (own_entity d1) (write_back (own_entity d2) (db_entities db) zs) ys"
    using o1 o2 own_entity_disjoint [OF assms(1)] by (intro write_back_commute) auto
  show ?thesis
    using assms(3-6) e1 [of db] e2 [of db]
      e2 [of "db\<lparr>db_entities := write_back (own_entity d1) (db_entities db) ys\<rparr>"]
      e1 [of "db\<lparr>db_entities := write_back (own_entity d2) (db_entities db) zs\<rparr>"] f1 f2 c
    by auto
qed

end
