(* ===== verification/Alert_Results.thy ===== *)
theory Alert_Results
  imports Alert_Props
begin

text \<open>
  Results about the alert engine that rest on the phase machine and on the frame lemmas:
  freshness, failing queries, tiers of unknown severity, rows without an assignment, and the
  log over any number of cycles.
\<close>

section \<open>Freshness\<close>

definition times_of :: "string \<Rightarrow> alert_entity list \<Rightarrow> time option list" where
  "times_of a es = map ae_last_evaluated_at (filter (\<lambda>e. ae_assignment_id e = a) es)"

definition oldest :: "time option list \<Rightarrow> time option" where
  "oldest ts = (if None \<in> set ts then None else Some (Min (the ` set ts)))"

definition cutoff_spec :: "alert_entity list \<Rightarrow> (string, time option) dict \<Rightarrow> bool" where
  "cutoff_spec es d \<longleftrightarrow> (\<forall>a. map_of d a = (if times_of a es = [] then None else Some (oldest (times_of a es))))"

lemma times_of_snoc: "times_of a (es @ [e]) = times_of a es @ (if ae_assignment_id e = a then [ae_last_evaluated_at e] else [])"
  by (simp add: times_of_def)

lemma oldest_snoc:
  assumes "ts \<noteq> []"
  shows "oldest (ts @ [t]) =
    (case (oldest ts, t) of (Some p, Some x) \<Rightarrow> Some (if x < p then x else p) | _ \<Rightarrow> None)"
proof (cases "None \<in> set ts \<or> t = None")
  case True
  then show ?thesis by (auto simp: oldest_def split: option.splits)
next
  case False
  then obtain x where t: "t = Some x" by auto
  have "Min (insert x (the ` set ts)) = min x (Min (the ` set ts))"
    using assms by (intro Min_insert) auto
  then show ?thesis using False t by (simp add: oldest_def min_def)
qed

lemma cutoff_step_spec:
  assumes "cutoff_spec es d"
  shows "cutoff_spec (es @ [e]) (cutoff_step e d)"
proof -
  let ?a = "ae_assignment_id e"
  have d: "map_of d a = (if times_of a es = [] then None else Some (oldest (times_of a es)))" for a
    using assms by (simp add: cutoff_spec_def)
  have other: "map_of (cutoff_step e d) a = map_of d a" if "a \<noteq> ?a" for a
    using that by (simp add: cutoff_step_def Let_def split: option.split)
  have own: "map_of (cutoff_step e d) ?a = Some (oldest (times_of ?a es @ [ae_last_evaluated_at e]))"
  proof (cases "times_of ?a es = []")
    case True
    then show ?thesis
      using d [of ?a] by (cases "ae_last_evaluated_at e") (simp_all add: cutoff_step_def Let_def oldest_def)
  next
    case False
    then show ?thesis
      using d [of ?a]
      by (cases "ae_last_evaluated_at e"; cases "oldest (times_of ?a es)")
        (simp_all add: cutoff_step_def Let_def oldest_snoc)
  qed
  show ?thesis unfolding cutoff_spec_def
  proof
    fix a
    show "map_of (cutoff_step e d) a =
      (if times_of a (es @ [e]) = [] then None else Some (oldest (times_of a (es @ [e]))))"
      using own other [of a] d [of a] by (cases "a = ?a") (auto simp: times_of_snoc)
  qed
qed

lemma cutoff_by_aid_spec: "cutoff_spec es (cutoff_by_aid es)"
proof (induction es rule: rev_induct)
  case Nil
  show ?case by (simp add: cutoff_spec_def cutoff_by_aid_def times_of_def)
next
  case (snoc e es)
  then show ?case using cutoff_step_spec by (simp add: cutoff_by_aid_def)
qed

lemma cutoff_step_wf: "wf_dict d \<Longrightarrow> wf_dict (cutoff_step e d)"
  by (simp add: cutoff_step_def Let_def split: option.split)

lemma cutoff_by_aid_wf: "wf_dict (cutoff_by_aid es)"
proof -
  have "wf_dict d \<Longrightarrow> wf_dict (fold cutoff_step es d)" for d
    by (induction es arbitrary: d) (simp_all add: cutoff_step_wf)
  from this [of "[]"] show ?thesis by (simp add: cutoff_by_aid_def)
qed

lemma map_of_map_filter:
  "wf_dict d \<Longrightarrow> map_of (List.map_filter (\<lambda>(a, c). map_option (\<lambda>t. (a, t)) c) d) k =
     (case map_of d k of Some (Some t) \<Rightarrow> Some t | _ \<Rightarrow> None)"
proof (induction d)
  case (Cons p d)
  obtain a c where p: "p = (a, c)" by (cases p)
  show ?case
  proof (cases c)
    case None
    then show ?thesis
      using Cons p by (auto simp: List.map_filter_simps map_of_eq_None_iff [THEN iffD2] split: option.splits)
  next
    case (Some t)
    then show ?thesis using Cons p by (auto simp: List.map_filter_simps)
  qed
qed (simp add: List.map_filter_simps)

lemma mem_row_fresh:
  "a \<in> set (row_fresh env aids row) \<longleftrightarrow>
     dict_get row ''aid'' CNone = CText a \<and> dict_get row ''max_rcv'' CNone \<noteq> CNone \<and>
     (\<exists>t cutoff. cell_time env (dict_get row ''max_rcv'' CNone) = Some t \<and>
        map_of aids a = Some cutoff \<and> cutoff < t)"
  by (cases "dict_get row ''aid'' CNone"; cases "cell_time env (dict_get row ''max_rcv'' CNone)"; cases "map_of aids a")
    (auto simp: row_fresh_def Let_def)

text \<open>
  An assignment is fresh when one of its instances was never evaluated, or when the query
  reports data received after the oldest evaluation of its instances.
\<close>

lemma fresh_assignments_sound:
  assumes "a \<in> set (fresh_assignments env tbl es is_cc)"
  shows "None \<in> set (times_of a es) \<or>
    (\<exists>sql ps rows row t. query_for_alert env sql ps = Inr rows \<and> row \<in> set rows \<and>
       dict_get row ''aid'' CNone = CText a \<and>
       cell_time env (dict_get row ''max_rcv'' CNone) = Some t \<and>
       times_of a es \<noteq> [] \<and> Min (the ` set (times_of a es)) < t)"
proof -
  let ?c = "cutoff_by_aid es"
  let ?aids = "List.map_filter (\<lambda>(a, c). map_option (\<lambda>t. (a, t)) c) ?c"
  have spec: "map_of ?c a = (if times_of a es = [] then None else Some (oldest (times_of a es)))"
    using cutoff_by_aid_spec [of es] by (simp add: cutoff_spec_def)
  from assms consider "a \<in> set (map fst (filter (\<lambda>(_, c). c = None) ?c))"
    | sql ps rows row where "query_for_alert env sql ps = Inr rows" "row \<in> set rows"
        "a \<in> set (row_fresh env ?aids row)"
    by (auto simp: fresh_assignments_def Let_def split: if_splits sum.splits)
  then show ?thesis
  proof cases
    case 1
    then have "map_of ?c a = Some None"
      using cutoff_by_aid_wf [of es] by (auto simp: map_of_eq_Some_iff)
    then show ?thesis using spec by (auto simp: oldest_def split: if_splits)
  next
    case 2
    then obtain t cutoff where "dict_get row ''aid'' CNone = CText a"
      "cell_time env (dict_get row ''max_rcv'' CNone) = Some t" "map_of ?aids a = Some cutoff" "cutoff < t"
      by (auto simp: mem_row_fresh)
    moreover from this(3) have "map_of ?c a = Some (Some cutoff)"
      by (auto simp: map_of_map_filter cutoff_by_aid_wf split: option.splits)
    then have "times_of a es \<noteq> [] \<and> Min (the ` set (times_of a es)) = cutoff"
      using spec by (auto simp: oldest_def split: if_splits)
    ultimately show ?thesis using 2 by blast
  qed
qed

section \<open>Failing queries\<close>

definition query_fails :: "engine_env \<Rightarrow> bool" where
  "query_fails env \<longleftrightarrow> (\<forall>b sql ps rs. env_query env b sql ps \<noteq> Rows rs)"

lemma query_failsD: "query_fails env \<Longrightarrow> query_for_alert env sql ps = Inl DatabaseError"
  by (cases "env_query env False sql ps"; cases "env_query env True sql ps")
    (auto simp: query_fails_def query_for_alert_def)

lemma execute_fails: "query_fails env \<Longrightarrow> execute_compiled_query env compiled es vars = Inl DatabaseError"
  by (simp add: execute_compiled_query_def query_failsD)

lemma evaluate_definition_fails:
  assumes "query_fails env" and "compile_tiers (ad_target_table defn) (ad_window defn) (ad_severity_tiers defn) [] None = Inr (Some (ct # cts, h))"
    and "\<not> cq_is_config_changed (snd ct)" and "filter (own_entity (ad_id defn)) (db_entities db) \<noteq> []"
  shows "evaluate_definition env db defn = Inl DatabaseError"
  using assms by (cases ct) (simp add: evaluate_definition_def Let_def execute_fails)

lemma config_changed_fails: "query_fails env \<Longrightarrow> evaluate_config_changed env es key = ([], es)"
  by (simp add: evaluate_config_changed_def query_failsD)

section \<open>Tiers of unknown severity\<close>

lemma compile_tiers_severities:
  "compile_tiers tbl window ts acc h = Inr (Some (cts, h')) \<Longrightarrow>
   (s, q) \<in> set cts \<Longrightarrow> (s, q) \<in> set acc \<or> (\<exists>t \<in> set ts. tier_get t ''severity'' = s)"
proof (induction ts arbitrary: acc h)
  case (Cons t ts)
  show ?case
  proof (cases "truthy (tier_get t ''expression'')")
    case False
    then show ?thesis using Cons by auto
  next
    case True
    then obtain q' where q': "ebind (parse_expression (the (tier_get t ''expression''))) (\<lambda>a. compile_to_sql a tbl window) = Inr q'"
      using Cons.prems(1) by (auto simp: Let_def split: sum.splits)
    show ?thesis
    proof (cases "is_healthy t")
      case True
      then show ?thesis using Cons q' \<open>truthy _\<close> by (auto simp: Let_def)
    next
      case False
      then obtain sev where "map_of t ''severity'' = Some sev"
        and "compile_tiers tbl window ts (acc @ [(sev, q')]) h = Inr (Some (cts, h'))"
        using Cons.prems(1) q' \<open>truthy _\<close> by (auto simp: Let_def split: option.splits)
      then show ?thesis
        using Cons.IH [of "acc @ [(sev, q')]" h] Cons.prems(2) by (auto simp: tier_get_def dict_get_def)
    qed
  qed
qed auto

lemma run_tiers_severities:
  "run_tiers env is_cc vars cts es = Inr (results, es') \<Longrightarrow> map fst results = map fst cts"
proof (induction cts arbitrary: es results)
  case (Cons c cts)
  then show ?case by (cases c; cases is_cc) (fastforce simp: Let_def split: prod.splits)+
qed simp

lemma step_all_pointwise:
  "step_all f es = Inr (es', rs) \<Longrightarrow> list_all2 (\<lambda>e e'. \<exists>r. f e = Inr (e', r)) es es'"
  by (induction es arbitrary: es' rs) auto

lemma step_all_record:
  "step_all f es = Inr (es', rs) \<Longrightarrow> x \<in> set rs \<Longrightarrow> \<exists>e \<in> set es. \<exists>e' r. f e = Inr (e', r) \<and> x \<in> set r"
  by (induction es arbitrary: es' rs) fastforce+

lemma step_instance_not_firing:
  assumes "step_instance env defn tenants fresh results healthy e = Inr (e', rs)"
    and "\<forall>(s, fk) \<in> set results. map_of fk (inst_key e) \<noteq> None \<longrightarrow> rank s = - 1"
  shows "(ae_state e' = ''firing'' \<longrightarrow> ae_state e = ''firing'') \<and> (\<forall>r \<in> set rs. lr_action r = ''clear'')"
proof -
  have none: "fst (effective results (inst_key e)) = None" using assms(2) effective_None_iff by blast
  show ?thesis
  proof (cases "ae_assignment_id e \<in> set fresh")
    case True
    then have u: "step_unmatched env defn tenants healthy (e\<lparr>ae_last_evaluated_at := Some (env_now env)\<rparr>) = Inr (e', rs)"
      using assms(1) none by (auto simp: step_instance_def split: prod.splits)
    from u show ?thesis by (cases rule: step_unmatched_cases) (auto simp: push_history_def)
  qed (use assms(1) in \<open>auto simp: step_instance_def\<close>)
qed

lemma own_key [simp]: "relabelled e e' \<Longrightarrow> inst_key e' = inst_key e"
  by (auto simp: relabelled_def inst_key_def)

text \<open>The tiers, queries and loop of a definition, unfolded once.\<close>

lemma evaluate_definition_cases:
  assumes "evaluate_definition env db defn = Inr (es', rs)"
  obtains (idle) "es' = filter (own_entity (ad_id defn)) (db_entities db)" "rs = []"
  | (run) ct cts h results es1 healthy es2 tenants
    where "compile_tiers (ad_target_table defn) (ad_window defn) (ad_severity_tiers defn) [] None = Inr (Some (ct # cts, h))"
      and "run_tiers env (cq_is_config_changed (snd ct)) (var_by_name db (ad_app_id defn)) (ct # cts)
             (filter (own_entity (ad_id defn)) (db_entities db)) = Inr (results, es1)"
      and "run_healthy env (cq_is_config_changed (snd ct)) (var_by_name db (ad_app_id defn)) h es1 = (healthy, es2)"
      and "step_all (step_instance env defn tenants
             (fresh_assignments env (ad_target_table defn) (filter (own_entity (ad_id defn)) (db_entities db))
               (cq_is_config_changed (snd ct))) results healthy) es2 = Inr (es', rs)"
proof -
  let ?es = "filter (own_entity (ad_id defn)) (db_entities db)"
  from assms obtain c where c: "compile_tiers (ad_target_table defn) (ad_window defn) (ad_severity_tiers defn) [] None = Inr c"
    by (auto simp: evaluate_definition_def Let_def)
  show thesis
  proof (cases "c = None \<or> (\<exists>h. c = Some ([], h)) \<or> ?es = []")
    case True
    then show ?thesis
      using assms c idle by (auto simp: evaluate_definition_def Let_def split: option.splits list.splits)
  next
    case False
    then obtain ct cts h where c': "c = Some (ct # cts, h)"
      by (metis list.exhaust option.exhaust surj_pair)
    from assms False show ?thesis
      by (auto simp: evaluate_definition_def c c' Let_def simp del: run_tiers.simps split: prod.splits
          intro: run [OF c [unfolded c']])
  qed
qed

lemma unknown_tiers_quiet:
  assumes "\<forall>t \<in> set (ad_severity_tiers defn). rank (tier_get t ''severity'') = - 1"
    and "evaluate_definition env db defn = Inr (es', rs)"
  shows "list_all2 (\<lambda>e e'. ae_state e' = ''firing'' \<longrightarrow> ae_state e = ''firing'')
      (filter (own_entity (ad_id defn)) (db_entities db)) es' \<and> (\<forall>r \<in> set rs. lr_action r = ''clear'')"
  using assms(2)
proof (cases rule: evaluate_definition_cases)
  case idle
  then show ?thesis by (simp add: list_all2_refl)
next
  case (run ct cts h results es1 healthy es2 tenants)
  let ?es = "filter (own_entity (ad_id defn)) (db_entities db)"
  have unk: "\<forall>(s, fk) \<in> set results. rank s = - 1"
  proof (intro ballI)
    fix x assume "x \<in> set results"
    then have "fst x \<in> set (map fst (ct # cts))" using run_tiers_severities [OF run(2)] by (metis image_eqI list.set_map)
    then obtain y where "y \<in> set (ct # cts)" "fst x = fst y" unfolding set_map by blast
    then obtain q where "(fst x, q) \<in> set (ct # cts)" by (metis prod.collapse)
    then show "case x of (s, fk) \<Rightarrow> rank s = - 1"
      using compile_tiers_severities [OF run(1), of "fst x" q] assms(1) by (cases x) auto
  qed
  have rel: "list_all2 relabelled ?es es2"
    using run_tiers_relabels [OF run(2)] run_healthy_relabels [of es1 env "cq_is_config_changed (snd ct)" "var_by_name db (ad_app_id defn)" h]
    by (simp add: run(3)) (rule relabelled_all_trans)
  have quiet: "(ae_state e' = ''firing'' \<longrightarrow> ae_state e = ''firing'') \<and> (\<forall>r \<in> set r'. lr_action r = ''clear'')"
    if "step_instance env defn tenants (fresh_assignments env (ad_target_table defn) ?es
          (cq_is_config_changed (snd ct))) results healthy e = Inr (e', r')" for e e' r'
    using step_instance_not_firing [OF that] unk by blast
  have "list_all2 (\<lambda>e e'. ae_state e' = ''firing'' \<longrightarrow> ae_state e = ''firing'') es2 es'"
    by (rule list_all2_mono [OF step_all_pointwise [OF run(4)]]) (use quiet in blast)
  moreover have "list_all2 (\<lambda>e e'. ae_state e' = ae_state e) ?es es2"
    by (rule list_all2_mono [OF rel]) (auto simp: relabelled_def)
  ultimately have "list_all2 (\<lambda>e e'. ae_state e' = ''firing'' \<longrightarrow> ae_state e = ''firing'') ?es es'"
    by (auto simp: list_all2_conv_all_nth)
  moreover have "\<forall>r \<in> set rs. lr_action r = ''clear''"
    using step_all_record [OF run(4)] quiet by blast
  ultimately show ?thesis ..
qed

section \<open>Rows without an assignment\<close>

lemma fst_dict_set: "fst ` set (dict_set k v d) = insert k (fst ` set d)"
  by (induction d) auto

lemma collect_firing_keys:
  "collect_firing compiled params rows acc = Inr fk \<Longrightarrow>
   set (dict_keys fk) \<subseteq> set (dict_keys acc) \<union> (\<lambda>row. (dict_get row ''assignment_id'' (CText []), fst (row_entity row))) ` set rows"
proof (induction rows arbitrary: acc)
  case (Cons row rows)
  obtain ek ls where re: "row_entity row = (ek, ls)" by fastforce
  have fe: "fst (row_entity row) = ek" by (simp add: re)
  from Cons.prems obtain fd where
    "collect_firing compiled params rows (dict_set (dict_get row ''assignment_id'' (CText []), ek) fd acc) = Inr fk"
    by (auto simp: re Let_def)
  from Cons.IH [OF this] show ?case by (simp add: fe fst_dict_set)
qed simp

lemma no_assignment_no_match:
  assumes "execute_compiled_query env compiled es vars = Inr fk"
    and "\<And>b sql ps rows row. env_query env b sql ps = Rows rows \<Longrightarrow> row \<in> set rows \<Longrightarrow> ''assignment_id'' \<notin> set (dict_keys row)"
    and "ae_assignment_id e \<noteq> []"
  shows "map_of fk (inst_key e) = None"
proof -
  from assms(1) obtain rows sql ps where q: "query_for_alert env sql ps = Inr rows"
    and c: "collect_firing compiled (effective_params compiled vars) rows [] = Inr fk"
    by (auto simp: execute_compiled_query_def Let_def)
  have "''assignment_id'' \<notin> set (dict_keys row)" if "row \<in> set rows" for row
    using q assms(2) that by (auto simp: query_for_alert_def split: query_outcome.splits)
  then have "dict_get row ''assignment_id'' (CText []) = CText []" if "row \<in> set rows" for row
    using that by (simp add: dict_get_def map_of_eq_None_iff [THEN iffD2])
  then have "inst_key e \<notin> set (dict_keys fk)"
    using collect_firing_keys [OF c] assms(3) by (auto simp: inst_key_def)
  then show ?thesis by (simp add: map_of_eq_None_iff)
qed

section \<open>A definition, an instance and an environment to run\<close>

definition demo_tiers :: "tier list" where
  "demo_tiers =
     [[(''severity'', Some ''warning''), (''expression'', Some ''avg(rtt_ms) > rtt_ms_warn'')],
      [(''severity'', Some ''critical''), (''expression'', Some ''avg(rtt_ms) > rtt_ms_crit'')]]"

definition demo_definition :: alert_definition where
  "demo_definition = \<lparr>ad_id = ''d1'', ad_app_id = ''ping'', ad_app_name = ''Ping'',
     ad_target_table = ''availability_latency'', ad_name = ''High RTT'', ad_severity_tiers = demo_tiers,
     ad_window = ''5m'', ad_enabled = True\<rparr>"

definition demo_entity :: alert_entity where
  "demo_entity = \<lparr>ae_definition_id = ''d1'', ae_assignment_id = ''a1'', ae_device_id = Some ''dev'',
     ae_enabled = True, ae_state = ''ok'', ae_severity = None, ae_current_value = None, ae_fire_count = 0,
     ae_fire_history = [], ae_last_evaluated_at = None, ae_started_firing_at = None,
     ae_current_state_since = None, ae_last_triggered_at = None, ae_last_cleared_at = None,
     ae_entity_key = [], ae_entity_labels = [], ae_metric_values = [], ae_threshold_values = []\<rparr>"

definition demo_db :: alert_db where
  "demo_db = \<lparr>db_definitions = [demo_definition], db_entities = [demo_entity], db_devices = [],
     db_tenants = [], db_variables = [], db_alert_log = []\<rparr>"

definition demo_env :: engine_env where
  "demo_env = \<lparr>env_query = (\<lambda>b sql ps. Rows [[(''assignment_id'', CText ''a1'')]]), env_set_list = (\<lambda>xs. xs),
     env_fromiso = (\<lambda>s. None), env_format = (\<lambda>t c. FmtError ValueError), env_now = 1000\<rparr>"

definition demo_match :: firing where
  "demo_match = [((CText ''a1'', []), no_fire)]"

definition demo_results :: tier_results where
  "demo_results = [(Some ''warning'', demo_match), (Some ''critical'', demo_match), (Some ''info'', demo_match)]"

definition demo_step :: "py_error + (alert_entity \<times> log_record list)" where
  "demo_step = step_instance demo_env demo_definition [] [''a1''] demo_results None demo_entity"

definition demo_fired :: alert_entity where
  "demo_fired = fst (projr demo_step)"

definition demo_log :: "log_record list" where
  "demo_log = snd (projr demo_step)"

lemmas demo_defs = demo_tiers_def demo_definition_def demo_entity_def demo_db_def demo_env_def demo_match_def
  demo_results_def

lemma demo_step_ok: "demo_step = Inr (demo_fired, demo_log)"
proof -
  have "\<not> isl demo_step" by code_simp
  then show ?thesis by (cases demo_step) (auto simp: demo_fired_def demo_log_def)
qed

lemma demo_fired_eval: "ae_state demo_fired = ''firing'' \<and> ae_severity demo_fired = Some ''critical'' \<and> length demo_log = 1"
  by code_simp

section \<open>Properties\<close>



text \<open>
  C4: One step of the evaluation loop refines the phase machine: from a well-formed instance the
  logged actions and the new phase are a transition of \<open>alert_step\<close>, and the instance stays
  well-formed (severity exactly while firing, a positive count, at most twenty history bits).
\<close>

theorem alert_step_refines:
  assumes "step_instance env defn tenants fresh results healthy e = Inr (e', rs)" and "entity_ok e"
  shows "alert_step (phase_of e) (map lr_action rs) (phase_of e') \<and> entity_ok e'"
  using step_instance_refines [OF assms] by blast

theorem alert_step_refines_witness:
  "alert_step (phase_of demo_entity) (map lr_action demo_log) (phase_of demo_fired) \<and> entity_ok demo_fired"
  using alert_step_refines [of demo_env demo_definition "[]" "[''a1'']" demo_results None demo_entity demo_fired demo_log]
    demo_step_ok by (simp add: demo_step_def) (simp add: demo_defs entity_ok_def)

text \<open>
  The highest matching tier wins.  A fresh instance with a matching tier of known severity
  ends up firing at the severity of a matching tier, and no matching tier ranks higher.
\<close>

theorem alert_highest_tier:
  assumes step: "step_instance env defn tenants fresh results healthy e = Inr (e', rs)"
    and "ae_assignment_id e \<in> set fresh" and ok: "entity_ok e"
    and "(s, fk) \<in> set results" and "map_of fk (inst_key e) \<noteq> None" and "rank s \<noteq> - 1"
  shows "ae_state e' = ''firing'' \<and>
    (\<exists>fk'. (ae_severity e', fk') \<in> set results \<and> map_of fk' (inst_key e) \<noteq> None) \<and>
    (\<forall>s' fk'. (s', fk') \<in> set results \<longrightarrow> map_of fk' (inst_key e) \<noteq> None \<longrightarrow> rank s' \<le> rank (ae_severity e'))"
proof -
  let ?e = "e\<lparr>ae_last_evaluated_at := Some (env_now env)\<rparr>"
  have "fst (effective results (inst_key e)) \<noteq> None"
    using assms(4-6) unfolding effective_None_iff by (metis (mono_tags, lifting) case_prod_conv)
  then obtain t fd where eff: "effective results (inst_key e) = (Some t, fd)"
    by (cases "effective results (inst_key e)") auto
  note sel = effective_Some [OF eff]
  have m: "step_matched env defn tenants (Some t) fd ?e = Inr (e', rs)"
    using step assms(2) eff by (simp add: step_instance_def)
  have "ae_severity e' = Some t"
    using step_matched_cases [OF m] rank_inj [of "Some t" "ae_severity e"] sel(1) ok
    by (cases "ae_state e = ''firing''") (auto split: if_splits)
  then show ?thesis using sel step_matched_cases [OF m] by auto
qed

theorem alert_highest_tier_witness:
  "ae_state demo_fired = ''firing'' \<and>
    (\<exists>fk'. (ae_severity demo_fired, fk') \<in> set demo_results \<and> map_of fk' (inst_key demo_entity) \<noteq> None) \<and>
    rank (Some ''critical'') \<le> rank (ae_severity demo_fired)"
proof -
  have m: "map_of demo_match (inst_key demo_entity) \<noteq> None" "(Some ''critical'', demo_match) \<in> set demo_results"
    by (simp_all add: demo_defs inst_key_def)
  have "ae_assignment_id demo_entity \<in> set [''a1'']" "entity_ok demo_entity" "(Some ''info'', demo_match) \<in> set demo_results"
    "rank (Some ''info'') \<noteq> - 1"
    by (simp_all add: demo_defs entity_ok_def rank_def dict_get_def SEVERITY_RANK_def)
  from alert_highest_tier [OF demo_step_ok [unfolded demo_step_def] this(1-3) m(1) this(4)] m
  show ?thesis by blast
qed


definition demo_compiled :: "(string option \<times> compiled_query) list" where
  "demo_compiled = (case compile_tiers ''availability_latency'' ''5m'' demo_tiers [] None of
     Inr (Some (cts, h)) \<Rightarrow> cts | _ \<Rightarrow> [])"

lemma demo_compile_eval:
  "case compile_tiers ''availability_latency'' ''5m'' demo_tiers [] None of
     Inr (Some c) \<Rightarrow> fst c \<noteq> [] \<and> Option.is_none (snd c) \<and> \<not> cq_is_config_changed (snd (hd (fst c))) | _ \<Rightarrow> False"
  by code_simp

lemma demo_compile: "compile_tiers ''availability_latency'' ''5m'' demo_tiers [] None =
    Inr (Some (hd demo_compiled # tl demo_compiled, None))" "\<not> cq_is_config_changed (snd (hd demo_compiled))"
proof -
  obtain c where "compile_tiers ''availability_latency'' ''5m'' demo_tiers [] None = Inr (Some (c, None))"
    and "c \<noteq> []" and "\<not> cq_is_config_changed (snd (hd c))"
    using demo_compile_eval
    by (auto simp: Option.is_none_def split: sum.split_asm option.split_asm)
  then show "compile_tiers ''availability_latency'' ''5m'' demo_tiers [] None =
      Inr (Some (hd demo_compiled # tl demo_compiled, None))" "\<not> cq_is_config_changed (snd (hd demo_compiled))"
    by (simp_all add: demo_compiled_def)
qed


text \<open>
  Freshness.  An evaluation changes an instance only if one of the instances of its
  assignment was never evaluated, or if a row the freshness query returned for the assignment is
  newer than the oldest evaluation among them.
\<close>

theorem alert_change_needs_fresh_data:
  assumes "step_instance env defn tenants (fresh_assignments env tbl es is_cc) results healthy e = Inr (e', rs)"
    and "e' \<noteq> e"
  shows "None \<in> set (times_of (ae_assignment_id e) es) \<or>
    (\<exists>sql ps rows row t. query_for_alert env sql ps = Inr rows \<and> row \<in> set rows \<and>
       dict_get row ''aid'' CNone = CText (ae_assignment_id e) \<and>
       cell_time env (dict_get row ''max_rcv'' CNone) = Some t \<and>
       times_of (ae_assignment_id e) es \<noteq> [] \<and> Min (the ` set (times_of (ae_assignment_id e) es)) < t)"
proof (rule fresh_assignments_sound [of _ env tbl es is_cc])
  show "ae_assignment_id e \<in> set (fresh_assignments env tbl es is_cc)"
    using assms by (auto simp: step_instance_def split: if_splits)
qed

lemma demo_fresh: "fresh_assignments demo_env ''availability_latency'' [demo_entity] False = [''a1'']"
  by code_simp

theorem alert_change_needs_fresh_data_witness:
  "None \<in> set (times_of (ae_assignment_id demo_entity) [demo_entity]) \<or>
    (\<exists>sql ps rows row t. query_for_alert demo_env sql ps = Inr rows \<and> row \<in> set rows \<and>
       dict_get row ''aid'' CNone = CText (ae_assignment_id demo_entity) \<and>
       cell_time demo_env (dict_get row ''max_rcv'' CNone) = Some t \<and>
       times_of (ae_assignment_id demo_entity) [demo_entity] \<noteq> [] \<and>
       Min (the ` set (times_of (ae_assignment_id demo_entity) [demo_entity])) < t)"
proof (rule alert_change_needs_fresh_data)
  show "step_instance demo_env demo_definition [] (fresh_assignments demo_env ''availability_latency'' [demo_entity] False)
      demo_results None demo_entity = Inr (demo_fired, demo_log)"
    using demo_step_ok by (simp add: demo_fresh demo_step_def)
  have "ae_state demo_fired \<noteq> ae_state demo_entity" using demo_fired_eval by (simp add: demo_entity_def)
  then show "demo_fired \<noteq> demo_entity" by metis
qed

text \<open>
  Evaluating the definitions in chunks of eight is evaluating them one after another: the
  same records in the same order and the same database.
\<close>

theorem alert_chunking_is_transparent: "eval_chunks env ds db = eval_batch env ds db"
  by (rule eval_chunks_batch)

text \<open>
  The definitions a chunk evaluates concurrently do not interfere: two isolated evaluations
  of different definitions commute, with the same results and the same database, each under its
  own view of ClickHouse and its own clock.
\<close>

theorem alert_definitions_commute:
  assumes "d1 \<noteq> d2" and "unique_keys (db_entities db)"
    and "evaluate_definition_isolated env db d1 = (r1, db1)" and "evaluate_definition_isolated env' db1 d2 = (r2, db12)"
    and "evaluate_definition_isolated env' db d2 = (s2, db2)" and "evaluate_definition_isolated env db2 d1 = (s1, db21)"
  shows "r1 = s1 \<and> r2 = s2 \<and> db12 = db21"
  using isolated_commute [OF assms] .

theorem alert_definitions_commute_witness:
  "let x1 = evaluate_definition_isolated demo_env demo_db ''d1'';
       x2 = evaluate_definition_isolated demo_env demo_db ''d2'';
       x12 = evaluate_definition_isolated demo_env (snd x1) ''d2'';
       x21 = evaluate_definition_isolated demo_env (snd x2) ''d1''
   in fst x1 = fst x21 \<and> fst x12 = fst x2 \<and> snd x12 = snd x21"
  unfolding Let_def
  by (rule alert_definitions_commute [of "''d1''" "''d2''" demo_db demo_env _ _ demo_env,
        OF _ _ prod.collapse [symmetric] prod.collapse [symmetric] prod.collapse [symmetric] prod.collapse [symmetric]])
    (simp_all add: unique_keys_def demo_db_def)

text \<open>
  A definition whose tiers all have a severity outside \<open>info\<close>, \<open>warning\<close>, \<open>critical\<close> (the
  \<open>emergency\<close> tier that the validation accepts among them) never fires: no instance enters the
  firing state and no action but \<open>clear\<close> is logged.
\<close>

theorem alert_unknown_severity_never_fires:
  assumes "\<forall>t \<in> set (ad_severity_tiers defn). rank (tier_get t ''severity'') = - 1"
  shows "case evaluate_definition env db defn of
      Inl _ \<Rightarrow> True
    | Inr (es', rs) \<Rightarrow>
        list_all2 (\<lambda>e e'. ae_state e' = ''firing'' \<longrightarrow> ae_state e = ''firing'')
          (filter (own_entity (ad_id defn)) (db_entities db)) es' \<and> (\<forall>r \<in> set rs. lr_action r = ''clear'')"
  using unknown_tiers_quiet [OF assms] by (auto split: sum.splits)

definition demo_emergency :: alert_definition where
  "demo_emergency = demo_definition\<lparr>ad_severity_tiers :=
     [[(''severity'', Some ''emergency''), (''expression'', Some ''avg(rtt_ms) > rtt_ms_warn'')]]\<rparr>"

theorem alert_unknown_severity_never_fires_witness:
  "''emergency'' \<in> set VALID_SEVERITIES \<and>
   (case evaluate_definition demo_env demo_db demo_emergency of
      Inl _ \<Rightarrow> True
    | Inr (es', rs) \<Rightarrow>
        list_all2 (\<lambda>e e'. ae_state e' = ''firing'' \<longrightarrow> ae_state e = ''firing'')
          (filter (own_entity (ad_id demo_emergency)) (db_entities demo_db)) es' \<and>
        (\<forall>r \<in> set rs. lr_action r = ''clear''))"
proof
  show "''emergency'' \<in> set VALID_SEVERITIES" by (simp add: VALID_SEVERITIES_def)
qed (rule alert_unknown_severity_never_fires,
    simp add: demo_emergency_def tier_get_def dict_get_def rank_def SEVERITY_RANK_def)

text \<open>
  If the rows of a query carry no \<open>assignment_id\<close> column, which is what the compiled query
  selects for the interface, performance and config tables, no instance ever matches.
\<close>

theorem alert_rows_without_assignment_never_match:
  assumes "execute_compiled_query env compiled es vars = Inr fk"
    and "\<And>b sql ps rows row. env_query env b sql ps = Rows rows \<Longrightarrow> row \<in> set rows \<Longrightarrow> ''assignment_id'' \<notin> set (dict_keys row)"
    and "ae_assignment_id e \<noteq> []"
  shows "map_of fk (inst_key e) = None"
  using no_assignment_no_match [OF assms] .

definition demo_interface_env :: engine_env where
  "demo_interface_env = demo_env\<lparr>env_query := (\<lambda>b sql ps. Rows [[(''device_id'', CText ''dev''), (''interface_id'', CText ''7'')]])\<rparr>"

lemma demo_interface_rows:
  "execute_compiled_query demo_interface_env (snd (hd demo_compiled)) [demo_entity] [] =
     Inr (projr (execute_compiled_query demo_interface_env (snd (hd demo_compiled)) [demo_entity] []))"
proof -
  have "\<not> isl (execute_compiled_query demo_interface_env (snd (hd demo_compiled)) [demo_entity] [])" by code_simp
  then show ?thesis by (cases "execute_compiled_query demo_interface_env (snd (hd demo_compiled)) [demo_entity] []") auto
qed

theorem alert_rows_without_assignment_never_match_witness:
  "map_of (projr (execute_compiled_query demo_interface_env (snd (hd demo_compiled)) [demo_entity] [])) (inst_key demo_entity) = None"
  by (rule alert_rows_without_assignment_never_match [OF demo_interface_rows])
    (auto simp: demo_interface_env_def demo_entity_def)

text \<open>
  With a healthy-tier expression, an instance that matches no tier and not the healthy
  expression either is left as it is but for its evaluation time, and nothing is logged; when
  it is firing and the healthy expression matches, it resolves with one \<open>clear\<close> row.
\<close>

theorem alert_positive_clear:
  assumes "step_instance env defn tenants fresh results (Some (expr, fk)) e = Inr (e', rs)"
    and "ae_assignment_id e \<in> set fresh" and "fst (effective results (inst_key e)) = None"
  shows "if map_of fk (inst_key e) \<noteq> None \<and> ae_state e = ''firing''
    then ae_state e' = ''resolved'' \<and> ae_severity e' = None \<and> ae_current_state_since e' = None \<and>
         map lr_action rs = [''clear''] \<and> map lr_expression rs = [Some expr]
    else e' = e\<lparr>ae_last_evaluated_at := Some (env_now env)\<rparr> \<and> rs = []"
proof -
  let ?e = "e\<lparr>ae_last_evaluated_at := Some (env_now env)\<rparr>"
  have u: "step_unmatched env defn tenants (Some (expr, fk)) ?e = Inr (e', rs)"
    using assms by (auto simp: step_instance_def split: prod.splits)
  have k: "inst_key ?e = inst_key e" by (simp add: inst_key_def)
  have rec: "lr_expression r = Some ce" if "build_log_record env defn i ''clear'' tenants ce = Inr r" for i r ce
    using that by (auto simp: build_log_record_def Let_def split: prod.splits)
  show ?thesis
  proof (cases "map_of fk (inst_key e) \<noteq> None \<and> ae_state e = ''firing''")
    case True
    then obtain r where r: "build_log_record env defn (refresh_from_healthy fk
        ((set_resolved (env_now env) (push_history False ?e))\<lparr>ae_current_state_since := None\<rparr>)) ''clear'' tenants expr = Inr r"
      and e': "e' = refresh_from_healthy fk
        ((set_resolved (env_now env) (push_history False ?e))\<lparr>ae_current_state_since := None\<rparr>)" and rs: "rs = [r]"
      using u by (auto simp: step_unmatched_def Let_def k)
    have "ae_current_state_since e' = None"
      by (simp add: e' refresh_from_healthy_def split: option.split)
    then show ?thesis
      using True rec [OF r] build_log_record_action [OF r] by (simp add: rs e' set_resolved_def)
  next
    case False
    then show ?thesis using u k by (auto simp: step_unmatched_def Let_def)
  qed
qed

definition demo_clear_step :: "py_error + (alert_entity \<times> log_record list)" where
  "demo_clear_step = step_instance demo_env demo_definition [] [''a1''] [] (Some (''avg(rtt_ms) < 50'', demo_match)) demo_fired"

definition demo_cleared :: alert_entity where
  "demo_cleared = fst (projr demo_clear_step)"

definition demo_clear_log :: "log_record list" where
  "demo_clear_log = snd (projr demo_clear_step)"

lemma demo_clear_ok: "demo_clear_step = Inr (demo_cleared, demo_clear_log)"
proof -
  have "\<not> isl demo_clear_step" by code_simp
  then show ?thesis by (cases demo_clear_step) (auto simp: demo_cleared_def demo_clear_log_def)
qed

lemma demo_fired_key: "ae_assignment_id demo_fired = ''a1'' \<and> ae_entity_key demo_fired = []"
  by code_simp

theorem alert_positive_clear_witness:
  "ae_state demo_cleared = ''resolved'' \<and> map lr_action demo_clear_log = [''clear''] \<and>
   map lr_expression demo_clear_log = [Some ''avg(rtt_ms) < 50'']"
  using alert_positive_clear [OF demo_clear_ok [unfolded demo_clear_step_def]] demo_fired_eval demo_fired_key
  by (simp add: inst_key_def demo_match_def effective_def)

end
