(* ===== verification/Dsl_Validate.thy ===== *)
theory Dsl_Validate
  imports Dsl_Compiler
begin

text \<open>
  \<open>validate_expression\<close> of \<open>alerting/dsl.py\<close>: the metadata walk, the semantic checks in the
  order the code makes them, the trial compilation, the optional field checks and the warnings.
\<close>

section \<open>The metadata walk\<close>

record threshold_ref_info =
  ri_name :: string
  ri_is_named :: bool
  ri_inline_value :: "pyfloat option"

record wst =
  w_metrics :: "string list"
  w_thresholds :: "threshold_param list"
  w_refs :: "threshold_ref_info list"
  w_has_agg :: bool
  w_has_arith :: bool
  w_has_div :: bool
  w_counter :: nat

definition init_wst :: wst where
  "init_wst = \<lparr>w_metrics = [], w_thresholds = [], w_refs = [], w_has_agg = False,
     w_has_arith = False, w_has_div = False, w_counter = 0\<rparr>"

primrec walk_arith :: "arith \<Rightarrow> wst \<Rightarrow> wst" where
  "walk_arith (AggCall func metric) w = w\<lparr>w_has_agg := True, w_metrics := w_metrics w @ [metric]\<rparr>"
| "walk_arith (ArithOp op l r) w =
     walk_arith r (walk_arith l
       (let w1 = w\<lparr>w_has_arith := True\<rparr>
        in if op = ''/'' then w1\<lparr>w_has_div := True\<rparr> else w1))"
| "walk_arith (NumericLiteral v) w = w"

definition register_inline :: "string \<Rightarrow> pyfloat \<Rightarrow> wst \<Rightarrow> wst" where
  "register_inline nm v w =
     w\<lparr>w_thresholds := w_thresholds w @
         [\<lparr>tp_name = nm, tp_default_value = v, tp_param_key = threshold_key (w_counter w)\<rparr>],
       w_counter := w_counter w + 1\<rparr>"

definition walk_right :: "arith \<Rightarrow> string \<Rightarrow> cmp_right \<Rightarrow> wst \<Rightarrow> wst" where
  "walk_right a op right w =
     (let is_equality_inline = (op = ''=='' \<or> op = ''!='') in
      case right of
        RRef ref \<Rightarrow>
          (if tr_is_named ref then
             w\<lparr>w_refs := w_refs w @ [\<lparr>ri_name = tr_name ref, ri_is_named = True, ri_inline_value = None\<rparr>],
               w_thresholds := w_thresholds w @
                 [\<lparr>tp_name = tr_name ref, tp_default_value = Fin 0, tp_param_key = tr_name ref\<rparr>]\<rparr>
           else if is_equality_inline then w
           else case tr_inline_value ref of
               None \<Rightarrow> w
             | Some v \<Rightarrow> register_inline (tr_name ref) v
                 (w\<lparr>w_refs := w_refs w @
                      [\<lparr>ri_name = tr_name ref, ri_is_named = False, ri_inline_value = Some v\<rparr>]\<rparr>))
      | RFloat v \<Rightarrow>
          if is_equality_inline then w
          else register_inline (legacy_threshold_name a (w_counter w)) v w
      | RStr s \<Rightarrow> w)"

fun walk :: "ast \<Rightarrow> wst \<Rightarrow> wst" where
  "walk (Comparison (LIdent i) op right) w = w\<lparr>w_metrics := w_metrics w @ [i]\<rparr>"
| "walk (Comparison (LArith a) op right) w = walk_right a op right (walk_arith a w)"
| "walk (Changed i) w = w\<lparr>w_metrics := w_metrics w @ [i]\<rparr>"
| "walk (InList i vs b) w = w\<lparr>w_metrics := w_metrics w @ [i]\<rparr>"
| "walk (BoolOp op l r) w = walk r (walk l w)"

section \<open>Semantic checks\<close>

datatype validation_error =
    ExpressionEmpty
  | ExpressionOverlong
  | ParseFailed dsl_error
  | ChangedOnlyForConfig
  | InOnlyForConfig
  | StringComparisonOnlyForConfig
  | AggregationRequired
  | ArithmeticWithoutAggregation
  | SelfDivision
  | DivisionByZeroConstant
  | ThresholdNotFinite pyfloat
  | PercentageRange string
  | PercentageOperator string
  | CompilationFailed dsl_error
  | BadWindow
  | BadSeverity
  | BadName

fun check_config_only :: "string \<Rightarrow> ast \<Rightarrow> validation_error list" where
  "check_config_only tbl (Changed i) = (if tbl \<noteq> ''config'' then [ChangedOnlyForConfig] else [])"
| "check_config_only tbl (InList i vs b) = (if tbl \<noteq> ''config'' then [InOnlyForConfig] else [])"
| "check_config_only tbl (Comparison (LIdent i) op r) =
     (if tbl \<noteq> ''config'' then [StringComparisonOnlyForConfig] else [])"
| "check_config_only tbl (Comparison (LArith a) op r) = []"
| "check_config_only tbl (BoolOp op l r) = check_config_only tbl l @ check_config_only tbl r"

definition is_agg_call :: "arith \<Rightarrow> bool" where
  "is_agg_call a = (case a of AggCall _ _ \<Rightarrow> True | _ \<Rightarrow> False)"

text \<open>The checks of the shape "report \<open>e\<close> for each arithmetic comparison with property \<open>P\<close>".\<close>

fun check_arith :: "(arith \<Rightarrow> bool) \<Rightarrow> validation_error \<Rightarrow> ast \<Rightarrow> validation_error list" where
  "check_arith P e (Comparison (LArith a) op r) = (if P a then [e] else [])"
| "check_arith P e (BoolOp op l r) = check_arith P e l @ check_arith P e r"
| "check_arith P e _ = []"

definition check_bare_arith :: "ast \<Rightarrow> validation_error list" where
  "check_bare_arith = check_arith (\<lambda>a. \<not> is_agg_call a \<and> \<not> has_agg_call a) ArithmeticWithoutAggregation"

definition check_self_div :: "ast \<Rightarrow> validation_error list" where
  "check_self_div = check_arith has_self_div SelfDivision"

definition check_div_zero :: "ast \<Rightarrow> validation_error list" where
  "check_div_zero = check_arith has_div_by_zero_constant DivisionByZeroConstant"

definition check_finite :: "threshold_param list \<Rightarrow> validation_error list" where
  "check_finite tps =
     map (\<lambda>tp. ThresholdNotFinite (tp_default_value tp))
       (filter (\<lambda>tp. \<not> (tp_name tp = tp_param_key tp \<and> feq (tp_default_value tp) (Fin 0))
                    \<and> \<not> is_finite (tp_default_value tp)) tps)"

definition inline_threshold :: "cmp_right \<Rightarrow> pyfloat option" where
  "inline_threshold right =
     (case right of
        RRef ref \<Rightarrow> if tr_is_named ref then None else tr_inline_value ref
      | RFloat v \<Rightarrow> Some v
      | RStr s \<Rightarrow> None)"

definition is_pct_metric :: "string \<Rightarrow> bool" where
  "is_pct_metric m \<longleftrightarrow> ends_with m ''_pct'' \<or> ends_with m ''_percent''"

fun check_pct :: "ast \<Rightarrow> validation_error list" where
  "check_pct (Comparison (LArith a) op right) =
     concat (map (\<lambda>(func, metric).
       if is_pct_metric metric then
         (case inline_threshold right of
            None \<Rightarrow> []
          | Some v \<Rightarrow>
             (if \<not> (fle (Fin 0) v \<and> fle v (Fin 100)) then [PercentageRange metric] else []) @
             (if op \<noteq> ''>'' \<and> op \<noteq> ''>='' then [PercentageOperator metric] else []))
       else []) (collect_agg_calls a))"
| "check_pct (BoolOp op l r) = check_pct l @ check_pct r"
| "check_pct _ = []"

section \<open>Warnings\<close>

datatype validation_warning =
    DivisorZeroSkipped
  | RateOnNonCounter string
  | SinglePollWindow
  | ManyMetrics nat
  | ExclusiveRange string

fun check_rate_metrics :: "ast \<Rightarrow> validation_warning list" where
  "check_rate_metrics (Comparison (LArith a) op right) =
     concat (map (\<lambda>(func, metric).
       if func = ''rate'' \<and> \<not> list_ex (\<lambda>suf. ends_with metric suf) COUNTER_SUFFIXES
       then [RateOnNonCounter metric] else []) (collect_agg_calls a))"
| "check_rate_metrics (BoolOp op l r) = check_rate_metrics l @ check_rate_metrics r"
| "check_rate_metrics _ = []"

primrec arith_repr :: "arith \<Rightarrow> string" where
  "arith_repr (AggCall func metric) = func @ ''('' @ metric @ '')''"
| "arith_repr (ArithOp op l r) = ''('' @ arith_repr l @ op @ arith_repr r @ '')''"
| "arith_repr (NumericLiteral v) = py_repr v"

definition exclusive_ops :: "string \<Rightarrow> string \<Rightarrow> bool" where
  "exclusive_ops o1 o2 \<longleftrightarrow>
     (o1 \<in> {''>'', ''>=''} \<and> o2 \<in> {''<'', ''<=''}) \<or> (o1 \<in> {''<'', ''<=''} \<and> o2 \<in> {''>'', ''>=''})"

definition exclusive_pair :: "ast \<Rightarrow> ast \<Rightarrow> validation_warning list" where
  "exclusive_pair l r =
     (case (l, r) of
        (Comparison (LArith a) o1 _, Comparison (LArith b) o2 _) \<Rightarrow>
          (if arith_repr a = arith_repr b \<and> exclusive_ops o1 o2 then [ExclusiveRange (arith_repr a)] else [])
      | _ \<Rightarrow> [])"

fun check_exclusive_range :: "ast \<Rightarrow> validation_warning list" where
  "check_exclusive_range (BoolOp op l r) =
     (if op = ''AND'' then exclusive_pair l r else []) @
     check_exclusive_range l @ check_exclusive_range r"
| "check_exclusive_range _ = []"

section \<open>\<open>validate_expression\<close>\<close>

record validation_result =
  v_valid :: bool
  v_errors :: "validation_error list"
  v_warnings :: "validation_warning list"
  v_referenced_metrics :: "string list"
  v_threshold_params :: "threshold_param list"
  v_has_aggregation :: bool
  v_has_arithmetic :: bool
  v_has_division :: bool
  v_threshold_refs :: "threshold_ref_info list"

definition invalid :: "validation_error \<Rightarrow> validation_result" where
  "invalid e = \<lparr>v_valid = False, v_errors = [e], v_warnings = [], v_referenced_metrics = [],
     v_threshold_params = [], v_has_aggregation = True, v_has_arithmetic = False,
     v_has_division = False, v_threshold_refs = []\<rparr>"

definition semantic_errors :: "ast \<Rightarrow> string \<Rightarrow> validation_error list" where
  "semantic_errors a tbl =
     (let w = walk a init_wst in
      check_config_only tbl a @
      (if tbl \<noteq> ''config'' \<and> \<not> w_has_agg w then [AggregationRequired] else []) @
      check_bare_arith a @ check_self_div a @ check_div_zero a @
      check_finite (w_thresholds w) @ check_pct a)"

definition compile_errors :: "ast \<Rightarrow> string \<Rightarrow> string option \<Rightarrow> validation_error list" where
  "compile_errors a tbl window =
     (case compile_to_sql a tbl (case window of None \<Rightarrow> ''5m'' | Some s \<Rightarrow> if s = [] then ''5m'' else s) of
        Inl e \<Rightarrow> [CompilationFailed e] | Inr q \<Rightarrow> [])"

definition field_errors :: "string option \<Rightarrow> string option \<Rightarrow> string option \<Rightarrow> validation_error list" where
  "field_errors window severity nm =
     (case window of None \<Rightarrow> [] | Some s \<Rightarrow> if s \<notin> set VALID_WINDOWS then [BadWindow] else []) @
     (case severity of None \<Rightarrow> [] | Some s \<Rightarrow> if s \<notin> set VALID_SEVERITIES then [BadSeverity] else []) @
     (case nm of None \<Rightarrow> [] | Some s \<Rightarrow> if \<not> (1 \<le> length s \<and> length s \<le> 255) then [BadName] else [])"

definition warnings_of :: "ast \<Rightarrow> string option \<Rightarrow> validation_warning list" where
  "warnings_of a window =
     (let w = walk a init_wst in
      (if w_has_div w then [DivisorZeroSkipped] else []) @ check_rate_metrics a @
      (if window = Some ''30s'' then [SinglePollWindow] else []) @
      (if 5 \<le> length (w_metrics w) then [ManyMetrics (length (w_metrics w))] else []) @
      check_exclusive_range a)"

definition validate_expression ::
    "string \<Rightarrow> string \<Rightarrow> string option \<Rightarrow> string option \<Rightarrow> string option \<Rightarrow> validation_result" where
  "validate_expression s tbl window severity nm =
     (if strip s = [] then invalid ExpressionEmpty
      else if MAX_EXPRESSION_LENGTH < length s then invalid ExpressionOverlong
      else case parse_expression s of
          Inl e \<Rightarrow> invalid (ParseFailed e)
        | Inr a \<Rightarrow>
           (let w = walk a init_wst;
                sem = semantic_errors a tbl;
                comp = (if sem = [] then compile_errors a tbl window else []);
                errs = sem @ comp @ field_errors window severity nm
            in \<lparr>v_valid = (errs = []), v_errors = errs, v_warnings = warnings_of a window,
                v_referenced_metrics = w_metrics w, v_threshold_params = w_thresholds w,
                v_has_aggregation = w_has_agg w, v_has_arithmetic = w_has_arith w,
                v_has_division = w_has_div w, v_threshold_refs = w_refs w\<rparr>))"

end
