(* ===== verification/Alert_Sync.thy ===== *)
theory Alert_Sync
  imports Alert_Props Dsl_Validate
begin

text \<open>
  What keeps the tables of the alert engine in step with the configuration: the creation of missing
  instances (\<open>alerting/instance_sync.py\<close> and \<open>_sync_alert_instances\<close> of \<open>scheduler/tasks.py\<close>), the
  reset of old resolved instances (\<open>alerting/cleanup.py\<close>), and the threshold variables that the
  expressions of a definition give rise to (\<open>alerting/threshold_sync.py\<close>).
\<close>

section \<open>Instances\<close>

record app_assignment =
  aa_id :: string
  aa_app_id :: string
  aa_device_id :: "string option"
  aa_enabled :: bool

definition new_entity :: "string \<Rightarrow> string \<Rightarrow> string option \<Rightarrow> bool \<Rightarrow> alert_entity" where
  "new_entity definition_id assignment_id device_id enabled =
     \<lparr>ae_definition_id = definition_id, ae_assignment_id = assignment_id, ae_device_id = device_id,
      ae_enabled = enabled, ae_state = ''ok'', ae_severity = None, ae_current_value = None,
      ae_fire_count = 0, ae_fire_history = [], ae_last_evaluated_at = None, ae_started_firing_at = None,
      ae_current_state_since = None, ae_last_triggered_at = None, ae_last_cleared_at = None,
      ae_entity_key = [], ae_entity_labels = [], ae_metric_values = [], ae_threshold_values = []\<rparr>"

text \<open>
  \<open>scalar_one_or_none\<close> raises on a second row, which the unique constraint of the table rules out.
  The session flushes before each query, so a row just added is found.
\<close>

definition ensure_entity ::
    "string \<Rightarrow> string \<Rightarrow> string option \<Rightarrow> bool \<Rightarrow> alert_entity list \<Rightarrow> py_error + alert_entity list" where
  "ensure_entity d a dev enabled es =
     (case filter (\<lambda>e. log_key e = (d, a)) es of
        [] \<Rightarrow> Inr (es @ [new_entity d a dev enabled])
      | [_] \<Rightarrow> Inr es
      | _ \<Rightarrow> Inl DatabaseError)"

fun ensure_all :: "(string \<times> string \<times> string option \<times> bool) list \<Rightarrow> alert_entity list \<Rightarrow> py_error + alert_entity list" where
  "ensure_all [] es = Inr es"
| "ensure_all ((d, a, dev, enabled) # ws) es = ebind (ensure_entity d a dev enabled es) (ensure_all ws)"

definition sync_instances_for_assignment ::
    "alert_definition list \<Rightarrow> app_assignment \<Rightarrow> alert_entity list \<Rightarrow> py_error + alert_entity list" where
  "sync_instances_for_assignment defs asg es =
     ensure_all (map (\<lambda>d. (ad_id d, aa_id asg, aa_device_id asg, ad_enabled d))
                   (filter (\<lambda>d. ad_app_id d = aa_app_id asg) defs)) es"

definition sync_instances_for_definition ::
    "app_assignment list \<Rightarrow> alert_definition \<Rightarrow> alert_entity list \<Rightarrow> py_error + alert_entity list" where
  "sync_instances_for_definition asgs defn es =
     ensure_all (map (\<lambda>a. (ad_id defn, aa_id a, aa_device_id a, ad_enabled defn))
                   (filter (\<lambda>a. aa_app_id a = ad_app_id defn \<and> aa_enabled a) asgs)) es"

text \<open>
  The periodic pass over all pairs.  The insert is committed as a whole; a violation of the unique
  constraint raises and is logged.
\<close>

definition missing_pairs ::
    "alert_definition list \<Rightarrow> app_assignment list \<Rightarrow> alert_entity list \<Rightarrow> (string \<times> string \<times> string option) list" where
  "missing_pairs defs asgs es =
     concat (map (\<lambda>d. map (\<lambda>a. (ad_id d, aa_id a, aa_device_id a))
       (filter (\<lambda>a. aa_app_id a = ad_app_id d \<and> aa_enabled a \<and> aa_device_id a \<noteq> None \<and>
                    (ad_id d, aa_id a) \<notin> set (map log_key es)) asgs))
       (filter ad_enabled defs))"

definition sync_alert_instances ::
    "alert_definition list \<Rightarrow> app_assignment list \<Rightarrow> alert_entity list \<Rightarrow> alert_entity list" where
  "sync_alert_instances defs asgs es =
     (let es' = es @ map (\<lambda>(d, a, dev). new_entity d a dev True) (missing_pairs defs asgs es)
      in if unique_keys es' then es' else es)"

section \<open>Cleanup\<close>

text \<open>\<open>datetime\<close> arithmetic raises outside of the years 1 to 9999.\<close>

definition datetime_ok :: "time \<Rightarrow> bool" where
  "datetime_ok t \<longleftrightarrow> - 62135596800000000 \<le> t \<and> t \<le> 253402300799999999"

definition retention_cutoff :: "string option \<Rightarrow> time \<Rightarrow> py_error + time" where
  "retention_cutoff setting now =
     ebind (case setting of
              None \<Rightarrow> Inr 7
            | Some s \<Rightarrow> (case int_of_string s of Some n \<Rightarrow> Inr n | None \<Rightarrow> Inl ValueError)) (\<lambda>days.
       let cutoff = now - days * 86400000000
       in if datetime_ok cutoff then Inr cutoff else Inl OverflowError)"

definition cleanup_due :: "time \<Rightarrow> alert_entity \<Rightarrow> bool" where
  "cleanup_due cutoff e \<longleftrightarrow>
     ae_state e = ''resolved'' \<and> (case ae_last_cleared_at e of Some t \<Rightarrow> t < cutoff | None \<Rightarrow> False)"

definition reset_entity :: "alert_entity \<Rightarrow> alert_entity" where
  "reset_entity e = e\<lparr>ae_state := ''ok'', ae_last_cleared_at := None, ae_started_firing_at := None,
     ae_current_state_since := None, ae_last_triggered_at := None, ae_current_value := None,
     ae_fire_count := 0, ae_fire_history := []\<rparr>"

definition cleanup_resolved_instances ::
    "string option \<Rightarrow> time \<Rightarrow> alert_entity list \<Rightarrow> py_error + (nat \<times> alert_entity list)" where
  "cleanup_resolved_instances setting now es =
     ebind (retention_cutoff setting now) (\<lambda>cutoff.
       Inr (length (filter (cleanup_due cutoff) es), map (\<lambda>e. if cleanup_due cutoff e then reset_entity e else e) es))"

section \<open>Threshold variables\<close>

record pack_hint =
  ph_param_key :: "string option"
  ph_display_name :: "string option"
  ph_unit :: "string option"
  ph_description :: "string option"

definition no_hint :: pack_hint where
  "no_hint = \<lparr>ph_param_key = None, ph_display_name = None, ph_unit = None, ph_description = None\<rparr>"

text \<open>\<open>str.title\<close> on word characters, and \<open>sub in s\<close>.\<close>

fun title_from :: "bool \<Rightarrow> string \<Rightarrow> string" where
  "title_from in_word [] = []"
| "title_from in_word (c # cs) =
     (if is_upper c \<or> is_lower c then (if in_word then to_lower c else to_upper c) # title_from True cs
      else c # title_from False cs)"

fun has_substring :: "string \<Rightarrow> string \<Rightarrow> bool" where
  "has_substring sub [] \<longleftrightarrow> sub = []"
| "has_substring sub (c # cs) \<longleftrightarrow> take (length sub) (c # cs) = sub \<or> has_substring sub cs"

definition auto_display_name :: "string \<Rightarrow> string" where
  "auto_display_name param_name =
     (let nm = (if ends_with param_name ''_threshold''
                then take (length param_name - length ''_threshold'') param_name else param_name)
      in title_from False (map (\<lambda>c. if c = CHR ''_'' then CHR '' '' else c) nm))"

definition auto_detect_unit :: "string \<Rightarrow> string option" where
  "auto_detect_unit param_name =
     (let nm = lower param_name; has = list_ex (\<lambda>sub. has_substring sub nm)
      in if has [''_pct'', ''_percent'', ''utilization''] then Some ''percent''
         else if has [''_ms'', ''latency'', ''rtt''] then Some ''ms''
         else if has [''_bytes'', ''_octets''] then Some ''bytes''
         else if has [''_count'', ''_errors'', ''_pkts''] then Some ''count''
         else None)"

text \<open>The references of the valid expressions of all tiers, in order.\<close>

definition tier_refs :: "string \<Rightarrow> tier \<Rightarrow> threshold_ref_info list" where
  "tier_refs tbl t =
     (case tier_get t ''expression'' of
        None \<Rightarrow> []
      | Some expr \<Rightarrow>
          (let v = validate_expression expr tbl None None None
           in if expr = [] \<or> \<not> v_valid v then [] else v_threshold_refs v))"

definition collect_refs :: "string \<Rightarrow> tier list \<Rightarrow> threshold_ref_info list" where
  "collect_refs tbl tiers = concat (map (tier_refs tbl) tiers)"

definition hints_of :: "pack_hint list \<Rightarrow> (string, pack_hint) dict" where
  "hints_of hs = fold (\<lambda>h d. case ph_param_key h of
     Some k \<Rightarrow> if k = [] then d else dict_set k h d | None \<Rightarrow> d) hs []"

definition or_else :: "string option \<Rightarrow> string option \<Rightarrow> string option" where
  "or_else x y = (case x of Some s \<Rightarrow> if s = [] then y else x | None \<Rightarrow> y)"

definition new_variable :: "time \<Rightarrow> string \<Rightarrow> pack_hint \<Rightarrow> string \<Rightarrow> pyfloat \<Rightarrow> threshold_variable" where
  "new_variable now app hint nm v =
     \<lparr>tv_app_id = app, tv_name = nm, tv_display_name = or_else (ph_display_name hint) (Some (auto_display_name nm)),
      tv_description = ph_description hint, tv_default_value = v, tv_app_value = None,
      tv_unit = or_else (ph_unit hint) (auto_detect_unit nm), tv_updated_at = now\<rparr>"

definition is_var :: "string \<Rightarrow> string \<Rightarrow> threshold_variable \<Rightarrow> bool" where
  "is_var app nm v \<longleftrightarrow> tv_app_id v = app \<and> tv_name v = nm"

definition set_default :: "time \<Rightarrow> pyfloat \<Rightarrow> threshold_variable \<Rightarrow> threshold_variable" where
  "set_default now v var =
     (if feq (tv_default_value var) v then var else var\<lparr>tv_default_value := v, tv_updated_at := now\<rparr>)"

text \<open>
  The variables of an app have distinct names (a unique constraint), so the rows are looked up and
  changed by app and name.  Names seen before are skipped; a missing named one is a warning.
\<close>

definition upsert_variable ::
    "time \<Rightarrow> string \<Rightarrow> (string, pack_hint) dict \<Rightarrow> string \<Rightarrow> pyfloat \<Rightarrow> threshold_variable list \<Rightarrow> threshold_variable list" where
  "upsert_variable now app hints nm v vars =
     (if list_ex (is_var app nm) vars
      then map (\<lambda>var. if is_var app nm var then set_default now v var else var) vars
      else vars @ [new_variable now app (dict_get hints nm no_hint) nm v])"

fun sync_refs ::
    "time \<Rightarrow> string \<Rightarrow> (string, pack_hint) dict \<Rightarrow> threshold_ref_info list \<Rightarrow> (string \<times> bool) list \<Rightarrow>
     threshold_variable list \<Rightarrow> string list \<Rightarrow> threshold_variable list \<times> string list" where
  "sync_refs now app hints [] seen vars ws = (vars, ws)"
| "sync_refs now app hints (r # rs) seen vars ws =
     (let key = (ri_name r, ri_is_named r)
      in if key \<in> set seen then sync_refs now app hints rs seen vars ws
         else if ri_is_named r then
           sync_refs now app hints rs (key # seen) vars
             (if list_ex (is_var app (ri_name r)) vars then ws else ws @ [ri_name r])
         else sync_refs now app hints rs (key # seen)
                (case ri_inline_value r of
                   Some v \<Rightarrow> upsert_variable now app hints (ri_name r) v vars | None \<Rightarrow> vars) ws)"

definition sync_threshold_variables ::
    "time \<Rightarrow> string \<Rightarrow> alert_definition \<Rightarrow> string \<Rightarrow> pack_hint list \<Rightarrow> threshold_variable list \<Rightarrow> threshold_variable list \<times> string list" where
  "sync_threshold_variables now app defn target_table hints vars =
     sync_refs now app (hints_of hints) (collect_refs target_table (ad_severity_tiers defn)) [] vars []"

end
