(* ===== verification/Alert_Sync_Props.thy ===== *)
theory Alert_Sync_Props
  imports Alert_Sync
begin

text \<open>
  Properties of the synchronisation: the instances stay unique and well-formed and none is missing
  afterwards, and each threshold variable has the value of the first expression that gives one.
\<close>

section \<open>Instances\<close>

lemma new_entity_ok [simp]: "entity_ok (new_entity d a dev b)"
  by (simp add: entity_ok_def new_entity_def)

lemma new_entity_key [simp]: "log_key (new_entity d a dev b) = (d, a)"
  by (simp add: log_key_def new_entity_def)

lemma filter_key_unique:
  assumes "unique_keys es"
  shows "filter (\<lambda>e. log_key e = k) es = [] \<or> (\<exists>e. filter (\<lambda>e. log_key e = k) es = [e])"
proof -
  let ?f = "filter (\<lambda>e. log_key e = k) es"
  have "distinct (map log_key ?f)" using assms by (simp add: unique_keys_def distinct_map_filter_key)
  moreover have "set (map log_key ?f) \<subseteq> {k}" by auto
  ultimately have "length ?f \<le> 1" by (metis card_mono card.empty card_insert_disjoint distinct_card empty_iff
        finite.emptyI finite_insert length_map One_nat_def)
  then show ?thesis by (cases ?f) auto
qed

lemma ensure_entity_spec:
  assumes "unique_keys es"
  shows "\<exists>news. ensure_entity d a dev b es = Inr (es @ news) \<and> unique_keys (es @ news) \<and>
    (d, a) \<in> set (map log_key (es @ news)) \<and> (\<forall>e \<in> set news. entity_ok e \<and> log_key e = (d, a))"
proof (cases "filter (\<lambda>e. log_key e = (d, a)) es = []")
  case True
  then have "(d, a) \<notin> set (map log_key es)" by (auto simp: filter_empty_conv)
  then show ?thesis using assms True
    by (intro exI [of _ "[new_entity d a dev b]"]) (simp add: ensure_entity_def unique_keys_def)
next
  case False
  then obtain e where e: "filter (\<lambda>e. log_key e = (d, a)) es = [e]" using filter_key_unique [OF assms] by blast
  have "e \<in> set (filter (\<lambda>e. log_key e = (d, a)) es)" unfolding e by simp
  then have "(d, a) \<in> set (map log_key es)" by force
  then show ?thesis using assms e by (intro exI [of _ "[]"]) (simp add: ensure_entity_def)
qed

lemma ensure_all_spec:
  assumes "unique_keys es"
  shows "\<exists>news. ensure_all ws es = Inr (es @ news) \<and> unique_keys (es @ news) \<and>
    (\<forall>(d, a, dev, b) \<in> set ws. (d, a) \<in> set (map log_key (es @ news))) \<and>
    (\<forall>e \<in> set news. entity_ok e \<and> log_key e \<in> (\<lambda>(d, a, dev, b). (d, a)) ` set ws)"
  using assms
proof (induction ws arbitrary: es)
  case Nil
  then show ?case by (intro exI [of _ "[]"]) simp
next
  case (Cons w ws)
  obtain d a dev b where w: "w = (d, a, dev, b)" by (cases w)
  obtain n1 where n1: "ensure_entity d a dev b es = Inr (es @ n1)" "unique_keys (es @ n1)"
    "(d, a) \<in> set (map log_key (es @ n1))" "\<forall>e \<in> set n1. entity_ok e \<and> log_key e = (d, a)"
    using ensure_entity_spec [OF Cons.prems] by blast
  obtain n2 where n2: "ensure_all ws (es @ n1) = Inr (es @ n1 @ n2)" "unique_keys (es @ n1 @ n2)"
    "\<forall>(d, a, dev, b) \<in> set ws. (d, a) \<in> set (map log_key (es @ n1 @ n2))"
    "\<forall>e \<in> set n2. entity_ok e \<and> log_key e \<in> (\<lambda>(d, a, dev, b). (d, a)) ` set ws"
    using Cons.IH [OF n1(2)] unfolding append_assoc by blast
  show ?case
  proof (intro exI [of _ "n1 @ n2"] conjI)
    show "ensure_all (w # ws) es = Inr (es @ n1 @ n2)" using n1(1) n2(1) by (simp add: w)
    show "unique_keys (es @ n1 @ n2)" by (rule n2(2))
    show "\<forall>(d, a, dev, b) \<in> set (w # ws). (d, a) \<in> set (map log_key (es @ n1 @ n2))"
      using n1(3) n2(3) by (auto simp: w)
    show "\<forall>e \<in> set (n1 @ n2). entity_ok e \<and> log_key e \<in> (\<lambda>(d, a, dev, b). (d, a)) ` set (w # ws)"
      using n1(4) n2(4) by (auto simp: w)
  qed
qed

section \<open>The periodic pass\<close>

lemma set_missing_pairs:
  "(d, a, dev) \<in> set (missing_pairs defs asgs es) \<longleftrightarrow>
   (\<exists>x \<in> set defs. \<exists>y \<in> set asgs. d = ad_id x \<and> a = aa_id y \<and> dev = aa_device_id y \<and> ad_enabled x \<and>
      aa_app_id y = ad_app_id x \<and> aa_enabled y \<and> dev \<noteq> None \<and> (d, a) \<notin> set (map log_key es))"
  by (auto simp: missing_pairs_def)

lemma distinct_pairs:
  assumes "distinct (map f xs)" and "distinct (map g ys)"
  shows "distinct (concat (map (\<lambda>x. map (\<lambda>y. (f x, g y)) (filter (P x) ys)) xs))"
  using assms(1)
proof (induction xs)
  case (Cons x xs)
  have "distinct (map (\<lambda>y. (f x, g y)) (filter (P x) ys))"
    using assms(2) by (auto simp: distinct_map inj_on_def)
  then show ?case using Cons by auto
qed simp

lemma missing_pairs_distinct:
  assumes "distinct (map ad_id defs)" and "distinct (map aa_id asgs)"
  shows "distinct (map (\<lambda>(d, a, dev). (d, a)) (missing_pairs defs asgs es))"
proof -
  have "map (\<lambda>(d, a, dev). (d, a)) (missing_pairs defs asgs es) =
    concat (map (\<lambda>d. map (\<lambda>a. (ad_id d, aa_id a)) (filter (\<lambda>a. aa_app_id a = ad_app_id d \<and> aa_enabled a \<and> aa_device_id a \<noteq> None \<and>
      (ad_id d, aa_id a) \<notin> set (map log_key es)) asgs)) (filter ad_enabled defs))"
    by (simp add: missing_pairs_def map_concat comp_def)
  then show ?thesis using distinct_pairs [OF distinct_map_filter_key [OF assms(1), of ad_enabled] assms(2)] by simp
qed

lemma sync_alert_instances_spec:
  assumes "unique_keys es" and "distinct (map ad_id defs)" and "distinct (map aa_id asgs)"
  shows "sync_alert_instances defs asgs es = es @ map (\<lambda>(d, a, dev). new_entity d a dev True) (missing_pairs defs asgs es)"
    and "unique_keys (sync_alert_instances defs asgs es)"
proof -
  let ?m = "missing_pairs defs asgs es"
  have k: "map log_key (map (\<lambda>(d, a, dev). new_entity d a dev True) ?m) = map (\<lambda>(d, a, dev). (d, a)) ?m" by (simp add: split_def)
  have "set (map log_key es) \<inter> set (map (\<lambda>(d, a, dev). (d, a)) ?m) = {}" using set_missing_pairs by fastforce
  then have u: "unique_keys (es @ map (\<lambda>(d, a, dev). new_entity d a dev True) ?m)"
    using assms(1) missing_pairs_distinct [OF assms(2,3)] unfolding unique_keys_def map_append k distinct_append by blast
  then show "sync_alert_instances defs asgs es = es @ map (\<lambda>(d, a, dev). new_entity d a dev True) ?m"
    by (simp add: sync_alert_instances_def)
  with u show "unique_keys (sync_alert_instances defs asgs es)" by simp
qed

lemma sync_alert_instances_new:
  "e \<in> set (sync_alert_instances defs asgs es) \<Longrightarrow> e \<in> set es \<or> (entity_ok e \<and> ae_assignment_id e \<in> aa_id ` set asgs)"
  by (auto simp: sync_alert_instances_def Let_def set_missing_pairs new_entity_def entity_ok_def split: if_splits)

lemma sync_alert_instances_unique: "unique_keys es \<Longrightarrow> unique_keys (sync_alert_instances defs asgs es)"
  by (simp add: sync_alert_instances_def Let_def)

section \<open>Cleanup\<close>

lemma reset_entity_facts [simp]:
  "log_key (reset_entity e) = log_key e" "ae_assignment_id (reset_entity e) = ae_assignment_id e"
  by (simp_all add: reset_entity_def log_key_def)

lemma reset_entity_ok: "entity_ok e \<Longrightarrow> cleanup_due c e \<Longrightarrow> entity_ok (reset_entity e)"
  by (auto simp: entity_ok_def cleanup_due_def reset_entity_def)

lemma cleanup_keeps:
  assumes "cleanup_resolved_instances setting now es = Inr (n, es')"
  shows "map log_key es' = map log_key es" and "list_all2 (\<lambda>e e'. entity_ok e \<longrightarrow> entity_ok e') es es'"
    and "list_all2 (\<lambda>e e'. ae_state e \<noteq> ''resolved'' \<longrightarrow> e' = e) es es'"
  using assms
  by (auto simp: cleanup_resolved_instances_def list_all2_conv_all_nth reset_entity_ok cleanup_due_def)

section \<open>Threshold variables\<close>

lemma feq_eq: "feq a b \<Longrightarrow> a = b"
  by (cases a; cases b) (auto simp: feq_def)

lemma set_default_value [simp]: "tv_default_value (set_default now v var) = v"
  using feq_eq by (auto simp: set_default_def)

lemma set_default_sel [simp]:
  "tv_app_id (set_default now v var) = tv_app_id var" "tv_name (set_default now v var) = tv_name var"
  "tv_app_value (set_default now v var) = tv_app_value var"
  by (simp_all add: set_default_def)

lemma is_var_set_default [simp]: "is_var app nm (set_default now v var) = is_var app nm var"
  by (simp add: is_var_def)

lemma new_variable_sel [simp]:
  "is_var app' nm' (new_variable now app h nm v) \<longleftrightarrow> app' = app \<and> nm' = nm"
  "tv_default_value (new_variable now app h nm v) = v" "tv_app_value (new_variable now app h nm v) = None"
  by (auto simp: new_variable_def is_var_def)

definition var_of :: "threshold_variable list \<Rightarrow> string \<Rightarrow> string \<Rightarrow> threshold_variable option" where
  "var_of vars app nm = find (is_var app nm) vars"

lemma list_ex_var: "list_ex (is_var app nm) vars \<longleftrightarrow> var_of vars app nm \<noteq> None"
  by (auto simp: var_of_def list_ex_iff find_None_iff)

lemma find_map_keep: "(\<And>x. P (f x) = P x) \<Longrightarrow> find P (map f xs) = map_option f (find P xs)"
  by (induction xs) auto

lemma find_append: "find P (xs @ ys) = (case find P xs of Some x \<Rightarrow> Some x | None \<Rightarrow> find P ys)"
  by (induction xs) auto

lemma upsert_variable_other:
  assumes "(app', nm') \<noteq> (app, nm)"
  shows "var_of (upsert_variable now app hints nm v vars) app' nm' = var_of vars app' nm'"
proof (cases "list_ex (is_var app nm) vars")
  case True
  have "find (is_var app' nm') (map (\<lambda>var. if is_var app nm var then set_default now v var else var) vars) =
    map_option (\<lambda>var. if is_var app nm var then set_default now v var else var) (find (is_var app' nm') vars)"
    by (rule find_map_keep) auto
  moreover have "\<not> is_var app nm x" if "find (is_var app' nm') vars = Some x" for x
    using that assms by (auto simp: find_Some_iff is_var_def)
  ultimately show ?thesis
    using True by (cases "find (is_var app' nm') vars") (auto simp: upsert_variable_def var_of_def)
next
  case False
  then show ?thesis using assms by (auto simp: upsert_variable_def var_of_def find_append split: option.splits)
qed

lemma upsert_variable_own:
  "\<exists>var. var_of (upsert_variable now app hints nm v vars) app nm = Some var \<and> tv_default_value var = v \<and>
     tv_app_value var = Option.bind (var_of vars app nm) tv_app_value"
proof (cases "list_ex (is_var app nm) vars")
  case True
  then obtain var where var: "find (is_var app nm) vars = Some var" by (auto simp: list_ex_var var_of_def)
  have "find (is_var app nm) (map (\<lambda>var. if is_var app nm var then set_default now v var else var) vars) =
    map_option (\<lambda>var. if is_var app nm var then set_default now v var else var) (find (is_var app nm) vars)"
    by (rule find_map_keep) auto
  moreover have "is_var app nm var" using var by (auto simp: find_Some_iff)
  ultimately show ?thesis using True var by (simp add: upsert_variable_def var_of_def)
next
  case False
  then have "find (is_var app nm) vars = None" by (simp add: list_ex_var var_of_def)
  then show ?thesis using False by (simp add: upsert_variable_def var_of_def find_append)
qed

text \<open>The number the first inline reference of a name gives.\<close>

fun first_inline :: "threshold_ref_info list \<Rightarrow> string \<Rightarrow> pyfloat option" where
  "first_inline [] nm = None"
| "first_inline (r # rs) nm =
     (if ri_name r = nm \<and> \<not> ri_is_named r then ri_inline_value r else first_inline rs nm)"

lemma sync_refs_seen:
  "(nm, False) \<in> set seen \<or> app' \<noteq> app \<Longrightarrow>
   var_of (fst (sync_refs now app hints rs seen vars ws)) app' nm = var_of vars app' nm"
proof (induction rs arbitrary: seen vars ws)
  case (Cons r rs)
  show ?case
  proof (cases "(ri_name r, ri_is_named r) \<in> set seen \<or> ri_is_named r")
    case True
    then show ?thesis using Cons by (cases "ri_is_named r") (simp_all add: Let_def)
  next
    case False
    then have "(app', nm) \<noteq> (app, ri_name r)" using Cons.prems by auto
    then have "var_of (case ri_inline_value r of Some v \<Rightarrow> upsert_variable now app hints (ri_name r) v vars | None \<Rightarrow> vars) app' nm =
        var_of vars app' nm" by (auto simp: upsert_variable_other split: option.splits)
    then show ?thesis using False Cons by (simp add: Let_def)
  qed
qed simp

lemma sync_refs_first:
  assumes "(nm, False) \<notin> set seen"
  shows "case first_inline rs nm of
      None \<Rightarrow> var_of (fst (sync_refs now app hints rs seen vars ws)) app nm = var_of vars app nm
    | Some v \<Rightarrow> (\<exists>var. var_of (fst (sync_refs now app hints rs seen vars ws)) app nm = Some var \<and> tv_default_value var = v \<and>
        tv_app_value var = Option.bind (var_of vars app nm) tv_app_value)"
  using assms
proof (induction rs arbitrary: seen vars ws)
  case (Cons r rs)
  show ?case
  proof (cases "ri_name r = nm \<and> \<not> ri_is_named r")
    case True
    then have s: "sync_refs now app hints (r # rs) seen vars ws = sync_refs now app hints rs ((nm, False) # seen)
        (case ri_inline_value r of Some v \<Rightarrow> upsert_variable now app hints nm v vars | None \<Rightarrow> vars) ws"
      using Cons.prems by auto
    show ?thesis unfolding s using True upsert_variable_own [of now app hints nm _ vars]
      by (auto simp: sync_refs_seen split: option.splits)
  next
    case False
    then have up: "var_of (case ri_inline_value r of Some v \<Rightarrow> upsert_variable now app hints (ri_name r) v vars | None \<Rightarrow> vars) app nm =
        var_of vars app nm" if "\<not> ri_is_named r"
      using that by (auto simp: upsert_variable_other split: option.splits)
    obtain seen' vars' ws' where st: "sync_refs now app hints (r # rs) seen vars ws = sync_refs now app hints rs seen' vars' ws'"
      "(nm, False) \<notin> set seen'" "var_of vars' app nm = var_of vars app nm"
    proof (cases "(ri_name r, ri_is_named r) \<in> set seen")
      case True
      then show ?thesis using that [of seen vars ws] Cons.prems by simp
    next
      case new: False
      have "(nm, False) \<notin> set ((ri_name r, ri_is_named r) # seen)" using False Cons.prems by auto
      then show ?thesis using that new up by (cases "ri_is_named r") (simp_all add: Let_def)
    qed
    have "first_inline (r # rs) nm = first_inline rs nm" using False by auto
    with Cons.IH [OF st(2), of vars' ws'] show ?thesis unfolding st(1,3) by simp
  qed
qed simp

section \<open>What a query is run with\<close>

definition vars_ok :: "threshold_variable list \<Rightarrow> bool" where
  "vars_ok vars \<longleftrightarrow> distinct (map (\<lambda>v. (tv_app_id v, tv_name v)) vars)"

lemma fold_dict_set_other:
  "k \<notin> f ` set xs \<Longrightarrow> map_of (fold (\<lambda>v d. dict_set (f v) v d) xs d) k = map_of d k"
  by (induction xs arbitrary: d) auto

lemma fold_dict_set_find:
  "distinct (map f xs) \<Longrightarrow>
   map_of (fold (\<lambda>v d. dict_set (f v) v d) xs d) k = (case find (\<lambda>v. f v = k) xs of Some v \<Rightarrow> Some v | None \<Rightarrow> map_of d k)"
proof (induction xs arbitrary: d)
  case (Cons x xs)
  show ?case
  proof (cases "f x = k")
    case True
    then have "k \<notin> f ` set xs" using Cons.prems by auto
    then show ?thesis using True by (simp add: fold_dict_set_other)
  next
    case False
    then show ?thesis using Cons by (auto split: option.splits)
  qed
qed simp

lemma find_filter: "find P (filter Q xs) = find (\<lambda>x. Q x \<and> P x) xs"
  by (induction xs) auto

lemma var_by_name_of:
  assumes "vars_ok (db_variables db)"
  shows "map_of (var_by_name db app) nm = var_of (db_variables db) app nm"
proof -
  let ?vs = "filter (\<lambda>v. tv_app_id v = app) (db_variables db)"
  have "distinct (map tv_name ?vs)"
    using assms by (auto simp: vars_ok_def distinct_map inj_on_def)
  from fold_dict_set_find [OF this, of "[]" nm] show ?thesis
    by (simp add: var_by_name_def var_of_def find_filter is_var_def [abs_def] split: option.splits)
qed

lemma upsert_variable_vars_ok: "vars_ok vars \<Longrightarrow> vars_ok (upsert_variable now app hints nm v vars)"
proof -
  assume ok: "vars_ok vars"
  have "map (\<lambda>v. (tv_app_id v, tv_name v)) (map (\<lambda>var. if is_var app nm var then set_default now v var else var) vars) =
      map (\<lambda>v. (tv_app_id v, tv_name v)) vars" by simp
  moreover have "(app, nm) \<notin> (\<lambda>v. (tv_app_id v, tv_name v)) ` set vars" if "\<not> list_ex (is_var app nm) vars"
    using that by (auto simp: list_ex_iff is_var_def)
  ultimately show ?thesis using ok
    by (auto simp: vars_ok_def upsert_variable_def new_variable_def comp_def cong: map_cong)
qed

lemma sync_refs_vars_ok: "vars_ok vars \<Longrightarrow> vars_ok (fst (sync_refs now app hints rs seen vars ws))"
  by (induction rs arbitrary: seen vars ws)
     (auto simp: Let_def upsert_variable_vars_ok split: option.splits)

section \<open>Results\<close>

definition demo_sync_definition :: alert_definition where
  "demo_sync_definition = \<lparr>ad_id = ''d1'', ad_app_id = ''app'', ad_app_name = ''Ping'', ad_target_table = ''metrics'',
     ad_name = ''Loss'', ad_severity_tiers = [[(''severity'', Some ''warning''), (''expression'', Some ''avg(loss) > 0'')]],
     ad_window = ''5m'', ad_enabled = True\<rparr>"

definition demo_assignment :: app_assignment where
  "demo_assignment = \<lparr>aa_id = ''a1'', aa_app_id = ''app'', aa_device_id = Some ''dev'', aa_enabled = True\<rparr>"

lemma demo_refs: "first_inline (collect_refs ''metrics'' (ad_severity_tiers demo_sync_definition)) ''loss_threshold'' = Some (Fin 0)"
  by code_simp



text \<open>
  What an inline threshold is compared with after its definition is synchronised: the value the
  operator set on the app, and otherwise the number of the first tier that uses the name.  The
  name is made from the metric, so a later tier with another number for the same metric is run
  with the first tier's number.
\<close>

theorem threshold_sync_effective:
  assumes "vars_ok vars" and "first_inline (collect_refs tbl (ad_severity_tiers defn)) (tp_name tp) = Some v"
    and "db_variables db = fst (sync_threshold_variables now app defn tbl hints vars)"
  shows "map_of (resolve_threshold (var_by_name db app) tp ps) (tp_param_key tp) =
    Some (PFloat (case Option.bind (var_of vars app (tp_name tp)) tv_app_value of Some x \<Rightarrow> x | None \<Rightarrow> v))"
proof -
  let ?vars = "fst (sync_threshold_variables now app defn tbl hints vars)"
  have ok: "vars_ok ?vars" unfolding sync_threshold_variables_def by (rule sync_refs_vars_ok [OF assms(1)])
  obtain var where var: "var_of ?vars app (tp_name tp) = Some var" "tv_default_value var = v"
    "tv_app_value var = Option.bind (var_of vars app (tp_name tp)) tv_app_value"
    using sync_refs_first [where nm = "tp_name tp" and seen = "[]" and rs = "collect_refs tbl (ad_severity_tiers defn)"
      and now = now and app = app and hints = "hints_of hints" and vars = vars and ws = "[]"]
      assms(2) by (auto simp: sync_threshold_variables_def)
  have "map_of (var_by_name db app) (tp_name tp) = Some var"
    using var_by_name_of [of db app "tp_name tp"] ok var(1) assms(3) by simp
  then show ?thesis using var(2,3) by (auto simp: resolve_threshold_def split: option.splits)
qed

theorem threshold_sync_effective_witness:
  "map_of (resolve_threshold (var_by_name \<lparr>db_definitions = [], db_entities = [], db_devices = [], db_tenants = [],
       db_variables = fst (sync_threshold_variables 0 ''app'' demo_sync_definition ''metrics'' [] []), db_alert_log = []\<rparr> ''app'')
     \<lparr>tp_name = ''loss_threshold'', tp_default_value = Fin 0, tp_param_key = ''_threshold_0''\<rparr> []) ''_threshold_0'' =
   Some (PFloat (Fin 0))"
  using threshold_sync_effective [of "[]" "''metrics''" demo_sync_definition
      "\<lparr>tp_name = ''loss_threshold'', tp_default_value = Fin 0, tp_param_key = ''_threshold_0''\<rparr>" "Fin 0"] demo_refs
  by (simp add: vars_ok_def var_of_def demo_sync_definition_def)

text \<open>Two tiers on one metric with different numbers share one variable, which has the first number.\<close>

lemma threshold_sync_conflict:
  assumes "collect_refs tbl (ad_severity_tiers defn) =
      [\<lparr>ri_name = nm, ri_is_named = False, ri_inline_value = Some v\<rparr>, \<lparr>ri_name = nm, ri_is_named = False, ri_inline_value = Some w\<rparr>]"
    and "vars_ok vars" and "db_variables db = fst (sync_threshold_variables now app defn tbl hints vars)"
    and "var_of vars app nm = None" and "tp_name tp = nm"
  shows "map_of (resolve_threshold (var_by_name db app) tp ps) (tp_param_key tp) = Some (PFloat v)"
proof -
  let ?vars = "fst (sync_threshold_variables now app defn tbl hints vars)"
  have "var_of ?vars app nm = var_of (upsert_variable now app (hints_of hints) nm v vars) app nm"
    using assms(1) by (simp add: sync_threshold_variables_def)
  then obtain var where "var_of ?vars app nm = Some var" "tv_default_value var = v" "tv_app_value var = None"
    using upsert_variable_own [of now app "hints_of hints" nm v vars] assms(4) by auto
  moreover have "vars_ok ?vars" unfolding sync_threshold_variables_def by (rule sync_refs_vars_ok [OF assms(2)])
  ultimately show ?thesis
    using var_by_name_of [of db app nm] assms(3,5) by (simp add: resolve_threshold_def)
qed

end
