(* ===== verification/Incident_Props.thy ===== *)
theory Incident_Props
  imports Incident_Engine Alert_Props
begin

text \<open>
  Properties of the incident engine: the ladders that pass validation and what climbing them
  does, how an incident may evolve over a cycle, that a rule never has two open incidents for
  one entity, and what opens, holds and clears an incident.
\<close>

section \<open>Ladders\<close>

definition ladder_ok :: "ladder \<Rightarrow> bool" where
  "ladder_ok l \<longleftrightarrow> l \<noteq> [] \<and> fst (hd l) = 0 \<and> sorted_wrt (\<lambda>a b. fst a < fst b) l \<and>
     sorted_wrt (\<lambda>a b. priority (snd a) \<le> priority (snd b)) l \<and> (\<forall>(a, s) \<in> set l. 0 \<le> priority s)"

lemma ladder_entries_Cons:
  assumes "ladder_entries (e # es) ls lp = Inr (Some l)"
  obtains after sev l' where "l = (after, sev) # l'" "ladder_entries es after (priority sev) = Inr (Some l')"
    "0 \<le> after" "ls < after" "lp \<le> priority sev" "0 \<le> priority sev"
  using assms
  by (auto simp: priority_known_iff not_less not_le split: json.splits option.splits if_splits)

lemma ladder_entries_ok:
  "ladder_entries es ls lp = Inr (Some l) \<Longrightarrow>
     sorted_wrt (\<lambda>a b. fst a < fst b) l \<and> sorted_wrt (\<lambda>a b. priority (snd a) \<le> priority (snd b)) l \<and>
     (\<forall>(a, s) \<in> set l. ls < a \<and> lp \<le> priority s \<and> 0 \<le> priority s) \<and> length l = length es"
proof (induction es arbitrary: ls lp l)
  case (Cons e es)
  from Cons.prems obtain after sev l' where l: "l = (after, sev) # l'"
    and rest: "ladder_entries es after (priority sev) = Inr (Some l')"
    and b: "ls < after" "lp \<le> priority sev" "0 \<le> priority sev" by (rule ladder_entries_Cons)
  from Cons.IH [OF rest] b show ?case unfolding l by fastforce
qed simp

lemma validate_ladder_ok: "validate_ladder raw = Inr (Some l) \<Longrightarrow> ladder_ok l"
  using ladder_entries_ok
  by (fastforce simp: validate_ladder_def ladder_ok_def simp del: ladder_entries.simps
      split: json.splits list.splits option.splits if_splits)

lemma find_snoc: "find P (xs @ [x]) = (case find P xs of Some y \<Rightarrow> Some y | None \<Rightarrow> if P x then Some x else None)"
  by (induction xs) auto

lemma find_rev: "find P (rev xs) = (if filter P xs = [] then None else Some (last (filter P xs)))"
  by (induction xs) (auto simp: find_snoc)

definition reached :: "pyfloat \<Rightarrow> ladder \<Rightarrow> ladder" where
  "reached v l = filter (\<lambda>(a, _). fle (Fin (of_int a)) v) l"

lemma ladder_severity_reached:
  "ladder_severity_at l v = snd (if reached v l = [] then hd l else last (reached v l))"
  by (simp add: ladder_severity_at_def find_rev reached_def split: prod.splits)

lemma reached_mono: "fle v w \<Longrightarrow> set (reached v l) \<subseteq> set (reached w l)"
  by (auto simp: reached_def intro: fle_trans)

lemma sorted_wrt_hd_last:
  assumes "sorted_wrt R xs" and "\<And>x. R x x" and "x \<in> set xs"
  shows "R (hd xs) x \<and> R x (last xs)"
  using assms
proof (induction xs)
  case (Cons y ys)
  then show ?case by (cases "ys = []") auto
qed simp

lemma reached_last_le:
  assumes "ladder_ok l" and "(a, s) \<in> set (reached v l)"
  shows "priority s \<le> priority (snd (last (reached v l)))"
proof -
  have "sorted_wrt (\<lambda>a b. priority (snd a) \<le> priority (snd b)) (reached v l)"
    using assms(1) by (simp add: reached_def ladder_ok_def sorted_wrt_filter)
  from sorted_wrt_hd_last [OF this _ assms(2)] show ?thesis by simp
qed

lemma ladder_ok_hd: "ladder_ok l \<Longrightarrow> x \<in> set l \<Longrightarrow> priority (snd (hd l)) \<le> priority (snd x)"
  using sorted_wrt_hd_last [of "\<lambda>a b. priority (snd a) \<le> priority (snd b)" l x] by (simp add: ladder_ok_def)

lemma ladder_severity_in: "ladder_ok l \<Longrightarrow> \<exists>a. (a, ladder_severity_at l v) \<in> set l"
proof -
  assume ok: "ladder_ok l"
  let ?x = "if reached v l = [] then hd l else last (reached v l)"
  have "?x \<in> set l" using ok last_in_set [of "reached v l"] by (auto simp: ladder_ok_def reached_def)
  then have "(fst ?x, snd ?x) \<in> set l" by simp
  then show ?thesis unfolding ladder_severity_reached by blast
qed

text \<open>Climbing: later is never less severe, and every step reached is accounted for.\<close>

lemma ladder_severity_mono:
  assumes ok: "ladder_ok l" and "fle v w"
  shows "priority (ladder_severity_at l v) \<le> priority (ladder_severity_at l w)"
proof (cases "reached v l = []")
  case True
  then show ?thesis
    using ladder_ok_hd [OF ok] ladder_severity_in [OF ok, of w] by (auto simp: ladder_severity_reached [of l v])
next
  case False
  then have m: "last (reached v l) \<in> set (reached w l)" using reached_mono [OF assms(2)] last_in_set by blast
  then have "reached w l \<noteq> []" by auto
  then show ?thesis
    using False reached_last_le [OF ok, of "fst (last (reached v l))" "snd (last (reached v l))" w] m
    by (simp add: ladder_severity_reached)
qed

lemma ladder_severity_reaches:
  "ladder_ok l \<Longrightarrow> (a, s) \<in> set l \<Longrightarrow> fle (Fin (of_int a)) v \<Longrightarrow> priority s \<le> priority (ladder_severity_at l v)"
proof -
  assume ok: "ladder_ok l" and "(a, s) \<in> set l" "fle (Fin (of_int a)) v"
  then have m: "(a, s) \<in> set (reached v l)" by (simp add: reached_def)
  then have "reached v l \<noteq> []" by auto
  then show ?thesis using reached_last_le [OF ok m] by (simp add: ladder_severity_reached)
qed

lemma ladder_severity_only_reached:
  assumes ok: "ladder_ok l" and v: "fle (Fin 0) v"
  shows "\<exists>a. (a, ladder_severity_at l v) \<in> set l \<and> fle (Fin (of_int a)) v"
proof -
  have "l \<noteq> []" "fst (hd l) = 0" using ok by (auto simp: ladder_ok_def)
  then have "hd l \<in> set (reached v l)" using v by (simp add: reached_def case_prod_beta)
  then have "reached v l \<noteq> []" by auto
  then have "last (reached v l) \<in> set (reached v l)" by simp
  then show ?thesis using \<open>reached v l \<noteq> []\<close> by (auto simp: ladder_severity_reached reached_def)
qed

lemma apply_ladder_priority:
  assumes "apply_ladder inc l now = (inc', b)"
  shows "priority (inc_severity inc) \<le> priority (inc_severity inc')"
    and "b \<longleftrightarrow> priority (inc_severity inc) < priority (inc_severity inc')"
    and "\<not> b \<Longrightarrow> inc' = inc"
    and "inc' = inc\<lparr>inc_severity := inc_severity inc', inc_severity_reached_at := inc_severity_reached_at inc'\<rparr>"
    and "priority (ladder_severity_at l (total_seconds now (inc_opened_at inc))) \<le> priority (inc_severity inc')"
  using assms by (auto simp: apply_ladder_def Let_def split: if_splits)

section \<open>How an incident evolves\<close>

definition evolves :: "incident \<Rightarrow> incident \<Rightarrow> bool" where
  "evolves a b \<longleftrightarrow> inc_id b = inc_id a \<and> inc_rule_id b = inc_rule_id a \<and> inc_entity_key b = inc_entity_key a \<and>
     inc_opened_at b = inc_opened_at a \<and> priority (inc_severity a) \<le> priority (inc_severity b) \<and>
     inc_fire_count a \<le> inc_fire_count b \<and> (inc_state a \<noteq> ''open'' \<longrightarrow> b = a) \<and>
     (inc_state b = ''open'' \<or> inc_state b = ''cleared'' \<or> b = a)"

lemma evolves_refl [simp]: "evolves a a"
  by (simp add: evolves_def)

lemma evolves_trans: "evolves a b \<Longrightarrow> evolves b c \<Longrightarrow> evolves a c"
  unfolding evolves_def by auto

text \<open>The table keeps its rows and may grow at its end.\<close>

definition table_evolves :: "incident list \<Rightarrow> incident list \<Rightarrow> bool" where
  "table_evolves xs ys \<longleftrightarrow> length xs \<le> length ys \<and> (\<forall>i < length xs. evolves (xs ! i) (ys ! i))"

lemma table_evolves_refl [simp]: "table_evolves xs xs"
  by (simp add: table_evolves_def)

lemma table_evolves_trans: "table_evolves xs ys \<Longrightarrow> table_evolves ys zs \<Longrightarrow> table_evolves xs zs"
  by (auto simp: table_evolves_def intro: evolves_trans)

lemma table_evolves_append [simp]: "table_evolves xs (xs @ ys)"
  by (simp add: table_evolves_def nth_append)

lemma table_evolves_update: "(i < length xs \<Longrightarrow> evolves (xs ! i) a) \<Longrightarrow> table_evolves xs (xs[i := a])"
  unfolding table_evolves_def
proof (intro conjI allI impI)
  fix j assume "i < length xs \<Longrightarrow> evolves (xs ! i) a" and "j < length xs"
  then show "evolves (xs ! j) (xs[i := a] ! j)" by (cases "i = j") auto
qed simp

section \<open>The pass over the entities\<close>

lemma pass_sel [simp]:
  "ps_incidents (record_transition t s) = ps_incidents s"
  "ps_incidents (put_incident i a s) = (ps_incidents s)[i := a]"
  "ps_transitions (put_incident i a s) = ps_transitions s"
  "ps_transitions (record_transition t s) = ps_transitions s @ [t]"
  "ps_cleared (record_transition t s) = ps_cleared s"
  "ps_opened (record_transition t s) = ps_opened s"
  "ps_escalated (record_transition t s) = ps_escalated s"
  by (simp_all add: record_transition_def put_incident_def)

definition cleared_as :: "time \<Rightarrow> string \<Rightarrow> incident \<Rightarrow> incident" where
  "cleared_as now reason inc =
     inc\<lparr>inc_state := ''cleared'', inc_cleared_at := Some now, inc_cleared_reason := Some reason\<rparr>"

lemma clear_incident_table [simp]:
  "ps_incidents (clear_incident rule now reason i s) =
     (ps_incidents s)[i := cleared_as now reason (ps_incidents s ! i)]"
  by (simp add: clear_incident_def cleared_as_def Let_def)

lemma cleared_as_evolves: "inc_state inc = ''open'' \<Longrightarrow> evolves inc (cleared_as now reason inc)"
  by (simp add: evolves_def cleared_as_def)

lemma open_incident_table:
  assumes "open_incident env ctx rule defn inst s = (s', r)"
  shows "ps_incidents s' = ps_incidents s \<or>
    (\<exists>a. ps_incidents s' = ps_incidents s @ [a] \<and> inc_state a = ''open'' \<and> inc_rule_id a = ir_id rule \<and>
       inc_entity_key a = incident_key inst \<and> meets_threshold rule inst \<and>
       inc_severity a = base_severity ctx rule inst \<and> inc_opened_at a = rc_now ctx \<and>
       inc_parent_incident_id a = find_matching_parent (rc_parents ctx) (rc_match_on ctx) (ae_entity_labels inst))"
  using assms by (auto simp: open_incident_def Let_def split: if_splits sum.splits)

lemma touch_evolves: "inc_state inc = ''open'' \<Longrightarrow> evolves inc (touch_incident ctx inc)"
  by (simp add: evolves_def touch_incident_def)

lemma refresh_evolves: "inc_state inc = ''open'' \<Longrightarrow> evolves inc (refresh_incident ctx inst msg inc)"
  by (simp add: evolves_def refresh_incident_def Let_def)

lemma incident_state_keeps [simp]:
  "inc_state (touch_incident ctx inc) = inc_state inc"
  "inc_state (refresh_incident ctx inst msg inc) = inc_state inc"
  "inc_state (fst (climb ctx inc)) = inc_state inc"
  by (auto simp: touch_incident_def refresh_incident_def climb_def apply_ladder_def Let_def split: option.splits)

lemma climb_evolves: "inc_state inc = ''open'' \<Longrightarrow> evolves inc (fst (climb ctx inc))"
  by (auto simp: climb_def apply_ladder_def evolves_def Let_def split: option.splits)

lemma update_incident_table:
  assumes "update_incident env ctx rule defn inst i s = (s', r)"
  shows "\<exists>a. ps_incidents s' = (ps_incidents s)[i := a] \<and> inc_state a = inc_state (ps_incidents s ! i) \<and>
    (inc_state (ps_incidents s ! i) = ''open'' \<longrightarrow> evolves (ps_incidents s ! i) a)"
proof (cases "incident_message env rule defn inst")
  case (Inl e)
  then have "ps_incidents s' = (ps_incidents s)[i := touch_incident ctx (ps_incidents s ! i)]"
    using assms by (auto simp: update_incident_def Let_def)
  then show ?thesis using touch_evolves by fastforce
next
  case (Inr msg)
  let ?a = "fst (climb ctx (refresh_incident ctx inst msg (touch_incident ctx (ps_incidents s ! i))))"
  have "ps_incidents s' = (ps_incidents s)[i := ?a]"
    using assms Inr by (auto simp: update_incident_def Let_def split: prod.splits if_splits)
  moreover have "inc_state (ps_incidents s ! i) = ''open'' \<longrightarrow> evolves (ps_incidents s ! i) ?a"
    by (auto intro: evolves_trans [OF touch_evolves evolves_trans [OF refresh_evolves climb_evolves]])
  ultimately show ?thesis by (intro exI [of _ ?a]) simp
qed

text \<open>All that one entity does to the table.\<close>

lemma process_entity_table:
  assumes "process_entity env ctx rule defn inst s = (s', r)"
  obtains (same) "ps_incidents s' = ps_incidents s"
  | (change) i a where "map_of (rc_open_by_key ctx) (incident_key inst) = Some i"
      "ps_incidents s' = (ps_incidents s)[i := a]"
      "inc_state (ps_incidents s ! i) = ''open'' \<longrightarrow> evolves (ps_incidents s ! i) a"
  | (opens) a where "map_of (rc_open_by_key ctx) (incident_key inst) = None" "ae_state inst = ''firing''"
      "ps_incidents s' = ps_incidents s @ [a]" "inc_state a = ''open''" "inc_rule_id a = ir_id rule"
      "inc_entity_key a = incident_key inst" "meets_threshold rule inst"
proof (cases "map_of (rc_open_by_key ctx) (incident_key inst)")
  case None
  then consider "s' = s" | "ae_state inst = ''firing''" "open_incident env ctx rule defn inst s = (s', r)"
    using assms by (auto simp: process_entity_def Let_def split: if_splits)
  then show ?thesis
  proof cases
    case 2
    from open_incident_table [OF this(2)] show ?thesis using same opens [OF None 2(1)] by blast
  qed (use same in simp)
next
  case (Some i)
  then consider "s' = s" | now reason where "s' = clear_incident rule now reason i s"
    | "update_incident env ctx rule defn inst i s = (s', r)"
    using assms by (auto simp: process_entity_def Let_def split: if_splits)
  then show ?thesis
  proof cases
    case 2
    then show ?thesis using change [OF Some] cleared_as_evolves by simp
  next
    case 3
    from update_incident_table [OF this] show ?thesis using change [OF Some] by blast
  qed (use same in simp)
qed

definition open_for :: "string \<Rightarrow> string \<Rightarrow> incident \<Rightarrow> bool" where
  "open_for rid key inc \<longleftrightarrow> inc_state inc = ''open'' \<and> inc_rule_id inc = rid \<and> inc_entity_key inc = key"

definition pass_inv :: "incident_rule \<Rightarrow> rule_ctx \<Rightarrow> alert_entity list \<Rightarrow> incident list \<Rightarrow> bool" where
  "pass_inv rule ctx insts incs \<longleftrightarrow>
     (\<forall>inst \<in> set insts.
        case map_of (rc_open_by_key ctx) (incident_key inst) of
          Some i \<Rightarrow> i < length incs \<and> open_for (ir_id rule) (incident_key inst) (incs ! i)
        | None \<Rightarrow> \<not> (\<exists>inc \<in> set incs. open_for (ir_id rule) (incident_key inst) inc))"

definition one_open :: "incident list \<Rightarrow> bool" where
  "one_open incs \<longleftrightarrow> (\<forall>rid key i j. i < length incs \<longrightarrow> j < length incs \<longrightarrow>
     open_for rid key (incs ! i) \<longrightarrow> open_for rid key (incs ! j) \<longrightarrow> i = j)"

lemma evolves_open_for: "evolves a b \<Longrightarrow> open_for rid key b \<Longrightarrow> open_for rid key a"
  by (auto simp: evolves_def open_for_def)

lemma one_open_evolves: "one_open xs \<Longrightarrow> table_evolves xs ys \<Longrightarrow> length ys = length xs \<Longrightarrow> one_open ys"
  unfolding one_open_def table_evolves_def by (metis evolves_open_for)

lemma one_open_append:
  assumes "one_open xs" and none: "\<And>rid key. open_for rid key a \<Longrightarrow> \<not> (\<exists>inc \<in> set xs. open_for rid key inc)"
  shows "one_open (xs @ [a])"
  unfolding one_open_def
proof (intro allI impI)
  fix rid key i j
  assume i: "i < length (xs @ [a])" and j: "j < length (xs @ [a])"
    and oi: "open_for rid key ((xs @ [a]) ! i)" and oj: "open_for rid key ((xs @ [a]) ! j)"
  have last: "k = length xs" if "k < length (xs @ [a])" "open_for rid key a" "open_for rid key ((xs @ [a]) ! k)" for k
  proof (rule ccontr)
    assume "k \<noteq> length xs"
    with that(1) have "k < length xs" by simp
    with that(3) have "open_for rid key (xs ! k)" by (simp add: nth_append)
    with none [OF that(2)] \<open>k < length xs\<close> show False by (meson nth_mem)
  qed
  show "i = j"
  proof (cases "open_for rid key a")
    case True
    then show ?thesis using last [OF i True oi] last [OF j True oj] by simp
  next
    case False
    then have "i < length xs" "j < length xs"
      using i j oi oj by (auto simp: nth_append less_Suc_eq split: if_splits)
    then show ?thesis using assms(1) oi oj by (auto simp: one_open_def nth_append)
  qed
qed

lemma process_entity_pass:
  assumes pe: "process_entity env ctx rule defn inst s = (s', r)"
    and inv: "pass_inv rule ctx (inst # insts) (ps_incidents s)"
    and d: "distinct (map incident_key (inst # insts))"
  shows "table_evolves (ps_incidents s) (ps_incidents s')" and "pass_inv rule ctx insts (ps_incidents s')"
    and "one_open (ps_incidents s) \<Longrightarrow> one_open (ps_incidents s')"
proof -
  let ?incs = "ps_incidents s"
  have other: "incident_key x \<noteq> incident_key inst" if "x \<in> set insts" for x
    using d that by (metis distinct.simps(2) image_eqI list.set_map list.simps(9))
  have inv': "pass_inv rule ctx insts ?incs" using inv by (simp add: pass_inv_def)
  have "table_evolves ?incs (ps_incidents s') \<and> pass_inv rule ctx insts (ps_incidents s') \<and>
    (one_open ?incs \<longrightarrow> one_open (ps_incidents s'))"
    using pe
  proof (cases rule: process_entity_table)
    case same
    then show ?thesis using inv' by simp
  next
    case (change i a)
    have i: "i < length ?incs" "open_for (ir_id rule) (incident_key inst) (?incs ! i)"
      using inv change(1) by (auto simp: pass_inv_def)
    then have ev: "evolves (?incs ! i) a" using change(3) by (simp add: open_for_def)
    have tab: "table_evolves ?incs (ps_incidents s')" using ev change(2) by (simp add: table_evolves_update)
    have "pass_inv rule ctx insts (ps_incidents s')"
      unfolding pass_inv_def
    proof
      fix x assume x: "x \<in> set insts"
      show "case map_of (rc_open_by_key ctx) (incident_key x) of
          Some j \<Rightarrow> j < length (ps_incidents s') \<and> open_for (ir_id rule) (incident_key x) (ps_incidents s' ! j)
        | None \<Rightarrow> \<not> (\<exists>inc \<in> set (ps_incidents s'). open_for (ir_id rule) (incident_key x) inc)"
      proof (cases "map_of (rc_open_by_key ctx) (incident_key x)")
        case None
        then have "\<not> (\<exists>inc \<in> set ?incs. open_for (ir_id rule) (incident_key x) inc)"
          using inv' x by (force simp: pass_inv_def)
        then have "\<not> (\<exists>inc \<in> set (ps_incidents s'). open_for (ir_id rule) (incident_key x) inc)"
          using evolves_open_for [OF ev] i(1) change(2) by (metis in_set_conv_nth insertE nth_mem set_update_subset_insert subsetD)
        then show ?thesis using None by simp
      next
        case (Some j)
        then have j: "j < length ?incs" "open_for (ir_id rule) (incident_key x) (?incs ! j)"
          using inv' x by (force simp: pass_inv_def)+
        have "j \<noteq> i" using j(2) i(2) other [OF x] by (auto simp: open_for_def)
        then show ?thesis using Some j change(2) by simp
      qed
    qed
    then show ?thesis using tab one_open_evolves [OF _ tab] change(2) by simp
  next
    case (opens a)
    have none: "\<not> (\<exists>inc \<in> set ?incs. open_for (ir_id rule) (incident_key inst) inc)"
      using inv opens(1) by (simp add: pass_inv_def)
    have "pass_inv rule ctx insts (ps_incidents s')"
    proof -
      have "\<forall>x \<in> set insts. incident_key x \<noteq> incident_key inst" using other by blast
      then show ?thesis
        using inv' opens(3,6) unfolding pass_inv_def
        by (auto simp: nth_append open_for_def split: option.splits)
    qed
    moreover have "one_open ?incs \<Longrightarrow> one_open (ps_incidents s')"
      unfolding opens(3) by (rule one_open_append) (use none opens in \<open>auto simp: open_for_def\<close>)
    ultimately show ?thesis using opens(3) by simp
  qed
  then show "table_evolves ?incs (ps_incidents s')" "pass_inv rule ctx insts (ps_incidents s')"
    "one_open ?incs \<Longrightarrow> one_open (ps_incidents s')" by blast+
qed

lemma process_entities_pass:
  assumes "process_entities env ctx rule defn insts s = (s', r)" and "pass_inv rule ctx insts (ps_incidents s)"
    and "distinct (map incident_key insts)"
  shows "table_evolves (ps_incidents s) (ps_incidents s') \<and> (one_open (ps_incidents s) \<longrightarrow> one_open (ps_incidents s'))"
  using assms
proof (induction insts arbitrary: s)
  case (Cons inst insts)
  obtain s1 r1 where one: "process_entity env ctx rule defn inst s = (s1, r1)" by fastforce
  note p = process_entity_pass [OF one Cons.prems(2,3)]
  show ?case
  proof (cases r1)
    case None
    then have "process_entities env ctx rule defn insts s1 = (s', r)" using Cons.prems(1) one by simp
    from Cons.IH [OF this p(2)] Cons.prems(3) p show ?thesis using table_evolves_trans by auto
  next
    case (Some e)
    then show ?thesis using Cons.prems(1) one p by simp
  qed
qed simp

section \<open>Rules and cycles\<close>

lemma open_by_key_spec:
  "(case map_of (open_by_key incs ks) key of
      Some i \<Rightarrow> i \<in> set ks \<and> inc_entity_key (incs ! i) = key
    | None \<Rightarrow> \<forall>i \<in> set ks. inc_entity_key (incs ! i) \<noteq> key)"
proof (induction ks rule: rev_induct)
  case (snoc i ks)
  have "open_by_key incs (ks @ [i]) = dict_set (inc_entity_key (incs ! i)) i (open_by_key incs ks)"
    by (simp add: open_by_key_def)
  then show ?case using snoc by (auto split: option.splits if_splits)
qed (simp add: open_by_key_def)

lemma pass_inv_start:
  "pass_inv rule (rule_context env rule ladder incs) insts incs"
  unfolding pass_inv_def
proof
  fix inst
  have c: "rc_open_by_key (rule_context env rule ladder incs) = open_by_key incs (open_positions (ir_id rule) incs)"
    by (simp add: rule_context_def Let_def)
  show "case map_of (rc_open_by_key (rule_context env rule ladder incs)) (incident_key inst) of
      Some i \<Rightarrow> i < length incs \<and> open_for (ir_id rule) (incident_key inst) (incs ! i)
    | None \<Rightarrow> \<not> (\<exists>inc \<in> set incs. open_for (ir_id rule) (incident_key inst) inc)"
    using open_by_key_spec [where incs = incs and ks = "open_positions (ir_id rule) incs" and key = "incident_key inst"]
    unfolding c by (force simp: open_positions_def open_for_def in_set_conv_nth split: option.splits)
qed

lemma companion_step_table:
  "table_evolves (ps_incidents s) (ps_incidents (companion_step rule ids st now i s)) \<and>
   length (ps_incidents (companion_step rule ids st now i s)) = length (ps_incidents s)"
  by (simp add: companion_step_def Let_def table_evolves_update cleared_as_evolves)

lemma companion_clear_table:
  "table_evolves (ps_incidents s) (ps_incidents (apply_companion_clear rule ids es is now s)) \<and>
   length (ps_incidents (apply_companion_clear rule ids es is now s)) = length (ps_incidents s)"
proof -
  have "table_evolves (ps_incidents s) (ps_incidents (fold (companion_step rule ids st now) is s)) \<and>
    length (ps_incidents (fold (companion_step rule ids st now) is s)) = length (ps_incidents s)" for st
  proof (induction "is" arbitrary: s)
    case (Cons i "is")
    from Cons [of "companion_step rule ids st now i s"] companion_step_table [of s rule ids st now i]
    show ?case using table_evolves_trans by auto
  qed simp
  then show ?thesis by (simp add: apply_companion_clear_def)
qed

definition entities_keyed :: "alert_entity list \<Rightarrow> bool" where
  "entities_keyed es \<longleftrightarrow> (\<forall>d. distinct (map incident_key (filter (own_entity d) es)))"

text \<open>
  The unique constraint on (definition, assignment) gives distinct incident keys, since an
  assignment id contains no bar.
\<close>

lemma takeWhile_key: "CHR ''|'' \<notin> set a \<Longrightarrow> takeWhile (\<lambda>c. c \<noteq> CHR ''|'') (a @ ''|'' @ k) = a"
  by (induction a) auto

lemma unique_keys_keyed:
  assumes "unique_keys es" and "\<forall>e \<in> set es. CHR ''|'' \<notin> set (ae_assignment_id e)"
  shows "entities_keyed es"
  unfolding entities_keyed_def
proof
  fix d
  let ?f = "filter (own_entity d) es"
  have "distinct (map log_key ?f)" using assms(1) by (simp add: unique_keys_def distinct_map_filter_key)
  moreover have "inj_on incident_key (set ?f)" if "inj_on log_key (set ?f)"
  proof (rule inj_onI)
    fix x y assume x: "x \<in> set ?f" and y: "y \<in> set ?f" and k: "incident_key x = incident_key y"
    have "ae_assignment_id x = ae_assignment_id y"
      using arg_cong [OF k, of "takeWhile (\<lambda>c. c \<noteq> CHR ''|'')"] assms(2) x y
      by (simp add: incident_key_def takeWhile_key [simplified])
    then have "log_key x = log_key y" using x y by (simp add: log_key_def own_entity_def)
    then show "x = y" using that x y by (meson inj_onD)
  qed
  ultimately show "distinct (map incident_key ?f)" by (simp only: distinct_map)
qed

lemma evaluate_rule_table:
  assumes "evaluate_rule env defs es rule s = (s', r)" and keyed: "entities_keyed es"
  shows "table_evolves (ps_incidents s) (ps_incidents s') \<and> (one_open (ps_incidents s) \<longrightarrow> one_open (ps_incidents s'))"
proof -
  have "s' = s \<or> (\<exists>defn ladder s1.
      process_entities env (rule_context env rule ladder (ps_incidents s)) rule defn
         (filter (own_entity (ad_id defn)) es) s = (s1, r) \<and>
      (s' = s1 \<or> (\<exists>ids is now. s' = apply_companion_clear rule ids es is now s1)))"
  proof (cases "find (\<lambda>d. ad_id d = ir_definition_id rule) defs")
    case (Some defn)
    show ?thesis
    proof (cases "ad_enabled defn \<and> (\<exists>l. validate_ladder (ir_severity_ladder rule) = Inr l)")
      case True
      then obtain l where l: "validate_ladder (ir_severity_ladder rule) = Inr l" by blast
      obtain s1 r1 where p: "process_entities env (rule_context env rule l (ps_incidents s)) rule defn
         (filter (own_entity (ad_id defn)) es) s = (s1, r1)" by fastforce
      have "r1 = r \<and> (s' = s1 \<or> (\<exists>ids is now. s' = apply_companion_clear rule ids es is now s1))"
        using assms(1) True
        by (cases r1; cases "validate_companion_ids env (ir_clear_on_companion_ids rule)")
          (auto simp: evaluate_rule_def Some l p Let_def split: if_splits)
      then show ?thesis using p by blast
    qed (use assms(1) Some in \<open>auto simp: evaluate_rule_def split: sum.splits if_splits\<close>)
  qed (use assms(1) in \<open>simp add: evaluate_rule_def\<close>)
  then consider "s' = s" | defn ladder s1 where
      "process_entities env (rule_context env rule ladder (ps_incidents s)) rule defn
         (filter (own_entity (ad_id defn)) es) s = (s1, r)"
      "s' = s1 \<or> (\<exists>ids is now. s' = apply_companion_clear rule ids es is now s1)" by blast
  then show ?thesis
  proof cases
    case (2 defn ladder s1)
    have d: "distinct (map incident_key (filter (own_entity (ad_id defn)) es))"
      using keyed by (simp add: entities_keyed_def)
    note p = process_entities_pass [OF 2(1) pass_inv_start d]
    from 2(2) show ?thesis
    proof
      assume "\<exists>ids is now. s' = apply_companion_clear rule ids es is now s1"
      then obtain ids "is" now where "s' = apply_companion_clear rule ids es is now s1" by blast
      then show ?thesis
        using p companion_clear_table [of s1 rule ids es "is" now] one_open_evolves table_evolves_trans by metis
    qed (use p in simp)
  qed simp
qed

lemma run_rule_table:
  "entities_keyed es \<Longrightarrow> table_evolves (ps_incidents s) (ps_incidents (run_rule env defs es rule s)) \<and>
   (one_open (ps_incidents s) \<longrightarrow> one_open (ps_incidents (run_rule env defs es rule s)))"
  using evaluate_rule_table [of env defs es rule s]
  by (cases "evaluate_rule env defs es rule s") (auto simp: run_rule_def split: option.splits)

lemma incident_cycle_table:
  assumes "entities_keyed es"
  shows "table_evolves incs (ps_incidents (incident_cycle env setting defs es rules incs)) \<and>
    (one_open incs \<longrightarrow> one_open (ps_incidents (incident_cycle env setting defs es rules incs)))"
proof -
  have "table_evolves (ps_incidents s) (ps_incidents (fold (run_rule env defs es) rs s)) \<and>
    (one_open (ps_incidents s) \<longrightarrow> one_open (ps_incidents (fold (run_rule env defs es) rs s)))" for rs s
  proof (induction rs arbitrary: s)
    case (Cons r rs)
    from Cons [of "run_rule env defs es r s"] run_rule_table [OF assms, of s env defs r]
    show ?case using table_evolves_trans by auto
  qed simp
  from this [of "start_pass incs" "filter ir_enabled rules"]
  show ?thesis by (simp add: incident_cycle_def start_pass_def)
qed

end
