(* ===== verification/Incident_Results.thy ===== *)
theory Incident_Results
  imports Incident_Props Alert_Results
begin

text \<open>
  The properties of the incident engine, with the concrete rules and incidents their witnesses
  run on.
\<close>

section \<open>Transitions and counters\<close>

definition count_tr :: "string \<Rightarrow> transition list \<Rightarrow> nat" where
  "count_tr k ts = length (filter (\<lambda>t. tr_transition t = k) ts)"

lemma count_tr_append [simp]: "count_tr k (ts @ us) = count_tr k ts + count_tr k us"
  by (simp add: count_tr_def)

lemma count_tr_one [simp]: "count_tr k [transition_of rule i inc tr] = (if tr = k then 1 else 0)"
  by (simp add: count_tr_def transition_of_def)

text \<open>Between two states, the counters grew by the transitions recorded.\<close>

definition tallies :: "pass_state \<Rightarrow> pass_state \<Rightarrow> bool" where
  "tallies s s' \<longleftrightarrow> (\<exists>ts. ps_transitions s' = ps_transitions s @ ts \<and>
     ps_opened s' = ps_opened s + count_tr ''opened'' ts \<and>
     ps_cleared s' = ps_cleared s + count_tr ''cleared'' ts \<and>
     ps_escalated s' = ps_escalated s + count_tr ''escalated'' ts \<and>
     (\<forall>t \<in> set ts. tr_transition t \<in> {''opened'', ''cleared'', ''escalated''} \<and>
        (tr_transition t = ''opened'' \<longrightarrow> tr_incident_id t = ''None'')))"

lemma tallies_refl: "ps_transitions s' = ps_transitions s \<Longrightarrow> ps_opened s' = ps_opened s \<Longrightarrow>
    ps_cleared s' = ps_cleared s \<Longrightarrow> ps_escalated s' = ps_escalated s \<Longrightarrow> tallies s s'"
  unfolding tallies_def by (intro exI [of _ "[]"]) (simp add: count_tr_def)

lemma tallies_trans:
  assumes "tallies a b" "tallies b c" shows "tallies a c"
proof -
  from assms(1) obtain ts where "ps_transitions b = ps_transitions a @ ts"
     "ps_opened b = ps_opened a + count_tr ''opened'' ts" "ps_cleared b = ps_cleared a + count_tr ''cleared'' ts"
     "ps_escalated b = ps_escalated a + count_tr ''escalated'' ts"
     "\<forall>t \<in> set ts. tr_transition t \<in> {''opened'', ''cleared'', ''escalated''} \<and>
        (tr_transition t = ''opened'' \<longrightarrow> tr_incident_id t = ''None'')"
    unfolding tallies_def by blast
  moreover from assms(2) obtain us where "ps_transitions c = ps_transitions b @ us"
     "ps_opened c = ps_opened b + count_tr ''opened'' us" "ps_cleared c = ps_cleared b + count_tr ''cleared'' us"
     "ps_escalated c = ps_escalated b + count_tr ''escalated'' us"
     "\<forall>t \<in> set us. tr_transition t \<in> {''opened'', ''cleared'', ''escalated''} \<and>
        (tr_transition t = ''opened'' \<longrightarrow> tr_incident_id t = ''None'')"
    unfolding tallies_def by blast
  ultimately show ?thesis unfolding tallies_def by (intro exI [of _ "ts @ us"]) auto
qed

lemma tallies_clear: "tallies s (clear_incident rule now reason i s)"
  unfolding tallies_def
  by (intro exI [of _ "[transition_of rule (inc_id (ps_incidents s ! i)) (cleared_as now reason (ps_incidents s ! i)) ''cleared'']"])
    (simp add: clear_incident_def record_transition_def put_incident_def Let_def cleared_as_def,
     simp add: transition_of_def)

lemma tallies_open: "tallies s (fst (open_incident env ctx rule defn inst s))"
proof -
  have "open_incident env ctx rule defn inst s = (s', r) \<Longrightarrow> s' = s \<or>
    (\<exists>inc. s' = record_transition (transition_of rule ''None'' inc ''opened'')
       (s\<lparr>ps_incidents := ps_incidents s @ [inc], ps_opened := ps_opened s + 1\<rparr>))" for s' r
    by (auto simp: open_incident_def Let_def split: if_splits sum.splits)
  then consider "fst (open_incident env ctx rule defn inst s) = s"
    | inc where "fst (open_incident env ctx rule defn inst s) =
        record_transition (transition_of rule ''None'' inc ''opened'')
       (s\<lparr>ps_incidents := ps_incidents s @ [inc], ps_opened := ps_opened s + 1\<rparr>)"
    by (metis prod.collapse)
  then show ?thesis
  proof cases
    case 2
    then show ?thesis
      unfolding tallies_def
      by (intro exI [of _ "[transition_of rule ''None'' inc ''opened'']"])
        (simp add: record_transition_def, simp add: transition_of_def)
  qed (simp add: tallies_refl)
qed

lemma tallies_update: "tallies s (fst (update_incident env ctx rule defn inst i s))"
proof (cases "incident_message env rule defn inst")
  case (Inl e)
  then show ?thesis by (simp add: update_incident_def Let_def tallies_refl put_incident_def)
next
  case (Inr msg)
  obtain inc2 b where c: "climb ctx (refresh_incident ctx inst msg (touch_incident ctx (ps_incidents s ! i))) = (inc2, b)"
    by fastforce
  show ?thesis
  proof (cases b)
    case True
    then show ?thesis
      unfolding tallies_def
      by (intro exI [of _ "[transition_of rule (inc_id inc2) inc2 ''escalated'']"])
        (simp add: update_incident_def Let_def Inr c record_transition_def put_incident_def, simp add: transition_of_def)
  next
    case False
    then show ?thesis by (simp add: update_incident_def Let_def Inr c tallies_refl put_incident_def)
  qed
qed

lemma tallies_entity: "tallies s (fst (process_entity env ctx rule defn inst s))"
  by (simp add: process_entity_def Let_def tallies_refl tallies_clear tallies_open tallies_update split: option.split)

lemma tallies_entities: "tallies s (fst (process_entities env ctx rule defn insts s))"
proof (induction insts arbitrary: s)
  case (Cons inst insts)
  obtain s1 r1 where one: "process_entity env ctx rule defn inst s = (s1, r1)" by fastforce
  have t: "tallies s s1" using tallies_entity [of s env ctx rule defn inst] one by simp
  show ?case using t tallies_trans [OF t Cons.IH] one by (simp split: option.split)
qed (simp add: tallies_refl)

lemma tallies_companion: "tallies s (apply_companion_clear rule ids es is now s)"
proof -
  have "tallies s (fold (companion_step rule ids st now) is s)" for st
  proof (induction "is" arbitrary: s)
    case (Cons i "is")
    have "tallies s (companion_step rule ids st now i s)"
      by (simp add: companion_step_def Let_def tallies_clear tallies_refl)
    from tallies_trans [OF this Cons.IH] show ?case by simp
  qed (simp add: tallies_refl)
  then show ?thesis by (simp add: apply_companion_clear_def)
qed

lemma tallies_rule: "tallies s (fst (evaluate_rule env defs es rule s))"
proof (cases "find (\<lambda>d. ad_id d = ir_definition_id rule) defs")
  case (Some defn)
  show ?thesis
  proof (cases "validate_ladder (ir_severity_ladder rule)")
    case (Inr l)
    obtain s1 r1 where p: "process_entities env (rule_context env rule l (ps_incidents s)) rule defn
       (filter (own_entity (ad_id defn)) es) s = (s1, r1)" by fastforce
    have t: "tallies s s1" using tallies_entities by (metis fst_conv p)
    show ?thesis
      using t tallies_trans [OF t tallies_companion]
      by (simp add: evaluate_rule_def Some Inr Let_def p tallies_refl split: option.split)
  qed (simp add: evaluate_rule_def Some tallies_refl)
qed (simp add: evaluate_rule_def tallies_refl)

section \<open>Parents, companions and the guard\<close>

lemma find_matching_parent_sound:
  "find_matching_parent ps ks ls = Some pid \<Longrightarrow>
   \<exists>p \<in> set ps. inc_id p = pid \<and> (\<forall>k \<in> set ks. matches_on (inc_labels p) ls k)"
  by (auto simp: find_matching_parent_def find_Some_iff list_all_iff)

lemma rule_context_parents:
  "p \<in> set (rc_parents (rule_context env rule l incs)) \<Longrightarrow>
   p \<in> set incs \<and> inc_state p = ''open'' \<and> inc_rule_id p \<noteq> ir_id rule"
  by (auto simp: rule_context_def parent_candidates_def Let_def split: option.splits)

lemma companion_fold_other:
  "i \<notin> set ks \<Longrightarrow> ps_incidents (fold (companion_step rule ids st now) ks s) ! i = ps_incidents s ! i"
proof (induction ks arbitrary: s)
  case (Cons k ks)
  have "ps_incidents (companion_step rule ids st now k s) ! i = ps_incidents s ! i"
    using Cons.prems by (simp add: companion_step_def Let_def)
  then show ?case using Cons by simp
qed simp

lemma companion_fold_own:
  assumes "distinct ks" "i \<in> set ks" "i < length (ps_incidents s)" "inc_state (ps_incidents s ! i) = ''open''"
  shows "ps_incidents (fold (companion_step rule ids st now) ks s) ! i =
    (if companion_healthy rule ids st (ps_incidents s ! i)
     then cleared_as now (if companion_mode rule = ''all'' then ''companion_all_healthy'' else ''companion_any_healthy'')
            (ps_incidents s ! i)
     else ps_incidents s ! i)"
  using assms
proof (induction ks arbitrary: s)
  case (Cons k ks)
  show ?case
  proof (cases "i = k")
    case True
    then have "i \<notin> set ks" using Cons.prems(1) by simp
    from companion_fold_other [OF this, of rule ids st now "companion_step rule ids st now i s"]
    have "ps_incidents (fold (companion_step rule ids st now) (k # ks) s) ! i =
        ps_incidents (companion_step rule ids st now i s) ! i" using True by simp
    then show ?thesis using Cons.prems(3,4) by (simp add: companion_step_def [of rule ids st now i s] Let_def)
  next
    case False
    let ?s = "companion_step rule ids st now k s"
    have same: "ps_incidents ?s ! i = ps_incidents s ! i" "length (ps_incidents ?s) = length (ps_incidents s)"
      using False by (simp_all add: companion_step_def Let_def)
    have "ps_incidents (fold (companion_step rule ids st now) ks ?s) ! i =
      (if companion_healthy rule ids st (ps_incidents ?s ! i)
       then cleared_as now (if companion_mode rule = ''all'' then ''companion_all_healthy'' else ''companion_any_healthy'')
              (ps_incidents ?s ! i)
       else ps_incidents ?s ! i)"
      by (rule Cons.IH) (use Cons.prems False same in auto)
    then show ?thesis by (simp add: same(1))
  qed
qed simp

section \<open>A rule to run\<close>

definition demo_rule :: incident_rule where
  "demo_rule = \<lparr>ir_id = ''r1'', ir_name = ''RTT'', ir_definition_id = ''d1'', ir_mode = ''consecutive'',
     ir_fire_count_threshold = 1, ir_window_size = 5, ir_severity = ''warning'', ir_message_template = None,
     ir_auto_clear_on_resolve = True, ir_scope_filter = JNull,
     ir_severity_ladder = JArr [JObj [(''after_seconds'', JInt 0), (''severity'', JStr ''warning'')],
                                JObj [(''after_seconds'', JInt 300), (''severity'', JStr ''critical'')]],
     ir_depends_on = JNull, ir_flap_guard_seconds = Some 60, ir_clear_on_companion_ids = JNull,
     ir_clear_companion_mode = ''any'', ir_enabled = True\<rparr>"

definition demo_ienv :: incident_env where
  "demo_ienv = \<lparr>ie_now = (\<lambda>r. 0), ie_format = (\<lambda>t c. FmtError ValueError), ie_uuid = Some, ie_new_id = str_nat\<rparr>"

definition demo_ladder :: ladder where
  "demo_ladder = [(0, ''warning''), (300, ''critical'')]"

lemma demo_ladder_ok: "validate_ladder (ir_severity_ladder demo_rule) = Inr (Some demo_ladder)"
  by code_simp

definition demo_firing :: alert_entity where
  "demo_firing = demo_entity\<lparr>ae_state := ''firing'', ae_severity := Some ''warning'', ae_fire_count := 1\<rparr>"

definition demo_pass :: pass_state where
  "demo_pass = incident_cycle demo_ienv ''shadow'' [demo_definition] [demo_firing] [demo_rule] []"

lemma demo_pass_opens: "length (ps_incidents demo_pass) = 1 \<and> ps_opened demo_pass = 1"
  by code_simp

lemma demo_keyed: "entities_keyed [demo_firing]"
  by (simp add: entities_keyed_def)

section \<open>Properties\<close>

definition run_cycles ::
    "(incident_env \<times> string \<times> alert_definition list \<times> alert_entity list \<times> incident_rule list) list \<Rightarrow>
     incident list \<Rightarrow> incident list" where
  "run_cycles cs incs = fold (\<lambda>(env, setting, defs, es, rules) t.
     ps_incidents (incident_cycle env setting defs es rules t)) cs incs"

text \<open>
  C6: Over any sequence of cycles, with any clocks, rules and alert states in which the instances of
  one definition have distinct keys, there is never more than one open incident for a rule and
  an entity.
\<close>

theorem incident_at_most_one_open:
  assumes "\<forall>(env, setting, defs, es, rules) \<in> set cs. entities_keyed es" and "one_open incs"
  shows "one_open (run_cycles cs incs)"
  using assms
proof (induction cs arbitrary: incs)
  case (Cons c cs)
  obtain env setting defs es rules where c: "c = (env, setting, defs, es, rules)" by (cases c)
  have "one_open (ps_incidents (incident_cycle env setting defs es rules incs))"
    using incident_cycle_table [of es incs env setting defs rules] Cons.prems by (simp add: c)
  from Cons.IH [OF _ this] Cons.prems show ?case by (simp add: run_cycles_def c)
qed (simp add: run_cycles_def)

theorem incident_at_most_one_open_witness:
  "one_open (run_cycles [(demo_ienv, ''shadow'', [demo_definition], [demo_firing], [demo_rule]),
     (demo_ienv, ''shadow'', [demo_definition], [demo_firing], [demo_rule])] [])"
  by (rule incident_at_most_one_open) (simp_all add: demo_keyed one_open_def)

text \<open>
  C9: How a cycle may change the incidents it found: none is removed, identity and opening time
  stay, the severity never goes down, the fire count never goes down, and a cleared incident is
  never touched again.
\<close>

theorem incident_cycle_evolves:
  assumes "entities_keyed es" and "i < length incs"
  shows "let incs' = ps_incidents (incident_cycle env setting defs es rules incs); a = incs ! i; b = incs' ! i
    in length incs \<le> length incs' \<and> inc_id b = inc_id a \<and> inc_rule_id b = inc_rule_id a \<and>
       inc_entity_key b = inc_entity_key a \<and> inc_opened_at b = inc_opened_at a \<and>
       priority (inc_severity a) \<le> priority (inc_severity b) \<and> inc_fire_count a \<le> inc_fire_count b \<and>
       (inc_state a \<noteq> ''open'' \<longrightarrow> b = a)"
  using incident_cycle_table [OF assms(1), of incs env setting defs rules] assms(2)
  by (simp add: table_evolves_def evolves_def Let_def)

theorem incident_cycle_evolves_witness:
  "let incs = ps_incidents demo_pass;
       incs' = ps_incidents (incident_cycle demo_ienv ''shadow'' [demo_definition] [demo_firing] [demo_rule] incs);
       a = incs ! 0; b = incs' ! 0
    in length incs \<le> length incs' \<and> inc_id b = inc_id a \<and> inc_rule_id b = inc_rule_id a \<and>
       inc_entity_key b = inc_entity_key a \<and> inc_opened_at b = inc_opened_at a \<and>
       priority (inc_severity a) \<le> priority (inc_severity b) \<and> inc_fire_count a \<le> inc_fire_count b \<and>
       (inc_state a \<noteq> ''open'' \<longrightarrow> b = a)"
  using incident_cycle_evolves [OF demo_keyed, of 0 "ps_incidents demo_pass" demo_ienv "''shadow''" "[demo_definition]" "[demo_rule]"]
    demo_pass_opens by (simp add: Let_def)

text \<open>
  Climbing a validated ladder.  At a non-negative elapsed time the severity is that of a step
  that has been reached, no reached step is more severe, and at a later time it is at least as
  severe.
\<close>

theorem incident_ladder_climbs:
  assumes "validate_ladder raw = Inr (Some l)" and "fle (Fin 0) v" and "fle v w"
  shows "(\<exists>after. (after, ladder_severity_at l v) \<in> set l \<and> fle (Fin (of_int after)) v) \<and>
    (\<forall>(after, sev) \<in> set l. fle (Fin (of_int after)) v \<longrightarrow> priority sev \<le> priority (ladder_severity_at l v)) \<and>
    priority (ladder_severity_at l v) \<le> priority (ladder_severity_at l w)"
  using validate_ladder_ok [OF assms(1)] assms(2,3) ladder_severity_only_reached ladder_severity_reaches
    ladder_severity_mono by fast

theorem incident_ladder_climbs_witness:
  "(\<exists>after. (after, ladder_severity_at demo_ladder (Fin 100)) \<in> set demo_ladder \<and> fle (Fin (of_int after)) (Fin 100)) \<and>
    priority (ladder_severity_at demo_ladder (Fin 100)) \<le> priority (ladder_severity_at demo_ladder (Fin 400))"
  using incident_ladder_climbs [OF demo_ladder_ok, of "Fin 100" "Fin 400"] by simp

text \<open>
  Every transition a rule records is an opening, an escalation or a clear, the counters a rule
  returns count exactly those it recorded, and an opening always carries the id text \<open>None\<close>:
  the row's id is only generated when the session flushes.
\<close>

theorem incident_transitions_counted:
  "\<exists>ts. let s' = fst (evaluate_rule env defs es rule s) in
     ps_transitions s' = ps_transitions s @ ts \<and>
     ps_opened s' = ps_opened s + count_tr ''opened'' ts \<and>
     ps_cleared s' = ps_cleared s + count_tr ''cleared'' ts \<and>
     ps_escalated s' = ps_escalated s + count_tr ''escalated'' ts \<and>
     list_all (\<lambda>t. tr_transition t \<in> {''opened'', ''cleared'', ''escalated''}) ts \<and>
     list_all (\<lambda>t. tr_incident_id t = ''None'') (filter (\<lambda>t. tr_transition t = ''opened'') ts)"
  using tallies_rule [of s env defs es rule] by (auto simp: tallies_def Let_def list_all_iff)

text \<open>
  The flap guard and auto-clear.  For an entity in scope that has resolved, an open incident is
  kept unchanged while its last fire is younger than a positive guard, and is cleared with
  reason \<open>auto\<close> once it is not; a rule without auto-clear keeps it.
\<close>

theorem incident_flap_guard:
  assumes "map_of (rc_open_by_key ctx) (incident_key inst) = Some i" and "i < length (ps_incidents s)"
    and "rc_scope ctx = None" and "ae_state inst = ''resolved''"
    and "process_entity env ctx rule defn inst s = (s', r)"
  shows "r = None \<and>
    (if ir_auto_clear_on_resolve rule \<and>
        \<not> (\<exists>g. ir_flap_guard_seconds rule = Some g \<and> 0 < g \<and>
             flt (total_seconds (rc_now ctx) (inc_last_fired_at (ps_incidents s ! i))) (Fin (of_int g)))
     then inc_state (ps_incidents s' ! i) = ''cleared'' \<and> inc_cleared_reason (ps_incidents s' ! i) = Some ''auto'' \<and>
          inc_cleared_at (ps_incidents s' ! i) = Some (rc_now ctx)
     else s' = s)"
  using assms
  by (auto simp: process_entity_def Let_def guard_holds_def cleared_as_def split: if_splits option.splits)

definition demo_ctx :: rule_ctx where
  "demo_ctx = rule_context demo_ienv demo_rule None (ps_incidents demo_pass)"

definition demo_resolved :: alert_entity where
  "demo_resolved = demo_firing\<lparr>ae_state := ''resolved''\<rparr>"

lemma demo_ctx_eval: "map_of (rc_open_by_key demo_ctx) (incident_key demo_resolved) = Some 0"
  "rc_scope demo_ctx = None"
  by code_simp+

theorem incident_flap_guard_witness:
  "snd (process_entity demo_ienv demo_ctx (demo_rule\<lparr>ir_flap_guard_seconds := None\<rparr>) demo_definition demo_resolved demo_pass) = None \<and>
   inc_state (ps_incidents (fst (process_entity demo_ienv demo_ctx (demo_rule\<lparr>ir_flap_guard_seconds := None\<rparr>)
     demo_definition demo_resolved demo_pass)) ! 0) = ''cleared''"
  using incident_flap_guard [OF demo_ctx_eval(1) _ demo_ctx_eval(2) _ prod.collapse [symmetric],
      of demo_pass demo_ienv "demo_rule\<lparr>ir_flap_guard_seconds := None\<rparr>" demo_definition] demo_pass_opens
  by (simp add: demo_resolved_def demo_rule_def)

text \<open>
  Suppression.  A parent an incident gets from its rule's context is an open incident of a
  different rule, and agrees with the child on every key of \<open>match_on\<close>.
\<close>

theorem incident_parent_sound:
  assumes "find_matching_parent (rc_parents (rule_context env rule l incs)) ks child = Some pid"
  shows "\<exists>p \<in> set incs. inc_id p = pid \<and> inc_state p = ''open'' \<and> inc_rule_id p \<noteq> ir_id rule \<and>
    (\<forall>k \<in> set ks. labels_get (inc_labels p) k \<noteq> CNone \<and> labels_get child k \<noteq> CNone \<and>
       cell_str (labels_get (inc_labels p) k) = cell_str (labels_get child k))"
  using find_matching_parent_sound [OF assms] rule_context_parents
  by (fastforce simp: matches_on_def Let_def)

definition demo_child_rule :: incident_rule where
  "demo_child_rule = demo_rule\<lparr>ir_id := ''r2'', ir_depends_on := JObj [(''rule_ids'', JArr [JStr ''r1''])]\<rparr>"

lemma demo_parent_eval:
  "find_matching_parent (rc_parents (rule_context demo_ienv demo_child_rule None (ps_incidents demo_pass))) [] [] = Some ''0''"
  by code_simp

theorem incident_parent_sound_witness:
  "\<exists>p \<in> set (ps_incidents demo_pass). inc_id p = ''0'' \<and> inc_state p = ''open'' \<and> inc_rule_id p \<noteq> ir_id demo_child_rule"
  using incident_parent_sound [OF demo_parent_eval] by auto

text \<open>
  The companion pass clears exactly the still-open incidents of the rule whose companions are
  resolved for the same entity: any of them, or all of them in mode \<open>all\<close>, where a companion
  without a row counts as not resolved.
\<close>

theorem incident_companion_clear:
  assumes "distinct ks" and "i \<in> set ks" and "i < length (ps_incidents s)"
    and "inc_state (ps_incidents s ! i) = ''open''"
  shows "let inc = ps_incidents s ! i;
      inc' = ps_incidents (apply_companion_clear rule ids es ks now s) ! i;
      healthy = (\<lambda>cid. map_of (companion_states ids es) (cid, raw_key (inc_entity_key inc)) = Some ''resolved'')
    in if (if companion_mode rule = ''all'' then list_all healthy ids else list_ex healthy ids)
       then inc_state inc' = ''cleared'' \<and> inc_cleared_at inc' = Some now \<and>
            inc_cleared_reason inc' = Some (if companion_mode rule = ''all'' then ''companion_all_healthy''
                                            else ''companion_any_healthy'')
       else inc' = inc"
  unfolding apply_companion_clear_def Let_def companion_fold_own [OF assms]
  by (simp add: companion_healthy_def Let_def cleared_as_def)

lemma demo_pass_open: "inc_state (ps_incidents demo_pass ! 0) = ''open''"
  by code_simp

theorem incident_companion_clear_witness:
  "inc_state (ps_incidents (apply_companion_clear demo_rule [''d2''] [demo_resolved\<lparr>ae_definition_id := ''d2''\<rparr>] [0] 7 demo_pass) ! 0) = ''cleared''"
proof -
  have "list_ex (\<lambda>cid. map_of (companion_states [''d2''] [demo_resolved\<lparr>ae_definition_id := ''d2''\<rparr>])
      (cid, raw_key (inc_entity_key (ps_incidents demo_pass ! 0))) = Some ''resolved'') [''d2'']"
    "companion_mode demo_rule \<noteq> ''all''" by code_simp+
  then show ?thesis
    using incident_companion_clear [of "[0]" 0 demo_pass demo_rule "[''d2'']" "[demo_resolved\<lparr>ae_definition_id := ''d2''\<rparr>]" 7]
      demo_pass_open demo_pass_opens by (simp add: Let_def)
qed

text \<open>
  Opening.  An entity adds an incident to the table only if it is firing, in the rule's scope,
  has no open incident of the rule, and meets the rule's threshold; the incident is open, for
  that rule and entity.
\<close>

theorem incident_opens_only_if_due:
  assumes "process_entity env ctx rule defn inst s = (s', r)" and "length (ps_incidents s) < length (ps_incidents s')"
  shows "ae_state inst = ''firing'' \<and> meets_threshold rule inst \<and>
    map_of (rc_open_by_key ctx) (incident_key inst) = None \<and>
    (case rc_scope ctx of Some scope \<Rightarrow> entity_in_scope inst scope | None \<Rightarrow> True) \<and>
    (\<exists>a. ps_incidents s' = ps_incidents s @ [a] \<and> inc_state a = ''open'' \<and> inc_rule_id a = ir_id rule \<and>
       inc_entity_key a = incident_key inst)"
  using assms(1)
proof (cases rule: process_entity_table)
  case (opens a)
  have "case rc_scope ctx of Some scope \<Rightarrow> entity_in_scope inst scope | None \<Rightarrow> True"
    using assms opens(1) by (auto simp: process_entity_def Let_def entity_in_scope_def split: option.splits if_splits)
  then show ?thesis using opens by auto
qed (use assms(2) in auto)

lemma demo_opens: "length (ps_incidents (start_pass [])) <
    length (ps_incidents (fst (process_entity demo_ienv (rule_context demo_ienv demo_rule None []) demo_rule demo_definition demo_firing (start_pass []))))"
  by code_simp

theorem incident_opens_only_if_due_witness:
  "ae_state demo_firing = ''firing'' \<and> meets_threshold demo_rule demo_firing"
  using incident_opens_only_if_due [OF prod.collapse [symmetric] demo_opens] by blast

end
