(* ===== verification/Dsl_Compiler_Props.thy ===== *)
theory Dsl_Compiler_Props
  imports Dsl_Parser_Props Dsl_Validate
begin

text \<open>
  Facts about the compiler and the validator of the alert DSL: string constants flow into query
  parameters only, the boolean operators do not influence the query, validation and compilation
  report the same thresholds, exactly which trees compile, and how parameters, placeholders and
  column aliases of a compiled query hang together.
\<close>

section \<open>String constants never reach the SQL text\<close>

fun map_right :: "(string \<Rightarrow> string) \<Rightarrow> cmp_right \<Rightarrow> cmp_right" where
  "map_right f (RStr s) = RStr (f s)"
| "map_right f r = r"

primrec map_strings :: "(string \<Rightarrow> string) \<Rightarrow> ast \<Rightarrow> ast" where
  "map_strings f (Comparison l op r) = Comparison l op (map_right f r)"
| "map_strings f (Changed i) = Changed i"
| "map_strings f (InList i vs b) = InList i (map f vs) b"
| "map_strings f (BoolOp op l r) = BoolOp op (map_strings f l) (map_strings f r)"

text \<open>Two compiler states that differ in the values of their parameters only.\<close>

definition same_but_params :: "cst \<Rightarrow> cst \<Rightarrow> bool" where
  "same_but_params s t \<longleftrightarrow> (\<exists>p. s = t\<lparr>c_params := p\<rparr> \<and> map fst p = map fst (c_params t))"

lemma same_but_params_refl [simp]: "same_but_params s s"
  unfolding same_but_params_def by (rule exI [of _ "c_params s"]) simp

lemma compile_right_strings: "compile_right a al op (map_right f r) st = compile_right a al op r st"
  by (cases r) (simp_all add: compile_right_def)

lemma build_query_parts_strings:
  "build_query_parts tbl (map_strings f a) st = build_query_parts tbl a st"
proof (induction a arbitrary: st)
  case (Comparison l op r)
  then show ?case by (cases l) (simp_all add: compile_right_strings cong: if_cong)
next
  case (BoolOp op l r)
  then show ?case by (simp cong: ebind_cong)
qed simp_all

lemma update_keys_cong: "map fst d = map fst d' \<Longrightarrow> map fst (dict_set k v d) = map fst (dict_set k v' d')"
  by (induction d d' rule: list_induct2') auto

lemma bind_in_values_keys:
  "map fst d = map fst d' \<Longrightarrow>
   map fst (bind_in_values n i (map f vs) d) = map fst (bind_in_values n i vs d')"
proof (induction vs arbitrary: i d d')
  case (Cons v vs)
  from Cons.prems show ?case
    unfolding list.map bind_in_values.simps by (rule Cons.IH [OF update_keys_cong])
qed simp

definition rel_ps :: "dsl_error + string list \<times> cst \<Rightarrow> dsl_error + string list \<times> cst \<Rightarrow> bool" where
  "rel_ps x y \<longleftrightarrow> (case (x, y) of
      (Inl e, Inl e') \<Rightarrow> e = e'
    | (Inr (ps, s), Inr (qs, t)) \<Rightarrow> ps = qs \<and> same_but_params s t
    | _ \<Rightarrow> False)"

lemma rel_ps_bind:
  "rel_ps x y \<Longrightarrow> (\<And>ps s t. same_but_params s t \<Longrightarrow> rel_ps (f (ps, s)) (g (ps, t))) \<Longrightarrow>
   rel_ps (ebind x f) (ebind y g)"
  by (cases x; cases y) (auto simp: rel_ps_def [of "Inl _" "Inl _"] rel_ps_def [of "Inr _"]
      rel_ps_def [of "Inl _" "Inr _"])

lemma build_config_where_strings:
  "same_but_params s t \<Longrightarrow>
   rel_ps (build_config_where (map_strings f a) (ps, s)) (build_config_where a (ps, t))"
proof (induction a arbitrary: ps s t)
  case (Comparison l op r)
  then obtain p where s: "s = t\<lparr>c_params := p\<rparr>" and p: "map fst p = map fst (c_params t)"
    by (auto simp: same_but_params_def)
  show ?case
  proof (cases l)
    case (LIdent i)
    let ?k = "''_str_val_'' @ str_nat (c_str_idx t)"
    have "same_but_params
        ((set_param ?k (PStr (str_right (map_right f r))) s)\<lparr>c_str_idx := c_str_idx t + 1\<rparr>)
        ((set_param ?k (PStr (str_right r)) t)\<lparr>c_str_idx := c_str_idx t + 1\<rparr>)"
      unfolding same_but_params_def s
      by (rule exI [of _ "dict_set ?k (PStr (str_right (map_right f r))) p"])
         (simp add: set_param_def update_keys_cong [OF p])
    then show ?thesis
      by (simp add: LIdent s rel_ps_def assert_safe_identifier_def Let_def)
  qed (simp add: rel_ps_def Comparison.prems)
next
  case (InList i vs b)
  then obtain p where s: "s = t\<lparr>c_params := p\<rparr>" and p: "map fst p = map fst (c_params t)"
    by (auto simp: same_but_params_def)
  have "same_but_params
      (s\<lparr>c_params := bind_in_values (c_str_idx t) 0 (map f vs) p, c_str_idx := c_str_idx t + 1\<rparr>)
      (t\<lparr>c_params := bind_in_values (c_str_idx t) 0 vs (c_params t), c_str_idx := c_str_idx t + 1\<rparr>)"
    unfolding same_but_params_def s
    by (rule exI [of _ "bind_in_values (c_str_idx t) 0 (map f vs) p"])
       (simp add: bind_in_values_keys [OF p])
  then show ?case
    by (simp add: s rel_ps_def assert_safe_identifier_def Let_def)
next
  case (BoolOp op l r)
  show ?case
    unfolding map_strings.simps build_config_where.simps
    by (rule rel_ps_bind) (use BoolOp in auto)
qed (auto simp: rel_ps_def)

theorem compile_strings:
  "map_sum id (\<lambda>q. (cq_sql q, map fst (cq_params q))) (compile_to_sql (map_strings f a) tbl w) =
   map_sum id (\<lambda>q. (cq_sql q, map fst (cq_params q))) (compile_to_sql a tbl w)"
proof -
  have cfg: "map_sum id (\<lambda>q. (cq_sql q, map fst (cq_params q)))
          (compile_config_string (map_strings f a) g ls st) =
        map_sum id (\<lambda>q. (cq_sql q, map fst (cq_params q))) (compile_config_string a g ls st)" for g ls st
    using build_config_where_strings [of st st f a "[]"]
    by (fastforce simp: compile_config_string_def rel_ps_def ebind_def same_but_params_def Let_def
        split: sum.splits prod.splits)
  have "build_query_parts tbl (map_strings f a) init_cst = build_query_parts tbl a init_cst"
    by (rule build_query_parts_strings)
  then show ?thesis
    using cfg by (cases a) (auto simp: compile_to_sql_def ebind_def split: sum.splits)
qed

section \<open>The boolean operators are ignored\<close>

primrec and_only :: "ast \<Rightarrow> ast" where
  "and_only (Comparison l op r) = Comparison l op r"
| "and_only (Changed i) = Changed i"
| "and_only (InList i vs b) = InList i vs b"
| "and_only (BoolOp op l r) = BoolOp ''AND'' (and_only l) (and_only r)"

lemma build_query_parts_and_only: "build_query_parts tbl (and_only a) st = build_query_parts tbl a st"
  by (induction a arbitrary: st) (simp_all cong: ebind_cong)

lemma build_config_where_and_only: "build_config_where (and_only a) ps = build_config_where a ps"
  by (induction a arbitrary: ps) (simp_all cong: ebind_cong)

theorem compile_and_only: "compile_to_sql (and_only a) tbl w = compile_to_sql a tbl w"
  using build_query_parts_and_only [of tbl a] build_config_where_and_only [of a]
  by (cases a) (simp_all add: compile_to_sql_def compile_config_string_def cong: if_cong)


section \<open>Validation and compilation agree on the thresholds\<close>

definition walk_matches :: "wst \<Rightarrow> cst \<Rightarrow> bool" where
  "walk_matches w st \<longleftrightarrow>
     w_thresholds w = c_threshold_params st \<and> w_counter w = c_threshold_idx st"

lemma assert_safe_Inr [simp]: "assert_safe_identifier v loc = Inr u \<longleftrightarrow>
    u = v \<and> safe_ident v \<and> length v \<le> IDENTIFIER_MAX_LENGTH"
  by (auto simp: assert_safe_identifier_def)

lemma agg_to_sql_frame:
  "agg_to_sql tbl func m st = Inr (sql, st') \<Longrightarrow> \<exists>ws. st' = st\<lparr>c_where_extras := ws\<rparr>"
proof -
  assume a: "agg_to_sql tbl func m st = Inr (sql, st')"
  then have "st' = st \<or> st' = add_where (has_metric m) st"
    by (auto simp: agg_to_sql_def rate_to_sql_def Let_def split: if_splits)
  moreover have "st = st\<lparr>c_where_extras := c_where_extras st\<rparr>" by simp
  ultimately show ?thesis unfolding add_where_def by blast
qed

lemma arith_to_sql_frame:
  "arith_to_sql tbl a st = Inr (sql, st') \<Longrightarrow> \<exists>ws. st' = st\<lparr>c_where_extras := ws\<rparr>"
proof (induction a arbitrary: st sql st')
  case (AggCall func m)
  then show ?case by (simp add: agg_to_sql_frame)
next
  case (NumericLiteral v)
  then show ?case by (auto intro: exI [of _ "c_where_extras st"])
next
  case (ArithOp op l r)
  then show ?case by fastforce
qed

lemma compile_arith_select_frame:
  assumes "compile_arith_select tbl a st = Inr (al, st')"
  shows "c_threshold_params st' = c_threshold_params st \<and> c_threshold_idx st' = c_threshold_idx st \<and>
    c_params st' = c_params st \<and> c_having_parts st' = c_having_parts st \<and>
    c_arith_idx st' = c_arith_idx st + 1 \<and> al = ''_arith_'' @ str_nat (c_arith_idx st) \<and>
    c_agg_selects st' \<noteq> []"
  using assms by (auto simp: compile_arith_select_def Let_def dest!: arith_to_sql_frame split: if_splits)

lemma walk_arith_frame [simp]:
  "w_thresholds (walk_arith a w) = w_thresholds w" "w_counter (walk_arith a w) = w_counter w"
  by (induction a arbitrary: w) (auto simp: Let_def)

lemma ch_op_equality:
  "op \<in> set VALID_COMPARE_OPS \<Longrightarrow>
   (ch_op_of op = ''='' \<or> ch_op_of op = ''!='') = (op = ''=='' \<or> op = ''!='')"
  by (auto simp: VALID_COMPARE_OPS_def ch_op_of_def)

lemmas cst_update_defs = add_having_def set_param_def add_threshold_def add_named_def
  add_tunable_def add_literal_def Let_def

lemma compile_right_matches:
  assumes "compile_right a al (ch_op_of op) r st = Inr st'" and "walk_matches w st"
    and "op \<in> set VALID_COMPARE_OPS"
  shows "walk_matches (walk_right a op r w) st'"
  using assms(1,2) unfolding compile_right_def walk_right_def Let_def ch_op_equality [OF assms(3)]
  by (cases r) (auto simp: walk_matches_def cst_update_defs register_inline_def
      split: if_splits option.splits)

lemma compile_right_selects:
  "compile_right a al op r st = Inr st' \<Longrightarrow> c_agg_selects st' = c_agg_selects st"
  by (cases r) (auto simp: compile_right_def cst_update_defs split: if_splits option.splits)

lemma build_query_parts_matches:
  "build_query_parts tbl a st = Inr st' \<Longrightarrow> walk_matches w st \<Longrightarrow> walk_matches (walk a w) st'"
proof (induction a arbitrary: st st' w)
  case (Comparison l op r)
  show ?case
  proof (cases l)
    case (LArith a)
    with Comparison.prems obtain al st1 where s: "compile_arith_select tbl a st = Inr (al, st1)"
      and op: "op \<in> set VALID_COMPARE_OPS" and r: "compile_right a al (ch_op_of op) r st1 = Inr st'"
      by (auto split: if_splits)
    have "walk_matches (walk_arith a w) st1"
      using compile_arith_select_frame [OF s] Comparison.prems(2) by (simp add: walk_matches_def)
    with r op show ?thesis by (simp add: LArith compile_right_matches)
  next
    case (LIdent i)
    with Comparison.prems show ?thesis by (simp add: walk_matches_def)
  qed
next
  case (BoolOp op l r)
  then show ?case by fastforce
qed (simp_all add: walk_matches_def)

lemma build_query_parts_selects:
  "build_query_parts tbl a st = Inr st' \<Longrightarrow> c_agg_selects st' = [] \<Longrightarrow>
   c_agg_selects st = [] \<and> c_threshold_params st' = c_threshold_params st"
proof (induction a arbitrary: st st')
  case (Comparison l op r)
  show ?case
  proof (cases l)
    case (LArith a)
    with Comparison.prems(1) obtain al st1 where s: "compile_arith_select tbl a st = Inr (al, st1)"
      and r: "compile_right a al (ch_op_of op) r st1 = Inr st'"
      by (auto split: if_splits)
    have "c_agg_selects st' \<noteq> []"
      using compile_arith_select_frame [OF s] compile_right_selects [OF r] by simp
    with Comparison.prems(2) show ?thesis by simp
  next
    case (LIdent i)
    with Comparison.prems show ?thesis by simp
  qed
next
  case (BoolOp op l r)
  then obtain st1 where l: "build_query_parts tbl l st = Inr st1"
    and r: "build_query_parts tbl r st1 = Inr st'" by auto
  show ?case using BoolOp.IH(2) [OF r BoolOp.prems(2)] BoolOp.IH(1) [OF l] by simp
qed simp_all

theorem compile_thresholds:
  assumes "compile_to_sql a tbl w = Inr q"
  shows "cq_threshold_params q = w_thresholds (walk a init_wst)"
proof -
  have m: "walk_matches init_wst init_cst"
    by (simp add: walk_matches_def init_wst_def init_cst_def)
  have *: "cq_threshold_params q = w_thresholds (walk a init_wst)"
    if st: "build_query_parts tbl a init_cst = Inr st"
      and q: "(if tbl = ''config'' \<and> c_agg_selects st = []
          then compile_config_string a (group_by_of tbl) (label_cols_of tbl) st
          else Inr (assemble_query tbl w st)) = Inr q" for st
  proof -
    have w: "w_thresholds (walk a init_wst) = c_threshold_params st"
      using build_query_parts_matches [OF st m] by (simp add: walk_matches_def)
    show ?thesis
    proof (cases "tbl = ''config'' \<and> c_agg_selects st = []")
      case True
      then have "c_threshold_params st = []"
        using build_query_parts_selects [OF st] by (simp add: init_cst_def)
      with True q w show ?thesis by (auto simp: compile_config_string_def Let_def)
    next
      case False
      with q w show ?thesis by (auto simp: assemble_query_def)
    qed
  qed
  show ?thesis
  proof (cases a)
    case (Changed i)
    with assms show ?thesis by (auto simp: compile_to_sql_def init_wst_def)
  qed (use assms * in \<open>auto simp: compile_to_sql_def simp del: walk.simps build_query_parts.simps\<close>)
qed


section \<open>When compilation succeeds\<close>

definition right_ok :: "string \<Rightarrow> cmp_right \<Rightarrow> bool" where
  "right_ok op r \<longleftrightarrow>
     (case r of
        RRef ref \<Rightarrow>
          if tr_is_named ref then length (tr_name ref) \<le> IDENTIFIER_MAX_LENGTH
          else (op = ''=='' \<or> op = ''!='') \<longrightarrow> tr_inline_value ref \<noteq> Some PInf
      | RFloat v \<Rightarrow> (op = ''=='' \<or> op = ''!='') \<longrightarrow> v \<noteq> PInf
      | RStr s \<Rightarrow> True)"

fun query_ok :: "ast \<Rightarrow> bool" where
  "query_ok (Comparison (LArith a) op r) \<longleftrightarrow> op \<in> set VALID_COMPARE_OPS \<and> right_ok op r"
| "query_ok (BoolOp op l r) \<longleftrightarrow> query_ok l \<and> query_ok r"
| "query_ok _ \<longleftrightarrow> True"

lemma word_shape_safe: "word_shape s \<Longrightarrow> safe_ident s"
  by (simp add: safe_ident_def)

lemma arith_to_sql_total: "arith_wf a \<Longrightarrow> \<exists>p. arith_to_sql tbl a st = Inr p"
proof (induction a arbitrary: st)
  case (AggCall f m)
  then show ?case
    by (auto simp: agg_to_sql_def rate_to_sql_def assert_safe_identifier_def word_shape_safe Let_def)
next
  case (ArithOp op l r)
  then have wf: "arith_wf l" "arith_wf r" by simp_all
  obtain p1 where p1: "arith_to_sql tbl l st = Inr p1" using ArithOp.IH(1) wf(1) by blast
  obtain p2 where "arith_to_sql tbl r (snd p1) = Inr p2" using ArithOp.IH(2) wf(2) by blast
  with p1 show ?case by (cases p1; cases p2) simp
qed simp

lemma compile_arith_select_total: "arith_wf a \<Longrightarrow> \<exists>p. compile_arith_select tbl a st = Inr p"
  using arith_to_sql_total [of a tbl st] by (auto simp: compile_arith_select_def Let_def)

lemma number_literal_total: "(\<exists>lit. number_literal (py_float s) = Inr lit) \<longleftrightarrow> py_float s \<noteq> PInf"
  using py_float_cases [of s] by (auto simp: number_literal_def)

lemma number_literal_PInf [simp]: "number_literal PInf = Inl FloatOverflow"
  by (simp add: number_literal_def)

lemma compile_right_total:
  assumes "right_wf r" and "op \<in> set VALID_COMPARE_OPS"
  shows "(\<exists>st'. compile_right a al (ch_op_of op) r st = Inr st') \<longleftrightarrow> right_ok op r"
proof (cases r)
  case (RRef ref)
  have "tr_is_named ref \<Longrightarrow> safe_ident (tr_name ref)"
    using assms(1) RRef by (auto simp: ref_wf_def word_shape_safe)
  moreover have "\<not> tr_is_named ref \<Longrightarrow> \<exists>s. tr_inline_value ref = Some (py_float s)"
    using assms(1) RRef by (auto simp: ref_wf_def)
  ultimately show ?thesis
    using number_literal_total unfolding compile_right_def Let_def ch_op_equality [OF assms(2)]
    by (auto simp: RRef right_ok_def ebind_Inr_iff add_literal_def)
next
  case (RFloat v)
  then show ?thesis
    using assms(1) number_literal_total unfolding compile_right_def Let_def ch_op_equality [OF assms(2)]
    by (auto simp: right_ok_def ebind_Inr_iff add_literal_def)
next
  case (RStr s)
  then show ?thesis by (simp add: compile_right_def right_ok_def)
qed

lemma build_query_parts_total:
  "ast_wf a \<Longrightarrow> (\<exists>st'. build_query_parts tbl a st = Inr st') \<longleftrightarrow> query_ok a"
proof (induction a arbitrary: st)
  case (Comparison l op r)
  show ?case
  proof (cases l)
    case (LArith a)
    with Comparison.prems have a: "arith_wf a" and r: "right_wf r" by simp_all
    obtain al st1 where s: "compile_arith_select tbl a st = Inr (al, st1)"
      using compile_arith_select_total [OF a] by (metis surj_pair)
    show ?thesis
      using compile_right_total [OF r, of op a al st1] by (simp add: LArith s)
  qed simp
next
  case (BoolOp op l r)
  then have l: "ast_wf l" and r: "ast_wf r" by simp_all
  show ?case
    using BoolOp.IH(1) [OF l, of st] BoolOp.IH(2) [OF r] by (auto simp: ebind_Inr_iff)
qed simp_all

theorem compile_succeeds_iff:
  assumes "ast_wf a" and "tbl \<noteq> ''config''"
  shows "(\<exists>q. compile_to_sql a tbl w = Inr q) \<longleftrightarrow> query_ok a"
proof -
  have "(\<exists>q. ebind (build_query_parts tbl a init_cst) (\<lambda>st. Inr (assemble_query tbl w st)) = Inr q)
      \<longleftrightarrow> query_ok a"
    using build_query_parts_total [OF assms(1), of tbl init_cst] by (auto simp: ebind_Inr_iff)
  then show ?thesis
    using assms(2) by (cases a) (auto simp: compile_to_sql_def simp del: build_query_parts.simps)
qed

section \<open>Parameters and aliases of a compiled query\<close>

fun named_refs :: "ast \<Rightarrow> string set" where
  "named_refs (Comparison (LArith a) op (RRef r)) = (if tr_is_named r then {tr_name r} else {})"
| "named_refs (BoolOp op l r) = named_refs l \<union> named_refs r"
| "named_refs _ = {}"

definition is_threshold_key :: "string \<Rightarrow> bool" where
  "is_threshold_key k \<longleftrightarrow> (\<exists>i. k = threshold_key i)"

definition tp_inv :: "(string, param_value) dict \<Rightarrow> nat \<Rightarrow> threshold_param \<Rightarrow> bool" where
  "tp_inv ps n tp \<longleftrightarrow>
     map_of ps (tp_param_key tp) = Some (PFloat (tp_default_value tp)) \<and>
     (\<forall>i. tp_param_key tp = threshold_key i \<longrightarrow> i < n) \<and>
     (\<not> is_threshold_key (tp_param_key tp) \<longrightarrow> tp_default_value tp = Fin 0)"

definition cst_inv :: "cst \<Rightarrow> bool" where
  "cst_inv st \<longleftrightarrow>
     (\<forall>tp \<in> set (c_threshold_params st). tp_inv (c_params st) (c_threshold_idx st) tp) \<and>
     (\<forall>(k, al) \<in> set (c_metric_aliases st). \<exists>e. e @ '' AS '' @ al \<in> set (c_agg_selects st))"

lemma threshold_key_inj [simp]: "threshold_key i = threshold_key j \<longleftrightarrow> i = j"
  by (simp add: threshold_key_def str_nat_inj)

lemma set_fold_dict_set:
  "(k, v) \<in> set (fold (\<lambda>ac d. dict_set (f ac) al d) xs d) \<Longrightarrow> v = al \<or> (k, v) \<in> set d"
proof (induction xs arbitrary: d)
  case (Cons x xs)
  then have "v = al \<or> (k, v) \<in> set (dict_set (f x) al d)" by simp
  moreover have "(k, v) \<in> set (dict_set k' al d) \<Longrightarrow> v = al \<or> (k, v) \<in> set d" for k'
    by (induction d) (auto split: if_splits)
  ultimately show ?case by blast
qed simp

lemma compile_arith_select_inv:
  assumes "compile_arith_select tbl a st = Inr (al, st')" and "cst_inv st"
  shows "cst_inv st'"
proof -
  from assms(1) obtain sql ws where
    sel: "c_agg_selects st' = c_agg_selects st @ [sql @ '' AS '' @ al]" and
    ali: "c_metric_aliases st' =
      fold (\<lambda>ac d. dict_set (alias_key (collect_agg_calls a) ac) al d) (collect_agg_calls a)
        (c_metric_aliases st)"
    by (auto simp: compile_arith_select_def Let_def dest!: arith_to_sql_frame split: if_splits)
  have "\<exists>e. e @ '' AS '' @ v \<in> set (c_agg_selects st')" if "(k, v) \<in> set (c_metric_aliases st')" for k v
    using set_fold_dict_set [OF that [unfolded ali]] assms(2) by (auto simp: sel cst_inv_def)
  then show ?thesis
    using assms(2) compile_arith_select_frame [OF assms(1)] by (auto simp: cst_inv_def)
qed

lemma add_having_inv [simp]: "cst_inv (add_having p st) = cst_inv st"
  by (simp add: cst_inv_def add_having_def)

lemma add_named_inv:
  assumes "cst_inv st" and "\<not> is_threshold_key nm"
  shows "cst_inv (add_named lhs nm st)"
proof -
  let ?ps = "dict_set nm (PFloat (Fin 0)) (c_params st)"
  have "tp_inv ?ps (c_threshold_idx st) tp" if "tp_inv (c_params st) (c_threshold_idx st) tp" for tp
    using that assms(2) by (auto simp: tp_inv_def)
  moreover have "tp_inv ?ps (c_threshold_idx st)
      \<lparr>tp_name = nm, tp_default_value = Fin 0, tp_param_key = nm\<rparr>"
    using assms(2) by (auto simp: tp_inv_def is_threshold_key_def)
  ultimately show ?thesis
    using assms(1) by (simp add: cst_inv_def add_named_def add_having_def set_param_def add_threshold_def)
qed

lemma add_tunable_inv:
  assumes "cst_inv st"
  shows "cst_inv (add_tunable lhs nm v st)"
proof -
  let ?key = "threshold_key (c_threshold_idx st)"
  let ?ps = "dict_set ?key (PFloat v) (c_params st)"
  have "tp_inv ?ps (Suc (c_threshold_idx st)) tp" if "tp_inv (c_params st) (c_threshold_idx st) tp" for tp
    using that by (auto simp: tp_inv_def less_SucI)
  moreover have "tp_inv ?ps (Suc (c_threshold_idx st))
      \<lparr>tp_name = nm, tp_default_value = v, tp_param_key = ?key\<rparr>"
    by (auto simp: tp_inv_def is_threshold_key_def)
  ultimately show ?thesis
    using assms by (simp add: cst_inv_def add_tunable_def Let_def add_having_def set_param_def
        add_threshold_def)
qed

lemma compile_right_inv:
  assumes "compile_right a al op r st = Inr st'" and "cst_inv st"
    and "\<forall>nm \<in> named_refs (Comparison (LArith a) op r). \<not> is_threshold_key nm"
  shows "cst_inv st'"
  using assms by (cases r)
    (auto simp: compile_right_def Let_def add_literal_def intro: add_named_inv add_tunable_inv
      split: if_splits option.splits)

lemma build_query_parts_inv:
  "build_query_parts tbl a st = Inr st' \<Longrightarrow> cst_inv st \<Longrightarrow>
   \<forall>nm \<in> named_refs a. \<not> is_threshold_key nm \<Longrightarrow> cst_inv st'"
proof (induction a arbitrary: st st')
  case (Comparison l op r)
  show ?case
  proof (cases l)
    case (LArith a)
    with Comparison.prems(1) obtain al st1 where s: "compile_arith_select tbl a st = Inr (al, st1)"
      and r: "compile_right a al (ch_op_of op) r st1 = Inr st'"
      by (auto split: if_splits)
    have "named_refs (Comparison (LArith a) (ch_op_of op) r) = named_refs (Comparison l op r)"
      by (cases r) (simp_all add: LArith)
    with Comparison.prems(3) show ?thesis
      using compile_right_inv [OF r compile_arith_select_inv [OF s Comparison.prems(2)]] by simp
  next
    case (LIdent i)
    with Comparison.prems show ?thesis by simp
  qed
next
  case (BoolOp op l r)
  then obtain st1 where l: "build_query_parts tbl l st = Inr st1"
    and r: "build_query_parts tbl r st1 = Inr st'" by auto
  show ?case using BoolOp.IH(2) [OF r] BoolOp.IH(1) [OF l] BoolOp.prems by simp
qed simp_all

end
