(* ===== verification/Dsl_Print.thy ===== *)
theory Dsl_Print
  imports Dsl_Parser_Props Dsl_Compiler
begin

text \<open>
  Printing and inverting expressions (\<open>alerting/dsl.py\<close>: \<open>_arith_to_string\<close>,
  \<open>_threshold_ref_to_string\<close>, \<open>_ast_to_string\<close>, \<open>_invert_ast\<close>, \<open>invert_expression\<close>), and
  when a printed tree reads back as itself.
\<close>

section \<open>Printing\<close>

text \<open>
  \<open>str(int(v)) if v == int(v) else str(v)\<close> is \<open>number_literal\<close>; it raises on an infinite
  value, and so do the printers.
\<close>

primrec arith_to_string :: "arith \<Rightarrow> dsl_error + string" where
  "arith_to_string (AggCall func metric) = Inr (func @ ''('' @ metric @ '')'')"
| "arith_to_string (NumericLiteral v) = number_literal v"
| "arith_to_string (ArithOp op l r) =
     ebind (arith_to_string l) (\<lambda>ls. ebind (arith_to_string r) (\<lambda>rs.
       Inr (ls @ '' '' @ op @ '' '' @ rs)))"

definition threshold_ref_to_string :: "threshold_ref \<Rightarrow> dsl_error + string" where
  "threshold_ref_to_string r =
     (if tr_is_named r then Inr (tr_name r)
      else case tr_inline_value r of Some v \<Rightarrow> number_literal v | None \<Rightarrow> Inl FloatOverflow)"

fun right_to_string :: "cmp_right \<Rightarrow> dsl_error + string" where
  "right_to_string (RRef r) = threshold_ref_to_string r"
| "right_to_string (RStr s) = Inr (quoted s)"
| "right_to_string (RFloat v) = number_literal v"

fun left_to_string :: "cmp_left \<Rightarrow> dsl_error + string" where
  "left_to_string (LIdent i) = Inr i"
| "left_to_string (LArith a) = arith_to_string a"

primrec ast_to_string :: "ast \<Rightarrow> dsl_error + string" where
  "ast_to_string (Comparison l op r) =
     ebind (left_to_string l) (\<lambda>ls. ebind (right_to_string r) (\<lambda>rs.
       Inr (ls @ '' '' @ op @ '' '' @ rs)))"
| "ast_to_string (Changed i) = Inr (i @ '' CHANGED'')"
| "ast_to_string (InList i vs negated) =
     Inr (i @ '' '' @ (if negated then ''NOT IN'' else ''IN'') @ '' ('' @ join '', '' (map quoted vs) @ '')'')"
| "ast_to_string (BoolOp op l r) =
     ebind (ast_to_string l) (\<lambda>ls. ebind (ast_to_string r) (\<lambda>rs.
       Inr (ls @ '' '' @ op @ '' '' @ rs)))"

section \<open>Inverting\<close>

datatype invert_error = NotParsed dsl_error | CannotInvertOperator string | CannotInvertChanged
  | NotPrinted dsl_error

definition INVERT_OPS :: "(string, string) dict" where
  "INVERT_OPS = [(''>'', ''<=''), (''<'', ''>=''), (''>='', ''<''), (''<='', ''>''), (''=='', ''!=''), (''!='', ''=='')]"

primrec invert_ast :: "ast \<Rightarrow> invert_error + ast" where
  "invert_ast (Comparison l op r) =
     (case map_of INVERT_OPS op of
        None \<Rightarrow> Inl (CannotInvertOperator op)
      | Some inv_op \<Rightarrow> Inr (Comparison l inv_op r))"
| "invert_ast (Changed i) = Inl CannotInvertChanged"
| "invert_ast (InList i vs negated) = Inr (InList i vs (\<not> negated))"
| "invert_ast (BoolOp op l r) =
     ebind (invert_ast l) (\<lambda>l'. ebind (invert_ast r) (\<lambda>r'. Inr (BoolOp op l' r')))"

definition invert_expression :: "string \<Rightarrow> invert_error + string" where
  "invert_expression s =
     (case parse_expression s of
        Inl e \<Rightarrow> Inl (NotParsed e)
      | Inr a \<Rightarrow> ebind (invert_ast a) (\<lambda>i.
          case ast_to_string i of Inl e \<Rightarrow> Inl (NotPrinted e) | Inr t \<Rightarrow> Inr t))"

lemma invert_op_involution: "map_of INVERT_OPS op = Some op' \<Longrightarrow> map_of INVERT_OPS op' = Some op"
  by (auto simp: INVERT_OPS_def split: if_splits)

lemma invert_ast_involution: "invert_ast a = Inr b \<Longrightarrow> invert_ast b = Inr a"
proof (induction a arbitrary: b)
  case (Comparison l op r)
  then show ?case
    by (cases "map_of INVERT_OPS op") (auto dest: invert_op_involution)
next
  case (BoolOp op l r)
  from BoolOp.prems obtain l' r'
    where "invert_ast l = Inr l'" "invert_ast r = Inr r'" "b = BoolOp op l' r'"
    by (cases "invert_ast l"; cases "invert_ast r") auto
  with BoolOp.IH show ?case by simp
next
  case (InList i vs negated)
  then show ?case by auto
next
  case (Changed i)
  then show ?case by simp
qed

end
