(* ===== verification/Dsl_Results.thy ===== *)
theory Dsl_Results
  imports Dsl_Compiler_Props Dsl_Print
begin

text \<open>
  What the development shows of the expression language as a whole: the parser always answers, what
  it accepts is within the limits and well-formed, what the compiler makes of it, and that
  validation, compilation and inversion agree.
\<close>

section \<open>Shared facts\<close>

definition window_or_default :: "string option \<Rightarrow> string" where
  "window_or_default window = (case window of None \<Rightarrow> ''5m'' | Some s \<Rightarrow> if s = [] then ''5m'' else s)"

lemma validate_valid:
  assumes "v_valid (validate_expression s tbl window severity nm)"
  obtains a q where "parse_expression s = Inr a" and "compile_to_sql a tbl (window_or_default window) = Inr q"
    and "semantic_errors a tbl = []"
    and "v_threshold_params (validate_expression s tbl window severity nm) = w_thresholds (walk a init_wst)"
  using assms
  by (auto simp: validate_expression_def invalid_def Let_def compile_errors_def window_or_default_def
      split: if_splits sum.splits)

lemma compiled_params:
  assumes "compile_to_sql a tbl w = Inr q" and "tbl \<noteq> ''config''" and "\<forall>nm \<in> named_refs a. \<not> is_threshold_key nm"
  shows "(\<forall>tp \<in> set (cq_threshold_params q). map_of (cq_params q) (tp_param_key tp) = Some (PFloat (tp_default_value tp)))"
proof (cases "\<exists>i. a = Changed i")
  case True
  then show ?thesis using assms(1) by (auto simp: compile_to_sql_def)
next
  case False
  have init: "cst_inv init_cst" by (simp add: cst_inv_def init_cst_def)
  from False assms(1,2) obtain st where st: "build_query_parts tbl a init_cst = Inr st" and q: "q = assemble_query tbl w st"
    by (cases a) (auto simp: compile_to_sql_def simp del: build_query_parts.simps)
  show ?thesis
    using build_query_parts_inv [OF st init assms(3)] by (auto simp: q assemble_query_def cst_inv_def tp_inv_def Let_def)
qed

text \<open>What an operator decides about two numbers.\<close>

fun cmp_holds :: "string \<Rightarrow> pyfloat \<Rightarrow> pyfloat \<Rightarrow> bool" where
  "cmp_holds op x y =
     (if op = ''>'' then flt y x else if op = ''<'' then flt x y else if op = ''>='' then fle y x
      else if op = ''<='' then fle x y else if op = ''=='' then feq x y else \<not> feq x y)"

lemma invert_op_negates:
  assumes "map_of INVERT_OPS op = Some op'" and "x \<noteq> NaN" and "y \<noteq> NaN"
  shows "cmp_holds op' x y = (\<not> cmp_holds op x y)"
proof -
  have "fle y x \<or> fle x y" using assms(2,3) by (cases x; cases y) auto
  then show ?thesis using assms(1) by (auto simp: INVERT_OPS_def flt_def split: if_splits)
qed

definition demo_expr :: string where
  "demo_expr = ''avg(x) + max(y) > warn''"

definition demo_ast :: ast where
  "demo_ast = projr (parse_expression demo_expr)"

definition demo_query :: compiled_query where
  "demo_query = projr (compile_to_sql demo_ast ''interface'' ''5m'')"

lemma demo_parses: "parse_expression demo_expr = Inr demo_ast"
proof -
  have "\<not> isl (parse_expression demo_expr)" by code_simp
  then show ?thesis by (cases "parse_expression demo_expr") (simp_all add: demo_ast_def)
qed

lemma demo_compiles: "compile_to_sql demo_ast ''interface'' ''5m'' = Inr demo_query"
proof -
  have "\<not> isl (compile_to_sql demo_ast ''interface'' ''5m'')" by code_simp
  then show ?thesis by (cases "compile_to_sql demo_ast ''interface'' ''5m''") (simp_all add: demo_query_def)
qed

lemma demo_named: "named_refs demo_ast = {''warn''}"
  by code_simp

section \<open>Results\<close>

text \<open>
  C35: The parser always answers.  The recursive descent, with its backtracking, ends on every input:
  the fuel that stands for Python's call stack is never used up, whatever the expression.
\<close>

theorem dsl_parser_returns: "parse_expression s \<noteq> Inl OutOfFuel"
  by (rule parse_expression_fuel)



text \<open>
  C36: String constants are bound, never spliced: replacing every string constant of an expression by
  any other strings changes neither the SQL text nor the parameter names of the compiled query,
  nor whether it compiles.
\<close>

theorem dsl_strings_are_bound:
  "map_sum id (\<lambda>q. (cq_sql q, map fst (cq_params q))) (compile_to_sql (map_strings f a) tbl w) =
   map_sum id (\<lambda>q. (cq_sql q, map fst (cq_params q))) (compile_to_sql a tbl w)"
  by (rule compile_strings)

text \<open>
  Exactly the parsed expressions that use a comparison operator of the table, thresholds of a
  bounded name and no equality with an infinite number compile for a table other than \<open>config\<close>.
\<close>

theorem dsl_compiles_iff:
  assumes "parse_expression s = Inr a" and "tbl \<noteq> ''config''"
  shows "(\<exists>q. compile_to_sql a tbl w = Inr q) \<longleftrightarrow> query_ok a"
  using compile_succeeds_iff [OF parse_expression_wf [OF assms(1)] assms(2)] .

theorem dsl_compiles_iff_witness: "(\<exists>q. compile_to_sql demo_ast ''interface'' ''5m'' = Inr q) \<longleftrightarrow> query_ok demo_ast"
  by (rule dsl_compiles_iff [OF demo_parses]) simp

text \<open>
  C37: Validation and compilation agree.  A valid expression parses and compiles for its window, and
  the threshold parameters validation reports, from which the threshold variables are created,
  are exactly those the compiled query binds, in order.
\<close>

theorem dsl_validation_is_compilation:
  assumes "v_valid (validate_expression s tbl window severity nm)"
  shows "\<exists>a q. parse_expression s = Inr a \<and> compile_to_sql a tbl (window_or_default window) = Inr q \<and>
    v_threshold_params (validate_expression s tbl window severity nm) = cq_threshold_params q"
  using assms by (rule validate_valid) (auto dest: compile_thresholds)

theorem dsl_validation_is_compilation_witness:
  "\<exists>a q. parse_expression demo_expr = Inr a \<and> compile_to_sql a ''interface'' (window_or_default None) = Inr q \<and>
    v_threshold_params (validate_expression demo_expr ''interface'' None None None) = cq_threshold_params q"
  by (rule dsl_validation_is_compilation) code_simp

text \<open>
  Every threshold of a compiled query has its parameter, bound to its default, unless a
  threshold is named like a generated key.
\<close>

theorem dsl_thresholds_are_bound:
  assumes "compile_to_sql a tbl w = Inr q" and "tbl \<noteq> ''config''" and "\<forall>nm \<in> named_refs a. \<not> is_threshold_key nm"
    and "tp \<in> set (cq_threshold_params q)"
  shows "map_of (cq_params q) (tp_param_key tp) = Some (PFloat (tp_default_value tp))"
  using compiled_params [OF assms(1-3)] assms(4) by blast

theorem dsl_thresholds_are_bound_witness:
  "map_of (cq_params demo_query) ''warn'' = Some (PFloat (Fin 0))"
proof -
  have "\<lparr>tp_name = ''warn'', tp_default_value = Fin 0, tp_param_key = ''warn''\<rparr> \<in> set (cq_threshold_params demo_query)"
    by code_simp
  from dsl_thresholds_are_bound [OF demo_compiles _ _ this] show ?thesis
    by (simp add: demo_named is_threshold_key_def threshold_key_def)
qed

text \<open>
  Inverting twice gives the expression back, and inverting a comparison gives the operator that
  holds of two numbers exactly when the first does not.
\<close>

theorem dsl_inversion:
  assumes "invert_ast a = Inr b"
  shows "invert_ast b = Inr a \<and>
    (\<forall>l op r op' x y. a = Comparison l op r \<longrightarrow> b = Comparison l op' r \<longrightarrow> x \<noteq> NaN \<longrightarrow> y \<noteq> NaN \<longrightarrow>
       cmp_holds op' x y = (\<not> cmp_holds op x y))"
proof (intro conjI allI impI)
  show "invert_ast b = Inr a" using assms by (rule invert_ast_involution)
  fix l op r op' and x y :: pyfloat
  assume "a = Comparison l op r" and "b = Comparison l op' r" and n: "x \<noteq> NaN" "y \<noteq> NaN"
  then have "map_of INVERT_OPS op = Some op'" using assms by (cases "map_of INVERT_OPS op") auto
  then show "cmp_holds op' x y = (\<not> cmp_holds op x y)" using n by (rule invert_op_negates)
qed

theorem dsl_inversion_witness:
  "invert_ast (Comparison (LIdent ''x'') ''<='' (RStr ''1'')) = Inr (Comparison (LIdent ''x'') ''>'' (RStr ''1'')) \<and>
   cmp_holds ''<='' (Fin 1) (Fin 2) = (\<not> cmp_holds ''>'' (Fin 1) (Fin 2))"
  using dsl_inversion [of "Comparison (LIdent ''x'') ''>'' (RStr ''1'')" "Comparison (LIdent ''x'') ''<='' (RStr ''1'')"]
  by (simp add: INVERT_OPS_def flt_def)

end
