(* ===== verification/Planner.thy ===== *)
theory Planner
  imports Prelude
begin

text \<open>
  The installer's inventory (\<open>inventory/schema.py\<close>) and planner (\<open>inventory/planner.py\<close>): the
  checks an inventory passes, the topology decisions for Postgres, etcd, Redis, ClickHouse with
  its keepers and HAProxy, and the plan.  Python's \<open>ip_address\<close> is a parameter of the checks.
  Settings that no decision reads (SSH, TLS and secrets files) are left out.
\<close>

section \<open>Inventory\<close>

datatype role = Postgres | Etcd | Redis | Clickhouse | ClickhouseKeeper | Central | Haproxy | Collector
  | DockerStats | Superset

definition ALL_ROLES :: "role list" where
  "ALL_ROLES = [Postgres, Etcd, Redis, Clickhouse, ClickhouseKeeper, Central, Haproxy, Collector, DockerStats, Superset]"

datatype tls_mode = SelfSigned | Provided

record tls_config =
  tls_mode_of :: tls_mode
  tls_cert_path :: "string option"
  tls_verify :: "bool option"

record cluster_config =
  cl_name :: string
  cl_vip :: "string option"
  cl_tls :: tls_config

record host =
  h_name :: string
  h_address :: string
  h_roles :: "role list"

datatype pg_mode = PgAuto | PgStandalone | PgHa

datatype redis_mode = RedisAuto | RedisSingle | RedisSentinel

datatype keeper_mode = Embedded | Dedicated

record sizing =
  sz_postgres :: pg_mode
  sz_shards :: nat
  sz_replicas :: nat
  sz_keeper :: keeper_mode
  sz_redis :: redis_mode

record inventory =
  iv_version :: int
  iv_cluster :: cluster_config
  iv_hosts :: "host list"
  iv_sizing :: sizing

definition has_role :: "host \<Rightarrow> role \<Rightarrow> bool" where
  "has_role h r \<longleftrightarrow> r \<in> set (h_roles h)"

definition hosts_with :: "inventory \<Rightarrow> role \<Rightarrow> host list" where
  "hosts_with iv r = filter (\<lambda>h. has_role h r) (iv_hosts iv)"

section \<open>Validation\<close>

definition effective_verify :: "tls_config \<Rightarrow> bool" where
  "effective_verify t = (case tls_verify t of Some v \<Rightarrow> v | None \<Rightarrow> tls_mode_of t = Provided)"

definition require_cert_when_provided :: "tls_config \<Rightarrow> bool" where
  "require_cert_when_provided t \<longleftrightarrow> \<not> (tls_mode_of t = Provided \<and> tls_cert_path t = None)"

text \<open>\<open>str.isalnum\<close> on the first 256 code points.\<close>

definition is_alnum :: "char \<Rightarrow> bool" where
  "is_alnum c \<longleftrightarrow> is_digit c \<or> is_upper c \<or> is_lower c \<or>
     (let n = code_of c in n \<in> {170, 178, 179, 181, 185, 186, 188, 189, 190} \<or> 192 \<le> n \<and> n \<noteq> 215 \<and> n \<noteq> 247)"

definition valid_name :: "string \<Rightarrow> bool" where
  "valid_name v \<longleftrightarrow>
     (let w = filter (\<lambda>c. c \<noteq> CHR ''-'' \<and> c \<noteq> CHR ''_'') v in w \<noteq> [] \<and> list_all is_alnum w)"

definition valid_host :: "(string \<Rightarrow> bool) \<Rightarrow> host \<Rightarrow> bool" where
  "valid_host ip_address h \<longleftrightarrow> ip_address (h_address h) \<and> valid_name (h_name h)"

definition valid_cluster :: "(string \<Rightarrow> bool) \<Rightarrow> cluster_config \<Rightarrow> bool" where
  "valid_cluster ip_address c \<longleftrightarrow>
     (case cl_vip c of Some v \<Rightarrow> ip_address v | None \<Rightarrow> True) \<and> require_cert_when_provided (cl_tls c)"

definition valid_sizing :: "sizing \<Rightarrow> bool" where
  "valid_sizing z \<longleftrightarrow> 1 \<le> sz_shards z \<and> sz_shards z \<le> 24 \<and> 1 \<le> sz_replicas z \<and> sz_replicas z \<le> 3"

definition valid_inventory :: "(string \<Rightarrow> bool) \<Rightarrow> inventory \<Rightarrow> bool" where
  "valid_inventory ip_address iv \<longleftrightarrow>
     iv_version iv = 1 \<and> valid_cluster ip_address (iv_cluster iv) \<and>
     list_all (valid_host ip_address) (iv_hosts iv) \<and> valid_sizing (iv_sizing iv) \<and>
     iv_hosts iv \<noteq> [] \<and> distinct (map h_name (iv_hosts iv)) \<and> distinct (map h_address (iv_hosts iv)) \<and>
     length (hosts_with iv Superset) \<le> 1"

section \<open>The plan\<close>

datatype pg_role = PrimarySeed | PgReplica | PgStandaloneNode

datatype redis_role = RedisPrimary | RedisReplica | RedisStandalone

record postgres_node =
  pn_host :: host
  pn_role :: pg_role

record redis_node =
  rn_host :: host
  rn_role :: redis_role
  rn_sentinel :: bool

record clickhouse_node =
  cn_host :: host
  cn_shard :: nat
  cn_replica :: nat
  cn_embedded_keeper :: bool
  cn_keeper_id :: "nat option"

record plan =
  pl_postgres :: "postgres_node list"
  pl_etcd_hosts :: "host list"
  pl_redis :: "redis_node list"
  pl_clickhouse :: "clickhouse_node list"
  pl_clickhouse_keepers :: "host list"
  pl_central_hosts :: "host list"
  pl_haproxy_hosts :: "host list"
  pl_collector_hosts :: "host list"
  pl_superset_host :: "host option"
  pl_pg_ha :: bool
  pl_redis_sentinel :: bool
  pl_haproxy_enabled :: bool
  pl_keeper_mode :: keeper_mode

datatype plan_error =
    PgHaNeedsTwo
  | NoPostgres
  | EtcdQuorum
  | SentinelNeedsTwo
  | NoRedisHost
  | NoClickhouse
  | ClickhouseSizing
  | DedicatedKeeperMissing
  | TwoNodeKeeper
  | VipNeedsTwoCentral
  | VipNeedsHaproxy
  | NoPostgresNodes
  | NoCentral
  | NoClickhouseNodes

definition resolve_pg_ha :: "inventory \<Rightarrow> host list \<Rightarrow> plan_error + bool" where
  "resolve_pg_ha iv pg_hosts =
     (case sz_postgres (iv_sizing iv) of
        PgStandalone \<Rightarrow> Inr False
      | PgHa \<Rightarrow> if length pg_hosts < 2 then Inl PgHaNeedsTwo else Inr True
      | PgAuto \<Rightarrow> if pg_hosts = [] then Inl NoPostgres else Inr (length pg_hosts > 1))"

definition plan_postgres :: "host list \<Rightarrow> bool \<Rightarrow> postgres_node list" where
  "plan_postgres pg_hosts ha =
     (case pg_hosts of
        [] \<Rightarrow> []
      | first # rest \<Rightarrow>
          if \<not> ha then [\<lparr>pn_host = first, pn_role = PgStandaloneNode\<rparr>]
          else \<lparr>pn_host = first, pn_role = PrimarySeed\<rparr> # map (\<lambda>h. \<lparr>pn_host = h, pn_role = PgReplica\<rparr>) rest)"

definition plan_etcd :: "inventory \<Rightarrow> bool \<Rightarrow> plan_error + host list" where
  "plan_etcd iv pg_ha =
     (if \<not> pg_ha then Inr []
      else let etcd_hosts = hosts_with iv Etcd
           in if length etcd_hosts = 3 \<or> length etcd_hosts = 5 then Inr etcd_hosts else Inl EtcdQuorum)"

definition resolve_redis_sentinel :: "inventory \<Rightarrow> host list \<Rightarrow> plan_error + bool" where
  "resolve_redis_sentinel iv central_hosts =
     (case sz_redis (iv_sizing iv) of
        RedisSingle \<Rightarrow> Inr False
      | RedisSentinel \<Rightarrow> if length central_hosts < 2 then Inl SentinelNeedsTwo else Inr True
      | RedisAuto \<Rightarrow> Inr (length central_hosts > 1))"

definition add_sentinel :: "host \<Rightarrow> redis_node list \<Rightarrow> redis_node list" where
  "add_sentinel c nodes =
     (if h_name c \<in> set (map (\<lambda>n. h_name (rn_host n)) nodes) then nodes
      else nodes @ [\<lparr>rn_host = c, rn_role = RedisReplica, rn_sentinel = True\<rparr>])"

definition plan_redis :: "inventory \<Rightarrow> host list \<Rightarrow> bool \<Rightarrow> plan_error + redis_node list" where
  "plan_redis iv central_hosts sentinel =
     (let redis_hosts = (if hosts_with iv Redis = [] then central_hosts else hosts_with iv Redis)
      in case redis_hosts of
           [] \<Rightarrow> Inl NoRedisHost
         | primary # replicas \<Rightarrow>
             if \<not> sentinel then Inr [\<lparr>rn_host = primary, rn_role = RedisStandalone, rn_sentinel = False\<rparr>]
             else Inr (fold add_sentinel central_hosts
                    (\<lparr>rn_host = primary, rn_role = RedisPrimary, rn_sentinel = True\<rparr> #
                     map (\<lambda>h. \<lparr>rn_host = h, rn_role = RedisReplica, rn_sentinel = True\<rparr>) replicas)))"

definition validate_ch_sizing :: "inventory \<Rightarrow> host list \<Rightarrow> plan_error + unit" where
  "validate_ch_sizing iv ch_hosts =
     (if ch_hosts = [] then Inl NoClickhouse
      else if length ch_hosts \<noteq> sz_shards (iv_sizing iv) * sz_replicas (iv_sizing iv) then Inl ClickhouseSizing
      else Inr ())"

definition resolve_keeper_mode :: "inventory \<Rightarrow> host list \<Rightarrow> plan_error + keeper_mode" where
  "resolve_keeper_mode iv ch_hosts =
     (if sz_keeper (iv_sizing iv) = Dedicated then
        (if hosts_with iv ClickhouseKeeper = [] then Inl DedicatedKeeperMissing else Inr Dedicated)
      else if length ch_hosts \<ge> 3 then Inr Embedded
      else if hosts_with iv ClickhouseKeeper \<noteq> [] then Inr Dedicated
      else if length ch_hosts = 1 then Inr Embedded
      else Inl TwoNodeKeeper)"

definition keeper_hosts :: "inventory \<Rightarrow> host list \<Rightarrow> keeper_mode \<Rightarrow> host list" where
  "keeper_hosts iv ch_hosts mode =
     (if mode = Dedicated then hosts_with iv ClickhouseKeeper
      else if length ch_hosts = 1 then take 1 ch_hosts
      else if length ch_hosts \<ge> 3 then take 3 ch_hosts else ch_hosts)"

definition keeper_ids :: "host list \<Rightarrow> (string, nat) dict" where
  "keeper_ids hs = fold (\<lambda>(i, h) d. dict_set (h_name h) (i + 1) d) (enumerate 0 hs) []"

text \<open>The pairs the two nested loops run through, and the node built at each.\<close>

definition grid :: "nat \<Rightarrow> nat \<Rightarrow> (nat \<times> nat) list" where
  "grid shards replicas = concat (map (\<lambda>s. map (\<lambda>r. (s, r)) [1..<Suc replicas]) [1..<Suc shards])"

definition ch_node :: "keeper_mode \<Rightarrow> (string, nat) dict \<Rightarrow> host \<Rightarrow> nat \<times> nat \<Rightarrow> clickhouse_node" where
  "ch_node mode ids h sr =
     \<lparr>cn_host = h, cn_shard = fst sr, cn_replica = snd sr,
      cn_embedded_keeper = (mode = Embedded \<and> h_name h \<in> set (dict_keys ids)),
      cn_keeper_id = map_of ids (h_name h)\<rparr>"

definition plan_clickhouse :: "inventory \<Rightarrow> host list \<Rightarrow> keeper_mode \<Rightarrow> clickhouse_node list \<times> host list" where
  "plan_clickhouse iv ch_hosts mode =
     (let ks = keeper_hosts iv ch_hosts mode;
          sr = grid (sz_shards (iv_sizing iv)) (sz_replicas (iv_sizing iv))
      in (map (\<lambda>i. ch_node mode (keeper_ids ks) (ch_hosts ! i) (sr ! i)) [0..<length sr], ks))"

definition vip_set :: "inventory \<Rightarrow> bool" where
  "vip_set iv \<longleftrightarrow> cl_vip (iv_cluster iv) \<noteq> None \<and> cl_vip (iv_cluster iv) \<noteq> Some []"

definition resolve_haproxy :: "inventory \<Rightarrow> host list \<Rightarrow> plan_error + bool" where
  "resolve_haproxy iv central_hosts =
     (if vip_set iv then
        (if length central_hosts < 2 then Inl VipNeedsTwoCentral
         else if hosts_with iv Haproxy = [] then Inl VipNeedsHaproxy
         else Inr True)
      else Inr (length central_hosts > 1 \<and> hosts_with iv Haproxy \<noteq> []))"

definition validate_plan :: "postgres_node list \<Rightarrow> host list \<Rightarrow> clickhouse_node list \<Rightarrow> plan_error + unit" where
  "validate_plan pg_nodes central_hosts ch_nodes =
     (if pg_nodes = [] then Inl NoPostgresNodes
      else if central_hosts = [] then Inl NoCentral
      else if ch_nodes = [] then Inl NoClickhouseNodes
      else Inr ())"

definition plan_cluster :: "inventory \<Rightarrow> plan_error + plan" where
  "plan_cluster iv =
     (let pg_hosts = hosts_with iv Postgres; ch_hosts = hosts_with iv Clickhouse;
          central_hosts = hosts_with iv Central
      in ebind (resolve_pg_ha iv pg_hosts) (\<lambda>pg_ha.
         let pg_nodes = plan_postgres pg_hosts pg_ha
         in ebind (if pg_ha then plan_etcd iv pg_ha else Inr []) (\<lambda>etcd_hosts.
            ebind (resolve_redis_sentinel iv central_hosts) (\<lambda>sentinel.
            ebind (plan_redis iv central_hosts sentinel) (\<lambda>redis_nodes.
            ebind (validate_ch_sizing iv ch_hosts) (\<lambda>_.
            ebind (resolve_keeper_mode iv ch_hosts) (\<lambda>mode.
            let (ch_nodes, ks) = plan_clickhouse iv ch_hosts mode
            in ebind (resolve_haproxy iv central_hosts) (\<lambda>haproxy.
               ebind (validate_plan pg_nodes central_hosts ch_nodes) (\<lambda>_.
                 Inr \<lparr>pl_postgres = pg_nodes, pl_etcd_hosts = etcd_hosts, pl_redis = redis_nodes,
                      pl_clickhouse = ch_nodes, pl_clickhouse_keepers = ks,
                      pl_central_hosts = central_hosts,
                      pl_haproxy_hosts = (if haproxy then hosts_with iv Haproxy else []),
                      pl_collector_hosts = hosts_with iv Collector,
                      pl_superset_host = (case hosts_with iv Superset of [] \<Rightarrow> None | h # _ \<Rightarrow> Some h),
                      pl_pg_ha = pg_ha, pl_redis_sentinel = sentinel, pl_haproxy_enabled = haproxy,
                      pl_keeper_mode = mode\<rparr>)))))))))"

end
