(* ===== verification/Planner_Props.thy ===== *)
theory Planner_Props
  imports Planner
begin

text \<open>
  Properties of the planner: exactly when an inventory has a plan, and what every plan guarantees
  about ClickHouse, the keepers, Postgres, Redis and HAProxy.
\<close>

section \<open>What a plan consists of\<close>

lemma plan_cluster_parts:
  assumes "plan_cluster iv = Inr p"
  shows "resolve_pg_ha iv (hosts_with iv Postgres) = Inr (pl_pg_ha p)"
    and "pl_postgres p = plan_postgres (hosts_with iv Postgres) (pl_pg_ha p)"
    and "plan_etcd iv (pl_pg_ha p) = Inr (pl_etcd_hosts p)"
    and "resolve_redis_sentinel iv (hosts_with iv Central) = Inr (pl_redis_sentinel p)"
    and "plan_redis iv (hosts_with iv Central) (pl_redis_sentinel p) = Inr (pl_redis p)"
    and "validate_ch_sizing iv (hosts_with iv Clickhouse) = Inr ()"
    and "resolve_keeper_mode iv (hosts_with iv Clickhouse) = Inr (pl_keeper_mode p)"
    and "plan_clickhouse iv (hosts_with iv Clickhouse) (pl_keeper_mode p) = (pl_clickhouse p, pl_clickhouse_keepers p)"
    and "resolve_haproxy iv (hosts_with iv Central) = Inr (pl_haproxy_enabled p)"
    and "validate_plan (pl_postgres p) (hosts_with iv Central) (pl_clickhouse p) = Inr ()"
    and "pl_haproxy_hosts p = (if pl_haproxy_enabled p then hosts_with iv Haproxy else [])"
    and "pl_central_hosts p = hosts_with iv Central"
  using assms
  by (auto simp: plan_cluster_def Let_def plan_etcd_def split: prod.splits if_splits)

section \<open>Sharding\<close>

lemma length_grid: "length (grid s r) = s * r"
proof -
  have "sum_list (map (\<lambda>i. r) xs) = length xs * r" for xs :: "nat list"
    by (induction xs) auto
  then show ?thesis by (simp add: grid_def length_concat comp_def del: upt_Suc)
qed

lemma set_grid: "set (grid s r) = {1..s} \<times> {1..r}"
proof -
  have "set (grid s r) = (\<Union>a\<in>{1..<Suc s}. Pair a ` {1..<Suc r})" by (simp add: grid_def del: upt_Suc)
  also have "\<dots> = {1..s} \<times> {1..r}" unfolding atLeastLessThanSuc_atLeastAtMost by blast
  finally show ?thesis .
qed

lemma distinct_grid: "distinct (grid s r)"
proof -
  have "distinct (concat (map (\<lambda>s. map (\<lambda>r. (s, r)) ys) xs))" if "distinct xs" "distinct ys" for xs ys :: "nat list"
    using that by (induction xs) (auto simp: distinct_map inj_on_def)
  then show ?thesis by (simp add: grid_def del: upt_Suc)
qed

lemma plan_clickhouse_nodes:
  assumes "length chs = sz_shards (iv_sizing iv) * sz_replicas (iv_sizing iv)"
  shows "map cn_host (fst (plan_clickhouse iv chs mode)) = chs"
    and "map (\<lambda>n. (cn_shard n, cn_replica n)) (fst (plan_clickhouse iv chs mode)) =
      grid (sz_shards (iv_sizing iv)) (sz_replicas (iv_sizing iv))"
proof -
  let ?g = "grid (sz_shards (iv_sizing iv)) (sz_replicas (iv_sizing iv))"
  have len: "length chs = length ?g" using assms by (simp add: length_grid)
  have "map cn_host (fst (plan_clickhouse iv chs mode)) = map (\<lambda>i. chs ! i) [0..<length chs]"
    by (simp add: plan_clickhouse_def Let_def ch_node_def comp_def len)
  then show "map cn_host (fst (plan_clickhouse iv chs mode)) = chs" by (simp add: map_nth)
  have "map (\<lambda>n. (cn_shard n, cn_replica n)) (fst (plan_clickhouse iv chs mode)) = map (\<lambda>i. ?g ! i) [0..<length ?g]"
    by (simp add: plan_clickhouse_def Let_def ch_node_def comp_def)
  then show "map (\<lambda>n. (cn_shard n, cn_replica n)) (fst (plan_clickhouse iv chs mode)) = ?g" by (simp add: map_nth)
qed

section \<open>Keepers\<close>

lemma keeper_ids_spec:
  assumes "distinct (map h_name hs)"
  shows "dict_keys (keeper_ids hs) = map h_name hs \<and> (\<forall>i < length hs. map_of (keeper_ids hs) (h_name (hs ! i)) = Some (i + 1))"
  using assms
proof (induction hs rule: rev_induct)
  case Nil
  then show ?case by (simp add: keeper_ids_def)
next
  case (snoc h hs)
  have k: "keeper_ids (hs @ [h]) = dict_set (h_name h) (length hs + 1) (keeper_ids hs)"
    by (simp add: keeper_ids_def enumerate_append_eq)
  have IH: "dict_keys (keeper_ids hs) = map h_name hs" "\<forall>i < length hs. map_of (keeper_ids hs) (h_name (hs ! i)) = Some (i + 1)"
    using snoc by simp_all
  have new: "h_name h \<notin> set (dict_keys (keeper_ids hs))" using snoc.prems IH(1) by simp
  have app: "dict_set a b d = d @ [(a, b)]" if "a \<notin> set (dict_keys d)" for a :: string and b :: nat and d
    using that by (induction d) auto
  have keys: "dict_keys (keeper_ids (hs @ [h])) = map h_name (hs @ [h])"
    unfolding k app [OF new] by (simp add: IH(1))
  have "map_of (keeper_ids (hs @ [h])) (h_name ((hs @ [h]) ! i)) = Some (i + 1)" if i: "i < length (hs @ [h])" for i
  proof (cases "i < length hs")
    case True
    then have "h_name (hs ! i) \<in> set (map h_name hs)" by simp
    then have "h_name (hs ! i) \<noteq> h_name h" using new IH(1) by metis
    then show ?thesis using True IH(2) by (simp add: k nth_append)
  next
    case False
    then show ?thesis using i by (simp add: k nth_append)
  qed
  then show ?case using keys by blast
qed

lemma resolve_keeper_mode_cases:
  assumes "resolve_keeper_mode iv chs = Inr m" "chs \<noteq> []"
  shows "m = Embedded \<Longrightarrow> length chs = 1 \<or> 3 \<le> length chs"
    and "m = Dedicated \<Longrightarrow> hosts_with iv ClickhouseKeeper \<noteq> []"
  using assms by (auto simp: resolve_keeper_mode_def split: if_splits)

lemma distinct_hosts_with:
  assumes "distinct (map h_name (iv_hosts iv))"
  shows "distinct (map h_name (hosts_with iv r))"
  using assms by (simp add: hosts_with_def distinct_map_filter)

section \<open>Redis\<close>

abbreviation rn_name :: "redis_node \<Rightarrow> string" where
  "rn_name n \<equiv> h_name (rn_host n)"

lemma fold_add_sentinel:
  assumes "distinct (map rn_name ns)" "ns \<noteq> []" "rn_role (hd ns) = RedisPrimary"
    "\<forall>n\<in>set (tl ns). rn_role n = RedisReplica" "\<forall>n\<in>set ns. rn_sentinel n"
  shows "distinct (map rn_name (fold add_sentinel cs ns)) \<and>
    set (map rn_name (fold add_sentinel cs ns)) = set (map rn_name ns) \<union> h_name ` set cs \<and>
    (\<exists>tail. fold add_sentinel cs ns = hd ns # tail \<and> (\<forall>n\<in>set tail. rn_role n = RedisReplica)) \<and>
    (\<forall>n\<in>set (fold add_sentinel cs ns). rn_sentinel n)"
  using assms
proof (induction cs arbitrary: ns)
  case Nil
  then show ?case by (cases ns) auto
next
  case (Cons c cs)
  let ?ns = "add_sentinel c ns"
  have nd: "distinct (map rn_name ?ns)" and hd: "?ns \<noteq> []" "hd ?ns = hd ns"
    and tl: "\<forall>n\<in>set (tl ?ns). rn_role n = RedisReplica" and se: "\<forall>n\<in>set ?ns. rn_sentinel n"
    and names: "set (map rn_name ?ns) = insert (h_name c) (set (map rn_name ns))"
    using Cons.prems by (auto simp: add_sentinel_def)
  have role: "rn_role (hd ?ns) = RedisPrimary" using Cons.prems(3) hd(2) by simp
  from Cons.IH [OF nd hd(1) role tl se] show ?case
    using names hd(2) by simp
qed

lemma plan_redis_sentinel:
  assumes "plan_redis iv cs True = Inr ns" "distinct (map h_name (iv_hosts iv))" "cs = hosts_with iv Central"
  shows "distinct (map rn_name ns)" and "h_name ` set cs \<subseteq> set (map rn_name ns)"
    and "\<exists>p tail. ns = p # tail \<and> rn_role p = RedisPrimary \<and> (\<forall>n\<in>set tail. rn_role n = RedisReplica)"
    and "\<forall>n\<in>set ns. rn_sentinel n"
proof -
  define rs where "rs = (if hosts_with iv Redis = [] then cs else hosts_with iv Redis)"
  have d: "distinct (map h_name rs)" using assms(2,3) by (simp add: rs_def distinct_hosts_with)
  obtain p rest where rs: "rs = p # rest" using assms(1) by (cases rs) (auto simp: plan_redis_def rs_def [symmetric])
  define start where "start = \<lparr>rn_host = p, rn_role = RedisPrimary, rn_sentinel = True\<rparr> #
    map (\<lambda>h. \<lparr>rn_host = h, rn_role = RedisReplica, rn_sentinel = True\<rparr>) rest"
  have ns: "ns = fold add_sentinel cs start" using assms(1) rs by (simp add: plan_redis_def rs_def [symmetric] start_def)
  have st: "distinct (map rn_name start)" "start \<noteq> []" "rn_role (hd start) = RedisPrimary"
    "\<forall>n\<in>set (tl start). rn_role n = RedisReplica" "\<forall>n\<in>set start. rn_sentinel n"
    using d rs by (auto simp: start_def comp_def)
  note F = fold_add_sentinel [OF st, of cs, folded ns]
  show "distinct (map rn_name ns)" "h_name ` set cs \<subseteq> set (map rn_name ns)" "\<forall>n\<in>set ns. rn_sentinel n"
    using F by simp_all
  show "\<exists>p tail. ns = p # tail \<and> rn_role p = RedisPrimary \<and> (\<forall>n\<in>set tail. rn_role n = RedisReplica)"
    using F st(3) by blast
qed

section \<open>When an inventory has a plan\<close>

text \<open>The conditions an operator has to meet, stated on the role counts alone.\<close>

definition etcd_quorum :: "inventory \<Rightarrow> bool" where
  "etcd_quorum iv \<longleftrightarrow> length (hosts_with iv Etcd) = 3 \<or> length (hosts_with iv Etcd) = 5"

definition plannable :: "inventory \<Rightarrow> bool" where
  "plannable iv \<longleftrightarrow>
     (let pg = length (hosts_with iv Postgres); ce = length (hosts_with iv Central);
          ch = length (hosts_with iv Clickhouse); ke = length (hosts_with iv ClickhouseKeeper);
          z = iv_sizing iv
      in 1 \<le> pg \<and> 1 \<le> ce \<and> 1 \<le> ch \<and> ch = sz_shards z * sz_replicas z \<and>
         (sz_postgres z = PgHa \<longrightarrow> 2 \<le> pg) \<and> (sz_postgres z \<noteq> PgStandalone \<and> 2 \<le> pg \<longrightarrow> etcd_quorum iv) \<and>
         (sz_redis z = RedisSentinel \<longrightarrow> 2 \<le> ce) \<and>
         (sz_keeper z = Dedicated \<or> ch = 2 \<longrightarrow> 1 \<le> ke) \<and>
         (vip_set iv \<longrightarrow> 2 \<le> ce \<and> hosts_with iv Haproxy \<noteq> []))"

lemma one_le_length: "(1 \<le> length xs) = (xs \<noteq> [])"
  by (cases xs) auto

lemma resolve_pg_ha_iff:
  "(\<exists>b. resolve_pg_ha iv pg = Inr b \<and> (b \<longrightarrow> etcd_quorum iv)) \<and> pg \<noteq> [] \<longleftrightarrow>
   pg \<noteq> [] \<and> (sz_postgres (iv_sizing iv) = PgHa \<longrightarrow> 2 \<le> length pg) \<and>
     (sz_postgres (iv_sizing iv) \<noteq> PgStandalone \<and> 2 \<le> length pg \<longrightarrow> etcd_quorum iv)"
  by (cases "sz_postgres (iv_sizing iv)") (auto simp: resolve_pg_ha_def)

lemma plan_etcd_iff: "(\<exists>e. plan_etcd iv b = Inr e) \<longleftrightarrow> (b \<longrightarrow> etcd_quorum iv)"
  by (auto simp: plan_etcd_def etcd_quorum_def Let_def)

lemma resolve_redis_sentinel_iff:
  "(\<exists>b. resolve_redis_sentinel iv cs = Inr b) \<longleftrightarrow> (sz_redis (iv_sizing iv) = RedisSentinel \<longrightarrow> 2 \<le> length cs)"
  by (cases "sz_redis (iv_sizing iv)") (auto simp: resolve_redis_sentinel_def)

lemma plan_redis_total: "cs \<noteq> [] \<Longrightarrow> \<exists>ns. plan_redis iv cs b = Inr ns"
  by (auto simp: plan_redis_def Let_def split: list.splits)

lemma resolve_keeper_mode_iff:
  "chs \<noteq> [] \<Longrightarrow> (\<exists>m. resolve_keeper_mode iv chs = Inr m) \<longleftrightarrow>
   (sz_keeper (iv_sizing iv) = Dedicated \<or> length chs = 2 \<longrightarrow> hosts_with iv ClickhouseKeeper \<noteq> [])"
  by (cases "sz_keeper (iv_sizing iv)"; cases chs) (auto simp: resolve_keeper_mode_def not_le less_Suc_eq_le le_Suc_eq eval_nat_numeral)

lemma resolve_haproxy_iff:
  "(\<exists>b. resolve_haproxy iv cs = Inr b) \<longleftrightarrow> (vip_set iv \<longrightarrow> 2 \<le> length cs \<and> hosts_with iv Haproxy \<noteq> [])"
  by (auto simp: resolve_haproxy_def)

lemma validate_ch_sizing_iff:
  "validate_ch_sizing iv chs = Inr () \<longleftrightarrow> chs \<noteq> [] \<and> length chs = sz_shards (iv_sizing iv) * sz_replicas (iv_sizing iv)"
  by (simp add: validate_ch_sizing_def)

lemma validate_plan_iff: "validate_plan ns cs chs = Inr () \<longleftrightarrow> ns \<noteq> [] \<and> cs \<noteq> [] \<and> chs \<noteq> []"
  by (simp add: validate_plan_def)

lemma plan_postgres_empty: "plan_postgres pg b = [] \<longleftrightarrow> pg = []"
  by (auto simp: plan_postgres_def split: list.splits)

lemmas plan_iffs = plan_etcd_iff resolve_redis_sentinel_iff resolve_keeper_mode_iff resolve_haproxy_iff
  validate_ch_sizing_iff validate_plan_iff plan_postgres_empty

lemma plan_clickhouse_nonempty:
  "validate_ch_sizing iv chs = Inr () \<Longrightarrow> fst (plan_clickhouse iv chs m) \<noteq> []"
  using plan_clickhouse_nodes(1) [of chs iv m] by (auto simp: validate_ch_sizing_iff)

lemma plan_cluster_built:
  assumes "resolve_pg_ha iv (hosts_with iv Postgres) = Inr b" and "plan_etcd iv b = Inr e"
    and "resolve_redis_sentinel iv (hosts_with iv Central) = Inr rs"
    and "plan_redis iv (hosts_with iv Central) rs = Inr ns"
    and "validate_ch_sizing iv (hosts_with iv Clickhouse) = Inr ()"
    and "resolve_keeper_mode iv (hosts_with iv Clickhouse) = Inr m"
    and "resolve_haproxy iv (hosts_with iv Central) = Inr hp"
    and "hosts_with iv Postgres \<noteq> []" and "hosts_with iv Central \<noteq> []"
  shows "\<exists>p. plan_cluster iv = Inr p"
proof -
  have v: "validate_plan (plan_postgres (hosts_with iv Postgres) b) (hosts_with iv Central)
      (fst (plan_clickhouse iv (hosts_with iv Clickhouse) m)) = Inr ()"
    using assms plan_clickhouse_nonempty [OF assms(5)] by (simp add: validate_plan_iff plan_postgres_empty)
  have "(if b then plan_etcd iv b else Inr []) = Inr e" using assms(2) by (auto simp: plan_etcd_def)
  then show ?thesis using assms v by (simp add: plan_cluster_def Let_def split_beta)
qed

lemma plan_cluster_iff: "(\<exists>p. plan_cluster iv = Inr p) \<longleftrightarrow> plannable iv"
proof
  assume "\<exists>p. plan_cluster iv = Inr p"
  then obtain p where p: "plan_cluster iv = Inr p" by blast
  note P = plan_cluster_parts [OF p]
  have ne: "hosts_with iv Postgres \<noteq> []" "hosts_with iv Central \<noteq> []"
    using P(10) by (auto simp: validate_plan_iff P(2) plan_postgres_empty)
  have ch: "hosts_with iv Clickhouse \<noteq> []"
    "length (hosts_with iv Clickhouse) = sz_shards (iv_sizing iv) * sz_replicas (iv_sizing iv)"
    using P(6) by (simp_all add: validate_ch_sizing_iff)
  have "pl_pg_ha p \<longrightarrow> etcd_quorum iv" using plan_etcd_iff P(3) by blast
  with P(1) ne have "(sz_postgres (iv_sizing iv) = PgHa \<longrightarrow> 2 \<le> length (hosts_with iv Postgres)) \<and>
     (sz_postgres (iv_sizing iv) \<noteq> PgStandalone \<and> 2 \<le> length (hosts_with iv Postgres) \<longrightarrow> etcd_quorum iv)"
    using resolve_pg_ha_iff [of iv "hosts_with iv Postgres"] by blast
  moreover have "sz_redis (iv_sizing iv) = RedisSentinel \<longrightarrow> 2 \<le> length (hosts_with iv Central)"
    using resolve_redis_sentinel_iff P(4) by blast
  moreover have "sz_keeper (iv_sizing iv) = Dedicated \<or> length (hosts_with iv Clickhouse) = 2 \<longrightarrow>
      hosts_with iv ClickhouseKeeper \<noteq> []"
    using resolve_keeper_mode_iff [OF ch(1)] P(7) by blast
  moreover have "vip_set iv \<longrightarrow> 2 \<le> length (hosts_with iv Central) \<and> hosts_with iv Haproxy \<noteq> []"
    using resolve_haproxy_iff P(9) by blast
  ultimately show "plannable iv" using ne ch unfolding plannable_def Let_def one_le_length by blast
next
  assume "plannable iv"
  then have c: "hosts_with iv Postgres \<noteq> []" "hosts_with iv Central \<noteq> []" "hosts_with iv Clickhouse \<noteq> []"
    "length (hosts_with iv Clickhouse) = sz_shards (iv_sizing iv) * sz_replicas (iv_sizing iv)"
    "(sz_postgres (iv_sizing iv) = PgHa \<longrightarrow> 2 \<le> length (hosts_with iv Postgres)) \<and>
     (sz_postgres (iv_sizing iv) \<noteq> PgStandalone \<and> 2 \<le> length (hosts_with iv Postgres) \<longrightarrow> etcd_quorum iv)"
    "sz_redis (iv_sizing iv) = RedisSentinel \<longrightarrow> 2 \<le> length (hosts_with iv Central)"
    "sz_keeper (iv_sizing iv) = Dedicated \<or> length (hosts_with iv Clickhouse) = 2 \<longrightarrow> hosts_with iv ClickhouseKeeper \<noteq> []"
    "vip_set iv \<longrightarrow> 2 \<le> length (hosts_with iv Central) \<and> hosts_with iv Haproxy \<noteq> []"
    unfolding plannable_def Let_def one_le_length by blast+
  obtain b where b: "resolve_pg_ha iv (hosts_with iv Postgres) = Inr b" "b \<longrightarrow> etcd_quorum iv"
    using resolve_pg_ha_iff c(1,5) by blast
  obtain e where e: "plan_etcd iv b = Inr e" using b(2) plan_etcd_iff by blast
  obtain rs where rs: "resolve_redis_sentinel iv (hosts_with iv Central) = Inr rs"
    using resolve_redis_sentinel_iff c(6) by blast
  obtain ns where ns: "plan_redis iv (hosts_with iv Central) rs = Inr ns" using plan_redis_total [OF c(2)] by blast
  obtain m where m: "resolve_keeper_mode iv (hosts_with iv Clickhouse) = Inr m"
    using resolve_keeper_mode_iff [OF c(3)] c(7) by blast
  obtain hp where hp: "resolve_haproxy iv (hosts_with iv Central) = Inr hp" using resolve_haproxy_iff c(8) by blast
  show "\<exists>p. plan_cluster iv = Inr p"
    using plan_cluster_built [OF b(1) e rs ns _ m hp c(1,2)] c(3,4) by (simp add: validate_ch_sizing_iff)
qed

end
