(* ===== verification/Planner_Results.thy ===== *)
theory Planner_Results
  imports Planner_Props
begin

text \<open>
  What every plan of the installer guarantees, and exactly which inventories have one.  The example
  is a three-host cluster with a virtual address, every service replicated.
\<close>

section \<open>Example\<close>

definition demo_host :: "string \<Rightarrow> string \<Rightarrow> host" where
  "demo_host nm addr = \<lparr>h_name = nm, h_address = addr,
     h_roles = [Postgres, Etcd, Redis, Clickhouse, Central, Haproxy]\<rparr>"

definition demo_inventory :: inventory where
  "demo_inventory =
     \<lparr>iv_version = 1,
      iv_cluster = \<lparr>cl_name = ''c'', cl_vip = Some ''10.0.0.9'',
        cl_tls = \<lparr>tls_mode_of = SelfSigned, tls_cert_path = None, tls_verify = None\<rparr>\<rparr>,
      iv_hosts = [demo_host ''n1'' ''10.0.0.1'', demo_host ''n2'' ''10.0.0.2'', demo_host ''n3'' ''10.0.0.3''],
      iv_sizing = \<lparr>sz_postgres = PgAuto, sz_shards = 1, sz_replicas = 3, sz_keeper = Embedded, sz_redis = RedisAuto\<rparr>\<rparr>"

definition demo_plan :: plan where
  "demo_plan = projr (plan_cluster demo_inventory)"

lemma demo_planned: "plan_cluster demo_inventory = Inr demo_plan"
proof -
  have "\<not> isl (plan_cluster demo_inventory)" by code_simp
  then show ?thesis by (cases "plan_cluster demo_inventory") (simp_all add: demo_plan_def)
qed

lemma demo_names: "distinct (map h_name (iv_hosts demo_inventory))"
  by code_simp

section \<open>Results\<close>

text \<open>
  Exactly the inventories that meet the stated conditions on their role counts have a plan; every
  other one is refused.
\<close>

theorem planner_succeeds_iff: "(\<exists>p. plan_cluster iv = Inr p) \<longleftrightarrow> plannable iv"
  by (rule plan_cluster_iff)

text \<open>
  ClickHouse placement.  In every plan each ClickHouse host carries exactly one node, in inventory
  order, and each pair of a shard and a replica is placed exactly once.
\<close>

theorem planner_places_clickhouse:
  assumes "plan_cluster iv = Inr p"
  shows "map cn_host (pl_clickhouse p) = hosts_with iv Clickhouse \<and>
    distinct (map (\<lambda>n. (cn_shard n, cn_replica n)) (pl_clickhouse p)) \<and>
    (\<lambda>n. (cn_shard n, cn_replica n)) ` set (pl_clickhouse p) =
      {1..sz_shards (iv_sizing iv)} \<times> {1..sz_replicas (iv_sizing iv)}"
proof -
  note P = plan_cluster_parts [OF assms]
  have len: "length (hosts_with iv Clickhouse) = sz_shards (iv_sizing iv) * sz_replicas (iv_sizing iv)"
    using P(6) by (simp add: validate_ch_sizing_iff)
  note N = plan_clickhouse_nodes [OF len, of "pl_keeper_mode p", unfolded P(8) fst_conv]
  show ?thesis using N distinct_grid set_grid unfolding set_map [symmetric] by metis
qed

theorem planner_places_clickhouse_witness:
  "map cn_host (pl_clickhouse demo_plan) = hosts_with demo_inventory Clickhouse \<and>
    distinct (map (\<lambda>n. (cn_shard n, cn_replica n)) (pl_clickhouse demo_plan)) \<and>
    (\<lambda>n. (cn_shard n, cn_replica n)) ` set (pl_clickhouse demo_plan) =
      {1..sz_shards (iv_sizing demo_inventory)} \<times> {1..sz_replicas (iv_sizing demo_inventory)}"
  by (rule planner_places_clickhouse) (rule demo_planned)



text \<open>
  Failover.  A highly available Postgres has one seed primary, on the first host, and a replica on
  every other one; a Redis with sentinels has exactly one primary, each host at most once, every
  node with a sentinel and a node on every central host; and a cluster with a virtual address
  has HAProxy enabled on some host in front of at least two central hosts.
\<close>

theorem planner_failover:
  assumes "plan_cluster iv = Inr p" and "distinct (map h_name (iv_hosts iv))"
  shows "(pl_pg_ha p \<longrightarrow> map pn_host (pl_postgres p) = hosts_with iv Postgres \<and> 2 \<le> length (pl_postgres p) \<and>
       map pn_role (pl_postgres p) = PrimarySeed # replicate (length (pl_postgres p) - 1) PgReplica) \<and>
    (pl_redis_sentinel p \<longrightarrow> distinct (map rn_name (pl_redis p)) \<and>
       h_name ` set (pl_central_hosts p) \<subseteq> set (map rn_name (pl_redis p)) \<and>
       (\<exists>m tail. pl_redis p = m # tail \<and> rn_role m = RedisPrimary \<and> (\<forall>n \<in> set tail. rn_role n = RedisReplica)) \<and>
       (\<forall>n \<in> set (pl_redis p). rn_sentinel n)) \<and>
    (vip_set iv \<longrightarrow> pl_haproxy_enabled p \<and> pl_haproxy_hosts p \<noteq> [] \<and> 2 \<le> length (pl_central_hosts p))"
proof (intro conjI)
  note P = plan_cluster_parts [OF assms(1)]
  show "pl_pg_ha p \<longrightarrow> map pn_host (pl_postgres p) = hosts_with iv Postgres \<and> 2 \<le> length (pl_postgres p) \<and>
      map pn_role (pl_postgres p) = PrimarySeed # replicate (length (pl_postgres p) - 1) PgReplica"
  proof
    assume ha: "pl_pg_ha p"
    then have "2 \<le> length (hosts_with iv Postgres)"
      using P(1) by (auto simp: resolve_pg_ha_def split: pg_mode.splits if_splits)
    then obtain h hs where "hosts_with iv Postgres = h # hs" "hs \<noteq> []"
      by (cases "hosts_with iv Postgres") (auto simp: Suc_le_eq)
    then show "map pn_host (pl_postgres p) = hosts_with iv Postgres \<and> 2 \<le> length (pl_postgres p) \<and>
        map pn_role (pl_postgres p) = PrimarySeed # replicate (length (pl_postgres p) - 1) PgReplica"
      using P(2) ha by (simp add: plan_postgres_def comp_def map_replicate_const Suc_le_eq)
  qed
  show "pl_redis_sentinel p \<longrightarrow> distinct (map rn_name (pl_redis p)) \<and>
      h_name ` set (pl_central_hosts p) \<subseteq> set (map rn_name (pl_redis p)) \<and>
      (\<exists>m tail. pl_redis p = m # tail \<and> rn_role m = RedisPrimary \<and> (\<forall>n \<in> set tail. rn_role n = RedisReplica)) \<and>
      (\<forall>n \<in> set (pl_redis p). rn_sentinel n)"
  proof
    assume "pl_redis_sentinel p"
    then have r: "plan_redis iv (hosts_with iv Central) True = Inr (pl_redis p)" using P(5) by simp
    show "distinct (map rn_name (pl_redis p)) \<and>
      h_name ` set (pl_central_hosts p) \<subseteq> set (map rn_name (pl_redis p)) \<and>
      (\<exists>m tail. pl_redis p = m # tail \<and> rn_role m = RedisPrimary \<and> (\<forall>n \<in> set tail. rn_role n = RedisReplica)) \<and>
      (\<forall>n \<in> set (pl_redis p). rn_sentinel n)"
      using plan_redis_sentinel [OF r assms(2) refl] unfolding P(12) by (intro conjI)
  qed
  show "vip_set iv \<longrightarrow> pl_haproxy_enabled p \<and> pl_haproxy_hosts p \<noteq> [] \<and> 2 \<le> length (pl_central_hosts p)"
    using P(9) P(11) unfolding P(12) by (auto simp: resolve_haproxy_def split: if_splits)
qed

theorem planner_failover_witness:
  "map pn_role (pl_postgres demo_plan) = [PrimarySeed, PgReplica, PgReplica] \<and>
   distinct (map rn_name (pl_redis demo_plan)) \<and> pl_haproxy_enabled demo_plan"
proof -
  have "pl_pg_ha demo_plan" "pl_redis_sentinel demo_plan" "vip_set demo_inventory" "length (pl_postgres demo_plan) = 3"
    by code_simp+
  then show ?thesis using planner_failover [OF demo_planned demo_names] by (simp add: eval_nat_numeral)
qed

text \<open>
  A dedicated keeper ensemble is accepted at any size: two keepers, which lose their quorum with
  one of them, make a plan.
\<close>

definition demo_two_keepers :: inventory where
  "demo_two_keepers = demo_inventory\<lparr>
     iv_hosts := map (\<lambda>h. if h_name h = ''n3'' then h else h\<lparr>h_roles := ClickhouseKeeper # h_roles h\<rparr>) (iv_hosts demo_inventory),
     iv_sizing := (iv_sizing demo_inventory)\<lparr>sz_keeper := Dedicated\<rparr>\<rparr>"

lemma planner_two_dedicated_keepers:
  "\<exists>p. plan_cluster demo_two_keepers = Inr p \<and> length (pl_clickhouse_keepers p) = 2"
proof -
  have "\<not> isl (plan_cluster demo_two_keepers)"
    "length (pl_clickhouse_keepers (projr (plan_cluster demo_two_keepers))) = 2" by code_simp+
  then show ?thesis by (cases "plan_cluster demo_two_keepers") auto
qed

end
