(* ===== verification/Forwarder.thy ===== *)
theory Forwarder
  imports Local_Cache
begin

text \<open>
  The forwarder (\<open>forward/forwarder.py\<close>): one pass of its loop reads a batch of unsent results from
  SQLite, posts it to central, marks it sent, backs off on failure, and periodically cleans the
  buffer and caps its size.  Central is a parameter: what posting a batch returns.  Other
  processes add results between the passes.
\<close>

section \<open>State\<close>

definition MIN_BACKOFF :: rat where
  "MIN_BACKOFF = 1"

definition MAX_BACKOFF :: rat where
  "MAX_BACKOFF = 300"

definition MAX_BUFFER_ROWS :: nat where
  "MAX_BUFFER_ROWS = 10000000"

definition BUFFER_CHECK_INTERVAL :: rat where
  "BUFFER_CHECK_INTERVAL = 60"

record forwarder =
  fw_node_id :: string
  fw_flush_interval :: rat
  fw_batch_size :: nat
  fw_cleanup_interval :: rat
  fw_backoff :: rat
  fw_last_cleanup :: rat
  fw_last_buffer_check :: rat
  fw_dropped_total :: nat

definition init_forwarder :: "string \<Rightarrow> rat \<Rightarrow> nat \<Rightarrow> rat \<Rightarrow> forwarder" where
  "init_forwarder node_id flush_interval batch_size cleanup_interval =
     \<lparr>fw_node_id = node_id, fw_flush_interval = flush_interval, fw_batch_size = batch_size,
      fw_cleanup_interval = cleanup_interval, fw_backoff = MIN_BACKOFF, fw_last_cleanup = 0,
      fw_last_buffer_check = 0, fw_dropped_total = 0\<rparr>"

record payload =
  pl_collector_node :: string
  pl_batch_id :: string
  pl_results :: "json list"

datatype post_outcome = Status int | PostFailed

section \<open>One batch\<close>

text \<open>\<open>sha256\<close> gives the hex digest.\<close>

definition batch_id_of :: "(string \<Rightarrow> string) \<Rightarrow> string \<Rightarrow> nat list \<Rightarrow> string" where
  "batch_id_of sha256 node_id ids = take 32 (sha256 (node_id @ '':'' @ join '','' (map str_nat (sort ids))))"

definition accepted_status :: "int \<Rightarrow> bool" where
  "accepted_status st \<longleftrightarrow> st = 200 \<or> st = 201 \<or> st = 202 \<or> st = 204"

definition batch_ids :: "nat \<Rightarrow> local_cache \<Rightarrow> nat list" where
  "batch_ids n db = map fst (dequeue_results n db)"

definition next_payload :: "(string \<Rightarrow> string) \<Rightarrow> forwarder \<Rightarrow> local_cache \<Rightarrow> payload" where
  "next_payload sha256 fw db =
     (let rows = dequeue_results (fw_batch_size fw) db
      in \<lparr>pl_collector_node = fw_node_id fw, pl_batch_id = batch_id_of sha256 (fw_node_id fw) (map fst rows),
          pl_results = map snd rows\<rparr>)"

text \<open>
  \<open>_flush_batch\<close>: the number of results sent and the new buffer, or \<open>None\<close> for the exception, which
  leaves the buffer as it was.  A validation error counts as sent.
\<close>

definition flush_batch ::
    "(string \<Rightarrow> string) \<Rightarrow> (payload \<Rightarrow> post_outcome) \<Rightarrow> forwarder \<Rightarrow> local_cache \<Rightarrow> (nat \<times> local_cache) option" where
  "flush_batch sha256 post fw db =
     (let ids = batch_ids (fw_batch_size fw) db
      in if ids = [] then Some (0, db)
         else case post (next_payload sha256 fw db) of
                PostFailed \<Rightarrow> None
              | Status st \<Rightarrow>
                  if accepted_status st \<or> st = 422 then Some (length ids, mark_results_sent ids db) else None)"

section \<open>One pass of the loop\<close>

definition enforce_size_cap :: "forwarder \<Rightarrow> local_cache \<Rightarrow> forwarder \<times> local_cache" where
  "enforce_size_cap fw db =
     (let total = count_results db
      in if total \<le> MAX_BUFFER_ROWS then (fw, db)
         else let overshoot = total - MAX_BUFFER_ROWS;
                  (dropped, db') = drop_oldest_results (int (overshoot + MAX_BUFFER_ROWS div 20)) db
              in (fw\<lparr>fw_dropped_total := fw_dropped_total fw + dropped\<rparr>, db'))"

definition due :: "rat \<Rightarrow> rat \<Rightarrow> rat \<Rightarrow> bool" where
  "due now previous interval = flt (Fin interval) (fsub (Fin now) (Fin previous))"

text \<open>The first half of the pass: the new state, buffer, and how long it sleeps.\<close>

definition flush_step ::
    "(string \<Rightarrow> string) \<Rightarrow> (payload \<Rightarrow> post_outcome) \<Rightarrow> forwarder \<Rightarrow> local_cache \<Rightarrow> forwarder \<times> local_cache \<times> rat" where
  "flush_step sha256 post fw db =
     (case flush_batch sha256 post fw db of
        Some (sent, db') \<Rightarrow>
          if 0 < sent then (fw\<lparr>fw_backoff := MIN_BACKOFF\<rparr>, db', 0) else (fw, db', fw_flush_interval fw)
      | None \<Rightarrow> (fw\<lparr>fw_backoff := min (fw_backoff fw * 2) MAX_BACKOFF\<rparr>, db, fw_backoff fw))"

text \<open>The second half; \<open>now\<close> is the clock when the first half is done.\<close>

definition maintain :: "rat \<Rightarrow> forwarder \<Rightarrow> local_cache \<Rightarrow> forwarder \<times> local_cache" where
  "maintain now fw db =
     (let (fw1, db1) = (if due now (fw_last_cleanup fw) (fw_cleanup_interval fw)
                        then (fw\<lparr>fw_last_cleanup := now\<rparr>, snd (cleanup_sent_results now 86400 db))
                        else (fw, db))
      in if due now (fw_last_buffer_check fw1) BUFFER_CHECK_INTERVAL
         then let (fw2, db2) = enforce_size_cap fw1 db1 in (fw2\<lparr>fw_last_buffer_check := now\<rparr>, db2)
         else (fw1, db1))"

definition run_pass ::
    "(string \<Rightarrow> string) \<Rightarrow> (payload \<Rightarrow> post_outcome) \<Rightarrow> rat \<Rightarrow> forwarder \<Rightarrow> local_cache \<Rightarrow> forwarder \<times> local_cache" where
  "run_pass sha256 post now fw db =
     (let (fw1, db1, _) = flush_step sha256 post fw db in maintain now fw1 db1)"

section \<open>The contract of a result buffer\<close>

locale result_buffer =
  fixes valid :: "'b \<Rightarrow> bool" and pending :: "'b \<Rightarrow> nat set" and next_id :: "'b \<Rightarrow> nat"
    and put :: "'r \<Rightarrow> 'b \<Rightarrow> 'b" and ack :: "nat list \<Rightarrow> 'b \<Rightarrow> 'b" and batch :: "nat \<Rightarrow> 'b \<Rightarrow> nat list"
  assumes finite_pending: "finite (pending b)"
    and pending_issued: "valid b \<Longrightarrow> i \<in> pending b \<Longrightarrow> i < next_id b"
    and valid_put: "valid b \<Longrightarrow> valid (put r b)"
    and valid_ack: "valid b \<Longrightarrow> valid (ack ids b)"
    and pending_put: "pending (put r b) = insert (next_id b) (pending b)"
    and next_id_put: "next_id (put r b) = Suc (next_id b)"
    and pending_ack: "valid b \<Longrightarrow> pending (ack ids b) = pending b - set ids"
    and next_id_ack: "next_id (ack ids b) = next_id b"
    and batch_pending: "set (batch n b) \<subseteq> pending b"
    and batch_size: "valid b \<Longrightarrow> distinct (batch n b) \<and> length (batch n b) = min n (card (pending b))"
begin

text \<open>Every id handed out so far is pending, or in the set of those that are done.\<close>

definition accounted :: "nat \<Rightarrow> nat set \<Rightarrow> 'b \<Rightarrow> bool" where
  "accounted start finished b \<longleftrightarrow> {start ..< next_id b} \<subseteq> pending b \<union> finished"

lemma accounted_put: "accounted start finished b \<Longrightarrow> accounted start finished (put r b)"
  by (auto simp: accounted_def pending_put next_id_put less_Suc_eq)

lemma accounted_ack: "valid b \<Longrightarrow> accounted start finished b \<Longrightarrow> accounted start (finished \<union> set ids) (ack ids b)"
  by (auto simp: accounted_def pending_ack next_id_ack)

lemma not_resent: "valid b \<Longrightarrow> set (batch n (ack ids b)) \<inter> set ids = {}"
  using batch_pending [of n "ack ids b"] by (auto simp: pending_ack)

lemma ack_batch_card: "valid b \<Longrightarrow> card (pending (ack (batch n b) b)) = card (pending b) - n"
proof -
  assume v: "valid b"
  have "card (set (batch n b)) = min n (card (pending b))"
    using batch_size [OF v, of n] distinct_card by metis
  then show ?thesis
    using card_Diff_subset [OF _ batch_pending [of n b]] by (auto simp: pending_ack [OF v])
qed

text \<open>Acknowledging batch after batch empties the buffer.\<close>

primrec drain :: "nat \<Rightarrow> nat \<Rightarrow> 'b \<Rightarrow> 'b" where
  "drain n 0 b = b"
| "drain n (Suc k) b = drain n k (ack (batch n b) b)"

lemma drain_card: "valid b \<Longrightarrow> card (pending (drain n k b)) = card (pending b) - k * n"
  by (induction k arbitrary: b) (simp_all add: ack_batch_card valid_ack)

lemma drain_empties: "valid b \<Longrightarrow> card (pending b) \<le> k * n \<Longrightarrow> pending (drain n k b) = {}"
  using drain_card [of b n k] finite_pending [of "drain n k b"] by simp

lemma empty_batch: "valid b \<Longrightarrow> 0 < n \<Longrightarrow> batch n b = [] \<longleftrightarrow> pending b = {}"
  using batch_size [of b n] finite_pending [of b] by (auto simp: min_def split: if_splits)

end

section \<open>The results table is such a buffer\<close>

definition pending_ids :: "local_cache \<Rightarrow> nat set" where
  "pending_ids db = rr_id ` set (unsent db)"

definition put_result :: "rat \<times> json \<Rightarrow> local_cache \<Rightarrow> local_cache" where
  "put_result r db = enqueue_result (fst r) (snd r) db"

lemma unsent_mark: "unsent (mark_results_sent ids db) = filter (\<lambda>r. rr_id r \<notin> set ids) (unsent db)"
proof -
  have "filter (\<lambda>r. \<not> rr_sent r) (map (\<lambda>r. if rr_id r \<in> set ids then r\<lparr>rr_sent := True\<rparr> else r) rs) =
      filter (\<lambda>r. rr_id r \<notin> set ids) (filter (\<lambda>r. \<not> rr_sent r) rs)" for rs :: "result_row list"
    by (induction rs) auto
  then show ?thesis by (simp add: unsent_def mark_results_sent_def)
qed

lemma batch_ids_take: "batch_ids n db = map rr_id (take n (sort_key rr_created_at (unsent db)))"
  by (simp add: batch_ids_def dequeue_results_def comp_def)

lemma unsent_distinct: "results_ok db \<Longrightarrow> distinct (map rr_id (unsent db))"
  by (simp add: results_ok_def unsent_def distinct_map_filter)

interpretation buffer: result_buffer results_ok pending_ids lc_next_id put_result mark_results_sent batch_ids
proof
  fix b :: local_cache and i n and r :: "rat \<times> json" and ids
  show "finite (pending_ids b)" by (simp add: pending_ids_def)
  show "results_ok b \<Longrightarrow> i \<in> pending_ids b \<Longrightarrow> i < lc_next_id b"
    by (auto simp: pending_ids_def unsent_def results_ok_def)
  show "results_ok b \<Longrightarrow> results_ok (put_result r b)" by (simp add: put_result_def)
  show "results_ok b \<Longrightarrow> results_ok (mark_results_sent ids b)" by simp
  show "pending_ids (put_result r b) = insert (lc_next_id b) (pending_ids b)"
    by (simp add: pending_ids_def unsent_def put_result_def enqueue_result_def)
  show "lc_next_id (put_result r b) = Suc (lc_next_id b)" by (simp add: put_result_def enqueue_result_def)
  show "results_ok b \<Longrightarrow> pending_ids (mark_results_sent ids b) = pending_ids b - set ids"
    by (auto simp: pending_ids_def unsent_mark)
  show "lc_next_id (mark_results_sent ids b) = lc_next_id b" by (simp add: mark_results_sent_def)
  show "set (batch_ids n b) \<subseteq> pending_ids b"
    by (auto simp: batch_ids_take pending_ids_def dest: in_set_takeD)
  assume ok: "results_ok b"
  have "distinct (map rr_id (sort_key rr_created_at (unsent b)))"
    using unsent_distinct [OF ok] by (simp add: distinct_map)
  moreover have "card (pending_ids b) = length (unsent b)"
    using distinct_card [OF unsent_distinct [OF ok]] by (simp add: pending_ids_def)
  ultimately show "distinct (batch_ids n b) \<and> length (batch_ids n b) = min n (card (pending_ids b))"
    by (simp add: batch_ids_take take_map [symmetric] distinct_take min.commute)
qed

end
