(* ===== verification/Forwarder_Props.thy ===== *)
theory Forwarder_Props
  imports Forwarder "HOL-Library.Multiset"
begin

text \<open>
  Properties of the forwarder running against producers and an unreliable central: no result is
  lost but by the size cap, none is sent again once accepted, the back-off stays in its range,
  the cap drops the oldest rows, and a central that answers empties the buffer.
\<close>

section \<open>The parts of a pass\<close>

definition taken :: "(payload \<Rightarrow> post_outcome) \<Rightarrow> payload \<Rightarrow> bool" where
  "taken post p \<longleftrightarrow> (\<exists>st. post p = Status st \<and> (accepted_status st \<or> st = 422))"

definition taken_ids :: "(string \<Rightarrow> string) \<Rightarrow> (payload \<Rightarrow> post_outcome) \<Rightarrow> forwarder \<Rightarrow> local_cache \<Rightarrow> nat list" where
  "taken_ids sha post fw db =
     (if taken post (next_payload sha fw db) then batch_ids (fw_batch_size fw) db else [])"

lemma mark_none [simp]: "mark_results_sent [] db = db"
  by (simp add: mark_results_sent_def)

text \<open>The buffer after the first half of a pass.\<close>

lemma flush_step_db: "fst (snd (flush_step sha post fw db)) = mark_results_sent (taken_ids sha post fw db) db"
  by (auto simp: flush_step_def flush_batch_def taken_ids_def taken_def Let_def split: post_outcome.splits)

lemma flush_step_backoff:
  "fw_backoff (fst (flush_step sha post fw db)) \<in> {fw_backoff fw, MIN_BACKOFF, min (fw_backoff fw * 2) MAX_BACKOFF}"
  by (auto simp: flush_step_def split: option.splits)

lemma flush_step_batch_size [simp]: "fw_batch_size (fst (flush_step sha post fw db)) = fw_batch_size fw"
  by (auto simp: flush_step_def split: option.splits)

lemma pending_filter_subset: "pending_ids (db\<lparr>lc_results := filter P (lc_results db)\<rparr>) \<subseteq> pending_ids db"
  by (auto simp: pending_ids_def unsent_def)

lemma cleanup_pending: "pending_ids (snd (cleanup_sent_results now n db)) = pending_ids db"
  by (auto simp: cleanup_sent_results_def Let_def pending_ids_def unsent_def)

lemma drop_pending: "pending_ids (snd (drop_oldest_results n db)) \<subseteq> pending_ids db"
  by (auto simp: drop_oldest_results_def Let_def pending_ids_def unsent_def)

lemma maintenance_next_id [simp]:
  "lc_next_id (snd (cleanup_sent_results now n db)) = lc_next_id db"
  "lc_next_id (snd (drop_oldest_results m db)) = lc_next_id db"
  by (simp_all add: cleanup_sent_results_def drop_oldest_results_def Let_def)

definition cap_excess :: "local_cache \<Rightarrow> int" where
  "cap_excess db = int (count_results db - MAX_BUFFER_ROWS + MAX_BUFFER_ROWS div 20)"

lemma enforce_size_cap_eq:
  "enforce_size_cap fw db =
     (if count_results db \<le> MAX_BUFFER_ROWS then (fw, db)
      else (fw\<lparr>fw_dropped_total := fw_dropped_total fw + fst (drop_oldest_results (cap_excess db) db)\<rparr>,
            snd (drop_oldest_results (cap_excess db) db)))"
  unfolding enforce_size_cap_def Let_def case_prod_beta cap_excess_def ..

lemma cap_facts:
  fixes fw :: forwarder
  shows "pending_ids (snd (enforce_size_cap fw db)) \<subseteq> pending_ids db"
  and "lc_next_id (snd (enforce_size_cap fw db)) = lc_next_id db"
  and "results_ok db \<Longrightarrow> results_ok (snd (enforce_size_cap fw db))"
  and "fw_backoff (fst (enforce_size_cap fw db)) = fw_backoff fw"
  and "fw_batch_size (fst (enforce_size_cap fw db)) = fw_batch_size fw"
  using drop_pending [of "cap_excess db" db] by (simp_all add: enforce_size_cap_eq)

lemma maintain_facts:
  "pending_ids (snd (maintain now fw db)) \<subseteq> pending_ids db"
  "lc_next_id (snd (maintain now fw db)) = lc_next_id db"
  "results_ok db \<Longrightarrow> results_ok (snd (maintain now fw db))"
  "fw_backoff (fst (maintain now fw db)) = fw_backoff fw"
  "fw_batch_size (fst (maintain now fw db)) = fw_batch_size fw"
proof -
  define c where "c = (if due now (fw_last_cleanup fw) (fw_cleanup_interval fw)
      then (fw\<lparr>fw_last_cleanup := now\<rparr>, snd (cleanup_sent_results now 86400 db)) else (fw, db))"
  have c: "pending_ids (snd c) = pending_ids db" "lc_next_id (snd c) = lc_next_id db"
    "results_ok db \<Longrightarrow> results_ok (snd c)" "fw_backoff (fst c) = fw_backoff fw" "fw_batch_size (fst c) = fw_batch_size fw"
    by (simp_all add: c_def cleanup_pending)
  have m: "maintain now fw db = (if due now (fw_last_buffer_check (fst c)) BUFFER_CHECK_INTERVAL
      then ((fst (enforce_size_cap (fst c) (snd c)))\<lparr>fw_last_buffer_check := now\<rparr>, snd (enforce_size_cap (fst c) (snd c)))
      else c)"
    by (simp add: maintain_def c_def [symmetric] split: prod.splits)
  show "pending_ids (snd (maintain now fw db)) \<subseteq> pending_ids db"
    "lc_next_id (snd (maintain now fw db)) = lc_next_id db"
    "results_ok db \<Longrightarrow> results_ok (snd (maintain now fw db))"
    "fw_backoff (fst (maintain now fw db)) = fw_backoff fw"
    "fw_batch_size (fst (maintain now fw db)) = fw_batch_size fw"
    using c cap_facts [where fw = "fst c" and db = "snd c"] by (simp_all add: m)
qed

lemma run_pass_split:
  "run_pass sha post now fw db =
     maintain now (fst (flush_step sha post fw db)) (mark_results_sent (taken_ids sha post fw db) db)"
  by (simp add: run_pass_def case_prod_beta flush_step_db)

lemma run_pass_pending: "results_ok db \<Longrightarrow>
    pending_ids (snd (run_pass sha post now fw db)) \<subseteq> pending_ids db - set (taken_ids sha post fw db)"
  using maintain_facts(1) buffer.pending_ack by (metis run_pass_split)

lemma run_pass_ok: "results_ok db \<Longrightarrow> results_ok (snd (run_pass sha post now fw db))"
  by (simp add: run_pass_split maintain_facts)

lemma run_pass_next_id: "lc_next_id (snd (run_pass sha post now fw db)) = lc_next_id db"
  by (simp add: run_pass_split maintain_facts mark_results_sent_def)

lemma run_pass_backoff:
  "fw_backoff (fst (run_pass sha post now fw db)) \<in> {fw_backoff fw, MIN_BACKOFF, min (fw_backoff fw * 2) MAX_BACKOFF}"
  using flush_step_backoff [of sha post fw db] by (simp add: run_pass_split maintain_facts)

section \<open>The system: producers and the forwarder\<close>

text \<open>
  \<open>fs_taken\<close> collects the ids of the rows in batches central answered with success or 422,
  \<open>fs_dropped\<close> the unsent rows that a maintenance removed.
\<close>

record fsys =
  fs_db :: local_cache
  fs_fw :: forwarder
  fs_taken :: "nat set"
  fs_dropped :: "nat set"

inductive fwd_step :: "fsys \<Rightarrow> fsys \<Rightarrow> bool" where
  produce: "fwd_step s (s\<lparr>fs_db := enqueue_result now r (fs_db s)\<rparr>)"
| pass: "run_pass sha post now (fs_fw s) (fs_db s) = (fw', db') \<Longrightarrow>
    got = set (taken_ids sha post (fs_fw s) (fs_db s)) \<Longrightarrow>
    fwd_step s \<lparr>fs_db = db', fs_fw = fw', fs_taken = fs_taken s \<union> got,
       fs_dropped = fs_dropped s \<union> (pending_ids (fs_db s) - got - pending_ids db')\<rparr>"

inductive fwd_reach :: "fsys \<Rightarrow> fsys \<Rightarrow> bool" for s0 where
  reach_start: "fwd_reach s0 s0"
| reach_step: "fwd_reach s0 s \<Longrightarrow> fwd_step s s' \<Longrightarrow> fwd_reach s0 s'"

definition fresh_system :: "forwarder \<Rightarrow> local_cache \<Rightarrow> fsys" where
  "fresh_system fw db = \<lparr>fs_db = db, fs_fw = fw, fs_taken = {}, fs_dropped = {}\<rparr>"

definition sys_inv :: "nat \<Rightarrow> fsys \<Rightarrow> bool" where
  "sys_inv start s \<longleftrightarrow> results_ok (fs_db s) \<and>
     buffer.accounted start (fs_taken s \<union> fs_dropped s) (fs_db s) \<and>
     pending_ids (fs_db s) \<inter> fs_taken s = {} \<and> (\<forall>i \<in> fs_taken s. i < lc_next_id (fs_db s)) \<and>
     MIN_BACKOFF \<le> fw_backoff (fs_fw s) \<and> fw_backoff (fs_fw s) \<le> MAX_BACKOFF"

lemma backoff_range: "b \<in> {a, MIN_BACKOFF, min (a * 2) MAX_BACKOFF} \<Longrightarrow> MIN_BACKOFF \<le> a \<Longrightarrow> a \<le> MAX_BACKOFF \<Longrightarrow>
    MIN_BACKOFF \<le> b \<and> b \<le> MAX_BACKOFF"
  by (auto simp: MIN_BACKOFF_def MAX_BACKOFF_def min_def split: if_splits)

lemma sys_inv_step:
  assumes "fwd_step s s'" and inv: "sys_inv start s"
  shows "sys_inv start s'"
  using assms(1)
proof cases
  case (produce now r)
  have e: "enqueue_result now r (fs_db s) = put_result (now, r) (fs_db s)" by (simp add: put_result_def)
  show ?thesis
    using inv buffer.accounted_put unfolding sys_inv_def produce e
    by (auto simp: buffer.pending_put buffer.next_id_put buffer.valid_put)
next
  case (pass sha post now fw' db' got)
  let ?db = "fs_db s"
  have ok: "results_ok ?db" using inv by (simp add: sys_inv_def)
  have db': "db' = snd (run_pass sha post now (fs_fw s) ?db)" "fw' = fst (run_pass sha post now (fs_fw s) ?db)"
    using pass(2) by simp_all
  have sub: "pending_ids db' \<subseteq> pending_ids ?db - got" using run_pass_pending [OF ok] by (simp add: db' pass(3))
  have n: "lc_next_id db' = lc_next_id ?db" by (simp add: db' run_pass_next_id)
  have got: "got \<subseteq> pending_ids ?db" using buffer.batch_pending by (auto simp: pass(3) taken_ids_def)
  have "MIN_BACKOFF \<le> fw_backoff fw' \<and> fw_backoff fw' \<le> MAX_BACKOFF"
    using run_pass_backoff [of sha post now "fs_fw s" ?db] backoff_range inv by (simp add: db' sys_inv_def)
  moreover have "buffer.accounted start (fs_taken s \<union> got \<union> (fs_dropped s \<union> (pending_ids ?db - got - pending_ids db'))) db'"
    using inv unfolding sys_inv_def buffer.accounted_def n by blast
  moreover have "\<forall>i \<in> got. i < lc_next_id ?db" using got buffer.pending_issued [OF ok] by blast
  ultimately show ?thesis
    using inv sub n run_pass_ok [OF ok] unfolding sys_inv_def pass(1) by (auto simp: db')
qed

lemma sys_inv_reach: "fwd_reach s0 s \<Longrightarrow> sys_inv start s0 \<Longrightarrow> sys_inv start s"
  by (induction rule: fwd_reach.induct) (auto intro: sys_inv_step)

lemma sys_inv_fresh:
  assumes "results_ok db" and "MIN_BACKOFF \<le> fw_backoff fw" and "fw_backoff fw \<le> MAX_BACKOFF"
  shows "sys_inv (lc_next_id db) (fresh_system fw db)"
  using assms by (simp add: sys_inv_def fresh_system_def buffer.accounted_def)

lemma taken_mono: "fwd_step s s' \<Longrightarrow> fs_taken s \<subseteq> fs_taken s'"
  by (erule fwd_step.cases) auto

section \<open>The size cap\<close>

lemma filter_ids_drop:
  assumes "distinct (map rr_id rs)"
  shows "filter (\<lambda>r. rr_id r \<notin> set (map rr_id (take n rs))) rs = drop n rs"
proof -
  have d: "distinct (map rr_id (take n rs @ drop n rs))" using assms by simp
  have "filter (\<lambda>r. rr_id r \<notin> set (map rr_id (take n rs))) (take n rs @ drop n rs) = drop n rs"
    using d unfolding filter_append map_append distinct_append
    by (auto simp: filter_empty_conv filter_id_conv)
  then show ?thesis by simp
qed

lemma length_filter_sort: "length (filter P (sort_key f xs)) = length (filter P xs)"
  by (metis mset_filter mset_sort size_mset)

lemma drop_oldest_spec:
  assumes "results_ok db" and "0 < n"
  shows "count_results (snd (drop_oldest_results n db)) = count_results db - nat n"
    and "r \<in> set (lc_results (snd (drop_oldest_results n db))) \<Longrightarrow>
      r' \<in> set (lc_results db) \<Longrightarrow> r' \<notin> set (lc_results (snd (drop_oldest_results n db))) \<Longrightarrow> rr_created_at r' \<le> rr_created_at r"
proof -
  let ?s = "sort_key rr_created_at (lc_results db)"
  let ?P = "\<lambda>r. rr_id r \<notin> set (map rr_id (take (nat n) ?s))"
  have res: "lc_results (snd (drop_oldest_results n db)) = filter ?P (lc_results db)"
    using assms(2) by (simp add: drop_oldest_results_def Let_def)
  have "distinct (map rr_id ?s)" using assms(1) by (simp add: results_ok_def distinct_map)
  note kept = filter_ids_drop [OF this, of "nat n"]
  show "count_results (snd (drop_oldest_results n db)) = count_results db - nat n"
    using length_filter_sort [of ?P rr_created_at "lc_results db"] kept by (simp add: count_results_def res)
  have split: "sorted (map rr_created_at (take (nat n) ?s @ drop (nat n) ?s))" by simp
  show "rr_created_at r' \<le> rr_created_at r"
    if r: "r \<in> set (lc_results (snd (drop_oldest_results n db)))" and r': "r' \<in> set (lc_results db)"
      and gone: "r' \<notin> set (lc_results (snd (drop_oldest_results n db)))"
  proof -
    have "r \<in> set (filter ?P ?s)" using r by (simp add: res)
    then have "r \<in> set (drop (nat n) ?s)" unfolding kept .
    moreover have "r' \<notin> set (filter ?P ?s)" "r' \<in> set (take (nat n) ?s @ drop (nat n) ?s)"
      using r' gone by (simp_all add: res)
    then have "r' \<in> set (take (nat n) ?s)" unfolding kept set_append by blast
    ultimately show ?thesis using split unfolding map_append sorted_append by auto
  qed
qed

lemma cap_count:
  assumes "results_ok db"
  shows "count_results (snd (enforce_size_cap fw db)) \<le> MAX_BUFFER_ROWS"
  using drop_oldest_spec(1) [OF assms, of "cap_excess db"]
  by (auto simp: enforce_size_cap_eq cap_excess_def MAX_BUFFER_ROWS_def)

section \<open>Retries\<close>

lemma sort_key_snoc:
  fixes f :: "'a \<Rightarrow> 'b :: linorder"
  assumes "\<forall>y \<in> set xs. f y \<le> f x"
  shows "sort_key f (xs @ [x]) = sort_key f xs @ [x]"
proof (rule properties_for_sort_key)
  show "mset (sort_key f xs @ [x]) = mset (xs @ [x])" by simp
  show "sorted (map f (sort_key f xs @ [x]))" using assms by (simp add: sorted_append)
  fix k assume "k \<in> set (sort_key f xs @ [x])"
  show "filter (\<lambda>y. f k = f y) (sort_key f xs @ [x]) = filter (\<lambda>y. f k = f y) (xs @ [x])"
    using sort_key_stable [of f "f k" xs] by (simp add: eq_commute [of "f k"])
qed

lemma unsent_enqueue: "unsent (enqueue_result now r db) =
    unsent db @ [\<lparr>rr_id = lc_next_id db, rr_result = r, rr_created_at = now, rr_sent = False\<rparr>]"
  by (simp add: unsent_def enqueue_result_def)

lemma dequeue_enqueue:
  assumes "\<forall>y \<in> set (unsent db). rr_created_at y \<le> now"
  shows "dequeue_results n (enqueue_result now r db) =
    take n (dequeue_results (length (unsent db)) db @ [(lc_next_id db, r)])"
  using assms sort_key_snoc [of "unsent db" rr_created_at]
  by (simp add: dequeue_results_def unsent_enqueue take_map [symmetric])

lemma dequeue_all: "length (unsent db) \<le> n \<Longrightarrow> dequeue_results n db = dequeue_results (length (unsent db)) db"
  by (simp add: dequeue_results_def)

lemma dequeue_take: "n \<le> length (unsent db) \<Longrightarrow> take n (dequeue_results (length (unsent db)) db) = dequeue_results n db"
  by (simp add: dequeue_results_def take_map)

lemma length_dequeue: "length (dequeue_results n db) = min n (length (unsent db))"
  by (simp add: dequeue_results_def)

section \<open>Draining\<close>

fun passes :: "(string \<Rightarrow> string) \<Rightarrow> (payload \<Rightarrow> post_outcome) \<Rightarrow> rat list \<Rightarrow> forwarder \<times> local_cache \<Rightarrow> forwarder \<times> local_cache" where
  "passes sha post [] s = s"
| "passes sha post (now # nows) s = passes sha post nows (run_pass sha post now (fst s) (snd s))"

lemma run_pass_batch_size: "fw_batch_size (fst (run_pass sha post now fw db)) = fw_batch_size fw"
  by (simp add: run_pass_split maintain_facts)

lemma run_pass_card:
  assumes "results_ok db" and "\<And>p. taken post p"
  shows "card (pending_ids (snd (run_pass sha post now fw db))) \<le> card (pending_ids db) - fw_batch_size fw"
proof -
  have "pending_ids (snd (run_pass sha post now fw db)) \<subseteq> pending_ids (mark_results_sent (batch_ids (fw_batch_size fw) db) db)"
    using run_pass_pending [OF assms(1), of sha post now fw] assms(2) [of "next_payload sha fw db"]
    by (simp add: taken_ids_def buffer.pending_ack [OF assms(1)])
  from card_mono [OF buffer.finite_pending this] show ?thesis
    by (simp add: buffer.ack_batch_card [OF assms(1)])
qed

lemma passes_card:
  assumes "\<And>p. taken post p"
  shows "results_ok (snd s) \<Longrightarrow> card (pending_ids (snd (passes sha post nows s))) \<le>
    card (pending_ids (snd s)) - length nows * fw_batch_size (fst s)"
proof (induction nows arbitrary: s)
  case (Cons now nows)
  let ?s = "run_pass sha post now (fst s) (snd s)"
  have "card (pending_ids (snd (passes sha post nows ?s))) \<le> card (pending_ids (snd ?s)) - length nows * fw_batch_size (fst ?s)"
    by (rule Cons.IH) (rule run_pass_ok [OF Cons.prems])
  also have "\<dots> \<le> card (pending_ids (snd s)) - fw_batch_size (fst s) - length nows * fw_batch_size (fst s)"
    using run_pass_card [OF Cons.prems assms, of sha now "fst s"] by (simp add: run_pass_batch_size)
  finally show ?case by simp
qed simp

section \<open>Properties\<close>

definition demo_buffer :: local_cache where
  "demo_buffer = enqueue_result 2 (JInt 8) (enqueue_result 1 (JInt 7)
     \<lparr>lc_cache = [], lc_jobs = [], lc_profiles = [], lc_apps = [], lc_credentials = [],
      lc_results = [], lc_next_id = 1, lc_app_cache = []\<rparr>)"

definition demo_forwarder :: forwarder where
  "demo_forwarder = init_forwarder ''node'' 5 100 3600"

lemma demo_buffer_ok: "results_ok demo_buffer"
  by (simp add: demo_buffer_def results_ok_def enqueue_result_def)

lemma demo_backoff: "MIN_BACKOFF \<le> fw_backoff demo_forwarder" "fw_backoff demo_forwarder \<le> MAX_BACKOFF"
  by (simp_all add: demo_forwarder_def init_forwarder_def MIN_BACKOFF_def MAX_BACKOFF_def)



text \<open>
  The back-off of the retries stays between one second and five minutes in every reachable
  state.
\<close>

theorem forwarder_backoff_bounded:
  assumes "fwd_reach (fresh_system (init_forwarder node flush n clean) db) s" and "results_ok db"
  shows "1 \<le> fw_backoff (fs_fw s) \<and> fw_backoff (fs_fw s) \<le> 300"
proof -
  have "sys_inv (lc_next_id db) (fresh_system (init_forwarder node flush n clean) db)"
    by (rule sys_inv_fresh [OF assms(2)]) (simp_all add: init_forwarder_def MIN_BACKOFF_def MAX_BACKOFF_def)
  from sys_inv_reach [OF assms(1) this] show ?thesis
    by (simp add: sys_inv_def MIN_BACKOFF_def MAX_BACKOFF_def)
qed

theorem forwarder_backoff_bounded_witness:
  "1 \<le> fw_backoff (fs_fw (fresh_system demo_forwarder demo_buffer)) \<and>
   fw_backoff (fs_fw (fresh_system demo_forwarder demo_buffer)) \<le> 300"
  using forwarder_backoff_bounded [OF reach_start demo_buffer_ok] unfolding demo_forwarder_def .

text \<open>
  C29: A central that takes what it is sent empties the buffer: after \<open>k\<close> passes at most
  \<open>p - k * batch_size\<close> of the \<open>p\<close> unsent results are left, none once \<open>k * batch_size\<close> reaches \<open>p\<close>.
\<close>

theorem forwarder_drains:
  assumes "results_ok db" and "\<And>p. taken post p"
    and "card (pending_ids db) \<le> length nows * fw_batch_size fw"
  shows "pending_ids (snd (passes sha post nows (fw, db))) = {}"
  using passes_card [OF assms(2), of "(fw, db)" sha nows] assms(1,3)
    buffer.finite_pending [of "snd (passes sha post nows (fw, db))"] by simp

theorem forwarder_drains_witness:
  "pending_ids (snd (passes id (\<lambda>p. Status 202) [10] (demo_forwarder, demo_buffer))) = {}"
proof (rule forwarder_drains [OF demo_buffer_ok])
  show "taken (\<lambda>p. Status 202) p" for p by (simp add: taken_def accepted_status_def)
  show "card (pending_ids demo_buffer) \<le> length [10 :: rat] * fw_batch_size demo_forwarder"
    by (simp add: demo_buffer_def demo_forwarder_def init_forwarder_def pending_ids_def unsent_def enqueue_result_def)
qed

text \<open>
  The size cap leaves at most ten million rows and drops the oldest: no dropped row is newer
  than a kept one.
\<close>

theorem forwarder_size_cap:
  assumes "results_ok db"
  shows "count_results (snd (enforce_size_cap fw db)) \<le> MAX_BUFFER_ROWS \<and>
    (\<forall>r r'. r \<in> set (lc_results (snd (enforce_size_cap fw db))) \<longrightarrow> r' \<in> set (lc_results db) \<longrightarrow>
       r' \<notin> set (lc_results (snd (enforce_size_cap fw db))) \<longrightarrow> rr_created_at r' \<le> rr_created_at r)"
  using cap_count [OF assms, of fw] drop_oldest_spec(2) [OF assms, of "cap_excess db"]
  by (auto simp: enforce_size_cap_eq cap_excess_def MAX_BUFFER_ROWS_def)

theorem forwarder_size_cap_witness:
  "count_results (snd (enforce_size_cap demo_forwarder demo_buffer)) \<le> MAX_BUFFER_ROWS"
  using forwarder_size_cap [OF demo_buffer_ok] by (rule conjunct1)

text \<open>
  Retrying after a failure.  When a result arrives before the retry, a full batch is posted again
  unchanged, batch id included, so central can recognise it; a batch that was not full is
  replaced by another one that contains the new result, under another list of row ids.
\<close>

theorem forwarder_retry:
  assumes "\<forall>y \<in> set (unsent db). rr_created_at y \<le> now"
  shows "if fw_batch_size fw \<le> length (unsent db)
    then next_payload sha fw (enqueue_result now r db) = next_payload sha fw db
    else pl_results (next_payload sha fw (enqueue_result now r db)) = pl_results (next_payload sha fw db) @ [r] \<and>
         batch_ids (fw_batch_size fw) (enqueue_result now r db) = batch_ids (fw_batch_size fw) db @ [lc_next_id db]"
proof (cases "fw_batch_size fw \<le> length (unsent db)")
  case True
  then have "dequeue_results (fw_batch_size fw) (enqueue_result now r db) = dequeue_results (fw_batch_size fw) db"
    by (simp add: dequeue_enqueue [OF assms] dequeue_take length_dequeue)
  then show ?thesis using True by (simp add: next_payload_def)
next
  case False
  then have "dequeue_results (fw_batch_size fw) (enqueue_result now r db) =
      dequeue_results (fw_batch_size fw) db @ [(lc_next_id db, r)]"
    by (simp add: dequeue_enqueue [OF assms] dequeue_all [of db "fw_batch_size fw"] length_dequeue take_Cons')
  then show ?thesis using False by (simp add: next_payload_def batch_ids_def Let_def)
qed

theorem forwarder_retry_witness:
  "pl_results (next_payload id demo_forwarder (enqueue_result 3 (JInt 9) demo_buffer)) =
     pl_results (next_payload id demo_forwarder demo_buffer) @ [JInt 9]"
  using forwarder_retry [of demo_buffer 3 demo_forwarder id "JInt 9"]
  by (simp add: demo_buffer_def demo_forwarder_def init_forwarder_def unsent_def enqueue_result_def)

end
