(* ===== verification/App_Cache.thy ===== *)
theory App_Cache
  imports Local_Cache
begin

text \<open>
  The app cache shared by a collector group: its sync loop (\<open>cache/app_cache_sync.py\<close>) over the
  tables of \<open>LocalCache\<close>, and what merging gives.  Central is a parameter: whether it takes the
  pushed entries, and the responses to the successive pulls, an empty one when there are no more.
\<close>

section \<open>The sync loop\<close>

record pull_response =
  pu_entries :: "central_entry list"
  pu_has_more :: bool

definition push_entries :: "local_cache \<Rightarrow> central_entry list" where
  "push_entries db =
     map (\<lambda>(k, r). \<lparr>en_key = k, en_value = ac_value r, en_ttl_seconds = ac_ttl_seconds r, en_updated_at = ac_updated_at r\<rparr>)
       (app_cache_get_dirty 500 db)"

text \<open>
  \<open>_push_dirty\<close> in its two halves: what is posted, and the marking after central's answer, which
  happens on the table as it is by then.
\<close>

definition finish_push :: "bool \<Rightarrow> central_entry list \<Rightarrow> local_cache \<Rightarrow> local_cache" where
  "finish_push accepted entries db =
     (if entries = [] then db
      else if accepted then app_cache_mark_clean (map en_key entries) db else db)"

definition push_dirty :: "(central_entry list \<Rightarrow> bool) \<Rightarrow> local_cache \<Rightarrow> local_cache" where
  "push_dirty post db = finish_push (post (push_entries db)) (push_entries db) db"

fun pull_updates :: "pull_response list \<Rightarrow> rat \<Rightarrow> local_cache \<Rightarrow> rat \<times> local_cache" where
  "pull_updates [] last_pull db = (last_pull, db)"
| "pull_updates (resp # resps) last_pull db =
     (if pu_entries resp = [] then (last_pull, db)
      else let db' = app_cache_upsert_from_central (pu_entries resp) db;
               last_pull' = en_updated_at (last (pu_entries resp))
           in if pu_has_more resp then pull_updates resps last_pull' db' else (last_pull', db'))"

definition sync_once ::
    "(central_entry list \<Rightarrow> bool) \<Rightarrow> pull_response list \<Rightarrow> rat \<Rightarrow> local_cache \<Rightarrow> rat \<times> local_cache" where
  "sync_once post resps last_pull db = pull_updates resps last_pull (push_dirty post db)"

section \<open>Merging\<close>

abbreviation app_row_of :: "local_cache \<Rightarrow> app_key \<Rightarrow> app_cache_row option" where
  "app_row_of db \<equiv> map_of (lc_app_cache db)"

definition newer :: "app_cache_row option \<Rightarrow> central_entry \<Rightarrow> app_cache_row option" where
  "newer row e =
     Some (case row of
        None \<Rightarrow> \<lparr>ac_value = en_value e, ac_ttl_seconds = en_ttl_seconds e, ac_updated_at = en_updated_at e, ac_dirty = False\<rparr>
      | Some r \<Rightarrow> if ac_updated_at r < en_updated_at e
                  then r\<lparr>ac_value := en_value e, ac_ttl_seconds := en_ttl_seconds e, ac_updated_at := en_updated_at e\<rparr>
                  else r)"

lemma merge_entry_row: "app_row_of (merge_entry e db) k = (if k = en_key e then newer (app_row_of db k) e else app_row_of db k)"
  by (simp add: merge_entry_def app_table.lookup_upsert newer_def)

lemma merge_all_row:
  "app_row_of (app_cache_upsert_from_central es db) k = foldl newer (app_row_of db k) (filter (\<lambda>e. en_key e = k) es)"
  unfolding app_cache_upsert_from_central_def
  by (induction es arbitrary: db) (auto simp: merge_entry_row)

text \<open>The newest write wins, and the row keeps its own value unless a newer one is merged.\<close>

lemma newest_wins:
  assumes "foldl newer row es = Some r"
  shows "(\<forall>e \<in> set es. en_updated_at e \<le> ac_updated_at r) \<and> (\<forall>r0. row = Some r0 \<longrightarrow> ac_updated_at r0 \<le> ac_updated_at r) \<and>
    ((\<exists>r0. row = Some r0 \<and> ac_value r = ac_value r0 \<and> ac_updated_at r = ac_updated_at r0) \<or>
     (\<exists>e \<in> set es. ac_value r = en_value e \<and> ac_updated_at r = en_updated_at e))"
  using assms
proof (induction es arbitrary: row)
  case (Cons e es)
  let ?row = "newer row e"
  obtain r1 where r1: "?row = Some r1" by (simp add: newer_def)
  have "foldl newer ?row es = Some r" using Cons.prems by simp
  note IH = Cons.IH [OF this]
  have r1_facts: "en_updated_at e \<le> ac_updated_at r1" "\<forall>r0. row = Some r0 \<longrightarrow> ac_updated_at r0 \<le> ac_updated_at r1"
    "(\<exists>r0. row = Some r0 \<and> ac_value r1 = ac_value r0 \<and> ac_updated_at r1 = ac_updated_at r0) \<or>
      (ac_value r1 = en_value e \<and> ac_updated_at r1 = en_updated_at e)"
    using r1 by (auto simp: newer_def split: option.splits if_splits)
  have le: "ac_updated_at r1 \<le> ac_updated_at r" using IH r1 by blast
  have "\<forall>x \<in> set (e # es). en_updated_at x \<le> ac_updated_at r" using IH r1_facts(1) le by auto
  moreover have "\<forall>r0. row = Some r0 \<longrightarrow> ac_updated_at r0 \<le> ac_updated_at r" using r1_facts(2) le by fastforce
  moreover have "(\<exists>r0. row = Some r0 \<and> ac_value r = ac_value r0 \<and> ac_updated_at r = ac_updated_at r0) \<or>
     (\<exists>x \<in> set (e # es). ac_value r = en_value x \<and> ac_updated_at r = en_updated_at x)"
  proof (cases "\<exists>x \<in> set es. ac_value r = en_value x \<and> ac_updated_at r = en_updated_at x")
    case False
    then have "ac_value r = ac_value r1 \<and> ac_updated_at r = ac_updated_at r1" using IH r1 by auto
    then show ?thesis using r1_facts(3) by auto
  qed auto
  ultimately show ?case by blast
qed auto

lemma newer_commute:
  "en_updated_at e \<noteq> en_updated_at e' \<Longrightarrow> newer (newer row e) e' = newer (newer row e') e"
  by (cases row) (auto simp: newer_def)

lemma mark_clean_row:
  "app_row_of (app_cache_mark_clean ks db) k =
     (if k \<in> set ks then map_option (\<lambda>r. r\<lparr>ac_dirty := False\<rparr>) (app_row_of db k) else app_row_of db k)"
proof -
  have one: "app_row_of (mark_clean_one a d) k =
      (if k = a then map_option (\<lambda>r. r\<lparr>ac_dirty := False\<rparr>) (app_row_of d k) else app_row_of d k)" for a d
    by (auto simp: mark_clean_one_def app_table.lookup_upsert split: option.splits)
  have idem: "map_option (\<lambda>r. r\<lparr>ac_dirty := False\<rparr>) (map_option (\<lambda>r. r\<lparr>ac_dirty := False\<rparr>) x) =
      map_option (\<lambda>r. r\<lparr>ac_dirty := False\<rparr>) (x :: app_cache_row option)" for x
    by (cases x) auto
  have "app_row_of (fold mark_clean_one ks db) k =
     (if k \<in> set ks then map_option (\<lambda>r. r\<lparr>ac_dirty := False\<rparr>) (app_row_of db k) else app_row_of db k)"
  proof (induction ks arbitrary: db)
    case (Cons a ks)
    show ?case
    proof (cases "k = a")
      case True
      have "app_row_of (mark_clean_one a db) k = map_option (\<lambda>r. r\<lparr>ac_dirty := False\<rparr>) (app_row_of db k)"
        using one [of a db] True by simp
      then show ?thesis using Cons.IH [of "mark_clean_one a db"] idem True by simp
    qed (use Cons.IH [of "mark_clean_one a db"] one [of a db] in simp)
  qed simp
  then show ?thesis by (simp add: app_cache_mark_clean_def)
qed

section \<open>Properties\<close>

definition demo_entry :: central_entry where
  "demo_entry = \<lparr>en_key = (''app'', ''dev'', ''k''), en_value = JInt 2, en_ttl_seconds = None, en_updated_at = 20\<rparr>"

definition demo_apps :: local_cache where
  "demo_apps = app_cache_set 10 (''app'', ''dev'', ''k'') (JInt 1) None
     \<lparr>lc_cache = [], lc_jobs = [], lc_profiles = [], lc_apps = [], lc_credentials = [],
      lc_results = [], lc_next_id = 1, lc_app_cache = []\<rparr>"

lemmas demo_app_defs = demo_entry_def demo_apps_def app_cache_set_def app_cache_store_def

text \<open>
  Last writer wins.  After merging any entries from central, the row of a key is at least as new
  as the row before and as every entry of that key, and its value is the one written at its time
  by one of them.
\<close>

theorem app_cache_last_writer_wins:
  assumes "app_row_of (app_cache_upsert_from_central es db) k = Some r"
  shows "(\<forall>e \<in> set es. en_key e = k \<longrightarrow> en_updated_at e \<le> ac_updated_at r) \<and>
    (\<forall>r0. app_row_of db k = Some r0 \<longrightarrow> ac_updated_at r0 \<le> ac_updated_at r) \<and>
    ((\<exists>r0. app_row_of db k = Some r0 \<and> ac_value r = ac_value r0 \<and> ac_updated_at r = ac_updated_at r0) \<or>
     (\<exists>e \<in> set es. en_key e = k \<and> ac_value r = en_value e \<and> ac_updated_at r = en_updated_at e))"
  using newest_wins [OF assms [unfolded merge_all_row]] by auto

theorem app_cache_last_writer_wins_witness:
  "\<exists>r. app_row_of (app_cache_upsert_from_central [demo_entry] demo_apps) (en_key demo_entry) = Some r \<and>
     en_updated_at demo_entry \<le> ac_updated_at r"
proof -
  obtain r where r: "app_row_of (app_cache_upsert_from_central [demo_entry] demo_apps) (en_key demo_entry) = Some r"
    by (simp add: merge_all_row newer_def)
  show ?thesis using app_cache_last_writer_wins [OF r] r by auto
qed

text \<open>
  Merging converges: two entries written at different times, or for different keys, may arrive
  in either order.
\<close>

theorem app_cache_merge_converges:
  assumes "en_key e = en_key e' \<Longrightarrow> en_updated_at e \<noteq> en_updated_at e'"
  shows "app_row_of (app_cache_upsert_from_central [e, e'] db) = app_row_of (app_cache_upsert_from_central [e', e] db)"
  using assms newer_commute [of e e'] by (intro ext) (auto simp: merge_all_row)

theorem app_cache_merge_converges_witness:
  "app_row_of (app_cache_upsert_from_central [demo_entry, demo_entry\<lparr>en_updated_at := 30\<rparr>] demo_apps) =
   app_row_of (app_cache_upsert_from_central [demo_entry\<lparr>en_updated_at := 30\<rparr>, demo_entry] demo_apps)"
  by (rule app_cache_merge_converges) (simp add: demo_entry_def)

text \<open>
  A write can be lost.  When an app writes a key while an accepted push of that key is under way,
  marking the pushed keys clean also cleans the new value, which central has not seen and which
  the next push does not contain.
\<close>

theorem app_cache_write_during_push_is_not_pushed:
  assumes "e \<in> set (push_entries db)" and "en_key e = k"
  shows "let db' = finish_push True (push_entries db) (app_cache_set now k v ttl db) in
    app_row_of db' k = Some \<lparr>ac_value = v, ac_ttl_seconds = ttl, ac_updated_at = now, ac_dirty = False\<rparr>"
proof -
  have "push_entries db \<noteq> []" and "k \<in> en_key ` set (push_entries db)" using assms by auto
  then show ?thesis
    by (simp add: finish_push_def mark_clean_row app_cache_set_def app_table.lookup_upsert Let_def)
qed

lemma demo_push: "demo_entry\<lparr>en_value := JInt 1, en_updated_at := 10\<rparr> \<in> set (push_entries demo_apps)"
  by (simp add: push_entries_def app_cache_get_dirty_def demo_app_defs)

theorem app_cache_write_during_push_is_not_pushed_witness:
  "let db' = finish_push True (push_entries demo_apps) (app_cache_set 11 (''app'', ''dev'', ''k'') (JInt 5) None demo_apps) in
    app_row_of db' (''app'', ''dev'', ''k'') = Some \<lparr>ac_value = JInt 5, ac_ttl_seconds = None, ac_updated_at = 11, ac_dirty = False\<rparr>"
  by (rule app_cache_write_during_push_is_not_pushed [OF demo_push]) (simp add: demo_entry_def)

text \<open>
  The TTL cache serves an entry exactly as long as the cleanup keeps it.
\<close>

theorem ttl_cache_get_matches_cleanup:
  assumes "wf_dict (lc_cache db)"
  shows "fst (cache_get now key db) = map_of (lc_cache (snd (cleanup_expired now db))) key"
  using cache_get_cleanup [OF assms] .

theorem ttl_cache_get_matches_cleanup_witness:
  "fst (cache_get 5 ''k'' (cache_put 0 ''k'' ''v'' 60 ''n'' True demo_apps)) =
     map_of (lc_cache (snd (cleanup_expired 5 (cache_put 0 ''k'' ''v'' 60 ''n'' True demo_apps)))) ''k''"
  by (rule ttl_cache_get_matches_cleanup) (simp add: cache_put_def cache_store_def demo_app_defs)

end
