(* ===== verification/Spec2Isabelle.thy ===== *)
theory Spec2Isabelle
  imports Leader Job_Ring_Weights Buffers_Props Templates_Props Automation_Results Sessions_Results Login_Guard Access_Results Entitlement_Props Collector_Lifecycle_Examples Os_Rollout_Results Poll_Results Alert_Results Alert_Sync_Props Incident_Results Dsl_Results Planner_Results Forwarder_Props Scheduler_Props App_Cache
begin

text \<open>
  MonCTL is a distributed monitoring system: a central server (several instances behind a load
  balancer, PostgreSQL for the configuration, ClickHouse for the measurements, Redis for caches and
  locks), collectors that poll devices (a cache node per host that pulls jobs from central and
  serves poll workers over gRPC), and an installer that plans a cluster from an inventory.  This
  library models the core logic of the Python packages \<open>monctl_central\<close>, \<open>monctl_collector\<close> and
  \<open>monctl_installer\<close> under \<open>src/packages\<close> and proves what makes it correct.

  How the parts interact.  Central hands each collector of a group its share of the jobs
  (\<open>Job_Ring\<close>); the collector's scheduler keeps them in SQLite and gives them to its workers
  (\<open>Scheduler\<close>, \<open>Local_Cache\<close>); a worker fetches its list and executes the due jobs
  (\<open>Poll_Engine\<close>, \<open>Heapq\<close>); the results are buffered and sent on (\<open>Forwarder\<close>); central finds the
  interface they belong to (\<open>Interface_Identity\<close>) and buffers the rows for ClickHouse (\<open>Buffers\<close>).
  Who may do so is decided by sessions and API keys (\<open>Sessions\<close>, \<open>Access\<close>), by what a collector is
  entitled to (\<open>Entitlement\<close>), and by its registration and approval (\<open>Collector_Lifecycle\<close>), on whose
  table the division of the jobs rests.  Packages of the operating system are rolled out over central
  nodes and collectors step by step (\<open>Os_Rollout\<close>).  Every thirty seconds the instance that leads
  (\<open>Leader\<close>) runs the scheduler loop: alert definitions are compiled to SQL (\<open>Dsl_*\<close>) and evaluated into alert instances (\<open>Alert_Engine\<close>, \<open>Alert_Sync\<close>), the
  incident rules turn the instances into incidents (\<open>Incident_Engine\<close>), whose transitions start
  automations (\<open>Automations\<close>).  Templates configure devices and interfaces (\<open>Templates\<close>,
  \<open>Interface_Rules\<close>).

  Conventions.  A class or ORM row is a record with the code's field names behind a prefix, a table is
  the list of its rows, a dict is an association list in insertion order (\<open>dict\<close> in \<open>Prelude\<close>), a JSON
  value is \<open>json\<close> in \<open>PyText\<close>, a float is \<open>pyfloat\<close> in \<open>PyFloat\<close>: an IEEE double as a rational that
  \<open>to_double\<close> rounds, an infinity or NaN (signed zeros are not told apart).  Integers are Python's,
  so unbounded; times are integers of microseconds, in the theories on
  authentication and on the life of a collector of seconds.  An exception is a left value of a sum (\<open>ebind\<close>
  is the sequence), a rollback gives back the state from before.  Code that awaits is cut into the
  steps between its awaits, and a component whose tasks interleave is an event system
  (\<open>Event_System\<close>: the locale \<open>event_system\<close> and its fact \<open>run_inv\<close>, interpreted for the election,
  the poll engine, the write buffer, the interfaces, the sessions, the API keys and the collectors).
  Where Redis may fail, each call has a fate (\<open>Answered\<close>, \<open>Lost_answer\<close>, \<open>Refused\<close> in \<open>Auth_Store\<close>) that
  the theorems quantify over.  The other contracts are locales as well:
  \<open>keyed_table\<close> (the tables of the SQLite cache), \<open>result_buffer\<close> (what the forwarder needs of it),
  \<open>severity_scale\<close> (the two orders of severities).

  The theories, by component:

  \<^item> Base.  \<open>Prelude\<close> (errors, characters, numerals, dicts), \<open>PyFloat\<close> (rounding, comparison and
    arithmetic of doubles, \<open>round\<close>, \<open>repr\<close>), \<open>PyText\<close> (cells, JSON, \<open>float()\<close>, \<open>json.dumps\<close>,
    \<open>str.format_map\<close>), \<open>Heapq\<close> (Python's heap algorithms, shown to be a priority queue),
    \<open>Event_System\<close>.
  \<^item> Expression language, \<open>alerting/dsl.py\<close>.  \<open>Dsl_Lexer\<close>, \<open>Dsl_Parser\<close> (the recursive descent with its
    backtracking, exceptions and counters), \<open>Dsl_Compiler\<close> (\<open>_Compiler\<close>, \<open>compile_to_sql\<close>),
    \<open>Dsl_Validate\<close>, \<open>Dsl_Print\<close>; lemmas in \<open>Dsl_Parser_Props\<close>, \<open>Dsl_Compiler_Props\<close>; properties in
    \<open>Dsl_Results\<close>: the parser ends and keeps the limits, strings are bound and never spliced,
    validation and compilation agree.
  \<^item> Alerts, \<open>alerting/engine.py\<close> and \<open>severity.py\<close>.  \<open>Severity\<close>, \<open>Alert_Engine\<close> (a whole cycle: due
    definitions, queries, tiers, the transitions of an instance, the log records), \<open>Alert_Props\<close> (the
    abstract phase machine \<open>phase\<close> and the refinement to it), \<open>Alert_Results\<close>.  \<open>Alert_Sync\<close> with
    \<open>Alert_Sync_Props\<close>: \<open>instance_sync.py\<close>, \<open>cleanup.py\<close>, \<open>threshold_sync.py\<close>.
  \<^item> Incidents, \<open>incidents/engine.py\<close>.  \<open>Incident_Engine\<close> (rules, ladders, dependencies, flap guard,
    companions, transitions), \<open>Incident_Props\<close>, \<open>Incident_Results\<close>: at most one open incident, what a
    cycle may change, severities that only climb.
  \<^item> Automations, \<open>automations/engine.py\<close> and \<open>executor.py\<close>.  \<open>Automations\<close>, \<open>Automation_Results\<close>.
  \<^item> Leader election, \<open>scheduler/leader.py\<close>.  \<open>Leader\<close>: the Redis commands, the instances, the cluster
    with messages in flight, and the exclusion of two confirmed leaders.
  \<^item> Job distribution, \<open>collector_api/router.py\<close> and \<open>scheduler/tasks.py\<close>.  \<open>Job_Ring\<close> (the hash ring, the
    filter of \<open>GET /jobs\<close>, the rebalancing), \<open>Job_Ring_Props\<close> (partition, consistency, agreement of the
    two rings), \<open>Job_Ring_Weights\<close> (bounds through the float operations).
  \<^item> Sessions, \<open>auth/\<close>, \<open>users/router.py\<close>, \<open>roles/router.py\<close>.  \<open>Auth_Store\<close> (users, keys, Redis), \<open>Sessions\<close>
    (login, logout, the cookie, refreshing, the OAuth grants, every change that revokes), \<open>Sessions_Props\<close>
    (the invariant of tokens and versions), \<open>Sessions_Results\<close>: revoked tokens stay revoked, a cookie
    speaks for the present user, a refresh token counts once.  \<open>Login_Guard\<close> bounds the guesses that
    the lockout lets through.
  \<^item> Access control, \<open>dependencies.py\<close>, \<open>cache.py\<close>.  \<open>Access\<close> (API keys with the caches of Redis and of
    each process, the guards of the endpoints, the three layers of tenant isolation), \<open>Access_Props\<close>
    (how old an answer can be, when a revoked key dies), \<open>Access_Results\<close> (the layers agree, permissions
    were granted).
  \<^item> Collectors at central.  \<open>Entitlement\<close> with \<open>Entitlement_Props\<close> (\<open>collector_api/router.py\<close>: the caller,
    what it owns, the credentials it may read, the results and cache entries it may send);
    \<open>Collector_Lifecycle\<close> (\<open>collectors/router.py\<close>, \<open>collector_groups/router.py\<close>,
    \<open>registration_tokens/router.py\<close>, the heartbeats, the health check, the configuration with its
    credentials), \<open>Collector_Lifecycle_Props\<close> (the status machine, the invariant of the table),
    \<open>Collector_Lifecycle_Results\<close> (approval, tokens, the jobs of a group in every state, failover,
    resolved references, replaced keys, and where the code falls short), \<open>Collector_Lifecycle_Examples\<close>.
  \<^item> OS roll-out, \<open>upgrades/os_service.py\<close>, the job handlers of \<open>upgrades/router.py\<close> and
    \<open>upgrades/os_collector_api.py\<close>.  \<open>Os_Rollout\<close> (jobs of ordered steps, the driver with its lease, the
    advance after a collector's report, the handlers as events), \<open>Os_Rollout_Props\<close>, \<open>Os_Rollout_Results\<close>:
    settled steps stay, nothing is sent after a failure, and histories where the code falls short.  A
    run of the driver is one transition, with the answers of the sidecars as its parameter; a request
    that falls into a run (a cancellation) is not interleaved with it.
  \<^item> Buffers, \<open>storage/ch_buffer.py\<close> and \<open>audit/buffer.py\<close>.  \<open>Buffers\<close>, \<open>Buffers_Props\<close>.
  \<^item> Templates, \<open>templates/\<close>.  \<open>Interface_Rules\<close> (with \<open>fnmatch\<close>), \<open>Interface_Rules_Props\<close>,
    \<open>Interface_Identity\<close> (\<open>_resolve_interface_id\<close>), \<open>Templates\<close>, \<open>Templates_Props\<close>.
  \<^item> Collector.  \<open>Collector_Models\<close> (\<open>jobs/models.py\<close>), \<open>Local_Cache\<close> (\<open>cache/local_cache.py\<close>),
    \<open>Scheduler\<close> and \<open>Scheduler_Props\<close> (\<open>jobs/scheduler.py\<close>), \<open>Poll_Engine\<close> with \<open>Poll_Props\<close> and
    \<open>Poll_Results\<close> (\<open>polling/engine.py\<close>, the job list of \<open>peer/server.py\<close> and \<open>client.py\<close>), \<open>Forwarder\<close> and
    \<open>Forwarder_Props\<close> (\<open>forward/forwarder.py\<close>), \<open>App_Cache\<close> (\<open>cache/app_cache_sync.py\<close>).
  \<^item> Installer, \<open>inventory/schema.py\<close> and \<open>planner.py\<close>.  \<open>Planner\<close>, \<open>Planner_Props\<close>, \<open>Planner_Results\<close>.
  \<^item> This theory: one turn of the scheduler loop (\<open>scheduler/tasks.py\<close>), \<open>monitor_cycle\<close>, over the
    alert and incident state, and the properties that span the components.

  Fuel and bounds.  The mutually recursive methods of the parser carry fuel; \<open>parse_expression\<close> starts
  with \<open>parse_fuel = 4 * length + 5\<close>, four method calls for a token at most, and \<open>dsl_parser_returns\<close>
  shows that it never runs out.  All other recursion is structural or has a measure
  (the driver of a roll-out: the steps behind the place where it searches).  The limits of
  the code (2,000 characters and 200 tokens of an expression, 20 history entries, 500 and 10,000 rows
  of a buffer table, 5,000 audit rows, 10 million result rows, 0.3 as the smallest weight, ten failed
  logins in 600 seconds and a lockout of 900, caches of 60 and 300 seconds, 500 cached keys, codes of
  60 seconds, 90 seconds of silence) are definitions with the code's values.

  Parameters stand for what is not under \<open>src/\<close> or is no logic of the program: the answers of
  ClickHouse (\<open>env_query\<close>), PostgreSQL queries that are plain lookups, the signatures of
  JWTs, bcrypt, the decryption of secrets, the parsing of UUIDs, random ids and keys, HTTP and gRPC outcomes, SHA-256, \<open>uuid\<close>, \<open>croniter\<close>, \<open>re\<close>, \<open>ipaddress\<close>, subprocesses and WebSockets,
  connector and app code.  Orders Python leaves open (iteration of a set) are parameters as well.

  Requests on the collector table are taken one after another; \<open>one_time_token_race\<close> cuts registration
  into its reads and its writes and shows what an interleaving does.

  Not modelled: the FastAPI handlers that only read or write rows (the current user, user info and id
  tokens, preferences and the events of logins among them), the DDL and inserts of the
  ClickHouse client, packs, upgrade packages and the inventory of updates, the start-up of
  processes and virtual environments, SSH and Docker of the installer, and the frontend: they are
  input and output, or SQL text for a database this development has no model of.
\<close>

section \<open>Alerts and incidents together\<close>

text \<open>
  The alert and incident part of one turn of the scheduler loop (\<open>scheduler/tasks.py\<close>), on the
  instance that leads: evaluate the alerts, unless there is no ClickHouse, then the incident rules
  over the instances as the alert engine left them; once a day reset old resolved instances; every
  tenth turn create the instances that are missing.
\<close>

record cycle_input =
  ci_leader :: bool
  ci_ch :: bool
  ci_env :: engine_env
  ci_insert_ok :: bool
  ci_ienv :: incident_env
  ci_setting :: string
  ci_rules :: "incident_rule list"
  ci_now :: time
  ci_retention :: "string option"
  ci_assignments :: "app_assignment list"

record runner_state =
  sr_cycle :: nat
  sr_last_daily :: "time option"
  sr_db :: alert_db
  sr_incidents :: "incident list"

definition evaluate_alerts :: "cycle_input \<Rightarrow> alert_db \<Rightarrow> alert_db" where
  "evaluate_alerts c db = (if ci_ch c then evaluate_all (ci_env c) (ci_insert_ok c) db else db)"

definition evaluate_incidents :: "cycle_input \<Rightarrow> alert_db \<Rightarrow> incident list \<Rightarrow> incident list" where
  "evaluate_incidents c db incs =
     ps_incidents (incident_cycle (ci_ienv c) (ci_setting c) (db_definitions db) (db_entities db) (ci_rules c) incs)"

definition alert_history_cleanup :: "cycle_input \<Rightarrow> alert_db \<Rightarrow> alert_db" where
  "alert_history_cleanup c db =
     (case cleanup_resolved_instances (ci_retention c) (ci_now c) (db_entities db) of
        Inl _ \<Rightarrow> db
      | Inr r \<Rightarrow> db\<lparr>db_entities := snd r\<rparr>)"

text \<open>Times are microseconds since the epoch, in UTC.\<close>

definition daily_due :: "time \<Rightarrow> time option \<Rightarrow> bool" where
  "daily_due now prev \<longleftrightarrow>
     now div 3600000000 mod 24 = 0 \<and> 15 \<le> now div 60000000 mod 60 \<and>
     (case prev of None \<Rightarrow> True | Some t \<Rightarrow> 86400000000 \<le> now - t)"

definition run_rollups :: "cycle_input \<Rightarrow> runner_state \<Rightarrow> runner_state" where
  "run_rollups c s =
     (if ci_ch c \<and> daily_due (ci_now c) (sr_last_daily s)
      then s\<lparr>sr_db := alert_history_cleanup c (sr_db s), sr_last_daily := Some (ci_now c)\<rparr> else s)"

definition sync_step :: "cycle_input \<Rightarrow> runner_state \<Rightarrow> runner_state" where
  "sync_step c s =
     (if sr_cycle s mod 10 = 0
      then s\<lparr>sr_db := (sr_db s)\<lparr>db_entities :=
             sync_alert_instances (db_definitions (sr_db s)) (ci_assignments c) (db_entities (sr_db s))\<rparr>\<rparr>
      else s)"

definition monitor_cycle :: "cycle_input \<Rightarrow> runner_state \<Rightarrow> runner_state" where
  "monitor_cycle c s =
     (let s = s\<lparr>sr_cycle := sr_cycle s + 1\<rparr>
      in if \<not> ci_leader c then s
         else let s = s\<lparr>sr_db := evaluate_alerts c (sr_db s)\<rparr>;
                  s = s\<lparr>sr_incidents := evaluate_incidents c (sr_db s) (sr_incidents s)\<rparr>
              in sync_step c (run_rollups c s))"

definition db_ok :: "alert_db \<Rightarrow> bool" where
  "db_ok db \<longleftrightarrow>
     unique_keys (db_entities db) \<and>
     (\<forall>e \<in> set (db_entities db). entity_ok e \<and> CHR ''|'' \<notin> set (ae_assignment_id e))"

definition monitor_ok :: "runner_state \<Rightarrow> bool" where
  "monitor_ok s \<longleftrightarrow> db_ok (sr_db s) \<and> one_open (sr_incidents s)"

text \<open>Assignment ids are UUIDs; the alert engine joins them into keys with a bar.\<close>

definition cycle_ok :: "cycle_input \<Rightarrow> bool" where
  "cycle_ok c \<longleftrightarrow> (\<forall>a \<in> set (ci_assignments c). CHR ''|'' \<notin> set (aa_id a))"

lemma evaluate_alerts_ok:
  assumes "db_ok db"
  shows "db_ok (evaluate_alerts c db)"
proof (cases "ci_ch c")
  case True
  let ?db = "evaluate_all (ci_env c) (ci_insert_ok c) db"
  have u: "unique_keys (db_entities db)" using assms by (simp add: db_ok_def)
  note F = evaluate_all_follows [OF u, of "ci_env c" "ci_insert_ok c"]
  have "entity_ok e' \<and> CHR ''|'' \<notin> set (ae_assignment_id e')" if e': "e' \<in> set (db_entities ?db)" for e'
  proof -
    obtain e where e: "e \<in> set (db_entities db)" and f: "follows (cycle_records (ci_env c) db) e e'"
      using F(1) e' by (metis in_set_conv_nth list_all2_conv_all_nth)
    have "entity_ok e" "CHR ''|'' \<notin> set (ae_assignment_id e)" using assms e by (auto simp: db_ok_def)
    then show ?thesis using f by (auto simp: follows_def same_row_def log_key_def)
  qed
  then show ?thesis using True F(3) by (simp add: db_ok_def evaluate_alerts_def)
next
  case False
  then show ?thesis using assms by (simp add: evaluate_alerts_def)
qed

lemma evaluate_incidents_ok:
  assumes "db_ok db" and "one_open incs"
  shows "one_open (evaluate_incidents c db incs)"
proof -
  have "entities_keyed (db_entities db)" using unique_keys_keyed assms(1) by (simp add: db_ok_def)
  then show ?thesis using incident_cycle_table assms(2) by (simp add: evaluate_incidents_def)
qed

lemma alert_history_cleanup_ok:
  assumes "db_ok db"
  shows "db_ok (alert_history_cleanup c db)"
proof (cases "cleanup_resolved_instances (ci_retention c) (ci_now c) (db_entities db)")
  case (Inr r)
  then have r: "cleanup_resolved_instances (ci_retention c) (ci_now c) (db_entities db) = Inr (fst r, snd r)" by simp
  note K = cleanup_keeps [OF r]
  have "entity_ok e' \<and> CHR ''|'' \<notin> set (ae_assignment_id e')" if e': "e' \<in> set (snd r)" for e'
  proof -
    obtain i where i: "i < length (snd r)" "e' = snd r ! i" using e' by (metis in_set_conv_nth)
    have len: "length (snd r) = length (db_entities db)" using K(2) by (simp add: list_all2_lengthD)
    have "log_key e' = log_key (db_entities db ! i)" using K(1) i len by (metis nth_map)
    moreover have "entity_ok (db_entities db ! i)" "CHR ''|'' \<notin> set (ae_assignment_id (db_entities db ! i))"
      using assms i len by (simp_all add: db_ok_def)
    ultimately show ?thesis using K(2) i len by (simp add: list_all2_conv_all_nth log_key_def)
  qed
  then show ?thesis using Inr assms K(1) by (simp add: alert_history_cleanup_def db_ok_def unique_keys_def)
next
  case (Inl err)
  then show ?thesis using assms by (simp add: alert_history_cleanup_def)
qed

lemma run_rollups_ok: "monitor_ok s \<Longrightarrow> monitor_ok (run_rollups c s)"
  by (simp add: run_rollups_def monitor_ok_def alert_history_cleanup_ok)

lemma sync_step_ok:
  assumes "monitor_ok s" and "cycle_ok c"
  shows "monitor_ok (sync_step c s)"
proof -
  let ?es = "sync_alert_instances (db_definitions (sr_db s)) (ci_assignments c) (db_entities (sr_db s))"
  have "entity_ok e \<and> CHR ''|'' \<notin> set (ae_assignment_id e)" if "e \<in> set ?es" for e
    using sync_alert_instances_new [OF that] assms by (auto simp: monitor_ok_def db_ok_def cycle_ok_def)
  moreover have "unique_keys ?es" using sync_alert_instances_unique assms(1) by (simp add: monitor_ok_def db_ok_def)
  ultimately show ?thesis using assms(1) by (simp add: sync_step_def monitor_ok_def db_ok_def)
qed

lemma monitor_cycle_ok:
  assumes "monitor_ok s" and "cycle_ok c"
  shows "monitor_ok (monitor_cycle c s)"
proof (cases "ci_leader c")
  case True
  let ?s = "s\<lparr>sr_cycle := sr_cycle s + 1, sr_db := evaluate_alerts c (sr_db s),
    sr_incidents := evaluate_incidents c (evaluate_alerts c (sr_db s)) (sr_incidents s)\<rparr>"
  have "monitor_ok ?s" using assms(1) evaluate_alerts_ok evaluate_incidents_ok by (simp add: monitor_ok_def)
  then have "monitor_ok (sync_step c (run_rollups c ?s))" using run_rollups_ok sync_step_ok assms(2) by blast
  then show ?thesis using True by (simp add: monitor_cycle_def Let_def)
next
  case False
  then show ?thesis using assms(1) by (simp add: monitor_cycle_def monitor_ok_def)
qed

text \<open>
  C1: The monitoring pipeline keeps its invariants over any number of turns of the scheduler,
  whatever ClickHouse returns and whatever the rules and assignments are: from a table of
  well-formed instances with one row per definition and assignment, and at most one open incident
  per rule and entity, every later state has them again.
\<close>

theorem monitoring_pipeline_invariant:
  assumes "monitor_ok s" and "list_all cycle_ok cs"
  shows "monitor_ok (fold monitor_cycle cs s)"
  using assms monitor_cycle_ok by (induction cs arbitrary: s) simp_all

definition demo_cycle :: cycle_input where
  "demo_cycle = \<lparr>ci_leader = True, ci_ch = True, ci_env = demo_env, ci_insert_ok = True, ci_ienv = demo_ienv,
     ci_setting = ''shadow'', ci_rules = [demo_rule], ci_now = 0, ci_retention = None, ci_assignments = [demo_assignment]\<rparr>"

theorem monitoring_pipeline_invariant_witness:
  "monitor_ok (fold monitor_cycle [demo_cycle, demo_cycle]
     \<lparr>sr_cycle = 8, sr_last_daily = None, sr_db = demo_db, sr_incidents = []\<rparr>)"
proof (rule monitoring_pipeline_invariant)
  show "monitor_ok \<lparr>sr_cycle = 8, sr_last_daily = None, sr_db = demo_db, sr_incidents = []\<rparr>"
    by (simp add: monitor_ok_def db_ok_def one_open_def demo_defs unique_keys_def entity_ok_def)
  show "list_all cycle_ok [demo_cycle, demo_cycle]" by (simp add: cycle_ok_def demo_cycle_def demo_assignment_def)
qed

lemma fires_in_window: "length (filter P (window_of w xs)) \<le> length (filter P xs)"
proof -
  have "length (filter P (drop n xs)) \<le> length (filter P xs)" for n
    by (metis append_take_drop_id filter_append le_add2 length_append)
  then show ?thesis by (simp add: window_of_def last_n_def)
qed

text \<open>
  What an alert instance can satisfy.  The history the alert engine keeps has at most twenty
  entries, so a cumulative rule is met by a well-formed instance only if its threshold is at
  most twenty and at most the number of fires on record: a larger threshold, which the rule API
  accepts, never opens an incident.
\<close>

theorem cumulative_rule_bound:
  assumes "entity_ok inst" and "ir_mode rule = ''cumulative''" and "meets_threshold rule inst"
  shows "ir_fire_count_threshold rule \<le> int (length (filter id (ae_fire_history inst))) \<and>
    ir_fire_count_threshold rule \<le> 20"
proof -
  let ?n = "length (filter id (ae_fire_history inst))"
  have "?n \<le> 20" using assms(1) unfolding entity_ok_def by (blast intro: le_trans [OF length_filter_le])
  moreover have "ir_fire_count_threshold rule \<le> int ?n"
    using assms(2,3) fires_in_window [of id "ir_window_size rule" "ae_fire_history inst"] by (simp add: meets_threshold_def)
  ultimately show ?thesis by simp
qed

theorem cumulative_rule_bound_witness:
  "ir_fire_count_threshold (demo_rule\<lparr>ir_mode := ''cumulative''\<rparr>) \<le> int (length (filter id (ae_fire_history demo_fired))) \<and>
   ir_fire_count_threshold (demo_rule\<lparr>ir_mode := ''cumulative''\<rparr>) \<le> 20"
proof (rule cumulative_rule_bound)
  show "entity_ok demo_fired" by code_simp
  show "ir_mode (demo_rule\<lparr>ir_mode := ''cumulative''\<rparr>) = ''cumulative''" by simp
  show "meets_threshold (demo_rule\<lparr>ir_mode := ''cumulative''\<rparr>) demo_fired" by code_simp
qed

end
